(* ===== verification/Prelude.thy ===== *)
theory Prelude
  imports Complex_Main
begin

text \<open>
  Shared ground of the development: the JavaScript values and list operations the modelled
  TypeScript uses, the sum type of fallible handlers, the runs of a command handler, and the
  collections that carry the component proofs.

  Conventions.
  \<^item> A JavaScript string is a \<open>string\<close>: its UTF-16 code units, of which the model holds those
    below 256.  Where the code compares Chinese labels the text is a list of code units
    (\<open>utext\<close>), so nothing is lost.
  \<^item> An instant is an \<open>int\<close>, the milliseconds of the epoch.  The code keeps the ISO strings that
    \<open>Date.prototype.toISOString\<close> prints; these have a fixed width, so their lexicographic order
    (which the SQL uses) is the order of the instants.
  \<^item> A handler that may throw returns \<open>'e + 'a\<close>; \<open>Inl\<close> is the thrown error.
  \<^item> A database transaction is one function: \<open>Inl\<close> leaves the state as it was (rollback).
\<close>

named_theorems step_defs \<open>definitions of the handlers, unfolded by the preservation proofs\<close>
named_theorems inv_intros \<open>introduction rules of the component invariants\<close>

subsection \<open>Strings\<close>

type_synonym utext = "nat list"

text \<open>White space of \<open>String.prototype.trim\<close> and of the regular expression class, over code units.\<close>

definition js_space :: "nat \<Rightarrow> bool" where
  "js_space c \<longleftrightarrow> c \<in> {9, 10, 11, 12, 13, 32, 160, 5760, 8232, 8233, 8239, 8287, 12288, 65279}
     \<or> (8192 \<le> c \<and> c \<le> 8202)"

definition text_trim :: "utext \<Rightarrow> utext" where
  "text_trim t = rev (dropWhile js_space (rev (dropWhile js_space t)))"

definition js_trim :: "string \<Rightarrow> string" where
  "js_trim s = rev (dropWhile (\<lambda>c. js_space (of_char c)) (rev (dropWhile (\<lambda>c. js_space (of_char c)) s)))"

definition blank :: "string \<Rightarrow> bool" where
  "blank s \<longleftrightarrow> (\<forall>c \<in> set s. js_space (of_char c))"

definition ascii_text :: "string \<Rightarrow> utext" where
  "ascii_text s = map of_char s"

definition text_ascii :: "utext \<Rightarrow> string option" where
  "text_ascii t = (if list_all (\<lambda>c. c < 256) t then Some (map char_of t) else None)"

lemma all_dropWhile: "(\<forall>c \<in> set (dropWhile P s). P c) \<longleftrightarrow> (\<forall>c \<in> set s. P c)"
  by (induction s) auto

lemma js_trim_eq_Nil [simp]: "js_trim s = [] \<longleftrightarrow> blank s"
  by (simp add: js_trim_def blank_def all_dropWhile)

lemma text_ascii_ascii_text [simp]: "text_ascii (ascii_text s) = Some s"
  by (simp add: text_ascii_def ascii_text_def list_all_iff comp_def)

fun show_nat_aux :: "nat \<Rightarrow> nat \<Rightarrow> string" where
  "show_nat_aux 0 n = []"
| "show_nat_aux (Suc k) n =
     (if n < 10 then [char_of (48 + n)] else show_nat_aux k (n div 10) @ [char_of (48 + n mod 10)])"

definition show_nat :: "nat \<Rightarrow> string" where
  "show_nat n = show_nat_aux (Suc n) n"

subsection \<open>JSON values\<close>

text \<open>A value of type \<open>unknown\<close> in the code; a finite number is the rational it denotes.\<close>

datatype js =
    JUndefined | JNull | JBool bool | JNum rat | JStr string | JArr "js list" | JObj "(string \<times> js) list"

definition is_integer :: "rat \<Rightarrow> bool" where
  "is_integer r \<longleftrightarrow> of_int \<lfloor>r\<rfloor> = r"

definition js_field :: "string \<Rightarrow> (string \<times> js) list \<Rightarrow> js" where
  "js_field k kvs = (case map_of kvs k of None \<Rightarrow> JUndefined | Some v \<Rightarrow> v)"

subsection \<open>Lists\<close>

text \<open>\<open>[...new Set(xs)]\<close>: the first occurrence of each element, in order.\<close>

fun js_uniq_from :: "'a list \<Rightarrow> 'a list \<Rightarrow> 'a list" where
  "js_uniq_from seen [] = []"
| "js_uniq_from seen (x # xs) =
     (if x \<in> set seen then js_uniq_from seen xs else x # js_uniq_from (x # seen) xs)"

definition js_uniq :: "'a list \<Rightarrow> 'a list" where
  "js_uniq xs = js_uniq_from [] xs"

lemma set_js_uniq_from: "set (js_uniq_from seen xs) = set xs - set seen"
  by (induction xs arbitrary: seen) auto

lemma distinct_js_uniq_from: "distinct (js_uniq_from seen xs)"
  by (induction xs arbitrary: seen) (auto simp: set_js_uniq_from)

lemma set_js_uniq [simp]: "set (js_uniq xs) = set xs"
  by (simp add: js_uniq_def set_js_uniq_from)

lemma distinct_js_uniq [simp]: "distinct (js_uniq xs)"
  by (simp add: js_uniq_def distinct_js_uniq_from)

lemma js_uniq_eq_Nil [simp]: "js_uniq xs = [] \<longleftrightarrow> xs = []"
  by (cases xs) (auto simp: js_uniq_def)

text \<open>\<open>findIndex\<close> and \<open>indexOf\<close>: \<open>-1\<close> when nothing is found.\<close>

fun find_index :: "('a \<Rightarrow> bool) \<Rightarrow> 'a list \<Rightarrow> int" where
  "find_index p [] = -1"
| "find_index p (x # xs) =
     (if p x then 0 else let i = find_index p xs in if i < 0 then -1 else i + 1)"

abbreviation index_of :: "'a \<Rightarrow> 'a list \<Rightarrow> int" where
  "index_of x \<equiv> find_index (\<lambda>y. y = x)"

lemma find_index_ge: "-1 \<le> find_index p xs"
  by (induction xs) (auto simp: Let_def)

lemma find_index_neg: "find_index p xs < 0 \<longleftrightarrow> (\<forall>x \<in> set xs. \<not> p x)"
  by (induction xs) (auto simp: Let_def)

lemma find_index_less: "find_index p xs < int (length xs)"
  by (induction xs) (auto simp: Let_def)

lemma find_index_nth: "0 \<le> find_index p xs \<Longrightarrow> p (xs ! nat (find_index p xs))"
  by (induction xs) (auto simp: Let_def nat_add_distrib split: if_splits)

lemma index_of_nth: "0 \<le> index_of x xs \<Longrightarrow> xs ! nat (index_of x xs) = x"
  by (rule find_index_nth)

lemma find_index_inj:
  assumes "0 \<le> index_of x xs" and "index_of x xs = index_of y xs"
  shows "x = y"
proof -
  have "x = xs ! nat (index_of x xs)" using assms(1) by (rule index_of_nth [symmetric])
  also have "\<dots> = xs ! nat (index_of y xs)" by (simp only: assms(2))
  also have "\<dots> = y" using assms by (intro index_of_nth) simp
  finally show ?thesis .
qed

lemma index_of_distinct: "distinct xs \<Longrightarrow> i < length xs \<Longrightarrow> xs ! i = x \<Longrightarrow> index_of x xs = int i"
proof (induction xs arbitrary: i)
  case (Cons y ys)
  then show ?case by (cases i) (auto simp: Let_def)
qed simp

text \<open>\<open>xs.slice(a, b)\<close> for bounds within range.\<close>

definition slice :: "nat \<Rightarrow> nat \<Rightarrow> 'a list \<Rightarrow> 'a list" where
  "slice a b xs = take (b - a) (drop a xs)"

lemma last_slice: "i < j \<Longrightarrow> j < length xs \<Longrightarrow> last (slice (Suc i) (Suc j) xs) = xs ! j"
  unfolding slice_def by (subst last_conv_nth) auto

lemma length_slice: "j < length xs \<Longrightarrow> length (slice (Suc i) (Suc j) xs) = j - i"
  by (simp add: slice_def)

lemma slice_Cons:
  assumes "i < j" and "j < length xs"
  shows "slice (Suc i) (Suc j) xs = xs ! Suc i # slice (Suc (Suc i)) (Suc j) xs"
proof -
  from assms have "drop (Suc i) xs = xs ! Suc i # drop (Suc (Suc i)) xs"
    by (intro Cons_nth_drop_Suc [symmetric]) simp
  moreover from assms have "Suc j - Suc i = Suc (Suc j - Suc (Suc i))" by simp
  ultimately show ?thesis by (simp add: slice_def)
qed

text \<open>Replace the first element with a property (what mutating \<open>xs.find(p)\<close> does).\<close>

fun update_first :: "('a \<Rightarrow> bool) \<Rightarrow> ('a \<Rightarrow> 'a) \<Rightarrow> 'a list \<Rightarrow> 'a list" where
  "update_first p f [] = []"
| "update_first p f (x # xs) = (if p x then f x # xs else x # update_first p f xs)"

text \<open>\<open>xs.splice(xs.indexOf(found) + 1, 0, y)\<close>, for the first element with the property.\<close>

fun insert_after_first :: "('a \<Rightarrow> bool) \<Rightarrow> 'a \<Rightarrow> 'a list \<Rightarrow> 'a list" where
  "insert_after_first p y [] = []"
| "insert_after_first p y (x # xs) = (if p x then x # y # xs else x # insert_after_first p y xs)"

lemma length_update_first [simp]: "length (update_first p f xs) = length xs"
  by (induction xs) auto

lemma update_first_None: "find p xs = None \<Longrightarrow> update_first p f xs = xs"
  by (induction xs) (auto split: if_splits)

lemma find_SomeD: "find p xs = Some x \<Longrightarrow> x \<in> set xs \<and> p x"
  by (induction xs) (auto split: if_splits)

lemma find_NoneD: "find p xs = None \<Longrightarrow> x \<in> set xs \<Longrightarrow> \<not> p x"
  by (induction xs) (auto split: if_splits)

subsection \<open>Runs of a command handler\<close>

text \<open>
  A handler takes the state and a command and either fails (the transaction is rolled back) or
  returns the next state.  \<open>run_cmds\<close> serves a sequence of commands.
\<close>

fun run_cmds :: "('s \<Rightarrow> 'c \<Rightarrow> 'e + 's) \<Rightarrow> 's \<Rightarrow> 'c list \<Rightarrow> 's" where
  "run_cmds step s [] = s"
| "run_cmds step s (c # cs) =
     (case step s c of Inl _ \<Rightarrow> run_cmds step s cs | Inr s' \<Rightarrow> run_cmds step s' cs)"

lemma run_cmds_append: "run_cmds step s (cs @ ds) = run_cmds step (run_cmds step s cs) ds"
  by (induction cs arbitrary: s) (auto split: sum.splits)

end
