(* ===== verification/Stages.thy ===== *)
theory Stages
  imports Prelude "HOL-Library.Product_Lexorder"
begin

text \<open>
  \<open>backend/src/stages.ts\<close>: the fifteen main stages of a collaboration and its six side and
  terminal stages, the translation between Host codes, Starry codes and Chinese labels, the merge
  of a remote stage into the local one, the targets an automatic fact and a human may choose, the
  walk the Starry adapter takes, and the evidence-backed pointer.

  The tables are association lists in the order of the source; \<open>map_of\<close> is the property lookup.
  An optional parameter is an \<open>option\<close>; both a missing and an empty string are falsy, as in the
  code.  Chinese labels are lists of UTF-16 code units.  The \<open>note\<close> of a confirm option, a
  sentence for the operator, is the constructor that names it.
\<close>

section \<open>Stages and their tables\<close>

datatype capability_domain = Lead | Opportunity | Negotiation | Execution | SettlementGrowth

datatype advancement_mode =
    AutoRecord | AiSuggestHumanConfirm | FactTriggered | ControlledExecution | ApprovalRequired
  | RuleOrHuman | LogisticsFactAuto | ReviewRequired | AdvanceAfterReview | PlatformFactAuto
  | FinanceFactOrApproval | Bypass | Terminal

record stage =
  stage_code :: string
  stage_label :: utext
  stage_coarse :: "capability_domain option"
  stage_domain :: "capability_domain option"
  stage_mode :: advancement_mode
  stage_main :: bool
  stage_terminal :: bool

definition mk_stage ::
  "string \<Rightarrow> utext \<Rightarrow> capability_domain option \<Rightarrow> advancement_mode \<Rightarrow> bool \<Rightarrow> bool \<Rightarrow> stage" where
  "mk_stage c l d m mn t =
     \<lparr>stage_code = c, stage_label = l, stage_coarse = d, stage_domain = d, stage_mode = m,
      stage_main = mn, stage_terminal = t\<rparr>"

definition MAIN_STAGES :: "stage list" where
  "MAIN_STAGES =
    [mk_stage ''INITIAL_CONTACT'' [0x521D, 0x6B65, 0x63A5, 0x89E6] (Some Lead) AutoRecord True False,
     mk_stage ''INTERESTED'' [0x5DF2, 0x56DE, 0x590D, 0x002D, 0x6709, 0x5174, 0x8DA3] (Some Opportunity) AiSuggestHumanConfirm True False,
     mk_stage ''EVALUATING'' [0x5408, 0x4F5C, 0x8BC4, 0x4F30] (Some Opportunity) AiSuggestHumanConfirm True False,
     mk_stage ''QUOTE_PENDING'' [0x62A5, 0x4EF7, 0x5F85, 0x786E, 0x8BA4] (Some Negotiation) FactTriggered True False,
     mk_stage ''NEGOTIATING'' [0x5546, 0x52A1, 0x8C08, 0x5224] (Some Negotiation) ControlledExecution True False,
     mk_stage ''PLAN_PENDING'' [0x65B9, 0x6848, 0x5F85, 0x786E, 0x8BA4] (Some Negotiation) ApprovalRequired True False,
     mk_stage ''CONTRACTING'' [0x5408, 0x540C, 0x7B7E, 0x7F72] (Some Execution) ApprovalRequired True False,
     mk_stage ''SAMPLE_PENDING'' [0x5F85, 0x5BC4, 0x6837] (Some Execution) RuleOrHuman True False,
     mk_stage ''SHIPPED'' [0x5DF2, 0x53D1, 0x8D27] (Some Execution) LogisticsFactAuto True False,
     mk_stage ''TESTING'' [0x5DF2, 0x7B7E, 0x6536, 0x002D, 0x6D4B, 0x8BD5, 0x4E2D] (Some Execution) LogisticsFactAuto True False,
     mk_stage ''CONTENT_PLANNING'' [0x5185, 0x5BB9, 0x7B56, 0x5212] (Some Execution) AiSuggestHumanConfirm True False,
     mk_stage ''CONTENT_REVIEW'' [0x5185, 0x5BB9, 0x5BA1, 0x6838] (Some Execution) ReviewRequired True False,
     mk_stage ''PUBLISH_PENDING'' [0x5F85, 0x53D1, 0x5E03] (Some Execution) AdvanceAfterReview True False,
     mk_stage ''PUBLISHED'' [0x5DF2, 0x53D1, 0x5E03] (Some Execution) PlatformFactAuto True False,
     mk_stage ''SETTLING'' [0x7ED3, 0x7B97, 0x4E2D, 0x0020, 0x002F, 0x0020, 0x5DF2, 0x4ED8, 0x6B3E] (Some SettlementGrowth) FinanceFactOrApproval True False]"

definition SIDE_STAGES :: "stage list" where
  "SIDE_STAGES =
    [mk_stage ''PAUSED'' [0x5DF2, 0x6682, 0x505C] None Bypass False False,
     mk_stage ''LOST'' [0x5DF2, 0x6D41, 0x5931] None Terminal False True,
     mk_stage ''REJECTED'' [0x5DF2, 0x62D2, 0x7EDD] None Terminal False True,
     mk_stage ''CANCELLED'' [0x5DF2, 0x53D6, 0x6D88] None Terminal False True,
     mk_stage ''DISPUTED'' [0x4E89, 0x8BAE, 0x4E2D] None Bypass False False,
     mk_stage ''COMPLETED'' [0x5DF2, 0x5B8C, 0x6210] None Terminal False True]"

definition STAGES :: "stage list" where
  "STAGES = MAIN_STAGES @ SIDE_STAGES"

definition PIPELINE_COLUMNS :: "capability_domain list" where
  "PIPELINE_COLUMNS = [Lead, Opportunity, Negotiation, Execution, SettlementGrowth]"

definition BY_CODE :: "string \<Rightarrow> stage option" where
  "BY_CODE c = map_of (map (\<lambda>s. (stage_code s, s)) STAGES) c"

definition NEXT_STAGE_TABLE :: "(string \<times> string option) list" where
  "NEXT_STAGE_TABLE =
    [(''INITIAL_CONTACT'', Some ''INTERESTED''),
     (''INTERESTED'', Some ''EVALUATING''),
     (''EVALUATING'', Some ''QUOTE_PENDING''),
     (''QUOTE_PENDING'', Some ''NEGOTIATING''),
     (''NEGOTIATING'', Some ''PLAN_PENDING''),
     (''PLAN_PENDING'', Some ''CONTRACTING''),
     (''CONTRACTING'', Some ''SAMPLE_PENDING''),
     (''SAMPLE_PENDING'', Some ''SHIPPED''),
     (''SHIPPED'', Some ''TESTING''),
     (''TESTING'', Some ''CONTENT_PLANNING''),
     (''CONTENT_PLANNING'', Some ''CONTENT_REVIEW''),
     (''CONTENT_REVIEW'', Some ''PUBLISH_PENDING''),
     (''PUBLISH_PENDING'', Some ''PUBLISHED''),
     (''PUBLISHED'', Some ''SETTLING''),
     (''SETTLING'', Some ''COMPLETED''),
     (''PAUSED'', None), (''DISPUTED'', None), (''LOST'', None), (''REJECTED'', None), (''CANCELLED'', None), (''COMPLETED'', None)]"

definition NEXT_STAGE :: "string \<Rightarrow> string option" where
  "NEXT_STAGE c = (case map_of NEXT_STAGE_TABLE c of None \<Rightarrow> None | Some n \<Rightarrow> n)"

definition LEGACY_STAGE_ALIASES :: "(string \<times> string) list" where
  "LEGACY_STAGE_ALIASES =
    [(''INTEREST_CONFIRMED'', ''INTERESTED''),
     (''COOPERATION_EVALUATION'', ''EVALUATING''),
     (''BUSINESS_NEGOTIATION'', ''NEGOTIATING''),
     (''CONTRACT_SIGNING'', ''CONTRACTING''),
     (''DELIVERED_TESTING'', ''TESTING''),
     (''PENDING_PUBLISH'', ''PUBLISH_PENDING''),
     (''SETTLING_PAID'', ''SETTLING''),
     (''EXCEPTION_HANDLING'', ''DISPUTED'')]"

definition COARSE_STAGE_ALIASES :: "(utext \<times> string) list" where
  "COARSE_STAGE_ALIASES =
    [([0x5EFA, 0x8054], ''INITIAL_CONTACT''),
     ([0x5F85, 0x5EFA, 0x8054], ''INITIAL_CONTACT''),
     ([0x672A, 0x5EFA, 0x8054], ''INITIAL_CONTACT''),
     ([0x5DF2, 0x5EFA, 0x8054], ''INITIAL_CONTACT''),
     ([0x5DF2, 0x7B7E, 0x7EA6], ''CONTRACTING''),
     ([0x5DF2, 0x5B8C, 0x6210], ''COMPLETED''),
     ([0x6682, 0x7F13], ''PAUSED''),
     ([0x5DF2, 0x62D2, 0x7EDD], ''REJECTED''),
     ([0x5DF2, 0x53D6, 0x6D88], ''CANCELLED''),
     ([0x5DF2, 0x6D41, 0x5931], ''LOST''),
     ([0x4E89, 0x8BAE, 0x4E2D], ''DISPUTED''),
     ([0x5F02, 0x5E38, 0x5904, 0x7406], ''DISPUTED''),
     ([0x610F, 0x5411], ''INTERESTED''),
     ([0x8BC4, 0x4F30, 0x62A5, 0x4EF7], ''EVALUATING''),
     ([0x65B9, 0x6848, 0x7B7E, 0x7EA6], ''PLAN_PENDING''),
     ([0x5BC4, 0x6837, 0x6D4B, 0x8BC4], ''SAMPLE_PENDING''),
     ([0x5185, 0x5BB9, 0x53D1, 0x5E03], ''CONTENT_PLANNING''),
     ([0x7ED3, 0x7B97], ''SETTLING'')]"

definition main_codes :: "string list" where
  "main_codes = map stage_code MAIN_STAGES"

definition all_codes :: "string list" where
  "all_codes = map stage_code STAGES"

section \<open>Codes and labels\<close>

definition normalizeStage :: "string \<Rightarrow> string" where
  "normalizeStage c = (case map_of LEGACY_STAGE_ALIASES c of None \<Rightarrow> c | Some d \<Rightarrow> d)"

definition label :: "string \<Rightarrow> utext" where
  "label c = (let n = normalizeStage c in
     case BY_CODE n of Some s \<Rightarrow> stage_label s | None \<Rightarrow> ascii_text n)"

definition codeFromLabel :: "utext option \<Rightarrow> string option" where
  "codeFromLabel v =
    (let trimmed = text_trim (case v of None \<Rightarrow> [] | Some t \<Rightarrow> t) in
     if trimmed = [] then None
     else
       (let asCode = (case text_ascii trimmed of None \<Rightarrow> None
                      | Some s \<Rightarrow> map_option stage_code (BY_CODE (normalizeStage s)))
        in case asCode of Some c \<Rightarrow> Some c
        | None \<Rightarrow>
          (let compact = filter (\<lambda>c. \<not> js_space c) trimmed in
           case find (\<lambda>s. filter (\<lambda>c. \<not> js_space c) (stage_label s) = compact) STAGES of
             Some s \<Rightarrow> Some (stage_code s)
           | None \<Rightarrow>
             (case map_of COARSE_STAGE_ALIASES compact of
                Some c \<Rightarrow> Some c
              | None \<Rightarrow> map_option snd
                  (find (\<lambda>p. ascii_text (filter (\<lambda>c. c \<noteq> CHR ''_'') (fst p)) = compact)
                     LEGACY_STAGE_ALIASES)))))"

definition mainStageIndex :: "string \<Rightarrow> int" where
  "mainStageIndex c = find_index (\<lambda>s. stage_code s = normalizeStage c) MAIN_STAGES"

definition opt_stage :: "string option \<Rightarrow> string" where
  \<comment> \<open>\<open>a ? normalizeStage(String(a)) : ""\<close>\<close>
  "opt_stage v = (case v of None \<Rightarrow> [] | Some c \<Rightarrow> if c = [] then [] else normalizeStage c)"

definition preferLaterMainStage :: "string option \<Rightarrow> string option \<Rightarrow> string" where
  "preferLaterMainStage a b =
    (let left = opt_stage a; right = opt_stage b;
         li = mainStageIndex left; ri = mainStageIndex right in
     if 0 \<le> li \<and> 0 \<le> ri then (if ri \<le> li then left else right)
     else if left \<noteq> [] \<and> (case BY_CODE left of None \<Rightarrow> False | Some s \<Rightarrow> \<not> stage_main s) then left
     else if left \<noteq> [] then left else right)"

definition mergeRemoteLibraryStage :: "string option \<Rightarrow> string option \<Rightarrow> int \<Rightarrow> string" where
  "mergeRemoteLibraryStage localCode remoteCode stageVersion =
    (let loc = opt_stage localCode; remote = opt_stage remoteCode in
     if loc = [] then (if remote \<noteq> [] then remote else ''INITIAL_CONTACT'')
     else if remote = [] then loc
     else
       (let li = mainStageIndex loc; ri = mainStageIndex remote; confirmed = 0 < stageVersion in
        if 0 \<le> li \<and> 0 \<le> ri \<and> ri < li then loc
        else if confirmed \<and> loc \<noteq> ''INITIAL_CONTACT'' \<and> remote = ''INITIAL_CONTACT'' then loc
        else if confirmed \<and> li < 0 \<and> 0 \<le> ri then loc
        else remote))"

definition coarse :: "string \<Rightarrow> capability_domain option" where
  "coarse c = (case BY_CODE (normalizeStage c) of None \<Rightarrow> None | Some s \<Rightarrow> stage_coarse s)"

definition nextCode :: "string \<Rightarrow> string option" where
  "nextCode c = NEXT_STAGE (normalizeStage c)"

section \<open>Approval and automatic targets\<close>

definition FACT_AUTO_MODES :: "advancement_mode list" where
  "FACT_AUTO_MODES = [AutoRecord, FactTriggered, LogisticsFactAuto, PlatformFactAuto]"

definition APPROVAL_REQUIRED_MODES :: "advancement_mode list" where
  "APPROVAL_REQUIRED_MODES = [ApprovalRequired, ReviewRequired, AdvanceAfterReview, FinanceFactOrApproval]"

datatype work_approval_kind =
  ExpenseApproval | StageApproval | ContentApproval | SettlementApproval
| SkillPublishApproval | OntologyChangeApproval

definition approvalKindForStage :: "string \<Rightarrow> work_approval_kind option" where
  "approvalKindForStage c =
    (let n = normalizeStage c in
     case BY_CODE n of
       None \<Rightarrow> None
     | Some s \<Rightarrow>
         if stage_mode s \<notin> set APPROVAL_REQUIRED_MODES then None
         else if n = ''CONTENT_REVIEW'' \<or> n = ''PUBLISH_PENDING'' then Some ContentApproval
         else if n = ''SETTLING'' then Some SettlementApproval
         else Some StageApproval)"

fun push_new :: "'a list \<Rightarrow> 'a list \<Rightarrow> 'a list" where
  \<comment> \<open>\<open>for (code of codes) if (!out.includes(code)) out.push(code)\<close>\<close>
  "push_new out [] = out"
| "push_new out (c # cs) = push_new (if c \<in> set out then out else out @ [c]) cs"

definition autoLegalTargets :: "string \<Rightarrow> string list" where
  "autoLegalTargets current =
    (let n = normalizeStage current in
     case BY_CODE n of
       None \<Rightarrow> []
     | Some s \<Rightarrow>
         if stage_terminal s then []
         else if n = ''PAUSED'' \<or> n = ''DISPUTED'' then main_codes
         else push_new (case NEXT_STAGE n of None \<Rightarrow> [] | Some x \<Rightarrow> [x])
                [''PAUSED'', ''LOST'', ''REJECTED'', ''CANCELLED'', ''DISPUTED''])"

section \<open>Human confirm options\<close>

datatype stage_track = TMain | TBranch | TException

datatype stage_target_kind = Adjacent | Skip | Correct | ExceptionKind | ReturnKind

datatype stage_note =
    NoteAdjacent | NoteSkipSample | NoteSkip "utext list" | NoteCorrect
  | NoteTerminal | NoteBypass | NoteReturn

record stage_option =
  so_code :: string
  so_label :: utext
  so_track :: stage_track
  so_track_label :: utext
  so_kind :: stage_target_kind
  so_note :: stage_note
  so_domain :: "capability_domain option"
  so_mode :: advancement_mode

fun STAGE_TRACK_LABEL :: "stage_track \<Rightarrow> utext" where
  "STAGE_TRACK_LABEL TMain = [0x4E3B, 0x6D41, 0x7A0B]"
| "STAGE_TRACK_LABEL TBranch = [0x5206, 0x652F, 0x6D41, 0x7A0B]"
| "STAGE_TRACK_LABEL TException = [0x5F02, 0x5E38, 0x6D41, 0x7A0B]"

definition SAMPLE_STAGE_CODES :: "string list" where
  "SAMPLE_STAGE_CODES = [''SAMPLE_PENDING'', ''SHIPPED'', ''TESTING'']"

fun KIND_ORDER :: "stage_target_kind \<Rightarrow> nat" where
  "KIND_ORDER Adjacent = 0"
| "KIND_ORDER Skip = 1"
| "KIND_ORDER ReturnKind = 2"
| "KIND_ORDER Correct = 3"
| "KIND_ORDER ExceptionKind = 4"

definition optionOf :: "string \<Rightarrow> stage_track \<Rightarrow> stage_target_kind \<Rightarrow> stage_note \<Rightarrow> stage_option" where
  "optionOf c track kind note =
    \<lparr>so_code = c,
     so_label = (case BY_CODE c of Some s \<Rightarrow> (if stage_label s = [] then label c else stage_label s)
                 | None \<Rightarrow> label c),
     so_track = track, so_track_label = STAGE_TRACK_LABEL track, so_kind = kind, so_note = note,
     so_domain = (case BY_CODE c of Some s \<Rightarrow> stage_domain s | None \<Rightarrow> None),
     so_mode = (case BY_CODE c of Some s \<Rightarrow> stage_mode s | None \<Rightarrow> Bypass)\<rparr>"

definition skippedMainCodes :: "string \<Rightarrow> string \<Rightarrow> string list" where
  "skippedMainCodes src dst =
    (let fromIdx = mainStageIndex src; toIdx = mainStageIndex dst in
     if fromIdx < 0 \<or> toIdx \<le> fromIdx + 1 then []
     else map stage_code (slice (nat (fromIdx + 1)) (nat toIdx) MAIN_STAGES))"

definition skipNote :: "string \<Rightarrow> string \<Rightarrow> stage_note" where
  "skipNote src dst =
    (let skipped = skippedMainCodes src dst in
     if skipped = [] then NoteAdjacent
     else if list_all (\<lambda>c. c \<in> set SAMPLE_STAGE_CODES) skipped then NoteSkipSample
     else NoteSkip (map label skipped))"

fun main_options_from :: "int \<Rightarrow> int \<Rightarrow> string \<Rightarrow> stage list \<Rightarrow> stage_option list" where
  \<comment> \<open>the loop over \<open>MAIN_STAGES\<close>: \<open>i\<close> is its counter\<close>
  "main_options_from i fromIdx n [] = []"
| "main_options_from i fromIdx n (item # items) =
    (if stage_code item = n then []
     else if i = fromIdx + 1 then [optionOf (stage_code item) TMain Adjacent NoteAdjacent]
     else if i > fromIdx + 1 then
       [optionOf (stage_code item) TBranch Skip (skipNote n (stage_code item))]
     else [optionOf (stage_code item) TMain Correct NoteCorrect])
    @ main_options_from (i + 1) fromIdx n items"

definition option_sort_key :: "stage_option \<Rightarrow> nat \<times> nat \<times> int" where
  "option_sort_key o1 =
    (KIND_ORDER (so_kind o1), (if so_track o1 = TException then 1 else 0), mainStageIndex (so_code o1))"

definition stageConfirmOptions :: "string \<Rightarrow> stage_option list" where
  "stageConfirmOptions current =
    (let n = normalizeStage current in
     case BY_CODE n of
       None \<Rightarrow> []
     | Some s \<Rightarrow>
        if stage_terminal s then []
        else if n = ''PAUSED'' \<or> n = ''DISPUTED'' then
          map (\<lambda>item. optionOf (stage_code item) TMain ReturnKind NoteReturn) MAIN_STAGES
        else
          (let fromIdx = mainStageIndex n;
               out0 = (if 0 \<le> fromIdx then
                         (let mains = main_options_from 0 fromIdx n MAIN_STAGES in
                          case NEXT_STAGE n of
                            None \<Rightarrow> mains
                          | Some nxt \<Rightarrow>
                              if nxt \<notin> set main_codes \<and> nxt \<notin> set (map so_code mains)
                              then mains @ [optionOf nxt TMain Adjacent NoteAdjacent] else mains)
                       else []);
               sides = map (\<lambda>c. optionOf c TException ExceptionKind
                              (if (case BY_CODE c of Some t \<Rightarrow> stage_terminal t | None \<Rightarrow> False)
                               then NoteTerminal else NoteBypass))
                         [''PAUSED'', ''DISPUTED'', ''LOST'', ''REJECTED'', ''CANCELLED'']
           in sort_key option_sort_key (out0 @ sides)))"

definition legalTargets :: "string \<Rightarrow> string list" where
  "legalTargets current = map so_code (stageConfirmOptions current)"

definition confirmTargetKind :: "string \<Rightarrow> string \<Rightarrow> stage_target_kind option" where
  "confirmTargetKind current target =
    map_option so_kind (find (\<lambda>item. so_code item = normalizeStage target) (stageConfirmOptions current))"

definition confirmTargetNeedsReason :: "string \<Rightarrow> string \<Rightarrow> bool" where
  "confirmTargetNeedsReason current target =
    (case map_option so_kind
            (find (\<lambda>item. so_code item = normalizeStage target) (stageConfirmOptions current)) of
       None \<Rightarrow> False
     | Some k \<Rightarrow> k = Skip \<or> k = Correct \<or> k = ExceptionKind)"

record stage_view =
  sv_option :: stage_option
  sv_suggested :: bool

definition groupedStageTracks ::
  "string \<Rightarrow> string option \<Rightarrow> (stage_track \<times> utext \<times> stage_view list) list" where
  "groupedStageTracks current proposed =
    (let suggested = (case proposed of
                        None \<Rightarrow> nextCode current
                      | Some p \<Rightarrow> if p = [] then nextCode current else Some (normalizeStage p));
         bucket = (\<lambda>t. map (\<lambda>item. \<lparr>sv_option = item, sv_suggested = (Some (so_code item) = suggested)\<rparr>)
                         (filter (\<lambda>item. so_track item = t) (stageConfirmOptions current)))
     in map (\<lambda>t. (t, STAGE_TRACK_LABEL t, bucket t))
          (filter (\<lambda>t. bucket t \<noteq> []) [TMain, TBranch, TException]))"

definition confirmTargetViews :: "string \<Rightarrow> string option \<Rightarrow> stage_view list" where
  "confirmTargetViews current proposed =
    concat (map (\<lambda>(t, l, items). items) (groupedStageTracks current proposed))"

definition skippedStagesForConfirm :: "string \<Rightarrow> string \<Rightarrow> string list" where
  "skippedStagesForConfirm current target =
    skippedMainCodes (normalizeStage current) (normalizeStage target)"

section \<open>The Starry adapter\<close>

definition TO_STARRY_STAGE :: "(string \<times> string) list" where
  "TO_STARRY_STAGE = map (\<lambda>(starry, host). (host, starry)) LEGACY_STAGE_ALIASES"

definition toStarryStage :: "string \<Rightarrow> string" where
  "toStarryStage c = (let n = normalizeStage c in
     case map_of TO_STARRY_STAGE n of None \<Rightarrow> n | Some s \<Rightarrow> s)"

definition toLegacyStarryStage :: "string \<Rightarrow> string" where
  "toLegacyStarryStage c = toStarryStage c"

datatype walk_kind = WalkAdjacent | WalkMany | NotForward

record starry_walk =
  sw_from :: string
  sw_to :: string
  sw_hops :: "string list"
  sw_nativeHops :: "string list"
  sw_kind :: walk_kind

definition starry_line :: "string list" where
  "starry_line = main_codes @ (if NEXT_STAGE ''SETTLING'' = Some ''COMPLETED'' then [''COMPLETED''] else [])"

definition planStarryAdjacentWalk :: "string \<Rightarrow> string \<Rightarrow> starry_walk" where
  "planStarryAdjacentWalk src dst =
    (let start = (case codeFromLabel (Some (ascii_text src)) of Some c \<Rightarrow> c | None \<Rightarrow> normalizeStage src);
         fin = (case codeFromLabel (Some (ascii_text dst)) of Some c \<Rightarrow> c | None \<Rightarrow> normalizeStage dst);
         fromIdx = index_of start starry_line; toIdx = index_of fin starry_line in
     if fromIdx < 0 \<or> toIdx < 0 \<or> toIdx \<le> fromIdx then
       \<lparr>sw_from = start, sw_to = fin, sw_hops = [], sw_nativeHops = [], sw_kind = NotForward\<rparr>
     else
       (let hops = slice (nat (fromIdx + 1)) (nat (toIdx + 1)) starry_line in
        \<lparr>sw_from = start, sw_to = fin, sw_hops = hops, sw_nativeHops = map toLegacyStarryStage hops,
         sw_kind = (if length hops = 1 then WalkAdjacent else WalkMany)\<rparr>))"

definition isStarryAdjacentForward :: "string \<Rightarrow> string \<Rightarrow> bool" where
  "isStarryAdjacentForward src dst = (sw_kind (planStarryAdjacentWalk src dst) = WalkAdjacent)"

section \<open>Evidence\<close>

text \<open>The evidence argument is \<open>unknown\<close> in the code; \<open>None\<close> is a value that is not an array.\<close>

definition completedFromEvidence :: "string list option \<Rightarrow> string list" where
  "completedFromEvidence v =
    (case v of None \<Rightarrow> []
     | Some items \<Rightarrow> js_uniq (filter (\<lambda>c. BY_CODE c \<noteq> None) (map normalizeStage items)))"

fun first_open :: "string list \<Rightarrow> string list \<Rightarrow> string option" where
  "first_open done [] = None"
| "first_open done (c # cs) = (if c \<in> set done then first_open done cs else Some c)"

definition legalTargetsWithEvidence :: "string \<Rightarrow> string list option \<Rightarrow> string list" where
  "legalTargetsWithEvidence current completed =
    (let base = autoLegalTargets current; n = normalizeStage current in
     case BY_CODE n of
       None \<Rightarrow> []
     | Some s \<Rightarrow>
        if stage_terminal s then []
        else if n = ''PAUSED'' \<or> n = ''DISPUTED'' then main_codes
        else
          (let done = completedFromEvidence completed; src = index_of n main_codes in
           if src < 0 then base
           else
             (let p0 = first_open done (drop (nat (src + 1)) main_codes);
                  pointer = (case p0 of
                      Some p \<Rightarrow> Some p
                    | None \<Rightarrow> (case NEXT_STAGE n of
                                 None \<Rightarrow> None
                               | Some x \<Rightarrow> if x \<notin> set main_codes then Some x else None))
              in case pointer of
                   None \<Rightarrow> base
                 | Some p \<Rightarrow>
                     if p \<in> set base then base
                     else
                       (let pos = (case NEXT_STAGE n of None \<Rightarrow> -1 | Some x \<Rightarrow> index_of x base) in
                        if 0 \<le> pos then take (nat (pos + 1)) base @ [p] @ drop (nat (pos + 1)) base
                        else p # base))))"

definition evidencedPointer :: "string \<Rightarrow> string list option \<Rightarrow> string option \<times> string list" where
  "evidencedPointer current evidenced =
    (let n = normalizeStage current in
     case BY_CODE n of
       None \<Rightarrow> (None, [])
     | Some s \<Rightarrow>
        if stage_terminal s then (None, [])
        else if n = ''PAUSED'' \<or> n = ''DISPUTED'' then (None, [])
        else
          (let facts = completedFromEvidence evidenced; src = index_of n main_codes in
           if src < 0 then (NEXT_STAGE n, [])
           else
             (let consecutive = takeWhile (\<lambda>c. c \<in> set facts) (drop (nat (src + 1)) main_codes) in
              if consecutive \<noteq> [] then (Some (last consecutive), butlast consecutive)
              else (NEXT_STAGE n, []))))"

datatype stage_check_status = Done | InProgress | NotStarted | NotApplicable | BlockedByPrior

datatype stage_check_note = CheckException string | CheckEvidenceBlocked | CheckPointer

record stage_check_item =
  sc_code :: string
  sc_label :: utext
  sc_status :: stage_check_status
  sc_note :: "stage_check_note option"

definition check_item ::
  "stage \<Rightarrow> stage_check_status \<Rightarrow> stage_check_note option \<Rightarrow> stage_check_item" where
  "check_item s st note =
    \<lparr>sc_code = stage_code s, sc_label = stage_label s, sc_status = st, sc_note = note\<rparr>"

definition stageChecklist ::
  "string \<Rightarrow> string list option \<Rightarrow> string list option option \<Rightarrow> string option \<Rightarrow> string option
    \<Rightarrow> stage_check_item list" where
  "stageChecklist current completed evidenced ex ptr =
    (let n = normalizeStage current;
         done = completedFromEvidence completed;
         facts = completedFromEvidence (case evidenced of None \<Rightarrow> completed | Some e \<Rightarrow> e);
         src = index_of n main_codes;
         pointer = (case ptr of
             Some p \<Rightarrow> (if p \<noteq> [] then Some p
                        else (case fst (evidencedPointer n (Some facts)) of
                                Some q \<Rightarrow> Some q | None \<Rightarrow> NEXT_STAGE n))
           | None \<Rightarrow> (case fst (evidencedPointer n (Some facts)) of
                        Some q \<Rightarrow> Some q | None \<Rightarrow> NEXT_STAGE n))
     in map (\<lambda>(i, s).
          if ex \<noteq> None \<and> ex \<noteq> Some [] \<and> 0 \<le> src \<and> src < i then
            check_item s BlockedByPrior (Some (CheckException (the ex)))
          else if i < src \<or> (stage_code s \<in> set done \<and> stage_code s \<noteq> n \<and> Some (stage_code s) \<noteq> pointer) then
            check_item s Done None
          else if stage_code s = n then check_item s InProgress None
          else if stage_code s \<in> set facts
                  \<and> (case pointer of None \<Rightarrow> False
                     | Some p \<Rightarrow> index_of p main_codes < index_of (stage_code s) main_codes) then
            check_item s BlockedByPrior (Some CheckEvidenceBlocked)
          else if Some (stage_code s) = pointer then check_item s NotStarted (Some CheckPointer)
          else check_item s NotStarted None)
        (zip (map int [0..<length MAIN_STAGES]) MAIN_STAGES))"

section \<open>Evaluated tables\<close>

lemma mk_stage_simps [simp]:
  "stage_code (mk_stage c l d m mn t) = c" "stage_label (mk_stage c l d m mn t) = l"
  "stage_coarse (mk_stage c l d m mn t) = d" "stage_domain (mk_stage c l d m mn t) = d"
  "stage_mode (mk_stage c l d m mn t) = m" "stage_main (mk_stage c l d m mn t) = mn"
  "stage_terminal (mk_stage c l d m mn t) = t"
  by (simp_all add: mk_stage_def)

lemma BY_CODE_simps [simp]:
  "BY_CODE ''INITIAL_CONTACT'' = Some (mk_stage ''INITIAL_CONTACT'' [0x521D, 0x6B65, 0x63A5, 0x89E6] (Some Lead) AutoRecord True False)"
  "BY_CODE ''INTERESTED'' = Some (mk_stage ''INTERESTED'' [0x5DF2, 0x56DE, 0x590D, 0x002D, 0x6709, 0x5174, 0x8DA3] (Some Opportunity) AiSuggestHumanConfirm True False)"
  "BY_CODE ''EVALUATING'' = Some (mk_stage ''EVALUATING'' [0x5408, 0x4F5C, 0x8BC4, 0x4F30] (Some Opportunity) AiSuggestHumanConfirm True False)"
  "BY_CODE ''QUOTE_PENDING'' = Some (mk_stage ''QUOTE_PENDING'' [0x62A5, 0x4EF7, 0x5F85, 0x786E, 0x8BA4] (Some Negotiation) FactTriggered True False)"
  "BY_CODE ''NEGOTIATING'' = Some (mk_stage ''NEGOTIATING'' [0x5546, 0x52A1, 0x8C08, 0x5224] (Some Negotiation) ControlledExecution True False)"
  "BY_CODE ''PLAN_PENDING'' = Some (mk_stage ''PLAN_PENDING'' [0x65B9, 0x6848, 0x5F85, 0x786E, 0x8BA4] (Some Negotiation) ApprovalRequired True False)"
  "BY_CODE ''CONTRACTING'' = Some (mk_stage ''CONTRACTING'' [0x5408, 0x540C, 0x7B7E, 0x7F72] (Some Execution) ApprovalRequired True False)"
  "BY_CODE ''SAMPLE_PENDING'' = Some (mk_stage ''SAMPLE_PENDING'' [0x5F85, 0x5BC4, 0x6837] (Some Execution) RuleOrHuman True False)"
  "BY_CODE ''SHIPPED'' = Some (mk_stage ''SHIPPED'' [0x5DF2, 0x53D1, 0x8D27] (Some Execution) LogisticsFactAuto True False)"
  "BY_CODE ''TESTING'' = Some (mk_stage ''TESTING'' [0x5DF2, 0x7B7E, 0x6536, 0x002D, 0x6D4B, 0x8BD5, 0x4E2D] (Some Execution) LogisticsFactAuto True False)"
  "BY_CODE ''CONTENT_PLANNING'' = Some (mk_stage ''CONTENT_PLANNING'' [0x5185, 0x5BB9, 0x7B56, 0x5212] (Some Execution) AiSuggestHumanConfirm True False)"
  "BY_CODE ''CONTENT_REVIEW'' = Some (mk_stage ''CONTENT_REVIEW'' [0x5185, 0x5BB9, 0x5BA1, 0x6838] (Some Execution) ReviewRequired True False)"
  "BY_CODE ''PUBLISH_PENDING'' = Some (mk_stage ''PUBLISH_PENDING'' [0x5F85, 0x53D1, 0x5E03] (Some Execution) AdvanceAfterReview True False)"
  "BY_CODE ''PUBLISHED'' = Some (mk_stage ''PUBLISHED'' [0x5DF2, 0x53D1, 0x5E03] (Some Execution) PlatformFactAuto True False)"
  "BY_CODE ''SETTLING'' = Some (mk_stage ''SETTLING'' [0x7ED3, 0x7B97, 0x4E2D, 0x0020, 0x002F, 0x0020, 0x5DF2, 0x4ED8, 0x6B3E] (Some SettlementGrowth) FinanceFactOrApproval True False)"
  "BY_CODE ''PAUSED'' = Some (mk_stage ''PAUSED'' [0x5DF2, 0x6682, 0x505C] None Bypass False False)"
  "BY_CODE ''LOST'' = Some (mk_stage ''LOST'' [0x5DF2, 0x6D41, 0x5931] None Terminal False True)"
  "BY_CODE ''REJECTED'' = Some (mk_stage ''REJECTED'' [0x5DF2, 0x62D2, 0x7EDD] None Terminal False True)"
  "BY_CODE ''CANCELLED'' = Some (mk_stage ''CANCELLED'' [0x5DF2, 0x53D6, 0x6D88] None Terminal False True)"
  "BY_CODE ''DISPUTED'' = Some (mk_stage ''DISPUTED'' [0x4E89, 0x8BAE, 0x4E2D] None Bypass False False)"
  "BY_CODE ''COMPLETED'' = Some (mk_stage ''COMPLETED'' [0x5DF2, 0x5B8C, 0x6210] None Terminal False True)"
  by (simp_all add: BY_CODE_def STAGES_def MAIN_STAGES_def SIDE_STAGES_def)

lemma NEXT_STAGE_simps [simp]:
  "NEXT_STAGE ''INITIAL_CONTACT'' = Some ''INTERESTED''"
  "NEXT_STAGE ''INTERESTED'' = Some ''EVALUATING''"
  "NEXT_STAGE ''EVALUATING'' = Some ''QUOTE_PENDING''"
  "NEXT_STAGE ''QUOTE_PENDING'' = Some ''NEGOTIATING''"
  "NEXT_STAGE ''NEGOTIATING'' = Some ''PLAN_PENDING''"
  "NEXT_STAGE ''PLAN_PENDING'' = Some ''CONTRACTING''"
  "NEXT_STAGE ''CONTRACTING'' = Some ''SAMPLE_PENDING''"
  "NEXT_STAGE ''SAMPLE_PENDING'' = Some ''SHIPPED''"
  "NEXT_STAGE ''SHIPPED'' = Some ''TESTING''"
  "NEXT_STAGE ''TESTING'' = Some ''CONTENT_PLANNING''"
  "NEXT_STAGE ''CONTENT_PLANNING'' = Some ''CONTENT_REVIEW''"
  "NEXT_STAGE ''CONTENT_REVIEW'' = Some ''PUBLISH_PENDING''"
  "NEXT_STAGE ''PUBLISH_PENDING'' = Some ''PUBLISHED''"
  "NEXT_STAGE ''PUBLISHED'' = Some ''SETTLING''"
  "NEXT_STAGE ''SETTLING'' = Some ''COMPLETED''"
  "NEXT_STAGE ''PAUSED'' = None"
  "NEXT_STAGE ''LOST'' = None"
  "NEXT_STAGE ''REJECTED'' = None"
  "NEXT_STAGE ''CANCELLED'' = None"
  "NEXT_STAGE ''DISPUTED'' = None"
  "NEXT_STAGE ''COMPLETED'' = None"
  by (simp_all add: NEXT_STAGE_def NEXT_STAGE_TABLE_def)

lemma normalizeStage_simps [simp]:
  "normalizeStage ''INITIAL_CONTACT'' = ''INITIAL_CONTACT''"
  "normalizeStage ''INTERESTED'' = ''INTERESTED''"
  "normalizeStage ''EVALUATING'' = ''EVALUATING''"
  "normalizeStage ''QUOTE_PENDING'' = ''QUOTE_PENDING''"
  "normalizeStage ''NEGOTIATING'' = ''NEGOTIATING''"
  "normalizeStage ''PLAN_PENDING'' = ''PLAN_PENDING''"
  "normalizeStage ''CONTRACTING'' = ''CONTRACTING''"
  "normalizeStage ''SAMPLE_PENDING'' = ''SAMPLE_PENDING''"
  "normalizeStage ''SHIPPED'' = ''SHIPPED''"
  "normalizeStage ''TESTING'' = ''TESTING''"
  "normalizeStage ''CONTENT_PLANNING'' = ''CONTENT_PLANNING''"
  "normalizeStage ''CONTENT_REVIEW'' = ''CONTENT_REVIEW''"
  "normalizeStage ''PUBLISH_PENDING'' = ''PUBLISH_PENDING''"
  "normalizeStage ''PUBLISHED'' = ''PUBLISHED''"
  "normalizeStage ''SETTLING'' = ''SETTLING''"
  "normalizeStage ''PAUSED'' = ''PAUSED''"
  "normalizeStage ''LOST'' = ''LOST''"
  "normalizeStage ''REJECTED'' = ''REJECTED''"
  "normalizeStage ''CANCELLED'' = ''CANCELLED''"
  "normalizeStage ''DISPUTED'' = ''DISPUTED''"
  "normalizeStage ''COMPLETED'' = ''COMPLETED''"
  by (simp_all add: normalizeStage_def LEGACY_STAGE_ALIASES_def)

lemma main_codes_eq: "main_codes = [''INITIAL_CONTACT'', ''INTERESTED'', ''EVALUATING'', ''QUOTE_PENDING'', ''NEGOTIATING'', ''PLAN_PENDING'', ''CONTRACTING'', ''SAMPLE_PENDING'', ''SHIPPED'', ''TESTING'', ''CONTENT_PLANNING'', ''CONTENT_REVIEW'', ''PUBLISH_PENDING'', ''PUBLISHED'', ''SETTLING'']"
  by (simp add: main_codes_def MAIN_STAGES_def)

lemma all_codes_eq: "all_codes = main_codes @ [''PAUSED'', ''LOST'', ''REJECTED'', ''CANCELLED'', ''DISPUTED'', ''COMPLETED'']"
  by (simp add: all_codes_def main_codes_def STAGES_def SIDE_STAGES_def)

lemma mainStageIndex_simps [simp]:
  "mainStageIndex ''INITIAL_CONTACT'' = 0"
  "mainStageIndex ''INTERESTED'' = 1"
  "mainStageIndex ''EVALUATING'' = 2"
  "mainStageIndex ''QUOTE_PENDING'' = 3"
  "mainStageIndex ''NEGOTIATING'' = 4"
  "mainStageIndex ''PLAN_PENDING'' = 5"
  "mainStageIndex ''CONTRACTING'' = 6"
  "mainStageIndex ''SAMPLE_PENDING'' = 7"
  "mainStageIndex ''SHIPPED'' = 8"
  "mainStageIndex ''TESTING'' = 9"
  "mainStageIndex ''CONTENT_PLANNING'' = 10"
  "mainStageIndex ''CONTENT_REVIEW'' = 11"
  "mainStageIndex ''PUBLISH_PENDING'' = 12"
  "mainStageIndex ''PUBLISHED'' = 13"
  "mainStageIndex ''SETTLING'' = 14"
  "mainStageIndex ''PAUSED'' = -1"
  "mainStageIndex ''LOST'' = -1"
  "mainStageIndex ''REJECTED'' = -1"
  "mainStageIndex ''CANCELLED'' = -1"
  "mainStageIndex ''DISPUTED'' = -1"
  "mainStageIndex ''COMPLETED'' = -1"
  by (simp_all add: mainStageIndex_def MAIN_STAGES_def Let_def)

section \<open>Lemmas\<close>

lemma BY_CODE_None_iff: "BY_CODE c = None \<longleftrightarrow> c \<notin> set all_codes"
  by (simp add: BY_CODE_def all_codes_def map_of_eq_None_iff image_image)

lemma BY_CODE_code: "BY_CODE c = Some s \<Longrightarrow> stage_code s = c \<and> c \<in> set all_codes"
  unfolding BY_CODE_def all_codes_def by (auto dest!: map_of_SomeD)

lemma known_codes: "BY_CODE c = Some s \<Longrightarrow> c \<in> set main_codes \<or>
    c = ''PAUSED'' \<or> c = ''LOST'' \<or> c = ''REJECTED'' \<or> c = ''CANCELLED'' \<or> c = ''DISPUTED'' \<or> c = ''COMPLETED''"
  by (drule BY_CODE_code) (auto simp: all_codes_eq)

lemma distinct_all_codes: "distinct all_codes"
  by (simp add: all_codes_eq main_codes_eq)

lemma distinct_main_codes: "distinct main_codes"
  using distinct_all_codes by (simp add: all_codes_eq)

lemma alias_targets: "list_all (\<lambda>p. map_of LEGACY_STAGE_ALIASES (snd p) = None) LEGACY_STAGE_ALIASES"
  by (simp add: LEGACY_STAGE_ALIASES_def)

lemma normalizeStage_idem [simp]: "normalizeStage (normalizeStage c) = normalizeStage c"
proof (cases "map_of LEGACY_STAGE_ALIASES c")
  case None
  then show ?thesis by (simp add: normalizeStage_def)
next
  case (Some d)
  with alias_targets have "map_of LEGACY_STAGE_ALIASES d = None"
    by (force simp: list_all_iff dest: map_of_SomeD)
  with Some show ?thesis by (simp add: normalizeStage_def)
qed

lemma mainStageIndex_normalize [simp]: "mainStageIndex (normalizeStage c) = mainStageIndex c"
  by (simp add: mainStageIndex_def)

lemma mainStageIndex_index: "mainStageIndex c = index_of (normalizeStage c) main_codes"
proof -
  have "find_index (\<lambda>s. stage_code s = x) ss = index_of x (map stage_code ss)" for x ss
    by (induction ss) auto
  then show ?thesis by (simp add: mainStageIndex_def main_codes_def)
qed

lemma mainStageIndex_nonneg: "0 \<le> mainStageIndex c \<longleftrightarrow> normalizeStage c \<in> set main_codes"
proof -
  have "(mainStageIndex c < 0) = (normalizeStage c \<notin> set main_codes)"
    unfolding mainStageIndex_index find_index_neg by blast
  then show ?thesis by linarith
qed

lemma mainStageIndex_inj:
  "0 \<le> mainStageIndex a \<Longrightarrow> mainStageIndex a = mainStageIndex b \<Longrightarrow> normalizeStage a = normalizeStage b"
  unfolding mainStageIndex_index by (drule find_index_inj) auto

lemma mainStageIndex_Nil [simp]: "mainStageIndex [] = -1"
  by (simp add: mainStageIndex_def MAIN_STAGES_def normalizeStage_def LEGACY_STAGE_ALIASES_def Let_def)

lemma opt_stage_cases: "opt_stage v = [] \<or> (\<exists>c. v = Some c \<and> c \<noteq> [] \<and> opt_stage v = normalizeStage c)"
  by (cases v) (auto simp: opt_stage_def)

lemma merge_cases:
  "mergeRemoteLibraryStage l r v \<in> {opt_stage l, opt_stage r, ''INITIAL_CONTACT''}"
  by (auto simp: mergeRemoteLibraryStage_def Let_def)

lemma merge_no_regress_aux:
  assumes "0 \<le> mainStageIndex (opt_stage l)"
  shows "mainStageIndex (mergeRemoteLibraryStage l r v) < 0
     \<or> mainStageIndex (opt_stage l) \<le> mainStageIndex (mergeRemoteLibraryStage l r v)"
  using assms by (auto simp: mergeRemoteLibraryStage_def Let_def)

lemma starry_line_eq: "starry_line = main_codes @ [''COMPLETED'']"
  by (simp add: starry_line_def)

lemma main_codes_next:
  "Suc i < length starry_line \<Longrightarrow> NEXT_STAGE (starry_line ! i) = Some (starry_line ! Suc i)"
proof -
  have "list_all (\<lambda>(a, b). NEXT_STAGE a = Some b) (zip starry_line (tl starry_line))"
    by (simp add: starry_line_eq main_codes_eq)
  then show "Suc i < length starry_line \<Longrightarrow> ?thesis"
    by (auto simp: list_all_length nth_tl)
qed

fun next_chain :: "string \<Rightarrow> string list \<Rightarrow> bool" where
  "next_chain c [] = True"
| "next_chain c (d # ds) = (NEXT_STAGE c = Some d \<and> next_chain d ds)"

lemma next_chain_slice:
  "j < length starry_line \<Longrightarrow> i \<le> j \<Longrightarrow> next_chain (starry_line ! i) (slice (Suc i) (Suc j) starry_line)"
proof (induction "j - i" arbitrary: i)
  case 0
  then show ?case by (simp add: slice_def)
next
  case (Suc n)
  then have "slice (Suc i) (Suc j) starry_line
      = starry_line ! Suc i # slice (Suc (Suc i)) (Suc j) starry_line"
    by (intro slice_Cons) auto
  moreover have "next_chain (starry_line ! Suc i) (slice (Suc (Suc i)) (Suc j) starry_line)"
    using Suc.hyps(2) Suc.prems by (intro Suc.hyps(1)) auto
  ultimately show ?case using Suc by (simp add: main_codes_next)
qed

lemma walk_forward:
  assumes "sw_kind (planStarryAdjacentWalk a b) \<noteq> NotForward"
  obtains i j where "i < j" "j < length starry_line"
    "sw_from (planStarryAdjacentWalk a b) = starry_line ! i"
    "sw_to (planStarryAdjacentWalk a b) = starry_line ! j"
    "sw_hops (planStarryAdjacentWalk a b) = slice (Suc i) (Suc j) starry_line"
proof -
  define start where "start = (case codeFromLabel (Some (ascii_text a)) of Some c \<Rightarrow> c | None \<Rightarrow> normalizeStage a)"
  define fin where "fin = (case codeFromLabel (Some (ascii_text b)) of Some c \<Rightarrow> c | None \<Rightarrow> normalizeStage b)"
  let ?i = "index_of start starry_line" and ?j = "index_of fin starry_line"
  note unf = planStarryAdjacentWalk_def Let_def start_def [symmetric] fin_def [symmetric]
  have ij: "0 \<le> ?i" "?i < ?j"
    using assms by (auto simp: unf split: if_splits)
  have "starry_line ! nat ?i = start" "starry_line ! nat ?j = fin"
    using ij find_index_nth [of "\<lambda>y. y = start" starry_line] find_index_nth [of "\<lambda>y. y = fin" starry_line]
    by auto
  moreover have "?j < int (length starry_line)" by (rule find_index_less)
  ultimately show thesis
    using ij that [of "nat ?i" "nat ?j"] by (simp add: unf nat_add_distrib)
qed

lemma first_open_Some:
  "first_open done cs = Some p \<Longrightarrow> \<exists>us vs. cs = us @ p # vs \<and> set us \<subseteq> set done \<and> p \<notin> set done"
proof (induction cs)
  case (Cons c cs)
  then show ?case
  proof (cases "c \<in> set done")
    case True
    with Cons obtain us vs where "cs = us @ p # vs \<and> set us \<subseteq> set done \<and> p \<notin> set done" by auto
    with True have "c # cs = (c # us) @ p # vs \<and> set (c # us) \<subseteq> set done \<and> p \<notin> set done" by simp
    then show ?thesis by blast
  next
    case False
    with Cons.prems show ?thesis by (auto intro: exI [of _ "[]"])
  qed
qed simp

lemma first_open_None: "first_open done cs = None \<longleftrightarrow> set cs \<subseteq> set done"
  by (induction cs) auto

lemma push_new_set: "set (push_new out cs) = set out \<union> set cs"
  by (induction cs arbitrary: out) auto

lemma push_new_distinct: "distinct out \<Longrightarrow> distinct (push_new out cs)"
  by (induction cs arbitrary: out) auto

lemma toStarry_table: "list_all (\<lambda>c. normalizeStage (toStarryStage c) = c) all_codes"
  by (simp add: all_codes_eq main_codes_eq toStarryStage_def TO_STARRY_STAGE_def LEGACY_STAGE_ALIASES_def
      normalizeStage_def)

lemma label_table: "list_all (\<lambda>c. codeFromLabel (Some (label c)) = Some c) all_codes"
  unfolding all_codes_eq main_codes_eq
  by (simp add: label_def codeFromLabel_def text_trim_def js_space_def text_ascii_def STAGES_def MAIN_STAGES_def SIDE_STAGES_def
     COARSE_STAGE_ALIASES_def)

lemma normalize_nonempty: "c \<noteq> [] \<Longrightarrow> normalizeStage c \<noteq> []"
  by (auto simp: normalizeStage_def LEGACY_STAGE_ALIASES_def split: if_splits)

lemma opt_stage_Nil: "opt_stage (Some c) = [] \<longleftrightarrow> c = []"
  by (auto simp: opt_stage_def normalize_nonempty)

lemma mainStageIndex_opt_stage [simp]: "mainStageIndex (opt_stage (Some c)) = mainStageIndex c"
  by (auto simp: opt_stage_def)

lemma drop_main_index:
  assumes "drop (nat (mainStageIndex c + 1)) main_codes = us @ t # vs" and "0 \<le> mainStageIndex c"
    and t: "normalizeStage t = t"
  shows "skippedMainCodes c t = us \<and> mainStageIndex c < mainStageIndex t"
proof -
  let ?i = "nat (mainStageIndex c + 1)"
  have lt: "?i + length us < length main_codes"
    using arg_cong [OF assms(1), of length] by simp
  then have "main_codes ! (?i + length us) = t"
    by (metis (no_types) assms(1) nth_append_length nth_drop le_add1 le_trans less_imp_le)
  then have "index_of t main_codes = int (?i + length us)"
    using lt distinct_main_codes by (simp add: index_of_distinct)
  then have idx: "mainStageIndex t = int (?i + length us)" by (simp add: mainStageIndex_index t)
  have "map stage_code (slice ?i (?i + length us) MAIN_STAGES) = us"
    using assms(1) by (simp add: slice_def main_codes_def take_map [symmetric] drop_map [symmetric])
  with idx assms(2) show ?thesis by (auto simp: skippedMainCodes_def Let_def nat_add_distrib)
qed

lemma main_code_normal: "c \<in> set main_codes \<Longrightarrow> normalizeStage c = c"
  by (auto simp: main_codes_eq)

lemma main_code_facts:
  assumes "n \<in> set main_codes"
  obtains s x where "BY_CODE n = Some s" "\<not> stage_terminal s" "stage_main s"
    "n \<noteq> ''PAUSED''" "n \<noteq> ''DISPUTED''" "normalizeStage n = n" "NEXT_STAGE n = Some x"
    "n \<noteq> ''SETTLING'' \<longrightarrow> x \<in> set main_codes" "n = ''SETTLING'' \<longrightarrow> x = ''COMPLETED''"
proof -
  have "list_all (\<lambda>n. \<exists>s x. BY_CODE n = Some s \<and> \<not> stage_terminal s \<and> stage_main s
    \<and> n \<noteq> ''PAUSED'' \<and> n \<noteq> ''DISPUTED'' \<and> normalizeStage n = n \<and> NEXT_STAGE n = Some x
    \<and> (n \<noteq> ''SETTLING'' \<longrightarrow> x \<in> set main_codes) \<and> (n = ''SETTLING'' \<longrightarrow> x = ''COMPLETED'')) main_codes"
    by (simp add: main_codes_eq)
  then have "\<exists>s x. BY_CODE n = Some s \<and> \<not> stage_terminal s \<and> stage_main s
    \<and> n \<noteq> ''PAUSED'' \<and> n \<noteq> ''DISPUTED'' \<and> normalizeStage n = n \<and> NEXT_STAGE n = Some x
    \<and> (n \<noteq> ''SETTLING'' \<longrightarrow> x \<in> set main_codes) \<and> (n = ''SETTLING'' \<longrightarrow> x = ''COMPLETED'')"
    unfolding list_all_iff using assms by (rule bspec)
  then show thesis by (elim exE conjE) (rule that; assumption)
qed

lemma side_codes_not_main [simp]:
  "''PAUSED'' \<notin> set main_codes" "''DISPUTED'' \<notin> set main_codes" "''LOST'' \<notin> set main_codes"
  "''REJECTED'' \<notin> set main_codes" "''CANCELLED'' \<notin> set main_codes" "''COMPLETED'' \<notin> set main_codes"
  by (simp_all add: main_codes_eq)

lemma evidence_targets_main:
  assumes t: "t \<in> set (legalTargetsWithEvidence c ev)" and new: "t \<notin> set (autoLegalTargets c)"
  shows "normalizeStage c \<in> set main_codes"
proof (rule ccontr)
  assume nm: "normalizeStage c \<notin> set main_codes"
  show False
  proof (cases "BY_CODE (normalizeStage c)")
    case None
    with t show False by (simp add: legalTargetsWithEvidence_def)
  next
    case (Some s)
    from known_codes [OF this] nm t new show False
      by (elim disjE)
        (simp_all add: legalTargetsWithEvidence_def autoLegalTargets_def)
  qed
qed

lemma autoLegalTargets_main:
  assumes "normalizeStage c \<in> set main_codes"
  shows "set (autoLegalTargets c) = insert (the (NEXT_STAGE (normalizeStage c)))
           {''PAUSED'', ''LOST'', ''REJECTED'', ''CANCELLED'', ''DISPUTED''}"
proof -
  obtain s x where "BY_CODE (normalizeStage c) = Some s" "\<not> stage_terminal s"
    "normalizeStage c \<noteq> ''PAUSED''" "normalizeStage c \<noteq> ''DISPUTED''" "NEXT_STAGE (normalizeStage c) = Some x"
    using assms by (elim main_code_facts) simp
  then show ?thesis by (auto simp: autoLegalTargets_def push_new_set simp del: push_new.simps)
qed

lemma autoLegalTargets_other:
  assumes "normalizeStage c \<notin> set main_codes"
  shows "autoLegalTargets c =
    (if normalizeStage c = ''PAUSED'' \<or> normalizeStage c = ''DISPUTED'' then main_codes else [])"
proof (cases "BY_CODE (normalizeStage c)")
  case None
  then have "normalizeStage c \<notin> set all_codes" by (simp add: BY_CODE_None_iff)
  then show ?thesis using None by (auto simp: autoLegalTargets_def all_codes_eq)
next
  case (Some s)
  from known_codes [OF this] assms show ?thesis
    by (elim disjE) (simp_all add: autoLegalTargets_def)
qed

lemma stageConfirmOptions_side:
  "normalizeStage c = ''PAUSED'' \<or> normalizeStage c = ''DISPUTED'' \<Longrightarrow>
   stageConfirmOptions c = map (\<lambda>item. optionOf (stage_code item) TMain ReturnKind NoteReturn) MAIN_STAGES"
  by (auto simp: stageConfirmOptions_def)

lemma optionOf_simps [simp]:
  "so_code (optionOf c t k n) = c" "so_kind (optionOf c t k n) = k" "so_track (optionOf c t k n) = t"
  by (simp_all add: optionOf_def)

lemma main_options_codes:
  "set (map so_code (main_options_from i f n ss)) = {c \<in> set (map stage_code ss). c \<noteq> n}"
  by (induction ss arbitrary: i) auto

lemma stageConfirmOptions_main:
  assumes "normalizeStage c \<in> set main_codes"
  shows "set (legalTargets c) = (set main_codes - {normalizeStage c})
      \<union> {''PAUSED'', ''DISPUTED'', ''LOST'', ''REJECTED'', ''CANCELLED''}
      \<union> (if normalizeStage c = ''SETTLING'' then {''COMPLETED''} else {})"
proof -
  let ?n = "normalizeStage c"
  obtain s x where s: "BY_CODE ?n = Some s" "\<not> stage_terminal s" "?n \<noteq> ''PAUSED''" "?n \<noteq> ''DISPUTED''"
    and nx: "NEXT_STAGE ?n = Some x" "?n \<noteq> ''SETTLING'' \<longrightarrow> x \<in> set main_codes" "?n = ''SETTLING'' \<longrightarrow> x = ''COMPLETED''"
    using assms by (elim main_code_facts) simp
  let ?mains = "main_options_from 0 (mainStageIndex c) ?n MAIN_STAGES"
  let ?sides = "{''PAUSED'', ''DISPUTED'', ''LOST'', ''REJECTED'', ''CANCELLED''}"
  have idx: "0 \<le> mainStageIndex c" using assms by (simp add: mainStageIndex_nonneg)
  have mains: "set (map so_code ?mains) = set main_codes - {?n}"
    unfolding main_options_codes main_codes_def by auto
  have extra: "x \<notin> set main_codes \<and> x \<notin> set (map so_code ?mains) \<longleftrightarrow> ?n = ''SETTLING''"
    unfolding mains using nx by auto
  have sorted: "set (map so_code (sort_key k xs)) = set (map so_code xs)"
    for k :: "stage_option \<Rightarrow> nat \<times> nat \<times> int" and xs
    by simp
  define out0 where "out0 = (if x \<notin> set main_codes \<and> x \<notin> set (map so_code ?mains)
    then ?mains @ [optionOf x TMain Adjacent NoteAdjacent] else ?mains)"
  have "legalTargets c = map so_code (sort_key option_sort_key (out0 @ map (\<lambda>c. optionOf c TException ExceptionKind
          (if (case BY_CODE c of Some t \<Rightarrow> stage_terminal t | None \<Rightarrow> False) then NoteTerminal else NoteBypass))
        [''PAUSED'', ''DISPUTED'', ''LOST'', ''REJECTED'', ''CANCELLED'']))"
    using s nx(1) idx by (simp add: legalTargets_def stageConfirmOptions_def Let_def out0_def)
  then have "set (legalTargets c) = set (map so_code out0) \<union> ?sides"
    by (simp only: sorted) auto
  moreover have "set (map so_code out0) = set (map so_code ?mains) \<union> (if ?n = ''SETTLING'' then {x} else {})"
    unfolding out0_def extra by simp
  ultimately show ?thesis unfolding mains using nx by auto
qed

lemma legalTargets_other:
  assumes "normalizeStage c \<notin> set main_codes"
  shows "legalTargets c =
    (if normalizeStage c = ''PAUSED'' \<or> normalizeStage c = ''DISPUTED'' then main_codes else [])"
proof (cases "BY_CODE (normalizeStage c)")
  case None
  then have "normalizeStage c \<notin> set all_codes" by (simp add: BY_CODE_None_iff)
  then show ?thesis using None by (auto simp: legalTargets_def stageConfirmOptions_def all_codes_eq)
next
  case (Some s)
  from known_codes [OF this] assms show ?thesis
    by (elim disjE) (simp_all add: legalTargets_def stageConfirmOptions_def main_codes_def comp_def)
qed

section \<open>Properties\<close>

text \<open>
  Merging a remote library stage never moves a collaboration backward on the main
  pipeline: the merged stage is a side stage, or a main stage at or after the local one.
\<close>

theorem merge_never_regresses:
  assumes "0 \<le> mainStageIndex loc"
  shows "mainStageIndex (mergeRemoteLibraryStage (Some loc) remote v) < 0
     \<or> mainStageIndex loc \<le> mainStageIndex (mergeRemoteLibraryStage (Some loc) remote v)"
proof -
  from assms have "opt_stage (Some loc) = normalizeStage loc" by (auto simp: opt_stage_def)
  then show ?thesis using merge_no_regress_aux [of "Some loc" remote v] assms by simp
qed

lemma merge_never_regresses_witness:
  "mainStageIndex ''NEGOTIATING'' \<le> mainStageIndex (mergeRemoteLibraryStage (Some ''NEGOTIATING'') (Some ''INTERESTED'') 1)"
  using merge_never_regresses [of "''NEGOTIATING''" "Some ''INTERESTED''" 1]
  by (simp add: mergeRemoteLibraryStage_def opt_stage_def preferLaterMainStage_def Let_def)

text \<open>
  Once a person has confirmed a stage (positive version), a merge that changes it neither
  resets it to the initial contact nor drags a side or terminal stage back to the main pipeline.
\<close>

theorem merge_confirmed_kept:
  assumes "0 < v" and "loc \<noteq> []"
    and changed: "mergeRemoteLibraryStage (Some loc) remote v \<noteq> normalizeStage loc"
  shows "mergeRemoteLibraryStage (Some loc) remote v \<noteq> ''INITIAL_CONTACT''
     \<and> (mainStageIndex loc < 0 \<longrightarrow> mainStageIndex (mergeRemoteLibraryStage (Some loc) remote v) < 0)"
proof -
  have "opt_stage (Some loc) = normalizeStage loc" "normalizeStage loc \<noteq> []"
    using assms(2) by (simp_all add: opt_stage_def normalize_nonempty)
  then show ?thesis
    using changed assms(1) by (auto simp: mergeRemoteLibraryStage_def Let_def split: if_splits)
qed

lemma merge_confirmed_kept_witness:
  "mergeRemoteLibraryStage (Some ''PAUSED'') (Some ''LOST'') 2 \<noteq> ''INITIAL_CONTACT''"
  using merge_confirmed_kept [of 2 "''PAUSED''" "Some ''LOST''"]
  by (simp add: mergeRemoteLibraryStage_def opt_stage_def preferLaterMainStage_def Let_def)

lemma starry_walk_chain:
  fixes a b
  defines "w \<equiv> planStarryAdjacentWalk a b"
  assumes "sw_kind w \<noteq> NotForward"
  shows "next_chain (sw_from w) (sw_hops w) \<and> sw_hops w \<noteq> [] \<and> last (sw_hops w) = sw_to w
     \<and> map normalizeStage (sw_nativeHops w) = sw_hops w
     \<and> (sw_kind w = WalkAdjacent \<longleftrightarrow> NEXT_STAGE (sw_from w) = Some (sw_to w))"
proof -
  obtain i j where ij: "i < j" "j < length starry_line" and fr: "sw_from w = starry_line ! i"
    and dst: "sw_to w = starry_line ! j" and hops: "sw_hops w = slice (Suc i) (Suc j) starry_line"
    using assms by (auto elim: walk_forward)
  have len: "length (sw_hops w) = j - i" using ij hops by (simp add: length_slice)
  have chain: "next_chain (sw_from w) (sw_hops w)"
    using ij by (simp add: fr hops next_chain_slice)
  have lst: "last (sw_hops w) = sw_to w" using ij by (simp add: hops dst last_slice)
  have native: "map normalizeStage (sw_nativeHops w) = sw_hops w"
  proof -
    have "set (sw_hops w) \<subseteq> set all_codes"
      unfolding hops slice_def using set_take_subset set_drop_subset
      by (force simp: starry_line_eq all_codes_eq)
    moreover have "sw_nativeHops w = map toLegacyStarryStage (sw_hops w)"
      by (simp add: w_def planStarryAdjacentWalk_def Let_def)
    ultimately show ?thesis
      using toStarry_table by (auto simp: list_all_iff toLegacyStarryStage_def intro!: map_idI)
  qed
  have kind: "sw_kind w = WalkAdjacent \<longleftrightarrow> length (sw_hops w) = 1"
    using assms by (auto simp: w_def planStarryAdjacentWalk_def Let_def split: if_splits)
  have "NEXT_STAGE (sw_from w) = Some (sw_to w) \<longleftrightarrow> j = Suc i"
    using ij main_codes_next [of i] distinct_all_codes
    by (auto simp: fr dst nth_eq_iff_index_eq starry_line_eq all_codes_eq distinct_append)
  with chain lst native kind len ij show ?thesis by auto
qed

text \<open>
  A forward plan for the Starry adapter is a chain of pipeline steps from the source to the
  target, its native codes decode to the Host codes, and it is a single adjacent hop exactly when the
  target is the next stage of the source.
\<close>

theorem starry_walk_follows_pipeline:
  assumes "sw_kind (planStarryAdjacentWalk a b) \<noteq> NotForward"
  shows "next_chain (sw_from (planStarryAdjacentWalk a b)) (sw_hops (planStarryAdjacentWalk a b)) \<and> sw_hops (planStarryAdjacentWalk a b) \<noteq> []
     \<and> last (sw_hops (planStarryAdjacentWalk a b)) = sw_to (planStarryAdjacentWalk a b)
     \<and> map normalizeStage (sw_nativeHops (planStarryAdjacentWalk a b)) = sw_hops (planStarryAdjacentWalk a b)
     \<and> (sw_kind (planStarryAdjacentWalk a b) = WalkAdjacent
         \<longleftrightarrow> NEXT_STAGE (sw_from (planStarryAdjacentWalk a b)) = Some (sw_to (planStarryAdjacentWalk a b)))"
  using starry_walk_chain [of a b] assms by blast

lemma code_of_own_text:
  assumes "text_trim (ascii_text c) = ascii_text c" "c \<noteq> []" "BY_CODE (normalizeStage c) = Some s"
  shows "codeFromLabel (Some (ascii_text c)) = Some (stage_code s)"
proof -
  have "ascii_text c \<noteq> []" using assms(2) by (simp add: ascii_text_def)
  then show ?thesis using assms by (simp add: codeFromLabel_def)
qed

lemma starry_walk_follows_pipeline_witness:
  "sw_hops (planStarryAdjacentWalk ''SHIPPED'' ''CONTENT_PLANNING'') \<noteq> []"
proof -
  have "text_trim (ascii_text ''SHIPPED'') = ascii_text ''SHIPPED''"
    "text_trim (ascii_text ''CONTENT_PLANNING'') = ascii_text ''CONTENT_PLANNING''"
    by (simp_all add: text_trim_def ascii_text_def js_space_def)
  then have "codeFromLabel (Some (ascii_text ''SHIPPED'')) = Some ''SHIPPED''"
    "codeFromLabel (Some (ascii_text ''CONTENT_PLANNING'')) = Some ''CONTENT_PLANNING''"
    by (simp_all add: code_of_own_text)
  then have "sw_kind (planStarryAdjacentWalk ''SHIPPED'' ''CONTENT_PLANNING'') \<noteq> NotForward"
    by (simp add: planStarryAdjacentWalk_def starry_line_def Let_def main_codes_eq slice_def)
  with starry_walk_follows_pipeline show ?thesis by blast
qed

text \<open>
  A target that evidence adds to the automatic ones lies ahead of the current stage, every
  main stage it skips is evidenced as completed, and it is itself still open.
\<close>

theorem evidence_jump_sound:
  assumes t: "t \<in> set (legalTargetsWithEvidence c ev)" and new: "t \<notin> set (autoLegalTargets c)"
  shows "0 \<le> mainStageIndex c \<and> mainStageIndex c < mainStageIndex t
     \<and> set (skippedMainCodes c t) \<subseteq> set (completedFromEvidence ev)
     \<and> t \<notin> set (completedFromEvidence ev)"
proof -
  let ?done = "completedFromEvidence ev" and ?n = "normalizeStage c"
  have main: "?n \<in> set main_codes" using t new by (rule evidence_targets_main)
  then obtain s x where s: "BY_CODE ?n = Some s" "\<not> stage_terminal s" "?n \<noteq> ''PAUSED''" "?n \<noteq> ''DISPUTED''"
    and nx: "NEXT_STAGE ?n = Some x"
    by (elim main_code_facts) simp
  have idx: "0 \<le> mainStageIndex c" using main by (simp add: mainStageIndex_nonneg)
  have xbase: "x \<in> set (autoLegalTargets c)"
    using s nx by (simp add: autoLegalTargets_def push_new_set)
  note unf = legalTargetsWithEvidence_def Let_def mainStageIndex_index [symmetric] s nx
  define p0 where "p0 = first_open ?done (drop (nat (mainStageIndex c + 1)) main_codes)"
  have "p0 = Some t"
  proof (cases p0)
    case None
    then show ?thesis using t new idx xbase
      by (cases "x \<in> set main_codes") (simp_all add: unf p0_def)
  next
    case (Some p)
    have "set (take k xs) \<subseteq> set xs" "set (drop k xs) \<subseteq> set xs" for k and xs :: "string list"
      by (rule set_take_subset, rule set_drop_subset)
    with Some t new idx have "t = p"
      by (cases "p \<in> set (autoLegalTargets c)") (auto simp: unf p0_def split: if_splits dest: in_set_takeD in_set_dropD)
    with Some show ?thesis by simp
  qed
  then obtain us vs where dr: "drop (nat (mainStageIndex c + 1)) main_codes = us @ t # vs"
    and us: "set us \<subseteq> set ?done" and tn: "t \<notin> set ?done"
    unfolding p0_def by (blast dest: first_open_Some)
  have "t \<in> set main_codes" using dr by (metis in_set_conv_decomp set_drop_subset subsetD)
  then show ?thesis
    using drop_main_index [OF dr idx] us tn idx by (simp add: main_code_normal)
qed

lemma evidence_jump_sound_witness:
  "set (skippedMainCodes ''INITIAL_CONTACT'' ''QUOTE_PENDING'')
    \<subseteq> set (completedFromEvidence (Some [''INTERESTED'', ''EVALUATING'']))"
proof -
  have "''QUOTE_PENDING'' \<in> set (legalTargetsWithEvidence ''INITIAL_CONTACT'' (Some [''INTERESTED'', ''EVALUATING'']))"
    by (simp add: legalTargetsWithEvidence_def Let_def main_codes_eq autoLegalTargets_def completedFromEvidence_def js_uniq_def)
  moreover have "''QUOTE_PENDING'' \<notin> set (autoLegalTargets ''INITIAL_CONTACT'')"
    by (simp add: autoLegalTargets_def)
  ultimately show ?thesis using evidence_jump_sound by blast
qed

text \<open>
  The evidence pointer is the next stage, or a later stage such that it and every stage it
  skips are evidenced; the reported completed stages are exactly the skipped ones.
\<close>

theorem evidenced_pointer_sound:
  assumes res: "evidencedPointer c ev = (Some p, sk)"
  shows "(sk = [] \<and> NEXT_STAGE (normalizeStage c) = Some p)
     \<or> (sk = skippedMainCodes c p \<and> mainStageIndex c < mainStageIndex p
        \<and> set (p # sk) \<subseteq> set (completedFromEvidence ev))"
proof -
  let ?facts = "completedFromEvidence ev" and ?n = "normalizeStage c"
  define cons where "cons = takeWhile (\<lambda>c. c \<in> set ?facts) (drop (nat (mainStageIndex c + 1)) main_codes)"
  have cases: "(sk = [] \<and> NEXT_STAGE ?n = Some p)
     \<or> (0 \<le> mainStageIndex c \<and> cons \<noteq> [] \<and> p = last cons \<and> sk = butlast cons)"
    using res
    by (auto simp: evidencedPointer_def cons_def Let_def mainStageIndex_index split: option.splits if_splits)
  show ?thesis
  proof (cases "sk = [] \<and> NEXT_STAGE ?n = Some p")
    case False
    with cases have idx: "0 \<le> mainStageIndex c" and ne: "cons \<noteq> []" and cp: "cons = sk @ [p]" by auto
    define rest where "rest = dropWhile (\<lambda>c. c \<in> set ?facts) (drop (nat (mainStageIndex c + 1)) main_codes)"
    have dr: "drop (nat (mainStageIndex c + 1)) main_codes = sk @ p # rest"
      using cp takeWhile_dropWhile_id [of "\<lambda>c. c \<in> set ?facts" "drop (nat (mainStageIndex c + 1)) main_codes"]
      by (simp add: cons_def [symmetric] rest_def [symmetric])
    have "p \<in> set main_codes" using dr by (metis in_set_conv_decomp set_drop_subset subsetD)
    moreover have "set cons \<subseteq> set ?facts" by (auto simp: cons_def dest: set_takeWhileD)
    ultimately show ?thesis using drop_main_index [OF dr idx] cp by (simp add: main_code_normal)
  qed simp
qed

lemma evidenced_pointer_sound_witness:
  "mainStageIndex ''INITIAL_CONTACT'' < mainStageIndex ''EVALUATING''
    \<and> set (''EVALUATING'' # skippedMainCodes ''INITIAL_CONTACT'' ''EVALUATING'')
      \<subseteq> set (completedFromEvidence (Some [''INTERESTED'', ''EVALUATING'']))"
proof -
  have "evidencedPointer ''INITIAL_CONTACT'' (Some [''INTERESTED'', ''EVALUATING'']) = (Some ''EVALUATING'', [''INTERESTED''])"
    by (simp add: evidencedPointer_def Let_def main_codes_eq completedFromEvidence_def js_uniq_def)
  from evidenced_pointer_sound [OF this] show ?thesis by (elim disjE conjE) simp_all
qed

text \<open>
  C31. For every known stage the Chinese label reads back as the code, and the Starry code
  normalizes back to the Host code.
\<close>

theorem codes_labels_round_trip:
  assumes "BY_CODE (normalizeStage c) \<noteq> None"
  shows "codeFromLabel (Some (label c)) = Some (normalizeStage c)
     \<and> normalizeStage (toStarryStage c) = normalizeStage c"
proof -
  have known: "normalizeStage c \<in> set all_codes" using assms by (simp add: BY_CODE_None_iff)
  have "label c = label (normalizeStage c)" "toStarryStage c = toStarryStage (normalizeStage c)"
    by (simp_all add: label_def toStarryStage_def)
  with known label_table toStarry_table show ?thesis by (simp add: list_all_iff)
qed

lemma codes_labels_round_trip_witness:
  "codeFromLabel (Some (label ''SHIPPED'')) = Some ''SHIPPED'' \<and> normalizeStage (toStarryStage ''SHIPPED'') = ''SHIPPED''"
  using codes_labels_round_trip [of "''SHIPPED''"] by simp

end
