(* ===== verification/Stage_Graph.thy ===== *)
theory Stage_Graph
  imports Stages
begin

text \<open>
  \<open>backend/src/stage-transitions-graph.ts\<close>: the product gate of \<open>confirm_stage\<close>.  The graph is a
  configuration file; its loader caches the parsed file by path and modification time and fails
  closed.  \<open>evaluateStageTransition\<close> classifies a pair of stages on the graph and applies the policy
  of the actor; \<open>assertStageTransition\<close> raises unless the transition is allowed and, where the graph
  asks for one, a reason is given.

  The file system is a parameter of the loader: what \<open>existsSync\<close>, \<open>statSync\<close> and
  \<open>JSON.parse\<close> of the file yield.  \<open>shipped_graph\<close> is \<open>config/stage-transitions.json\<close>.
\<close>

section \<open>The graph file\<close>

datatype stage_actor = Human | Auto

datatype stage_transition_kind =
  ForwardAdjacent | ForwardSkip | Rollback | EnterException | LeaveException | HostTerminal | UnknownKind

datatype decision_code = CodeOk | ForbiddenEdge | UnknownNode | SameStage

datatype decision_message = MsgNone | MsgSameStage | MsgUnknownNode | MsgAutoOnly | MsgForbidden

record stage_graph_decision =
  gd_from :: string
  gd_to :: string
  gd_actor :: stage_actor
  gd_kind :: stage_transition_kind
  gd_allowed :: bool
  gd_forbid :: bool
  gd_require_reason :: bool
  gd_require_approval :: bool
  gd_flags :: "string list"
  gd_code :: decision_code
  gd_message :: decision_message

record exception_kinds =
  ek_bypass_returnable :: "string list option"
  ek_terminal :: "string list option"
  ek_not_a_product_node :: "string list option"

record stage_graph_file =
  g_nodes :: "(string \<times> string) list option"
  g_happy_path :: "(string \<times> string) list option"
  g_human_policy :: "(string \<times> string list) list option"
  g_auto_policy :: "(string \<times> string list) list option"
  g_require_approval_on_enter :: "string list option"
  g_exception_kinds :: "exception_kinds option"

datatype graph_content = BadJson | NotObject | GraphJson stage_graph_file

datatype graph_disk = NoFile | File int graph_content  \<comment> \<open>modification time and content\<close>

datatype unavailable_reason = FileMissing | ParseError | MissingNodesOrPath

datatype stage_fail =
    GraphUnavailable unavailable_reason          \<comment> \<open>503 \<open>stage_graph_unavailable\<close>\<close>
  | TransitionRejected stage_graph_decision      \<comment> \<open>400, the code of the decision\<close>
  | StageReasonRequired string string stage_transition_kind  \<comment> \<open>400 \<open>stage_reason_required\<close>\<close>

type_synonym graph_cache = "(string \<times> int \<times> stage_graph_file) option"

definition cache_hit :: "bool \<Rightarrow> string \<Rightarrow> int \<Rightarrow> graph_cache \<Rightarrow> stage_graph_file option" where
  "cache_hit refresh file mtime cached =
    (case cached of None \<Rightarrow> None
     | Some (f, m, g) \<Rightarrow> if \<not> refresh \<and> f = file \<and> m = mtime then Some g else None)"

definition loadStageTransitionGraph ::
  "bool \<Rightarrow> string \<Rightarrow> graph_disk \<Rightarrow> graph_cache \<Rightarrow> (stage_fail + stage_graph_file) \<times> graph_cache" where
  "loadStageTransitionGraph refresh file disk cached =
    (case disk of
       NoFile \<Rightarrow> (Inl (GraphUnavailable FileMissing), cached)
     | File mtime content \<Rightarrow>
        (case cache_hit refresh file mtime cached of
           Some g \<Rightarrow> (Inr g, cached)
         | None \<Rightarrow>
            (case content of
               BadJson \<Rightarrow> (Inl (GraphUnavailable ParseError), cached)
             | NotObject \<Rightarrow> (Inl (GraphUnavailable MissingNodesOrPath), cached)
             | GraphJson g \<Rightarrow>
                if g_nodes g \<in> {None, Some []} \<or> g_happy_path g \<in> {None, Some []}
                then (Inl (GraphUnavailable MissingNodesOrPath), cached)
                else (Inr g, Some (file, mtime, g)))))"

definition resetStageTransitionGraphCache :: "graph_cache \<Rightarrow> graph_cache" where
  "resetStageTransitionGraphCache cached = None"

section \<open>Classification\<close>

definition opt_list :: "'a list option \<Rightarrow> 'a list" where
  "opt_list v = (case v of None \<Rightarrow> [] | Some xs \<Rightarrow> xs)"

definition or_default :: "'a option \<Rightarrow> 'a \<Rightarrow> 'a" where
  "or_default v d = (case v of None \<Rightarrow> d | Some x \<Rightarrow> x)"

definition mainOrder :: "stage_graph_file \<Rightarrow> string list" where
  "mainOrder g =
    (let hp = opt_list (g_happy_path g); fromHappy = map fst hp in
     if hp = [] then fromHappy
     else (let lst = snd (last hp) in
           if lst \<noteq> [] \<and> lst \<notin> set fromHappy then fromHappy @ [lst] else fromHappy))"

definition exc_returnable :: "stage_graph_file \<Rightarrow> string list" where
  "exc_returnable g = or_default (Option.bind (g_exception_kinds g) ek_bypass_returnable) [''PAUSED'', ''DISPUTED'']"

definition exc_terminal :: "stage_graph_file \<Rightarrow> string list" where
  "exc_terminal g = or_default (Option.bind (g_exception_kinds g) ek_terminal) [''LOST'', ''REJECTED'', ''CANCELLED'']"

definition exc_hostOnly :: "stage_graph_file \<Rightarrow> string list" where
  "exc_hostOnly g = or_default (Option.bind (g_exception_kinds g) ek_not_a_product_node) [''COMPLETED'']"

datatype product_kind = PMain | PException | PHostTerminal | PUnknown

definition productKind :: "stage_graph_file \<Rightarrow> string \<Rightarrow> product_kind" where
  "productKind g code =
    (let n = normalizeStage code in
     if list_ex (\<lambda>(i, k). i = n \<and> k = ''main'') (opt_list (g_nodes g)) then PMain
     else if n = ''exception'' then PException
     else if n \<in> set (exc_returnable g) \<or> n \<in> set (exc_terminal g) then PException
     else if n \<in> set (exc_hostOnly g) then PHostTerminal
     else PUnknown)"

definition classifyStageTransition :: "stage_graph_file \<Rightarrow> string \<Rightarrow> string \<Rightarrow> stage_transition_kind" where
  "classifyStageTransition g src dst =
    (let start = normalizeStage src; fin = normalizeStage dst;
         fromKind = productKind g start; toKind = productKind g fin in
     if fromKind = PUnknown \<or> toKind = PUnknown then UnknownKind
     else if fromKind = PHostTerminal then UnknownKind
     else if fromKind = PMain \<and> toKind = PHostTerminal then
       (if start = ''SETTLING'' \<and> fin = ''COMPLETED'' then HostTerminal else UnknownKind)
     else if fromKind = PMain \<and> toKind = PException then EnterException
     else if fromKind = PException \<and> toKind = PMain then LeaveException
     else if fromKind = PMain \<and> toKind = PMain then
       (let order = mainOrder g; fromIdx = index_of start order; toIdx = index_of fin order in
        if fromIdx < 0 \<or> toIdx < 0 then UnknownKind
        else if toIdx = fromIdx + 1 then ForwardAdjacent
        else if toIdx > fromIdx + 1 then ForwardSkip
        else if toIdx < fromIdx then Rollback
        else UnknownKind)
     else UnknownKind)"

fun kind_key :: "stage_transition_kind \<Rightarrow> string" where
  "kind_key ForwardAdjacent = ''forward_adjacent''"
| "kind_key ForwardSkip = ''forward_skip''"
| "kind_key Rollback = ''rollback''"
| "kind_key EnterException = ''enter_exception''"
| "kind_key LeaveException = ''leave_exception''"
| "kind_key HostTerminal = ''host_terminal''"
| "kind_key UnknownKind = ''unknown''"

definition policyFlags ::
  "stage_graph_file \<Rightarrow> stage_actor \<Rightarrow> stage_transition_kind \<Rightarrow> string \<Rightarrow> string list" where
  "policyFlags g actor kind src =
    (if kind = HostTerminal then (if actor = Human then [''allow_human''] else [''forbid''])
     else if kind = UnknownKind then [''forbid'']
     else
       (let policy = map_of (opt_list (if actor = Human then g_human_policy g else g_auto_policy g)) in
        if kind = LeaveException then
          (let host = normalizeStage src in
           if host \<in> set (exc_terminal g) then
             or_default (policy ''leave_exception_terminal'') [''forbid'']
           else if actor = Auto then
             (if host \<in> set (exc_returnable g) then
                or_default (policy ''leave_exception_returnable'') [''allow_auto'']
              else [''forbid''])
           else or_default (policy ''leave_exception'') [''allow_human'', ''require_reason''])
        else or_default (policy (kind_key kind)) [''forbid'']))"

section \<open>The gate\<close>

definition decisionMessage :: "decision_code \<Rightarrow> stage_actor \<Rightarrow> decision_message" where
  "decisionMessage code actor =
    (if code = SameStage then MsgSameStage
     else if code = UnknownNode then MsgUnknownNode
     else if actor = Auto then MsgAutoOnly
     else MsgForbidden)"

definition evaluateStageTransition ::
  "stage_graph_file \<Rightarrow> string \<Rightarrow> string \<Rightarrow> stage_actor \<Rightarrow> stage_graph_decision" where
  "evaluateStageTransition g src dst actor =
    (let start = normalizeStage src; fin = normalizeStage dst in
     if start = fin then
       \<lparr>gd_from = start, gd_to = fin, gd_actor = actor, gd_kind = UnknownKind, gd_allowed = False,
        gd_forbid = False, gd_require_reason = False, gd_require_approval = False, gd_flags = [],
        gd_code = SameStage, gd_message = MsgSameStage\<rparr>
     else
       (let fromKind = productKind g start; toKind = productKind g fin;
            kind = classifyStageTransition g start fin;
            flags = policyFlags g actor kind start;
            requireApproval = fin \<in> set (opt_list (g_require_approval_on_enter g));
            forbid = (''forbid'' \<in> set flags \<or> kind = UnknownKind \<or> fromKind = PUnknown \<or> toKind = PUnknown);
            allowFlag = (if actor = Human then ''allow_human'' else ''allow_auto'');
            allowed = (\<not> forbid \<and> allowFlag \<in> set flags);
            code = (if fromKind = PUnknown \<or> toKind = PUnknown \<or> kind = UnknownKind then UnknownNode
                    else if allowed then CodeOk else ForbiddenEdge)
        in \<lparr>gd_from = start, gd_to = fin, gd_actor = actor, gd_kind = kind, gd_allowed = allowed,
            gd_forbid = forbid, gd_require_reason = (''require_reason'' \<in> set flags),
            gd_require_approval = requireApproval,
            gd_flags = (if requireApproval \<and> ''require_approval'' \<notin> set flags
                        then flags @ [''require_approval''] else flags),
            gd_code = code, gd_message = decisionMessage code actor\<rparr>))"

definition assertStageTransition ::
  "stage_fail + stage_graph_file \<Rightarrow> string \<Rightarrow> string \<Rightarrow> stage_actor \<Rightarrow> string option
    \<Rightarrow> stage_fail + stage_graph_decision" where
  "assertStageTransition loaded src dst actor reason =
    (case loaded of
       Inl e \<Rightarrow> Inl e
     | Inr g \<Rightarrow>
        (let d = evaluateStageTransition g src dst actor in
         if gd_code d = SameStage then Inr d
         else if \<not> gd_allowed d then Inl (TransitionRejected d)
         else if gd_require_reason d \<and> blank (case reason of None \<Rightarrow> [] | Some r \<Rightarrow> r) then
           Inl (StageReasonRequired (gd_from d) (gd_to d) (gd_kind d))
         else Inr d))"

section \<open>The shipped configuration\<close>

definition shipped_graph :: stage_graph_file where
  "shipped_graph =
    \<lparr>g_nodes = Some
       [(''INITIAL_CONTACT'', ''main''), (''INTERESTED'', ''main''), (''EVALUATING'', ''main''),
        (''QUOTE_PENDING'', ''main''), (''NEGOTIATING'', ''main''), (''PLAN_PENDING'', ''main''),
        (''CONTRACTING'', ''main''), (''SAMPLE_PENDING'', ''main''), (''SHIPPED'', ''main''),
        (''TESTING'', ''main''), (''CONTENT_PLANNING'', ''main''), (''CONTENT_REVIEW'', ''main''),
        (''PUBLISH_PENDING'', ''main''), (''PUBLISHED'', ''main''), (''SETTLING'', ''main''),
        (''exception'', ''exception'')],
     g_happy_path = Some
       [(''INITIAL_CONTACT'', ''INTERESTED''), (''INTERESTED'', ''EVALUATING''),
        (''EVALUATING'', ''QUOTE_PENDING''), (''QUOTE_PENDING'', ''NEGOTIATING''),
        (''NEGOTIATING'', ''PLAN_PENDING''), (''PLAN_PENDING'', ''CONTRACTING''),
        (''CONTRACTING'', ''SAMPLE_PENDING''), (''SAMPLE_PENDING'', ''SHIPPED''),
        (''SHIPPED'', ''TESTING''), (''TESTING'', ''CONTENT_PLANNING''),
        (''CONTENT_PLANNING'', ''CONTENT_REVIEW''), (''CONTENT_REVIEW'', ''PUBLISH_PENDING''),
        (''PUBLISH_PENDING'', ''PUBLISHED''), (''PUBLISHED'', ''SETTLING'')],
     g_human_policy = Some
       [(''forward_adjacent'', [''allow_human'']),
        (''forward_skip'', [''allow_human'', ''require_reason'']),
        (''rollback'', [''allow_human'', ''require_reason'']),
        (''enter_exception'', [''allow_human'', ''require_reason'']),
        (''leave_exception'', [''allow_human'', ''require_reason''])],
     g_auto_policy = Some
       [(''forward_adjacent'', [''allow_auto'']), (''forward_skip'', [''forbid'']),
        (''rollback'', [''forbid'']), (''enter_exception'', [''allow_auto'']),
        (''leave_exception_returnable'', [''allow_auto'']),
        (''leave_exception_terminal'', [''forbid''])],
     g_require_approval_on_enter = Some
       [''PLAN_PENDING'', ''CONTRACTING'', ''CONTENT_REVIEW'', ''PUBLISH_PENDING'', ''SETTLING''],
     g_exception_kinds = Some
       \<lparr>ek_bypass_returnable = Some [''PAUSED'', ''DISPUTED''],
        ek_terminal = Some [''LOST'', ''REJECTED'', ''CANCELLED''],
        ek_not_a_product_node = Some [''COMPLETED'']\<rparr>\<rparr>"

section \<open>The shipped graph\<close>

lemma shipped_order: "mainOrder shipped_graph = main_codes"
  by (simp add: mainOrder_def shipped_graph_def opt_list_def main_codes_eq)

lemma shipped_exceptions [simp]:
  "exc_returnable shipped_graph = [''PAUSED'', ''DISPUTED'']"
  "exc_terminal shipped_graph = [''LOST'', ''REJECTED'', ''CANCELLED'']"
  "exc_hostOnly shipped_graph = [''COMPLETED'']"
  by (simp_all add: exc_returnable_def exc_terminal_def exc_hostOnly_def or_default_def shipped_graph_def)

lemma shipped_nodes: "list_ex (\<lambda>(i, k). i = n \<and> k = ''main'') (opt_list (g_nodes shipped_graph)) \<longleftrightarrow> n \<in> set main_codes"
  by (auto simp: shipped_graph_def opt_list_def main_codes_eq)

lemma exception_not_main [simp]: "''exception'' \<notin> set main_codes"
  by (simp add: main_codes_eq)

lemma shipped_kind:
  "productKind shipped_graph c =
    (let n = normalizeStage c in
     if n \<in> set main_codes then PMain
     else if n \<in> {''exception'', ''PAUSED'', ''DISPUTED'', ''LOST'', ''REJECTED'', ''CANCELLED''} then PException
     else if n = ''COMPLETED'' then PHostTerminal else PUnknown)"
  by (auto simp: productKind_def shipped_nodes Let_def)

lemma shipped_classify_main:
  assumes "normalizeStage a \<in> set main_codes" "normalizeStage b \<in> set main_codes"
  shows "classifyStageTransition shipped_graph a b =
    (if mainStageIndex b = mainStageIndex a + 1 then ForwardAdjacent
     else if mainStageIndex b > mainStageIndex a + 1 then ForwardSkip
     else if mainStageIndex b < mainStageIndex a then Rollback else UnknownKind)"
proof -
  have "0 \<le> mainStageIndex a" "0 \<le> mainStageIndex b" using assms by (simp_all add: mainStageIndex_nonneg)
  with assms show ?thesis
    by (simp add: classifyStageTransition_def shipped_kind shipped_order mainStageIndex_index Let_def)
qed

lemma shipped_policies [simp]:
  "opt_list (g_human_policy shipped_graph) =
       [(''forward_adjacent'', [''allow_human'']),
        (''forward_skip'', [''allow_human'', ''require_reason'']),
        (''rollback'', [''allow_human'', ''require_reason'']),
        (''enter_exception'', [''allow_human'', ''require_reason'']),
        (''leave_exception'', [''allow_human'', ''require_reason''])]"
  "opt_list (g_auto_policy shipped_graph) =
       [(''forward_adjacent'', [''allow_auto'']), (''forward_skip'', [''forbid'']),
        (''rollback'', [''forbid'']), (''enter_exception'', [''allow_auto'']),
        (''leave_exception_returnable'', [''allow_auto'']),
        (''leave_exception_terminal'', [''forbid''])]"
  "opt_list (g_require_approval_on_enter shipped_graph) =
       [''PLAN_PENDING'', ''CONTRACTING'', ''CONTENT_REVIEW'', ''PUBLISH_PENDING'', ''SETTLING'']"
  by (simp_all add: shipped_graph_def opt_list_def)

lemma human_flags:
  "policyFlags shipped_graph Human k src =
    (case k of ForwardAdjacent \<Rightarrow> [''allow_human''] | HostTerminal \<Rightarrow> [''allow_human'']
     | UnknownKind \<Rightarrow> [''forbid'']
     | LeaveException \<Rightarrow> (if normalizeStage src \<in> {''LOST'', ''REJECTED'', ''CANCELLED''} then [''forbid'']
                          else [''allow_human'', ''require_reason''])
     | _ \<Rightarrow> [''allow_human'', ''require_reason''])"
  by (cases k) (simp_all add: policyFlags_def or_default_def Let_def)

lemma auto_flags:
  "policyFlags shipped_graph Auto k src =
    (case k of ForwardAdjacent \<Rightarrow> [''allow_auto''] | EnterException \<Rightarrow> [''allow_auto'']
     | LeaveException \<Rightarrow> (if normalizeStage src \<in> {''PAUSED'', ''DISPUTED''} then [''allow_auto''] else [''forbid''])
     | _ \<Rightarrow> [''forbid''])"
  by (cases k) (auto simp: policyFlags_def or_default_def Let_def)

lemma productKind_normalize [simp]: "productKind g (normalizeStage c) = productKind g c"
  by (simp add: productKind_def)

lemma classify_normalize [simp]:
  "classifyStageTransition g (normalizeStage a) (normalizeStage b) = classifyStageTransition g a b"
  by (simp add: classifyStageTransition_def)

lemma classify_unknown:
  "productKind g a = PUnknown \<or> productKind g b = PUnknown \<Longrightarrow> classifyStageTransition g a b = UnknownKind"
  by (auto simp: classifyStageTransition_def Let_def)

lemma gate_human:
  "gd_allowed (evaluateStageTransition shipped_graph a b Human) \<longleftrightarrow>
     normalizeStage a \<noteq> normalizeStage b
     \<and> classifyStageTransition shipped_graph a b \<noteq> UnknownKind
     \<and> (classifyStageTransition shipped_graph a b = LeaveException
        \<longrightarrow> normalizeStage a \<notin> {''LOST'', ''REJECTED'', ''CANCELLED''})"
  using classify_unknown [of shipped_graph a b]
  by (cases "classifyStageTransition shipped_graph a b")
    (auto simp: evaluateStageTransition_def Let_def human_flags)

lemma gate_auto:
  "gd_allowed (evaluateStageTransition shipped_graph a b Auto) \<longleftrightarrow>
     normalizeStage a \<noteq> normalizeStage b
     \<and> (classifyStageTransition shipped_graph a b \<in> {ForwardAdjacent, EnterException}
        \<or> classifyStageTransition shipped_graph a b = LeaveException \<and> normalizeStage a \<in> {''PAUSED'', ''DISPUTED''})"
  using classify_unknown [of shipped_graph a b]
  by (cases "classifyStageTransition shipped_graph a b")
    (auto simp: evaluateStageTransition_def Let_def auto_flags)

lemma completed_kind: "productKind shipped_graph ''COMPLETED'' = PHostTerminal"
  by (simp add: shipped_kind)

lemma mainStageIndex_eq_iff:
  assumes "normalizeStage b \<in> set main_codes"
  shows "mainStageIndex b = mainStageIndex a \<longleftrightarrow> normalizeStage b = normalizeStage a"
proof
  assume "mainStageIndex b = mainStageIndex a"
  moreover have "0 \<le> mainStageIndex b" using assms by (simp add: mainStageIndex_nonneg)
  ultimately show "normalizeStage b = normalizeStage a" by (intro mainStageIndex_inj)
next
  assume "normalizeStage b = normalizeStage a"
  then show "mainStageIndex b = mainStageIndex a" by (simp add: mainStageIndex_index)
qed

lemma classify_cases:
  "classifyStageTransition shipped_graph a b =
    (if normalizeStage a \<in> set main_codes then
       (if normalizeStage b \<in> set main_codes then
          (if mainStageIndex b = mainStageIndex a + 1 then ForwardAdjacent
           else if mainStageIndex b > mainStageIndex a + 1 then ForwardSkip
           else if mainStageIndex b < mainStageIndex a then Rollback else UnknownKind)
        else if productKind shipped_graph b = PException then EnterException
        else if normalizeStage a = ''SETTLING'' \<and> normalizeStage b = ''COMPLETED'' then HostTerminal
        else UnknownKind)
     else if productKind shipped_graph a = PException \<and> normalizeStage b \<in> set main_codes then LeaveException
     else UnknownKind)"
proof (cases "normalizeStage a \<in> set main_codes \<and> normalizeStage b \<in> set main_codes")
  case True
  then show ?thesis by (simp add: shipped_classify_main)
next
  case False
  have main: "productKind shipped_graph c = PMain \<longleftrightarrow> normalizeStage c \<in> set main_codes" for c
    by (simp add: shipped_kind Let_def)
  have host: "productKind shipped_graph c = PHostTerminal \<longleftrightarrow> normalizeStage c = ''COMPLETED''" for c
    by (auto simp: shipped_kind Let_def)
  show ?thesis
    using False main [of a] main [of b] host [of b]
    by (cases "productKind shipped_graph a"; cases "productKind shipped_graph b")
      (simp_all add: classifyStageTransition_def Let_def completed_kind)
qed

lemma next_index:
  assumes "n \<in> set main_codes" "m \<in> set main_codes"
  shows "mainStageIndex m = mainStageIndex n + 1 \<longleftrightarrow> NEXT_STAGE n = Some m"
proof -
  have "list_all (\<lambda>n. list_all (\<lambda>m. (mainStageIndex m = mainStageIndex n + 1) = (NEXT_STAGE n = Some m)) main_codes) main_codes"
    by (simp add: main_codes_eq)
  with assms show ?thesis by (simp add: list_all_iff)
qed

lemma main_option_kind:
  "o1 \<in> set (main_options_from i f n ss) \<Longrightarrow> \<exists>j < length ss. so_code o1 = stage_code (ss ! j)
     \<and> so_kind o1 = (if i + int j = f + 1 then Adjacent else if i + int j > f + 1 then Skip else Correct)"
proof (induction ss arbitrary: i)
  case (Cons item items)
  show ?case
  proof (cases "o1 \<in> set (main_options_from (i + 1) f n items)")
    case True
    from Cons.IH [OF this] obtain j where "j < length items" "so_code o1 = stage_code (items ! j)"
      "so_kind o1 = (if i + 1 + int j = f + 1 then Adjacent else if i + 1 + int j > f + 1 then Skip else Correct)"
      by blast
    then show ?thesis by (intro exI [of _ "Suc j"]) (simp add: ac_simps)
  next
    case False
    with Cons.prems show ?thesis by (intro exI [of _ 0]) (auto split: if_splits)
  qed
qed simp

lemma confirm_option_kind:
  assumes main: "normalizeStage c \<in> set main_codes" and o1: "o1 \<in> set (stageConfirmOptions c)"
  shows "so_kind o1 =
    (if so_code o1 \<in> set main_codes then
       (if mainStageIndex (so_code o1) = mainStageIndex c + 1 then Adjacent
        else if mainStageIndex (so_code o1) > mainStageIndex c + 1 then Skip else Correct)
     else if so_code o1 = ''COMPLETED'' then Adjacent else ExceptionKind)"
proof -
  let ?n = "normalizeStage c" and ?mains = "main_options_from 0 (mainStageIndex c) (normalizeStage c) MAIN_STAGES"
  obtain s x where s: "BY_CODE ?n = Some s" "\<not> stage_terminal s" "?n \<noteq> ''PAUSED''" "?n \<noteq> ''DISPUTED''"
    and nx: "NEXT_STAGE ?n = Some x" "?n \<noteq> ''SETTLING'' \<longrightarrow> x \<in> set main_codes" "?n = ''SETTLING'' \<longrightarrow> x = ''COMPLETED''"
    using main by (elim main_code_facts) simp
  have idx: "0 \<le> mainStageIndex c" using main by (simp add: mainStageIndex_nonneg)
  define out0 where "out0 = (if x \<notin> set main_codes \<and> x \<notin> set (map so_code ?mains)
    then ?mains @ [optionOf x TMain Adjacent NoteAdjacent] else ?mains)"
  have "stageConfirmOptions c = sort_key option_sort_key (out0 @ map (\<lambda>c. optionOf c TException ExceptionKind
          (if (case BY_CODE c of Some t \<Rightarrow> stage_terminal t | None \<Rightarrow> False) then NoteTerminal else NoteBypass))
        [''PAUSED'', ''DISPUTED'', ''LOST'', ''REJECTED'', ''CANCELLED''])"
    using s nx(1) idx by (simp add: stageConfirmOptions_def Let_def out0_def)
  with o1 have "o1 \<in> set out0
      \<or> so_kind o1 = ExceptionKind \<and> so_code o1 \<in> {''PAUSED'', ''DISPUTED'', ''LOST'', ''REJECTED'', ''CANCELLED''}"
    by auto
  moreover have "o1 \<in> set out0 \<Longrightarrow> o1 \<in> set ?mains \<or> o1 = optionOf ''COMPLETED'' TMain Adjacent NoteAdjacent"
    using nx by (auto simp: out0_def split: if_splits)
  ultimately have cases: "o1 \<in> set ?mains \<or> (o1 = optionOf ''COMPLETED'' TMain Adjacent NoteAdjacent)
      \<or> so_kind o1 = ExceptionKind \<and> so_code o1 \<in> {''PAUSED'', ''DISPUTED'', ''LOST'', ''REJECTED'', ''CANCELLED''}"
    by blast
  show ?thesis
  proof (cases "o1 \<in> set ?mains")
    case True
    from main_option_kind [OF this] obtain j where j: "j < length MAIN_STAGES"
      "so_code o1 = stage_code (MAIN_STAGES ! j)"
      "so_kind o1 = (if int j = mainStageIndex c + 1 then Adjacent else if int j > mainStageIndex c + 1 then Skip else Correct)"
      by auto
    then have mc: "so_code o1 = main_codes ! j" "j < length main_codes" by (simp_all add: main_codes_def)
    then have "so_code o1 \<in> set main_codes" by simp
    moreover from this mc have "mainStageIndex (so_code o1) = int j"
      using index_of_distinct [OF distinct_main_codes mc(2)] by (simp add: mainStageIndex_index main_code_normal)
    ultimately show ?thesis using j by simp
  next
    case False
    with cases show ?thesis by auto
  qed
qed

section \<open>Properties\<close>

text \<open>
  C30. The gate and the menu agree for people: on the shipped graph a human may confirm the
  move from \<open>a\<close> to \<open>b\<close> exactly when \<open>b\<close> is one of the targets the confirmation card of \<open>a\<close>
  lists (\<open>legalTargets\<close>), for every pair of stage codes, legacy and unknown ones included.  The
  graph's own pseudo node \<open>exception\<close>, which no card lists, is left out.
\<close>

theorem human_gate_is_confirm_menu:
  assumes "normalizeStage a \<noteq> ''exception''" and "normalizeStage b \<noteq> ''exception''"
  shows "gd_allowed (evaluateStageTransition shipped_graph a b Human)
     \<longleftrightarrow> normalizeStage b \<in> set (legalTargets a)"
proof (cases "normalizeStage a \<in> set main_codes")
  case True
  note eq = mainStageIndex_eq_iff [of b a]
  with True assms show ?thesis
    by (auto simp: gate_human classify_cases stageConfirmOptions_main shipped_kind Let_def split: if_splits)
next
  case False
  with assms show ?thesis
    by (auto simp: gate_human classify_cases legalTargets_other shipped_kind Let_def)
qed

lemma human_gate_is_confirm_menu_witness:
  "gd_allowed (evaluateStageTransition shipped_graph ''PLAN_PENDING'' ''PAUSED'' Human)
     \<longleftrightarrow> ''PAUSED'' \<in> set (legalTargets ''PLAN_PENDING'')"
  using human_gate_is_confirm_menu [of "''PLAN_PENDING''" "''PAUSED''"] by simp

text \<open>
  The gate and the automation agree except for one edge: on the shipped graph automation may
  move from \<open>a\<close> to \<open>b\<close> exactly when \<open>b\<close> is in \<open>autoLegalTargets a\<close> and is not \<open>COMPLETED\<close>,
  which \<open>autoLegalTargets\<close> lists from \<open>SETTLING\<close> and the graph keeps for the host.
\<close>

theorem auto_gate_is_auto_targets:
  assumes "normalizeStage a \<noteq> ''exception''" and "normalizeStage b \<noteq> ''exception''"
  shows "gd_allowed (evaluateStageTransition shipped_graph a b Auto)
     \<longleftrightarrow> normalizeStage b \<in> set (autoLegalTargets a) \<and> normalizeStage b \<noteq> ''COMPLETED''"
proof (cases "normalizeStage a \<in> set main_codes")
  case True
  obtain x where nx: "NEXT_STAGE (normalizeStage a) = Some x"
    "normalizeStage a \<noteq> ''SETTLING'' \<longrightarrow> x \<in> set main_codes"
    "normalizeStage a = ''SETTLING'' \<longrightarrow> x = ''COMPLETED''"
    using True by (elim main_code_facts) simp
  have adj: "mainStageIndex b = mainStageIndex a + 1 \<longleftrightarrow> normalizeStage b = x"
    if "normalizeStage b \<in> set main_codes"
    using next_index [OF True that] nx(1) by auto
  show ?thesis
    using True assms nx adj mainStageIndex_eq_iff [of b a]
    by (auto simp: gate_auto classify_cases autoLegalTargets_main shipped_kind Let_def)
next
  case False
  with assms show ?thesis
    by (auto simp: gate_auto classify_cases autoLegalTargets_other shipped_kind Let_def)
qed

lemma auto_gate_is_auto_targets_witness:
  "gd_allowed (evaluateStageTransition shipped_graph ''PLAN_PENDING'' ''PAUSED'' Auto)
     \<longleftrightarrow> ''PAUSED'' \<in> set (autoLegalTargets ''PLAN_PENDING'')"
  using auto_gate_is_auto_targets [of "''PLAN_PENDING''" "''PAUSED''"] by simp

text \<open>
  The list of stages the graph asks an approval for is the one the stage table derives: a
  decision asks for an approval on entry exactly when the stage changes and
  \<open>approvalKindForStage\<close> names a kind of approval for the target.
\<close>

theorem approval_on_enter_matches_kind:
  "gd_require_approval (evaluateStageTransition shipped_graph a b actor) \<longleftrightarrow>
     normalizeStage a \<noteq> normalizeStage b \<and> approvalKindForStage b \<noteq> None"
proof (cases "BY_CODE (normalizeStage b)")
  case None
  then have "normalizeStage b \<notin> set all_codes" by (simp add: BY_CODE_None_iff)
  then show ?thesis using None
    by (auto simp: evaluateStageTransition_def approvalKindForStage_def Let_def all_codes_eq main_codes_eq)
next
  case (Some s)
  have "list_all (\<lambda>c. (c \<in> set [''PLAN_PENDING'', ''CONTRACTING'', ''CONTENT_REVIEW'', ''PUBLISH_PENDING'', ''SETTLING''])
      = (approvalKindForStage c \<noteq> None)) all_codes"
    by (simp add: all_codes_eq main_codes_eq approvalKindForStage_def APPROVAL_REQUIRED_MODES_def)
  moreover have "normalizeStage b \<in> set all_codes" using BY_CODE_code [OF Some] by simp
  moreover have "approvalKindForStage (normalizeStage b) = approvalKindForStage b"
    by (simp add: approvalKindForStage_def)
  ultimately have "normalizeStage b \<in> set (opt_list (g_require_approval_on_enter shipped_graph))
      \<longleftrightarrow> approvalKindForStage b \<noteq> None"
    by (simp add: list_all_iff)
  then show ?thesis by (simp add: evaluateStageTransition_def Let_def)
qed

text \<open>
  Soundness of the guard for every graph: when \<open>assertStageTransition\<close> lets a real change of
  stage pass, the decision allows it, no flag forbids it, its code is \<open>ok\<close>, and a reason that is
  not blank was given wherever the decision requires one.
\<close>

theorem gate_needs_reason:
  assumes "assertStageTransition loaded a b actor reason = Inr d" and "gd_code d \<noteq> SameStage"
  shows "gd_allowed d \<and> \<not> gd_forbid d \<and> gd_code d = CodeOk
     \<and> (gd_require_reason d \<longrightarrow> (\<exists>r. reason = Some r \<and> \<not> blank r))"
proof -
  obtain g where "loaded = Inr g" "d = evaluateStageTransition g a b actor" "gd_allowed d"
    "\<not> (gd_require_reason d \<and> blank (case reason of None \<Rightarrow> [] | Some r \<Rightarrow> r))"
    using assms by (auto simp: assertStageTransition_def Let_def split: sum.splits if_splits)
  then show ?thesis
    by (auto simp: evaluateStageTransition_def Let_def blank_def split: if_splits option.splits)
qed

lemma gate_needs_reason_witness: "\<exists>r. Some (''moved'') = Some r \<and> \<not> blank r"
proof -
  let ?d = "evaluateStageTransition shipped_graph ''PAUSED'' ''NEGOTIATING'' Human"
  have ok: "gd_allowed ?d" "gd_require_reason ?d" "gd_code ?d \<noteq> SameStage"
    by (simp_all add: gate_human human_flags classify_cases shipped_kind main_codes_eq evaluateStageTransition_def Let_def)
  then have "assertStageTransition (Inr shipped_graph) ''PAUSED'' ''NEGOTIATING'' Human (Some ''moved'') = Inr ?d"
    by (simp add: assertStageTransition_def Let_def blank_def js_trim_def js_space_def)
  from gate_needs_reason [OF this ok(3)] ok(2) show ?thesis by simp
qed

text \<open>
  Final stages stay final: from \<open>LOST\<close>, \<open>REJECTED\<close>, \<open>CANCELLED\<close> and \<open>COMPLETED\<close> the
  shipped graph lets neither a person nor automation move to another stage, whatever reason is given.
\<close>

theorem terminal_exception_is_final:
  assumes "normalizeStage a \<in> {''LOST'', ''REJECTED'', ''CANCELLED'', ''COMPLETED''}"
    and "normalizeStage b \<noteq> normalizeStage a"
  shows "assertStageTransition (Inr shipped_graph) a b actor reason
     = Inl (TransitionRejected (evaluateStageTransition shipped_graph a b actor))"
proof -
  have na: "normalizeStage a \<notin> set main_codes" using assms(1) by auto
  have "\<not> gd_allowed (evaluateStageTransition shipped_graph a b actor)"
    using assms na by (cases actor) (auto simp: gate_human gate_auto classify_cases shipped_kind Let_def split: if_splits)
  moreover have "gd_code (evaluateStageTransition shipped_graph a b actor) \<noteq> SameStage"
    using assms by (auto simp: evaluateStageTransition_def Let_def)
  ultimately show ?thesis by (simp add: assertStageTransition_def Let_def)
qed

lemma terminal_exception_is_final_witness:
  "assertStageTransition (Inr shipped_graph) ''LOST'' ''PAUSED'' Human (Some ''back'')
     = Inl (TransitionRejected (evaluateStageTransition shipped_graph ''LOST'' ''PAUSED'' Human))"
  using terminal_exception_is_final [of "''LOST''" "''PAUSED''" Human "Some ''back''"] by simp

text \<open>
  The reason rule of the gate and the one of the confirmation card, compared on every legal
  move: the gate asks for a reason exactly when \<open>confirmTargetNeedsReason\<close> does or when the move
  leaves \<open>PAUSED\<close> or \<open>DISPUTED\<close>; on those returns the card does not ask for the reason
  the gate then demands.
\<close>

theorem reason_rule_of_menu_and_gate:
  assumes "normalizeStage a \<noteq> ''exception''" and "normalizeStage b \<noteq> ''exception''"
    and legal: "normalizeStage b \<in> set (legalTargets a)"
  shows "gd_require_reason (evaluateStageTransition shipped_graph a b Human)
     \<longleftrightarrow> confirmTargetNeedsReason a b \<or> normalizeStage a \<in> {''PAUSED'', ''DISPUTED''}"
proof -
  let ?b = "normalizeStage b"
  obtain o1 where o1: "find (\<lambda>item. so_code item = ?b) (stageConfirmOptions a) = Some o1"
    using legal by (cases "find (\<lambda>item. so_code item = ?b) (stageConfirmOptions a)")
      (auto simp: legalTargets_def find_None_iff)
  then have mem: "o1 \<in> set (stageConfirmOptions a)" "so_code o1 = ?b" by (auto dest: find_SomeD)
  have needs: "confirmTargetNeedsReason a b \<longleftrightarrow> so_kind o1 \<in> {Skip, Correct, ExceptionKind}"
    by (auto simp: confirmTargetNeedsReason_def o1)
  show ?thesis
  proof (cases "normalizeStage a \<in> set main_codes")
    case True
    have ne: "normalizeStage a \<noteq> ?b" using legal True by (auto simp: stageConfirmOptions_main split: if_splits)
    note eq = mainStageIndex_eq_iff [of b a]
    show ?thesis
      using True ne assms confirm_option_kind [OF True mem(1)] mem(2) eq
      by (auto simp: needs evaluateStageTransition_def Let_def human_flags classify_cases shipped_kind
          stageConfirmOptions_main split: if_splits)
  next
    case False
    then have side: "normalizeStage a \<in> {''PAUSED'', ''DISPUTED''}" and "?b \<in> set main_codes"
      using legal by (auto simp: legalTargets_other split: if_splits)
    then show ?thesis using False
      by (auto simp: evaluateStageTransition_def Let_def human_flags classify_cases shipped_kind)
  qed
qed

lemma reason_rule_of_menu_and_gate_witness:
  "gd_require_reason (evaluateStageTransition shipped_graph ''DISPUTED'' ''INTERESTED'' Human)"
  using reason_rule_of_menu_and_gate [of "''DISPUTED''" "''INTERESTED''"] by (simp add: main_codes_eq legalTargets_other)

text \<open>
  The gap at a concrete return: the card of \<open>PAUSED\<close> offers \<open>NEGOTIATING\<close> as a return that
  needs no reason, and confirming it without one is refused by the gate.
\<close>

theorem return_from_pause_reason_gap:
  "confirmTargetKind ''PAUSED'' ''NEGOTIATING'' = Some ReturnKind
   \<and> \<not> confirmTargetNeedsReason ''PAUSED'' ''NEGOTIATING''
   \<and> (\<exists>f t k. assertStageTransition (Inr shipped_graph) ''PAUSED'' ''NEGOTIATING'' Human None
        = Inl (StageReasonRequired f t k))"
proof -
  have main: "normalizeStage ''NEGOTIATING'' \<in> set main_codes" by (simp add: main_codes_eq)
  have opts: "find (\<lambda>item. so_code item = ''NEGOTIATING'') (stageConfirmOptions ''PAUSED'')
      = Some (optionOf ''NEGOTIATING'' TMain ReturnKind NoteReturn)"
    by (simp add: stageConfirmOptions_side MAIN_STAGES_def)
  have "gd_allowed (evaluateStageTransition shipped_graph ''PAUSED'' ''NEGOTIATING'' Human)"
    using main by (simp add: gate_human classify_cases shipped_kind)
  moreover have "gd_require_reason (evaluateStageTransition shipped_graph ''PAUSED'' ''NEGOTIATING'' Human)"
    using main by (simp add: evaluateStageTransition_def Let_def human_flags classify_cases shipped_kind)
  moreover have "gd_code (evaluateStageTransition shipped_graph ''PAUSED'' ''NEGOTIATING'' Human) \<noteq> SameStage"
    by (simp add: evaluateStageTransition_def Let_def)
  ultimately show ?thesis
    by (simp add: confirmTargetKind_def confirmTargetNeedsReason_def opts assertStageTransition_def Let_def blank_def)
qed

end
