(* ===== verification/Machines.thy ===== *)
theory Machines
  imports Prelude
begin

text \<open>
  The interfaces of the development: what a component that serves commands promises to the
  components that rely on it.  A handler takes a state and a command and returns an error, which
  leaves the stored state as it was, or an answer and the next state.

  \<^item> \<open>guarded_machine\<close>: every successful command keeps the invariant.
  \<^item> \<open>versioned_machine\<close>: a measure of the state never decreases (version, revision, attempt
    counters).
  \<^item> \<open>ledger_machine\<close>: a recorded fact is never changed or lost (terminal results, receipts).
  \<^item> \<open>idempotent_machine\<close>: a command carries a key; the first success records a receipt and a
    repetition only reads it.  The exactly-once lemma follows from the contract.
  \<^item> \<open>session_queue\<close>: a first-in first-out queue per session.

  Every component interprets the contracts it provides on its own model.
\<close>

section \<open>Handlers, steps and reachable states\<close>

type_synonym ('s, 'c, 'e, 'r) handler = "'s \<Rightarrow> 'c \<Rightarrow> 'e + 'r \<times> 's"

definition effect :: "('s, 'c, 'e, 'r) handler \<Rightarrow> 's \<Rightarrow> 'c \<Rightarrow> 'e + 's" where
  "effect h s c = (case h s c of Inl e \<Rightarrow> Inl e | Inr (r, s') \<Rightarrow> Inr s')"

lemma effect_Inr [simp]: "effect h s c = Inr s' \<longleftrightarrow> (\<exists>r. h s c = Inr (r, s'))"
  by (auto simp: effect_def split: sum.splits)

inductive serves :: "('s, 'c, 'e, 'r) handler \<Rightarrow> 's \<Rightarrow> 's \<Rightarrow> bool" for h where
  serves_refl [intro]: "serves h s s"
| serves_step: "serves h s s' \<Longrightarrow> h s' c = Inr (r, s'') \<Longrightarrow> serves h s s''"

lemma serves_run: "serves h s (run_cmds (effect h) s cs)"
proof -
  have all: "serves h s0 s \<Longrightarrow> serves h s0 (run_cmds (effect h) s cs)" for s0
    by (induction cs arbitrary: s) (auto simp: effect_def split: sum.splits intro: serves_step)
  from all [of s] show ?thesis by (simp add: serves_refl)
qed

lemma serves_trans: "serves h t u \<Longrightarrow> serves h s t \<Longrightarrow> serves h s u"
  by (induction rule: serves.induct) (auto intro: serves_step)

section \<open>Invariants, measures and recorded facts\<close>

locale guarded_machine =
  fixes h :: "('s, 'c, 'e, 'r) handler"
    and inv :: "'s \<Rightarrow> bool"
  assumes preserved: "inv s \<Longrightarrow> h s c = Inr (r, s') \<Longrightarrow> inv s'"
begin

lemma serves_inv: "serves h s s' \<Longrightarrow> inv s \<Longrightarrow> inv s'"
  by (induction rule: serves.induct) (auto intro: preserved)

lemma run_inv: "inv s \<Longrightarrow> inv (run_cmds (effect h) s cs)"
  by (rule serves_inv [OF serves_run])

end

locale versioned_machine = guarded_machine h inv
  for h :: "('s, 'c, 'e, 'r) handler" and inv :: "'s \<Rightarrow> bool" +
  fixes version :: "'s \<Rightarrow> 'k \<Rightarrow> 'v::order"
  assumes advances: "inv s \<Longrightarrow> h s c = Inr (r, s') \<Longrightarrow> version s k \<le> version s' k"
begin

lemma serves_monotone: "serves h s s' \<Longrightarrow> inv s \<Longrightarrow> version s k \<le> version s' k"
proof (induction rule: serves.induct)
  case (serves_step s s' c r s'')
  then show ?case by (meson advances serves_inv order_trans)
qed simp

lemma run_monotone: "inv s \<Longrightarrow> version s k \<le> version (run_cmds (effect h) s cs) k"
  by (rule serves_monotone [OF serves_run])

end

locale ledger_machine = guarded_machine h inv
  for h :: "('s, 'c, 'e, 'r) handler" and inv :: "'s \<Rightarrow> bool" +
  fixes fact :: "'s \<Rightarrow> 'k \<Rightarrow> 'v option"
  assumes recorded: "inv s \<Longrightarrow> h s c = Inr (r, s') \<Longrightarrow> fact s k = Some v \<Longrightarrow> fact s' k = Some v"
begin

lemma serves_fact: "serves h s s' \<Longrightarrow> inv s \<Longrightarrow> fact s k = Some v \<Longrightarrow> fact s' k = Some v"
  by (induction rule: serves.induct) (auto intro: recorded serves_inv)

lemma run_fact: "inv s \<Longrightarrow> fact s k = Some v \<Longrightarrow> fact (run_cmds (effect h) s cs) k = Some v"
  by (rule serves_fact [OF serves_run])

end

locale idempotent_machine = ledger_machine h inv receipt
  for h :: "('s, 'c, 'e, 'r) handler" and inv :: "'s \<Rightarrow> bool" and receipt :: "'s \<Rightarrow> 'k \<Rightarrow> 'v option" +
  fixes key :: "'c \<Rightarrow> 'k option" and saved :: "'r \<Rightarrow> 'v"
  assumes commit: "inv s \<Longrightarrow> h s c = Inr (r, s') \<Longrightarrow> key c = Some k \<Longrightarrow> receipt s' k = Some (saved r)"
    and replay: "inv s \<Longrightarrow> key c = Some k \<Longrightarrow> receipt s k = Some v \<Longrightarrow> h s c = Inr (r, s')
      \<Longrightarrow> s' = s \<and> saved r = v"
begin

text \<open>After a success, whatever is served in between, a command with the same key changes
  nothing and gives the recorded answer.\<close>

lemma exactly_once:
  assumes "inv s" and "h s c = Inr (r, s1)" and "serves h s1 s2"
    and "key c = Some k" and "key c' = Some k" and "h s2 c' = Inr (r', s3)"
  shows "s3 = s2 \<and> saved r' = saved r"
proof -
  have "receipt s1 k = Some (saved r)" using assms(1,2,4) by (rule commit)
  moreover have inv1: "inv s1" using assms(1,2) by (rule preserved)
  ultimately have "receipt s2 k = Some (saved r)" using assms(3) by (auto intro: serves_fact)
  moreover have "inv s2" using assms(3) inv1 by (rule serves_inv)
  ultimately show ?thesis using assms(5,6) by (auto dest: replay)
qed

end

section \<open>Queues\<close>

text \<open>Take up to \<open>n\<close> items from a queue.\<close>

primrec drain :: "('s \<Rightarrow> 'q option \<times> 's) \<Rightarrow> nat \<Rightarrow> 's \<Rightarrow> 'q list \<times> 's" where
  "drain deq 0 s = ([], s)"
| "drain deq (Suc n) s =
    (case deq s of
       (None, s') \<Rightarrow> ([], s')
     | (Some q, s') \<Rightarrow> (let (qs, s'') = drain deq n s' in (q # qs, s'')))"

locale session_queue =
  fixes items :: "'s \<Rightarrow> 'sid \<Rightarrow> 'q list"
    and enq :: "'sid \<Rightarrow> 'q \<Rightarrow> 's \<Rightarrow> 's"
    and deq :: "'sid \<Rightarrow> 's \<Rightarrow> 'q option \<times> 's"
    and inv :: "'s \<Rightarrow> bool"
  assumes enq_inv: "inv s \<Longrightarrow> inv (enq i q s)"
    and deq_inv: "inv s \<Longrightarrow> inv (snd (deq i s))"
    and items_enq: "inv s \<Longrightarrow> items (enq i q s) j = (if j = i then items s i @ [q] else items s j)"
    and items_deq: "inv s \<Longrightarrow> items (snd (deq i s)) j = (if j = i then tl (items s i) else items s j)"
    and head_deq: "inv s \<Longrightarrow> fst (deq i s) = (case items s i of [] \<Rightarrow> None | q # qs \<Rightarrow> Some q)"
begin

lemma drain_items: "inv s \<Longrightarrow> fst (drain (deq i) n s) = take n (items s i)"
proof (induction n arbitrary: s)
  case (Suc n)
  have tl: "inv (snd (deq i s))" "items (snd (deq i s)) i = tl (items s i)"
    using Suc.prems by (simp_all add: deq_inv items_deq)
  show ?case
    using Suc.IH [OF tl(1)] tl(2) head_deq [OF Suc.prems, of i]
    by (cases "items s i") (auto split: prod.splits option.splits simp: Let_def)
qed simp

lemma items_enq_all: "inv s \<Longrightarrow> inv (fold (enq i) qs s) \<and> items (fold (enq i) qs s) j
    = (if j = i then items s i @ qs else items s j)"
  by (induction qs arbitrary: s) (auto simp: enq_inv items_enq)

lemma first_in_first_out:
  "inv s \<Longrightarrow> fst (drain (deq i) (length (items s i) + length qs) (fold (enq i) qs s)) = items s i @ qs"
  using items_enq_all [of s i qs i] by (simp add: drain_items)

end

end
