(* ===== verification/Run_Control.thy ===== *)
theory Run_Control
  imports Machines
begin

text \<open>
  \<open>backend/src/host/run-control.ts\<close>: the in-memory control of the asks a chat session runs.  Four
  collections keyed by session (running, stopped, abort controllers, queues) and a revision counter
  that callers put into the key of cached projections.  An \<open>AbortController\<close> is a shared object:
  the module keeps references to it, so the model keeps the set of aborted controllers next to the
  map of references.

  From \<open>backend/src/host/api.ts\<close> come the callers that decide on this state: the projection
  \<open>agent_status\<close>, the end of a run (\<open>afterRun\<close>) and the stop route.  Their calls to the
  database and to the event stream do not touch this state and are left out.
\<close>

section \<open>State\<close>

record 'j intent =
  intent_type :: string
  intent_rest :: 'j

record 'j queued_ask =
  qa_id :: string
  qa_text :: string
  qa_intent :: "'j intent"
  qa_me :: 'j

record 'j run_control =
  rc_running :: "string set"
  rc_stopped :: "string set"
  rc_aborts :: "string \<rightharpoonup> nat"
  rc_queues :: "string \<rightharpoonup> 'j queued_ask list"
  rc_revision :: nat
  rc_aborted :: "nat set"  \<comment> \<open>the controllers whose signal has fired\<close>

definition rc_init :: "'j run_control" where
  "rc_init = \<lparr>rc_running = {}, rc_stopped = {}, rc_aborts = Map.empty, rc_queues = Map.empty,
     rc_revision = 0, rc_aborted = {}\<rparr>"

definition WRITE_SKILLS :: "string set" where
  "WRITE_SKILLS = {''confirm_stage'', ''creator_contact_decrypt''}"

definition isWriteSkill :: "string option \<Rightarrow> bool" where
  "isWriteSkill skill = (case skill of None \<Rightarrow> False | Some s \<Rightarrow> s \<noteq> [] \<and> s \<in> WRITE_SKILLS)"

definition bump :: "'j run_control \<Rightarrow> 'j run_control" where
  "bump s = s\<lparr>rc_revision := rc_revision s + 1\<rparr>"

section \<open>Runs\<close>

definition isSessionRunning :: "string \<Rightarrow> 'j run_control \<Rightarrow> bool" where
  "isSessionRunning sid s \<longleftrightarrow> sid \<in> rc_running s"

definition wasSessionStopped :: "string \<Rightarrow> 'j run_control \<Rightarrow> bool" where
  "wasSessionStopped sid s \<longleftrightarrow> sid \<in> rc_stopped s"

definition hasRunAbort :: "string \<Rightarrow> 'j run_control \<Rightarrow> bool" where
  "hasRunAbort sid s \<longleftrightarrow> rc_aborts s sid \<noteq> None"

definition beginSessionAsk :: "string \<Rightarrow> 'j run_control \<Rightarrow> 'j run_control" where
  "beginSessionAsk sid s = bump (s\<lparr>rc_stopped := rc_stopped s - {sid}\<rparr>)"

definition markSessionRunning :: "string \<Rightarrow> 'j run_control \<Rightarrow> bool \<times> 'j run_control" where
  "markSessionRunning sid s =
    (if sid \<in> rc_stopped s then (False, s)
     else (True, bump (s\<lparr>rc_running := insert sid (rc_running s)\<rparr>)))"

definition clearSessionRunning :: "string \<Rightarrow> 'j run_control \<Rightarrow> 'j run_control" where
  "clearSessionRunning sid s =
    bump (s\<lparr>rc_running := rc_running s - {sid}, rc_aborts := (rc_aborts s)(sid := None)\<rparr>)"

definition attachRunAbort :: "string \<Rightarrow> nat \<Rightarrow> 'j run_control \<Rightarrow> 'j run_control" where
  "attachRunAbort sid controller s =
    (let s1 = s\<lparr>rc_aborts := (rc_aborts s)(sid \<mapsto> controller)\<rparr> in
     if sid \<in> rc_stopped s1 then s1\<lparr>rc_aborted := insert controller (rc_aborted s1)\<rparr> else s1)"

definition abortSessionRun :: "string \<Rightarrow> 'j run_control \<Rightarrow> bool \<times> 'j run_control" where
  "abortSessionRun sid s =
    (let active = (rc_aborts s sid \<noteq> None \<or> sid \<in> rc_running s);
         s1 = s\<lparr>rc_stopped := insert sid (rc_stopped s)\<rparr>;
         s2 = (case rc_aborts s sid of
                 None \<Rightarrow> s1
               | Some controller \<Rightarrow> s1\<lparr>rc_aborted := insert controller (rc_aborted s1)\<rparr>)
     in (active, bump s2))"

definition resetRunControl :: "'j run_control \<Rightarrow> 'j run_control" where
  "resetRunControl s =
    bump (s\<lparr>rc_running := {}, rc_stopped := {}, rc_aborts := Map.empty, rc_queues := Map.empty\<rparr>)"

section \<open>Queues\<close>

definition listQueue :: "string \<Rightarrow> 'j run_control \<Rightarrow> 'j queued_ask list" where
  "listQueue sid s = (case rc_queues s sid of None \<Rightarrow> [] | Some q \<Rightarrow> q)"

record public_ask =
  pub_id :: string
  pub_text :: string
  pub_intent :: string

definition publicQueue :: "string \<Rightarrow> 'j run_control \<Rightarrow> public_ask list" where
  "publicQueue sid s =
    map (\<lambda>item. \<lparr>pub_id = qa_id item, pub_text = qa_text item, pub_intent = intent_type (qa_intent item)\<rparr>)
      (listQueue sid s)"

definition enqueueAsk :: "string \<Rightarrow> 'j queued_ask \<Rightarrow> 'j run_control \<Rightarrow> 'j run_control" where
  \<comment> \<open>\<open>row\<close> carries the identifier \<open>nid("q")\<close> drew\<close>
  "enqueueAsk sid row s = bump (s\<lparr>rc_queues := (rc_queues s)(sid \<mapsto> listQueue sid s @ [row])\<rparr>)"

definition removeQueued :: "string \<Rightarrow> string \<Rightarrow> 'j run_control \<Rightarrow> bool \<times> 'j run_control" where
  "removeQueued sid qid s =
    (let items = listQueue sid s; rest = filter (\<lambda>item. qa_id item \<noteq> qid) items in
     if items = [] then (False, s)
     else if length rest = length items then (False, s)
     else (True, bump (s\<lparr>rc_queues := (rc_queues s)(sid := (if rest \<noteq> [] then Some rest else None))\<rparr>)))"

definition shiftQueue :: "string \<Rightarrow> 'j run_control \<Rightarrow> 'j queued_ask option \<times> 'j run_control" where
  "shiftQueue sid s =
    (case listQueue sid s of
       [] \<Rightarrow> (None, s)
     | item # rest \<Rightarrow>
        (Some item, bump (s\<lparr>rc_queues := (rc_queues s)(sid := (if rest \<noteq> [] then Some rest else None))\<rparr>)))"

section \<open>Callers\<close>

definition session_status :: "'j run_control \<Rightarrow> string \<Rightarrow> string option \<Rightarrow> string option \<Rightarrow> string" where
  \<comment> \<open>\<open>worker\<close> and \<open>draft\<close> are the statuses of the newest worker and draft rows\<close>
  "session_status s sid worker draft =
    (if wasSessionStopped sid s then
       (if worker = Some ''waiting_approval'' then ''waiting_approval'' else ''listening'')
     else if isSessionRunning sid s then ''running''
     else if worker = Some ''waiting_approval'' \<or> worker = Some ''running'' then the worker
     else if draft = Some ''waiting_approval'' then ''waiting_approval'' else ''listening'')"

definition afterRun :: "string \<Rightarrow> 'j run_control \<Rightarrow> 'j queued_ask option \<times> 'j run_control" where
  \<comment> \<open>the ask it returns is the one \<open>launchQueuedAsk\<close> starts\<close>
  "afterRun sid s =
    (let s1 = clearSessionRunning sid s in
     if \<not> wasSessionStopped sid s1 then shiftQueue sid s1 else (None, s1))"

definition stop_route :: "string \<Rightarrow> 'j run_control \<Rightarrow> bool \<times> 'j run_control" where
  "stop_route sid s =
    (let wasRunning = isSessionRunning sid s; attached = hasRunAbort sid s;
         s1 = snd (abortSessionRun sid s)
     in (wasRunning, if wasRunning \<and> \<not> attached then snd (afterRun sid s1) else s1))"

datatype 'j rc_command =
    BeginAsk string | MarkRunning string | ClearRunning string | AttachAbort string nat
  | AbortRun string | Enqueue string "'j queued_ask" | Dequeue string | RemoveAsk string string
  | EndRun string | StopRoute string | ResetAll

datatype 'j rc_answer = Nothing | Answer bool | Launch "'j queued_ask option"

fun rc_handler :: "('j run_control, 'j rc_command, unit, 'j rc_answer) handler" where
  "rc_handler s (BeginAsk sid) = Inr (Nothing, beginSessionAsk sid s)"
| "rc_handler s (MarkRunning sid) = Inr (map_prod Answer id (markSessionRunning sid s))"
| "rc_handler s (ClearRunning sid) = Inr (Nothing, clearSessionRunning sid s)"
| "rc_handler s (AttachAbort sid ctl) = Inr (Nothing, attachRunAbort sid ctl s)"
| "rc_handler s (AbortRun sid) = Inr (map_prod Answer id (abortSessionRun sid s))"
| "rc_handler s (Enqueue sid row) = Inr (Nothing, enqueueAsk sid row s)"
| "rc_handler s (Dequeue sid) = Inr (map_prod Launch id (shiftQueue sid s))"
| "rc_handler s (RemoveAsk sid qid) = Inr (map_prod Answer id (removeQueued sid qid s))"
| "rc_handler s (EndRun sid) = Inr (map_prod Launch id (afterRun sid s))"
| "rc_handler s (StopRoute sid) = Inr (map_prod Answer id (stop_route sid s))"
| "rc_handler s ResetAll = Inr (Nothing, resetRunControl s)"

section \<open>Invariant\<close>

definition rc_ok :: "'j run_control \<Rightarrow> bool" where
  "rc_ok s \<longleftrightarrow>
     (\<forall>sid ctl. sid \<in> rc_stopped s \<longrightarrow> rc_aborts s sid = Some ctl \<longrightarrow> ctl \<in> rc_aborted s)
     \<and> (\<forall>sid. rc_queues s sid \<noteq> Some [])"

lemmas rc_ops = bump_def beginSessionAsk_def markSessionRunning_def clearSessionRunning_def
  attachRunAbort_def abortSessionRun_def resetRunControl_def enqueueAsk_def removeQueued_def
  shiftQueue_def afterRun_def stop_route_def wasSessionStopped_def isSessionRunning_def
  hasRunAbort_def Let_def

lemma rc_init_ok [simp]: "rc_ok rc_init"
  by (simp add: rc_ok_def rc_init_def)

lemma rc_preserved: "rc_ok s \<Longrightarrow> rc_handler s c = Inr (r, s') \<Longrightarrow> rc_ok s'"
  by (cases c) (auto simp: rc_ok_def rc_ops split: if_splits option.splits list.splits)

lemma rc_revision_advances: "rc_handler s c = Inr (r, s') \<Longrightarrow> rc_revision s \<le> rc_revision s'"
  by (cases c) (auto simp: rc_ops split: if_splits option.splits list.splits)

interpretation rc: versioned_machine rc_handler rc_ok "\<lambda>s (k :: unit). rc_revision s"
  by unfold_locales (auto intro: rc_preserved rc_revision_advances)

lemma listQueue_upd [simp]: "listQueue sid (bump s) = listQueue sid s"
  by (simp add: listQueue_def bump_def)

interpretation rcq: session_queue "\<lambda>s i. listQueue i s" enqueueAsk shiftQueue rc_ok
proof
  fix s :: "'a run_control" and i j q
  assume ok: "rc_ok s"
  show "rc_ok (enqueueAsk i q s)" using rc_preserved [OF ok, of "Enqueue i q"] by simp
  show "rc_ok (snd (shiftQueue i s))" using rc_preserved [OF ok, of "Dequeue i"] by (cases "shiftQueue i s") simp
  show "listQueue j (enqueueAsk i q s) = (if j = i then listQueue i s @ [q] else listQueue j s)"
    by (simp add: enqueueAsk_def listQueue_def bump_def)
  show "listQueue j (snd (shiftQueue i s)) = (if j = i then tl (listQueue i s) else listQueue j s)"
    by (auto simp: shiftQueue_def listQueue_def bump_def split: list.splits)
  show "fst (shiftQueue i s) = (case listQueue i s of [] \<Rightarrow> None | q # qs \<Rightarrow> Some q)"
    by (simp add: shiftQueue_def split: list.splits)
qed

lemma listQueue_init [simp]: "listQueue sid rc_init = []"
  by (simp add: listQueue_def rc_init_def)

text \<open>The components the projections read do not change under the revision.\<close>

lemma bump_revision [simp]: "rc_revision (bump s) = Suc (rc_revision s)"
  by (simp add: bump_def)

lemma clear_revision [simp]: "rc_revision (clearSessionRunning sid s) = Suc (rc_revision s)"
  by (simp add: clearSessionRunning_def)

lemma shift_revision [simp]: "rc_revision s \<le> rc_revision (snd (shiftQueue sid s))"
  by (simp add: shiftQueue_def split: list.splits)

lemma after_revision: "Suc (rc_revision s) \<le> rc_revision (snd (afterRun sid s))"
  using shift_revision [of "clearSessionRunning sid s" sid] by (simp add: afterRun_def Let_def)

lemma abort_revision: "rc_revision (snd (abortSessionRun sid s)) = Suc (rc_revision s)"
  by (simp add: abortSessionRun_def Let_def split: option.split)

lemma stop_revision: "Suc (rc_revision s) \<le> rc_revision (snd (stop_route sid s))"
  using after_revision [of "snd (abortSessionRun sid s)" sid]
  by (simp add: stop_route_def Let_def abort_revision)

definition observed :: "'j run_control \<Rightarrow> string set \<times> string set \<times> (string \<rightharpoonup> 'j queued_ask list)" where
  "observed s = (rc_running s, rc_stopped s, rc_queues s)"

lemma shift_observed: "rc_revision (snd (shiftQueue sid s)) = rc_revision s \<Longrightarrow> observed (snd (shiftQueue sid s)) = observed s"
  by (simp add: shiftQueue_def split: list.splits)

lemma remove_observed: "rc_revision (snd (removeQueued sid q s)) = rc_revision s \<Longrightarrow> observed (snd (removeQueued sid q s)) = observed s"
  by (cases "listQueue sid s") (auto simp: removeQueued_def Let_def split: if_splits)

lemma revision_observed:
  assumes step: "rc_handler s c = Inr (r, s')" and same: "rc_revision s' = rc_revision s"
  shows "observed s' = observed s"
proof (cases c)
  case (EndRun sid)
  then show ?thesis using step same after_revision [of s sid] by (cases "afterRun sid s") simp
next
  case (StopRoute sid)
  then show ?thesis using step same stop_revision [of s sid] by (cases "stop_route sid s") simp
next
  case (AbortRun sid)
  then show ?thesis using step same abort_revision [of sid s] by (cases "abortSessionRun sid s") simp
next
  case (Dequeue sid)
  then show ?thesis using step same shift_observed [of sid s] by (cases "shiftQueue sid s") simp
next
  case (RemoveAsk sid q)
  then show ?thesis using step same remove_observed [of sid q s] by (cases "removeQueued sid q s") simp
qed (use step same in \<open>auto simp: observed_def beginSessionAsk_def markSessionRunning_def attachRunAbort_def
  resetRunControl_def enqueueAsk_def Let_def split: if_splits\<close>)

definition ask_of :: "string \<Rightarrow> nat queued_ask" where
  "ask_of i = \<lparr>qa_id = i, qa_text = i, qa_intent = \<lparr>intent_type = ''qa'', intent_rest = 0\<rparr>, qa_me = 0\<rparr>"

definition untouched :: "string \<Rightarrow> 'j rc_command \<Rightarrow> bool" where
  \<comment> \<open>commands that do not open the next ask of the session\<close>
  "untouched sid c \<longleftrightarrow> c \<noteq> BeginAsk sid \<and> c \<noteq> ResetAll"

lemma stopped_stays:
  "untouched sid c \<Longrightarrow> sid \<in> rc_stopped s \<Longrightarrow> rc_handler s c = Inr (r, s') \<Longrightarrow> sid \<in> rc_stopped s'"
  by (cases c) (auto simp: untouched_def rc_ops split: if_splits option.splits list.splits)

lemma stopped_stays_run:
  "list_all (untouched sid) cs \<Longrightarrow> sid \<in> rc_stopped s \<Longrightarrow> sid \<in> rc_stopped (run_cmds (effect rc_handler) s cs)"
proof (induction cs arbitrary: s)
  case (Cons c cs)
  then show ?case by (auto simp: effect_def split: sum.splits dest: stopped_stays)
qed simp

section \<open>Properties\<close>

text \<open>
  A stop is never lost: in every state the module can reach, a stopped session whose run has an
  abort controller has had that controller aborted, in whichever order the stop and the
  attachment of the controller came.
\<close>

theorem stop_reaches_controller:
  assumes "serves rc_handler rc_init s" and "wasSessionStopped sid s" and "rc_aborts s sid = Some ctl"
  shows "ctl \<in> rc_aborted s"
  using rc.serves_inv [OF assms(1) rc_init_ok] assms(2,3)
  by (simp add: rc_ok_def wasSessionStopped_def)

theorem stop_reaches_controller_witness:
  "(7::nat) \<in> rc_aborted (attachRunAbort ''s'' 7 (snd (abortSessionRun ''s'' (rc_init :: nat run_control))))"
proof -
  let ?s = "attachRunAbort ''s'' 7 (snd (abortSessionRun ''s'' (rc_init :: nat run_control)))"
  have "serves rc_handler rc_init (snd (abortSessionRun ''s'' (rc_init :: nat run_control)))"
    by (rule serves_step [OF serves_refl, where c = "AbortRun ''s''" and r = "Answer False"])
      (simp add: rc_ops rc_init_def)
  then have "serves rc_handler rc_init ?s"
    by (rule serves_step [where c = "AttachAbort ''s'' 7" and r = Nothing]) simp
  then show ?thesis by (rule stop_reaches_controller [where sid = "''s''"]) (simp_all add: rc_ops rc_init_def)
qed

text \<open>
  The queue of a session is first-in first-out: asks queued one after another are launched in
  that order, after those that were waiting already, and the queues of other sessions stay as they
  are.
\<close>

theorem asks_leave_in_order:
  assumes "rc_ok s"
  shows "fst (drain (shiftQueue sid) (length (listQueue sid s) + length asks) (fold (enqueueAsk sid) asks s))
       = listQueue sid s @ asks
    \<and> (other \<noteq> sid \<longrightarrow> listQueue other (fold (enqueueAsk sid) asks s) = listQueue other s)"
  using rcq.first_in_first_out [OF assms, of sid asks] rcq.items_enq_all [OF assms, of sid asks other] by simp

theorem asks_leave_in_order_witness:
  "fst (drain (shiftQueue ''s'') (Suc (Suc 0)) (fold (enqueueAsk ''s'') [ask_of ''q_1'', ask_of ''q_2''] rc_init))
   = [ask_of ''q_1'', ask_of ''q_2'']"
  using asks_leave_in_order [OF rc_init_ok, of "''s''" "[ask_of ''q_1'', ask_of ''q_2'']", THEN conjunct1]
  by (simp add: listQueue_init del: fold_simps drain.simps)

text \<open>
  The revision covers the projection: a command that leaves the revision counter as it was
  leaves the \<open>agent_status\<close> of every session and its public queue as they were, so a cached
  projection keyed by the revision is never stale with respect to this state.
\<close>

theorem revision_covers_status:
  assumes "rc_handler s c = Inr (r, s')" and "rc_revision s' = rc_revision s"
  shows "session_status s' sid worker draft = session_status s sid worker draft
    \<and> publicQueue sid s' = publicQueue sid s"
  using revision_observed [OF assms]
  by (simp add: observed_def session_status_def publicQueue_def listQueue_def wasSessionStopped_def isSessionRunning_def)

theorem revision_covers_status_witness:
  "session_status (attachRunAbort ''s'' 1 (rc_init :: nat run_control)) ''s'' None None
     = session_status (rc_init :: nat run_control) ''s'' None None"
proof -
  have "rc_handler (rc_init :: nat run_control) (AttachAbort ''s'' 1) = Inr (Nothing, attachRunAbort ''s'' 1 rc_init)"
    by simp
  moreover have "rc_revision (attachRunAbort ''s'' 1 rc_init) = rc_revision (rc_init :: nat run_control)"
    by (simp add: attachRunAbort_def rc_init_def)
  ultimately show ?thesis using revision_covers_status by blast
qed

text \<open>
  A stopped session starts nothing until its next ask begins: whatever other commands are
  served after a stop, a run of the session is refused and the end of the current one launches
  nothing from the queue.
\<close>

theorem stopped_session_starts_nothing:
  assumes "list_all (untouched sid) cs"
    and "s = run_cmds (effect rc_handler) (snd (stop_route sid s0)) cs"
  shows "markSessionRunning sid s = (False, s) \<and> fst (afterRun sid s) = None"
proof -
  have "sid \<in> rc_stopped (snd (stop_route sid s0))"
    by (auto simp: rc_ops split: option.splits)
  then have "sid \<in> rc_stopped s" unfolding assms(2) by (rule stopped_stays_run [OF assms(1)])
  then show ?thesis by (simp add: rc_ops)
qed

theorem stopped_session_starts_nothing_witness:
  "markSessionRunning ''s'' (run_cmds (effect rc_handler) (snd (stop_route ''s'' (rc_init :: nat run_control))) [AttachAbort ''s'' 3])
   = (False, run_cmds (effect rc_handler) (snd (stop_route ''s'' rc_init)) [AttachAbort ''s'' 3])"
  by (rule stopped_session_starts_nothing [THEN conjunct1, OF _ refl]) (simp add: untouched_def)

text \<open>
  A running mark excludes nobody: \<open>markSessionRunning\<close> is refused exactly for a stopped
  session, so a session that is already running can be marked, and its work started, again.
\<close>

theorem mark_refused_iff_stopped:
  "fst (markSessionRunning sid s) \<longleftrightarrow> \<not> wasSessionStopped sid s"
  by (simp add: markSessionRunning_def wasSessionStopped_def)

end
