(* ===== verification/Jobs.thy ===== *)
theory Jobs
  imports Machines "HOL-Library.List_Lexorder" "HOL-Library.Char_ord" "HOL-Library.Product_Lexorder"
begin

text \<open>
  \<open>backend/src/execution-jobs/postgres-store.ts\<close>, with the job types of \<open>contracts.ts\<close>, the
  cancel route of \<open>routers/operation-jobs.ts\<close> and the row claims of
  \<open>queue/outbox-publisher.ts\<close>: durable execution jobs and the outbox that announces them.

  The state is the two tables.  Every operation is one SQL statement or one transaction, so it is
  one function here; \<open>FOR UPDATE SKIP LOCKED\<close> skips the rows other open transactions hold,
  which are the argument \<open>locked\<close>.  The clock (\<open>now\<close>) and the identifiers \<open>nid\<close> draws are
  arguments.  A \<open>*_json\<close> column holds the text \<open>JSON.stringify\<close> gives, and equality of
  \<open>jsonb\<close>, which is PostgreSQL's, is the parameter \<open>jsonb_eq\<close>.
\<close>

section \<open>Rows\<close>

datatype job_status = Queued | Running | Retrying | Succeeded | Failed | Cancelled | Uncertain

datatype risk_level = Low | Medium | High | Critical

record job =
  j_id :: string
  j_type :: string
  j_tenant :: string
  j_actor :: string
  j_object :: string
  j_ticket :: "string option"
  j_run :: "string option"
  j_trigger :: "string option"
  j_rule :: "string option"
  j_rule_version :: "string option"
  j_risk :: risk_level
  j_key :: string
  j_scope :: string
  j_priority :: string
  j_status :: job_status
  j_attempts :: int
  j_max_attempts :: int
  j_lease_until :: "int option"
  j_lease_owner :: "string option"
  j_next_attempt_at :: "int option"
  j_payload :: string
  j_receipt :: "string option"
  j_error_code :: "string option"
  j_error_summary :: "utext option"
  j_created_at :: int
  j_started_at :: "int option"
  j_terminal_at :: "int option"
  j_updated_at :: int

record outbox_input =
  oi_event_type :: string
  oi_aggregate_type :: string
  oi_aggregate_id :: string
  oi_payload :: "string option"
  oi_key :: "string option"

record job_input =
  ji_type :: string
  ji_tenant :: string
  ji_actor :: string
  ji_key :: string
  ji_object :: "string option"
  ji_ticket :: "string option"
  ji_run :: "string option"
  ji_trigger :: "string option"
  ji_rule :: "string option"
  ji_rule_version :: "string option"
  ji_risk :: "risk_level option"
  ji_scope :: "string option"
  ji_priority :: "string option"
  ji_max_attempts :: "rat option"
  ji_next_attempt_at :: "int option"
  ji_payload :: "string option"
  ji_outbox :: "outbox_input option"

datatype outbox_status = Pending | Publishing | Published | OutboxRetrying

datatype outbox_payload =
    RawJson string
  | QueuedNotice string string                       \<comment> \<open>\<open>job_type\<close>, \<open>tenant_ref\<close>\<close>
  | RetryScheduled string int int                    \<comment> \<open>\<open>reason\<close>, \<open>attempt\<close>, \<open>retry_at\<close>\<close>
  | LeaseRecovered int                               \<comment> \<open>\<open>attempt\<close>\<close>
  | RetryRequested "string option" int risk_level    \<comment> \<open>\<open>actor_ref\<close>, \<open>attempt\<close>, \<open>risk_level\<close>\<close>

record outbox =
  ox_id :: string
  ox_job :: string
  ox_event_type :: string
  ox_aggregate_type :: string
  ox_aggregate_id :: string
  ox_payload :: outbox_payload
  ox_key :: string
  ox_status :: outbox_status
  ox_attempts :: int
  ox_available_at :: int
  ox_published_at :: "int option"
  ox_last_error :: "string option"
  ox_created_at :: int
  ox_updated_at :: int
  ox_publisher :: "string option"
  ox_lease_until :: "int option"

record job_db =
  db_jobs :: "job list"
  db_outbox :: "outbox list"

datatype job_error = PrimaryKeyConflict | ReplayMissing

section \<open>Small helpers\<close>

definition or_null :: "string option \<Rightarrow> string option" where
  \<comment> \<open>\<open>value || null\<close>: the empty string is falsy\<close>
  "or_null v = (case v of Some [] \<Rightarrow> None | _ \<Rightarrow> v)"

definition or_text :: "string option \<Rightarrow> string \<Rightarrow> string" where
  "or_text v d = (case or_null v of None \<Rightarrow> d | Some x \<Rightarrow> x)"

definition retryDelayMs :: "int \<Rightarrow> int" where
  "retryDelayMs attempt = min 60000 (1000 * 2 ^ nat (min 6 (max 0 (attempt - 1))))"

definition normalizedLeaseMs :: "int option \<Rightarrow> int" where
  "normalizedLeaseMs value =
    max 1000 (min (10 * 60000) (case value of None \<Rightarrow> 60000 | Some v \<Rightarrow> if v = 0 then 60000 else v))"

definition isoAfter :: "int \<Rightarrow> int \<Rightarrow> int" where
  "isoAfter now durationMs = now + durationMs"

definition boundedAttempts :: "rat option \<Rightarrow> int" where
  "boundedAttempts v = max 1 (min 20 (floor (case v of None \<Rightarrow> 1 | Some n \<Rightarrow> if n = 0 then 1 else n)))"

definition highRisk :: "job \<Rightarrow> bool" where
  "highRisk j \<longleftrightarrow> j_risk j \<in> {High, Critical}"

definition priority_rank :: "string \<Rightarrow> nat" where
  "priority_rank p = (if p = ''critical'' then 0 else if p = ''high'' then 1 else 2)"

definition job_at :: "job_db \<Rightarrow> string \<Rightarrow> job option" where
  "job_at s i = find (\<lambda>j. j_id j = i) (db_jobs s)"

definition job_by_key :: "job_db \<Rightarrow> string \<Rightarrow> job option" where
  \<comment> \<open>\<open>pgExecutionJobByIdempotencyKey\<close>\<close>
  "job_by_key s k = find (\<lambda>j. j_key j = k) (db_jobs s)"

definition upd_job :: "string \<Rightarrow> (job \<Rightarrow> job) \<Rightarrow> job_db \<Rightarrow> job_db" where
  "upd_job i f s = s\<lparr>db_jobs := map (\<lambda>j. if j_id j = i then f j else j) (db_jobs s)\<rparr>"

definition ready :: "int \<Rightarrow> job \<Rightarrow> bool" where
  "ready now j \<longleftrightarrow> j_status j \<in> {Queued, Retrying}
     \<and> (case j_next_attempt_at j of None \<Rightarrow> True | Some t \<Rightarrow> t \<le> now)"

section \<open>Enqueue\<close>

definition add_outbox :: "outbox \<Rightarrow> job_db \<Rightarrow> job_error + job_db" where
  \<comment> \<open>\<open>INSERT ... ON CONFLICT (idempotency_key) DO NOTHING\<close>; a clash of primary keys aborts\<close>
  "add_outbox row s =
    (if list_ex (\<lambda>o1. ox_key o1 = ox_key row) (db_outbox s) then Inr s
     else if list_ex (\<lambda>o1. ox_id o1 = ox_id row) (db_outbox s) then Inl PrimaryKeyConflict
     else Inr (s\<lparr>db_outbox := db_outbox s @ [row]\<rparr>))"

definition new_outbox ::
  "string \<Rightarrow> string \<Rightarrow> string \<Rightarrow> string \<Rightarrow> string \<Rightarrow> outbox_payload \<Rightarrow> string \<Rightarrow> int \<Rightarrow> int \<Rightarrow> outbox" where
  "new_outbox i jid event agg_type agg_id payload key available now =
    \<lparr>ox_id = i, ox_job = jid, ox_event_type = event, ox_aggregate_type = agg_type, ox_aggregate_id = agg_id,
     ox_payload = payload, ox_key = key, ox_status = Pending, ox_attempts = 0, ox_available_at = available,
     ox_published_at = None, ox_last_error = None, ox_created_at = now, ox_updated_at = now,
     ox_publisher = None, ox_lease_until = None\<rparr>"

definition insertDispatchOutbox ::
  "string \<Rightarrow> string \<Rightarrow> string \<Rightarrow> string \<Rightarrow> outbox_payload \<Rightarrow> int \<Rightarrow> int \<Rightarrow> job_db \<Rightarrow> job_error + job_db" where
  "insertDispatchOutbox obx jid event key payload available now s =
    add_outbox (new_outbox obx jid event ''execution_job'' jid payload key available now) s"

definition new_job :: "job_input \<Rightarrow> string \<Rightarrow> int \<Rightarrow> job" where
  "new_job input i now =
    \<lparr>j_id = i, j_type = ji_type input, j_tenant = ji_tenant input, j_actor = ji_actor input,
     j_object = or_text (ji_object input) ''{}'', j_ticket = or_null (ji_ticket input), j_run = or_null (ji_run input),
     j_trigger = or_null (ji_trigger input), j_rule = or_null (ji_rule input),
     j_rule_version = or_null (ji_rule_version input),
     j_risk = (case ji_risk input of None \<Rightarrow> Low | Some r \<Rightarrow> r), j_key = ji_key input,
     j_scope = or_text (ji_scope input) ''{}'', j_priority = or_text (ji_priority input) ''normal'',
     j_status = Queued, j_attempts = 0, j_max_attempts = boundedAttempts (ji_max_attempts input),
     j_lease_until = None, j_lease_owner = None,
     j_next_attempt_at = Some (case ji_next_attempt_at input of None \<Rightarrow> now | Some t \<Rightarrow> t),
     j_payload = or_text (ji_payload input) ''{}'', j_receipt = None, j_error_code = None, j_error_summary = None,
     j_created_at = now, j_started_at = None, j_terminal_at = None, j_updated_at = now\<rparr>"

definition queued_outbox :: "job_input \<Rightarrow> string \<Rightarrow> string \<Rightarrow> int \<Rightarrow> outbox" where
  "queued_outbox input i obx now =
    (let available = (case ji_next_attempt_at input of None \<Rightarrow> now | Some t \<Rightarrow> t);
         key = (case ji_outbox input of None \<Rightarrow> None | Some o1 \<Rightarrow> or_null (oi_key o1));
         key' = (case key of None \<Rightarrow> ''execution-job:'' @ ji_key input @ '':queued'' | Some k \<Rightarrow> k)
     in case ji_outbox input of
          None \<Rightarrow> new_outbox obx i ''execution_job.queued'' ''execution_job'' i
                    (QueuedNotice (ji_type input) (ji_tenant input)) key' available now
        | Some o1 \<Rightarrow> new_outbox obx i (oi_event_type o1) (oi_aggregate_type o1) (oi_aggregate_id o1)
                    (RawJson (or_text (oi_payload o1) ''{}'')) key' available now)"

definition active_duplicate :: "(string \<Rightarrow> string \<Rightarrow> bool) \<Rightarrow> job_input \<Rightarrow> job \<Rightarrow> bool" where
  "active_duplicate jsonb_eq input j \<longleftrightarrow>
     j_tenant j = ji_tenant input \<and> j_actor j = ji_actor input \<and> j_type j = ji_type input
     \<and> jsonb_eq (j_object j) (or_text (ji_object input) ''{}'') \<and> j_status j \<in> {Queued, Running, Retrying}"

definition pgEnqueueExecutionJob ::
  "(string \<Rightarrow> string \<Rightarrow> bool) \<Rightarrow> job_input \<Rightarrow> bool \<Rightarrow> string \<Rightarrow> string \<Rightarrow> int \<Rightarrow> job_db
     \<Rightarrow> job_error + (job \<times> bool) \<times> job_db" where
  "pgEnqueueExecutionJob jsonb_eq input deduplicate_active job_id obx_id now s =
    (case (if deduplicate_active then find (active_duplicate jsonb_eq input) (db_jobs s) else None) of
       Some active \<Rightarrow> Inr ((active, False), s)
     | None \<Rightarrow>
        if list_ex (\<lambda>j. j_key j = ji_key input) (db_jobs s) then
          (case job_by_key s (ji_key input) of
             None \<Rightarrow> Inl ReplayMissing
           | Some replay \<Rightarrow> Inr ((replay, False), s))
        else if list_ex (\<lambda>j. j_id j = job_id) (db_jobs s) then Inl PrimaryKeyConflict
        else
          (let j = new_job input job_id now in
           case add_outbox (queued_outbox input job_id obx_id now) (s\<lparr>db_jobs := db_jobs s @ [j]\<rparr>) of
             Inl e \<Rightarrow> Inl e
           | Inr s' \<Rightarrow> Inr ((j, True), s')))"

section \<open>Claims and leases\<close>

definition claim_row :: "int \<Rightarrow> string \<Rightarrow> int \<Rightarrow> job \<Rightarrow> job" where
  "claim_row leaseUntil workerId stamp j =
    j\<lparr>j_status := Running, j_attempts := j_attempts j + 1, j_lease_until := Some leaseUntil,
      j_lease_owner := Some workerId,
      j_started_at := (case j_started_at j of None \<Rightarrow> Some stamp | Some t \<Rightarrow> Some t), j_updated_at := stamp\<rparr>"

definition pgClaimExecutionJobById ::
  "string \<Rightarrow> string \<Rightarrow> int option \<Rightarrow> int \<Rightarrow> job_db \<Rightarrow> job option \<times> job_db" where
  "pgClaimExecutionJobById i workerId lease_ms now s =
    (case job_at s i of
       Some j \<Rightarrow>
         if ready now j then
           (let f = claim_row (isoAfter now (normalizedLeaseMs lease_ms)) workerId now
            in (Some (f j), upd_job i f s))
         else (None, s)
     | None \<Rightarrow> (None, s))"

definition claim_order :: "job \<Rightarrow> nat \<times> int \<times> string" where
  "claim_order j = (priority_rank (j_priority j), j_created_at j, j_id j)"

definition claim_candidates :: "string list \<Rightarrow> string list \<Rightarrow> int \<Rightarrow> job_db \<Rightarrow> job list" where
  "claim_candidates job_types locked now s =
    sort_key claim_order
      (filter (\<lambda>j. ready now j \<and> (job_types = [] \<or> j_type j \<in> set job_types) \<and> j_id j \<notin> set locked) (db_jobs s))"

definition pgClaimNextExecutionJob ::
  "string \<Rightarrow> string list \<Rightarrow> int option \<Rightarrow> string list \<Rightarrow> int \<Rightarrow> job_db \<Rightarrow> job option \<times> job_db" where
  "pgClaimNextExecutionJob workerId job_types lease_ms locked now s =
    (case claim_candidates job_types locked now s of
       [] \<Rightarrow> (None, s)
     | j # _ \<Rightarrow>
        (let f = claim_row (isoAfter now (normalizedLeaseMs lease_ms)) workerId now
         in (Some (f j), upd_job (j_id j) f s)))"

definition pgRenewExecutionJobLease :: "string \<Rightarrow> string \<Rightarrow> int option \<Rightarrow> int \<Rightarrow> job_db \<Rightarrow> bool \<times> job_db" where
  "pgRenewExecutionJobLease i workerId lease_ms now s =
    (case job_at s i of
       Some j \<Rightarrow>
         if j_status j = Running \<and> j_lease_owner j = Some workerId then
           (True, upd_job i (\<lambda>j. j\<lparr>j_lease_until := Some (isoAfter now (normalizedLeaseMs lease_ms)), j_updated_at := now\<rparr>) s)
         else (False, s)
     | None \<Rightarrow> (False, s))"

section \<open>Outcomes\<close>

definition complete_row :: "string \<Rightarrow> int \<Rightarrow> job \<Rightarrow> job" where
  "complete_row receipt stamp j =
    j\<lparr>j_status := Succeeded, j_lease_until := None, j_lease_owner := None, j_receipt := Some receipt,
      j_error_code := None, j_error_summary := None, j_terminal_at := Some stamp, j_updated_at := stamp\<rparr>"

definition pgCompleteExecutionJob ::
  "string \<Rightarrow> string \<Rightarrow> int \<Rightarrow> string option \<Rightarrow> job_db \<Rightarrow> job option \<times> job_db" where
  "pgCompleteExecutionJob i receipt now expectedWorker s =
    (case job_at s i of
       Some j \<Rightarrow>
         if j_status j = Running \<and> (or_null expectedWorker = None \<or> j_lease_owner j = or_null expectedWorker) then
           (Some (complete_row receipt now j), upd_job i (complete_row receipt now) s)
         else (None, s)
     | None \<Rightarrow> (None, s))"

record fail_options =
  fo_retry_at :: "int option"
  fo_expected_worker :: "string option"
  fo_not_dispatched :: bool

definition canRetry :: "fail_options \<Rightarrow> job \<Rightarrow> bool" where
  "canRetry opts j \<longleftrightarrow> \<not> fo_not_dispatched opts \<and> \<not> highRisk j \<and> j_attempts j < j_max_attempts j"

definition fail_status :: "fail_options \<Rightarrow> job \<Rightarrow> job_status" where
  "fail_status opts j =
    (if fo_not_dispatched opts then Failed else if highRisk j then Uncertain
     else if canRetry opts j then Retrying else Failed)"

definition fail_retry_at :: "fail_options \<Rightarrow> int \<Rightarrow> job \<Rightarrow> int option" where
  "fail_retry_at opts now j =
    (if canRetry opts j
     then Some (case fo_retry_at opts of None \<Rightarrow> isoAfter now (retryDelayMs (j_attempts j)) | Some t \<Rightarrow> t)
     else None)"

definition fail_row :: "fail_options \<Rightarrow> string \<Rightarrow> utext \<Rightarrow> int \<Rightarrow> job \<Rightarrow> job" where
  "fail_row opts code summary now j =
    j\<lparr>j_status := fail_status opts j, j_lease_until := None, j_lease_owner := None,
      j_next_attempt_at := fail_retry_at opts now j, j_error_code := Some code,
      j_error_summary := Some (take 1000 summary),
      j_terminal_at := (if fail_status opts j \<in> {Failed, Uncertain} then Some now else j_terminal_at j),
      j_updated_at := now\<rparr>"

definition dispatch_key :: "string \<Rightarrow> string \<Rightarrow> int \<Rightarrow> string" where
  "dispatch_key i kind n = ''execution-job:'' @ i @ '':'' @ kind @ '':'' @ show_nat (nat n)"

definition pgFailExecutionJob ::
  "string \<Rightarrow> string \<Rightarrow> utext \<Rightarrow> fail_options \<Rightarrow> string \<Rightarrow> int \<Rightarrow> job_db \<Rightarrow> job_error + job option \<times> job_db" where
  "pgFailExecutionJob i code summary opts obx now s =
    (case job_at s i of
       None \<Rightarrow> Inr (None, s)
     | Some current \<Rightarrow>
        if j_status current \<noteq> Running then Inr (Some current, s)
        else if or_null (fo_expected_worker opts) \<noteq> None
               \<and> j_lease_owner current \<noteq> or_null (fo_expected_worker opts) then Inr (Some current, s)
        else
          (let j = fail_row opts code summary now current;
               s1 = upd_job i (fail_row opts code summary now) s
           in case fail_retry_at opts now current of
                None \<Rightarrow> Inr (Some j, s1)
              | Some retryAt \<Rightarrow>
                  (case insertDispatchOutbox obx i ''execution_job.retry_scheduled''
                          (dispatch_key i ''retry'' (j_attempts j)) (RetryScheduled code (j_attempts j) retryAt)
                          retryAt now s1 of
                     Inl e \<Rightarrow> Inl e
                   | Inr s2 \<Rightarrow> Inr (Some j, s2))))"

definition quarantine_row :: "string \<Rightarrow> utext \<Rightarrow> int \<Rightarrow> job \<Rightarrow> job" where
  "quarantine_row code summary stamp j =
    j\<lparr>j_status := Uncertain, j_lease_until := None, j_lease_owner := None, j_next_attempt_at := None,
      j_error_code := Some code, j_error_summary := Some (take 1000 summary), j_terminal_at := Some stamp,
      j_updated_at := stamp\<rparr>"

definition pgQuarantineExecutionJob ::
  "string \<Rightarrow> string \<Rightarrow> utext \<Rightarrow> int \<Rightarrow> job_db \<Rightarrow> job option \<times> job_db" where
  "pgQuarantineExecutionJob i code summary now s =
    (case job_at s i of
       Some j \<Rightarrow>
         if j_status j = Running
         then (Some (quarantine_row code summary now j), upd_job i (quarantine_row code summary now) s)
         else (None, s)
     | None \<Rightarrow> (None, s))"

section \<open>Recovery, operator retry, cancellation\<close>

definition requeue_row :: "int \<Rightarrow> job \<Rightarrow> job" where
  "requeue_row stamp j =
    j\<lparr>j_status := Retrying, j_lease_until := None, j_lease_owner := None, j_next_attempt_at := Some stamp,
      j_error_code := Some ''lease_expired'',
      j_error_summary := Some (ascii_text ''Worker lease expired before a terminal receipt''), j_updated_at := stamp\<rparr>"

definition expire_row :: "int \<Rightarrow> job \<Rightarrow> job" where
  "expire_row stamp j =
    j\<lparr>j_status := Uncertain, j_lease_until := None, j_lease_owner := None,
      j_error_code := Some ''lease_expired'',
      j_error_summary := Some (ascii_text ''Worker lease expired; manual outcome confirmation required''),
      j_terminal_at := Some stamp, j_updated_at := stamp\<rparr>"

definition expired :: "int \<Rightarrow> job \<Rightarrow> bool" where
  "expired now j \<longleftrightarrow> j_status j = Running \<and> (case j_lease_until j of None \<Rightarrow> False | Some t \<Rightarrow> t < now)"

definition still_running :: "job_db \<Rightarrow> string \<Rightarrow> job option" where
  \<comment> \<open>the row an \<open>UPDATE ... WHERE id=... AND status='running'\<close> hits\<close>
  "still_running s i = (case job_at s i of None \<Rightarrow> None | Some j \<Rightarrow> if j_status j = Running then Some j else None)"

fun recover_rows :: "(string \<Rightarrow> string) \<Rightarrow> int \<Rightarrow> job list \<Rightarrow> nat \<times> nat \<Rightarrow> job_db \<Rightarrow> job_error + (nat \<times> nat) \<times> job_db" where
  "recover_rows obx stamp [] counts s = Inr (counts, s)"
| "recover_rows obx stamp (row # rows) (requeued, uncertain) s =
    (case still_running s (j_id row) of
       None \<Rightarrow> recover_rows obx stamp rows (requeued, uncertain) s
     | Some j \<Rightarrow>
        if \<not> highRisk row \<and> j_attempts row < j_max_attempts row then
          (case insertDispatchOutbox (obx (j_id row)) (j_id row) ''execution_job.lease_recovered''
                  (dispatch_key (j_id row) ''lease-recovery'' (j_attempts j)) (LeaseRecovered (j_attempts j))
                  stamp stamp (upd_job (j_id row) (requeue_row stamp) s) of
             Inl e \<Rightarrow> Inl e
           | Inr s' \<Rightarrow> recover_rows obx stamp rows (requeued + 1, uncertain) s')
        else recover_rows obx stamp rows (requeued, uncertain + 1) (upd_job (j_id row) (expire_row stamp) s))"

definition pgRecoverExpiredExecutionJobs ::
  "string list \<Rightarrow> (string \<Rightarrow> string) \<Rightarrow> int \<Rightarrow> job_db \<Rightarrow> job_error + (nat \<times> nat) \<times> job_db" where
  "pgRecoverExpiredExecutionJobs locked obx now s =
    recover_rows obx now (filter (\<lambda>j. expired now j \<and> j_id j \<notin> set locked) (db_jobs s)) (0, 0) s"

datatype retry_reason = NotFound | NotFailed | RiskRequiresTakeover

definition retry_row :: "int \<Rightarrow> job \<Rightarrow> job" where
  "retry_row stamp j =
    j\<lparr>j_status := Queued, j_lease_until := None, j_lease_owner := None, j_next_attempt_at := Some stamp,
      j_error_code := None, j_error_summary := None, j_terminal_at := None,
      j_max_attempts := (if j_max_attempts j \<le> j_attempts j then j_attempts j + 1 else j_max_attempts j),
      j_updated_at := stamp\<rparr>"

definition pgRetryFailedExecutionJob ::
  "string \<Rightarrow> string option \<Rightarrow> string \<Rightarrow> int \<Rightarrow> job_db
     \<Rightarrow> job_error + (job option \<times> bool \<times> retry_reason option) \<times> job_db" where
  "pgRetryFailedExecutionJob i actor_ref obx now s =
    (case job_at s i of
       None \<Rightarrow> Inr ((None, False, Some NotFound), s)
     | Some current \<Rightarrow>
        if j_status current \<noteq> Failed then Inr ((Some current, False, Some NotFailed), s)
        else if j_risk current \<noteq> Low then Inr ((Some current, False, Some RiskRequiresTakeover), s)
        else
          (let j = retry_row now current in
           case insertDispatchOutbox obx i ''execution_job.retry_requested''
                  (dispatch_key i ''manual-retry'' (j_attempts j))
                  (RetryRequested (or_null actor_ref) (j_attempts j) (j_risk j)) now now (upd_job i (retry_row now) s) of
             Inl e \<Rightarrow> Inl e
           | Inr s' \<Rightarrow> Inr ((Some j, True, None), s')))"

text \<open>The code units of the summary the cancel statement writes.\<close>

definition CANCELLED_TEXT :: utext where
  "CANCELLED_TEXT =
    [24050, 21462, 28040, 21518, 32493, 21516, 27493, 65307, 24050, 35835, 21462, 30340, 25968,
     25454, 20445, 30041, 65292, 27491, 22312, 25191, 34892, 30340, 35831, 27714, 23558, 22312,
     26816, 26597, 28857, 20572, 27490]"

definition cancel_row :: "int \<Rightarrow> job \<Rightarrow> job" where
  "cancel_row stamp j =
    j\<lparr>j_status := Cancelled, j_terminal_at := Some stamp, j_updated_at := stamp, j_lease_until := None,
      j_lease_owner := None, j_error_code := Some ''cancelled_by_actor'', j_error_summary := Some CANCELLED_TEXT\<rparr>"

definition cancel_update :: "string \<Rightarrow> string \<Rightarrow> int \<Rightarrow> job_db \<Rightarrow> job_db" where
  "cancel_update i actor now s =
    (case job_at s i of
       Some j \<Rightarrow>
         if j_actor j = actor \<and> j_risk j = Low \<and> j_status j \<in> {Queued, Retrying, Running}
         then upd_job i (cancel_row now) s else s
     | None \<Rightarrow> s)"

text \<open>
  The operator routes of \<open>operationJobsRouter\<close>.  \<open>scopes\<close> is its argument: the scope check a
  business package registers for a job type, over the payload; \<open>False\<close> stands for a check
  that throws, with the error it throws left open.
\<close>

record actor =
  a_id :: string
  a_active :: bool

datatype route_error = AuthenticationRequired | JobNotFound | ScopeRefused | NotRetried retry_reason | RouteDatabase job_error

definition authorizedJob ::
  "(string \<rightharpoonup> string \<Rightarrow> bool) \<Rightarrow> actor option \<Rightarrow> string \<Rightarrow> job_db \<Rightarrow> route_error + job" where
  "authorizedJob scopes actor i s =
    (case actor of
       None \<Rightarrow> Inl AuthenticationRequired
     | Some a \<Rightarrow>
        if \<not> a_active a then Inl AuthenticationRequired
        else (case job_at s i of
                None \<Rightarrow> Inl JobNotFound
              | Some j \<Rightarrow>
                 (if j_actor j \<noteq> a_id a then Inl JobNotFound
                  else case scopes (j_type j) of
                         None \<Rightarrow> Inl JobNotFound
                       | Some check \<Rightarrow> if check (j_payload j) then Inr j else Inl ScopeRefused)))"

definition retry_route ::
  "(string \<rightharpoonup> string \<Rightarrow> bool) \<Rightarrow> actor option \<Rightarrow> string \<Rightarrow> string \<Rightarrow> int \<Rightarrow> job_db \<Rightarrow> route_error + job option \<times> job_db" where
  "retry_route scopes actor i obx now s =
    (case authorizedJob scopes actor i s of
       Inl e \<Rightarrow> Inl e
     | Inr j \<Rightarrow>
        (case pgRetryFailedExecutionJob (j_id j) (map_option a_id actor) obx now s of
           Inl e \<Rightarrow> Inl (RouteDatabase e)
         | Inr ((found, retried, reason), s') \<Rightarrow>
            (case reason of Some r \<Rightarrow> Inl (NotRetried r) | None \<Rightarrow> Inr (found, s'))))"

definition cancel_route ::
  "(string \<rightharpoonup> string \<Rightarrow> bool) \<Rightarrow> actor option \<Rightarrow> string \<Rightarrow> int \<Rightarrow> job_db \<Rightarrow> route_error + job option \<times> job_db" where
  "cancel_route scopes actor i now s =
    (case authorizedJob scopes actor i s of
       Inl e \<Rightarrow> Inl e
     | Inr j \<Rightarrow>
        (let s' = cancel_update (j_id j) (case actor of None \<Rightarrow> [] | Some a \<Rightarrow> a_id a) now s
         in Inr (job_at s' (j_id j), s')))"

section \<open>The outbox\<close>

definition boundedLeaseMs :: "int option \<Rightarrow> int" where
  "boundedLeaseMs value =
    max 5000 (min (10 * 60000) (case value of None \<Rightarrow> 60000 | Some v \<Rightarrow> if v = 0 then 60000 else v))"

definition due :: "int \<Rightarrow> outbox \<Rightarrow> bool" where
  "due now r \<longleftrightarrow>
     (ox_status r \<in> {Pending, OutboxRetrying} \<and> ox_available_at r \<le> now)
     \<or> (ox_status r = Publishing \<and> (case ox_lease_until r of None \<Rightarrow> True | Some t \<Rightarrow> t \<le> now))"

definition due_order :: "outbox \<Rightarrow> int \<times> int \<times> string" where
  "due_order r = (ox_available_at r, ox_created_at r, ox_id r)"

definition due_rows :: "nat \<Rightarrow> string list \<Rightarrow> int \<Rightarrow> job_db \<Rightarrow> outbox list" where
  "due_rows limit locked now s =
    take limit (sort_key due_order (filter (\<lambda>r. due now r \<and> ox_id r \<notin> set locked) (db_outbox s)))"

definition publish_claim :: "string \<Rightarrow> int \<Rightarrow> int \<Rightarrow> outbox \<Rightarrow> outbox" where
  "publish_claim publisher leaseUntil stamp r =
    r\<lparr>ox_status := Publishing, ox_attempts := ox_attempts r + 1, ox_publisher := Some publisher,
      ox_lease_until := Some leaseUntil, ox_updated_at := stamp, ox_last_error := None\<rparr>"

definition claimOutboxRows ::
  "nat \<Rightarrow> string \<Rightarrow> int \<Rightarrow> string list \<Rightarrow> int \<Rightarrow> job_db \<Rightarrow> outbox list \<times> job_db" where
  "claimOutboxRows limit publisher leaseMs locked now s =
    (let rows = due_rows limit locked now s;
         f = publish_claim publisher (now + leaseMs) now
     in (map f rows, s\<lparr>db_outbox := map (\<lambda>r. if ox_id r \<in> set (map ox_id rows) then f r else r) (db_outbox s)\<rparr>))"

definition upd_outbox :: "(outbox \<Rightarrow> bool) \<Rightarrow> (outbox \<Rightarrow> outbox) \<Rightarrow> job_db \<Rightarrow> job_db" where
  "upd_outbox p f s = s\<lparr>db_outbox := map (\<lambda>r. if p r then f r else r) (db_outbox s)\<rparr>"

definition publish_row :: "int \<Rightarrow> outbox \<Rightarrow> outbox" where
  "publish_row stamp r =
    r\<lparr>ox_status := Published, ox_published_at := Some stamp, ox_publisher := None, ox_lease_until := None,
      ox_updated_at := stamp, ox_last_error := None\<rparr>"

definition holds :: "string \<Rightarrow> outbox \<Rightarrow> bool" where
  "holds publisher r \<longleftrightarrow> ox_status r = Publishing \<and> ox_publisher r = Some publisher"

definition mark_published :: "string \<Rightarrow> string \<Rightarrow> int \<Rightarrow> job_db \<Rightarrow> job_db" where
  "mark_published i publisher now s = upd_outbox (\<lambda>r. ox_id r = i \<and> holds publisher r) (publish_row now) s"

definition retry_row_later :: "int \<Rightarrow> string \<Rightarrow> int \<Rightarrow> outbox \<Rightarrow> outbox" where
  "retry_row_later attempts message stamp r =
    r\<lparr>ox_status := OutboxRetrying,
      ox_available_at := stamp + min 60000 (1000 * max 1 (if attempts = 0 then 1 else attempts)),
      ox_publisher := None, ox_lease_until := None, ox_updated_at := stamp,
      ox_last_error := Some (take 1000 message)\<rparr>"

definition mark_delivery_failed :: "string \<Rightarrow> string \<Rightarrow> int \<Rightarrow> string \<Rightarrow> int \<Rightarrow> job_db \<Rightarrow> job_db" where
  "mark_delivery_failed i publisher attempts message now s =
    upd_outbox (\<lambda>r. ox_id r = i \<and> holds publisher r) (retry_row_later attempts message now) s"

fun drain_rows ::
  "string \<Rightarrow> (outbox \<Rightarrow> string option) \<Rightarrow> (outbox \<Rightarrow> int) \<Rightarrow> outbox list \<Rightarrow> job_db \<Rightarrow> job_db" where
  \<comment> \<open>\<open>deliver\<close> is the broker: \<open>None\<close> when \<open>queue.add\<close> succeeds, the message of its error otherwise\<close>
  "drain_rows publisher deliver clock [] s = s"
| "drain_rows publisher deliver clock (row # rows) s =
    drain_rows publisher deliver clock rows
      (case deliver row of
         None \<Rightarrow> mark_published (ox_id row) publisher (clock row) s
       | Some message \<Rightarrow> mark_delivery_failed (ox_id row) publisher (ox_attempts row) message (clock row) s)"

definition drainOnce ::
  "string \<Rightarrow> int \<Rightarrow> int \<Rightarrow> string list \<Rightarrow> (outbox \<Rightarrow> string option) \<Rightarrow> (outbox \<Rightarrow> int) \<Rightarrow> int \<Rightarrow> job_db
     \<Rightarrow> nat \<times> job_db" where
  "drainOnce publisher leaseMs limit locked deliver clock now s =
    (let (rows, s1) = claimOutboxRows (nat (max 1 (min 500 limit))) publisher leaseMs locked now s
     in (length rows, drain_rows publisher deliver clock rows s1))"

definition pgPublishExecutionOutboxForJob :: "string \<Rightarrow> string \<Rightarrow> int \<Rightarrow> job_db \<Rightarrow> nat \<times> job_db" where
  "pgPublishExecutionOutboxForJob jid publisher now s =
    (let p = (\<lambda>r. ox_job r = jid \<and> holds publisher r)
     in (length (filter p (db_outbox s)),
         upd_outbox p (\<lambda>r. r\<lparr>ox_status := Published, ox_published_at := Some now, ox_updated_at := now,
                          ox_publisher := None, ox_lease_until := None\<rparr>) s))"

section \<open>Commands\<close>

datatype job_command =
    JEnqueue job_input bool string string int
  | JClaim string string "int option" int
  | JClaimNext string "string list" "int option" "string list" int
  | JRenew string string "int option" int
  | JComplete string string int "string option"
  | JFail string string utext fail_options string int
  | JQuarantine string string utext int
  | JRecover "string list" "string \<Rightarrow> string" int
  | JRetry string "string option" string int
  | JCancel string string int
  | OClaim nat string int "string list" int
  | OPublished string string int
  | OFailed string string int string int
  | OPublishedForJob string string int

datatype job_answer =
    AJob "job option" | AEnqueued job bool | AFlag bool | ACounts nat nat
  | ARetry "job option" bool "retry_reason option" | ARows "outbox list" | ANone

fun job_handler :: "(string \<Rightarrow> string \<Rightarrow> bool) \<Rightarrow> (job_db, job_command, job_error, job_answer) handler" where
  "job_handler jq s (JEnqueue input dedup i obx now) =
     (case pgEnqueueExecutionJob jq input dedup i obx now s of
        Inl e \<Rightarrow> Inl e | Inr ((j, created), s') \<Rightarrow> Inr (AEnqueued j created, s'))"
| "job_handler jq s (JClaim i w lease now) = Inr (map_prod AJob id (pgClaimExecutionJobById i w lease now s))"
| "job_handler jq s (JClaimNext w types lease locked now) =
     Inr (map_prod AJob id (pgClaimNextExecutionJob w types lease locked now s))"
| "job_handler jq s (JRenew i w lease now) = Inr (map_prod AFlag id (pgRenewExecutionJobLease i w lease now s))"
| "job_handler jq s (JComplete i receipt now w) = Inr (map_prod AJob id (pgCompleteExecutionJob i receipt now w s))"
| "job_handler jq s (JFail i code summary opts obx now) =
     map_sum id (map_prod AJob id) (pgFailExecutionJob i code summary opts obx now s)"
| "job_handler jq s (JQuarantine i code summary now) =
     Inr (map_prod AJob id (pgQuarantineExecutionJob i code summary now s))"
| "job_handler jq s (JRecover locked obx now) =
     map_sum id (map_prod (\<lambda>(a, b). ACounts a b) id) (pgRecoverExpiredExecutionJobs locked obx now s)"
| "job_handler jq s (JRetry i actor obx now) =
     map_sum id (map_prod (\<lambda>(j, ok, why). ARetry j ok why) id) (pgRetryFailedExecutionJob i actor obx now s)"
| "job_handler jq s (JCancel i actor now) = Inr (ANone, cancel_update i actor now s)"
| "job_handler jq s (OClaim limit publisher lease locked now) =
     Inr (map_prod ARows id (claimOutboxRows limit publisher lease locked now s))"
| "job_handler jq s (OPublished i publisher now) = Inr (ANone, mark_published i publisher now s)"
| "job_handler jq s (OFailed i publisher attempts message now) =
     Inr (ANone, mark_delivery_failed i publisher attempts message now s)"
| "job_handler jq s (OPublishedForJob jid publisher now) =
     Inr (ANone, snd (pgPublishExecutionOutboxForJob jid publisher now s))"

end
