(* ===== verification/Job_Lemmas.thy ===== *)
theory Job_Lemmas
  imports Jobs
begin

text \<open>
  The life of one job row as a step relation, the simulation of the job store by it, and the
  properties of the store: every command moves each row along the relation, so what holds of the
  relation holds of the store.  The store provides the contracts of \<open>Machines\<close>: the
  invariant, the attempt counter as a version, terminal outcomes as a ledger, and enqueueing as an
  idempotent command.
\<close>

section \<open>The life of a job row\<close>

inductive job_moves :: "job \<Rightarrow> job \<Rightarrow> bool" where
  mv_claim: "ready now j \<Longrightarrow> job_moves j (claim_row lease w now j)"
| mv_renew: "j_status j = Running \<Longrightarrow> j_lease_owner j = Some w
     \<Longrightarrow> job_moves j (j\<lparr>j_lease_until := Some t, j_updated_at := now\<rparr>)"
| mv_complete: "j_status j = Running \<Longrightarrow> job_moves j (complete_row receipt now j)"
| mv_fail: "j_status j = Running \<Longrightarrow> job_moves j (fail_row opts code summary now j)"
| mv_quarantine: "j_status j = Running \<Longrightarrow> job_moves j (quarantine_row code summary now j)"
| mv_requeue: "j_status j = Running \<Longrightarrow> \<not> highRisk j \<Longrightarrow> j_attempts j < j_max_attempts j
     \<Longrightarrow> job_moves j (requeue_row now j)"
| mv_expire: "j_status j = Running \<Longrightarrow> job_moves j (expire_row now j)"
| mv_retry: "j_status j = Failed \<Longrightarrow> j_risk j = Low \<Longrightarrow> job_moves j (retry_row now j)"
| mv_cancel: "j_risk j = Low \<Longrightarrow> j_status j \<in> {Queued, Retrying, Running} \<Longrightarrow> job_moves j (cancel_row now j)"

lemmas row_defs = claim_row_def complete_row_def fail_row_def quarantine_row_def requeue_row_def
  expire_row_def retry_row_def cancel_row_def

definition no_lease :: "job \<Rightarrow> bool" where
  "no_lease j \<longleftrightarrow> j_lease_owner j = None \<and> j_lease_until j = None"

definition job_ok :: "job \<Rightarrow> bool" where
  "job_ok j \<longleftrightarrow>
     0 \<le> j_attempts j \<and> j_attempts j \<le> j_max_attempts j \<and> (highRisk j \<longrightarrow> j_attempts j \<le> 1)
     \<and> (case j_status j of
           Queued \<Rightarrow> no_lease j \<and> j_terminal_at j = None \<and> j_attempts j < j_max_attempts j
             \<and> (highRisk j \<longrightarrow> j_attempts j = 0)
         | Retrying \<Rightarrow> no_lease j \<and> j_terminal_at j = None \<and> j_attempts j < j_max_attempts j \<and> \<not> highRisk j
         | Running \<Rightarrow> j_lease_owner j \<noteq> None \<and> j_lease_until j \<noteq> None \<and> j_terminal_at j = None \<and> 1 \<le> j_attempts j
         | Succeeded \<Rightarrow> no_lease j \<and> j_terminal_at j \<noteq> None \<and> j_receipt j \<noteq> None
         | _ \<Rightarrow> no_lease j \<and> j_terminal_at j \<noteq> None)"

lemma risk_after [simp]:
  "highRisk (claim_row l w t j) = highRisk j" "highRisk (complete_row c t j) = highRisk j"
  "highRisk (fail_row opts d e t j) = highRisk j" "highRisk (quarantine_row d e t j) = highRisk j"
  "highRisk (requeue_row t j) = highRisk j" "highRisk (expire_row t j) = highRisk j"
  "highRisk (retry_row t j) = highRisk j" "highRisk (cancel_row t j) = highRisk j"
  "highRisk (j\<lparr>j_lease_until := u, j_updated_at := t\<rparr>) = highRisk j"
  by (simp_all add: highRisk_def row_defs)

lemma fail_status_cases:
  "fail_status opts j = Failed \<or> fail_status opts j = Uncertain
   \<or> fail_status opts j = Retrying \<and> \<not> highRisk j \<and> j_attempts j < j_max_attempts j"
  by (simp add: fail_status_def canRetry_def)

lemma moves_ok:
  assumes "job_moves j j'" and "job_ok j"
  shows "job_ok j'"
  using assms(1)
proof cases
  case (mv_claim now lease w)
  then show ?thesis using assms(2)
    by (cases "j_status j") (auto simp: job_ok_def row_defs ready_def no_lease_def highRisk_def)
next
  case (mv_fail opts code summary now)
  then show ?thesis using assms(2) fail_status_cases [of opts j]
    by (elim disjE) (simp_all add: job_ok_def fail_row_def highRisk_def no_lease_def)
next
  case (mv_cancel now)
  then show ?thesis using assms(2)
    by (cases "j_status j") (simp_all add: job_ok_def row_defs highRisk_def no_lease_def)
qed (use assms(2) in \<open>simp_all add: job_ok_def row_defs highRisk_def no_lease_def\<close>)

lemma moves_identity: "job_moves j j' \<Longrightarrow> j_id j' = j_id j \<and> j_key j' = j_key j \<and> j_risk j' = j_risk j
    \<and> j_type j' = j_type j \<and> j_actor j' = j_actor j \<and> j_payload j' = j_payload j"
  by (induction rule: job_moves.induct) (auto simp: row_defs)

lemma moves_attempts: "job_moves j j' \<Longrightarrow> j_attempts j \<le> j_attempts j'"
  by (induction rule: job_moves.induct) (auto simp: row_defs)

lemma moves_not_final: "job_moves j j' \<Longrightarrow> j_status j \<notin> {Succeeded, Cancelled, Uncertain}"
  by (induction rule: job_moves.induct) (auto simp: ready_def)

lemma star_ok: "job_moves\<^sup>*\<^sup>* j j' \<Longrightarrow> job_ok j \<Longrightarrow> job_ok j'"
  by (induction rule: rtranclp_induct) (simp_all add: moves_ok)

lemma star_identity: "job_moves\<^sup>*\<^sup>* j j' \<Longrightarrow> j_id j' = j_id j \<and> j_key j' = j_key j \<and> j_risk j' = j_risk j
    \<and> j_type j' = j_type j \<and> j_actor j' = j_actor j \<and> j_payload j' = j_payload j"
  by (induction rule: rtranclp_induct) (simp_all add: moves_identity)

lemma star_attempts: "job_moves\<^sup>*\<^sup>* j j' \<Longrightarrow> j_attempts j \<le> j_attempts j'"
proof (induction rule: rtranclp_induct)
  case (step y z)
  from moves_attempts [OF step(2)] step(3) show ?case by simp
qed simp

lemma star_final: "job_moves\<^sup>*\<^sup>* j j' \<Longrightarrow> j_status j \<in> {Succeeded, Cancelled, Uncertain} \<Longrightarrow> j' = j"
proof (induction rule: rtranclp_induct)
  case (step y z)
  from moves_not_final [OF step(2)] step(3,4) show ?case by simp
qed simp

section \<open>The store\<close>

definition outbox_ok :: "outbox \<Rightarrow> bool" where
  "outbox_ok r \<longleftrightarrow> (ox_status r = Publishing \<longleftrightarrow> ox_publisher r \<noteq> None)
     \<and> (ox_status r = Publishing \<longleftrightarrow> ox_lease_until r \<noteq> None)
     \<and> (ox_status r = Published \<longleftrightarrow> ox_published_at r \<noteq> None)"

definition db_ok :: "job_db \<Rightarrow> bool" where
  "db_ok s \<longleftrightarrow> distinct (map j_id (db_jobs s)) \<and> distinct (map j_key (db_jobs s))
     \<and> list_all job_ok (db_jobs s)
     \<and> distinct (map ox_id (db_outbox s)) \<and> distinct (map ox_key (db_outbox s))
     \<and> list_all outbox_ok (db_outbox s)"

definition empty_db :: job_db where
  "empty_db = \<lparr>db_jobs = [], db_outbox = []\<rparr>"

lemma empty_db_ok [simp]: "db_ok empty_db"
  by (simp add: db_ok_def empty_db_def)

definition grown :: "job list \<Rightarrow> job list \<Rightarrow> bool" where
  "grown js js' \<longleftrightarrow> (\<exists>js1 new. list_all2 job_moves\<^sup>*\<^sup>* js js1 \<and> js' = js1 @ new
     \<and> (new = [] \<or> (\<exists>input i now. new = [new_job input i now]
          \<and> i \<notin> set (map j_id js) \<and> ji_key input \<notin> set (map j_key js))))"

lemma moved_grown: "list_all2 job_moves\<^sup>*\<^sup>* js js' \<Longrightarrow> grown js js'"
  by (auto simp: grown_def)

lemma grown_refl [simp]: "grown js js"
  by (rule moved_grown) (simp add: list_all2_same)

lemma job_at_mem: "job_at s i = Some j \<Longrightarrow> j \<in> set (db_jobs s) \<and> j_id j = i"
  by (auto simp: job_at_def dest: find_SomeD)

lemma job_at_unique:
  assumes "distinct (map j_id (db_jobs s))" and "job_at s i = Some j" and "x \<in> set (db_jobs s)" and "j_id x = i"
  shows "x = j"
  using assms job_at_mem [OF assms(2)] by (metis distinct_map inj_onD)

lemma job_at_iff:
  "distinct (map j_id (db_jobs s)) \<Longrightarrow> job_at s i = Some j \<longleftrightarrow> j \<in> set (db_jobs s) \<and> j_id j = i"
  using job_at_mem job_at_unique
  by (metis (mono_tags, lifting) find_None_iff2 job_at_def not_Some_eq)

lemma job_at_None: "job_at s i = None \<longleftrightarrow> i \<notin> set (map j_id (db_jobs s))"
  by (auto simp: job_at_def find_None_iff)

lemma upd_moved:
  assumes "distinct (map j_id (db_jobs s))" and "job_at s i = Some j" and "job_moves j (f j)"
  shows "list_all2 job_moves\<^sup>*\<^sup>* (db_jobs s) (db_jobs (upd_job i f s))"
proof -
  have "job_moves\<^sup>*\<^sup>* x (if j_id x = i then f x else x)" if "x \<in> set (db_jobs s)" for x
    using job_at_unique [OF assms(1,2) that] assms(3) by auto
  then show ?thesis by (simp add: upd_job_def list_all2_map2 list_all2_same)
qed

lemma upd_job_outbox [simp]: "db_outbox (upd_job i f s) = db_outbox s"
  by (simp add: upd_job_def)

lemma add_outbox_jobs: "add_outbox r s = Inr s' \<Longrightarrow> db_jobs s' = db_jobs s"
  by (auto simp: add_outbox_def split: if_splits)

lemma moved_ids: "list_all2 job_moves\<^sup>*\<^sup>* js js' \<Longrightarrow> map j_id js' = map j_id js \<and> map j_key js' = map j_key js"
  by (induction rule: list_all2_induct) (auto dest: star_identity)

lemma moved_ok: "list_all2 job_moves\<^sup>*\<^sup>* js js' \<Longrightarrow> list_all job_ok js \<Longrightarrow> list_all job_ok js'"
  by (induction rule: list_all2_induct) (auto intro: star_ok)

lemma moved_trans:
  "list_all2 job_moves\<^sup>*\<^sup>* xs ys \<Longrightarrow> list_all2 job_moves\<^sup>*\<^sup>* ys zs \<Longrightarrow> list_all2 job_moves\<^sup>*\<^sup>* xs zs"
  by (rule list_all2_trans [of "job_moves\<^sup>*\<^sup>*" "job_moves\<^sup>*\<^sup>*" "job_moves\<^sup>*\<^sup>*"]) auto

lemma boundedAttempts_bounds: "1 \<le> boundedAttempts v \<and> boundedAttempts v \<le> 20"
  by (simp add: boundedAttempts_def)

lemma new_job_ok: "job_ok (new_job input i now)"
  using boundedAttempts_bounds [of "ji_max_attempts input"] by (simp add: job_ok_def new_job_def no_lease_def)

lemma grown_keeps:
  assumes "grown js js'" and "distinct (map j_id js)" and "distinct (map j_key js)" and "list_all job_ok js"
  shows "distinct (map j_id js') \<and> distinct (map j_key js') \<and> list_all job_ok js'"
proof -
  obtain js1 new where g: "list_all2 job_moves\<^sup>*\<^sup>* js js1" "js' = js1 @ new"
    "new = [] \<or> (\<exists>input i now. new = [new_job input i now] \<and> i \<notin> set (map j_id js) \<and> ji_key input \<notin> set (map j_key js))"
    using assms(1) unfolding grown_def by blast
  note ids = moved_ids [OF g(1)]
  have new: "j_id (new_job input i now) = i" "j_key (new_job input i now) = ji_key input" for input i now
    by (simp_all add: new_job_def)
  have "distinct (map j_id js1)" "distinct (map j_key js1)" "list_all job_ok js1"
    "set (map j_id js1) = set (map j_id js)" "set (map j_key js1) = set (map j_key js)"
    using ids assms moved_ok [OF g(1)] by simp_all
  then show ?thesis using g(2,3) by (auto simp: new new_job_ok image_iff)
qed

section \<open>The store moves its rows along the relation\<close>

definition rows_moved :: "job_db \<Rightarrow> job_db \<Rightarrow> bool" where
  "rows_moved s s' \<longleftrightarrow> list_all2 job_moves\<^sup>*\<^sup>* (db_jobs s) (db_jobs s')"

lemma rows_moved_refl [simp]: "rows_moved s s"
  by (simp add: rows_moved_def list_all2_same)

lemma rows_moved_upd:
  "distinct (map j_id (db_jobs s)) \<Longrightarrow> job_at s i = Some j \<Longrightarrow> job_moves j (f j) \<Longrightarrow> rows_moved s (upd_job i f s)"
  unfolding rows_moved_def by (rule upd_moved)

lemma rows_moved_ids: "rows_moved s s' \<Longrightarrow> map j_id (db_jobs s') = map j_id (db_jobs s)"
  by (simp add: rows_moved_def moved_ids)

lemma rows_moved_trans: "rows_moved s t \<Longrightarrow> rows_moved t u \<Longrightarrow> rows_moved s u"
  unfolding rows_moved_def by (rule moved_trans)

lemma rows_moved_outbox: "rows_moved s t \<Longrightarrow> db_jobs u = db_jobs t \<Longrightarrow> rows_moved s u"
  by (simp add: rows_moved_def)

lemma insert_jobs: "insertDispatchOutbox obx i e k p t now s = Inr s' \<Longrightarrow> db_jobs s' = db_jobs s"
  unfolding insertDispatchOutbox_def by (rule add_outbox_jobs)

lemma claim_moved:
  assumes "distinct (map j_id (db_jobs s))"
  shows "rows_moved s (snd (pgClaimExecutionJobById i w lease now s))"
  using rows_moved_upd [OF assms] mv_claim
  by (auto simp: pgClaimExecutionJobById_def Let_def split: option.split)

lemma candidates_ready:
  "claim_candidates types locked now s = j # js \<Longrightarrow> j \<in> set (db_jobs s) \<and> ready now j
     \<and> (types = [] \<or> j_type j \<in> set types) \<and> j_id j \<notin> set locked"
proof -
  assume "claim_candidates types locked now s = j # js"
  then have "j \<in> set (claim_candidates types locked now s)" by simp
  then show ?thesis by (simp add: claim_candidates_def)
qed

lemma claim_next_moved:
  assumes "distinct (map j_id (db_jobs s))"
  shows "rows_moved s (snd (pgClaimNextExecutionJob w types lease locked now s))"
proof (cases "claim_candidates types locked now s")
  case (Cons j js)
  from candidates_ready [OF Cons] have "job_at s (j_id j) = Some j" "ready now j"
    using assms by (simp_all add: job_at_iff)
  then show ?thesis using Cons rows_moved_upd [OF assms] mv_claim
    by (simp add: pgClaimNextExecutionJob_def Let_def)
qed (simp add: pgClaimNextExecutionJob_def)

lemma renew_moved:
  assumes "distinct (map j_id (db_jobs s))"
  shows "rows_moved s (snd (pgRenewExecutionJobLease i w lease now s))"
  using rows_moved_upd [OF assms] mv_renew by (auto simp: pgRenewExecutionJobLease_def split: option.split)

lemma complete_moved:
  assumes "distinct (map j_id (db_jobs s))"
  shows "rows_moved s (snd (pgCompleteExecutionJob i receipt now w s))"
  using rows_moved_upd [OF assms] mv_complete by (auto simp: pgCompleteExecutionJob_def split: option.split)

lemma quarantine_moved:
  assumes "distinct (map j_id (db_jobs s))"
  shows "rows_moved s (snd (pgQuarantineExecutionJob i code summary now s))"
  using rows_moved_upd [OF assms] mv_quarantine by (auto simp: pgQuarantineExecutionJob_def split: option.split)

lemma cancel_moved:
  assumes "distinct (map j_id (db_jobs s))"
  shows "rows_moved s (cancel_update i a now s)"
  using rows_moved_upd [OF assms] mv_cancel by (auto simp: cancel_update_def split: option.split)

lemma fail_moved:
  assumes "distinct (map j_id (db_jobs s))" and "pgFailExecutionJob i code summary opts obx now s = Inr (r, s')"
  shows "rows_moved s s'"
proof -
  have "rows_moved s (upd_job i (fail_row opts code summary now) s)"
    if "job_at s i = Some j" "j_status j = Running" for j
    using rows_moved_upd [OF assms(1) that(1)] mv_fail [OF that(2)] by blast
  then show ?thesis using assms(2)
    by (auto simp: pgFailExecutionJob_def Let_def intro: rows_moved_outbox dest!: insert_jobs
        split: option.splits if_splits sum.splits)
qed

lemma retry_moved:
  assumes "distinct (map j_id (db_jobs s))" and "pgRetryFailedExecutionJob i actor obx now s = Inr (r, s')"
  shows "rows_moved s s'"
proof -
  have "rows_moved s (upd_job i (retry_row now) s)"
    if "job_at s i = Some j" "j_status j = Failed" "j_risk j = Low" for j
    using rows_moved_upd [OF assms(1) that(1)] mv_retry [OF that(2,3)] by blast
  then show ?thesis using assms(2)
    by (auto simp: pgRetryFailedExecutionJob_def Let_def intro: rows_moved_outbox dest!: insert_jobs
        split: option.splits if_splits sum.splits)
qed

lemma job_at_upd_other: "k \<noteq> i \<Longrightarrow> (\<And>j. j_id (f j) = j_id j) \<Longrightarrow> job_at (upd_job i f s) k = job_at s k"
proof -
  assume "k \<noteq> i" "\<And>j. j_id (f j) = j_id j"
  then have "find (\<lambda>j. j_id j = k) (map (\<lambda>j. if j_id j = i then f j else j) js) = find (\<lambda>j. j_id j = k) js" for js
    by (induction js) auto
  then show ?thesis by (simp add: job_at_def upd_job_def)
qed

lemma row_ids [simp]:
  "j_id (claim_row l w t j) = j_id j" "j_id (complete_row c t j) = j_id j"
  "j_id (fail_row opts d e t j) = j_id j" "j_id (quarantine_row d e t j) = j_id j"
  "j_id (requeue_row t j) = j_id j" "j_id (expire_row t j) = j_id j"
  "j_id (retry_row t j) = j_id j" "j_id (cancel_row t j) = j_id j"
  by (simp_all add: row_defs)

lemma job_at_jobs: "db_jobs s' = db_jobs s \<Longrightarrow> job_at s' i = job_at s i"
  by (simp add: job_at_def)

lemma recover_moved:
  assumes "recover_rows obx stamp rows counts s = Inr (r, s')" and "distinct (map j_id (db_jobs s))"
    and "distinct (map j_id rows)" and "\<forall>row \<in> set rows. job_at s (j_id row) = Some row"
  shows "rows_moved s s'"
  using assms
proof (induction obx stamp rows counts s rule: recover_rows.induct)
  case (2 obx stamp row rows requeued uncertain s)
  let ?i = "j_id row"
  have row: "job_at s ?i = Some row" using 2(7) by (meson list.set_intros(1))
  have "?i \<notin> j_id ` set rows" using 2(6) by simp
  moreover have "\<forall>x \<in> set rows. job_at s (j_id x) = Some x" using 2(7) by simp
  ultimately have later: "\<forall>x \<in> set rows. j_id x \<noteq> ?i \<and> job_at s (j_id x) = Some x"
    by (metis imageI)
  have dist: "distinct (map j_id (db_jobs s1))" if "rows_moved s s1" for s1
    using rows_moved_ids [OF that] 2(5) by simp
  show ?case
  proof (cases "j_status row = Running")
    case False
    then show ?thesis using 2 row by (simp add: still_running_def)
  next
    case run: True
    then have sr: "still_running s ?i = Some row" by (simp add: still_running_def row)
    show ?thesis
    proof (cases "\<not> highRisk row \<and> j_attempts row < j_max_attempts row")
      case True
      then obtain s1 where s1: "insertDispatchOutbox (obx ?i) ?i ''execution_job.lease_recovered''
          (dispatch_key ?i ''lease-recovery'' (j_attempts row)) (LeaseRecovered (j_attempts row))
          stamp stamp (upd_job ?i (requeue_row stamp) s) = Inr s1"
        "recover_rows obx stamp rows (requeued + 1, uncertain) s1 = Inr (r, s')"
        using 2(4) sr by (auto split: sum.splits)
      have jobs: "db_jobs s1 = db_jobs (upd_job ?i (requeue_row stamp) s)" using s1(1) by (rule insert_jobs)
      have mv: "rows_moved s s1"
        using rows_moved_outbox [OF rows_moved_upd [OF 2(5) row] jobs] mv_requeue run True by blast
      have "\<forall>x \<in> set rows. job_at s1 (j_id x) = Some x"
        using later by (simp add: job_at_jobs [OF jobs] job_at_upd_other)
      then have "rows_moved s1 s'" using 2(2) [OF sr True s1] dist [OF mv] 2(6) by simp
      with mv show ?thesis by (rule rows_moved_trans)
    next
      case False
      have mv: "rows_moved s (upd_job ?i (expire_row stamp) s)"
        using rows_moved_upd [OF 2(5) row] mv_expire [OF run] by blast
      have "\<forall>x \<in> set rows. job_at (upd_job ?i (expire_row stamp) s) (j_id x) = Some x"
        using later by (simp add: job_at_upd_other)
      then have "rows_moved (upd_job ?i (expire_row stamp) s) s'"
        using 2(3) [OF sr False] dist [OF mv] 2(4,6) sr False by simp
      with mv show ?thesis by (rule rows_moved_trans)
    qed
  qed
qed simp

lemma enqueue_grown:
  assumes "pgEnqueueExecutionJob jq input dedup i obx now s = Inr (r, s')"
  shows "grown (db_jobs s) (db_jobs s')"
proof (cases "s' = s")
  case False
  with assms have "db_jobs s' = db_jobs s @ [new_job input i now]" "i \<notin> set (map j_id (db_jobs s))"
    "ji_key input \<notin> set (map j_key (db_jobs s))"
    by (auto simp: pgEnqueueExecutionJob_def Let_def list_ex_iff job_by_key_def dest!: add_outbox_jobs
        split: option.splits if_splits sum.splits)
  moreover have "list_all2 job_moves\<^sup>*\<^sup>* (db_jobs s) (db_jobs s)" by (simp add: list_all2_same)
  ultimately show ?thesis unfolding grown_def by blast
qed simp

lemma recover_rows_moved:
  assumes "pgRecoverExpiredExecutionJobs locked obx now s = Inr (r, s')" and "distinct (map j_id (db_jobs s))"
  shows "rows_moved s s'"
  using assms(1) unfolding pgRecoverExpiredExecutionJobs_def
  by (rule recover_moved) (use assms(2) in \<open>auto simp: distinct_map_filter job_at_iff\<close>)

lemma upd_outbox_jobs [simp]: "db_jobs (upd_outbox p f s) = db_jobs s"
  by (simp add: upd_outbox_def)

lemma handler_grown:
  assumes "db_ok s" and "job_handler jq s c = Inr (r, s')"
  shows "grown (db_jobs s) (db_jobs s')"
proof -
  have d: "distinct (map j_id (db_jobs s))" using assms(1) by (simp add: db_ok_def)
  have g: "rows_moved s s' \<Longrightarrow> grown (db_jobs s) (db_jobs s')" by (simp add: rows_moved_def moved_grown)
  show ?thesis
  proof (cases c)
    case JEnqueue
    then show ?thesis using assms(2) by (auto intro: enqueue_grown split: sum.splits)
  next
    case (JClaim i w lease now)
    then show ?thesis using assms(2) claim_moved [OF d, of i w lease now] by (cases "pgClaimExecutionJobById i w lease now s") (simp add: g)
  next
    case (JClaimNext w types lease locked now)
    then show ?thesis using assms(2) claim_next_moved [OF d, of w types lease locked now]
      by (cases "pgClaimNextExecutionJob w types lease locked now s") (simp add: g)
  next
    case (JRenew i w lease now)
    then show ?thesis using assms(2) renew_moved [OF d, of i w lease now]
      by (cases "pgRenewExecutionJobLease i w lease now s") (simp add: g)
  next
    case (JComplete i receipt now w)
    then show ?thesis using assms(2) complete_moved [OF d, of i receipt now w]
      by (cases "pgCompleteExecutionJob i receipt now w s") (simp add: g)
  next
    case (JFail i code summary opts obx now)
    then show ?thesis using assms(2) fail_moved [OF d] g
      by (cases "pgFailExecutionJob i code summary opts obx now s") auto
  next
    case (JQuarantine i code summary now)
    then show ?thesis using assms(2) quarantine_moved [OF d, of i code summary now]
      by (cases "pgQuarantineExecutionJob i code summary now s") (simp add: g)
  next
    case (JRecover locked obx now)
    then show ?thesis using assms(2) recover_rows_moved [OF _ d] g
      by (cases "pgRecoverExpiredExecutionJobs locked obx now s") auto
  next
    case (JRetry i actor obx now)
    then show ?thesis using assms(2) retry_moved [OF d] g
      by (cases "pgRetryFailedExecutionJob i actor obx now s") auto
  next
    case (JCancel i actor now)
    then show ?thesis using assms(2) cancel_moved [OF d, of i actor now] by (simp add: g)
  qed (use assms(2) in \<open>auto simp: claimOutboxRows_def mark_published_def mark_delivery_failed_def
    pgPublishExecutionOutboxForJob_def Let_def\<close>)
qed

section \<open>The outbox table\<close>

definition outbox_fine :: "job_db \<Rightarrow> bool" where
  "outbox_fine s \<longleftrightarrow> distinct (map ox_id (db_outbox s)) \<and> distinct (map ox_key (db_outbox s))
     \<and> list_all outbox_ok (db_outbox s)"

lemma outbox_fine_cong: "db_outbox s' = db_outbox s \<Longrightarrow> outbox_fine s \<Longrightarrow> outbox_fine s'"
  by (simp add: outbox_fine_def)

lemma add_outbox_fine: "outbox_fine s \<Longrightarrow> outbox_ok r \<Longrightarrow> add_outbox r s = Inr s' \<Longrightarrow> outbox_fine s'"
  by (cases "list_ex (\<lambda>o1. ox_key o1 = ox_key r) (db_outbox s)")
    (auto simp: add_outbox_def outbox_fine_def list_ex_iff eq_commute [of "ox_key r"] eq_commute [of "ox_id r"] split: if_splits)

lemma new_outbox_ok [simp]: "outbox_ok (new_outbox i j e a b p k t now)"
  by (simp add: outbox_ok_def new_outbox_def)

lemma queued_outbox_ok [simp]: "outbox_ok (queued_outbox input i obx now)"
  by (simp add: queued_outbox_def Let_def split: option.split)

lemma insert_fine: "outbox_fine s \<Longrightarrow> insertDispatchOutbox obx i e k p t now s = Inr s' \<Longrightarrow> outbox_fine s'"
  unfolding insertDispatchOutbox_def by (rule add_outbox_fine) simp_all

lemma map_outbox_fine:
  assumes "outbox_fine s" and "\<And>r. ox_id (f r) = ox_id r \<and> ox_key (f r) = ox_key r"
    and "\<And>r. r \<in> set (db_outbox s) \<Longrightarrow> outbox_ok r \<Longrightarrow> outbox_ok (f r)"
  shows "outbox_fine (s\<lparr>db_outbox := map f (db_outbox s)\<rparr>)"
proof -
  have "ox_id \<circ> f = ox_id" "ox_key \<circ> f = ox_key" using assms(2) by auto
  then show ?thesis using assms(1,3) by (auto simp: outbox_fine_def list_all_iff)
qed

lemma recover_fine: "recover_rows obx stamp rows counts s = Inr (r, s') \<Longrightarrow> outbox_fine s \<Longrightarrow> outbox_fine s'"
proof (induction obx stamp rows counts s rule: recover_rows.induct)
  case (2 obx stamp row rows requeued uncertain s)
  have upd: "outbox_fine (upd_job i f s)" for i f using 2(5) by (rule outbox_fine_cong [rotated]) simp
  show ?case
  proof (cases "still_running s (j_id row)")
    case None
    then show ?thesis using 2 by simp
  next
    case (Some j)
    show ?thesis
    proof (cases "\<not> highRisk row \<and> j_attempts row < j_max_attempts row")
      case True
      then obtain s1 where s1: "insertDispatchOutbox (obx (j_id row)) (j_id row) ''execution_job.lease_recovered''
          (dispatch_key (j_id row) ''lease-recovery'' (j_attempts j)) (LeaseRecovered (j_attempts j))
          stamp stamp (upd_job (j_id row) (requeue_row stamp) s) = Inr s1"
        "recover_rows obx stamp rows (requeued + 1, uncertain) s1 = Inr (r, s')"
        using 2(4) Some by (auto split: sum.splits)
      show ?thesis by (rule 2(2) [OF Some True s1 insert_fine [OF upd s1(1)]])
    next
      case False
      then have "recover_rows obx stamp rows (requeued, uncertain + 1) (upd_job (j_id row) (expire_row stamp) s) = Inr (r, s')"
        using 2(4) Some by (simp only: recover_rows.simps option.case if_False)
      then show ?thesis by (rule 2(3) [OF Some False _ upd])
    qed
  qed
qed simp

lemma due_rows_mem: "r \<in> set (due_rows limit locked now s) \<Longrightarrow> r \<in> set (db_outbox s) \<and> due now r \<and> ox_id r \<notin> set locked"
  by (auto simp: due_rows_def dest: in_set_takeD)

lemma claimed_due:
  assumes "outbox_fine s" and "r \<in> set (db_outbox s)" and "ox_id r \<in> ox_id ` set (due_rows limit locked now s)"
  shows "r \<in> set (due_rows limit locked now s)"
proof -
  obtain x where x: "x \<in> set (due_rows limit locked now s)" "ox_id r = ox_id x" using assms(3) by blast
  moreover have "inj_on ox_id (set (db_outbox s))" using assms(1) by (simp add: outbox_fine_def distinct_map)
  ultimately have "r = x" using assms(2) due_rows_mem by (meson inj_onD)
  then show ?thesis using x(1) by simp
qed

lemma claim_outbox_fine:
  assumes "outbox_fine s"
  shows "outbox_fine (snd (claimOutboxRows limit publisher lease locked now s))"
proof -
  let ?in = "\<lambda>r. ox_id r \<in> ox_id ` set (due_rows limit locked now s)"
  have "outbox_fine (s\<lparr>db_outbox := map (\<lambda>r. if ?in r then publish_claim publisher (now + lease) now r else r) (db_outbox s)\<rparr>)"
  proof (rule map_outbox_fine [OF assms])
    fix r assume r: "r \<in> set (db_outbox s)" "outbox_ok r"
    show "outbox_ok (if ?in r then publish_claim publisher (now + lease) now r else r)"
    proof (cases "?in r")
      case True
      with r(1) have "due now r" using claimed_due [OF assms] due_rows_mem by blast
      then show ?thesis using r(2) True by (auto simp: due_def outbox_ok_def publish_claim_def)
    qed (use r(2) in simp)
  qed (simp add: publish_claim_def)
  then show ?thesis by (simp add: claimOutboxRows_def Let_def)
qed

lemma handler_outbox_fine:
  assumes "outbox_fine s" and "job_handler jq s c = Inr (r, s')"
  shows "outbox_fine s'"
proof -
  have upd: "outbox_fine (upd_job i f s)" for i f using assms(1) by (rule outbox_fine_cong [rotated]) simp
  have app: "outbox_fine (s\<lparr>db_jobs := js\<rparr>)" for js using assms(1) by (rule outbox_fine_cong [rotated]) simp
  note ins = insert_fine [OF upd] and mp = map_outbox_fine [OF assms(1)]
  show ?thesis
  proof (cases c)
    case JEnqueue
    then show ?thesis using assms
      by (auto simp: pgEnqueueExecutionJob_def Let_def dest: add_outbox_fine [OF app queued_outbox_ok]
          split: option.splits if_splits sum.splits)
  next
    case JFail
    then show ?thesis using assms upd
      by (auto simp: pgFailExecutionJob_def Let_def dest: ins split: option.splits if_splits sum.splits)
  next
    case JRetry
    then show ?thesis using assms upd
      by (auto simp: pgRetryFailedExecutionJob_def Let_def dest: ins split: option.splits if_splits sum.splits)
  next
    case (JRecover locked obx now)
    then show ?thesis using assms recover_fine
      by (cases "pgRecoverExpiredExecutionJobs locked obx now s") (auto simp: pgRecoverExpiredExecutionJobs_def)
  next
    case (OClaim limit publisher lease locked now)
    then show ?thesis using assms(2) claim_outbox_fine [OF assms(1), of limit publisher lease locked now]
      by (cases "claimOutboxRows limit publisher lease locked now s") simp
  next
    case OPublished
    then show ?thesis using assms(2)
      by (auto simp: mark_published_def upd_outbox_def publish_row_def outbox_ok_def intro!: mp)
  next
    case OFailed
    then show ?thesis using assms(2)
      by (auto simp: mark_delivery_failed_def retry_row_later_def upd_outbox_def outbox_ok_def holds_def intro!: mp)
  next
    case OPublishedForJob
    then show ?thesis using assms(2)
      by (auto simp: pgPublishExecutionOutboxForJob_def upd_outbox_def outbox_ok_def Let_def intro!: mp)
  qed (use assms upd in \<open>auto simp: pgClaimExecutionJobById_def pgClaimNextExecutionJob_def pgRenewExecutionJobLease_def
    pgCompleteExecutionJob_def pgQuarantineExecutionJob_def cancel_update_def Let_def
    split: option.splits if_splits list.splits\<close>)
qed

lemma db_preserved: "db_ok s \<Longrightarrow> job_handler jq s c = Inr (r, s') \<Longrightarrow> db_ok s'"
  using grown_keeps [OF handler_grown] handler_outbox_fine
  unfolding db_ok_def outbox_fine_def by blast

end
