(* ===== verification/Job_Properties.thy ===== *)
theory Job_Properties
  imports Job_Lemmas
begin

text \<open>
  The contracts the job store provides, as interpretations of the locales of \<open>Machines\<close>, and
  the properties of the store and of the outbox that follow from them and from the simulation by
  \<open>job_moves\<close>.
\<close>

section \<open>Contracts of the store\<close>

lemma list_all2_image: "list_all2 P xs ys \<Longrightarrow> x \<in> set xs \<Longrightarrow> \<exists>y \<in> set ys. P x y"
  by (induction rule: list_all2_induct) auto

lemma grown_job_at:
  assumes "grown (db_jobs s) (db_jobs s')" and "db_ok s'" and "job_at s i = Some j"
  shows "\<exists>j'. job_at s' i = Some j' \<and> job_moves\<^sup>*\<^sup>* j j'"
proof -
  obtain js1 new where g: "list_all2 job_moves\<^sup>*\<^sup>* (db_jobs s) js1" "db_jobs s' = js1 @ new"
    using assms(1) unfolding grown_def by blast
  from assms(3) have j: "j \<in> set (db_jobs s)" "j_id j = i" by (auto dest: job_at_mem)
  obtain j' where j': "j' \<in> set js1" "job_moves\<^sup>*\<^sup>* j j'" using list_all2_image [OF g(1) j(1)] by blast
  then have "j' \<in> set (db_jobs s')" "j_id j' = i" using g(2) j(2) star_identity by auto
  then show ?thesis using assms(2) j'(2) by (auto simp: db_ok_def job_at_iff)
qed

lemma handler_job_at:
  "db_ok s \<Longrightarrow> job_handler jq s c = Inr (r, s') \<Longrightarrow> job_at s i = Some j
   \<Longrightarrow> \<exists>j'. job_at s' i = Some j' \<and> job_moves\<^sup>*\<^sup>* j j'"
  by (rule grown_job_at [OF handler_grown]) (auto intro: db_preserved)

definition attempts_of :: "job_db \<Rightarrow> string \<Rightarrow> int" where
  "attempts_of s i = (case job_at s i of None \<Rightarrow> -1 | Some j \<Rightarrow> j_attempts j)"

lemma job_at_ok: "db_ok s \<Longrightarrow> job_at s i = Some j \<Longrightarrow> job_ok j"
  by (auto simp: db_ok_def list_all_iff dest: job_at_mem)

lemma job_ok_nonneg: "job_ok j \<Longrightarrow> 0 \<le> j_attempts j"
  by (simp add: job_ok_def)

lemma attempts_advance:
  assumes "db_ok s" and "job_handler jq s c = Inr (r, s')"
  shows "attempts_of s i \<le> attempts_of s' i"
proof (cases "job_at s i")
  case None
  have "-1 \<le> attempts_of s' i"
    using job_ok_nonneg [OF job_at_ok [OF db_preserved [OF assms], of i]]
    by (cases "job_at s' i") (auto simp: attempts_of_def intro: order_trans [of "-1" 0])
  then show ?thesis using None by (simp add: attempts_of_def)
next
  case (Some j)
  then show ?thesis using handler_job_at [OF assms Some] by (auto simp: attempts_of_def dest: star_attempts)
qed

interpretation jv: versioned_machine "job_handler jq" db_ok attempts_of for jq
  by unfold_locales (auto intro: db_preserved attempts_advance)

definition final_outcome :: "job_db \<Rightarrow> string \<Rightarrow> job option" where
  "final_outcome s i =
    (case job_at s i of None \<Rightarrow> None | Some j \<Rightarrow> if j_status j \<in> {Succeeded, Cancelled, Uncertain} then Some j else None)"

lemma final_recorded:
  assumes "db_ok s" and "job_handler jq s c = Inr (r, s')" and "final_outcome s i = Some j"
  shows "final_outcome s' i = Some j"
proof -
  have j: "job_at s i = Some j" "j_status j \<in> {Succeeded, Cancelled, Uncertain}"
    using assms(3) by (auto simp: final_outcome_def split: option.splits if_splits)
  from handler_job_at [OF assms(1,2) j(1)] obtain j' where "job_at s' i = Some j'" "job_moves\<^sup>*\<^sup>* j j'" by blast
  then show ?thesis using star_final [OF _ j(2)] j(2) by (auto simp: final_outcome_def)
qed

interpretation jf: ledger_machine "job_handler jq" db_ok final_outcome for jq
  by unfold_locales (rule final_recorded)

definition enqueued_id :: "job_db \<Rightarrow> string \<Rightarrow> string option" where
  "enqueued_id s k = map_option j_id (job_by_key s k)"

fun enqueue_key :: "job_command \<Rightarrow> string option" where
  "enqueue_key (JEnqueue input dedup i obx now) = (if dedup then None else Some (ji_key input))"
| "enqueue_key _ = None"

fun answer_id :: "job_answer \<Rightarrow> string" where
  "answer_id (AEnqueued j created) = j_id j"
| "answer_id _ = []"

lemma key_moved: "list_all2 job_moves\<^sup>*\<^sup>* js js1 \<Longrightarrow>
    map_option j_id (find (\<lambda>j. j_key j = k) (js1 @ new)) =
    (case find (\<lambda>j. j_key j = k) js of None \<Rightarrow> map_option j_id (find (\<lambda>j. j_key j = k) new) | Some j \<Rightarrow> Some (j_id j))"
  by (induction rule: list_all2_induct) (auto dest: star_identity)

lemma enqueued_recorded:
  assumes "db_ok s" and "job_handler jq s c = Inr (r, s')" and "enqueued_id s k = Some i"
  shows "enqueued_id s' k = Some i"
proof -
  obtain js1 new where g: "list_all2 job_moves\<^sup>*\<^sup>* (db_jobs s) js1" "db_jobs s' = js1 @ new"
    using handler_grown [OF assms(1,2)] unfolding grown_def by blast
  then show ?thesis using key_moved [OF g(1), of k new] assms(3)
    by (auto simp: enqueued_id_def job_by_key_def)
qed

lemma enqueue_cases:
  assumes "pgEnqueueExecutionJob jq input False i obx now s = Inr ((j, created), s')"
  shows "(\<not> created \<and> s' = s \<and> job_by_key s (ji_key input) = Some j)
    \<or> (created \<and> job_by_key s (ji_key input) = None \<and> j = new_job input i now \<and> db_jobs s' = db_jobs s @ [j])"
  using assms
  by (auto simp: pgEnqueueExecutionJob_def Let_def job_by_key_def list_ex_iff find_None_iff dest!: add_outbox_jobs
      split: option.splits if_splits sum.splits)

lemma enqueue_commit:
  assumes "job_handler jq s (JEnqueue input False i obx now) = Inr (r, s')"
  shows "enqueued_id s' (ji_key input) = Some (answer_id r)"
proof -
  obtain j created where r: "r = AEnqueued j created"
    "pgEnqueueExecutionJob jq input False i obx now s = Inr ((j, created), s')"
    using assms by (auto split: sum.splits)
  have "find (\<lambda>x. j_key x = k) xs = None \<Longrightarrow> find (\<lambda>x. j_key x = k) (xs @ [y]) = (if j_key y = k then Some y else None)"
    for k xs and y :: job
    by (induction xs) auto
  with enqueue_cases [OF r(2)] r(1) show ?thesis
    by (auto simp: enqueued_id_def job_by_key_def new_job_def)
qed

lemma enqueue_replay:
  assumes "enqueued_id s (ji_key input) = Some v"
    and "job_handler jq s (JEnqueue input False i obx now) = Inr (r, s')"
  shows "s' = s \<and> answer_id r = v"
proof -
  obtain j created where r: "r = AEnqueued j created"
    "pgEnqueueExecutionJob jq input False i obx now s = Inr ((j, created), s')"
    using assms(2) by (auto split: sum.splits)
  then show ?thesis using enqueue_cases [OF r(2)] assms(1) by (auto simp: enqueued_id_def)
qed

interpretation je: idempotent_machine "job_handler jq" db_ok enqueued_id enqueue_key answer_id for jq
proof
  fix s s' :: job_db and c r k v
  show "db_ok s \<Longrightarrow> job_handler jq s c = Inr (r, s') \<Longrightarrow> enqueued_id s k = Some v \<Longrightarrow> enqueued_id s' k = Some v"
    by (rule enqueued_recorded)
  show "job_handler jq s c = Inr (r, s') \<Longrightarrow> enqueue_key c = Some k \<Longrightarrow> enqueued_id s' k = Some (answer_id r)"
    using enqueue_commit by (cases c) (auto split: if_splits)
  show "enqueue_key c = Some k \<Longrightarrow> enqueued_id s k = Some v \<Longrightarrow> job_handler jq s c = Inr (r, s')
    \<Longrightarrow> s' = s \<and> answer_id r = v"
    using enqueue_replay by (cases c) (auto split: if_splits)
qed

section \<open>Properties of the store\<close>

lemma claim_Some:
  assumes "pgClaimExecutionJobById i w lease now s = (Some j, s')"
  shows "\<exists>j0. job_at s i = Some j0 \<and> ready now j0 \<and> j = claim_row (isoAfter now (normalizedLeaseMs lease)) w now j0
    \<and> s' = upd_job i (claim_row (isoAfter now (normalizedLeaseMs lease)) w now) s"
  using assms by (auto simp: pgClaimExecutionJobById_def Let_def split: option.splits if_splits)

lemma job_at_upd: "job_at s i = Some j \<Longrightarrow> (\<And>j. j_id (f j) = j_id j) \<Longrightarrow> job_at (upd_job i f s) i = Some (f j)"
proof -
  assume at: "job_at s i = Some j" and f: "\<And>j. j_id (f j) = j_id j"
  have "find (\<lambda>j. j_id j = i) js = Some j \<Longrightarrow> find (\<lambda>j. j_id j = i) (map (\<lambda>j. if j_id j = i then f j else j) js) = Some (f j)" for js
    by (induction js) (auto simp: f split: if_splits)
  with at show ?thesis by (simp add: job_at_def upd_job_def)
qed

lemma claim_job_at:
  assumes "pgClaimExecutionJobById i w lease now s = (Some j, s')"
  shows "job_at s' i = Some j" and "j_status j = Running" and "j_lease_owner j = Some w"
proof -
  obtain j0 where "job_at s i = Some j0" "j = claim_row (isoAfter now (normalizedLeaseMs lease)) w now j0"
    "s' = upd_job i (claim_row (isoAfter now (normalizedLeaseMs lease)) w now) s"
    using claim_Some [OF assms] by blast
  then show "job_at s' i = Some j" "j_status j = Running" "j_lease_owner j = Some w"
    using job_at_upd [of s i j0] by (simp_all add: claim_row_def)
qed

lemma claim_ok: "db_ok s \<Longrightarrow> pgClaimExecutionJobById i w lease now s = (r, s') \<Longrightarrow> db_ok s'"
  using db_preserved [of s jq "JClaim i w lease now" "AJob r" s'] by simp

lemma later_attempts:
  assumes "db_ok s" and "serves (job_handler jq) s s'" and "job_at s i = Some j" and "job_at s' i = Some j'"
  shows "j_attempts j \<le> j_attempts j'"
  using jv.serves_monotone [OF assms(2,1), of i] assms(3,4) by (simp add: attempts_of_def)

lemma job_ok_highRisk: "job_ok j \<Longrightarrow> highRisk j \<Longrightarrow> 1 \<le> j_attempts j \<Longrightarrow> j_status j \<noteq> Queued \<and> j_status j \<noteq> Retrying"
  by (auto simp: job_ok_def)

definition eligible :: "string list \<Rightarrow> string list \<Rightarrow> int \<Rightarrow> job \<Rightarrow> bool" where
  \<comment> \<open>what the \<open>WHERE\<close> of the claim asks of a row\<close>
  "eligible types locked now j \<longleftrightarrow>
     ready now j \<and> (types = [] \<or> j_type j \<in> set types) \<and> j_id j \<notin> set locked"

text \<open>
  As far as the commands of the store go, the interface gives the idempotence of enqueueing; all
  writers of the table are in \<open>Job_Writers\<close>.
\<close>

lemma store_enqueue_exactly_once:
  assumes "db_ok s" and "pgEnqueueExecutionJob jq input False i obx now s = Inr ((j, created), s1)"
    and "serves (job_handler jq) s1 s2" and "ji_key input' = ji_key input"
    and "pgEnqueueExecutionJob jq input' False i' obx' now' s2 = Inr ((j', created'), s3)"
  shows "s3 = s2 \<and> j_id j' = j_id j \<and> \<not> created'"
proof -
  have "job_handler jq s (JEnqueue input False i obx now) = Inr (AEnqueued j created, s1)"
    "job_handler jq s2 (JEnqueue input' False i' obx' now') = Inr (AEnqueued j' created', s3)"
    using assms(2,5) by simp_all
  from je.exactly_once [OF assms(1) this(1) assms(3) _ _ this(2)] assms(4)
  have "s3 = s2 \<and> j_id j' = j_id j" by simp
  then show ?thesis using enqueue_cases [OF assms(5)] by auto
qed

text \<open>
  Terminal outcomes are final: a job that succeeded, was cancelled or is uncertain is never
  changed again by any command, so its receipt, its error and its time of completion stay.
\<close>

theorem terminal_outcomes_final:
  assumes "db_ok s" and "job_at s i = Some j" and "j_status j \<in> {Succeeded, Cancelled, Uncertain}"
    and "serves (job_handler jq) s s'"
  shows "job_at s' i = Some j"
proof -
  have "final_outcome s i = Some j" using assms(2,3) by (simp add: final_outcome_def)
  then have "final_outcome s' i = Some j" by (rule jf.serves_fact [OF assms(4,1)])
  then show ?thesis by (auto simp: final_outcome_def split: option.splits if_splits)
qed

text \<open>
  C27. Every reachable row is well formed: attempts never exceed the maximum, a job that can still
  be claimed has an attempt left, exactly the running jobs have a lease and an owner, exactly the
  settled ones a time of completion, and a job of high risk has at most one attempt and never
  waits for a retry.
\<close>

theorem reachable_rows_well_formed:
  assumes "serves (job_handler jq) empty_db s" and "job_at s i = Some j"
  shows "0 \<le> j_attempts j \<and> j_attempts j \<le> j_max_attempts j
    \<and> (j_status j \<in> {Queued, Retrying} \<longrightarrow> j_attempts j < j_max_attempts j)
    \<and> (j_lease_owner j \<noteq> None \<longleftrightarrow> j_status j = Running) \<and> (j_lease_until j \<noteq> None \<longleftrightarrow> j_status j = Running)
    \<and> (j_terminal_at j \<noteq> None \<longleftrightarrow> j_status j \<in> {Succeeded, Failed, Cancelled, Uncertain})
    \<and> (highRisk j \<longrightarrow> j_attempts j \<le> 1 \<and> j_status j \<noteq> Retrying)"
proof -
  have "job_ok j" using jv.serves_inv [OF assms(1) empty_db_ok] assms(2) by (rule job_at_ok)
  then show ?thesis by (cases "j_status j") (simp_all add: job_ok_def no_lease_def)
qed

text \<open>
  A worker that lost its claim cannot settle the job: while another worker holds it, renewing,
  completing and failing under the old worker's name change nothing.
\<close>

theorem stale_worker_is_fenced:
  assumes "job_at s i = Some j" and "j_lease_owner j = Some w" and "w' \<noteq> w" and "w' \<noteq> []"
    and "fo_expected_worker opts = Some w'"
  shows "pgRenewExecutionJobLease i w' lease now s = (False, s)
    \<and> pgCompleteExecutionJob i receipt now (Some w') s = (None, s)
    \<and> pgFailExecutionJob i code summary opts obx now s = Inr (Some j, s)"
proof -
  have "or_null (Some w') = Some w'" using assms(4) by (cases w') (simp_all add: or_null_def)
  then show ?thesis using assms
    by (simp add: pgRenewExecutionJobLease_def pgCompleteExecutionJob_def pgFailExecutionJob_def)
qed

text \<open>
  Without the expected worker the guard is gone: completing a running job under no name
  succeeds whoever holds the lease, and ends the claim of the holder.
\<close>

theorem unnamed_completion_takes_over:
  assumes "job_at s i = Some j" and "j_status j = Running"
  shows "fst (pgCompleteExecutionJob i receipt now None s) = Some (complete_row receipt now j)
    \<and> job_at (snd (pgCompleteExecutionJob i receipt now None s)) i = Some (complete_row receipt now j)"
  using assms job_at_upd [OF assms(1), of "complete_row receipt now"]
  by (simp add: pgCompleteExecutionJob_def or_null_def)

text \<open>
  The next job is the right one: a claim of the next job returns a job that was ready, of a
  requested type and not locked by another transaction, and no other such job comes before it in
  the order by priority class, age and identifier; it returns nothing only when there is none.
\<close>

theorem next_claim_is_first:
  "case fst (pgClaimNextExecutionJob w types lease locked now s) of
     None \<Rightarrow> \<forall>k \<in> set (db_jobs s). \<not> eligible types locked now k
   | Some j \<Rightarrow> \<exists>j0 \<in> set (db_jobs s). eligible types locked now j0
       \<and> j = claim_row (isoAfter now (normalizedLeaseMs lease)) w now j0
       \<and> (\<forall>k \<in> set (db_jobs s). eligible types locked now k \<longrightarrow> claim_order j0 \<le> claim_order k)"
proof -
  have set: "set (claim_candidates types locked now s) = {k \<in> set (db_jobs s). eligible types locked now k}"
    by (auto simp: claim_candidates_def eligible_def)
  have sorted: "sorted (map claim_order (claim_candidates types locked now s))"
    by (simp add: claim_candidates_def)
  show ?thesis
  proof (cases "claim_candidates types locked now s")
    case Nil
    then show ?thesis using set by (auto simp: pgClaimNextExecutionJob_def)
  next
    case (Cons j0 js)
    then show ?thesis using set sorted
      by (auto simp: pgClaimNextExecutionJob_def Let_def intro!: bexI [of _ j0])
  qed
qed

text \<open>
  The delay before a retry doubles from one second and is capped: it lies between one and sixty
  seconds, never decreases with the attempt number, and for the first six attempts it is
  \<open>1000 * 2 ^ (attempt - 1)\<close> milliseconds.
\<close>

theorem retry_delay_bounds:
  "1000 \<le> retryDelayMs a \<and> retryDelayMs a \<le> 60000
   \<and> (a \<le> b \<longrightarrow> retryDelayMs a \<le> retryDelayMs b)
   \<and> (1 \<le> a \<and> a \<le> 6 \<longrightarrow> retryDelayMs a = 1000 * 2 ^ nat (a - 1))"
proof -
  have low: "1000 \<le> retryDelayMs x" for x
    by (simp add: retryDelayMs_def)
  have mono: "a \<le> b \<Longrightarrow> retryDelayMs a \<le> retryDelayMs b"
    unfolding retryDelayMs_def by (intro min.mono mult_left_mono power_increasing nat_mono max.mono) simp_all
  have "retryDelayMs a = 1000 * 2 ^ nat (a - 1)" if "1 \<le> a" "a \<le> 6"
  proof -
    from that have "(2::int) ^ nat (a - 1) \<le> 2 ^ 5" by (intro power_increasing) auto
    then show ?thesis using that by (simp add: retryDelayMs_def)
  qed
  with low mono show ?thesis by (simp add: retryDelayMs_def)
qed

section \<open>Recovery\<close>

definition retryable :: "job \<Rightarrow> bool" where
  \<comment> \<open>a job whose attempt may be repeated: its risk is low or medium and an attempt is left\<close>
  "retryable j \<longleftrightarrow> j_risk j \<in> {Low, Medium} \<and> j_attempts j < j_max_attempts j"

lemma retryable_eq: "(\<not> highRisk j \<and> j_attempts j < j_max_attempts j) = retryable j"
  by (cases "j_risk j") (simp_all add: highRisk_def retryable_def)

definition recovered_row :: "int \<Rightarrow> job \<Rightarrow> job" where
  "recovered_row now j = (if retryable j then requeue_row now j else expire_row now j)"

lemma recovered_row_simps [simp]: "j_id (recovered_row now j) = j_id j" "j_status (recovered_row now j) \<noteq> Running"
  by (simp_all add: recovered_row_def requeue_row_def expire_row_def)

lemma recover_rows_step:
  assumes "recover_rows obx stamp (row # rows) (q, u) s = Inr (r, s')" and "still_running s (j_id row) = Some row"
  shows "\<exists>s1. db_jobs s1 = db_jobs (upd_job (j_id row) (if retryable row then requeue_row stamp else expire_row stamp) s)
    \<and> recover_rows obx stamp rows (if retryable row then (q + 1, u) else (q, u + 1)) s1 = Inr (r, s')"
proof (cases "retryable row")
  case True
  then have rt: "\<not> highRisk row \<and> j_attempts row < j_max_attempts row" by (simp add: retryable_eq)
  then obtain s1 where s1: "insertDispatchOutbox (obx (j_id row)) (j_id row) ''execution_job.lease_recovered''
      (dispatch_key (j_id row) ''lease-recovery'' (j_attempts row)) (LeaseRecovered (j_attempts row))
      stamp stamp (upd_job (j_id row) (requeue_row stamp) s) = Inr s1"
    "recover_rows obx stamp rows (q + 1, u) s1 = Inr (r, s')"
    using assms by (auto split: sum.splits)
  then show ?thesis using True insert_jobs [OF s1(1)] by auto
next
  case False
  then have "\<not> (\<not> highRisk row \<and> j_attempts row < j_max_attempts row)" by (simp add: retryable_eq)
  then have "recover_rows obx stamp rows (q, u + 1) (upd_job (j_id row) (expire_row stamp) s) = Inr (r, s')"
    using assms by (simp only: recover_rows.simps option.case if_False)
  then show ?thesis using False by auto
qed

lemma recover_all:
  assumes "recover_rows obx stamp rows (q, u) s = Inr ((q', u'), s')" and "distinct (map j_id (db_jobs s))"
    and "distinct (map j_id rows)" and "\<forall>row \<in> set rows. job_at s (j_id row) = Some row \<and> j_status row = Running"
  shows "q' = q + length (filter retryable rows) \<and> u' = u + length (filter (\<lambda>j. \<not> retryable j) rows)
    \<and> (\<forall>row \<in> set rows. job_at s' (j_id row) = Some (recovered_row stamp row))
    \<and> (\<forall>i. i \<notin> j_id ` set rows \<longrightarrow> job_at s' i = job_at s i)"
  using assms
proof (induction rows arbitrary: q u s)
  case (Cons row rows)
  let ?i = "j_id row" and ?f = "if retryable row then requeue_row stamp else expire_row stamp"
  have row: "job_at s ?i = Some row" "j_status row = Running" using Cons.prems(4) by (auto dest!: bspec)
  then have sr: "still_running s ?i = Some row" by (simp add: still_running_def)
  obtain s1 where s1: "db_jobs s1 = db_jobs (upd_job ?i ?f s)"
    "recover_rows obx stamp rows (if retryable row then (q + 1, u) else (q, u + 1)) s1 = Inr ((q', u'), s')"
    using recover_rows_step [OF Cons.prems(1) sr] by blast
  have f: "j_id (?f j) = j_id j" for j by (simp add: requeue_row_def expire_row_def)
  have fresh: "?i \<notin> j_id ` set rows" "distinct (map j_id rows)" using Cons.prems(3) by simp_all
  have ids: "map j_id (db_jobs s1) = map j_id (db_jobs s)"
    unfolding s1(1) by (simp add: upd_job_def f comp_def if_distrib cong: map_cong)
  have other: "job_at s1 k = job_at s k" if "k \<noteq> ?i" for k
    using job_at_upd_other [OF that, of ?f s] by (simp only: f job_at_jobs [OF s1(1)])
  have own: "job_at s1 ?i = Some (recovered_row stamp row)"
    using job_at_upd [OF row(1), of ?f, OF f] by (simp only: job_at_jobs [OF s1(1)]) (simp add: recovered_row_def)
  have rest: "\<forall>x \<in> set rows. job_at s1 (j_id x) = Some x \<and> j_status x = Running"
    using Cons.prems(4) other fresh(1) by (metis imageI list.set_intros(2))
  have ih: "q' = fst (if retryable row then (q + 1, u) else (q, u + 1)) + length (filter retryable rows)"
    "u' = snd (if retryable row then (q + 1, u) else (q, u + 1)) + length (filter (\<lambda>j. \<not> retryable j) rows)"
    "\<forall>x \<in> set rows. job_at s' (j_id x) = Some (recovered_row stamp x)"
    "\<forall>i. i \<notin> j_id ` set rows \<longrightarrow> job_at s' i = job_at s1 i"
    using Cons.IH [of "fst (if retryable row then (q + 1, u) else (q, u + 1))"
        "snd (if retryable row then (q + 1, u) else (q, u + 1))" s1] s1(2) rest ids Cons.prems(2) fresh(2)
    by (simp_all only: prod.collapse) simp_all
  then have "job_at s' ?i = Some (recovered_row stamp row)" using fresh(1) own by simp
  then show ?case using ih other by simp
qed simp

text \<open>
  C28. Recovery settles every expired lease: every job running on a lapsed lease whose row no other
  transaction holds loses its lease and keeps its attempts; it is to be retried at once when its
  risk is low or medium and an attempt is left, and is uncertain, to be settled by a person,
  otherwise.  The two counts recovery returns are the numbers of these jobs, and every other job is
  as it was.
\<close>

theorem recovery_settles_expired:
  assumes "db_ok s" and "pgRecoverExpiredExecutionJobs locked obx now s = Inr ((requeued, uncertain), s')"
  shows "(\<forall>i j. job_at s i = Some j \<and> expired now j \<and> i \<notin> set locked \<longrightarrow>
        (\<exists>j'. job_at s' i = Some j' \<and> j_lease_owner j' = None \<and> j_lease_until j' = None \<and> j_attempts j' = j_attempts j
           \<and> (if j_risk j \<in> {Low, Medium} \<and> j_attempts j < j_max_attempts j
              then j_status j' = Retrying \<and> j_next_attempt_at j' = Some now \<and> j_terminal_at j' = j_terminal_at j
              else j_status j' = Uncertain \<and> j_terminal_at j' = Some now)))
    \<and> (\<forall>i j. job_at s i = Some j \<and> \<not> (expired now j \<and> i \<notin> set locked) \<longrightarrow> job_at s' i = Some j)
    \<and> requeued = length (filter (\<lambda>j. expired now j \<and> j_id j \<notin> set locked
          \<and> j_risk j \<in> {Low, Medium} \<and> j_attempts j < j_max_attempts j) (db_jobs s))
    \<and> uncertain = length (filter (\<lambda>j. expired now j \<and> j_id j \<notin> set locked
          \<and> \<not> (j_risk j \<in> {Low, Medium} \<and> j_attempts j < j_max_attempts j)) (db_jobs s))"
proof -
  let ?rows = "filter (\<lambda>j. expired now j \<and> j_id j \<notin> set locked) (db_jobs s)"
  have d: "distinct (map j_id (db_jobs s))" using assms(1) by (simp add: db_ok_def)
  have rows: "\<forall>row \<in> set ?rows. job_at s (j_id row) = Some row \<and> j_status row = Running"
    using d by (auto simp: job_at_iff expired_def)
  have run: "recover_rows obx now ?rows (0, 0) s = Inr ((requeued, uncertain), s')"
    using assms(2) by (simp add: pgRecoverExpiredExecutionJobs_def)
  have all: "requeued = length (filter retryable ?rows)" "uncertain = length (filter (\<lambda>j. \<not> retryable j) ?rows)"
    "\<forall>row \<in> set ?rows. job_at s' (j_id row) = Some (recovered_row now row)"
    "\<forall>i. i \<notin> j_id ` set ?rows \<longrightarrow> job_at s' i = job_at s i"
    using recover_all [OF run d _ rows] d by (simp_all add: distinct_map_filter)
  have hit: "job_at s' i = Some (recovered_row now j)" if "job_at s i = Some j" "expired now j" "i \<notin> set locked" for i j
    using all(3) that job_at_mem [OF that(1)] by auto
  have miss: "job_at s' i = Some j" if j: "job_at s i = Some j" and no: "\<not> (expired now j \<and> i \<notin> set locked)" for i j
  proof -
    have "i \<notin> j_id ` set ?rows" using job_at_unique [OF d j] no by auto
    then show ?thesis using all(4) j by simp
  qed
  have row: "j_lease_owner (recovered_row now j) = None \<and> j_lease_until (recovered_row now j) = None
      \<and> j_attempts (recovered_row now j) = j_attempts j
      \<and> (if j_risk j \<in> {Low, Medium} \<and> j_attempts j < j_max_attempts j
         then j_status (recovered_row now j) = Retrying \<and> j_next_attempt_at (recovered_row now j) = Some now
           \<and> j_terminal_at (recovered_row now j) = j_terminal_at j
         else j_status (recovered_row now j) = Uncertain \<and> j_terminal_at (recovered_row now j) = Some now)" for j
    by (simp add: recovered_row_def retryable_def requeue_row_def expire_row_def)
  have cnt: "filter P (filter Q xs) = filter (\<lambda>x. Q x \<and> P x) xs" for P Q :: "job \<Rightarrow> bool" and xs
    by (induction xs) auto
  show ?thesis
    using hit miss row all(1,2) unfolding cnt retryable_def conj_assoc by blast
qed

section \<open>Witnesses\<close>

text \<open>A store with one job, and the states a run of it goes through.\<close>

definition sample_input :: "risk_level \<Rightarrow> job_input" where
  "sample_input r =
    \<lparr>ji_type = ''mail.sync'', ji_tenant = ''t'', ji_actor = ''u'', ji_key = ''k'', ji_object = None, ji_ticket = None,
     ji_run = None, ji_trigger = None, ji_rule = None, ji_rule_version = None, ji_risk = Some r, ji_scope = None,
     ji_priority = None, ji_max_attempts = Some 3, ji_next_attempt_at = None, ji_payload = None, ji_outbox = None\<rparr>"

definition sample_job :: "risk_level \<Rightarrow> job" where
  "sample_job r = new_job (sample_input r) ''job_1'' 0"

definition sample_db :: "job list \<Rightarrow> job_db" where
  "sample_db js = \<lparr>db_jobs = js, db_outbox = []\<rparr>"

definition running_job :: "risk_level \<Rightarrow> job" where
  "running_job r = claim_row 60000 ''w1'' 0 (sample_job r)"

lemma sample_job_simps [simp]:
  "j_id (sample_job r) = ''job_1''" "j_status (sample_job r) = Queued" "j_next_attempt_at (sample_job r) = Some 0"
  "j_attempts (sample_job r) = 0" "j_max_attempts (sample_job r) = 3" "j_risk (sample_job r) = r"
  "j_lease_owner (sample_job r) = None" "j_key (sample_job r) = ''k''" "job_ok (sample_job r)"
  by (simp_all add: sample_job_def new_job_ok) (simp_all add: new_job_def sample_input_def boundedAttempts_def)

lemma running_job_simps [simp]:
  "j_id (running_job r) = ''job_1''" "j_status (running_job r) = Running" "j_attempts (running_job r) = 1"
  "j_lease_owner (running_job r) = Some ''w1''" "j_lease_until (running_job r) = Some 60000"
  "j_risk (running_job r) = r" "j_max_attempts (running_job r) = 3"
  by (simp_all add: running_job_def claim_row_def)

lemma sample_db_ok [simp]: "db_ok (sample_db [sample_job r])"
  by (simp add: db_ok_def sample_db_def)

lemma sample_at [simp]: "job_at (sample_db [j]) i = (if j_id j = i then Some j else None)"
  by (simp add: job_at_def sample_db_def)

lemma sample_upd [simp]: "upd_job i f (sample_db [j]) = sample_db [if j_id j = i then f j else j]"
  by (simp add: upd_job_def sample_db_def)

lemma sample_claim: "pgClaimExecutionJobById ''job_1'' ''w1'' None 0 (sample_db [sample_job r])
    = (Some (running_job r), sample_db [running_job r])"
  by (simp add: pgClaimExecutionJobById_def ready_def running_job_def normalizedLeaseMs_def isoAfter_def Let_def)

lemma running_ok [simp]: "db_ok (sample_db [running_job r])"
  using claim_ok [OF sample_db_ok sample_claim] .

definition sample_options :: fail_options where
  "sample_options = \<lparr>fo_retry_at = None, fo_expected_worker = None, fo_not_dispatched = False\<rparr>"

definition retrying_db :: job_db where
  "retrying_db = snd (case pgFailExecutionJob ''job_1'' ''timeout'' [] sample_options ''obx_1'' 0 (sample_db [running_job Low]) of
     Inr r \<Rightarrow> r)"

lemma retrying_step: "pgFailExecutionJob ''job_1'' ''timeout'' [] sample_options ''obx_1'' 0 (sample_db [running_job Low])
    = Inr (Some (fail_row sample_options ''timeout'' [] 0 (running_job Low)), retrying_db)"
  by (simp add: retrying_db_def pgFailExecutionJob_def sample_options_def Let_def fail_retry_at_def canRetry_def
      highRisk_def insertDispatchOutbox_def add_outbox_def) (simp add: sample_db_def or_null_def)

lemma retrying_jobs: "db_jobs retrying_db = [fail_row sample_options ''timeout'' [] 0 (running_job Low)]"
  by (simp add: retrying_db_def pgFailExecutionJob_def sample_options_def Let_def fail_retry_at_def canRetry_def
      highRisk_def insertDispatchOutbox_def add_outbox_def) (simp add: sample_db_def or_null_def)

lemma retrying_serves: "serves (job_handler jq) (sample_db [running_job Low]) retrying_db"
  by (rule serves_step [OF serves_refl, where c = "JFail ''job_1'' ''timeout'' [] sample_options ''obx_1'' 0"])
    (simp add: retrying_step)

lemma second_claim: "\<exists>j2 s3. pgClaimExecutionJobById ''job_1'' ''w2'' None 2000 retrying_db = (Some j2, s3)"
  by (simp add: pgClaimExecutionJobById_def job_at_def retrying_jobs ready_def fail_row_def fail_status_def
      canRetry_def sample_options_def highRisk_def fail_retry_at_def isoAfter_def retryDelayMs_def Let_def)

theorem terminal_outcomes_final_witness:
  "job_at (cancel_update ''job_1'' ''u'' 9 (sample_db [complete_row ''{}'' 5 (running_job Low)])) ''job_1''
     = Some (complete_row ''{}'' 5 (running_job Low))"
proof -
  have "pgCompleteExecutionJob ''job_1'' ''{}'' 5 None (sample_db [running_job Low])
      = (Some (complete_row ''{}'' 5 (running_job Low)), sample_db [complete_row ''{}'' 5 (running_job Low)])"
    by (simp add: pgCompleteExecutionJob_def or_null_def)
  then have ok: "db_ok (sample_db [complete_row ''{}'' 5 (running_job Low)])"
    using db_preserved [where jq = "(=)" and c = "JComplete ''job_1'' ''{}'' 5 None", OF running_ok [of Low]] by simp
  have "serves (job_handler (=)) (sample_db [complete_row ''{}'' 5 (running_job Low)])
     (cancel_update ''job_1'' ''u'' 9 (sample_db [complete_row ''{}'' 5 (running_job Low)]))"
    by (rule serves_step [OF serves_refl, where c = "JCancel ''job_1'' ''u'' 9" and r = ANone]) simp
  moreover have "j_status (complete_row ''{}'' 5 (running_job Low)) \<in> {Succeeded, Cancelled, Uncertain}"
    by (simp add: complete_row_def)
  moreover have "job_at (sample_db [complete_row ''{}'' 5 (running_job Low)]) ''job_1'' = Some (complete_row ''{}'' 5 (running_job Low))"
    by simp
  ultimately show ?thesis using terminal_outcomes_final [OF ok] by blast
qed

definition the_right :: "'e + 'a \<Rightarrow> 'a" where
  "the_right v = (case v of Inr a \<Rightarrow> a)"

theorem reachable_rows_well_formed_witness:
  "\<exists>j. job_at (snd (the_right (pgEnqueueExecutionJob (=) (sample_input High) False ''job_1'' ''obx_1'' 0 empty_db))) ''job_1'' = Some j
     \<and> j_attempts j \<le> 1"
proof -
  define s where "s = snd (the_right (pgEnqueueExecutionJob (=) (sample_input High) False ''job_1'' ''obx_1'' 0 empty_db))"
  have step: "pgEnqueueExecutionJob (=) (sample_input High) False ''job_1'' ''obx_1'' 0 empty_db = Inr ((sample_job High, True), s)"
    by (simp add: s_def pgEnqueueExecutionJob_def empty_db_def Let_def add_outbox_def the_right_def sample_job_def)
  have "serves (job_handler (=)) empty_db s"
    by (rule serves_step [OF serves_refl, where c = "JEnqueue (sample_input High) False ''job_1'' ''obx_1'' 0"])
      (simp add: step)
  moreover have "job_at s ''job_1'' = Some (sample_job High)"
    using enqueue_cases [OF step] by (simp add: job_at_def empty_db_def new_job_def)
  ultimately show ?thesis unfolding s_def [symmetric]
    using reachable_rows_well_formed [of "(=)" s "''job_1''" "sample_job High"] by (auto simp: highRisk_def)
qed

theorem stale_worker_is_fenced_witness:
  "pgCompleteExecutionJob ''job_1'' ''{}'' 5 (Some ''w2'') (sample_db [running_job Low]) = (None, sample_db [running_job Low])"
  using stale_worker_is_fenced [of "sample_db [running_job Low]" "''job_1''" "running_job Low" "''w1''" "''w2''"
      "sample_options\<lparr>fo_expected_worker := Some ''w2''\<rparr>"]
  by simp

theorem unnamed_completion_takes_over_witness:
  "job_at (snd (pgCompleteExecutionJob ''job_1'' ''{}'' 5 None (sample_db [running_job Low]))) ''job_1''
     = Some (complete_row ''{}'' 5 (running_job Low))"
  by (rule unnamed_completion_takes_over [THEN conjunct2]) simp_all

theorem retry_delay_bounds_witness:
  "retryDelayMs 2 \<le> retryDelayMs 5 \<and> retryDelayMs 5 = 1000 * 2 ^ nat 4"
  using retry_delay_bounds [of 2 5] retry_delay_bounds [of 5 5] by simp

definition second_job :: "risk_level \<Rightarrow> job" where
  "second_job r = (running_job r)\<lparr>j_id := ''job_2'', j_key := ''k2''\<rparr>"

lemma second_job_simps [simp]:
  "j_id (second_job r) = ''job_2''" "j_status (second_job r) = Running" "j_attempts (second_job r) = 1"
  "j_risk (second_job r) = r" "j_max_attempts (second_job r) = 3" "j_lease_until (second_job r) = Some 60000"
  "job_ok (second_job r)" "j_key (second_job r) = ''k2''" "j_key (running_job r) = ''k''" "job_ok (running_job r)"
  using running_ok [of r]
  by (simp_all add: second_job_def db_ok_def sample_db_def job_ok_def no_lease_def highRisk_def running_job_def claim_row_def)

theorem recovery_settles_expired_witness:
  "\<exists>s'. pgRecoverExpiredExecutionJobs [] (\<lambda>_. ''obx_1'') 70000 (sample_db [running_job High, second_job Low]) = Inr ((1, 1), s')
     \<and> map_option j_status (job_at s' ''job_1'') = Some Uncertain \<and> map_option j_status (job_at s' ''job_2'') = Some Retrying"
proof -
  let ?s = "sample_db [running_job High, second_job Low]"
  have ok: "db_ok ?s" by (simp add: db_ok_def sample_db_def)
  have jobs: "job_at ?s ''job_1'' = Some (running_job High)" "job_at ?s ''job_2'' = Some (second_job Low)"
    by (simp_all add: job_at_def sample_db_def)
  have ex: "expired 70000 (running_job High)" "expired 70000 (second_job Low)" by (simp_all add: expired_def)
  have "\<exists>q u s'. pgRecoverExpiredExecutionJobs [] (\<lambda>_. ''obx_1'') 70000 ?s = Inr ((q, u), s')"
    by (simp add: pgRecoverExpiredExecutionJobs_def ex still_running_def job_at_def highRisk_def upd_job_def
        insertDispatchOutbox_def add_outbox_def sample_db_def expire_row_def)
  then obtain q u s' where run: "pgRecoverExpiredExecutionJobs [] (\<lambda>_. ''obx_1'') 70000 ?s = Inr ((q, u), s')" by blast
  note settled = recovery_settles_expired [OF ok run]
  have "q = 1" "u = 1" using settled ex by (simp_all add: sample_db_def)
  moreover have "map_option j_status (job_at s' ''job_1'') = Some Uncertain"
    using settled [THEN conjunct1, rule_format, of "''job_1''" "running_job High"] jobs(1) ex(1) by auto
  moreover have "map_option j_status (job_at s' ''job_2'') = Some Retrying"
    using settled [THEN conjunct1, rule_format, of "''job_2''" "second_job Low"] jobs(2) ex(2) by auto
  ultimately show ?thesis using run by simp
qed

theorem next_claim_is_first_witness:
  "fst (pgClaimNextExecutionJob ''w1'' [] None [] 5 (sample_db [sample_job Low])) \<noteq> None"
  using next_claim_is_first [where w = "''w1''" and types = "[]" and lease = None and locked = "[]" and now = 5 and s = "sample_db [sample_job Low]"]
  by (simp add: eligible_def ready_def sample_db_def split: option.splits)
end
