(* ===== verification/Outbox_Properties.thy ===== *)
theory Outbox_Properties
  imports Job_Properties
begin

text \<open>
  The outbox of the job store: published rows are facts every command keeps, a publishing lease
  excludes other publishers until it lapses, and one round of the publisher settles what it claims.
\<close>

section \<open>Published rows are recorded facts\<close>

definition outbox_at :: "job_db \<Rightarrow> string \<Rightarrow> outbox option" where
  "outbox_at s i = find (\<lambda>r. ox_id r = i) (db_outbox s)"

definition published_row :: "job_db \<Rightarrow> string \<Rightarrow> outbox option" where
  "published_row s i =
    (case outbox_at s i of None \<Rightarrow> None | Some r \<Rightarrow> if ox_status r = Published then Some r else None)"

lemma find_map_same:
  assumes "find p xs = Some x" and "\<And>y. y \<in> set xs \<Longrightarrow> p (f y) = p y" and "f x = x"
  shows "find p (map f xs @ ys) = Some x"
  using assms by (induction xs) (auto split: if_splits)

text \<open>Every command keeps a published row: it either appends rows or rewrites rows that are not
  published.\<close>

definition keeps_published :: "job_db \<Rightarrow> job_db \<Rightarrow> bool" where
  "keeps_published s s' \<longleftrightarrow> (\<forall>i r. published_row s i = Some r \<longrightarrow> published_row s' i = Some r)"

lemma keeps_refl [simp]: "keeps_published s s"
  by (simp add: keeps_published_def)

lemma keeps_cong: "db_outbox s' = db_outbox s \<Longrightarrow> keeps_published s s'"
  by (simp add: keeps_published_def published_row_def outbox_at_def)

lemma keeps_trans: "keeps_published s t \<Longrightarrow> keeps_published t u \<Longrightarrow> keeps_published s u"
  by (simp add: keeps_published_def)

lemma published_row_Some: "published_row s i = Some r \<longleftrightarrow> outbox_at s i = Some r \<and> ox_status r = Published"
  by (auto simp: published_row_def split: option.splits)

lemma keeps_map:
  assumes "db_outbox s' = map f (db_outbox s) @ rs" and "\<And>r. ox_id (f r) = ox_id r"
    and "\<And>r. r \<in> set (db_outbox s) \<Longrightarrow> ox_status r = Published \<Longrightarrow> f r = r"
  shows "keeps_published s s'"
proof -
  have "outbox_at s' i = Some r" if "outbox_at s i = Some r" "ox_status r = Published" for i r
    using find_map_same [of "\<lambda>r. ox_id r = i" "db_outbox s" r f rs] that assms
    by (auto simp: outbox_at_def dest: find_SomeD)
  then show ?thesis by (simp add: keeps_published_def published_row_Some)
qed

lemma keeps_add: "add_outbox r s = Inr s' \<Longrightarrow> keeps_published s s'"
  by (auto simp: add_outbox_def split: if_splits intro: keeps_map [of _ id _ "[r]"])

lemma keeps_insert:
  "db_outbox s1 = db_outbox s \<Longrightarrow> insertDispatchOutbox obx i e k p t now s1 = Inr s' \<Longrightarrow> keeps_published s s'"
  unfolding insertDispatchOutbox_def by (blast intro: keeps_trans keeps_cong keeps_add)

lemma keeps_upd: "(\<And>r. p r \<Longrightarrow> ox_status r \<noteq> Published) \<Longrightarrow> (\<And>r. ox_id (f r) = ox_id r) \<Longrightarrow> keeps_published s (upd_outbox p f s)"
  by (rule keeps_map [of _ "\<lambda>r. if p r then f r else r" _ "[]"]) (auto simp: upd_outbox_def)

lemma keeps_recover: "recover_rows obx stamp rows counts s = Inr (r, s') \<Longrightarrow> keeps_published s s'"
proof (induction obx stamp rows counts s rule: recover_rows.induct)
  case (2 obx stamp row rows requeued uncertain s)
  show ?case
  proof (cases "still_running s (j_id row)")
    case None
    then show ?thesis using 2 by simp
  next
    case (Some j)
    show ?thesis
    proof (cases "\<not> highRisk row \<and> j_attempts row < j_max_attempts row")
      case True
      then obtain s1 where s1: "insertDispatchOutbox (obx (j_id row)) (j_id row) ''execution_job.lease_recovered''
          (dispatch_key (j_id row) ''lease-recovery'' (j_attempts j)) (LeaseRecovered (j_attempts j))
          stamp stamp (upd_job (j_id row) (requeue_row stamp) s) = Inr s1"
        "recover_rows obx stamp rows (requeued + 1, uncertain) s1 = Inr (r, s')"
        using 2(4) Some by (auto split: sum.splits)
      show ?thesis by (rule keeps_trans [OF keeps_insert [OF _ s1(1)] 2(2) [OF Some True s1]]) simp
    next
      case False
      then have "recover_rows obx stamp rows (requeued, uncertain + 1) (upd_job (j_id row) (expire_row stamp) s) = Inr (r, s')"
        using 2(4) Some by (simp only: recover_rows.simps option.case if_False)
      then show ?thesis by (rule keeps_trans [OF keeps_cong 2(3) [OF Some False], rotated]) simp
    qed
  qed
qed simp

lemma keeps_claim:
  assumes "outbox_fine s"
  shows "keeps_published s (snd (claimOutboxRows limit publisher lease locked now s))"
proof -
  let ?in = "\<lambda>r. ox_id r \<in> ox_id ` set (due_rows limit locked now s)"
  have "r \<in> set (db_outbox s) \<Longrightarrow> ox_status r = Published \<Longrightarrow> \<not> ?in r" for r
  proof
    assume r: "r \<in> set (db_outbox s)" "ox_status r = Published" "?in r"
    then have "due now r" using claimed_due [OF assms] due_rows_mem by blast
    then show False using r(2) by (simp add: due_def)
  qed
  then show ?thesis
    by (intro keeps_map [of _ "\<lambda>r. if ?in r then publish_claim publisher (now + lease) now r else r" _ "[]"])
      (auto simp: claimOutboxRows_def Let_def publish_claim_def)
qed

lemma db_ok_fine: "db_ok s \<Longrightarrow> outbox_fine s"
  by (simp add: db_ok_def outbox_fine_def)

lemma handler_keeps:
  assumes "db_ok s" and "job_handler jq s c = Inr (r, s')"
  shows "keeps_published s s'"
proof -
  have upd: "keeps_published s (upd_job i f s)" for i f by (rule keeps_cong) simp
  have ins: "insertDispatchOutbox obx i e k p t now (upd_job i f s) = Inr s'' \<Longrightarrow> keeps_published s s''" for obx i e k p t now f s''
    by (rule keeps_insert [of "upd_job i f s"]) simp_all
  have app: "add_outbox x (s\<lparr>db_jobs := js\<rparr>) = Inr s'' \<Longrightarrow> keeps_published s s''" for x js s''
    using keeps_trans [OF keeps_cong keeps_add, of "s\<lparr>db_jobs := js\<rparr>" s x s''] by simp
  show ?thesis
  proof (cases c)
    case JEnqueue
    then show ?thesis using assms(2)
      by (auto simp: pgEnqueueExecutionJob_def Let_def dest: app split: option.splits if_splits sum.splits)
  next
    case JFail
    then show ?thesis using assms(2) upd
      by (auto simp: pgFailExecutionJob_def Let_def dest: ins split: option.splits if_splits sum.splits)
  next
    case JRetry
    then show ?thesis using assms(2) upd
      by (auto simp: pgRetryFailedExecutionJob_def Let_def dest: ins split: option.splits if_splits sum.splits)
  next
    case (JRecover locked obx now)
    then show ?thesis using assms(2) keeps_recover
      by (cases "pgRecoverExpiredExecutionJobs locked obx now s") (auto simp: pgRecoverExpiredExecutionJobs_def)
  next
    case (OClaim limit publisher lease locked now)
    then show ?thesis using assms(2) keeps_claim [OF db_ok_fine [OF assms(1)], of limit publisher lease locked now]
      by (cases "claimOutboxRows limit publisher lease locked now s") simp
  next
    case OPublished
    then show ?thesis using assms(2)
      by (auto simp: mark_published_def holds_def publish_row_def intro!: keeps_upd)
  next
    case OFailed
    then show ?thesis using assms(2)
      by (auto simp: mark_delivery_failed_def retry_row_later_def holds_def intro!: keeps_upd)
  next
    case OPublishedForJob
    then show ?thesis using assms(2)
      by (auto simp: pgPublishExecutionOutboxForJob_def holds_def Let_def intro!: keeps_upd)
  qed (use assms(2) upd in \<open>auto simp: pgClaimExecutionJobById_def pgClaimNextExecutionJob_def
    pgRenewExecutionJobLease_def pgCompleteExecutionJob_def pgQuarantineExecutionJob_def cancel_update_def Let_def
    split: option.splits if_splits list.splits\<close>)
qed

interpretation jp: ledger_machine "job_handler jq" db_ok published_row for jq
  by unfold_locales (use handler_keeps in \<open>unfold keeps_published_def, blast\<close>)

text \<open>
  A published outbox row stays as it is: once the delivery of a message is recorded, no command
  of any publisher or worker changes the row or offers it for delivery again.
\<close>

theorem published_rows_final:
  assumes "db_ok s" and "outbox_at s i = Some r" and "ox_status r = Published"
    and "serves (job_handler jq) s s'"
  shows "outbox_at s' i = Some r \<and> (\<forall>limit locked now. r \<notin> set (due_rows limit locked now s'))"
proof -
  have "published_row s' i = Some r"
    using jp.serves_fact [OF assms(4,1), of i r] assms(2,3) by (simp add: published_row_Some)
  moreover have "\<not> due now r" for now using assms(3) by (simp add: due_def)
  ultimately show ?thesis by (auto simp: published_row_Some dest: due_rows_mem)
qed

lemma outbox_at_iff: "outbox_fine s \<Longrightarrow> outbox_at s i = Some r \<longleftrightarrow> r \<in> set (db_outbox s) \<and> ox_id r = i"
proof -
  assume "outbox_fine s"
  then have "inj_on ox_id (set (db_outbox s))" by (simp add: outbox_fine_def distinct_map)
  moreover have "outbox_at s i = Some x \<Longrightarrow> x \<in> set (db_outbox s) \<and> ox_id x = i" for x
    by (auto simp: outbox_at_def dest: find_SomeD)
  moreover have "outbox_at s i \<noteq> None" if "r \<in> set (db_outbox s)" "ox_id r = i"
    using that by (auto simp: outbox_at_def find_None_iff)
  ultimately show ?thesis by (metis inj_onD not_Some_eq)
qed

lemma outbox_at_map:
  "(\<And>r. ox_id (f r) = ox_id r) \<Longrightarrow> db_outbox s' = map f (db_outbox s) \<Longrightarrow> outbox_at s' i = map_option f (outbox_at s i)"
proof -
  assume f: "\<And>r. ox_id (f r) = ox_id r" and s': "db_outbox s' = map f (db_outbox s)"
  have "find (\<lambda>r. ox_id r = i) (map f rs) = map_option f (find (\<lambda>r. ox_id r = i) rs)" for rs
    by (induction rs) (auto simp: f)
  then show ?thesis by (simp add: outbox_at_def s')
qed

lemma claim_outbox_at:
  assumes "outbox_fine s" and "claimOutboxRows limit publisher lease locked now s = (rows, s')"
  shows "outbox_fine s' \<and> distinct (map ox_id rows)
    \<and> (\<forall>r \<in> set rows. outbox_at s' (ox_id r) = Some r \<and> holds publisher r \<and> ox_lease_until r = Some (now + lease))
    \<and> (\<forall>i. i \<notin> ox_id ` set rows \<longrightarrow> outbox_at s' i = outbox_at s i)"
proof -
  let ?due = "due_rows limit locked now s" and ?f = "publish_claim publisher (now + lease) now"
  let ?g = "\<lambda>r. if ox_id r \<in> set (map ox_id ?due) then ?f r else r"
  have rows: "rows = map ?f ?due" and s': "s' = s\<lparr>db_outbox := map ?g (db_outbox s)\<rparr>"
    using assms(2) by (simp_all add: claimOutboxRows_def Let_def)
  have at: "outbox_at s' i = map_option ?g (outbox_at s i)" for i
    by (rule outbox_at_map) (simp_all add: s' publish_claim_def)
  have ids: "map ox_id rows = map ox_id ?due" by (simp add: rows publish_claim_def)
  have "distinct (map ox_id (sort_key due_order (filter (\<lambda>r. due now r \<and> ox_id r \<notin> set locked) (db_outbox s))))"
    using assms(1) by (auto simp: outbox_fine_def distinct_map intro: inj_on_subset)
  then have "distinct (map ox_id rows)" unfolding ids due_rows_def take_map [symmetric] by (rule distinct_take)
  moreover have "outbox_at s' (ox_id r) = Some r \<and> holds publisher r \<and> ox_lease_until r = Some (now + lease)"
    if r: "r \<in> set rows" for r
  proof -
    obtain x where x: "x \<in> set ?due" "r = ?f x" using r by (auto simp: rows)
    then have "outbox_at s (ox_id x) = Some x" using due_rows_mem [OF x(1)] outbox_at_iff [OF assms(1)] by blast
    then show ?thesis using x by (simp add: at publish_claim_def holds_def)
  qed
  moreover have "outbox_at s' i = outbox_at s i" if "i \<notin> ox_id ` set rows" for i
  proof (cases "outbox_at s i")
    case (Some r)
    then have "ox_id r \<notin> set (map ox_id ?due)"
      using that ids outbox_at_iff [OF assms(1)] by (metis list.set_map)
    then show ?thesis by (simp add: at Some)
  qed (simp add: at)
  moreover have "outbox_fine s'" using claim_outbox_fine [OF assms(1), of limit publisher lease locked now] assms(2) by simp
  ultimately show ?thesis by blast
qed

text \<open>
  A publishing lease excludes other publishers until it lapses: a row one publisher claimed can
  be claimed by the next one only at or after the end of the lease, and then it can.
\<close>

theorem publishing_lease_excludes:
  assumes "db_ok s" and "claimOutboxRows limit publisher lease locked now s = (rows, s1)" and "r \<in> set rows"
  shows "(r \<in> set (due_rows limit' locked' now' s1) \<longrightarrow> now + lease \<le> now')
    \<and> (now + lease \<le> now' \<and> ox_id r \<notin> set locked' \<longrightarrow> (\<exists>enough. r \<in> set (due_rows enough locked' now' s1)))"
proof -
  from claim_outbox_at [OF db_ok_fine [OF assms(1)] assms(2)] assms(3)
  have r: "outbox_at s1 (ox_id r) = Some r" "holds publisher r" "ox_lease_until r = Some (now + lease)" by auto
  then have "r \<in> set (db_outbox s1)" by (auto simp: outbox_at_def dest: find_SomeD)
  moreover have "due now' r \<longleftrightarrow> now + lease \<le> now'" using r(2,3) by (auto simp: due_def holds_def)
  moreover have "length (filter (\<lambda>r. due now' r \<and> ox_id r \<notin> set locked') (db_outbox s1)) \<le> length (db_outbox s1)"
    by (rule length_filter_le)
  ultimately have "now + lease \<le> now' \<and> ox_id r \<notin> set locked' \<longrightarrow> r \<in> set (due_rows (length (db_outbox s1)) locked' now' s1)"
    and "r \<in> set (due_rows limit' locked' now' s1) \<longrightarrow> now + lease \<le> now'"
    by (simp_all add: due_rows_def) (auto dest: in_set_takeD)
  then show ?thesis by blast
qed

lemma drain_all:
  assumes "outbox_fine s" and "distinct (map ox_id rows)"
    and "\<forall>r \<in> set rows. outbox_at s (ox_id r) = Some r \<and> holds publisher r"
  shows "(\<forall>r \<in> set rows. \<exists>r'. outbox_at (drain_rows publisher deliver clock rows s) (ox_id r) = Some r'
      \<and> (if deliver r = None then ox_status r' = Published \<and> ox_published_at r' = Some (clock r)
         else ox_status r' = OutboxRetrying \<and> clock r < ox_available_at r' \<and> ox_available_at r' \<le> clock r + 60000))
    \<and> (\<forall>i. i \<notin> ox_id ` set rows \<longrightarrow> outbox_at (drain_rows publisher deliver clock rows s) i = outbox_at s i)"
  using assms
proof (induction rows arbitrary: s)
  case (Cons r rows)
  let ?p = "\<lambda>x. ox_id x = ox_id r \<and> holds publisher x"
  let ?f = "case deliver r of None \<Rightarrow> publish_row (clock r)
     | Some m \<Rightarrow> retry_row_later (ox_attempts r) m (clock r)"
  define s1 where "s1 = upd_outbox ?p ?f s"
  have step: "drain_rows publisher deliver clock (r # rows) s = drain_rows publisher deliver clock rows s1"
    by (simp add: s1_def mark_published_def mark_delivery_failed_def split: option.split)
  have id_f: "ox_id (?f x) = ox_id x" "ox_key (?f x) = ox_key x" for x by (simp_all add: publish_row_def retry_row_later_def split: option.split)
  have at: "outbox_at s1 i = map_option (\<lambda>x. if ?p x then ?f x else x) (outbox_at s i)" for i
    by (rule outbox_at_map) (simp_all add: id_f s1_def upd_outbox_def)
  have other: "outbox_at s1 i = outbox_at s i" if "i \<noteq> ox_id r" for i
  proof (cases "outbox_at s i")
    case (Some a)
    then have "ox_id a = i" using outbox_at_iff [OF Cons.prems(1)] by blast
    then show ?thesis using that Some by (simp add: at)
  qed (simp add: at)
  have r: "outbox_at s (ox_id r) = Some r" "holds publisher r" using Cons.prems(3) by auto
  then have own: "outbox_at s1 (ox_id r) = Some (?f r)" by (simp add: at)
  have fine: "outbox_fine s1" unfolding s1_def upd_outbox_def
    by (rule map_outbox_fine [OF Cons.prems(1)])
      (auto simp: id_f publish_row_def retry_row_later_def outbox_ok_def holds_def split: option.split)
  have fresh: "ox_id r \<notin> ox_id ` set rows" "distinct (map ox_id rows)" using Cons.prems(2) by simp_all
  have "\<forall>x \<in> set rows. outbox_at s1 (ox_id x) = Some x \<and> holds publisher x"
    using Cons.prems(3) other fresh(1) by (metis imageI list.set_intros(2))
  note ih = Cons.IH [OF fine fresh(2) this]
  have "outbox_at (drain_rows publisher deliver clock rows s1) (ox_id r) = Some (?f r)"
    using ih fresh(1) own by simp
  moreover have "if deliver r = None then ox_status (?f r) = Published \<and> ox_published_at (?f r) = Some (clock r)
      else ox_status (?f r) = OutboxRetrying \<and> clock r < ox_available_at (?f r) \<and> ox_available_at (?f r) \<le> clock r + 60000"
    by (auto simp: publish_row_def retry_row_later_def split: option.split)
  ultimately show ?case unfolding step using ih other by auto
qed simp

text \<open>
  One round of the publisher settles every row it claims: a row the broker accepted is published
  at the time of the hand-over, a row it refused waits for a retry at most a minute later, and no
  row stays claimed.
\<close>

theorem drain_settles_claimed_rows:
  assumes "db_ok s" and "claimOutboxRows (nat (max 1 (min 500 limit))) publisher leaseMs locked now s = (rows, s1)"
    and "r \<in> set rows"
  shows "fst (drainOnce publisher leaseMs limit locked deliver clock now s) = length rows
    \<and> (\<exists>r'. outbox_at (snd (drainOnce publisher leaseMs limit locked deliver clock now s)) (ox_id r) = Some r'
      \<and> (if deliver r = None then ox_status r' = Published \<and> ox_published_at r' = Some (clock r)
         else ox_status r' = OutboxRetrying \<and> clock r < ox_available_at r' \<and> ox_available_at r' \<le> clock r + 60000))"
proof -
  from claim_outbox_at [OF db_ok_fine [OF assms(1)] assms(2)]
  have "outbox_fine s1" "distinct (map ox_id rows)"
    "\<forall>r \<in> set rows. outbox_at s1 (ox_id r) = Some r \<and> holds publisher r" by auto
  from drain_all [OF this, of deliver clock] assms(3) show ?thesis
    by (simp add: drainOnce_def assms(2))
qed

section \<open>Witnesses\<close>

definition sample_row :: outbox where
  "sample_row = new_outbox ''obx_1'' ''job_1'' ''e'' ''a'' ''b'' (RawJson ''{}'') ''k'' 0 0"

definition outbox_db :: "outbox list \<Rightarrow> job_db" where
  "outbox_db rs = \<lparr>db_jobs = [], db_outbox = rs\<rparr>"

lemma sample_row_simps [simp]:
  "ox_id sample_row = ''obx_1''" "ox_status sample_row = Pending" "ox_available_at sample_row = 0" "outbox_ok sample_row"
  by (simp_all add: sample_row_def) (simp_all add: new_outbox_def)

lemma outbox_db_ok: "outbox_ok r \<Longrightarrow> db_ok (outbox_db [r])"
  by (simp add: db_ok_def outbox_db_def)

lemma sample_outbox_claim: "claimOutboxRows 50 ''p1'' 60000 [] 0 (outbox_db [sample_row])
    = ([publish_claim ''p1'' 60000 0 sample_row], outbox_db [publish_claim ''p1'' 60000 0 sample_row])"
  by (simp add: claimOutboxRows_def due_rows_def due_def outbox_db_def Let_def)

theorem published_rows_final_witness:
  "outbox_at (mark_published ''obx_1'' ''p2'' 9 (outbox_db [publish_row 5 sample_row])) ''obx_1'' = Some (publish_row 5 sample_row)"
proof -
  have "serves (job_handler (=)) (outbox_db [publish_row 5 sample_row])
      (mark_published ''obx_1'' ''p2'' 9 (outbox_db [publish_row 5 sample_row]))"
    by (rule serves_step [OF serves_refl, where c = "OPublished ''obx_1'' ''p2'' 9" and r = ANone]) simp
  moreover have "db_ok (outbox_db [publish_row 5 sample_row])"
    by (rule outbox_db_ok) (simp add: outbox_ok_def publish_row_def)
  moreover have "outbox_at (outbox_db [publish_row 5 sample_row]) ''obx_1'' = Some (publish_row 5 sample_row)"
    "ox_status (publish_row 5 sample_row) = Published"
    by (simp_all add: outbox_at_def outbox_db_def publish_row_def)
  ultimately show ?thesis using published_rows_final by blast
qed

theorem publishing_lease_excludes_witness:
  "publish_claim ''p1'' 60000 0 sample_row
     \<notin> set (due_rows 50 [] 59999 (outbox_db [publish_claim ''p1'' 60000 0 sample_row]))"
  using publishing_lease_excludes [OF outbox_db_ok [OF sample_row_simps(4)] sample_outbox_claim, of _ 50 "[]" 59999] by auto

theorem drain_settles_claimed_rows_witness:
  "\<exists>r'. outbox_at (snd (drainOnce ''p1'' 60000 50 [] (\<lambda>_. None) (\<lambda>_. 7) 0 (outbox_db [sample_row]))) ''obx_1'' = Some r'
     \<and> ox_status r' = Published"
  using drain_settles_claimed_rows [OF outbox_db_ok [OF sample_row_simps(4)], of 50 "''p1''" 60000 "[]" 0
      "[publish_claim ''p1'' 60000 0 sample_row]" "outbox_db [publish_claim ''p1'' 60000 0 sample_row]"
      "publish_claim ''p1'' 60000 0 sample_row" "\<lambda>_. None" "\<lambda>_. 7"]
  by (auto simp: sample_outbox_claim publish_claim_def)

end
