(* ===== verification/Civil_Time.thy ===== *)
theory Civil_Time
  imports Prelude
begin

text \<open>
  The calendar of the JavaScript \<open>Date\<close> object: days since 1970-01-01 to and from year, month and
  day in the proleptic Gregorian calendar, the fields of an instant in a zone, and \<open>Date.UTC\<close>.  A
  zone is the function that gives its offset in milliseconds at an instant (the time zone data base
  is not part of the program).
\<close>

section \<open>Years and months\<close>

definition leap_year :: "int \<Rightarrow> bool" where
  "leap_year y \<longleftrightarrow> y mod 4 = 0 \<and> (y mod 100 \<noteq> 0 \<or> y mod 400 = 0)"

definition days_in_month :: "int \<Rightarrow> int \<Rightarrow> int" where
  "days_in_month y m = (if m = 2 then (if leap_year y then 29 else 28) else if m \<in> {4, 6, 9, 11} then 30 else 31)"

definition year_length :: "int \<Rightarrow> int" where
  "year_length y = (if leap_year y then 366 else 365)"

text \<open>\<open>DayFromYear\<close> of the language specification.\<close>

definition day_from_year :: "int \<Rightarrow> int" where
  "day_from_year y = 365 * (y - 1970) + (y - 1969) div 4 - (y - 1901) div 100 + (y - 1601) div 400"

definition day_from_month :: "int \<Rightarrow> int \<Rightarrow> int" where
  "day_from_month y m = sum_list (map (days_in_month y) [1..m - 1])"

definition days_of_civil :: "int \<Rightarrow> int \<Rightarrow> int \<Rightarrow> int" where
  "days_of_civil y m d = day_from_year y + day_from_month y m + (d - 1)"

lemma year_length_pos [simp]: "0 < year_length y"
  by (simp add: year_length_def)

function year_of :: "int \<Rightarrow> int \<Rightarrow> int \<times> int" where
  "year_of y d = (if d < year_length y then (y, d) else year_of (y + 1) (d - year_length y))"
  by pat_completeness auto

termination
proof (relation "measure (\<lambda>(y, d). nat d)")
  fix y d :: int
  assume "\<not> d < year_length y"
  with year_length_pos [of y] have "0 < d" "0 < year_length y" by linarith+
  then show "((y + 1, d - year_length y), y, d) \<in> measure (\<lambda>(y, d). nat d)" by auto
qed simp

declare year_of.simps [simp del]

fun month_of :: "int \<Rightarrow> int \<Rightarrow> nat \<Rightarrow> int \<Rightarrow> int \<times> int" where
  \<comment> \<open>at most \<open>n\<close> months from month \<open>m\<close> on\<close>
  "month_of y m 0 d = (m, d)"
| "month_of y m (Suc n) d = (if d < days_in_month y m then (m, d) else month_of y (m + 1) n (d - days_in_month y m))"

definition civil_of_days :: "int \<Rightarrow> int \<times> int \<times> int" where
  "civil_of_days n =
    (let (y, doy) = year_of 1970 (n mod 146097); (m, d) = month_of y 1 11 doy
     in (y + 400 * (n div 146097), m, d + 1))"

lemma div_step: "0 < k \<Longrightarrow> (x + 1) div k = x div k + (if k dvd x + 1 then 1 else 0)" for x k :: int
proof -
  assume k: "0 < k"
  define q r where "q = x div k" and "r = x mod k"
  have x: "x = k * q + r" "0 \<le> r" "r < k" using k by (simp_all add: q_def r_def)
  show ?thesis
  proof (cases "r = k - 1")
    case True
    then have "x + 1 = k * (q + 1)" using x(1) by (simp add: algebra_simps)
    then have "(x + 1) div k = q + 1" "k dvd x + 1" using k by simp_all
    then show ?thesis by (simp add: q_def)
  next
    case False
    then have e: "x + 1 = k * q + (r + 1)" "0 \<le> r + 1" "r + 1 < k" using x by simp_all
    have "(x + 1) div k = q" "(x + 1) mod k = r + 1"
      using int_div_pos_eq [OF e] int_mod_pos_eq [OF e] .
    then show ?thesis using x(2) by (simp add: q_def dvd_eq_mod_eq_0)
  qed
qed

lemma dvd_shift: "k dvd c \<Longrightarrow> k dvd y - c \<longleftrightarrow> k dvd y" for k :: int
  using dvd_add_left_iff [of k c "y - c"] by simp

lemma day_from_year_Suc: "day_from_year (y + 1) = day_from_year y + year_length y"
proof -
  have d: "(y - 1968) div 4 = (y - 1969) div 4 + (if 4 dvd y then 1 else 0)"
    "(y - 1900) div 100 = (y - 1901) div 100 + (if 100 dvd y then 1 else 0)"
    "(y - 1600) div 400 = (y - 1601) div 400 + (if 400 dvd y then 1 else 0)"
    using div_step [of 4 "y - 1969"] div_step [of 100 "y - 1901"] div_step [of 400 "y - 1601"]
    by (simp_all add: dvd_shift)
  have "100 dvd y \<Longrightarrow> 4 dvd y" "400 dvd y \<Longrightarrow> 100 dvd y"
    by (rule dvd_trans [of 4 100], simp_all) (rule dvd_trans [of 100 400], simp_all)
  moreover have "leap_year y \<longleftrightarrow> 4 dvd y \<and> (\<not> 100 dvd y \<or> 400 dvd y)"
    by (simp add: leap_year_def dvd_eq_mod_eq_0)
  moreover have "y + 1 - 1969 = y - 1968" "y + 1 - 1901 = y - 1900" "y + 1 - 1601 = y - 1600" "y + 1 - 1970 = y - 1970 + 1"
    by simp_all
  ultimately show ?thesis
    unfolding day_from_year_def year_length_def d by (simp only: d split: if_splits) auto
qed

lemma era_shift:
  "y + 400 * k - c = (y - c) + (100 * k) * 4" "y + 400 * k - c = (y - c) + (4 * k) * 100"
  "y + 400 * k - c = (y - c) + k * 400" for y k c :: int
  by simp_all

lemma day_from_year_era: "day_from_year (y + 400 * k) = day_from_year y + 146097 * k"
proof -
  have "(y + 400 * k - 1969) div 4 = 100 * k + (y - 1969) div 4"
    unfolding era_shift(1) by (rule div_mult_self1) simp
  moreover have "(y + 400 * k - 1901) div 100 = 4 * k + (y - 1901) div 100"
    unfolding era_shift(2) by (rule div_mult_self1) simp
  moreover have "(y + 400 * k - 1601) div 400 = k + (y - 1601) div 400"
    unfolding era_shift(3) by (rule div_mult_self1) simp
  ultimately show ?thesis by (simp add: day_from_year_def algebra_simps)
qed

lemma leap_year_era [simp]: "leap_year (y + 400 * k) = leap_year y"
proof -
  have "(y + 400 * k) mod 4 = y mod 4" "(y + 400 * k) mod 100 = y mod 100" "(y + 400 * k) mod 400 = y mod 400"
    using mod_mult_self1 [of y "100 * k" 4] mod_mult_self1 [of y "4 * k" 100] mod_mult_self1 [of y k 400]
    by (simp_all add: mult.commute)
  then show ?thesis by (simp add: leap_year_def)
qed

lemma year_of_correct:
  "0 \<le> d \<Longrightarrow> year_of y d = (y', r) \<Longrightarrow> day_from_year y + d = day_from_year y' + r \<and> 0 \<le> r \<and> r < year_length y'"
proof (induction y d rule: year_of.induct)
  case (1 y d)
  then show ?case
    by (cases "d < year_length y") (simp_all add: year_of.simps [of y d] day_from_year_Suc)
qed

lemma day_from_month_Suc: "1 \<le> m \<Longrightarrow> day_from_month y (m + 1) = day_from_month y m + days_in_month y m"
  using upto_rec2 [of 1 m] by (simp add: day_from_month_def)

lemma month_of_correct:
  "1 \<le> m \<Longrightarrow> month_of y m n d = (m', r) \<Longrightarrow>
    day_from_month y m + d = day_from_month y m' + r \<and> m \<le> m' \<and> m' \<le> m + int n \<and> (0 \<le> d \<longrightarrow> 0 \<le> r)
      \<and> (r < days_in_month y m' \<or> m' = m + int n)"
proof (induction n arbitrary: m d)
  case (Suc n)
  show ?case
  proof (cases "d < days_in_month y m")
    case False
    with Suc.IH [of "m + 1" "d - days_in_month y m"] Suc.prems show ?thesis
      by (auto simp: day_from_month_Suc)
  qed (use Suc.prems in auto)
qed simp

lemma days_in_month_era [simp]: "days_in_month (y + 400 * k) m = days_in_month y m"
  by (simp add: days_in_month_def)

theorem civil_round_trip:
  assumes "civil_of_days n = (y, m, d)"
  shows "days_of_civil y m d = n \<and> 1 \<le> m \<and> m \<le> 12 \<and> 1 \<le> d"
proof -
  obtain y0 doy where yo: "year_of 1970 (n mod 146097) = (y0, doy)" by fastforce
  obtain m0 r where mo: "month_of y0 1 11 doy = (m0, r)" by fastforce
  have eq: "y = y0 + 400 * (n div 146097)" "m = m0" "d = r + 1"
    using assms by (simp_all add: civil_of_days_def yo mo)
  have year: "day_from_year 1970 + n mod 146097 = day_from_year y0 + doy" "0 \<le> doy"
    using year_of_correct [OF _ yo] by simp_all
  have month: "doy = day_from_month y0 m0 + r" "1 \<le> m0" "m0 \<le> 12" "0 \<le> r"
    using month_of_correct [OF _ mo] year(2) by (simp_all add: day_from_month_def)
  have "days_in_month y = days_in_month y0" by (rule ext) (simp add: eq)
  then have "day_from_month y m0 = day_from_month y0 m0" by (simp add: day_from_month_def)
  then have "days_of_civil y m d = 146097 * (n div 146097) + (day_from_year y0 + doy)"
    using month(1) by (simp add: days_of_civil_def eq day_from_year_era)
  also have "\<dots> = n" using year(1) mult_div_mod_eq [of 146097 n] by (simp add: day_from_year_def)
  finally show ?thesis using month by (simp add: eq)
qed

lemma day_from_december: "day_from_month y 12 = year_length y - 31"
proof -
  have "[1..11::int] = [1, 2, 3, 4, 5, 6, 7, 8, 9, 10, 11]" by (simp add: upto_rec1)
  then show ?thesis by (simp add: day_from_month_def days_in_month_def year_length_def)
qed

lemma civil_day_exists:
  assumes "civil_of_days n = (y, m, d)"
  shows "d \<le> days_in_month y m"
proof -
  obtain y0 doy where yo: "year_of 1970 (n mod 146097) = (y0, doy)" by fastforce
  obtain m0 r where mo: "month_of y0 1 11 doy = (m0, r)" by fastforce
  have eq: "y = y0 + 400 * (n div 146097)" "m = m0" "d = r + 1"
    using assms by (simp_all add: civil_of_days_def yo mo)
  have "doy < year_length y0" using year_of_correct [OF _ yo] by simp
  moreover have "doy = day_from_month y0 m0 + r" "r < days_in_month y0 m0 \<or> m0 = 12"
    using month_of_correct [OF _ mo] by (auto simp: day_from_month_def)
  ultimately have "r < days_in_month y0 m0" by (auto simp: day_from_december days_in_month_def)
  then show ?thesis by (simp add: eq)
qed

lemma day_from_year_mono: "x < y \<Longrightarrow> day_from_year x < day_from_year y"
proof (induction y rule: int_gr_induct [of x])
  case base
  then show ?case by (simp add: day_from_year_Suc)
next
  case (step i)
  then show ?case using year_length_pos [of i] by (simp only: day_from_year_Suc)
qed

lemma no_leap_twice: "leap_year y \<Longrightarrow> \<not> leap_year (y + 1)"
proof
  assume "leap_year y" "leap_year (y + 1)"
  then have "4 dvd y" "4 dvd y + 1" by (simp_all add: leap_year_def dvd_eq_mod_eq_0)
  then have "4 dvd y + 1 - y" by (rule dvd_diff [rotated])
  then show False by simp
qed

lemma feb_29: "days_of_civil y 2 29 = day_from_year y + 59"
  by (simp add: days_of_civil_def day_from_month_def days_in_month_def)

section \<open>Instants in a zone\<close>

type_synonym zone = "int \<Rightarrow> int"

record zoned =
  z_year :: int
  z_month :: int
  z_day :: int
  z_hour :: int
  z_minute :: int
  z_weekday :: int

abbreviation minute_ms :: int where "minute_ms \<equiv> 60000"
abbreviation day_ms :: int where "day_ms \<equiv> 86400000"

definition in_zone :: "zone \<Rightarrow> int \<Rightarrow> zoned" where
  "in_zone tz t =
    (let l = t + tz t; days = l div day_ms; ms = l mod day_ms; (y, m, d) = civil_of_days days
     in \<lparr>z_year = y, z_month = m, z_day = d, z_hour = ms div 3600000, z_minute = ms mod 3600000 div minute_ms,
         z_weekday = (days + 4) mod 7\<rparr>)"

definition date_utc :: "int \<Rightarrow> int \<Rightarrow> int \<Rightarrow> int \<Rightarrow> int \<Rightarrow> int" where
  "date_utc y m d h mi = days_of_civil y m d * day_ms + h * 3600000 + mi * minute_ms"

lemma compose_units:
  "l = 86400000 * x + a \<Longrightarrow> a = 3600000 * y + b \<Longrightarrow> b = 60000 * z + c \<Longrightarrow> l = 60000 * (1440 * x + 60 * y + z) + c"
  for l x a y b z c :: int
  by simp

lemma scale_units: "x * 86400000 + y * 3600000 + z * 60000 = (1440 * x + 60 * y + z) * 60000" for x y z :: int
  by simp

lemma split_millis:
  "l div day_ms * day_ms + l mod day_ms div 3600000 * 3600000 + l mod day_ms mod 3600000 div minute_ms * minute_ms
    = l div minute_ms * minute_ms"
proof -
  define a b c where "a = l mod day_ms" and "b = a mod 3600000" and "c = b mod minute_ms"
  have l: "l = day_ms * (l div day_ms) + a" and a: "a = 3600000 * (a div 3600000) + b"
    and b: "b = minute_ms * (b div minute_ms) + c" and c: "0 \<le> c" "c < minute_ms"
    unfolding a_def b_def c_def by (rule mult_div_mod_eq [symmetric], rule mult_div_mod_eq [symmetric],
      rule mult_div_mod_eq [symmetric], simp, simp)
  have "l = minute_ms * (1440 * (l div day_ms) + 60 * (a div 3600000) + b div minute_ms) + c"
    by (rule compose_units [OF l a b])
  from int_div_pos_eq [OF this c]
  have e: "l div minute_ms = 1440 * (l div day_ms) + 60 * (a div 3600000) + b div minute_ms" .
  show ?thesis unfolding a_def [symmetric] b_def [symmetric] e by (rule scale_units)
qed

lemma date_utc_in_zone:
  "date_utc (z_year (in_zone tz t)) (z_month (in_zone tz t)) (z_day (in_zone tz t)) (z_hour (in_zone tz t))
     (z_minute (in_zone tz t)) = (t + tz t) div minute_ms * minute_ms"
proof -
  define l where "l = t + tz t"
  obtain y m d where c: "civil_of_days (l div day_ms) = (y, m, d)" by (cases "civil_of_days (l div day_ms)")
  have "date_utc y m d (l mod day_ms div 3600000) (l mod day_ms mod 3600000 div minute_ms)
      = l div day_ms * day_ms + l mod day_ms div 3600000 * 3600000 + l mod day_ms mod 3600000 div minute_ms * minute_ms"
    using civil_round_trip [OF c] by (simp add: date_utc_def)
  also have "\<dots> = l div minute_ms * minute_ms" by (rule split_millis)
  finally have utc: "date_utc y m d (l mod day_ms div 3600000) (l mod day_ms mod 3600000 div minute_ms)
      = l div minute_ms * minute_ms" .
  have z: "in_zone tz t = \<lparr>z_year = y, z_month = m, z_day = d, z_hour = l mod day_ms div 3600000,
      z_minute = l mod day_ms mod 3600000 div minute_ms, z_weekday = (l div day_ms + 4) mod 7\<rparr>"
    unfolding in_zone_def Let_def l_def [symmetric] c prod.case by (rule refl)
  show ?thesis unfolding z zoned.simps utc unfolding l_def by (rule refl)
qed

end
