(* ===== verification/Cron_Schedule.thy ===== *)
theory Cron_Schedule
  imports Civil_Time
begin

text \<open>
  \<open>backend/src/cron/schedule.ts\<close>: five-field cron expressions, the next run of an expression in a zone,
  and the schedule window of a job.  Zones are an argument, \<open>None\<close> for a name the platform rejects.
  Decimal texts are read as the rational they denote.
\<close>

section \<open>Numbers and separators in text\<close>

definition is_digit_of :: "nat \<Rightarrow> char \<Rightarrow> bool" where
  \<comment> \<open>a digit of the radix, for radices up to sixteen\<close>
  "is_digit_of radix c \<longleftrightarrow>
    (let n = of_char c :: nat in (48 \<le> n \<and> n < 58 \<and> n - 48 < radix) \<or> (radix = 16 \<and> ((65 \<le> n \<and> n \<le> 70) \<or> (97 \<le> n \<and> n \<le> 102))))"

definition digit_in :: "char \<Rightarrow> nat" where
  "digit_in c = (let n = of_char c :: nat in if n < 58 then n - 48 else if n < 97 then n - 55 else n - 87)"

definition radix_value :: "nat \<Rightarrow> string \<Rightarrow> nat" where
  "radix_value radix s = foldl (\<lambda>v c. v * radix + digit_in c) 0 s"

definition signed :: "string \<Rightarrow> bool \<times> string" where
  "signed s = (case s of c # r \<Rightarrow> if c = CHR ''-'' then (True, r) else if c = CHR ''+'' then (False, r) else (False, s) | [] \<Rightarrow> (False, s))"

definition exponent_of :: "string \<Rightarrow> int option" where
  "exponent_of s =
    (case s of
       [] \<Rightarrow> Some 0
     | c # r \<Rightarrow>
        (let (neg, ds) = signed r in
         if c \<in> {CHR ''e'', CHR ''E''} \<and> ds \<noteq> [] \<and> list_all (is_digit_of 10) ds
         then Some (if neg then - int (radix_value 10 ds) else int (radix_value 10 ds)) else None))"

definition scaled :: "nat \<Rightarrow> int \<Rightarrow> rat" where
  "scaled v k = (if 0 \<le> k then of_nat v * 10 ^ nat k else of_nat v / 10 ^ nat (- k))"

definition decimal_of :: "string \<Rightarrow> rat option" where
  "decimal_of s =
    (let ip = takeWhile (is_digit_of 10) s; r = dropWhile (is_digit_of 10) s;
         tail = (case r of c # r' \<Rightarrow> if c = CHR ''.'' then r' else [] | [] \<Rightarrow> []);
         point = (r \<noteq> [] \<and> hd r = CHR ''.'');
         fp = takeWhile (is_digit_of 10) tail;
         rest = (if point then dropWhile (is_digit_of 10) tail else r)
     in if ip = [] \<and> fp = [] then None
        else map_option (\<lambda>e. scaled (radix_value 10 (ip @ fp)) (e - int (length fp))) (exponent_of rest))"

definition number_of_text :: "string \<Rightarrow> rat option" where
  \<comment> \<open>\<open>Number(text)\<close>, \<open>None\<close> for \<open>NaN\<close> and the infinities\<close>
  "number_of_text text0 =
    (let s = js_trim text0; radix_part = (\<lambda>radix. let ds = drop 2 s in
        if ds \<noteq> [] \<and> list_all (is_digit_of radix) ds then Some (of_nat (radix_value radix ds)) else None)
     in if s = [] then Some 0
        else if take 2 s \<in> {''0x'', ''0X''} then radix_part 16
        else if take 2 s \<in> {''0o'', ''0O''} then radix_part 8
        else if take 2 s \<in> {''0b'', ''0B''} then radix_part 2
        else (let (neg, r) = signed s in map_option (\<lambda>v. if neg then - v else v) (decimal_of r)))"

definition integer_of :: "rat option \<Rightarrow> int option" where
  "integer_of v = (case v of None \<Rightarrow> None | Some r \<Rightarrow> if is_integer r then Some \<lfloor>r\<rfloor> else None)"

fun split_by :: "('a \<Rightarrow> bool) \<Rightarrow> 'a list \<Rightarrow> 'a list list" where
  "split_by P [] = [[]]"
| "split_by P (x # xs) =
    (if P x then [] # split_by P xs else (case split_by P xs of [] \<Rightarrow> [[x]] | y # ys \<Rightarrow> (x # y) # ys))"

abbreviation split_on :: "char \<Rightarrow> string \<Rightarrow> string list" where
  "split_on c \<equiv> split_by (\<lambda>x. x = c)"

definition split_words :: "string \<Rightarrow> string list" where
  \<comment> \<open>\<open>split(/\s+/)\<close> of a trimmed text\<close>
  "split_words s = (if s = [] then [[]] else filter (\<lambda>w. w \<noteq> []) (split_by (\<lambda>c. js_space (of_char c)) s))"

section \<open>Cron expressions\<close>

datatype cron_error =
    InvalidStep | InvalidField | NotFiveFields | InvalidZone | NoNextRun
  | InvalidWindow | EndBeforeStart | InvalidOnce | InvalidInterval

definition FIELD_BOUNDS :: "(int \<times> int) list" where
  "FIELD_BOUNDS = [(0, 59), (0, 23), (1, 31), (1, 12), (0, 6)]"

definition steps_of :: "int \<Rightarrow> int \<Rightarrow> int \<Rightarrow> int list" where
  \<comment> \<open>\<open>for (i = lo; i <= hi; i += step)\<close>\<close>
  "steps_of lo hi step = filter (\<lambda>i. (i - lo) mod step = 0) [lo..hi]"

definition parse_part :: "int \<Rightarrow> int \<Rightarrow> string \<Rightarrow> cron_error + int list" where
  "parse_part mn mx part =
    (let pieces = split_on (CHR ''/'') part; range = hd pieces;
         step = (if length pieces < 2 \<or> pieces ! 1 = [] then Some 1 else integer_of (number_of_text (pieces ! 1)))
     in case step of
          None \<Rightarrow> Inl InvalidStep
        | Some st \<Rightarrow>
          if st < 1 then Inl InvalidStep
          else if range = ''*'' then Inr (steps_of mn mx st)
          else
            (let ends = split_on (CHR ''-'') range; lo = integer_of (number_of_text (hd ends));
                 hi = (if length ends < 2 then lo else integer_of (number_of_text (ends ! 1)))
             in case (lo, hi) of
                  (Some a, Some b) \<Rightarrow> if a < mn \<or> b > mx \<or> a > b then Inl InvalidField else Inr (steps_of a b st)
                | _ \<Rightarrow> Inl InvalidField))"

fun parse_parts :: "int \<Rightarrow> int \<Rightarrow> string list \<Rightarrow> cron_error + int list" where
  "parse_parts mn mx [] = Inr []"
| "parse_parts mn mx (p # ps) =
    (case parse_part mn mx p of
       Inl e \<Rightarrow> Inl e
     | Inr vs \<Rightarrow> (case parse_parts mn mx ps of Inl e \<Rightarrow> Inl e | Inr ws \<Rightarrow> Inr (vs @ ws)))"

definition parseField :: "string \<Rightarrow> int \<Rightarrow> int \<Rightarrow> cron_error + int list" where
  "parseField raw mn mx =
    (let token = js_trim raw in
     if token = ''*'' then Inr [mn..mx] else parse_parts mn mx (split_on (CHR '','') token))"

fun parse_fields :: "string list \<Rightarrow> (int \<times> int) list \<Rightarrow> cron_error + int list list" where
  "parse_fields (p # ps) ((mn, mx) # bs) =
    (case parseField p mn mx of
       Inl e \<Rightarrow> Inl e
     | Inr vs \<Rightarrow> (case parse_fields ps bs of Inl e \<Rightarrow> Inl e | Inr fs \<Rightarrow> Inr (vs # fs)))"
| "parse_fields _ _ = Inr []"

definition parseCronExpr :: "string \<Rightarrow> cron_error + int list list" where
  "parseCronExpr expr =
    (let parts = split_words (js_trim expr) in
     if length parts \<noteq> 5 then Inl NotFiveFields else parse_fields parts FIELD_BOUNDS)"

section \<open>The next run\<close>

definition fields_match :: "int list list \<Rightarrow> zoned \<Rightarrow> bool" where
  "fields_match fs z \<longleftrightarrow>
    z_month z \<in> set (fs ! 3) \<and> z_day z \<in> set (fs ! 2) \<and> z_hour z \<in> set (fs ! 1) \<and> z_minute z \<in> set (fs ! 0)
    \<and> z_weekday z \<in> set (fs ! 4)"

definition zonedUtc :: "zone \<Rightarrow> zoned \<Rightarrow> int" where
  "zonedUtc tz z =
    (let guess = date_utc (z_year z) (z_month z) (z_day z) (z_hour z) (z_minute z);
         shown = in_zone tz guess;
         shownUtc = date_utc (z_year shown) (z_month shown) (z_day shown) (z_hour shown) (z_minute shown)
     in guess - (shownUtc - guess))"

fun scan_minutes :: "(int \<Rightarrow> bool) \<Rightarrow> nat \<Rightarrow> int \<Rightarrow> int option" where
  "scan_minutes P 0 t = None"
| "scan_minutes P (Suc n) t = (if P t then Some t else scan_minutes P n (t + minute_ms))"

definition year_of_minutes :: nat where
  "year_of_minutes = 366 * 24 * 60"

definition zone_name :: "string \<Rightarrow> string" where
  "zone_name z = (if z = [] then ''Asia/Shanghai'' else z)"

definition first_minute :: "int \<Rightarrow> int" where
  "first_minute from0 = (from0 + minute_ms) div minute_ms * minute_ms"

definition nextRunAt :: "(string \<Rightarrow> zone option) \<Rightarrow> string \<Rightarrow> string \<Rightarrow> int \<Rightarrow> cron_error + int" where
  "nextRunAt zones expr zone from0 =
    (case parseCronExpr expr of
       Inl e \<Rightarrow> Inl e
     | Inr fs \<Rightarrow>
       (case zones (zone_name zone) of
          None \<Rightarrow> Inl InvalidZone
        | Some tz \<Rightarrow>
          (case scan_minutes (\<lambda>t. fields_match fs (in_zone tz t)) year_of_minutes (first_minute from0) of
             None \<Rightarrow> Inl NoNextRun
           | Some t \<Rightarrow> Inr (zonedUtc tz (in_zone tz t)))))"

section \<open>The schedule window\<close>

text \<open>A date text is absent, or \<open>Some None\<close> when it does not parse, or the instant.\<close>

record schedule_window =
  wn_kind :: "string option"
  wn_start :: "int option option"
  wn_end :: "int option option"
  wn_once :: "int option"  \<comment> \<open>\<open>None\<close> when absent or not a date\<close>
  wn_interval :: "rat option"

definition next_of_kind ::
  "(string \<Rightarrow> zone option) \<Rightarrow> string \<Rightarrow> string \<Rightarrow> schedule_window \<Rightarrow> int option \<Rightarrow> int \<Rightarrow> cron_error + int option" where
  "next_of_kind zones expr zone w start from0 =
    (if wn_kind w = Some ''once'' then
       (case wn_once w of None \<Rightarrow> Inl InvalidOnce | Some t \<Rightarrow> Inr (if t \<le> from0 then None else Some t))
     else if wn_kind w = Some ''interval'' then
       (case integer_of (wn_interval w) of
          None \<Rightarrow> Inl InvalidInterval
        | Some minutes \<Rightarrow>
          if minutes < 1 \<or> 525600 < minutes then Inl InvalidInterval
          else (let anchor = (case start of None \<Rightarrow> 0 | Some a \<Rightarrow> a); span = minutes * minute_ms;
                    n = max 0 ((from0 - anchor) div span + 1)
                in Inr (Some (anchor + n * span))))
     else
       (case nextRunAt zones expr zone
               (case start of Some a \<Rightarrow> if from0 < a then a - minute_ms else from0 | None \<Rightarrow> from0) of
          Inl e \<Rightarrow> Inl e
        | Inr t \<Rightarrow> Inr (Some t)))"

definition nextScheduledAt ::
  "(string \<Rightarrow> zone option) \<Rightarrow> string \<Rightarrow> string \<Rightarrow> schedule_window \<Rightarrow> int \<Rightarrow> cron_error + int option" where
  "nextScheduledAt zones expr zone w from0 =
    (if wn_start w = Some None \<or> wn_end w = Some None then Inl InvalidWindow
     else
       (let start = (case wn_start w of None \<Rightarrow> None | Some a \<Rightarrow> a); fin = (case wn_end w of None \<Rightarrow> None | Some b \<Rightarrow> b) in
        if (case (start, fin) of (Some a, Some b) \<Rightarrow> b \<le> a | _ \<Rightarrow> False) then Inl EndBeforeStart
        else
          (case next_of_kind zones expr zone w start from0 of
             Inl e \<Rightarrow> Inl e
           | Inr None \<Rightarrow> Inr None
           | Inr (Some t) \<Rightarrow>
             (let next = (case start of Some a \<Rightarrow> max a t | None \<Rightarrow> t) in
              Inr (case fin of Some b \<Rightarrow> if b < next then None else Some next | None \<Rightarrow> Some next)))))"

section \<open>Lemmas\<close>

lemma steps_of_mem: "x \<in> set (steps_of a b st) \<longleftrightarrow> a \<le> x \<and> x \<le> b \<and> (x - a) mod st = 0"
  by (auto simp: steps_of_def)

lemma parse_part_range:
  assumes "mn \<le> mx" and "parse_part mn mx p = Inr vs"
  shows "vs \<noteq> [] \<and> (\<forall>x \<in> set vs. mn \<le> x \<and> x \<le> mx)"
proof -
  have ne: "a \<le> b \<Longrightarrow> steps_of a b st \<noteq> []" for a b st
    using steps_of_mem [of a a b st] by (metis diff_self empty_iff list.set(1) mod_0 order_refl)
  from assms show ?thesis
    by (auto simp: parse_part_def Let_def ne steps_of_mem split: option.splits if_splits)
qed

lemma parse_parts_range:
  "mn \<le> mx \<Longrightarrow> parse_parts mn mx ps = Inr vs \<Longrightarrow> (\<forall>x \<in> set vs. mn \<le> x \<and> x \<le> mx) \<and> (ps \<noteq> [] \<longrightarrow> vs \<noteq> [])"
proof (induction ps arbitrary: vs)
  case (Cons p ps)
  then show ?case by (auto split: sum.splits dest!: parse_part_range [OF Cons.prems(1)])
qed simp

lemma split_by_nonempty: "split_by P xs \<noteq> []"
  by (induction xs) (auto split: list.splits)

lemma parseField_range:
  assumes "mn \<le> mx" and "parseField raw mn mx = Inr vs"
  shows "vs \<noteq> [] \<and> (\<forall>x \<in> set vs. mn \<le> x \<and> x \<le> mx)"
proof (cases "js_trim raw = ''*''")
  case False
  then have "parse_parts mn mx (split_on (CHR '','') (js_trim raw)) = Inr vs"
    using assms(2) by (simp add: parseField_def Let_def)
  from parse_parts_range [OF assms(1) this] show ?thesis by (simp add: split_by_nonempty)
qed (use assms in \<open>auto simp: parseField_def Let_def\<close>)

lemma scan_Some:
  "scan_minutes P n t = Some u \<Longrightarrow>
    \<exists>k < n. u = t + int k * minute_ms \<and> P u \<and> (\<forall>j < k. \<not> P (t + int j * minute_ms))"
proof (induction n arbitrary: t)
  case (Suc n)
  show ?case
  proof (cases "P t")
    case False
    then obtain k where k: "k < n" "u = t + minute_ms + int k * minute_ms" "P u" "\<forall>j < k. \<not> P (t + minute_ms + int j * minute_ms)"
      using Suc by auto
    have "\<not> P (t + int j * minute_ms)" if "j < Suc k" for j
      using that False k(4) by (cases j) (auto simp: algebra_simps)
    with k show ?thesis by (intro exI [of _ "Suc k"]) (auto simp: algebra_simps)
  qed (use Suc.prems in auto)
qed simp

lemma scan_first: "P t \<Longrightarrow> 0 < n \<Longrightarrow> scan_minutes P n t = Some t"
  by (cases n) simp_all

lemma scan_None: "scan_minutes P n t = None \<longleftrightarrow> (\<forall>k < n. \<not> P (t + int k * minute_ms))"
proof (induction n arbitrary: t)
  case (Suc n)
  then show ?case by (auto simp: less_Suc_eq_0_disj algebra_simps)
qed simp

lemma first_minute_bounds: "minute_ms dvd first_minute f" "f < first_minute f" "first_minute f \<le> f + minute_ms"
  by (simp_all add: first_minute_def)

lemma parse_fields_range:
  "parse_fields ps bs = Inr fs \<Longrightarrow> list_all (\<lambda>b. fst b \<le> snd b) bs \<Longrightarrow> length ps = length bs \<Longrightarrow>
    list_all2 (\<lambda>vs b. vs \<noteq> [] \<and> (\<forall>x \<in> set vs. fst b \<le> x \<and> x \<le> snd b)) fs bs"
  by (induction ps bs arbitrary: fs rule: parse_fields.induct)
    (auto split: sum.splits dest: parseField_range)

text \<open>
  In a zone of whole minutes the result is the first matching minute, moved by the difference of the
  offsets at that minute and at the instant \<open>zonedUtc\<close> guesses for it.
\<close>

lemma zonedUtc_moved:
  assumes "\<And>x. minute_ms dvd tz x" and "minute_ms dvd u"
  shows "zonedUtc tz (in_zone tz u) = u + (tz u - tz (u + tz u))"
proof -
  have whole: "x div minute_ms * minute_ms = x" if "minute_ms dvd x" for x using that by simp
  have "zonedUtc tz z = (let g = date_utc (z_year z) (z_month z) (z_day z) (z_hour z) (z_minute z)
      in g - ((g + tz g) div minute_ms * minute_ms - g))" for z
    by (simp only: zonedUtc_def date_utc_in_zone Let_def)
  moreover have "(u + tz u) div minute_ms * minute_ms = u + tz u"
    "(u + tz u + tz (u + tz u)) div minute_ms * minute_ms = u + tz u + tz (u + tz u)"
    using assms by (simp_all only: whole dvd_add)
  ultimately show ?thesis by (simp only: date_utc_in_zone Let_def)
qed

lemma zonedUtc_fixed: "minute_ms dvd off \<Longrightarrow> minute_ms dvd t \<Longrightarrow> zonedUtc (\<lambda>_. off) (in_zone (\<lambda>_. off) t) = t"
  using zonedUtc_moved [of "\<lambda>_. off" t] by simp

lemma next_run_moved:
  assumes "nextRunAt zones expr zone from0 = Inr t" and "zones (zone_name zone) = Some tz"
    and "\<And>x. minute_ms dvd tz x" and "parseCronExpr expr = Inr fs"
  shows "\<exists>u. from0 < u \<and> u \<le> from0 + 366 * day_ms \<and> minute_ms dvd u \<and> fields_match fs (in_zone tz u)
    \<and> (\<forall>v. from0 < v \<and> v < u \<and> minute_ms dvd v \<longrightarrow> \<not> fields_match fs (in_zone tz v))
    \<and> t = u + (tz u - tz (u + tz u))"
proof -
  let ?P = "\<lambda>t. fields_match fs (in_zone tz t)"
  obtain u where u: "scan_minutes ?P year_of_minutes (first_minute from0) = Some u" "t = zonedUtc tz (in_zone tz u)"
    using assms(1,2,4) by (auto simp: nextRunAt_def split: option.splits)
  from scan_Some [OF u(1)] obtain k where k: "k < year_of_minutes" "u = first_minute from0 + int k * minute_ms" "?P u"
    "\<forall>j < k. \<not> ?P (first_minute from0 + int j * minute_ms)" by blast
  have dvd: "minute_ms dvd u" using first_minute_bounds(1) [of from0] by (simp add: k(2))
  have none: "\<not> ?P v" if v: "from0 < v" "v < u" "minute_ms dvd v" for v
  proof -
    obtain q p where q: "v = minute_ms * q" "first_minute from0 = minute_ms * p"
      using v(3) first_minute_bounds(1) [of from0] by (auto elim!: dvdE)
    have "p \<le> q" using v(1) first_minute_bounds(3) [of from0] q by simp
    moreover have "q < p + int k" using v(2) k(2) q by simp
    ultimately have "v = first_minute from0 + int (nat (q - p)) * minute_ms" "nat (q - p) < k" using q by simp_all
    with k(4) show ?thesis by blast
  qed
  have "int k \<le> int year_of_minutes - 1" using k(1) by simp
  then have "u \<le> from0 + 366 * day_ms"
    using first_minute_bounds(3) [of from0] k(2) by (simp add: year_of_minutes_def)
  moreover have "from0 < u" using first_minute_bounds(2) [of from0] k(2) by simp
  ultimately show ?thesis using u(2) zonedUtc_moved [of tz u, OF assms(3) dvd] dvd k(3) none by blast
qed

lemma next_run_is_next:
  assumes "nextRunAt zones expr zone from0 = Inr t" and "zones (zone_name zone) = Some (\<lambda>_. off)"
    and "minute_ms dvd off" and "parseCronExpr expr = Inr fs"
  shows "from0 < t \<and> t \<le> from0 + 366 * day_ms \<and> minute_ms dvd t \<and> fields_match fs (in_zone (\<lambda>_. off) t)
    \<and> (\<forall>u. from0 < u \<and> u < t \<and> minute_ms dvd u \<longrightarrow> \<not> fields_match fs (in_zone (\<lambda>_. off) u))"
  using next_run_moved [OF assms] by auto

lemma interval_after:
  fixes a s from0 :: int
  assumes "0 < s"
  shows "from0 < a + max 0 ((from0 - a) div s + 1) * s"
proof -
  have "(from0 - a) - (from0 - a) div s * s < s" using assms pos_mod_bound [of s "from0 - a"] by (simp add: minus_div_mult_eq_mod)
  then have "from0 - a < ((from0 - a) div s + 1) * s" by (simp add: algebra_simps)
  also have "\<dots> \<le> max 0 ((from0 - a) div s + 1) * s" using assms by (intro mult_right_mono) simp_all
  finally show ?thesis by simp
qed

lemma next_scheduled_later:
  assumes "nextScheduledAt zones expr zone w from0 = Inr (Some t)" and "zones (zone_name zone) = Some (\<lambda>_. off)"
    and "minute_ms dvd off"
  shows "from0 < t \<and> (\<forall>a. wn_start w = Some (Some a) \<longrightarrow> a \<le> t) \<and> (\<forall>b. wn_end w = Some (Some b) \<longrightarrow> t \<le> b)"
proof -
  let ?start = "case wn_start w of None \<Rightarrow> None | Some a \<Rightarrow> a" and ?fin = "case wn_end w of None \<Rightarrow> None | Some b \<Rightarrow> b"
  obtain t0 where t0: "next_of_kind zones expr zone w ?start from0 = Inr (Some t0)"
    and t: "t = (case ?start of Some a \<Rightarrow> max a t0 | None \<Rightarrow> t0)" and fin: "\<And>b. ?fin = Some b \<Longrightarrow> t \<le> b"
    using assms(1) by (auto simp: nextScheduledAt_def Let_def not_less split: if_splits sum.splits option.splits)
  have run: "f < u" if found: "nextRunAt zones expr zone f = Inr u" for f u
  proof -
    obtain fs where "parseCronExpr expr = Inr fs" using found by (auto simp: nextRunAt_def split: sum.splits)
    from next_run_is_next [OF found assms(2,3) this] show ?thesis by blast
  qed
  have "from0 < t"
  proof (cases "wn_kind w = Some ''interval''")
    case True
    then obtain m where m: "1 \<le> m"
      "t0 = (case ?start of None \<Rightarrow> 0 | Some a \<Rightarrow> a)
         + max 0 ((from0 - (case ?start of None \<Rightarrow> 0 | Some a \<Rightarrow> a)) div (m * minute_ms) + 1) * (m * minute_ms)"
      using t0 by (auto simp: next_of_kind_def Let_def not_less split: option.splits if_splits)
    have "from0 < a + max 0 ((from0 - a) div (m * minute_ms) + 1) * (m * minute_ms)" for a
      by (rule interval_after) (use m(1) in simp)
    then have "from0 < t0" by (simp only: m(2))
    then show ?thesis using t by (auto split: option.splits)
  next
    case False
    show ?thesis
    proof (cases "wn_kind w = Some ''once''")
      case True
      then show ?thesis using t0 t by (auto simp: next_of_kind_def split: option.splits if_splits)
    next
      case kind: False
      with False obtain f where f: "nextRunAt zones expr zone f = Inr t0"
        "f = (case ?start of Some a \<Rightarrow> if from0 < a then a - minute_ms else from0 | None \<Rightarrow> from0)"
        using t0 by (auto simp: next_of_kind_def split: sum.splits)
      from run [OF f(1)] f(2) t show ?thesis by (auto split: option.splits if_splits)
    qed
  qed
  then show ?thesis using t fin by (auto split: option.splits)
qed

section \<open>Properties\<close>

text \<open>
  A parsed cron expression has five fields, none of them empty, and every value of a field lies
  within the bounds of the field: minutes, hours, days, months and weekdays that exist.
\<close>

theorem parsed_fields_in_bounds:
  assumes "parseCronExpr expr = Inr fs"
  shows "length fs = 5 \<and> (\<forall>k < 5. fs ! k \<noteq> []
    \<and> (\<forall>x \<in> set (fs ! k). fst (FIELD_BOUNDS ! k) \<le> x \<and> x \<le> snd (FIELD_BOUNDS ! k)))"
proof -
  have len: "length FIELD_BOUNDS = 5" "list_all (\<lambda>b. fst b \<le> snd b) FIELD_BOUNDS" by (simp_all add: FIELD_BOUNDS_def)
  have "list_all2 (\<lambda>vs b. vs \<noteq> [] \<and> (\<forall>x \<in> set vs. fst b \<le> x \<and> x \<le> snd b)) fs FIELD_BOUNDS"
    using assms len by (auto simp: parseCronExpr_def Let_def split: if_splits intro: parse_fields_range)
  then show ?thesis using len(1) by (simp add: list_all2_conv_all_nth)
qed

text \<open>
  C39. In a zone of constant offset the next run is the next matching minute: it lies after the
  instant it is asked from, on a whole minute whose civil time matches the expression, within 366
  days, and no whole minute between the two matches.
\<close>

theorem next_run_is_next_match:
  assumes "nextRunAt zones expr zone from0 = Inr t" and "zones (zone_name zone) = Some (\<lambda>_. off)"
    and "minute_ms dvd off" and "parseCronExpr expr = Inr fs"
  shows "from0 < t \<and> t \<le> from0 + 366 * day_ms \<and> minute_ms dvd t \<and> fields_match fs (in_zone (\<lambda>_. off) t)
    \<and> (\<forall>u. from0 < u \<and> u < t \<and> minute_ms dvd u \<longrightarrow> \<not> fields_match fs (in_zone (\<lambda>_. off) u))"
  using assms by (rule next_run_is_next)

text \<open>
  A schedule moves forward inside its window: for every kind of schedule, in a zone of constant
  offset, the next instant lies strictly after the one it is computed from, not before the start and
  not after the end of the window.
\<close>

theorem schedule_moves_forward:
  assumes "nextScheduledAt zones expr zone w from0 = Inr (Some t)" and "zones (zone_name zone) = Some (\<lambda>_. off)"
    and "minute_ms dvd off"
  shows "from0 < t \<and> (\<forall>a. wn_start w = Some (Some a) \<longrightarrow> a \<le> t) \<and> (\<forall>b. wn_end w = Some (Some b) \<longrightarrow> t \<le> b)"
  using assms by (rule next_scheduled_later)

text \<open>Texts of digits are read as the number they spell, which evaluates the expressions below.\<close>

lemma digit_not_space: "is_digit_of 10 c \<Longrightarrow> \<not> js_space (of_char c)"
  by (auto simp: is_digit_of_def js_space_def Let_def)

lemma trim_plain: "s \<noteq> [] \<Longrightarrow> \<not> js_space (of_char (hd s)) \<Longrightarrow> \<not> js_space (of_char (last s)) \<Longrightarrow> js_trim s = s"
proof -
  have keep: "xs \<noteq> [] \<Longrightarrow> \<not> P (hd xs) \<Longrightarrow> dropWhile P xs = xs" for P and xs :: string
    by (cases xs) simp_all
  show "s \<noteq> [] \<Longrightarrow> \<not> js_space (of_char (hd s)) \<Longrightarrow> \<not> js_space (of_char (last s)) \<Longrightarrow> js_trim s = s"
    by (simp add: js_trim_def keep hd_rev)
qed

lemma number_of_digits:
  assumes "ds \<noteq> []" and "list_all (is_digit_of 10) ds"
  shows "integer_of (number_of_text ds) = Some (int (radix_value 10 ds))"
proof -
  have digit: "is_digit_of 10 c" if "c \<in> set ds" for c using assms(2) that by (simp add: list_all_iff)
  have trim: "js_trim ds = ds"
    using assms(1) digit_not_space [OF digit] by (intro trim_plain) simp_all
  have "take 2 ds \<notin> {''0x'', ''0X'', ''0o'', ''0O'', ''0b'', ''0B''}"
  proof
    assume "take 2 ds \<in> {''0x'', ''0X'', ''0o'', ''0O'', ''0b'', ''0B''}"
    then have "ds ! 1 \<in> {CHR ''x'', CHR ''X'', CHR ''o'', CHR ''O'', CHR ''b'', CHR ''B''}" "1 < length ds"
      by (cases ds; cases "tl ds"; auto)+
    with digit [of "ds ! 1"] show False by (auto simp: is_digit_of_def)
  qed
  moreover have "signed ds = (False, ds)"
    using assms(1) digit [of "hd ds"] by (cases ds) (auto simp: signed_def is_digit_of_def)
  moreover have "decimal_of ds = Some (of_nat (radix_value 10 ds))"
  proof -
    have tw: "takeWhile (is_digit_of 10) ds = ds" and dw: "dropWhile (is_digit_of 10) ds = []"
      using assms(2) by (simp_all add: list_all_iff takeWhile_eq_all_conv dropWhile_eq_Nil_conv)
    show ?thesis using assms(1) by (simp add: decimal_of_def Let_def tw dw exponent_of_def scaled_def)
  qed
  ultimately show ?thesis using assms(1) by (auto simp: number_of_text_def Let_def trim integer_of_def is_integer_def)
qed

lemma parse_number:
  assumes "ds \<noteq> []" and "list_all (is_digit_of 10) ds" and "mn \<le> int (radix_value 10 ds)" and "int (radix_value 10 ds) \<le> mx"
  shows "parseField ds mn mx = Inr [int (radix_value 10 ds)]"
proof -
  have sep: "split_by (\<lambda>x. x = c) ds = [ds]" if "\<not> is_digit_of 10 c" for c
    using assms(1,2) that by (induction ds rule: list_nonempty_induct) auto
  have "js_trim ds = ds"
    using assms(1,2) digit_not_space by (intro trim_plain) (simp_all add: list_all_iff)
  moreover have "ds \<noteq> ''*''" using assms(2) by (auto simp: is_digit_of_def)
  ultimately show ?thesis
    using assms
    by (simp add: parseField_def sep is_digit_of_def parse_part_def number_of_digits steps_of_def)
qed

lemma parse_star: "parseField ''*'' mn mx = Inr [mn..mx]"
  by (simp add: parseField_def trim_plain js_space_def)

lemmas parse_small = parseCronExpr_def Let_def split_words_def trim_plain js_space_def FIELD_BOUNDS_def parse_star
  parse_number radix_value_def digit_in_def is_digit_of_def

text \<open>A schedule for 29 February, and the whole minutes it can match.\<close>

lemma parse_leap_day: "parseCronExpr ''0 0 29 2 *'' = Inr [[0], [0], [29], [2], [0..6]]"
  by (simp add: parse_small)

text \<open>The run of midnight, 29 February 2028, asked for a minute before.\<close>

lemma leap_run: "nextRunAt (\<lambda>_. Some (\<lambda>_. 0)) ''0 0 29 2 *'' ''UTC'' 1835395140000 = Inr 1835395200000"
proof -
  have z: "in_zone (\<lambda>_. 0) 1835395200000 = \<lparr>z_year = 2028, z_month = 2, z_day = 29, z_hour = 0, z_minute = 0, z_weekday = 2\<rparr>"
    by code_simp
  have u: "zonedUtc (\<lambda>_. 0) (in_zone (\<lambda>_. 0) 1835395200000) = 1835395200000"
    by (rule zonedUtc_fixed) simp_all
  have "scan_minutes (\<lambda>t. fields_match [[0], [0], [29], [2], [0..6]] (in_zone (\<lambda>_. 0) t)) year_of_minutes 1835395200000
      = Some 1835395200000"
    by (rule scan_first) (simp_all add: z fields_match_def year_of_minutes_def)
  moreover have "first_minute 1835395140000 = 1835395200000" by (simp add: first_minute_def)
  ultimately show ?thesis by (simp add: nextRunAt_def parse_leap_day u)
qed

lemma parsed_fields_in_bounds_witness:
  "length ([[0], [0], [29], [2], [0..6]] :: int list list) = 5 \<and> ([[0], [0], [29], [2], [0..6]] :: int list list) ! 2 \<noteq> []"
proof -
  have "(2::nat) < 5" by simp
  with parsed_fields_in_bounds [OF parse_leap_day] show ?thesis by blast
qed

lemma next_run_is_next_match_witness:
  "1835395200000 \<le> 1835395140000 + 366 * day_ms \<and> minute_ms dvd 1835395200000
    \<and> fields_match [[0], [0], [29], [2], [0..6]] (in_zone (\<lambda>_. 0) 1835395200000)"
  using next_run_is_next_match [OF leap_run refl dvd_0_right parse_leap_day] by blast

definition leap_window :: schedule_window where
  "leap_window = \<lparr>wn_kind = Some ''recurring'', wn_start = None, wn_end = Some (Some 1835395200000), wn_once = None, wn_interval = None\<rparr>"

lemma leap_scheduled:
  "nextScheduledAt (\<lambda>_. Some (\<lambda>_. 0)) ''0 0 29 2 *'' ''UTC'' leap_window 1835395140000 = Inr (Some 1835395200000)"
  by (simp add: nextScheduledAt_def next_of_kind_def leap_window_def leap_run)

lemma schedule_moves_forward_witness: "\<forall>b. wn_end leap_window = Some (Some b) \<longrightarrow> 1835395200000 \<le> b"
  using schedule_moves_forward [OF leap_scheduled refl dvd_0_right] by blast

lemma leap_match:
  assumes m: "fields_match [[0], [0], [29], [2], [0..6]] (in_zone (\<lambda>_. off) u)" and dvd: "minute_ms dvd u + off"
  obtains y where "leap_year y" "u + off = days_of_civil y 2 29 * day_ms"
proof -
  obtain y mo d where c: "civil_of_days ((u + off) div day_ms) = (y, mo, d)" by (cases "civil_of_days ((u + off) div day_ms)")
  have f: "z_month (in_zone (\<lambda>_. off) u) = 2" "z_day (in_zone (\<lambda>_. off) u) = 29" "z_hour (in_zone (\<lambda>_. off) u) = 0"
    "z_minute (in_zone (\<lambda>_. off) u) = 0"
    using m by (simp_all add: fields_match_def)
  have "z_month (in_zone (\<lambda>_. off) u) = mo" "z_day (in_zone (\<lambda>_. off) u) = d" "z_year (in_zone (\<lambda>_. off) u) = y"
    unfolding in_zone_def Let_def c prod.case by (simp_all only: zoned.simps)
  with f have md: "mo = 2" "d = 29" and zy: "z_year (in_zone (\<lambda>_. off) u) = y" by simp_all
  have "leap_year y" using civil_day_exists [OF c] by (simp add: md days_in_month_def split: if_splits)
  moreover have "u + off = days_of_civil y 2 29 * day_ms"
    using date_utc_in_zone [of "\<lambda>_. off" u] dvd by (simp add: f zy date_utc_def)
  ultimately show ?thesis by (rule that)
qed

lemma leap_day_none:
  assumes leap: "leap_year y" and "zones (zone_name zone) = Some (\<lambda>_. off)" and off: "minute_ms dvd off"
  shows "nextRunAt zones ''0 0 29 2 *'' zone (days_of_civil y 2 29 * day_ms - off) = Inl NoNextRun"
proof -
  let ?fs = "[[0], [0], [29], [2], [0..6]]" and ?from = "days_of_civil y 2 29 * day_ms - off"
  have first: "first_minute ?from = ?from + minute_ms"
  proof -
    have "minute_ms dvd ?from + minute_ms" using off by (simp add: dvd_diff)
    then show ?thesis by (simp add: first_minute_def)
  qed
  have none: "\<not> fields_match ?fs (in_zone (\<lambda>_. off) (first_minute ?from + int k * minute_ms))" if k: "k < year_of_minutes" for k
  proof
    let ?u = "first_minute ?from + int k * minute_ms"
    assume match: "fields_match ?fs (in_zone (\<lambda>_. off) ?u)"
    have local: "?u + off = days_of_civil y 2 29 * day_ms + (int k + 1) * minute_ms" by (simp add: first algebra_simps)
    obtain y' where y': "leap_year y'" "?u + off = days_of_civil y' 2 29 * day_ms"
      by (rule leap_match [OF match]) (unfold local, simp_all)
    have eq: "day_from_year y' * 1440 = day_from_year y * 1440 + int k + 1"
      using trans [OF y'(2) [symmetric] local] by (simp add: feb_29)
    then have "day_from_year y < day_from_year y'" by simp
    then have "\<not> y' < y" "y' \<noteq> y" using day_from_year_mono [of y' y] by auto
    then have lt: "y < y'" by simp
    have "int k + 1 \<le> 366 * 1440" using k by (simp add: year_of_minutes_def)
    then have "day_from_year y' \<le> day_from_year (y + 1)" using eq leap by (simp add: day_from_year_Suc year_length_def)
    then have "\<not> y + 1 < y'" using day_from_year_mono [of "y + 1" y'] by auto
    with lt have "y' = y + 1" by simp
    with leap y'(1) no_leap_twice show False by simp
  qed
  then have "scan_minutes (\<lambda>t. fields_match ?fs (in_zone (\<lambda>_. off) t)) year_of_minutes (first_minute ?from) = None"
    by (simp add: scan_None)
  then show ?thesis using assms(2) by (simp add: nextRunAt_def parse_leap_day)
qed

text \<open>
  A schedule for 29 February ends in an error: asked, in a zone of constant offset, for the run
  after the one at midnight of a 29 February, \<open>nextRunAt\<close> finds none in the 366 days it searches.
\<close>

theorem leap_day_schedule_fails:
  assumes leap: "leap_year y" and "zones (zone_name zone) = Some (\<lambda>_. off)" and off: "minute_ms dvd off"
  shows "nextRunAt zones ''0 0 29 2 *'' zone (days_of_civil y 2 29 * day_ms - off) = Inl NoNextRun"
  using assms by (rule leap_day_none)

lemma leap_day_schedule_fails_witness:
  "nextRunAt (\<lambda>_. Some (\<lambda>_. 0)) ''0 0 29 2 *'' ''UTC'' (days_of_civil 2028 2 29 * day_ms - 0) = Inl NoNextRun"
  by (rule leap_day_schedule_fails [OF _ refl dvd_0_right]) (simp add: leap_year_def)

text \<open>Eastern time around the start of daylight saving on 8 March 2026, 07:00 UTC.\<close>

definition eastern :: zone where
  "eastern t = (if t < 1772953200000 then -18000000 else -14400000)"

text \<open>
  C40. In a zone whose offset changes, the next run is moved off the matching minute by exactly the
  change \<open>zonedUtc\<close> sees: if \<open>u\<close> is the first matching minute, the answer is \<open>u\<close> plus the offset of
  the zone at \<open>u\<close> minus its offset at the civil time of \<open>u\<close> read as UTC.  It is the matching
  minute when the two offsets agree, and otherwise wrong by their difference, in either direction:
  on the day of the witness an hour late, at an instant that does not match the expression.
\<close>

theorem next_run_moved_by_offset_change:
  assumes "nextRunAt zones expr zone from0 = Inr t" and "zones (zone_name zone) = Some tz"
    and "\<forall>x. minute_ms dvd tz x" and "parseCronExpr expr = Inr fs"
  shows "\<exists>u. from0 < u \<and> u \<le> from0 + 366 * day_ms \<and> minute_ms dvd u \<and> fields_match fs (in_zone tz u)
    \<and> (\<forall>v. from0 < v \<and> v < u \<and> minute_ms dvd v \<longrightarrow> \<not> fields_match fs (in_zone tz v))
    \<and> t = u + (tz u - tz (u + tz u))"
  using assms(1,2) spec [OF assms(3)] assms(4) by (rule next_run_moved)

lemma eastern_spring:
  "in_zone eastern 1772955000000 = \<lparr>z_year = 2026, z_month = 3, z_day = 8, z_hour = 3, z_minute = 30, z_weekday = 0\<rparr>"
  "in_zone eastern 1772958600000 = \<lparr>z_year = 2026, z_month = 3, z_day = 8, z_hour = 4, z_minute = 30, z_weekday = 0\<rparr>"
  by code_simp+

lemma eastern_expression: "parseCronExpr ''30 3 8 3 *'' = Inr [[30], [3], [8], [3], [0..6]]"
  by (simp add: parse_small)

lemma eastern_run: "nextRunAt (\<lambda>_. Some eastern) ''30 3 8 3 *'' ''America/New_York'' 1772954940000 = Inr 1772958600000"
proof -
  have u: "zonedUtc eastern \<lparr>z_year = 2026, z_month = 3, z_day = 8, z_hour = 3, z_minute = 30, z_weekday = 0\<rparr> = 1772958600000"
    by code_simp
  have "scan_minutes (\<lambda>t. fields_match [[30], [3], [8], [3], [0..6]] (in_zone eastern t)) year_of_minutes 1772955000000
      = Some 1772955000000"
    by (rule scan_first) (simp_all add: eastern_spring fields_match_def year_of_minutes_def)
  moreover have "first_minute 1772954940000 = 1772955000000" by (simp add: first_minute_def)
  ultimately show ?thesis by (simp add: nextRunAt_def eastern_expression eastern_spring u)
qed

theorem next_run_moved_by_offset_change_witness:
  "(\<exists>u. 1772954940000 < u \<and> fields_match [[30], [3], [8], [3], [0..6]] (in_zone eastern u)
      \<and> 1772958600000 = u + (eastern u - eastern (u + eastern u)))
    \<and> \<not> fields_match [[30], [3], [8], [3], [0..6]] (in_zone eastern 1772958600000)"
proof -
  have "\<forall>x. minute_ms dvd eastern x" by (simp add: eastern_def)
  from next_run_moved_by_offset_change [OF eastern_run refl this eastern_expression]
  show ?thesis by (auto simp: eastern_spring fields_match_def)
qed

text \<open>
  On the day the clocks go back the next run of a job at half past one can be the instant it is
  asked from: the first matching minute is half past one for the second time, and the answer is an
  hour before it.
\<close>

definition eastern_autumn :: zone where
  \<comment> \<open>New York in the autumn of 2026\<close>
  "eastern_autumn t = (if t < 1793512800000 then -14400000 else -18000000)"

lemma next_run_stays:
  "fields_match [[30], [1], [0..31], [0..12], [0..6]] (in_zone eastern_autumn 1793511000000)
    \<and> fields_match [[30], [1], [0..31], [0..12], [0..6]] (in_zone eastern_autumn 1793514600000)
    \<and> zonedUtc eastern_autumn (in_zone eastern_autumn 1793514600000) = 1793511000000"
proof -
  have "in_zone eastern_autumn 1793514600000 = \<lparr>z_year = 2026, z_month = 11, z_day = 1, z_hour = 1, z_minute = 30, z_weekday = 0\<rparr>"
    "in_zone eastern_autumn 1793511000000 = \<lparr>z_year = 2026, z_month = 11, z_day = 1, z_hour = 1, z_minute = 30, z_weekday = 0\<rparr>"
    by code_simp+
  moreover have "zonedUtc eastern_autumn \<lparr>z_year = 2026, z_month = 11, z_day = 1, z_hour = 1, z_minute = 30, z_weekday = 0\<rparr> = 1793511000000"
    by code_simp
  ultimately show ?thesis by (simp add: fields_match_def)
qed

end
