(* ===== verification/Cron_Store.thy ===== *)
theory Cron_Store
  imports Cron_Schedule Job_Properties
begin

text \<open>
  \<open>backend/src/cron/postgres-store.ts\<close>: cron jobs and their runs, over the execution job store.

  The state is the tables \<open>cron_jobs\<close> and \<open>cron_runs\<close> beside the two tables of \<open>Jobs\<close>; every
  operation is one statement or one transaction.  Clock, identifiers (\<open>nid\<close>) and the rows other
  transactions lock are arguments.  What the code takes from the platform is the record
  \<open>cron_env\<close>: the time zones, \<open>new Date(v)\<close> of a stored value and of its text, the text of an instant,
  \<open>JSON.stringify\<close>, and the run identifier \<open>JSON.parse\<close> finds in a payload.
\<close>

section \<open>Rows\<close>

text \<open>A JSON object, or one that ends with a \<open>label\<close> in Chinese.\<close>

datatype cron_json = Plain js | Labelled js utext

record cron_job =
  cj_id :: string
  cj_key :: string
  cj_title :: utext
  cj_owner :: "string option"
  cj_execute_as :: string
  cj_expert :: string
  cj_handler :: string
  cj_scope :: cron_json
  cj_condition :: js
  cj_expr :: string
  cj_timezone :: string
  cj_status :: string
  cj_retry :: js
  cj_takeover :: js
  cj_rev :: int
  cj_next :: "int option"
  cj_last_run :: "int option"
  cj_last_status :: "string option"
  cj_created :: int
  cj_updated :: int

record cron_run =
  cr_id :: string
  cr_job :: string
  cr_trigger :: string
  cr_status :: string
  cr_slot :: string
  cr_started :: "int option"
  cr_finished :: "int option"
  cr_error_code :: "string option"
  cr_error_summary :: "utext option"
  cr_receipt :: "js option"
  cr_artifacts :: "js option"
  cr_session :: "string option"
  cr_created :: int

record cron_db =
  cd_jobs :: "cron_job list"
  cd_runs :: "cron_run list"
  cd_exec :: job_db

record cron_env =
  ce_zones :: "string \<Rightarrow> zone option"
  ce_date :: "js \<Rightarrow> int option"
  ce_text_date :: "js \<Rightarrow> int option"
  ce_iso :: "int \<Rightarrow> string"
  ce_json :: "js \<Rightarrow> string"
  ce_snapshot :: "cron_json \<Rightarrow> js \<Rightarrow> string"
  ce_run_of :: "string \<Rightarrow> string"

datatype cron_db_error = CronJobMissing | DuplicateKey | ScheduleFailed cron_error | InvalidPolicy | JobsFailed job_error

section \<open>Values\<close>

fun js_truthy :: "js \<Rightarrow> bool" where
  "js_truthy JUndefined = False"
| "js_truthy JNull = False"
| "js_truthy (JBool b) = b"
| "js_truthy (JNum r) = (r \<noteq> 0)"
| "js_truthy (JStr s) = (s \<noteq> [])"
| "js_truthy (JArr _) = True"
| "js_truthy (JObj _) = True"

fun js_to_number :: "js \<Rightarrow> rat option" where
  \<comment> \<open>\<open>Number(v)\<close>, \<open>None\<close> for \<open>NaN\<close> and the infinities\<close>
  "js_to_number JUndefined = None"
| "js_to_number JNull = Some 0"
| "js_to_number (JBool b) = Some (if b then 1 else 0)"
| "js_to_number (JNum r) = Some r"
| "js_to_number (JStr s) = number_of_text s"
| "js_to_number (JArr []) = Some 0"
| "js_to_number (JArr [v]) = (case v of JUndefined \<Rightarrow> Some 0 | JNull \<Rightarrow> Some 0 | JBool _ \<Rightarrow> None | _ \<Rightarrow> js_to_number v)"
| "js_to_number (JArr _) = None"
| "js_to_number (JObj _) = None"

definition json_object :: "js \<Rightarrow> (string \<times> js) list" where
  \<comment> \<open>\<open>json\<close> of a \<open>jsonb\<close> column\<close>
  "json_object v = (case v of JObj kvs \<Rightarrow> kvs | _ \<Rightarrow> [])"

definition member :: "string \<Rightarrow> js \<Rightarrow> js" where
  "member k v = (case v of JObj kvs \<Rightarrow> js_field k kvs | _ \<Rightarrow> JUndefined)"

definition scheduleOf :: "cron_job \<Rightarrow> js" where
  "scheduleOf job =
    (let v = js_field ''schedule'' (json_object (cj_condition job)) in if js_truthy v then v else JObj [])"

definition window_of :: "cron_env \<Rightarrow> js \<Rightarrow> schedule_window" where
  "window_of env v =
    (let date = (\<lambda>k. if js_truthy (member k v) then Some (ce_date env (member k v)) else None) in
     \<lparr>wn_kind = (case member ''kind'' v of JStr s \<Rightarrow> Some s | _ \<Rightarrow> None),
      wn_start = date ''start_at'', wn_end = date ''end_at'',
      wn_once = (if js_truthy (member ''once_at'' v) then ce_text_date env (member ''once_at'' v) else None),
      wn_interval = js_to_number (member ''interval_minutes'' v)\<rparr>)"

definition nextFor :: "cron_env \<Rightarrow> cron_job \<Rightarrow> int \<Rightarrow> cron_error + int option" where
  "nextFor env job from0 =
    nextScheduledAt (ce_zones env) (cj_expr job) (zone_name (cj_timezone job)) (window_of env (scheduleOf job)) from0"

definition takeoverMinutes :: "cron_job \<Rightarrow> rat" where
  "takeoverMinutes job =
    (case js_to_number (js_field ''after_minutes'' (json_object (cj_takeover job))) of
       Some m \<Rightarrow> if 0 < m then m else 30 | None \<Rightarrow> 30)"

section \<open>Runs and their execution jobs\<close>

definition jobByIdIn :: "cron_db \<Rightarrow> string \<Rightarrow> cron_job option" where
  "jobByIdIn s i = find (\<lambda>j. cj_id j = i \<or> cj_key j = i) (cd_jobs s)"

definition run_by_id :: "cron_db \<Rightarrow> string \<Rightarrow> cron_run option" where
  "run_by_id s i = find (\<lambda>r. cr_id r = i) (cd_runs s)"

definition run_in_slot :: "cron_db \<Rightarrow> string \<Rightarrow> string \<Rightarrow> cron_run option" where
  "run_in_slot s j slot = find (\<lambda>r. cr_job r = j \<and> cr_slot r = slot) (cd_runs s)"

definition upd_run :: "(cron_run \<Rightarrow> bool) \<Rightarrow> (cron_run \<Rightarrow> cron_run) \<Rightarrow> cron_db \<Rightarrow> cron_db" where
  "upd_run p f s = s\<lparr>cd_runs := map (\<lambda>r. if p r then f r else r) (cd_runs s)\<rparr>"

definition upd_cron_job :: "string \<Rightarrow> (cron_job \<Rightarrow> cron_job) \<Rightarrow> cron_db \<Rightarrow> cron_db" where
  "upd_cron_job i f s = s\<lparr>cd_jobs := map (\<lambda>j. if cj_id j = i then f j else j) (cd_jobs s)\<rparr>"

definition new_run :: "string \<Rightarrow> string \<Rightarrow> string \<Rightarrow> string \<Rightarrow> int \<Rightarrow> cron_run" where
  "new_run i j trigger slot now =
    \<lparr>cr_id = i, cr_job = j, cr_trigger = trigger, cr_status = ''queued'', cr_slot = slot, cr_started = None,
     cr_finished = None, cr_error_code = None, cr_error_summary = None, cr_receipt = None, cr_artifacts = None,
     cr_session = None, cr_created = now\<rparr>"

definition insert_run :: "cron_run \<Rightarrow> cron_db \<Rightarrow> cron_db_error + bool \<times> cron_db" where
  \<comment> \<open>\<open>INSERT ... ON CONFLICT (job_id,scheduled_for) DO NOTHING\<close>: whether a row was inserted\<close>
  "insert_run run s =
    (if run_in_slot s (cr_job run) (cr_slot run) \<noteq> None then Inr (False, s)
     else if run_by_id s (cr_id run) \<noteq> None then Inl DuplicateKey
     else Inr (True, s\<lparr>cd_runs := cd_runs s @ [run]\<rparr>))"

definition run_key :: "string \<Rightarrow> string" where
  "run_key run_id = ''cron-run:'' @ run_id"

definition dispatched_job :: "cron_env \<Rightarrow> cron_job \<Rightarrow> cron_run \<Rightarrow> string \<Rightarrow> int \<Rightarrow> (string \<times> js) list \<Rightarrow> job" where
  "dispatched_job env job run i now extra =
    \<lparr>j_id = i, j_type = ''cron.run'', j_tenant = ''company:amperetime'',
     j_actor = (if cj_execute_as job = [] then ''system'' else cj_execute_as job),
     j_object = ce_json env (JObj [(''type'', JStr ''cron_job''), (''id'', JStr (cj_id job))]),
     j_ticket = None, j_run = None, j_trigger = None, j_rule = Some (cj_key job),
     j_rule_version = Some (show_nat (nat (if cj_rev job = 0 then 1 else cj_rev job))),
     j_risk = Low, j_key = run_key (cr_id run), j_scope = ce_snapshot env (cj_scope job) (JObj (json_object (cj_condition job))),
     j_priority = ''normal'', j_status = Queued, j_attempts = 0, j_max_attempts = 1, j_lease_until = None,
     j_lease_owner = None, j_next_attempt_at = Some now,
     j_payload = ce_json env (JObj ([(''cron_run_id'', JStr (cr_id run)), (''cron_job_id'', JStr (cj_id job))] @ extra)),
     j_receipt = None, j_error_code = None, j_error_summary = None, j_created_at = now, j_started_at = None,
     j_terminal_at = None, j_updated_at = now\<rparr>"

definition insertCronDispatch ::
  "cron_env \<Rightarrow> cron_job \<Rightarrow> cron_run \<Rightarrow> int \<Rightarrow> (string \<times> js) list \<Rightarrow> string \<Rightarrow> string \<Rightarrow> cron_db \<Rightarrow> cron_db_error + cron_db" where
  \<comment> \<open>\<open>extra\<close>: the member \<open>schedule_dispatch\<close>, when there is one\<close>
  "insertCronDispatch env job run now extra exec_id obx_id s =
    (let e = cd_exec s in
     if list_ex (\<lambda>j. j_key j = run_key (cr_id run)) (db_jobs e) then Inr s
     else if list_ex (\<lambda>j. j_id j = exec_id) (db_jobs e) then Inl (JobsFailed PrimaryKeyConflict)
     else
       (case add_outbox
               (new_outbox obx_id exec_id ''cron.run_queued'' ''cron_run'' (cr_id run)
                  (RawJson (ce_json env (JObj ([(''cron_job_id'', JStr (cj_id job)), (''trigger'', JStr (cr_trigger run)),
                     (''scheduled_for'', JStr (cr_slot run))] @ extra))))
                  (''execution-job:'' @ run_key (cr_id run) @ '':queued'') now now)
               (e\<lparr>db_jobs := db_jobs e @ [dispatched_job env job run exec_id now extra]\<rparr>) of
          Inl err \<Rightarrow> Inl (JobsFailed err)
        | Inr e' \<Rightarrow> Inr (s\<lparr>cd_exec := e'\<rparr>)))"

section \<open>Creating and changing cron jobs\<close>

definition insert_cron_job :: "cron_job \<Rightarrow> cron_db \<Rightarrow> cron_db_error + cron_db" where
  "insert_cron_job job s =
    (if list_ex (\<lambda>j. cj_id j = cj_id job \<or> cj_key j = cj_key job) (cd_jobs s) then Inl DuplicateKey
     else Inr (s\<lparr>cd_jobs := cd_jobs s @ [job]\<rparr>))"

definition pgCreateCronJob :: "cron_job \<Rightarrow> int \<Rightarrow> cron_db \<Rightarrow> cron_db_error + cron_job \<times> cron_db" where
  \<comment> \<open>the input holds the columns; the revision, the last run and the times are set here\<close>
  "pgCreateCronJob input now s =
    (let row = input\<lparr>cj_rev := 1, cj_last_run := None, cj_last_status := None, cj_created := now, cj_updated := now\<rparr>
     in map_sum id (Pair row) (insert_cron_job row s))"

record cron_update =
  cu_title :: utext
  cu_scope :: cron_json
  cu_condition :: js
  cu_expr :: string
  cu_timezone :: string
  cu_status :: string
  cu_rev :: int
  cu_next :: "int option"

definition pgUpdateCronJob :: "string \<Rightarrow> cron_update \<Rightarrow> int \<Rightarrow> cron_db \<Rightarrow> cron_job option \<times> cron_db" where
  "pgUpdateCronJob i u now s =
    (let f = (\<lambda>j. j\<lparr>cj_title := cu_title u, cj_scope := cu_scope u, cj_condition := cu_condition u, cj_expr := cu_expr u,
                   cj_timezone := cu_timezone u, cj_status := cu_status u, cj_rev := cu_rev u, cj_next := cu_next u,
                   cj_updated := now\<rparr>)
     in (map_option f (find (\<lambda>j. cj_id j = i) (cd_jobs s)), upd_cron_job i f s))"

subsection \<open>The system jobs\<close>

definition cron_seed ::
  "string \<Rightarrow> string \<Rightarrow> utext \<Rightarrow> string \<Rightarrow> string \<Rightarrow> string \<Rightarrow> utext \<Rightarrow> (string \<times> js) list \<Rightarrow> cron_job" where
  "cron_seed i key title expr status applies label condition =
    \<lparr>cj_id = i, cj_key = key, cj_title = title, cj_owner = None, cj_execute_as = ''system'', cj_expert = ''expert:kol'',
     cj_handler = key, cj_scope = Labelled (JObj [(''applies'', JStr applies)]) label, cj_condition = JObj condition,
     cj_expr = expr, cj_timezone = ''Asia/Shanghai'', cj_status = status,
     cj_retry = JObj [(''max_attempts'', JNum 1), (''backoff_sec'', JNum 0)],
     cj_takeover = JObj [(''after_minutes'', JNum 30), (''action'', JStr ''needs_takeover'')], cj_rev = 1, cj_next = None,
     cj_last_run = None, cj_last_status = None, cj_created = 0, cj_updated = 0\<rparr>"

definition MY_SCOPE :: utext where
  "MY_SCOPE = [36866, 29992, 20110, 25105, 30340, 25480, 26435, 33539, 22260]"

definition DISCOVERY_TEMPLATE :: js where
  "DISCOVERY_TEMPLATE = JObj [(''platform'', JStr ''youtube''), (''keywords'', JArr []), (''filters'', JObj []),
     (''dedup'', JObj [(''dedup_by'', JStr ''platform_creator_id''), (''window_days'', JNum 30)])]"

definition SYSTEM_JOBS :: "cron_job list" where
  "SYSTEM_JOBS =
    [cron_seed ''cjob_overdue_scan'' ''overdue-scan'' [22833, 32852, 19982, 24310, 26399, 25195, 25551]
       ''0 8 * * *'' ''published'' ''employee_authorized'' MY_SCOPE [(''overdue'', JBool True)],
     cron_seed ''cjob_daily_task_snapshot'' ''daily-task-snapshot'' [27599, 26085, 24453, 21150, 24555, 29031]
       ''15 7 * * *'' ''published'' ''employee_authorized'' MY_SCOPE
       [(''buckets'', JArr [JStr ''greet'', JStr ''follow'', JStr ''quote'', JStr ''negotiate''])],
     cron_seed ''cjob_ownership_release'' ''ownership-release'' [49, 52, 32, 22825, 26080, 20114, 21160, 22238, 20844, 28023]
       ''30 3 * * *'' ''published'' ''employee_authorized'' MY_SCOPE
       [(''idle_days'', JNum 14), (''require_correspondence_timestamp'', JBool True), (''enabled'', JBool True),
        (''source'', JStr ''kol_follow_index'')],
     cron_seed ''cjob_discovery_search'' ''discovery-search'' [21457, 29616, 25628, 32034]
       ''0 6 * * *'' ''disabled'' ''employee_authorized'' MY_SCOPE [(''system_template'', DISCOVERY_TEMPLATE)],
     cron_seed ''cjob_mail_memory_increment'' ''mail-memory-increment'' [37038, 20214, 35760, 24518, 22686, 37327]
       ''*/10 * * * *'' ''published'' ''company'' [20844, 21496, 37038, 20214, 35760, 24518]
       [(''memory_kinds'', JArr [JStr ''translation'', JStr ''summary'', JStr ''digest'', JStr ''person_digest'']),
        (''enabled'', JBool True), (''source'', JStr ''mail_memory_increment'')],
     cron_seed ''cjob_kol_pool_sync'' ''kol-pool-sync'' [20844, 28023, 20840, 37327, 23545, 36134]
       ''*/30 * * * *'' ''published'' ''company'' [20844, 21496, 20844, 28023]
       [(''full_snapshot'', JBool True), (''page_size'', JNum 100)]]"

definition jsonb_has :: "string \<Rightarrow> js \<Rightarrow> bool" where
  \<comment> \<open>the operator \<open>?\<close>\<close>
  "jsonb_has k v = (case v of JObj kvs \<Rightarrow> k \<in> fst ` set kvs | JArr xs \<Rightarrow> JStr k \<in> set xs | JStr t \<Rightarrow> t = k | _ \<Rightarrow> False)"

definition backfill_discovery :: "int \<Rightarrow> cron_job \<Rightarrow> cron_job" where
  "backfill_discovery now job =
    (let c = cj_condition job in
     if \<not> jsonb_has ''system_template'' c \<or> jsonb_has ''enabled'' c \<or> jsonb_has ''reason'' c then
       job\<lparr>cj_condition := JObj [(''system_template'',
              (case member ''system_template'' c of JUndefined \<Rightarrow> DISCOVERY_TEMPLATE | t \<Rightarrow> t))],
           cj_updated := now\<rparr>
     else job)"

fun seed_jobs :: "cron_env \<Rightarrow> int \<Rightarrow> int \<Rightarrow> cron_job list \<Rightarrow> cron_db \<Rightarrow> cron_db_error + cron_db" where
  "seed_jobs env from0 now [] s = Inr s"
| "seed_jobs env from0 now (job # jobs) s =
    (case (if cj_status job = ''published'' then map_sum id Some (nextRunAt (ce_zones env) (cj_expr job) ''Asia/Shanghai'' from0)
           else Inr None) of
       Inl e \<Rightarrow> Inl (ScheduleFailed e)
     | Inr next =>
        if list_ex (\<lambda>j. cj_id j = cj_id job) (cd_jobs s) then seed_jobs env from0 now jobs s
        else
          (case insert_cron_job (job\<lparr>cj_next := next, cj_created := now, cj_updated := now\<rparr>) s of
             Inl e \<Rightarrow> Inl e
           | Inr s' \<Rightarrow> seed_jobs env from0 now jobs s'))"

definition pgEnsureSystemCronJobs :: "cron_env \<Rightarrow> int \<Rightarrow> int \<Rightarrow> cron_db \<Rightarrow> cron_db_error + cron_db" where
  "pgEnsureSystemCronJobs env from0 now s =
    map_sum id (upd_cron_job ''cjob_discovery_search'' (backfill_discovery now)) (seed_jobs env from0 now SYSTEM_JOBS s)"

section \<open>Enqueueing by hand\<close>

definition pgEnqueueManualCronRun ::
  "cron_env \<Rightarrow> string \<Rightarrow> string option \<Rightarrow> string \<Rightarrow> string \<Rightarrow> string \<Rightarrow> int \<Rightarrow> cron_db
     \<Rightarrow> cron_db_error + (string \<times> bool) \<times> cron_db" where
  "pgEnqueueManualCronRun env jobId scheduledFor run_id exec_id obx_id now s =
    (case jobByIdIn s jobId of
       None \<Rightarrow> Inl CronJobMissing
     | Some job \<Rightarrow>
        (let slot = or_text scheduledFor (ce_iso env now @ ''#'' @ run_id);
             run = new_run run_id (cj_id job) ''manual'' slot now
         in case insert_run run s of
              Inl e \<Rightarrow> Inl e
            | Inr (False, s1) \<Rightarrow>
               Inr ((case run_in_slot s1 (cj_id job) slot of None \<Rightarrow> run_id | Some r \<Rightarrow> cr_id r, True), s1)
            | Inr (True, s1) \<Rightarrow> map_sum id (Pair (run_id, False)) (insertCronDispatch env job run now [] exec_id obx_id s1)))"

section \<open>The tick\<close>

definition TIMED_OUT :: utext where
  "TIMED_OUT = [36816, 34892, 36229, 26102, 65292, 31561, 24453, 25509, 31649]"

definition overdue_run :: "int \<Rightarrow> cron_run \<Rightarrow> cron_job \<Rightarrow> bool" where
  "overdue_run now run job \<longleftrightarrow>
    takeoverMinutes job * 60000 \<le> of_int (now - (case cr_started run of Some t \<Rightarrow> t | None \<Rightarrow> cr_created run))"

definition takeover_run :: "int \<Rightarrow> cron_job \<Rightarrow> cron_run \<Rightarrow> cron_run" where
  "takeover_run now job run =
    run\<lparr>cr_status := ''needs_takeover'', cr_finished := Some now, cr_error_code := Some ''stale_run'',
        cr_error_summary := Some TIMED_OUT,
        cr_receipt := Some (JObj [(''handler_key'', JStr (cj_handler job)), (''side_effect'', JStr ''unknown''),
          (''created_session'', JNull),
          (''session_id'', case or_null (cr_session run) of None \<Rightarrow> JNull | Some i \<Rightarrow> JStr i),
          (''reason'', JStr ''stale_run''), (''reconciliation_required'', JBool True)])\<rparr>"

fun mark_stale :: "int \<Rightarrow> (cron_run \<times> cron_job) list \<Rightarrow> nat \<Rightarrow> cron_db \<Rightarrow> nat \<times> cron_db" where
  "mark_stale now [] n s = (n, s)"
| "mark_stale now ((run, job) # rows) n s =
    (if overdue_run now run job then
       (let hit = (\<lambda>r. cr_id r = cr_id run \<and> cr_status r = ''running'')
        in mark_stale now rows (n + length (filter hit (cd_runs s)))
             (upd_cron_job (cj_id job)
                (\<lambda>j. j\<lparr>cj_last_status := Some ''needs_takeover'', cj_last_run := Some now, cj_updated := now\<rparr>)
                (upd_run hit (takeover_run now job) s)))
     else mark_stale now rows n s)"

definition running_rows :: "string list \<Rightarrow> cron_db \<Rightarrow> (cron_run \<times> cron_job) list" where
  "running_rows locked s =
    List.map_filter (\<lambda>r. map_option (Pair r) (find (\<lambda>j. cj_id j = cr_job r) (cd_jobs s)))
      (filter (\<lambda>r. cr_status r = ''running'' \<and> cr_id r \<notin> set locked \<and> cr_job r \<notin> set locked) (cd_runs s))"

definition due_cron_jobs :: "string list \<Rightarrow> int \<Rightarrow> cron_db \<Rightarrow> cron_job list" where
  "due_cron_jobs locked now s =
    sort_key (\<lambda>j. the (cj_next j))
      (filter (\<lambda>j. cj_status j = ''published'' \<and> (case cj_next j of None \<Rightarrow> False | Some t \<Rightarrow> t \<le> now)
                   \<and> cj_id j \<notin> set locked) (cd_jobs s))"

fun fire_due ::
  "cron_env \<Rightarrow> string \<Rightarrow> (string \<Rightarrow> string \<times> string \<times> string) \<Rightarrow> int \<Rightarrow> cron_job list \<Rightarrow> string list \<Rightarrow> cron_db
     \<Rightarrow> cron_db_error + string list \<times> cron_db" where
  "fire_due env policy ids now [] claimed s = Inr (claimed, s)"
| "fire_due env policy ids now (job # jobs) claimed s =
    (let slot = the (cj_next job); (run_id, exec_id, obx_id) = ids (cj_id job);
         run = new_run run_id (cj_id job) ''schedule'' (ce_iso env slot) now;
         advanceFrom = (if policy = ''coalesce'' then now else slot)
     in case insert_run run s of
          Inl e \<Rightarrow> Inl e
        | Inr (inserted, s1) \<Rightarrow>
          (case nextFor env job advanceFrom of
             Inl e \<Rightarrow> Inl (ScheduleFailed e)
           | Inr next \<Rightarrow>
             (let s2 = upd_cron_job (cj_id job) (\<lambda>j. j\<lparr>cj_next := next, cj_updated := now\<rparr>) s1 in
              if \<not> inserted then fire_due env policy ids now jobs claimed s2
              else
                (case insertCronDispatch env job run now
                        [(''schedule_dispatch'', JObj [(''missed_run_policy'', JStr policy), (''first_due_at'', JStr (ce_iso env slot)),
                           (''observed_at'', JStr (ce_iso env now)), (''advance_from'', JStr (ce_iso env advanceFrom)),
                           (''next_run_at'', case next of None \<Rightarrow> JNull | Some t \<Rightarrow> JStr (ce_iso env t))])]
                        exec_id obx_id s2 of
                   Inl e \<Rightarrow> Inl e
                 | Inr s3 \<Rightarrow> fire_due env policy ids now jobs (claimed @ [run_id]) s3))))"

definition tick_transaction ::
  "cron_env \<Rightarrow> string \<Rightarrow> string list \<Rightarrow> (string \<Rightarrow> string \<times> string \<times> string) \<Rightarrow> int \<Rightarrow> cron_db
     \<Rightarrow> cron_db_error + (string list \<times> bool) \<times> cron_db" where
  "tick_transaction env policy locked ids now s =
    (let (staleMarked, s1) = mark_stale now (running_rows locked s) 0 s in
     case fire_due env policy ids now (due_cron_jobs locked now s1) [] s1 of
       Inl e \<Rightarrow> Inl e
     | Inr (claimed, s2) \<Rightarrow> Inr ((claimed, 0 < staleMarked), s2))"

definition pgTickCronDue ::
  "cron_env \<Rightarrow> string option \<Rightarrow> bool option \<Rightarrow> string list \<Rightarrow> (string \<Rightarrow> string \<times> string \<times> string) \<Rightarrow> int \<Rightarrow> int \<Rightarrow> cron_db
     \<Rightarrow> (cron_db_error + string list \<times> bool) \<times> cron_db" where
  \<comment> \<open>two transactions: the second may fail after the first; \<open>clock\<close> is the time the first reads\<close>
  "pgTickCronDue env missed_run_policy ensure locked ids clock now s =
    (let policy = or_text missed_run_policy ''replay'' in
     if policy \<noteq> ''replay'' \<and> policy \<noteq> ''coalesce'' then (Inl InvalidPolicy, s)
     else
       (case (if ensure \<noteq> Some False then pgEnsureSystemCronJobs env now clock s else Inr s) of
          Inl e \<Rightarrow> (Inl e, s)
        | Inr s1 \<Rightarrow>
          (case tick_transaction env policy locked ids now s1 of
             Inl e \<Rightarrow> (Inl e, s1)
           | Inr (answer, s2) \<Rightarrow> (Inr answer, s2))))"

section \<open>Running\<close>

definition pgStartCronRun :: "string \<Rightarrow> int \<Rightarrow> cron_db \<Rightarrow> (cron_run option \<times> bool) \<times> cron_db" where
  "pgStartCronRun i now s =
    (case run_by_id s i of
       None \<Rightarrow> ((None, False), s)
     | Some r \<Rightarrow>
       if cr_status r = ''queued'' then
         (let f = (\<lambda>r. r\<lparr>cr_status := ''running'', cr_started := (case cr_started r of None \<Rightarrow> Some now | Some t \<Rightarrow> Some t)\<rparr>)
          in ((Some (f r), True), upd_run (\<lambda>r. cr_id r = i) f s))
       else ((Some r, False), s))"

record finish_input =
  fi_run :: string
  fi_status :: string
  fi_code :: "string option"
  fi_summary :: "utext option"
  fi_receipt :: "(string \<times> js) list option"
  fi_artifacts :: "(string \<times> js) list option"
  fi_session :: "string option"

definition finish_row :: "finish_input \<Rightarrow> int \<Rightarrow> cron_run \<Rightarrow> cron_run" where
  "finish_row input now r =
    r\<lparr>cr_status := fi_status input, cr_finished := Some now, cr_error_code := or_null (fi_code input),
      cr_error_summary := (case fi_summary input of Some [] \<Rightarrow> None | t \<Rightarrow> t),
      cr_receipt := Some (JObj (case fi_receipt input of None \<Rightarrow> [] | Some kvs \<Rightarrow> kvs)),
      cr_artifacts := map_option JObj (fi_artifacts input), cr_session := or_null (fi_session input)\<rparr>"

definition pgFinishCronRun :: "finish_input \<Rightarrow> int \<Rightarrow> cron_db \<Rightarrow> cron_run option \<times> cron_db" where
  "pgFinishCronRun input now s =
    (case run_by_id s (fi_run input) of
       None \<Rightarrow> (None, s)
     | Some r \<Rightarrow>
       (Some (finish_row input now r),
        upd_cron_job (cr_job r)
          (\<lambda>j. j\<lparr>cj_last_run := Some now, cj_last_status := Some (fi_status input), cj_updated := now\<rparr>)
          (upd_run (\<lambda>r. cr_id r = fi_run input) (finish_row input now) s)))"

end
