(* ===== verification/Cron_Worker.thy ===== *)
theory Cron_Worker
  imports Cron_Store
begin

text \<open>
  \<open>backend/src/cron/worker.ts\<close>: what a worker does with a claimed \<open>cron.run\<close> job.

  The registered handlers are an argument: a handler gets the job row and the run row and ends in an
  error message or a result, and may change the stored state in any way, which also stands for what
  other sessions commit while it runs.
\<close>

record handler_result =
  hr_status :: string
  hr_code :: "string option"
  hr_summary :: "utext option"
  hr_receipt :: "(string \<times> js) list option"
  hr_artifacts :: "(string \<times> js) list option"
  hr_session :: "string option"

type_synonym cron_handlers = "string \<Rightarrow> (cron_job \<Rightarrow> cron_run \<Rightarrow> cron_db \<Rightarrow> (utext + handler_result) \<times> cron_db) option"

datatype worker_error = CronRunNotFound | CronJobNotFound | InvalidCronPayload | CronStoreFailed job_error

definition CRON_TERMINAL :: "string set" where
  "CRON_TERMINAL = {''succeeded'', ''failed'', ''skipped'', ''needs_takeover''}"

definition cron_job_by_id :: "cron_db \<Rightarrow> string \<Rightarrow> cron_job option" where
  \<comment> \<open>\<open>pgCronJobById\<close>; the extra columns it reads are not used here\<close>
  "cron_job_by_id s i = find (\<lambda>j. cj_id j = i \<or> cj_key j = i) (cd_jobs s)"

definition failed_input :: "string \<Rightarrow> string \<Rightarrow> utext \<Rightarrow> string \<Rightarrow> finish_input" where
  "failed_input run_id code summary handler_key =
    \<lparr>fi_run = run_id, fi_status = ''failed'', fi_code = Some code, fi_summary = Some summary,
     fi_receipt = Some [(''created_session'', JBool False), (''handler_key'', JStr handler_key)],
     fi_artifacts = None, fi_session = None\<rparr>"

definition result_input :: "string \<Rightarrow> handler_result \<Rightarrow> finish_input" where
  "result_input run_id result =
    \<lparr>fi_run = run_id, fi_status = (if hr_status result \<in> CRON_TERMINAL then hr_status result else ''failed''),
     fi_code = hr_code result, fi_summary = hr_summary result, fi_receipt = hr_receipt result,
     fi_artifacts = hr_artifacts result, fi_session = hr_session result\<rparr>"

definition finish_or_missing :: "finish_input \<Rightarrow> int \<Rightarrow> cron_db \<Rightarrow> (worker_error + cron_run) \<times> cron_db" where
  "finish_or_missing input now s =
    (case pgFinishCronRun input now s of
       (None, s') \<Rightarrow> (Inl CronRunNotFound, s')
     | (Some run, s') \<Rightarrow> (Inr run, s'))"

definition NOT_FOUND_TEXT :: utext where
  "NOT_FOUND_TEXT = ascii_text ''cron run not found''"

definition settle_cron_run :: "string \<Rightarrow> string \<Rightarrow> utext + handler_result \<Rightarrow> int \<Rightarrow> cron_db \<Rightarrow> (worker_error + cron_run) \<times> cron_db" where
  \<comment> \<open>the end of the \<open>try\<close> and the \<open>catch\<close>, which also catches a run that is gone\<close>
  "settle_cron_run run_id handler_key outcome now s =
    (case outcome of
       Inl message \<Rightarrow> finish_or_missing (failed_input run_id ''handler_error'' message handler_key) now s
     | Inr result \<Rightarrow>
       (case finish_or_missing (result_input run_id result) now s of
          (Inr run, s') \<Rightarrow> (Inr run, s')
        | (Inl _, s') \<Rightarrow> finish_or_missing (failed_input run_id ''handler_error'' NOT_FOUND_TEXT handler_key) now s'))"

definition UNREGISTERED :: "string \<Rightarrow> utext" where
  "UNREGISTERED handler_key = [26410, 27880, 20876] @ ascii_text ('' handler: '' @ handler_key)"

definition executeCronRun :: "cron_handlers \<Rightarrow> string \<Rightarrow> int \<Rightarrow> cron_db \<Rightarrow> (worker_error + cron_run) \<times> cron_db" where
  "executeCronRun handlers run_id finishedAt s =
    (case run_by_id s run_id of
       None \<Rightarrow> (Inl CronRunNotFound, s)
     | Some run \<Rightarrow>
       (case cron_job_by_id s (cr_job run) of
          None \<Rightarrow> (Inl CronJobNotFound, s)
        | Some job \<Rightarrow>
          (case handlers (cj_handler job) of
             None \<Rightarrow> finish_or_missing (failed_input run_id ''unknown_handler'' (UNREGISTERED (cj_handler job)) (cj_handler job)) finishedAt s
           | Some handler \<Rightarrow>
             (let (outcome, s') = handler job run s in settle_cron_run run_id (cj_handler job) outcome finishedAt s'))))"

definition complete_claimed :: "string \<Rightarrow> string \<Rightarrow> int \<Rightarrow> cron_db \<Rightarrow> cron_db" where
  "complete_claimed i receipt now s = s\<lparr>cd_exec := snd (pgCompleteExecutionJob i receipt now None (cd_exec s))\<rparr>"

definition fail_claimed :: "string \<Rightarrow> string \<Rightarrow> utext \<Rightarrow> string \<Rightarrow> int \<Rightarrow> cron_db \<Rightarrow> job_error + cron_db" where
  "fail_claimed i code summary obx now s =
    (case pgFailExecutionJob i code summary \<lparr>fo_retry_at = None, fo_expected_worker = None, fo_not_dispatched = False\<rparr> obx now (cd_exec s) of
       Inl e \<Rightarrow> Inl e
     | Inr (j, e) \<Rightarrow> Inr (s\<lparr>cd_exec := e\<rparr>))"

definition fail_then :: "job_error + cron_db \<Rightarrow> worker_error + string \<Rightarrow> cron_db \<Rightarrow> (worker_error + string) \<times> cron_db" where
  "fail_then failed answer s = (case failed of Inl e \<Rightarrow> (Inl (CronStoreFailed e), s) | Inr s' \<Rightarrow> (answer, s'))"

definition receipt_object :: "js option \<Rightarrow> (string \<times> js) list" where
  "receipt_object v = (case v of Some (JObj kvs) \<Rightarrow> kvs | _ \<Rightarrow> [])"

definition settle_claimed ::
  "cron_env \<Rightarrow> string \<Rightarrow> string \<Rightarrow> cron_run \<Rightarrow> string \<Rightarrow> int \<Rightarrow> cron_db \<Rightarrow> (worker_error + string) \<times> cron_db" where
  \<comment> \<open>from the terminal run to the execution job\<close>
  "settle_claimed env claimed_id run_id terminal obx now s =
    (if cr_status terminal = ''failed'' then
       fail_then (fail_claimed claimed_id
                    (or_text (cr_error_code terminal) ''cron_handler_failed'')
                    (case cr_error_summary terminal of Some (c # t) \<Rightarrow> c # t | _ \<Rightarrow> ascii_text ''cron handler failed'')
                    obx now s)
         (Inr run_id) s
     else
       (Inr run_id,
        complete_claimed claimed_id
          (ce_json env (JObj [(''cron_run_id'', JStr run_id), (''cron_status'', JStr (cr_status terminal)),
             (''receipt'', JObj (receipt_object (cr_receipt terminal)))])) now s))"

record worker_clock =
  wc_start :: int
  wc_finish :: int
  wc_settle :: int

definition executeClaimedCronJob ::
  "cron_env \<Rightarrow> cron_handlers \<Rightarrow> job \<Rightarrow> string \<Rightarrow> worker_clock \<Rightarrow> cron_db \<Rightarrow> (worker_error + string) \<times> cron_db" where
  "executeClaimedCronJob env handlers claimed obx clock s =
    (let i = j_id claimed; run_id = ce_run_of env (j_payload claimed) in
     if run_id = [] then
       fail_then (fail_claimed i ''invalid_payload'' (ascii_text ''cron.run missing cron_run_id'') obx (wc_start clock) s)
         (Inl InvalidCronPayload) s
     else
       (case pgStartCronRun run_id (wc_start clock) s of
          ((None, _), s1) \<Rightarrow>
            fail_then (fail_claimed i ''cron_run_missing'' (ascii_text (''cron run missing: '' @ run_id)) obx (wc_start clock) s1)
              (Inl CronRunNotFound) s1
        | ((Some run, False), s1) \<Rightarrow>
            (if cr_status run \<in> CRON_TERMINAL then
               (Inr run_id,
                complete_claimed i
                  (ce_json env (JObj [(''cron_run_id'', JStr run_id), (''cron_status'', JStr (cr_status run)), (''duplicate'', JBool True)]))
                  (wc_settle clock) s1)
             else
               fail_then (fail_claimed i ''cron_run_not_queued'' (ascii_text (''cron run is '' @ cr_status run)) obx (wc_start clock) s1)
                 (Inr run_id) s1)
        | ((Some run, True), s1) \<Rightarrow>
            (case executeCronRun handlers run_id (wc_finish clock) s1 of
               (Inl e, s2) \<Rightarrow> (Inl e, s2)
             | (Inr terminal, s2) \<Rightarrow> settle_claimed env i run_id terminal obx (wc_settle clock) s2)))"

definition processNextCronExecutionJob ::
  "cron_env \<Rightarrow> cron_handlers \<Rightarrow> string \<Rightarrow> string list \<Rightarrow> int \<Rightarrow> string \<Rightarrow> worker_clock \<Rightarrow> cron_db
     \<Rightarrow> (worker_error + string option) \<times> cron_db" where
  "processNextCronExecutionJob env handlers workerId locked now obx clock s =
    (case pgClaimNextExecutionJob workerId [''cron.run''] None locked now (cd_exec s) of
       (None, e) \<Rightarrow> (Inr None, s\<lparr>cd_exec := e\<rparr>)
     | (Some claimed, e) \<Rightarrow>
       map_prod (map_sum id Some) id (executeClaimedCronJob env handlers claimed obx clock (s\<lparr>cd_exec := e\<rparr>)))"

definition processCronExecutionJobById ::
  "cron_env \<Rightarrow> cron_handlers \<Rightarrow> string \<Rightarrow> string \<Rightarrow> int \<Rightarrow> string \<Rightarrow> worker_clock \<Rightarrow> cron_db
     \<Rightarrow> (worker_error + string option) \<times> cron_db" where
  "processCronExecutionJobById env handlers i workerId now obx clock s =
    (case pgClaimExecutionJobById i workerId None now (cd_exec s) of
       (None, e) \<Rightarrow> (Inr None, s\<lparr>cd_exec := e\<rparr>)
     | (Some claimed, e) \<Rightarrow>
       map_prod (map_sum id Some) id (executeClaimedCronJob env handlers claimed obx clock (s\<lparr>cd_exec := e\<rparr>)))"

section \<open>Commands\<close>

text \<open>The transactions sessions interleave; a run is finished by \<open>settle_cron_run\<close> or as unregistered.\<close>

datatype cron_command =
    CEnsure int int
  | CCreate cron_job int
  | CUpdate string cron_update int
  | CManual string "string option" string string string int
  | CTick string "string list" "string \<Rightarrow> string \<times> string \<times> string" int
  | CStart string int
  | CSettle string string "utext + handler_result" int
  | CUnknown string string int
  | CExec job_command

datatype cron_answer =
    CNone | CRow cron_job | CEnqueued string bool | CTicked "string list" bool | CStarted bool | CRun "worker_error + cron_run"
  | CJobs job_answer

fun cron_handler ::
  "cron_env \<Rightarrow> (string \<Rightarrow> string \<Rightarrow> bool) \<Rightarrow> (cron_db, cron_command, cron_db_error, cron_answer) handler" where
  "cron_handler env jq s (CEnsure from0 now) = map_sum id (Pair CNone) (pgEnsureSystemCronJobs env from0 now s)"
| "cron_handler env jq s (CCreate row now) = map_sum id (map_prod CRow id) (pgCreateCronJob row now s)"
| "cron_handler env jq s (CUpdate i u now) = Inr (CNone, snd (pgUpdateCronJob i u now s))"
| "cron_handler env jq s (CManual j slot r e x now) =
     map_sum id (map_prod (\<lambda>(i, d). CEnqueued i d) id) (pgEnqueueManualCronRun env j slot r e x now s)"
| "cron_handler env jq s (CTick policy locked ids now) =
     map_sum id (map_prod (\<lambda>(c, st). CTicked c st) id) (tick_transaction env policy locked ids now s)"
| "cron_handler env jq s (CStart i now) = Inr (map_prod (\<lambda>(r, started). CStarted started) id (pgStartCronRun i now s))"
| "cron_handler env jq s (CSettle i k outcome now) = Inr (map_prod CRun id (settle_cron_run i k outcome now s))"
| "cron_handler env jq s (CUnknown i k now) =
     Inr (map_prod CRun id (finish_or_missing (failed_input i ''unknown_handler'' (UNREGISTERED k) k) now s))"
| "cron_handler env jq s (CExec c) =
     (case job_handler jq (cd_exec s) c of
        Inl e \<Rightarrow> Inl (JobsFailed e)
      | Inr (r, e) \<Rightarrow> Inr (CJobs r, s\<lparr>cd_exec := e\<rparr>))"

end
