(* ===== verification/Cron_Properties.thy ===== *)
theory Cron_Properties
  imports Cron_Worker
begin

text \<open>
  What the cron tables keep.  Every command moves the tables along \<open>cron_grows\<close>: job rows keep their
  keys, run rows keep their identity and never return to the queue, rows are only added, and the
  execution jobs keep their idempotency keys.  The facts of the contracts are stable along it.
\<close>

section \<open>How the tables move\<close>

definition job_same :: "cron_job \<Rightarrow> cron_job \<Rightarrow> bool" where
  "job_same j j' \<longleftrightarrow> cj_id j' = cj_id j \<and> cj_key j' = cj_key j"

definition run_moves :: "cron_run \<Rightarrow> cron_run \<Rightarrow> bool" where
  "run_moves r r' \<longleftrightarrow> cr_id r' = cr_id r \<and> cr_job r' = cr_job r \<and> cr_slot r' = cr_slot r
    \<and> (cr_status r \<noteq> ''queued'' \<longrightarrow> cr_status r' \<noteq> ''queued'')"

definition extends :: "('a \<Rightarrow> 'a \<Rightarrow> bool) \<Rightarrow> 'a list \<Rightarrow> 'a list \<Rightarrow> bool" where
  "extends R xs ys \<longleftrightarrow> (\<exists>zs new. list_all2 R xs zs \<and> ys = zs @ new)"

lemma extends_refl: "(\<And>x. R x x) \<Longrightarrow> extends R xs xs"
  unfolding extends_def by (intro exI [of _ xs] exI [of _ "[]"]) (simp add: list_all2_same)

lemma extends_append: "(\<And>x. R x x) \<Longrightarrow> extends R xs (xs @ ys)"
  unfolding extends_def by (intro exI [of _ xs] exI [of _ ys]) (simp add: list_all2_same)

lemma extends_map: "(\<And>x. R x (f x)) \<Longrightarrow> extends R xs (map f xs)"
  unfolding extends_def by (intro exI [of _ "map f xs"] exI [of _ "[]"]) (simp add: list_all2_map2 list_all2_same)

lemma extends_trans:
  assumes "extends R xs ys" and "extends R ys zs" and "\<And>a b c. R a b \<Longrightarrow> R b c \<Longrightarrow> R a c"
  shows "extends R xs zs"
proof -
  obtain ys1 n where y: "list_all2 R xs ys1" "ys = ys1 @ n" using assms(1) by (auto simp: extends_def)
  obtain zs1 m where z: "list_all2 R ys zs1" "zs = zs1 @ m" using assms(2) by (auto simp: extends_def)
  obtain u v where uv: "zs1 = u @ v" "list_all2 R ys1 u" using z(1) y(2) by (auto simp: list_all2_append1)
  have "list_all2 R xs u" using y(1) uv(2) by (rule list_all2_trans [of R R R, rotated]) (rule assms(3))
  then show ?thesis using z(2) uv(1) by (auto simp: extends_def)
qed

lemma extends_find:
  assumes "extends R xs ys" and "find p xs = Some x" and "\<And>a b. R a b \<Longrightarrow> p b \<longleftrightarrow> p a"
  shows "\<exists>y. find p ys = Some y \<and> R x y"
proof -
  obtain zs new where z: "list_all2 R xs zs" "ys = zs @ new" using assms(1) by (auto simp: extends_def)
  from z(1) assms(2) have "\<exists>y. find p (zs @ new) = Some y \<and> R x y"
    by (induction rule: list_all2_induct) (auto simp: assms(3) split: if_splits)
  then show ?thesis by (simp add: z(2))
qed

lemma extends_keys:
  assumes "extends R xs ys" and "\<And>a b. R a b \<Longrightarrow> k b = k a"
  shows "set (map k xs) \<subseteq> set (map k ys)"
proof -
  obtain zs new where z: "list_all2 R xs zs" "ys = zs @ new" using assms(1) by (auto simp: extends_def)
  from z(1) have "map k zs = map k xs" by (induction rule: list_all2_induct) (auto simp: assms(2))
  then have "set (map k zs) = set (map k xs)" by simp
  then show ?thesis by (simp add: z(2))
qed

definition exec_keys :: "cron_db \<Rightarrow> string set" where
  "exec_keys s = j_key ` set (db_jobs (cd_exec s))"

definition cron_grows :: "cron_db \<Rightarrow> cron_db \<Rightarrow> bool" where
  "cron_grows s s' \<longleftrightarrow> extends job_same (cd_jobs s) (cd_jobs s') \<and> extends run_moves (cd_runs s) (cd_runs s')
    \<and> exec_keys s \<subseteq> exec_keys s'"

lemma job_same_refl [simp]: "job_same j j" and run_moves_refl [simp]: "run_moves r r"
  by (simp_all add: job_same_def run_moves_def)

lemma cron_grows_refl [simp]: "cron_grows s s"
  by (simp add: cron_grows_def extends_refl)

lemma cron_grows_trans:
  assumes "cron_grows s t" and "cron_grows t u"
  shows "cron_grows s u"
  using assms unfolding cron_grows_def
  by (auto intro: extends_trans [of job_same] extends_trans [of run_moves] simp: job_same_def run_moves_def)

lemma exec_keys_upd [simp]: "exec_keys (upd_run p f s) = exec_keys s" "exec_keys (upd_cron_job i g s) = exec_keys s"
  "exec_keys (s\<lparr>cd_runs := rs\<rparr>) = exec_keys s" "exec_keys (s\<lparr>cd_jobs := js\<rparr>) = exec_keys s"
  by (simp_all add: exec_keys_def upd_run_def upd_cron_job_def)

section \<open>The invariant\<close>

definition cron_ok_but :: "string set \<Rightarrow> cron_db \<Rightarrow> bool" where
  \<comment> \<open>the runs in the set need no execution job yet\<close>
  "cron_ok_but X s \<longleftrightarrow>
     distinct (map cj_id (cd_jobs s)) \<and> distinct (map cj_key (cd_jobs s))
     \<and> distinct (map cr_id (cd_runs s)) \<and> distinct (map (\<lambda>r. (cr_job r, cr_slot r)) (cd_runs s))
     \<and> (\<forall>r \<in> set (cd_runs s). cr_job r \<in> cj_id ` set (cd_jobs s) \<and> (cr_id r \<notin> X \<longrightarrow> run_key (cr_id r) \<in> exec_keys s))
     \<and> db_ok (cd_exec s)"

abbreviation cron_ok :: "cron_db \<Rightarrow> bool" where
  "cron_ok \<equiv> cron_ok_but {}"

lemma map_if_same: "(\<And>x. k (f x) = k x) \<Longrightarrow> map k (map (\<lambda>x. if p x then f x else x) xs) = map k xs"
  by (induction xs) auto

lemma upd_cron_job_keeps:
  assumes "\<And>j. cj_id (f j) = cj_id j \<and> cj_key (f j) = cj_key j"
  shows "cron_grows s (upd_cron_job i f s)" and "cron_ok_but X s \<Longrightarrow> cron_ok_but X (upd_cron_job i f s)"
proof -
  show "cron_grows s (upd_cron_job i f s)"
    using assms by (auto simp: cron_grows_def upd_cron_job_def exec_keys_def job_same_def intro!: extends_map extends_refl)
  have k: "map cj_id (cd_jobs (upd_cron_job i f s)) = map cj_id (cd_jobs s)"
    "map cj_key (cd_jobs (upd_cron_job i f s)) = map cj_key (cd_jobs s)"
    using assms by (simp_all add: upd_cron_job_def map_if_same del: list.map_comp map_map)
  then have "cj_id ` set (cd_jobs (upd_cron_job i f s)) = cj_id ` set (cd_jobs s)" by (metis list.set_map)
  moreover have "cd_runs (upd_cron_job i f s) = cd_runs s" "cd_exec (upd_cron_job i f s) = cd_exec s" by (simp_all add: upd_cron_job_def)
  ultimately show "cron_ok_but X s \<Longrightarrow> cron_ok_but X (upd_cron_job i f s)"
    unfolding cron_ok_but_def k by simp
qed

lemma upd_run_keeps:
  assumes "\<And>r. p r \<Longrightarrow> run_moves r (f r)"
  shows "cron_grows s (upd_run p f s)" and "cron_ok_but X s \<Longrightarrow> cron_ok_but X (upd_run p f s)"
proof -
  let ?g = "\<lambda>r. if p r then f r else r"
  show "cron_grows s (upd_run p f s)"
    using assms by (auto simp: cron_grows_def upd_run_def exec_keys_def intro!: extends_map extends_refl)
  have same: "cr_id (?g r) = cr_id r" "cr_job (?g r) = cr_job r" "cr_slot (?g r) = cr_slot r" for r
    using assms by (auto simp: run_moves_def)
  have "map cr_id (map ?g rs) = map cr_id rs" "map (\<lambda>r. (cr_job r, cr_slot r)) (map ?g rs) = map (\<lambda>r. (cr_job r, cr_slot r)) rs" for rs
    by (simp_all only: list.map_comp comp_def same)
  moreover have "cd_runs (upd_run p f s) = map ?g (cd_runs s)" "cd_jobs (upd_run p f s) = cd_jobs s" "cd_exec (upd_run p f s) = cd_exec s"
    by (simp_all add: upd_run_def)
  moreover have "(\<forall>r \<in> set (map ?g (cd_runs s)). cr_job r \<in> cj_id ` set (cd_jobs s) \<and> (cr_id r \<notin> X \<longrightarrow> run_key (cr_id r) \<in> exec_keys s))
      \<longleftrightarrow> (\<forall>r \<in> set (cd_runs s). cr_job r \<in> cj_id ` set (cd_jobs s) \<and> (cr_id r \<notin> X \<longrightarrow> run_key (cr_id r) \<in> exec_keys s))"
    by (simp only: list.set_map ball_simps same)
  ultimately show "cron_ok_but X s \<Longrightarrow> cron_ok_but X (upd_run p f s)"
    unfolding cron_ok_but_def exec_keys_upd by (simp only: simp_thms) blast
qed

lemma insert_cron_job_keeps:
  assumes "insert_cron_job row s = Inr s'"
  shows "cron_grows s s'" and "cron_ok_but X s \<Longrightarrow> cron_ok_but X s'"
  using assms
  by (auto simp: insert_cron_job_def cron_grows_def cron_ok_but_def list_ex_iff image_iff exec_keys_def
      intro!: extends_append extends_refl split: if_splits) metis+

lemma find_None_keys: "find p xs = None \<longleftrightarrow> (\<forall>x \<in> set xs. \<not> p x)"
  by (induction xs) auto

lemma insert_run_keeps:
  assumes "insert_run run s = Inr (inserted, s')"
  shows "cron_grows s s'" and "\<not> inserted \<Longrightarrow> s' = s"
    and "cron_ok s \<Longrightarrow> cr_job run \<in> cj_id ` set (cd_jobs s) \<Longrightarrow> cron_ok_but {cr_id run} s'"
    and "inserted \<Longrightarrow> run_by_id s (cr_id run) = None \<and> s' = s\<lparr>cd_runs := cd_runs s @ [run]\<rparr>"
  using assms
  by (auto simp: insert_run_def cron_grows_def cron_ok_but_def run_by_id_def run_in_slot_def find_None_keys image_iff
      intro!: extends_append extends_refl split: if_splits option.splits) metis+

lemma dispatched_ok [simp]: "job_ok (dispatched_job env job run i now extra)"
  "j_id (dispatched_job env job run i now extra) = i" "j_key (dispatched_job env job run i now extra) = run_key (cr_id run)"
  by (simp_all add: dispatched_job_def job_ok_def no_lease_def highRisk_def)

lemma dispatch_keeps:
  assumes "insertCronDispatch env job run now extra e x s = Inr s'"
  shows "cron_grows s s'" and "cd_jobs s' = cd_jobs s" and "cd_runs s' = cd_runs s"
    and "run_key (cr_id run) \<in> exec_keys s'" and "db_ok (cd_exec s) \<Longrightarrow> db_ok (cd_exec s')"
proof -
  let ?e = "cd_exec s" and ?row = "dispatched_job env job run e now extra"
  define r where "r = new_outbox x e ''cron.run_queued'' ''cron_run'' (cr_id run)
    (RawJson (ce_json env (JObj ([(''cron_job_id'', JStr (cj_id job)), (''trigger'', JStr (cr_trigger run)),
       (''scheduled_for'', JStr (cr_slot run))] @ extra)))) (''execution-job:'' @ run_key (cr_id run) @ '':queued'') now now"
  have ok: "outbox_ok r" by (simp add: r_def)
  consider (there) "run_key (cr_id run) \<in> exec_keys s" "s' = s"
    | (new) e' where "run_key (cr_id run) \<notin> exec_keys s" "e \<notin> set (map j_id (db_jobs ?e))"
        "add_outbox r (?e\<lparr>db_jobs := db_jobs ?e @ [?row]\<rparr>) = Inr e'" "s' = s\<lparr>cd_exec := e'\<rparr>"
  proof (cases "list_ex (\<lambda>j. j_key j = run_key (cr_id run)) (db_jobs ?e)")
    case True
    then have "s' = s" using assms by (simp add: insertCronDispatch_def)
    moreover have "run_key (cr_id run) \<in> exec_keys s" using True unfolding exec_keys_def list_ex_iff by (metis imageI)
    ultimately show ?thesis by (intro that(1))
  next
    case False
    then have "run_key (cr_id run) \<notin> exec_keys s" by (auto simp: exec_keys_def list_ex_iff)
    moreover have "(if list_ex (\<lambda>j. j_id j = e) (db_jobs ?e) then Inl (JobsFailed PrimaryKeyConflict)
        else case add_outbox r (?e\<lparr>db_jobs := db_jobs ?e @ [?row]\<rparr>) of
               Inl err \<Rightarrow> Inl (JobsFailed err) | Inr e' \<Rightarrow> Inr (s\<lparr>cd_exec := e'\<rparr>)) = Inr s'"
      using assms by (simp only: insertCronDispatch_def Let_def False if_False r_def)
    then obtain e' where "\<not> list_ex (\<lambda>j. j_id j = e) (db_jobs ?e)" "add_outbox r (?e\<lparr>db_jobs := db_jobs ?e @ [?row]\<rparr>) = Inr e'"
      "s' = s\<lparr>cd_exec := e'\<rparr>"
      by (cases "add_outbox r (?e\<lparr>db_jobs := db_jobs ?e @ [?row]\<rparr>)") (simp_all split: if_splits)
    ultimately show ?thesis by (intro that(2)) (auto simp: list_ex_iff)
  qed
  then have "cron_grows s s' \<and> cd_jobs s' = cd_jobs s \<and> cd_runs s' = cd_runs s \<and> run_key (cr_id run) \<in> exec_keys s'
    \<and> (db_ok (cd_exec s) \<longrightarrow> db_ok (cd_exec s'))"
  proof cases
    case new
    have jobs: "db_jobs e' = db_jobs ?e @ [?row]" using add_outbox_jobs [OF new(3)] by simp
    have "db_ok ?e \<longrightarrow> db_ok e'"
    proof
      assume ok_e: "db_ok ?e"
      then have "outbox_fine (?e\<lparr>db_jobs := db_jobs ?e @ [?row]\<rparr>)" by (simp add: outbox_fine_def db_ok_def)
      from add_outbox_fine [OF this ok new(3)] have "outbox_fine e'" .
      then show "db_ok e'" using ok_e new(1,2) by (auto simp: db_ok_def outbox_fine_def jobs exec_keys_def image_iff)
    qed
    then show ?thesis using new(4) jobs by (auto simp: cron_grows_def exec_keys_def intro: extends_refl)
  qed simp
  then show "cron_grows s s'" "cd_jobs s' = cd_jobs s" "cd_runs s' = cd_runs s" "run_key (cr_id run) \<in> exec_keys s'"
    "db_ok (cd_exec s) \<Longrightarrow> db_ok (cd_exec s')" by blast+
qed

lemma dispatch_ok:
  assumes "insertCronDispatch env job run now extra e x s = Inr s'" and "cron_ok_but {cr_id run} s"
  shows "cron_ok s'"
proof -
  note k = dispatch_keeps [OF assms(1)]
  have "exec_keys s \<subseteq> exec_keys s'" using k(1) by (simp add: cron_grows_def)
  then show ?thesis using assms(2) k(4,5) unfolding cron_ok_but_def k(2,3) by (metis empty_iff singletonD subsetD)
qed

section \<open>Every command keeps the invariant\<close>

definition cron_keeps :: "cron_db \<Rightarrow> cron_db \<Rightarrow> bool" where
  "cron_keeps s s' \<longleftrightarrow> (cron_ok s \<longrightarrow> cron_grows s s' \<and> cron_ok s')"

lemma cron_keeps_refl [simp]: "cron_keeps s s"
  by (simp add: cron_keeps_def)

lemma cron_keeps_trans: "cron_keeps s t \<Longrightarrow> cron_keeps t u \<Longrightarrow> cron_keeps s u"
  unfolding cron_keeps_def by (blast intro: cron_grows_trans)

lemma cron_keeps_cron_job: "(\<And>j. cj_id (f j) = cj_id j \<and> cj_key (f j) = cj_key j) \<Longrightarrow> cron_keeps s (upd_cron_job i f s)"
  by (simp add: cron_keeps_def upd_cron_job_keeps)

lemma cron_keeps_run: "(\<And>r. p r \<Longrightarrow> run_moves r (f r)) \<Longrightarrow> cron_keeps s (upd_run p f s)"
  by (simp add: cron_keeps_def upd_run_keeps)

lemma cron_keeps_insert_job: "insert_cron_job row s = Inr s' \<Longrightarrow> cron_keeps s s'"
  by (simp add: cron_keeps_def insert_cron_job_keeps)

lemma mark_stale_keeps: "mark_stale now rows n s = (n', s') \<Longrightarrow> cron_keeps s s'"
proof (induction now rows n s rule: mark_stale.induct)
  case (2 now run job rows n s)
  let ?hit = "\<lambda>r. cr_id r = cr_id run \<and> cr_status r = ''running''"
  have "run_moves r (takeover_run now job r)" for r by (simp add: run_moves_def takeover_run_def)
  then have "cron_keeps s (upd_run ?hit (takeover_run now job) s)" by (intro cron_keeps_run)
  moreover have "cron_keeps t (upd_cron_job i (\<lambda>j. j\<lparr>cj_last_status := a, cj_last_run := b, cj_updated := c\<rparr>) t)" for t i a b c
    by (rule cron_keeps_cron_job) simp
  ultimately show ?case using 2 by (auto simp: Let_def split: if_splits) (meson cron_keeps_trans)
qed simp

definition advance_from :: "string \<Rightarrow> int \<Rightarrow> cron_job \<Rightarrow> int" where
  "advance_from policy now job = (if policy = ''coalesce'' then now else the (cj_next job))"

lemma fire_step:
  assumes "fire_due env policy ids now (job # jobs) claimed s = Inr (r, s')"
  obtains next' claimed' s3 where "nextFor env job (advance_from policy now job) = Inr next'"
    and "fire_due env policy ids now jobs claimed' s3 = Inr (r, s')"
    and "cd_jobs s3 = cd_jobs (upd_cron_job (cj_id job) (\<lambda>j. j\<lparr>cj_next := next', cj_updated := now\<rparr>) s)"
    and "\<exists>new. cd_runs s3 = cd_runs s @ new"
    and "cj_id job \<in> cj_id ` set (cd_jobs s) \<Longrightarrow> cron_keeps s s3"
proof -
  obtain run_id exec_id obx_id where ids: "ids (cj_id job) = (run_id, exec_id, obx_id)" by (cases "ids (cj_id job)") auto
  define run where "run = new_run run_id (cj_id job) ''schedule'' (ce_iso env (the (cj_next job))) now"
  let ?from0 = "advance_from policy now job"
  obtain inserted s1 where s1: "insert_run run s = Inr (inserted, s1)"
    using assms by (auto simp: Let_def ids run_def split: sum.splits)
  obtain next' where next': "nextFor env job ?from0 = Inr next'"
    using assms s1 by (auto simp: Let_def ids run_def advance_from_def split: sum.splits)
  define s2 where "s2 = upd_cron_job (cj_id job) (\<lambda>j. j\<lparr>cj_next := next', cj_updated := now\<rparr>) s1"
  define extra where "extra = [(''schedule_dispatch'', JObj [(''missed_run_policy'', JStr policy),
     (''first_due_at'', JStr (ce_iso env (the (cj_next job)))),
     (''observed_at'', JStr (ce_iso env now)), (''advance_from'', JStr (ce_iso env ?from0)),
     (''next_run_at'', case next' of None \<Rightarrow> JNull | Some t \<Rightarrow> JStr (ce_iso env t))])]"
  have rest: "\<not> inserted \<Longrightarrow> fire_due env policy ids now jobs claimed s2 = Inr (r, s')"
    "inserted \<Longrightarrow> \<exists>s3. insertCronDispatch env job run now extra exec_id obx_id s2 = Inr s3
       \<and> fire_due env policy ids now jobs (claimed @ [run_id]) s3 = Inr (r, s')"
    using assms s1 next'
    by (simp_all add: Let_def ids run_def [symmetric] advance_from_def [symmetric] s2_def extra_def split: sum.splits)
  have up: "cron_grows s1 s2" "\<And>X. cron_ok_but X s1 \<Longrightarrow> cron_ok_but X s2"
    unfolding s2_def by (rule upd_cron_job_keeps, simp)+
  have run: "cr_job run = cj_id job" "cr_id run = run_id" by (simp_all add: run_def new_run_def)
  have jobs: "cd_jobs s2 = cd_jobs (upd_cron_job (cj_id job) (\<lambda>j. j\<lparr>cj_next := next', cj_updated := now\<rparr>) s)"
    "\<exists>new. cd_runs s2 = cd_runs s @ new"
    using insert_run_keeps(2,4) [OF s1] by (cases inserted; simp add: s2_def upd_cron_job_def)+
  show ?thesis
  proof (cases inserted)
    case False
    then have "s1 = s" using insert_run_keeps(2) [OF s1] by simp
    then show ?thesis using that [OF next' rest(1) jobs] up False by (simp add: cron_keeps_def)
  next
    case True
    then obtain s3 where s3: "insertCronDispatch env job run now extra exec_id obx_id s2 = Inr s3"
      "fire_due env policy ids now jobs (claimed @ [run_id]) s3 = Inr (r, s')" using rest(2) by blast
    note d = dispatch_keeps [OF s3(1)]
    have g: "cron_grows s s3" using insert_run_keeps(1) [OF s1] up(1) d(1) by (blast intro: cron_grows_trans)
    show ?thesis
    proof (rule that [OF next' s3(2)])
      show "cj_id job \<in> cj_id ` set (cd_jobs s) \<Longrightarrow> cron_keeps s s3"
        unfolding cron_keeps_def using g insert_run_keeps(3) [OF s1] up(2) dispatch_ok [OF s3(1)] by (simp add: run)
    qed (use jobs d(2,3) in simp_all)
  qed
qed

lemma fire_due_keeps:
  "fire_due env policy ids now jobs claimed s = Inr (r, s') \<Longrightarrow> (\<forall>job \<in> set jobs. cj_id job \<in> cj_id ` set (cd_jobs s)) \<Longrightarrow>
    cron_keeps s s'"
proof (induction jobs arbitrary: claimed s)
  case (Cons job jobs)
  from Cons.prems(1) obtain next' claimed' s3 where
    s3: "fire_due env policy ids now jobs claimed' s3 = Inr (r, s')"
      "cd_jobs s3 = cd_jobs (upd_cron_job (cj_id job) (\<lambda>j. j\<lparr>cj_next := next', cj_updated := now\<rparr>) s)" "cron_keeps s s3"
    using Cons.prems(2) by (elim fire_step) simp
  have "map cj_id (cd_jobs s3) = map cj_id (cd_jobs s)"
    by (simp add: s3(2) upd_cron_job_def map_if_same del: map_map list.map_comp)
  then have "cj_id ` set (cd_jobs s3) = cj_id ` set (cd_jobs s)" by (metis list.set_map)
  then have "cron_keeps s3 s'" using Cons.IH [OF s3(1)] Cons.prems(2) by simp
  with s3(3) show ?case by (rule cron_keeps_trans)
qed simp

lemma due_ids: "job \<in> set (due_cron_jobs locked now s) \<Longrightarrow> job \<in> set (cd_jobs s)"
  by (simp add: due_cron_jobs_def)

lemma tick_keeps: "tick_transaction env policy locked ids now s = Inr (r, s') \<Longrightarrow> cron_keeps s s'"
  by (auto simp: tick_transaction_def split: prod.splits sum.splits
      intro!: cron_keeps_trans [OF mark_stale_keeps fire_due_keeps] dest: due_ids)

lemma seed_keeps: "seed_jobs env from0 now jobs s = Inr s' \<Longrightarrow> cron_keeps s s'"
proof (induction env from0 now jobs s rule: seed_jobs.induct)
  case (2 env from0 now job jobs s)
  then show ?case by (auto split: sum.splits if_splits intro: cron_keeps_trans [OF cron_keeps_insert_job])
qed simp

lemma ensure_keeps: "pgEnsureSystemCronJobs env from0 now s = Inr s' \<Longrightarrow> cron_keeps s s'"
  by (auto simp: pgEnsureSystemCronJobs_def backfill_discovery_def Let_def map_sum_def split: sum.splits
      intro!: cron_keeps_trans [OF seed_keeps cron_keeps_cron_job])

lemma manual_keeps:
  assumes "pgEnqueueManualCronRun env jobId slot0 run_id e x now s = Inr (r, s')"
  shows "cron_keeps s s'"
proof -
  obtain job where job: "jobByIdIn s jobId = Some job" using assms by (auto simp: pgEnqueueManualCronRun_def split: option.splits)
  define run where "run = new_run run_id (cj_id job) ''manual'' (or_text slot0 (ce_iso env now @ ''#'' @ run_id)) now"
  obtain inserted s1 where s1: "insert_run run s = Inr (inserted, s1)"
    using assms job by (auto simp: pgEnqueueManualCronRun_def Let_def run_def split: sum.splits)
  have here: "cr_job run \<in> cj_id ` set (cd_jobs s)"
    using job by (auto simp: jobByIdIn_def run_def new_run_def dest!: find_SomeD)
  show ?thesis
  proof (cases inserted)
    case False
    then show ?thesis using assms job s1 insert_run_keeps(2) [OF s1]
      by (auto simp: pgEnqueueManualCronRun_def Let_def run_def split: option.splits)
  next
    case True
    then have "insertCronDispatch env job run now [] e x s1 = Inr s'"
      using assms job s1 by (auto simp: pgEnqueueManualCronRun_def Let_def run_def map_sum_def split: sum.splits)
    then show ?thesis using insert_run_keeps(1,3) [OF s1] here dispatch_keeps(1) dispatch_ok
      by (auto simp: cron_keeps_def intro: cron_grows_trans)
  qed
qed

lemma start_keeps: "cron_keeps s (snd (pgStartCronRun i now s))"
  by (auto simp: pgStartCronRun_def Let_def run_moves_def split: option.splits intro!: cron_keeps_run)

lemma finish_keeps: "fi_status input \<noteq> ''queued'' \<Longrightarrow> cron_keeps s (snd (pgFinishCronRun input now s))"
  by (auto simp: pgFinishCronRun_def finish_row_def run_moves_def split: option.splits
      intro!: cron_keeps_trans [OF cron_keeps_run cron_keeps_cron_job])

lemma finish_or_missing_snd [simp]: "snd (finish_or_missing input now s) = snd (pgFinishCronRun input now s)"
  by (simp add: finish_or_missing_def split: prod.splits option.splits)

lemma failed_status [simp]: "fi_status (failed_input r c t k) = ''failed''" "fi_run (failed_input r c t k) = r"
  "fi_run (result_input r result) = r"
  by (simp_all add: failed_input_def result_input_def)

lemma result_status: "fi_status (result_input r result) \<in> CRON_TERMINAL"
  by (simp add: result_input_def CRON_TERMINAL_def)

lemma terminal_not_queued: "st \<in> CRON_TERMINAL \<Longrightarrow> st \<noteq> ''queued''"
  by (auto simp: CRON_TERMINAL_def)

lemma settle_keeps: "cron_keeps s (snd (settle_cron_run i k outcome now s))"
proof (cases outcome)
  case (Inl m)
  then show ?thesis by (simp add: settle_cron_run_def finish_keeps)
next
  case (Inr result)
  have one: "cron_keeps s (snd (finish_or_missing (result_input i result) now s))"
    by (simp add: finish_keeps terminal_not_queued [OF result_status])
  have two: "cron_keeps t (snd (finish_or_missing (failed_input i c m k) now t))" for t c m by (simp add: finish_keeps)
  show ?thesis using Inr one two
    by (cases "finish_or_missing (result_input i result) now s"; cases "fst (finish_or_missing (result_input i result) now s)")
      (auto simp: settle_cron_run_def intro: cron_keeps_trans)
qed

lemma exec_keeps:
  assumes "job_handler jq (cd_exec s) c = Inr (r, e)"
  shows "cron_keeps s (s\<lparr>cd_exec := e\<rparr>)"
  unfolding cron_keeps_def
proof
  assume ok: "cron_ok s"
  then have dok: "db_ok (cd_exec s)" by (simp add: cron_ok_but_def)
  obtain js1 new where g: "list_all2 job_moves\<^sup>*\<^sup>* (db_jobs (cd_exec s)) js1" "db_jobs e = js1 @ new"
    using handler_grown [OF dok assms] unfolding grown_def by blast
  have "set (map j_key (db_jobs (cd_exec s))) = set (map j_key js1)" using moved_ids [OF g(1)] by simp
  then have keys: "exec_keys s \<subseteq> exec_keys (s\<lparr>cd_exec := e\<rparr>)" by (auto simp: exec_keys_def g(2))
  then show "cron_grows s (s\<lparr>cd_exec := e\<rparr>) \<and> cron_ok (s\<lparr>cd_exec := e\<rparr>)"
    using ok db_preserved [OF dok assms] by (auto simp: cron_grows_def cron_ok_but_def intro: extends_refl)
qed

lemma update_keeps: "cron_keeps s (snd (pgUpdateCronJob i u now s))"
  by (simp add: pgUpdateCronJob_def Let_def cron_keeps_cron_job)

lemma answered_snd: "map_prod f id x = (r, s') \<Longrightarrow> s' = snd x"
  by (cases x) simp

lemma cron_handler_keeps: "cron_handler env jq s c = Inr (r, s') \<Longrightarrow> cron_keeps s s'"
  by (cases c)
    (auto simp: map_sum_def pgCreateCronJob_def Let_def finish_keeps split: sum.splits dest!: answered_snd
      intro: ensure_keeps manual_keeps tick_keeps exec_keeps cron_keeps_insert_job update_keeps start_keeps settle_keeps)

interpretation cg: guarded_machine "cron_handler env jq" cron_ok for env jq
  by unfold_locales (use cron_handler_keeps cron_keeps_def in blast)

section \<open>Recorded facts\<close>

definition empty_cron :: cron_db where
  "empty_cron = \<lparr>cd_jobs = [], cd_runs = [], cd_exec = empty_db\<rparr>"

lemma empty_cron_ok [simp]: "cron_ok empty_cron"
  by (simp add: empty_cron_def cron_ok_but_def)

definition slot_run :: "cron_db \<Rightarrow> string \<times> string \<Rightarrow> string option" where
  "slot_run s k = map_option cr_id (run_in_slot s (fst k) (snd k))"

definition started_fact :: "cron_db \<Rightarrow> string \<Rightarrow> unit option" where
  "started_fact s i = (case run_by_id s i of Some r \<Rightarrow> if cr_status r \<noteq> ''queued'' then Some () else None | None \<Rightarrow> None)"

lemma slot_recorded:
  assumes "cron_ok s" and "cron_handler env jq s c = Inr (r, s')" and "slot_run s k = Some i"
  shows "slot_run s' k = Some i"
proof -
  obtain x where x: "run_in_slot s (fst k) (snd k) = Some x" "cr_id x = i" using assms(3) by (auto simp: slot_run_def)
  have "extends run_moves (cd_runs s) (cd_runs s')"
    using cron_handler_keeps [OF assms(2)] assms(1) by (simp add: cron_keeps_def cron_grows_def)
  from extends_find [OF this x(1) [unfolded run_in_slot_def]] show ?thesis
    using x(2) by (auto simp: slot_run_def run_in_slot_def run_moves_def)
qed

lemma started_recorded:
  assumes "cron_ok s" and "cron_handler env jq s c = Inr (r, s')" and "started_fact s i = Some u"
  shows "started_fact s' i = Some u"
proof -
  obtain x where x: "run_by_id s i = Some x" "cr_status x \<noteq> ''queued''"
    using assms(3) by (auto simp: started_fact_def split: option.splits if_splits)
  have "extends run_moves (cd_runs s) (cd_runs s')"
    using cron_handler_keeps [OF assms(2)] assms(1) by (simp add: cron_keeps_def cron_grows_def)
  from extends_find [OF this x(1) [unfolded run_by_id_def]] show ?thesis
    using x(2) by (auto simp: started_fact_def run_by_id_def run_moves_def)
qed

interpretation cs: ledger_machine "cron_handler env jq" cron_ok slot_run for env jq
  by unfold_locales (rule slot_recorded)

interpretation cf: ledger_machine "cron_handler env jq" cron_ok started_fact for env jq
  by unfold_locales (rule started_recorded)

section \<open>Properties of the tables\<close>

text \<open>
  C35. Whatever sequence of commands was served, a cron job has at most one run in a slot, and every
  run belongs to a job and is announced by exactly one execution job, the one that carries the key of
  the run.
\<close>

theorem cron_runs_unique:
  assumes "serves (cron_handler env jq) empty_cron s" and "r \<in> set (cd_runs s)"
  shows "(\<forall>r' \<in> set (cd_runs s). cr_job r' = cr_job r \<and> cr_slot r' = cr_slot r \<longrightarrow> r' = r)
    \<and> (\<exists>job \<in> set (cd_jobs s). cj_id job = cr_job r)
    \<and> (\<exists>!j. j \<in> set (db_jobs (cd_exec s)) \<and> j_key j = run_key (cr_id r))"
proof -
  have ok: "cron_ok s" using assms(1) empty_cron_ok by (rule cg.serves_inv)
  have "inj_on (\<lambda>r. (cr_job r, cr_slot r)) (set (cd_runs s))" using ok by (simp add: cron_ok_but_def distinct_map)
  then have "\<forall>r' \<in> set (cd_runs s). cr_job r' = cr_job r \<and> cr_slot r' = cr_slot r \<longrightarrow> r' = r"
    using assms(2) by (auto dest: inj_onD)
  moreover have "\<exists>job \<in> set (cd_jobs s). cj_id job = cr_job r" using ok assms(2) by (force simp: cron_ok_but_def)
  moreover have "\<exists>!j. j \<in> set (db_jobs (cd_exec s)) \<and> j_key j = run_key (cr_id r)"
  proof -
    have "inj_on j_key (set (db_jobs (cd_exec s)))" using ok by (simp add: cron_ok_but_def db_ok_def distinct_map)
    moreover have "run_key (cr_id r) \<in> j_key ` set (db_jobs (cd_exec s))" using ok assms(2) by (simp add: cron_ok_but_def exec_keys_def)
    then obtain j where "j \<in> set (db_jobs (cd_exec s))" "j_key j = run_key (cr_id r)" by force
    ultimately show ?thesis by (intro ex1I [of _ j]) (auto elim: inj_onD)
  qed
  ultimately show ?thesis by blast
qed

lemma manual_replay:
  assumes "slot_run s (cj_id job, slot) = Some i" and "jobByIdIn s jobId = Some job" and "slot \<noteq> []"
  shows "pgEnqueueManualCronRun env jobId (Some slot) run_id e x now s = Inr ((i, True), s)"
proof -
  have "or_text (Some slot) d = slot" for d using assms(3) by (cases slot) (simp_all add: or_text_def or_null_def)
  moreover obtain r where "run_in_slot s (cj_id job) slot = Some r" "cr_id r = i" using assms(1) by (auto simp: slot_run_def)
  ultimately show ?thesis using assms(2) by (simp add: pgEnqueueManualCronRun_def insert_run_def new_run_def)
qed

text \<open>
  A slot is dispatched once: when a job has a run in a slot, whatever is served afterwards,
  asking again for a run of the job in that slot changes nothing and answers with the first run.
\<close>

theorem cron_slot_dispatched_once:
  assumes "cron_ok s" and "run_in_slot s (cj_id job) slot = Some r" and "serves (cron_handler env jq) s s'"
    and "jobByIdIn s' jobId = Some job'" and "cj_id job' = cj_id job" and "slot \<noteq> []"
  shows "pgEnqueueManualCronRun env jobId (Some slot) run_id e x now s' = Inr ((cr_id r, True), s')"
proof (rule manual_replay [OF _ assms(4,6)])
  have "slot_run s (cj_id job, slot) = Some (cr_id r)" using assms(2) by (simp add: slot_run_def)
  from cs.serves_fact [OF assms(3,1) this] show "slot_run s' (cj_id job', slot) = Some (cr_id r)" by (simp add: assms(5))
qed

lemma started_not_queued: "started_fact s i = Some u \<longleftrightarrow> (\<exists>r. run_by_id s i = Some r \<and> cr_status r \<noteq> ''queued'')"
  by (auto simp: started_fact_def split: option.splits if_splits)

lemma run_by_id_map:
  assumes "run_by_id s i = Some r" and "\<And>r. cr_id (f r) = cr_id r"
  shows "run_by_id (upd_run (\<lambda>r. cr_id r = i) f s) i = Some (f r)"
proof -
  have "find (\<lambda>r. cr_id r = i) xs = Some r \<Longrightarrow> find (\<lambda>r. cr_id r = i) (map (\<lambda>r. if cr_id r = i then f r else r) xs) = Some (f r)" for xs
    by (induction xs) (auto simp: assms(2) split: if_splits)
  then show ?thesis using assms(1) by (simp add: run_by_id_def upd_run_def)
qed

lemma start_started:
  assumes "pgStartCronRun i now s = ((run, True), s')"
  shows "started_fact s' i = Some ()"
proof -
  obtain r where r: "run_by_id s i = Some r" "cr_status r = ''queued''"
    "s' = upd_run (\<lambda>r. cr_id r = i) (\<lambda>r. r\<lparr>cr_status := ''running'',
       cr_started := (case cr_started r of None \<Rightarrow> Some now | Some t \<Rightarrow> Some t)\<rparr>) s"
    using assms by (auto simp: pgStartCronRun_def Let_def split: option.splits if_splits)
  show ?thesis using run_by_id_map [OF r(1)] by (simp add: started_not_queued r(3))
qed

lemma execute_started:
  assumes "run_by_id s (ce_run_of env (j_payload claimed)) = Some r" and "cr_status r \<noteq> ''queued''"
  shows "executeClaimedCronJob env handlers claimed obx clock s = executeClaimedCronJob env handlers' claimed obx clock s"
  using assms by (simp add: executeClaimedCronJob_def Let_def pgStartCronRun_def)

text \<open>
  C36. The handler of a cron run is called at most once: after a run was started, whatever is served
  afterwards, it cannot be started again, and a worker that is handed its execution job another time
  does the same whatever handlers are registered, so it calls none.
\<close>

theorem cron_handler_called_once:
  assumes "cron_ok s" and "pgStartCronRun i now s = ((run, True), s1)" and "serves (cron_handler env jq) s1 s2"
  shows "\<not> snd (fst (pgStartCronRun i now' s2))
    \<and> (ce_run_of env (j_payload claimed) = i \<longrightarrow>
         executeClaimedCronJob env handlers claimed obx clock s2 = executeClaimedCronJob env handlers' claimed obx clock s2)"
proof -
  have "cron_ok s1" using start_keeps [of s i now] assms(1,2) by (simp add: cron_keeps_def)
  then have "started_fact s2 i = Some ()" by (rule cf.serves_fact [OF assms(3) _ start_started [OF assms(2)]])
  then obtain r where r: "run_by_id s2 i = Some r" "cr_status r \<noteq> ''queued''" by (auto simp: started_not_queued)
  then have "\<not> snd (fst (pgStartCronRun i now' s2))" by (simp add: pgStartCronRun_def)
  then show ?thesis using r execute_started [of s2 env claimed r] by blast
qed

section \<open>What a tick does\<close>

definition same_plan :: "cron_job \<Rightarrow> cron_job \<Rightarrow> bool" where
  "same_plan j j' \<longleftrightarrow> cj_id j' = cj_id j \<and> cj_expr j' = cj_expr j \<and> cj_timezone j' = cj_timezone j
    \<and> cj_status j' = cj_status j \<and> cj_condition j' = cj_condition j \<and> cj_next j' = cj_next j"

lemma same_plan_next: "same_plan j j' \<Longrightarrow> nextFor env j' t = nextFor env j t"
  by (simp add: same_plan_def nextFor_def scheduleOf_def)

lemma mark_stale_plans: "mark_stale now rows n s = (n', s') \<Longrightarrow> list_all2 same_plan (cd_jobs s) (cd_jobs s')"
proof (induction now rows n s rule: mark_stale.induct)
  case (2 now run job rows n s)
  have step: "list_all2 same_plan (cd_jobs s) ys"
    if "list_all2 same_plan (cd_jobs (upd_cron_job i (\<lambda>j. j\<lparr>cj_last_status := a, cj_last_run := b, cj_updated := c\<rparr>)
          (upd_run p f s))) ys" for i a b c p f ys
    using that by (auto simp: upd_cron_job_def upd_run_def same_plan_def list_all2_map1 elim!: list_all2_mono split: if_splits)
  show ?case using 2 by (auto simp: Let_def split: if_splits intro: step)
qed (simp add: list_all2_same same_plan_def)

lemma mark_stale_due:
  assumes "mark_stale now rows n s = (n', s1)" and "job \<in> set (due_cron_jobs locked t s)"
  shows "\<exists>job' \<in> set (due_cron_jobs locked t s1). same_plan job job'"
proof -
  have "job \<in> set (cd_jobs s)" using assms(2) by (rule due_ids)
  then obtain job' where j: "job' \<in> set (cd_jobs s1)" "same_plan job job'"
    using list_all2_image [OF mark_stale_plans [OF assms(1)]] by blast
  then show ?thesis using assms(2) by (intro bexI [of _ job']) (auto simp: due_cron_jobs_def same_plan_def)
qed

lemma fire_due_next:
  "fire_due env policy ids now jobs claimed s = Inr (r, s') \<Longrightarrow> distinct (map cj_id jobs) \<Longrightarrow>
    map cj_id (cd_jobs s') = map cj_id (cd_jobs s)
    \<and> (\<forall>j \<in> set (cd_jobs s'). cj_id j \<notin> cj_id ` set jobs \<longrightarrow> j \<in> set (cd_jobs s))
    \<and> (\<forall>job \<in> set jobs. \<forall>j \<in> set (cd_jobs s'). cj_id j = cj_id job \<longrightarrow> nextFor env job (advance_from policy now job) = Inr (cj_next j))"
proof (induction jobs arbitrary: claimed s)
  case (Cons job jobs)
  from Cons.prems(1) obtain next' claimed' s3 where
    s3: "nextFor env job (advance_from policy now job) = Inr next'" "fire_due env policy ids now jobs claimed' s3 = Inr (r, s')"
      "cd_jobs s3 = cd_jobs (upd_cron_job (cj_id job) (\<lambda>j. j\<lparr>cj_next := next', cj_updated := now\<rparr>) s)"
    by (elim fire_step)
  note IH = Cons.IH [OF s3(2)]
  have ids: "map cj_id (cd_jobs s3) = map cj_id (cd_jobs s)"
    by (simp add: s3(3) upd_cron_job_def map_if_same del: map_map list.map_comp)
  have row: "cj_id j = cj_id job \<Longrightarrow> cj_next j = next'" "cj_id j \<noteq> cj_id job \<Longrightarrow> j \<in> set (cd_jobs s)" if "j \<in> set (cd_jobs s3)" for j
    using that by (auto simp: s3(3) upd_cron_job_def split: if_splits)
  show ?case using IH Cons.prems(2) ids row s3(1) by auto
qed simp


lemma zone_name_twice [simp]: "zone_name (zone_name z) = zone_name z"
  by (simp add: zone_name_def)

text \<open>
  C37. A tick moves the due jobs of zones without changes of offset forward: after a tick that
  succeeds, the next run of each due job that no other session holds and whose zone has one offset,
  of whole minutes, lies after the slot that was due, or, when missed runs are coalesced, after the
  tick itself, or the job has no further run.  (Where the offset changes it can stay where it was:
  \<open>next_run_stays\<close> of \<open>Cron_Schedule\<close>.)
\<close>

theorem tick_moves_due_jobs_forward:
  assumes "cron_ok s" and "tick_transaction env policy locked ids now s = Inr (r, s')"
    and "job \<in> set (due_cron_jobs locked now s)"
    and "ce_zones env (zone_name (cj_timezone job)) = Some (\<lambda>_. off)" and "minute_ms dvd off"
  shows "\<exists>j \<in> set (cd_jobs s'). cj_id j = cj_id job
    \<and> (\<forall>t. cj_next j = Some t \<longrightarrow> (if policy = ''coalesce'' then now else the (cj_next job)) < t)"
proof -
  obtain n s1 where s1: "mark_stale now (running_rows locked s) 0 s = (n, s1)" by (cases "mark_stale now (running_rows locked s) 0 s")
  obtain claimed where f: "fire_due env policy ids now (due_cron_jobs locked now s1) [] s1 = Inr (claimed, s')"
    using assms(2) s1 by (auto simp: tick_transaction_def split: sum.splits)
  obtain job' where job': "job' \<in> set (due_cron_jobs locked now s1)" "same_plan job job'"
    using mark_stale_due [OF s1 assms(3)] by blast
  have "cron_ok s1" using mark_stale_keeps [OF s1] assms(1) by (simp add: cron_keeps_def)
  then have "distinct (map cj_id (due_cron_jobs locked now s1))"
    by (simp add: due_cron_jobs_def cron_ok_but_def distinct_map inj_on_def)
  note planned = fire_due_next [OF f this]
  have "cj_id job' \<in> set (map cj_id (cd_jobs s1))" using due_ids [OF job'(1)] by simp
  then have "cj_id job \<in> set (map cj_id (cd_jobs s'))" using conjunct1 [OF planned] job'(2) by (simp only: same_plan_def)
  then obtain j where j: "j \<in> set (cd_jobs s')" "cj_id j = cj_id job" by auto
  have "nextFor env job' (advance_from policy now job') = Inr (cj_next j)" using planned j job' by (simp add: same_plan_def)
  then have "nextFor env job (advance_from policy now job) = Inr (cj_next j)"
    using job'(2) by (simp only: same_plan_next [OF job'(2)] advance_from_def same_plan_def)
  then have "advance_from policy now job < t" if "cj_next j = Some t" for t
    using next_scheduled_later [of "ce_zones env" "cj_expr job" "zone_name (cj_timezone job)" _ _ t off] that assms(4,5)
    by (simp add: nextFor_def)
  then show ?thesis using j by (auto simp: advance_from_def)
qed


lemma run_by_id_upd:
  "run_by_id (upd_run (\<lambda>r. cr_id r = i \<and> cr_status r = st) f s) k =
    (case run_by_id s k of None \<Rightarrow> None | Some r \<Rightarrow> Some (if k = i \<and> cr_status r = st then f r else r))"
  if "\<And>r. cr_id (f r) = cr_id r"
proof -
  have "find (\<lambda>r. cr_id r = k) (map (\<lambda>r. if cr_id r = i \<and> cr_status r = st then f r else r) xs) =
    (case find (\<lambda>r. cr_id r = k) xs of None \<Rightarrow> None | Some r \<Rightarrow> Some (if k = i \<and> cr_status r = st then f r else r))" for xs
    by (induction xs) (auto simp: that)
  then show ?thesis by (simp add: run_by_id_def upd_run_def)
qed

lemma mark_stale_other:
  "mark_stale now rows n s = (n', s') \<Longrightarrow> run_by_id s i = Some r \<Longrightarrow> cr_status r \<noteq> ''running'' \<Longrightarrow>
    run_by_id s' i = Some r \<and> n \<le> n'"
proof (induction now rows n s rule: mark_stale.induct)
  case (2 now run job rows n s)
  have "run_by_id (upd_cron_job j g t) i = run_by_id t i" for j g t by (simp add: run_by_id_def upd_cron_job_def)
  then show ?case using 2 run_by_id_upd [of "takeover_run now job" "cr_id run" "''running''" s i]
    by (auto simp: Let_def takeover_run_def split: if_splits)
qed simp

lemma mark_stale_hits:
  "mark_stale now rows n s = (n', s') \<Longrightarrow> (run, job) \<in> set rows \<Longrightarrow> overdue_run now run job \<Longrightarrow>
    run_by_id s (cr_id run) = Some r \<Longrightarrow> cr_status r = ''running'' \<Longrightarrow>
    \<exists>r'. run_by_id s' (cr_id run) = Some r' \<and> cr_status r' = ''needs_takeover'' \<and> cr_finished r' = Some now
      \<and> cr_error_code r' = Some ''stale_run'' \<and> n < n'"
proof (induction now rows n s arbitrary: r rule: mark_stale.induct)
  case (2 now x xj rows n s)
  define hit where "hit = (\<lambda>r :: cron_run. cr_id r = cr_id x \<and> cr_status r = ''running'')"
  define t where "t = upd_cron_job (cj_id xj) (\<lambda>j. j\<lparr>cj_last_status := Some ''needs_takeover'', cj_last_run := Some now, cj_updated := now\<rparr>)
    (upd_run hit (takeover_run now xj) s)"
  have same: "run_by_id (upd_cron_job j g t) k = run_by_id t k" for j g t k by (simp add: run_by_id_def upd_cron_job_def)
  have row: "run_by_id t (cr_id run) = Some (if cr_id run = cr_id x then takeover_run now xj r else r)"
    using run_by_id_upd [of "takeover_run now xj" "cr_id x" "''running''" s "cr_id run"] "2.prems"(4,5)
    by (simp add: t_def same hit_def takeover_run_def)
  show ?case
  proof (cases "overdue_run now x xj")
    case False
    then show ?thesis using 2 by auto
  next
    case True
    then have rest: "mark_stale now rows (n + length (filter hit (cd_runs s))) t = (n', s')"
      using "2.prems"(1) by (simp add: Let_def t_def hit_def)
    show ?thesis
    proof (cases "cr_id run = cr_id x")
      case True
      have "r \<in> set (filter hit (cd_runs s))"
        using "2.prems"(4,5) True by (auto simp: hit_def run_by_id_def dest: find_SomeD)
      then have "0 < length (filter hit (cd_runs s))" by (cases "filter hit (cd_runs s)") auto
      moreover have "run_by_id s' (cr_id run) = Some (takeover_run now xj r) \<and> n + length (filter hit (cd_runs s)) \<le> n'"
        by (rule mark_stale_other [OF rest]) (use row True in \<open>simp_all add: takeover_run_def\<close>)
      moreover from calculation have "n < n'" by linarith
      ultimately show ?thesis by (simp add: takeover_run_def)
    next
      case False
      then have "(run, job) \<in> set rows" using "2.prems"(2) by auto
      moreover have "run_by_id t (cr_id run) = Some r" using row False by simp
      ultimately obtain r' where "run_by_id s' (cr_id run) = Some r'" "cr_status r' = ''needs_takeover''" "cr_finished r' = Some now"
        "cr_error_code r' = Some ''stale_run''" "n + length (filter hit (cd_runs s)) < n'"
        using "2.IH"(1) [OF True hit_def rest [unfolded t_def hit_def, folded hit_def]] "2.prems"(3,5) by (auto simp: t_def)
      then show ?thesis by auto
    qed
  qed
qed simp

lemma fire_due_runs: "fire_due env policy ids now jobs claimed s = Inr (r, s') \<Longrightarrow> \<exists>new. cd_runs s' = cd_runs s @ new"
proof (induction jobs arbitrary: claimed s)
  case (Cons x jobs)
  from Cons.prems show ?case by (rule fire_step) (use Cons.IH in fastforce)
qed simp

text \<open>
  A tick hands over every overdue run: a run that is running past the takeover time of its job,
  and that no other session holds, needs takeover after a tick that succeeds, finished at the tick
  with the code \<open>stale_run\<close>, and the tick reports it.
\<close>

theorem tick_marks_overdue_runs:
  assumes "cron_ok s" and "tick_transaction env policy locked ids now s = Inr ((claimed, stale), s')"
    and "(run, job) \<in> set (running_rows locked s)" and "overdue_run now run job"
  shows "stale \<and> (\<exists>r. run_by_id s' (cr_id run) = Some r \<and> cr_status r = ''needs_takeover''
    \<and> cr_finished r = Some now \<and> cr_error_code r = Some ''stale_run'')"
proof -
  obtain n s1 where s1: "mark_stale now (running_rows locked s) 0 s = (n, s1)" by (cases "mark_stale now (running_rows locked s) 0 s")
  have f: "fire_due env policy ids now (due_cron_jobs locked now s1) [] s1 = Inr (claimed, s')" "stale \<longleftrightarrow> 0 < n"
    using assms(2) s1 by (auto simp: tick_transaction_def split: sum.splits)
  have run: "run \<in> set (cd_runs s)" "cr_status run = ''running''"
    using assms(3) by (auto simp: running_rows_def map_filter_def)
  have "distinct (map cr_id (cd_runs s))" using assms(1) by (simp add: cron_ok_but_def)
  moreover have "distinct (map cr_id xs) \<Longrightarrow> run \<in> set xs \<Longrightarrow> find (\<lambda>r. cr_id r = cr_id run) xs = Some run" for xs
    by (induction xs) (auto simp: image_iff)
  ultimately have "run_by_id s (cr_id run) = Some run" using run(1) by (simp add: run_by_id_def)
  from mark_stale_hits [OF s1 assms(3,4) this run(2)] obtain r where
    r: "run_by_id s1 (cr_id run) = Some r" "cr_status r = ''needs_takeover''" "cr_finished r = Some now"
      "cr_error_code r = Some ''stale_run''" "0 < n" by blast
  obtain new where "cd_runs s' = cd_runs s1 @ new" using fire_due_runs [OF f(1)] by blast
  moreover have "find p xs = Some r \<Longrightarrow> find p (xs @ ys) = Some r" for p and xs ys :: "cron_run list"
    by (induction xs) auto
  ultimately have "run_by_id s' (cr_id run) = Some r" using r(1) by (simp add: run_by_id_def)
  then show ?thesis using r f(2) by blast
qed

section \<open>What a worker does\<close>

lemma finish_run:
  assumes "run_by_id s (fi_run input) = Some r"
  shows "pgFinishCronRun input now s = (Some (finish_row input now r),
    upd_cron_job (cr_job r) (\<lambda>j. j\<lparr>cj_last_run := Some now, cj_last_status := Some (fi_status input), cj_updated := now\<rparr>)
      (upd_run (\<lambda>r. cr_id r = fi_run input) (finish_row input now) s))"
  using assms by (simp add: pgFinishCronRun_def)

lemma settle_some:
  assumes "run_by_id s i = Some r"
  obtains input where "fi_run input = i" and "fi_status input \<in> CRON_TERMINAL"
    and "settle_cron_run i k outcome now s = (Inr (finish_row input now r), snd (pgFinishCronRun input now s))"
proof (cases outcome)
  case (Inl m)
  show ?thesis
    by (rule that [of "failed_input i ''handler_error'' m k"])
      (use assms in \<open>simp_all add: Inl settle_cron_run_def finish_or_missing_def finish_run CRON_TERMINAL_def\<close>)
next
  case (Inr result)
  show ?thesis
    by (rule that [of "result_input i result"])
      (use assms result_status in \<open>simp_all add: Inr settle_cron_run_def finish_or_missing_def finish_run\<close>)
qed

lemma execute_some:
  assumes "run_by_id s i = Some run" and "cron_job_by_id s (cr_job run) = Some job"
    and "\<And>h j r t. handlers (cj_handler job) = Some h \<Longrightarrow> snd (h j r t) = t"
  obtains input where "fi_run input = i" and "fi_status input \<in> CRON_TERMINAL"
    and "executeCronRun handlers i now s = (Inr (finish_row input now run), snd (pgFinishCronRun input now s))"
proof (cases "handlers (cj_handler job)")
  case None
  show ?thesis
    by (rule that [of "failed_input i ''unknown_handler'' (UNREGISTERED (cj_handler job)) (cj_handler job)"])
      (use assms None in \<open>simp_all add: executeCronRun_def finish_or_missing_def finish_run CRON_TERMINAL_def\<close>)
next
  case (Some h)
  obtain outcome where h: "h job run s = (outcome, s)" using assms(3) [OF Some, of job run s] by (cases "h job run s") simp
  obtain input where "fi_run input = i" "fi_status input \<in> CRON_TERMINAL"
    "settle_cron_run i (cj_handler job) outcome now s = (Inr (finish_row input now run), snd (pgFinishCronRun input now s))"
    by (rule settle_some [OF assms(1)])
  then show ?thesis using that assms(1,2) Some h by (simp add: executeCronRun_def)
qed

lemma finish_exec: "cd_exec (snd (pgFinishCronRun input now s)) = cd_exec s"
  by (simp add: pgFinishCronRun_def upd_cron_job_def upd_run_def split: option.split)

lemma start_queued:
  assumes "run_by_id s i = Some r" and "cr_status r = ''queued''"
  obtains r' s' where "pgStartCronRun i now s = ((Some r', True), s')" and "run_by_id s' i = Some r'"
    and "cr_job r' = cr_job r" and "cd_jobs s' = cd_jobs s" and "cd_exec s' = cd_exec s"
proof -
  let ?f = "\<lambda>r :: cron_run. r\<lparr>cr_status := ''running'', cr_started := (case cr_started r of None \<Rightarrow> Some now | Some t \<Rightarrow> Some t)\<rparr>"
  have eq: "pgStartCronRun i now s = ((Some (?f r), True), upd_run (\<lambda>r. cr_id r = i) ?f s)"
    using assms by (simp add: pgStartCronRun_def Let_def)
  show ?thesis by (rule that [OF eq run_by_id_map [OF assms(1)]]) (simp_all add: upd_run_def)
qed

lemma claimed_settled:
  assumes "job_at e i = Some j" and "j_status j = Running" and "j_risk j = Low" and "j_max_attempts j \<le> j_attempts j"
  shows "\<exists>j' e'. pgFailExecutionJob i code summary \<lparr>fo_retry_at = None, fo_expected_worker = None, fo_not_dispatched = False\<rparr> obx now e
      = Inr (Some j', e') \<and> job_at e' i = Some j' \<and> j_status j' = Failed"
    and "\<exists>j'. job_at (snd (pgCompleteExecutionJob i receipt now None e)) i = Some j' \<and> j_status j' = Succeeded"
  using assms job_at_upd [of e i j]
  by (simp_all add: pgFailExecutionJob_def pgCompleteExecutionJob_def or_null_def fail_row_def fail_status_def canRetry_def
      highRisk_def complete_row_def fail_retry_at_def Let_def)

text \<open>
  A cron run and its execution job end alike: when a worker executes a claimed cron job at its
  last attempt whose run is queued, and the handler leaves the tables alone, the worker returns the
  run, and the execution job has failed exactly when the run has, and succeeded otherwise, for every
  outcome of the handler and when no handler is registered.
\<close>

theorem worker_settles_run_and_job:
  assumes "j_id claimed = i" and "ce_run_of env (j_payload claimed) = run_id" and "run_id \<noteq> []"
    and "run_by_id s run_id = Some run" and "cr_status run = ''queued''"
    and "cron_job_by_id s (cr_job run) = Some job"
    and "\<And>h j r t. handlers (cj_handler job) = Some h \<Longrightarrow> snd (h j r t) = t"
    and "job_at (cd_exec s) i = Some j" and "j_status j = Running" and "j_risk j = Low" and "j_max_attempts j \<le> j_attempts j"
  shows "\<exists>s' r' j'. executeClaimedCronJob env handlers claimed obx clock s = (Inr run_id, s')
    \<and> run_by_id s' run_id = Some r' \<and> cr_status r' \<in> CRON_TERMINAL
    \<and> job_at (cd_exec s') i = Some j' \<and> j_status j' = (if cr_status r' = ''failed'' then Failed else Succeeded)"
proof -
  obtain r1 s1 where s1: "pgStartCronRun run_id (wc_start clock) s = ((Some r1, True), s1)" "run_by_id s1 run_id = Some r1"
    "cr_job r1 = cr_job run" "cd_jobs s1 = cd_jobs s" "cd_exec s1 = cd_exec s"
    by (rule start_queued [OF assms(4,5)])
  have job: "cron_job_by_id s1 (cr_job r1) = Some job" using assms(6) s1(3,4) by (simp add: cron_job_by_id_def)
  obtain input where input: "fi_run input = run_id" "fi_status input \<in> CRON_TERMINAL"
    "executeCronRun handlers run_id (wc_finish clock) s1 = (Inr (finish_row input (wc_finish clock) r1), snd (pgFinishCronRun input (wc_finish clock) s1))"
    by (rule execute_some [OF s1(2) job, of handlers]) (use assms(7) in auto)
  define s2 where "s2 = snd (pgFinishCronRun input (wc_finish clock) s1)"
  let ?t = "finish_row input (wc_finish clock) r1"
  have exec: "cd_exec s2 = cd_exec s" by (simp add: s2_def finish_exec s1(5))
  have status: "cr_status ?t \<in> CRON_TERMINAL" using input(2) by (simp add: finish_row_def)
  have run2: "run_by_id s2 run_id = Some ?t"
    using run_by_id_map [OF s1(2), of "finish_row input (wc_finish clock)"] s1(2) input(1)
    by (simp add: s2_def finish_run run_by_id_def upd_cron_job_def finish_row_def)
  have all: "executeClaimedCronJob env handlers claimed obx clock s
      = settle_claimed env i run_id ?t obx (wc_settle clock) s2"
    using assms(1-3) s1(1) input(3) by (simp add: executeClaimedCronJob_def Let_def s2_def)
  note settled = claimed_settled [of "cd_exec s2", unfolded exec, OF assms(8-11)]
  show ?thesis
  proof (cases "cr_status ?t = ''failed''")
    case True
    define code where "code = or_text (cr_error_code ?t) ''cron_handler_failed''"
    define summary where "summary = (case cr_error_summary ?t of Some (c # t) \<Rightarrow> c # t | _ \<Rightarrow> ascii_text ''cron handler failed'')"
    obtain j' e' where e: "pgFailExecutionJob i code summary \<lparr>fo_retry_at = None, fo_expected_worker = None, fo_not_dispatched = False\<rparr>
        obx (wc_settle clock) (cd_exec s) = Inr (Some j', e')" "job_at e' i = Some j'" "j_status j' = Failed"
      using settled(1) by blast
    have "executeClaimedCronJob env handlers claimed obx clock s = (Inr run_id, s2\<lparr>cd_exec := e'\<rparr>)"
      using all True e(1) by (simp add: settle_claimed_def fail_claimed_def fail_then_def exec code_def [symmetric] summary_def [symmetric])
    moreover have "run_by_id (s2\<lparr>cd_exec := e'\<rparr>) run_id = Some ?t" using run2 by (simp add: run_by_id_def)
    ultimately show ?thesis using e(2,3) status True by auto
  next
    case False
    obtain s3 receipt where s3: "executeClaimedCronJob env handlers claimed obx clock s = (Inr run_id, s3)"
      "s3 = s2\<lparr>cd_exec := snd (pgCompleteExecutionJob i receipt (wc_settle clock) None (cd_exec s2))\<rparr>"
      using all False by (simp add: settle_claimed_def complete_claimed_def)
    obtain j' where "job_at (cd_exec s3) i = Some j'" "j_status j' = Succeeded" using settled(2) by (auto simp: s3(2) exec)
    moreover have "run_by_id s3 run_id = Some ?t" using run2 by (simp add: run_by_id_def s3(2))
    ultimately show ?thesis using s3(1) status False by auto
  qed
qed

section \<open>An hourly job\<close>

definition demo_env :: cron_env where
  "demo_env = \<lparr>ce_zones = \<lambda>_. Some (\<lambda>_. 0), ce_date = \<lambda>_. None, ce_text_date = \<lambda>_. None, ce_iso = \<lambda>t. show_nat (nat t),
     ce_json = \<lambda>_. ''{}'', ce_snapshot = \<lambda>_ _. ''{}'', ce_run_of = \<lambda>_. ''r1''\<rparr>"

definition demo_job :: "string \<Rightarrow> (string \<times> js) list \<Rightarrow> int \<Rightarrow> cron_job" where
  "demo_job expr schedule next0 =
    (cron_seed ''c1'' ''k1'' [] expr ''published'' ''self'' [] [(''schedule'', JObj schedule)])\<lparr>cj_next := Some next0\<rparr>"

definition demo_hourly :: cron_job where
  "demo_hourly = demo_job ''0 * * * *'' [(''kind'', JStr ''interval''), (''interval_minutes'', JNum 60)] 3600000"

lemma demo_next: "nextFor demo_env demo_hourly 3600000 = Inr (Some 7200000)"
  by (simp add: nextFor_def demo_hourly_def demo_job_def cron_seed_def scheduleOf_def json_object_def js_field_def window_of_def
      member_def demo_env_def Let_def nextScheduledAt_def next_of_kind_def integer_of_def is_integer_def)

definition demo_cron0 :: cron_db where
  "demo_cron0 = \<lparr>cd_jobs = [demo_hourly], cd_runs = [], cd_exec = empty_db\<rparr>"

lemma demo0_ok [simp]: "cron_ok demo_cron0"
  by (simp add: demo_cron0_def cron_ok_but_def)

lemma demo_hourly_sel [simp]: "cj_id demo_hourly = ''c1''" "cj_key demo_hourly = ''k1''" "cj_status demo_hourly = ''published''"
  "cj_next demo_hourly = Some 3600000" "cj_timezone demo_hourly = ''Asia/Shanghai''"
  by (simp_all add: demo_hourly_def demo_job_def cron_seed_def)

definition demo_run :: cron_run where
  "demo_run = new_run ''r1'' ''c1'' ''schedule'' (show_nat 3600000) 3600000"

definition demo_cron1 :: cron_db where
  "demo_cron1 = snd (projr (tick_transaction demo_env ''replay'' [] (\<lambda>_. (''r1'', ''e1'', ''o1'')) 3600000 demo_cron0))"

lemma demo_tick_raw:
  "\<exists>s' j. tick_transaction demo_env ''replay'' [] (\<lambda>_. (''r1'', ''e1'', ''o1'')) 3600000 demo_cron0 = Inr (([''r1''], False), s')
    \<and> cd_jobs s' = [demo_hourly\<lparr>cj_next := Some 7200000, cj_updated := 3600000\<rparr>] \<and> cd_runs s' = [demo_run]
    \<and> db_jobs (cd_exec s') = [j] \<and> j_id j = ''e1'' \<and> j_status j = Queued \<and> j_risk j = Low \<and> j_attempts j = 0
    \<and> j_max_attempts j = 1 \<and> j_next_attempt_at j = Some 3600000"
proof -
  have iso: "ce_iso demo_env = (\<lambda>t. show_nat (nat t))" by (simp add: demo_env_def)
  have due: "due_cron_jobs [] 3600000 demo_cron0 = [demo_hourly]" by (simp add: due_cron_jobs_def demo_cron0_def)
  have ins: "insert_run demo_run demo_cron0 = Inr (True, demo_cron0\<lparr>cd_runs := [demo_run]\<rparr>)"
    by (simp add: insert_run_def demo_cron0_def run_in_slot_def run_by_id_def)
  have rows: "running_rows [] demo_cron0 = []" by (simp add: running_rows_def demo_cron0_def map_filter_def)
  have "\<exists>s' j. fire_due demo_env ''replay'' (\<lambda>_. (''r1'', ''e1'', ''o1'')) 3600000 [demo_hourly] [] demo_cron0 = Inr ([''r1''], s')
    \<and> cd_jobs s' = [demo_hourly\<lparr>cj_next := Some 7200000, cj_updated := 3600000\<rparr>] \<and> cd_runs s' = [demo_run]
    \<and> db_jobs (cd_exec s') = [j] \<and> j_id j = ''e1'' \<and> j_status j = Queued \<and> j_risk j = Low \<and> j_attempts j = 0
    \<and> j_max_attempts j = 1 \<and> j_next_attempt_at j = Some 3600000"
    by (simp add: Let_def iso demo_run_def [symmetric] ins demo_next)
      (simp add: insertCronDispatch_def upd_cron_job_def demo_cron0_def empty_db_def add_outbox_def dispatched_job_def Let_def)
  then show ?thesis by (auto simp: tick_transaction_def rows due simp del: fire_due.simps)
qed

lemma demo_tick: "tick_transaction demo_env ''replay'' [] (\<lambda>_. (''r1'', ''e1'', ''o1'')) 3600000 demo_cron0 = Inr (([''r1''], False), demo_cron1)"
  using demo_tick_raw by (auto simp: demo_cron1_def)

lemma demo_cron1_rows:
  "cd_jobs demo_cron1 = [demo_hourly\<lparr>cj_next := Some 7200000, cj_updated := 3600000\<rparr>]" "cd_runs demo_cron1 = [demo_run]"
  "\<exists>j. db_jobs (cd_exec demo_cron1) = [j] \<and> j_id j = ''e1'' \<and> j_status j = Queued \<and> j_risk j = Low \<and> j_attempts j = 0
    \<and> j_max_attempts j = 1 \<and> j_next_attempt_at j = Some 3600000"
  using demo_tick_raw by (auto simp: demo_cron1_def)

lemma demo1_ok [simp]: "cron_ok demo_cron1"
  using tick_keeps [OF demo_tick] by (simp add: cron_keeps_def)

lemma demo_due: "demo_hourly \<in> set (due_cron_jobs [] 3600000 demo_cron0)"
  by (simp add: due_cron_jobs_def demo_cron0_def)

lemma tick_moves_due_jobs_forward_witness:
  "\<exists>j \<in> set (cd_jobs demo_cron1). cj_id j = ''c1'' \<and> (\<forall>t. cj_next j = Some t \<longrightarrow> 3600000 < t)"
  using tick_moves_due_jobs_forward [OF demo0_ok demo_tick demo_due, of 0] by (simp add: demo_env_def)

lemma demo_serves: "serves (cron_handler demo_env (=)) empty_cron demo_cron1"
proof -
  define row where "row = demo_hourly\<lparr>cj_rev := 1, cj_last_run := None, cj_last_status := None, cj_created := 0, cj_updated := 0\<rparr>"
  have row: "row = demo_hourly" by (simp add: row_def demo_hourly_def demo_job_def cron_seed_def)
  have "cron_handler demo_env (=) empty_cron (CCreate demo_hourly 0) = Inr (CRow demo_hourly, demo_cron0)"
    using row by (simp add: pgCreateCronJob_def row_def insert_cron_job_def empty_cron_def demo_cron0_def)
  then have "serves (cron_handler demo_env (=)) empty_cron demo_cron0" by (rule serves_step [OF serves_refl])
  moreover have "cron_handler demo_env (=) demo_cron0 (CTick ''replay'' [] (\<lambda>_. (''r1'', ''e1'', ''o1'')) 3600000)
      = Inr (CTicked [''r1''] False, demo_cron1)"
    by (simp add: demo_tick)
  ultimately show ?thesis by (rule serves_step)
qed

lemma cron_runs_unique_witness:
  "\<exists>!j. j \<in> set (db_jobs (cd_exec demo_cron1)) \<and> j_key j = run_key ''r1''"
  using cron_runs_unique [OF demo_serves, of demo_run] by (simp add: demo_cron1_rows demo_run_def new_run_def)

lemma show_nat_nonempty [simp]: "show_nat n \<noteq> []"
  by (simp add: show_nat_def)

lemma cron_slot_dispatched_once_witness:
  "pgEnqueueManualCronRun demo_env ''c1'' (Some (show_nat 3600000)) ''r2'' ''e2'' ''o2'' 5 demo_cron1 = Inr ((''r1'', True), demo_cron1)"
  using cron_slot_dispatched_once [OF demo1_ok _ serves_refl, of demo_hourly "show_nat 3600000" demo_run "''c1''"
      "demo_hourly\<lparr>cj_next := Some 7200000, cj_updated := 3600000\<rparr>" demo_env "''r2''" "''e2''" "''o2''" 5]
  by (simp add: run_in_slot_def jobByIdIn_def demo_cron1_rows demo_run_def new_run_def)

definition demo_cron2 :: cron_db where
  "demo_cron2 = snd (pgStartCronRun ''r1'' 3600000 demo_cron1)"

lemma demo_start: "pgStartCronRun ''r1'' 3600000 demo_cron1
    = ((Some (demo_run\<lparr>cr_status := ''running'', cr_started := Some 3600000\<rparr>), True), demo_cron2)"
  by (simp add: demo_cron2_def pgStartCronRun_def run_by_id_def demo_cron1_rows Let_def demo_run_def new_run_def)

lemma cron_handler_called_once_witness: "\<not> snd (fst (pgStartCronRun ''r1'' 5 demo_cron2))"
  using cron_handler_called_once [OF demo1_ok demo_start serves_refl] by blast

lemma demo_cron2_rows: "cd_runs demo_cron2 = [demo_run\<lparr>cr_status := ''running'', cr_started := Some 3600000\<rparr>]"
  "cd_jobs demo_cron2 = [demo_hourly\<lparr>cj_next := Some 7200000, cj_updated := 3600000\<rparr>]"
  by (simp_all add: demo_cron2_def pgStartCronRun_def run_by_id_def demo_cron1_rows Let_def demo_run_def new_run_def upd_run_def)

lemma demo2_ok [simp]: "cron_ok demo_cron2"
  using start_keeps [of demo_cron1 "''r1''" 3600000] by (simp add: cron_keeps_def demo_cron2_def)

lemma demo_takeover: "takeoverMinutes (demo_hourly\<lparr>cj_next := n, cj_updated := u\<rparr>) = 30"
  by (simp add: takeoverMinutes_def demo_hourly_def demo_job_def cron_seed_def json_object_def js_field_def)

lemma tick_marks_overdue_runs_witness:
  "\<exists>s' r. run_by_id s' ''r1'' = Some r \<and> cr_status r = ''needs_takeover''
    \<and> tick_transaction demo_env ''replay'' [] (\<lambda>_. (''r2'', ''e2'', ''o2'')) 5400000 demo_cron2 = Inr (([], True), s')"
proof -
  let ?run = "demo_run\<lparr>cr_status := ''running'', cr_started := Some 3600000\<rparr>" and
    ?job = "demo_hourly\<lparr>cj_next := Some 7200000, cj_updated := 3600000\<rparr>"
  have id: "cr_id ?run = ''r1''" "cr_job ?run = ''c1''" by (simp_all add: demo_run_def new_run_def)
  have rows: "running_rows [] demo_cron2 = [(?run, ?job)]"
    by (simp add: running_rows_def demo_cron2_rows map_filter_def id)
  have over: "overdue_run 5400000 ?run ?job" by (simp add: overdue_run_def demo_takeover)
  obtain n s1 where s1: "mark_stale 5400000 (running_rows [] demo_cron2) 0 demo_cron2 = (n, s1)"
    by (cases "mark_stale 5400000 (running_rows [] demo_cron2) 0 demo_cron2")
  have "due_cron_jobs [] 5400000 s1 = []"
    using mark_stale_plans [OF s1] by (auto simp: due_cron_jobs_def demo_cron2_rows same_plan_def list_all2_Cons1)
  then have tick: "tick_transaction demo_env ''replay'' [] (\<lambda>_. (''r2'', ''e2'', ''o2'')) 5400000 demo_cron2 = Inr (([], 0 < n), s1)"
    by (simp add: tick_transaction_def s1)
  from tick_marks_overdue_runs [OF demo2_ok tick, of ?run ?job] show ?thesis using rows over id tick by auto
qed



lemma worker_settles_run_and_job_witness:
  "\<exists>s' r' j'. executeClaimedCronJob demo_env (\<lambda>_. None) (the (job_at (cd_exec demo_cron1) ''e1'')) ''o2'' \<lparr>wc_start = 0, wc_finish = 1, wc_settle = 2\<rparr>
      (demo_cron1\<lparr>cd_exec := snd (pgClaimExecutionJobById ''e1'' ''w'' None 3600000 (cd_exec demo_cron1))\<rparr>) = (Inr ''r1'', s')
    \<and> job_at (cd_exec s') ''e1'' = Some j' \<and> j_status j' \<in> {Failed, Succeeded}"
proof -
  obtain j where j: "db_jobs (cd_exec demo_cron1) = [j]" "j_id j = ''e1''" "j_status j = Queued" "j_risk j = Low" "j_attempts j = 0"
    "j_max_attempts j = 1" "j_next_attempt_at j = Some 3600000" using demo_cron1_rows(3) by blast
  have at: "job_at (cd_exec demo_cron1) ''e1'' = Some j" by (simp add: job_at_def j)
  let ?f = "claim_row (3600000 + normalizedLeaseMs None) ''w'' 3600000"
  have claim: "pgClaimExecutionJobById ''e1'' ''w'' None 3600000 (cd_exec demo_cron1) = (Some (?f j), upd_job ''e1'' ?f (cd_exec demo_cron1))"
    using at j by (simp add: pgClaimExecutionJobById_def ready_def Let_def isoAfter_def)
  let ?s = "demo_cron1\<lparr>cd_exec := upd_job ''e1'' ?f (cd_exec demo_cron1)\<rparr>"
  have at2: "job_at (cd_exec ?s) ''e1'' = Some (?f j)" using job_at_upd [OF at, of ?f] by (simp add: claim_row_def)
  have run: "run_by_id ?s ''r1'' = Some demo_run" by (simp add: run_by_id_def demo_cron1_rows demo_run_def new_run_def)
  have job: "cron_job_by_id ?s (cr_job demo_run) = Some (demo_hourly\<lparr>cj_next := Some 7200000, cj_updated := 3600000\<rparr>)"
    by (simp add: cron_job_by_id_def demo_cron1_rows demo_run_def new_run_def)
  have pay: "ce_run_of demo_env p = ''r1''" for p by (simp add: demo_env_def)
  from worker_settles_run_and_job [where obx = "''o2''" and clock = "\<lparr>wc_start = 0, wc_finish = 1, wc_settle = 2\<rparr>"
      and handlers = "\<lambda>_. None" and j = "?f j", OF j(2) pay _ run _ job]
  obtain s' r' j' where x: "executeClaimedCronJob demo_env (\<lambda>_. None) j ''o2'' \<lparr>wc_start = 0, wc_finish = 1, wc_settle = 2\<rparr> ?s = (Inr ''r1'', s')"
    "run_by_id s' ''r1'' = Some r'" "job_at (cd_exec s') ''e1'' = Some j'" "j_status j' = (if cr_status r' = ''failed'' then Failed else Succeeded)"
    using at2 j by (auto simp: demo_run_def new_run_def claim_row_def)
  show ?thesis using x at claim by auto
qed

end
