(* ===== verification/Job_Writers.thy ===== *)
theory Job_Writers
  imports Cron_Properties
begin

text \<open>
  Every writer of \<open>execution_jobs\<close>, and what holds of the table whoever writes it.  Besides the
  commands of the store these are: the dispatch of a cron run (\<open>insertCronDispatch\<close> of
  \<open>cron/postgres-store.ts\<close>), the progress receipt of a mail job (\<open>persistMailSyncReceipt\<close> of
  \<open>mail/sync-job.ts\<close>), the publication of knowledge (\<open>retryPublication\<close> of
  \<open>knowledge/publication.ts\<close>) and the two triggers that announce an approved publication
  (\<open>knowledge_review_link\<close> of migration 025 and \<open>enqueue_knowledge_publication\<close> of migration 026).

  \<open>retryPublication\<close> is the one writer that lowers the attempts of a job.  The fencing and the
  single execution of risky jobs therefore hold up to a retried publication, and
  \<open>retry_breaks_fencing\<close> shows that they fail across one.
\<close>

section \<open>The other writers\<close>

definition publication_job_id :: "string \<Rightarrow> string \<Rightarrow> string" where
  "publication_job_id tenant instance_id = ''knowledge-publish:'' @ tenant @ '':'' @ instance_id"

datatype publication_error = NotRetryable | PublicationBusy | PublicationConflict

definition requeue_publication :: "int \<Rightarrow> job \<Rightarrow> job" where
  "requeue_publication time j =
    j\<lparr>j_status := Queued, j_attempts := 0, j_error_code := None, j_error_summary := None, j_terminal_at := None,
      j_lease_owner := None, j_lease_until := None, j_next_attempt_at := None, j_updated_at := time\<rparr>"

definition retryPublication ::
  "bool \<Rightarrow> string \<Rightarrow> string \<Rightarrow> string \<Rightarrow> string \<Rightarrow> string \<Rightarrow> int \<Rightarrow> job_db \<Rightarrow> publication_error + job_db" where
  \<comment> \<open>\<open>allowed\<close>: \<open>publicationState\<close>, read before the transaction, offers \<open>retry_publication\<close>;
    \<open>payload\<close> is the text \<open>JSON.stringify\<close> gives for the announcement, which has no conflict clause\<close>
  "retryPublication allowed document_id tenant instance_id eventId payload time s =
    (if \<not> allowed then Inl NotRetryable
     else
       (let jobId = publication_job_id tenant instance_id in
        case job_at s jobId of
          None \<Rightarrow> Inl PublicationBusy
        | Some j \<Rightarrow>
           if j_status j \<notin> {Failed, Uncertain} then Inl PublicationBusy
           else if list_ex (\<lambda>r. ox_id r = eventId \<or> ox_key r = eventId) (db_outbox s) then Inl PublicationConflict
           else
             (let s1 = upd_job jobId (requeue_publication time) s
              in Inr (s1\<lparr>db_outbox := db_outbox s1
                    @ [new_outbox eventId jobId ''execution.ready'' ''knowledge'' document_id (RawJson payload) eventId time time]\<rparr>))))"

definition persistMailSyncReceipt ::
  "(string option \<Rightarrow> string \<Rightarrow> string) \<Rightarrow> string \<Rightarrow> string \<Rightarrow> string \<Rightarrow> int \<Rightarrow> job_db \<Rightarrow> job_db option" where
  \<comment> \<open>\<open>merge\<close>: the union of two \<open>jsonb\<close> objects; \<open>None\<close>: the claim was lost\<close>
  "persistMailSyncReceipt merge i worker receipt now s =
    (case job_at s i of
       None \<Rightarrow> None
     | Some j \<Rightarrow>
        if j_status j = Running \<and> j_lease_owner j = Some worker
        then Some (upd_job i (\<lambda>j. j\<lparr>j_receipt := Some (merge (or_null (j_receipt j)) receipt), j_updated_at := now\<rparr>) s)
        else None)"

definition triggered_job ::
  "string \<Rightarrow> string \<Rightarrow> string \<Rightarrow> string \<Rightarrow> string \<Rightarrow> string \<Rightarrow> string \<Rightarrow> string \<Rightarrow> int \<Rightarrow> int option \<Rightarrow> int \<Rightarrow> job" where
  \<comment> \<open>the columns the triggers leave out take the defaults of the table\<close>
  "triggered_job i kind tenant actor key object scope payload max_attempts next stamp =
    \<lparr>j_id = i, j_type = kind, j_tenant = tenant, j_actor = actor, j_object = object, j_ticket = None, j_run = None,
     j_trigger = None, j_rule = None, j_rule_version = None, j_risk = High, j_key = key, j_scope = scope,
     j_priority = ''normal'', j_status = Queued, j_attempts = 0, j_max_attempts = max_attempts, j_lease_until = None,
     j_lease_owner = None, j_next_attempt_at = next, j_payload = payload, j_receipt = None, j_error_code = None,
     j_error_summary = None, j_created_at = stamp, j_started_at = None, j_terminal_at = None, j_updated_at = stamp\<rparr>"

definition trigger_insert :: "job \<Rightarrow> outbox \<Rightarrow> job_db \<Rightarrow> job_error + job_db" where
  \<comment> \<open>two inserts, both with \<open>ON CONFLICT (idempotency_key) DO NOTHING\<close>\<close>
  "trigger_insert row announcement s =
    (if list_ex (\<lambda>j. j_key j = j_key row) (db_jobs s) then add_outbox announcement s
     else if list_ex (\<lambda>j. j_id j = j_id row) (db_jobs s) then Inl PrimaryKeyConflict
     else add_outbox announcement (s\<lparr>db_jobs := db_jobs s @ [row]\<rparr>))"

definition knowledge_review_link ::
  "string \<Rightarrow> string \<Rightarrow> string \<Rightarrow> string \<Rightarrow> string \<Rightarrow> string \<Rightarrow> string \<Rightarrow> string \<Rightarrow> int \<Rightarrow> job_db \<Rightarrow> job_error + job_db" where
  \<comment> \<open>the part of the trigger that writes jobs, when a publication is approved\<close>
  "knowledge_review_link tenant instance_id actor document_id object scope payload announcement stamp s =
    (let job = publication_job_id tenant instance_id
     in trigger_insert (triggered_job job ''knowledge.publish'' tenant actor job object scope payload 3 None stamp)
          (new_outbox (job @ '':dispatch'') job ''execution.ready'' ''knowledge'' document_id (RawJson announcement)
             (job @ '':dispatch'') stamp stamp) s)"

definition enqueue_knowledge_publication ::
  "(string \<Rightarrow> string) \<Rightarrow> string \<Rightarrow> string \<Rightarrow> nat \<Rightarrow> string \<Rightarrow> string \<Rightarrow> string \<Rightarrow> string \<Rightarrow> int \<Rightarrow> job_db \<Rightarrow> job_error + job_db" where
  "enqueue_knowledge_publication md5 tenant instance_id version actor object scope announcement stamp s =
    (let key = ''knowledge-publication:'' @ tenant @ '':'' @ instance_id @ '':'' @ show_nat version;
         job = ''kp_'' @ md5 key
     in trigger_insert (triggered_job job ''knowledge.publication'' tenant actor key object scope object 5 (Some stamp) stamp)
          (new_outbox (''kpo_'' @ md5 key) job ''execution_job.queued'' ''execution_job'' job (RawJson announcement)
             (key @ '':dispatch'') stamp stamp) s)"

section \<open>All writes\<close>

inductive job_write :: "(string \<Rightarrow> string \<Rightarrow> bool) \<Rightarrow> string option \<Rightarrow> job_db \<Rightarrow> job_db \<Rightarrow> bool" for jq where
  \<comment> \<open>the label is the job whose publication is retried, when the write is that\<close>
  jw_store: "job_handler jq s c = Inr (r, s') \<Longrightarrow> job_write jq None s s'"
| jw_cron: "insertCronDispatch env job run now extra e obx cs = Inr cs' \<Longrightarrow> job_write jq None (cd_exec cs) (cd_exec cs')"
| jw_mail: "persistMailSyncReceipt merge i worker receipt now s = Some s' \<Longrightarrow> job_write jq None s s'"
| jw_link: "knowledge_review_link tenant instance_id actor document_id object scope payload announcement stamp s = Inr s'
    \<Longrightarrow> job_write jq None s s'"
| jw_decision: "enqueue_knowledge_publication md5 tenant instance_id version actor object scope announcement stamp s = Inr s'
    \<Longrightarrow> job_write jq None s s'"
| jw_retry: "retryPublication allowed document_id tenant instance_id eventId payload time s = Inr s'
    \<Longrightarrow> job_write jq (Some (publication_job_id tenant instance_id)) s s'"

definition any_write :: "(string \<Rightarrow> string \<Rightarrow> bool) \<Rightarrow> job_db \<Rightarrow> job_db \<Rightarrow> bool" where
  "any_write jq s s' \<longleftrightarrow> (\<exists>w. job_write jq w s s')"

definition write_sparing :: "(string \<Rightarrow> string \<Rightarrow> bool) \<Rightarrow> string \<Rightarrow> job_db \<Rightarrow> job_db \<Rightarrow> bool" where
  \<comment> \<open>any write but a retry of the publication the job \<open>i\<close> carries out\<close>
  "write_sparing jq i s s' \<longleftrightarrow> (\<exists>w. job_write jq w s s' \<and> w \<noteq> Some i)"

section \<open>What every write keeps\<close>

definition table_ok :: "job_db \<Rightarrow> bool" where
  \<comment> \<open>the invariant of the store, and every job has an attempt to begin with\<close>
  "table_ok s \<longleftrightarrow> db_ok s \<and> list_all (\<lambda>j. 1 \<le> j_max_attempts j) (db_jobs s)"

lemma empty_table_ok [simp]: "table_ok empty_db"
  unfolding table_ok_def using empty_db_ok by (simp add: empty_db_def)

lemma table_ok_iff: "table_ok s \<longleftrightarrow> distinct (map j_id (db_jobs s)) \<and> distinct (map j_key (db_jobs s))
    \<and> (\<forall>j \<in> set (db_jobs s). job_ok j \<and> 1 \<le> j_max_attempts j) \<and> outbox_fine s"
  by (auto simp: table_ok_def db_ok_def outbox_fine_def list_all_iff)

definition row_kept :: "bool \<Rightarrow> job \<Rightarrow> job \<Rightarrow> bool" where
  "row_kept reset j j' \<longleftrightarrow> j_key j' = j_key j \<and> j_risk j' = j_risk j \<and> (reset \<or> j_attempts j \<le> j_attempts j')"

definition kept :: "string option \<Rightarrow> job_db \<Rightarrow> job_db \<Rightarrow> bool" where
  "kept w s s' \<longleftrightarrow> table_ok s'
     \<and> (\<forall>i j. job_at s i = Some j \<longrightarrow> (\<exists>j'. job_at s' i = Some j' \<and> row_kept (w = Some i) j j'))"

lemma row_kept_refl [simp]: "row_kept b j j"
  by (simp add: row_kept_def)

lemma keptI:
  assumes "table_ok s'"
    and "\<And>i j. job_at s i = Some j \<Longrightarrow> \<exists>j'. job_at s' i = Some j' \<and> row_kept (w = Some i) j j'"
  shows "kept w s s'"
  using assms by (simp add: kept_def)

lemma kept_refl: "table_ok s \<Longrightarrow> kept w s s"
  by (rule keptI) auto

lemma keptD: "kept w s s' \<Longrightarrow> job_at s i = Some j \<Longrightarrow> \<exists>j'. job_at s' i = Some j' \<and> row_kept (w = Some i) j j'"
  by (simp add: kept_def)

lemma kept_outbox:
  assumes "kept w s s1" and "db_jobs s' = db_jobs s1" and "outbox_fine s'"
  shows "kept w s s'"
proof -
  have "job_at s' i = job_at s1 i" for i using assms(2) by (simp add: job_at_def)
  then show ?thesis using assms by (simp add: kept_def table_ok_iff)
qed

lemma kept_upd:
  assumes "table_ok s" and "job_at s i = Some j" and "\<And>j. j_id (f j) = j_id j \<and> j_key (f j) = j_key j"
    and "job_ok (f j)" and "1 \<le> j_max_attempts (f j)" and "row_kept (w = Some i) j (f j)"
  shows "kept w s (upd_job i f s)"
proof (rule keptI)
  have d: "distinct (map j_id (db_jobs s))" using assms(1) by (simp add: table_ok_iff)
  have ids: "map j_id (db_jobs (upd_job i f s)) = map j_id (db_jobs s)" "map j_key (db_jobs (upd_job i f s)) = map j_key (db_jobs s)"
    by (simp_all add: upd_job_def assms(3) comp_def if_distrib cong: map_cong)
  have "job_ok x \<and> 1 \<le> j_max_attempts x" if "x \<in> set (db_jobs (upd_job i f s))" for x
  proof -
    from that obtain y where y: "y \<in> set (db_jobs s)" "x = (if j_id y = i then f y else y)" by (auto simp: upd_job_def)
    then show ?thesis using assms(1,4,5) job_at_unique [OF d assms(2) y(1)] by (auto simp: table_ok_iff)
  qed
  moreover have "outbox_fine (upd_job i f s)" using assms(1) by (simp add: table_ok_iff outbox_fine_def)
  ultimately show "table_ok (upd_job i f s)" using assms(1) unfolding table_ok_iff ids by blast
next
  fix k x assume k: "job_at s k = Some x"
  show "\<exists>j'. job_at (upd_job i f s) k = Some j' \<and> row_kept (w = Some k) x j'"
  proof (cases "k = i")
    case True
    then show ?thesis using job_at_upd [OF assms(2), of f] assms(2,3,6) k by simp
  next
    case False
    then show ?thesis using job_at_upd_other [OF False, of f s] assms(3) k by simp
  qed
qed

lemma find_first_part: "find P xs = Some x \<Longrightarrow> find P (xs @ ys) = Some x"
  by (induction xs) auto

lemma kept_append:
  assumes "table_ok s" and "\<forall>j \<in> set (db_jobs s). j_id j \<noteq> j_id row \<and> j_key j \<noteq> j_key row"
    and "job_ok row" and "1 \<le> j_max_attempts row"
  shows "kept w s (s\<lparr>db_jobs := db_jobs s @ [row]\<rparr>)"
proof (rule keptI)
  show "table_ok (s\<lparr>db_jobs := db_jobs s @ [row]\<rparr>)"
    using assms by (auto simp: table_ok_iff outbox_fine_def)
  fix i j assume "job_at s i = Some j"
  then have "job_at (s\<lparr>db_jobs := db_jobs s @ [row]\<rparr>) i = Some j" by (simp add: job_at_def find_first_part)
  then show "\<exists>j'. job_at (s\<lparr>db_jobs := db_jobs s @ [row]\<rparr>) i = Some j' \<and> row_kept (w = Some i) j j'" by simp
qed

lemma moves_max: "job_moves j j' \<Longrightarrow> job_ok j \<Longrightarrow> 1 \<le> j_max_attempts j \<Longrightarrow> 1 \<le> j_max_attempts j'"
  by (induction rule: job_moves.induct) (auto simp: row_defs job_ok_def)

lemma star_max: "job_moves\<^sup>*\<^sup>* j j' \<Longrightarrow> job_ok j \<Longrightarrow> 1 \<le> j_max_attempts j \<Longrightarrow> 1 \<le> j_max_attempts j'"
  by (induction rule: rtranclp_induct) (auto intro: moves_max star_ok)

lemma new_job_max: "1 \<le> j_max_attempts (new_job input i now)"
  using boundedAttempts_bounds [of "ji_max_attempts input"] by (simp add: new_job_def)

lemma moved_max:
  "list_all2 job_moves\<^sup>*\<^sup>* js js' \<Longrightarrow> \<forall>j \<in> set js. job_ok j \<and> 1 \<le> j_max_attempts j \<Longrightarrow> \<forall>j \<in> set js'. 1 \<le> j_max_attempts j"
  by (induction rule: list_all2_induct) (auto intro: star_max)

lemma store_kept:
  assumes "table_ok s" and "job_handler jq s c = Inr (r, s')"
  shows "kept w s s'"
proof (rule keptI)
  have ok: "db_ok s" using assms(1) by (simp add: table_ok_def)
  obtain js1 new where g: "list_all2 job_moves\<^sup>*\<^sup>* (db_jobs s) js1" "db_jobs s' = js1 @ new"
      "new = [] \<or> (\<exists>input i now. new = [new_job input i now])"
    using handler_grown [OF ok assms(2)] unfolding grown_def by blast
  have "\<forall>j \<in> set js1. 1 \<le> j_max_attempts j" using moved_max [OF g(1)] assms(1) by (simp add: table_ok_iff)
  then have "list_all (\<lambda>j. 1 \<le> j_max_attempts j) (db_jobs s')" using g(2,3) by (auto simp: list_all_iff new_job_max)
  then show "table_ok s'" using db_preserved [OF ok assms(2)] by (simp add: table_ok_def)
  fix i j assume "job_at s i = Some j"
  then obtain j' where "job_at s' i = Some j'" "job_moves\<^sup>*\<^sup>* j j'" using handler_job_at [OF ok assms(2)] by blast
  then show "\<exists>j'. job_at s' i = Some j' \<and> row_kept (w = Some i) j j'"
    using star_identity star_attempts by (auto simp: row_kept_def)
qed

lemma cron_kept:
  assumes "table_ok (cd_exec s)" and "insertCronDispatch env job run now extra e obx s = Inr s'"
  shows "kept w (cd_exec s) (cd_exec s')"
proof -
  let ?e = "cd_exec s" and ?row = "dispatched_job env job run e now extra"
  have ok: "db_ok (cd_exec s')" using dispatch_keeps(5) [OF assms(2)] assms(1) by (simp add: table_ok_def)
  show ?thesis
  proof (cases "list_ex (\<lambda>j. j_key j = run_key (cr_id run)) (db_jobs ?e)")
    case True
    then show ?thesis using assms by (simp add: insertCronDispatch_def kept_refl)
  next
    case False
    then have key: "\<forall>j \<in> set (db_jobs ?e). j_key j \<noteq> run_key (cr_id run)" by (auto simp: list_ex_iff)
    from False obtain r e' where new: "\<not> list_ex (\<lambda>j. j_id j = e) (db_jobs ?e)"
      "add_outbox r (?e\<lparr>db_jobs := db_jobs ?e @ [?row]\<rparr>) = Inr e'" "s' = s\<lparr>cd_exec := e'\<rparr>"
      using assms(2) by (auto simp: insertCronDispatch_def Let_def split: if_splits sum.splits)
    have "kept w ?e (?e\<lparr>db_jobs := db_jobs ?e @ [?row]\<rparr>)"
      using assms(1) key new(1) by (intro kept_append) (auto simp: list_ex_iff, simp add: dispatched_job_def)
    then show ?thesis
      using kept_outbox add_outbox_jobs [OF new(2)] ok new(3) by (auto simp: db_ok_def outbox_fine_def)
  qed
qed

lemma mail_kept:
  assumes "table_ok s" and "persistMailSyncReceipt merge i worker receipt now s = Some s'"
  shows "kept w s s'"
proof -
  obtain j where j: "job_at s i = Some j" "j_status j = Running"
    "s' = upd_job i (\<lambda>j. j\<lparr>j_receipt := Some (merge (or_null (j_receipt j)) receipt), j_updated_at := now\<rparr>) s"
    using assms(2) by (auto simp: persistMailSyncReceipt_def split: option.splits if_splits)
  have "job_ok j" "1 \<le> j_max_attempts j" using assms(1) job_at_mem [OF j(1)] by (auto simp: table_ok_iff)
  then show ?thesis unfolding j(3) using j(2)
    by (intro kept_upd [OF assms(1) j(1)]) (simp_all add: job_ok_def no_lease_def highRisk_def row_kept_def)
qed

lemma trigger_kept:
  assumes "table_ok s" and "trigger_insert row announcement s = Inr s'" and "job_ok row" and "1 \<le> j_max_attempts row"
    and "outbox_ok announcement"
  shows "kept w s s'"
proof -
  have fine: "outbox_fine s" "outbox_fine (s\<lparr>db_jobs := js\<rparr>)" for js
    using assms(1) by (simp_all add: table_ok_iff outbox_fine_def)
  show ?thesis
  proof (cases "list_ex (\<lambda>j. j_key j = j_key row) (db_jobs s)")
    case True
    then have add: "add_outbox announcement s = Inr s'" using assms(2) by (simp add: trigger_insert_def)
    show ?thesis
      by (rule kept_outbox [OF kept_refl [OF assms(1)] add_outbox_jobs [OF add] add_outbox_fine [OF fine(1) assms(5) add]])
  next
    case False
    then have add: "add_outbox announcement (s\<lparr>db_jobs := db_jobs s @ [row]\<rparr>) = Inr s'"
      and id: "\<not> list_ex (\<lambda>j. j_id j = j_id row) (db_jobs s)"
      using assms(2) by (simp_all add: trigger_insert_def split: if_splits)
    have "kept w s (s\<lparr>db_jobs := db_jobs s @ [row]\<rparr>)"
      using assms(1,3,4) False id by (intro kept_append) (auto simp: list_ex_iff)
    then show ?thesis
      by (rule kept_outbox [OF _ add_outbox_jobs [OF add] add_outbox_fine [OF fine(2) assms(5) add]])
  qed
qed

lemma triggered_ok: "1 \<le> m \<Longrightarrow> job_ok (triggered_job i kind tenant actor key object scope payload m next stamp)"
  by (simp add: triggered_job_def job_ok_def no_lease_def highRisk_def)

lemma triggered_max: "j_max_attempts (triggered_job i kind tenant actor key object scope payload m next stamp) = m"
  by (simp add: triggered_job_def)

lemma retry_kept:
  assumes "table_ok s" and "retryPublication allowed d tenant inst e payload time s = Inr s'"
  shows "kept (Some (publication_job_id tenant inst)) s s'"
proof -
  let ?i = "publication_job_id tenant inst"
  obtain j where j: "job_at s ?i = Some j" "j_status j \<in> {Failed, Uncertain}"
    and fresh: "\<not> list_ex (\<lambda>r. ox_id r = e \<or> ox_key r = e) (db_outbox s)"
    and s': "s' = (upd_job ?i (requeue_publication time) s)\<lparr>db_outbox := db_outbox (upd_job ?i (requeue_publication time) s)
        @ [new_outbox e ?i ''execution.ready'' ''knowledge'' d (RawJson payload) e time time]\<rparr>"
    using assms(2) by (auto simp: retryPublication_def Let_def split: option.splits if_splits)
  have "job_ok j" "1 \<le> j_max_attempts j" using assms(1) job_at_mem [OF j(1)] by (auto simp: table_ok_iff)
  then have "kept (Some ?i) s (upd_job ?i (requeue_publication time) s)"
    by (intro kept_upd [OF assms(1) j(1)]) (simp_all add: requeue_publication_def job_ok_def no_lease_def highRisk_def row_kept_def)
  then show ?thesis unfolding s'
  proof (rule kept_outbox)
    have "outbox_ok (new_outbox e ?i ''execution.ready'' ''knowledge'' d (RawJson payload) e time time)" by simp
    then show "outbox_fine ((upd_job ?i (requeue_publication time) s)\<lparr>db_outbox := db_outbox (upd_job ?i (requeue_publication time) s)
        @ [new_outbox e ?i ''execution.ready'' ''knowledge'' d (RawJson payload) e time time]\<rparr>)"
      using assms(1) fresh by (auto simp: table_ok_iff outbox_fine_def list_ex_iff new_outbox_def)
  qed simp
qed

lemma write_kept: "job_write jq w s s' \<Longrightarrow> table_ok s \<Longrightarrow> kept w s s'"
proof (induction rule: job_write.induct)
  case (jw_link tenant i actor d object scope payload announcement stamp s s')
  then show ?case unfolding knowledge_review_link_def Let_def
    by (auto intro!: trigger_kept triggered_ok simp: triggered_max)
next
  case (jw_decision md5 tenant i version actor object scope announcement stamp s s')
  then show ?case unfolding enqueue_knowledge_publication_def Let_def
    by (auto intro!: trigger_kept triggered_ok simp: triggered_max)
qed (auto intro: store_kept cron_kept mail_kept retry_kept)

section \<open>Chains of writes\<close>

lemma any_writes_ok: "(any_write jq)\<^sup>*\<^sup>* s s' \<Longrightarrow> table_ok s \<Longrightarrow> table_ok s'"
  by (induction rule: rtranclp_induct) (auto simp: any_write_def kept_def dest!: write_kept)

lemma sparing_any: "(write_sparing jq i)\<^sup>*\<^sup>* s s' \<Longrightarrow> (any_write jq)\<^sup>*\<^sup>* s s'"
  by (rule rtranclp_mono [THEN predicate2D]) (auto simp: write_sparing_def any_write_def)

lemma sparing_row:
  assumes "(write_sparing jq i)\<^sup>*\<^sup>* s s'" and "table_ok s" and "job_at s i = Some j"
  shows "\<exists>j'. job_at s' i = Some j' \<and> row_kept False j j'"
  using assms
proof (induction rule: rtranclp_induct)
  case (step y z)
  then obtain j1 where j1: "job_at y i = Some j1" "row_kept False j j1" by blast
  have "table_ok y" using any_writes_ok [OF sparing_any [OF step(1)] assms(2)] .
  moreover obtain w where "job_write jq w y z" "w \<noteq> Some i" using step(2) by (auto simp: write_sparing_def)
  ultimately have "kept w y z" "w \<noteq> Some i" by (auto dest: write_kept)
  then obtain j2 where "job_at z i = Some j2" "row_kept False j1 j2" using keptD [OF _ j1(1), of w z] by auto
  then show ?case using j1(2) by (auto simp: row_kept_def)
qed auto

lemma key_row: "table_ok s \<Longrightarrow> job_by_key s k = Some j \<longleftrightarrow> job_at s (j_id j) = Some j \<and> j_key j = k"
proof -
  assume ok: "table_ok s"
  have "find (\<lambda>x. j_key x = k) js = Some j \<longleftrightarrow> j \<in> set js \<and> j_key j = k" if "distinct (map j_key js)" for js
    using that by (induction js) (auto simp: image_iff)
  then show ?thesis using ok by (auto simp: job_by_key_def job_at_iff table_ok_iff)
qed

lemma writes_key:
  assumes "(any_write jq)\<^sup>*\<^sup>* s s'" and "table_ok s" and "enqueued_id s k = Some i"
  shows "enqueued_id s' k = Some i"
  using assms
proof (induction rule: rtranclp_induct)
  case (step y z)
  have ok: "table_ok y" using step(1) assms(2) by (rule any_writes_ok)
  then obtain w where "kept w y z" using step(2) by (auto simp: any_write_def dest: write_kept)
  moreover obtain j where "job_by_key y k = Some j" "j_id j = i" using step by (auto simp: enqueued_id_def)
  then have j: "job_at y i = Some j" "j_key j = k" using key_row [OF ok] by auto
  ultimately have "table_ok z" "\<exists>j'. job_at z i = Some j' \<and> row_kept (w = Some i) j j'"
    using keptD [OF _ j(1)] by (simp_all add: kept_def)
  then obtain j' where j': "job_at z i = Some j'" "j_key j' = k" "table_ok z" using j(2) by (auto simp: row_kept_def)
  then have "j_id j' = i" using job_at_mem by blast
  then have "job_by_key z k = Some j'" using key_row [OF j'(3)] j' by simp
  then show ?case using \<open>j_id j' = i\<close> by (simp add: enqueued_id_def)
qed auto

section \<open>Claims\<close>

definition claims_job :: "string \<Rightarrow> job_db \<Rightarrow> job \<Rightarrow> job_db \<Rightarrow> bool" where
  \<comment> \<open>a claim, by identifier or of the next job, answered with the job \<open>i\<close>\<close>
  "claims_job i s j s' \<longleftrightarrow>
     (\<exists>w lease now. pgClaimExecutionJobById i w lease now s = (Some j, s'))
     \<or> (\<exists>w types lease locked now. pgClaimNextExecutionJob w types lease locked now s = (Some j, s') \<and> j_id j = i)"

lemma claims_job_cases:
  assumes "claims_job i s j s'" and "table_ok s"
  obtains j0 now where "job_at s i = Some j0" and "ready now j0" and "j_attempts j = j_attempts j0 + 1"
    and "j_risk j = j_risk j0" and "job_at s' i = Some j" and "table_ok s'"
proof -
  have d: "distinct (map j_id (db_jobs s))" using assms(2) by (simp add: table_ok_iff)
  have keeps: "table_ok s'" if "job_handler (=) s c = Inr (r, s')" for c r
    using store_kept [OF assms(2) that] by (simp add: kept_def)
  have row: "job_at s' i = Some j \<and> j_attempts j = j_attempts j0 + 1 \<and> j_risk j = j_risk j0"
    if "job_at s i = Some j0" "j = claim_row t w now j0" "s' = upd_job i (claim_row t w now) s" for j0 t w now
    using job_at_upd [OF that(1), of "claim_row t w now"] that by (simp add: claim_row_def)
  from assms(1) consider w lease now where "pgClaimExecutionJobById i w lease now s = (Some j, s')"
    | w types lease locked now where "pgClaimNextExecutionJob w types lease locked now s = (Some j, s')" "j_id j = i"
    unfolding claims_job_def by blast
  then show thesis
  proof cases
    case 1
    from claim_Some [OF 1] obtain j0 where "job_at s i = Some j0" "ready now j0"
      "j = claim_row (isoAfter now (normalizedLeaseMs lease)) w now j0"
      "s' = upd_job i (claim_row (isoAfter now (normalizedLeaseMs lease)) w now) s" by blast
    moreover have "table_ok s'" by (rule keeps [of "JClaim i w lease now"]) (simp add: 1)
    ultimately show thesis using row that by blast
  next
    case 2
    then obtain j0 js where c: "claim_candidates types locked now s = j0 # js"
      "j = claim_row (isoAfter now (normalizedLeaseMs lease)) w now j0"
      "s' = upd_job (j_id j0) (claim_row (isoAfter now (normalizedLeaseMs lease)) w now) s"
      by (auto simp: pgClaimNextExecutionJob_def Let_def split: list.splits)
    then have "j_id j0 = i" using 2(2) by (simp add: claim_row_def)
    then have "job_at s i = Some j0" "ready now j0" using candidates_ready [OF c(1)] d by (simp_all add: job_at_iff)
    moreover have "table_ok s'" by (rule keeps [of "JClaimNext w types lease locked now"]) (simp add: 2(1))
    ultimately show thesis using row c(2,3) that \<open>j_id j0 = i\<close> by blast
  qed
qed

section \<open>Properties\<close>

text \<open>
  C24. The attempt number is a fencing token: whoever writes the table after a job is claimed, and
  as long as nobody retries the publication this job carries out, a later claim of the same job
  returns a strictly larger attempt number, so two claims of a job never carry the same number.
\<close>

theorem claims_are_fenced:
  assumes "table_ok s0" and "claims_job i s0 j1 s1" and "(write_sparing jq i)\<^sup>*\<^sup>* s1 s2" and "claims_job i s2 j2 s3"
  shows "j_attempts j1 < j_attempts j2"
proof -
  obtain "job_at s1 i = Some j1" "table_ok s1" using claims_job_cases [OF assms(2,1)] by metis
  then obtain j where j: "job_at s2 i = Some j" "row_kept False j1 j" using sparing_row [OF assms(3)] by blast
  have "table_ok s2" using \<open>table_ok s1\<close> by (rule any_writes_ok [OF sparing_any [OF assms(3)]])
  then obtain j0 where "job_at s2 i = Some j0" "j_attempts j2 = j_attempts j0 + 1"
    using claims_job_cases [OF assms(4)] by metis
  then show ?thesis using j by (simp add: row_kept_def)
qed

text \<open>
  C25. A job of high or critical risk is executed at most once: whoever writes the table after its
  first claim, and as long as nobody retries the publication this job carries out, no claim, by
  identifier or of the next job, ever returns it again, so a failure or a lost lease leaves it for
  a person to settle.
\<close>

theorem high_risk_claimed_once:
  assumes "table_ok s0" and "claims_job i s0 j1 s1" and "j_risk j1 \<in> {High, Critical}"
    and "(write_sparing jq i)\<^sup>*\<^sup>* s1 s2"
  shows "\<not> claims_job i s2 j2 s3"
proof
  assume c: "claims_job i s2 j2 s3"
  obtain j0 where s1: "job_at s0 i = Some j0" "j_attempts j1 = j_attempts j0 + 1" "job_at s1 i = Some j1" "table_ok s1"
    using claims_job_cases [OF assms(2,1)] by metis
  have "job_ok j0" using assms(1) job_at_ok [OF _ s1(1)] by (simp add: table_ok_def)
  then have "1 \<le> j_attempts j1" using s1(2) job_ok_nonneg by force
  moreover obtain j where j: "job_at s2 i = Some j" "row_kept False j1 j" using sparing_row [OF assms(4) s1(4,3)] by blast
  ultimately have risky: "1 \<le> j_attempts j" "highRisk j" using assms(3) by (auto simp: row_kept_def highRisk_def)
  have ok: "table_ok s2" using s1(4) by (rule any_writes_ok [OF sparing_any [OF assms(4)]])
  obtain j' now where j': "job_at s2 i = Some j'" "ready now j'" using claims_job_cases [OF c ok] by metis
  have "job_ok j" using ok job_at_ok [OF _ j(1)] by (simp add: table_ok_def)
  then show False using job_ok_highRisk [OF _ risky(2,1)] j' j(1) by (auto simp: ready_def)
qed

lemma enqueue_answers:
  assumes "pgEnqueueExecutionJob jq input d i obx now s = Inr ((j, created), s')"
  shows "(\<not> created \<and> s' = s \<and> (job_by_key s (ji_key input) = Some j \<or> d \<and> j \<in> set (db_jobs s) \<and> active_duplicate jq input j))
    \<or> (created \<and> job_by_key s (ji_key input) = None \<and> j = new_job input i now \<and> db_jobs s' = db_jobs s @ [j])"
proof (cases "if d then find (active_duplicate jq input) (db_jobs s) else None")
  case None
  then have "pgEnqueueExecutionJob jq input d i obx now s = pgEnqueueExecutionJob jq input False i obx now s"
    by (simp add: pgEnqueueExecutionJob_def)
  then show ?thesis using enqueue_cases [of jq input i obx now s j created s'] assms by auto
next
  case (Some x)
  then show ?thesis using assms by (auto simp: pgEnqueueExecutionJob_def dest: find_SomeD split: if_splits)
qed

text \<open>
  C26. Enqueueing is idempotent: once an enqueue has put a job under an idempotency key or found it
  there, whoever writes the table in between, any later enqueue under that key creates nothing and
  changes neither table; it returns the same job, unless it asks for the deduplication of active
  jobs, when it may return an active job of the same tenant, actor, type and object instead.
\<close>

theorem enqueue_exactly_once:
  assumes "table_ok s" and "pgEnqueueExecutionJob jq input d i obx now s = Inr ((j, created), s1)" and "created \<or> \<not> d"
    and "(any_write jq')\<^sup>*\<^sup>* s1 s2" and "ji_key input' = ji_key input"
    and "pgEnqueueExecutionJob jq input' d' i' obx' now' s2 = Inr ((j', created'), s3)"
  shows "s3 = s2 \<and> \<not> created'
    \<and> (j_id j' = j_id j \<or> d' \<and> j' \<in> set (db_jobs s2) \<and> active_duplicate jq input' j')"
proof -
  have "find (\<lambda>x. j_key x = k) xs = None \<Longrightarrow> find (\<lambda>x. j_key x = k) (xs @ [y]) = (if j_key y = k then Some y else None)"
    for k xs and y :: job
    by (induction xs) auto
  then have "enqueued_id s1 (ji_key input) = Some (j_id j)"
    using enqueue_answers [OF assms(2)] assms(3) by (auto simp: enqueued_id_def job_by_key_def new_job_def)
  moreover have "job_handler jq s (JEnqueue input d i obx now) = Inr (AEnqueued j created, s1)" using assms(2) by simp
  then have "table_ok s1" using store_kept [OF assms(1)] unfolding kept_def by blast
  ultimately have "enqueued_id s2 (ji_key input') = Some (j_id j)" using writes_key [OF assms(4)] assms(5) by simp
  then show ?thesis using enqueue_answers [OF assms(6)] by (auto simp: enqueued_id_def)
qed

section \<open>A retried publication starts over\<close>

definition publication_row :: job where
  "publication_row = triggered_job (publication_job_id ''t'' ''r'') ''knowledge.publish'' ''t'' ''u''
     (publication_job_id ''t'' ''r'') ''{}'' ''{}'' ''{}'' 3 None 0"

definition publication_claimed :: job where
  "publication_claimed = claim_row 60000 ''w'' 0 publication_row"

definition publication_lost :: job where
  "publication_lost = quarantine_row ''x'' [] 5 publication_claimed"

definition publication_again :: job where
  "publication_again = claim_row 60020 ''w2'' 20 (requeue_publication 10 publication_lost)"

lemmas publication_defs = publication_again_def publication_lost_def publication_claimed_def publication_row_def
  triggered_job_def claim_row_def quarantine_row_def requeue_publication_def

text \<open>
  The job of an approved publication, enqueued by the trigger, is claimed, becomes uncertain, is
  retried by an administrator and is claimed once more, again as attempt one: a job of high risk
  that runs twice, under the same attempt number.
\<close>

lemma retry_breaks_fencing:
  "\<exists>s0 s1 s2 s3 s4. knowledge_review_link ''t'' ''r'' ''u'' ''d'' ''{}'' ''{}'' ''{}'' ''{}'' 0 empty_db = Inr s0
    \<and> claims_job (publication_job_id ''t'' ''r'') s0 publication_claimed s1
    \<and> pgQuarantineExecutionJob (publication_job_id ''t'' ''r'') ''x'' [] 5 s1 = (Some publication_lost, s2)
    \<and> retryPublication True ''d'' ''t'' ''r'' ''e'' ''{}'' 10 s2 = Inr s3
    \<and> claims_job (publication_job_id ''t'' ''r'') s3 publication_again s4
    \<and> highRisk publication_again \<and> j_attempts publication_again = j_attempts publication_claimed"
proof -
  define i where "i = publication_job_id ''t'' ''r''"
  define o1 where "o1 = new_outbox (i @ '':dispatch'') i ''execution.ready'' ''knowledge'' ''d'' (RawJson ''{}'') (i @ '':dispatch'') 0 0"
  define o2 where "o2 = new_outbox ''e'' i ''execution.ready'' ''knowledge'' ''d'' (RawJson ''{}'') ''e'' 10 10"
  have ids: "j_id publication_row = i" "j_id publication_claimed = i" "j_id publication_lost = i"
    by (simp_all add: publication_defs i_def)
  have "knowledge_review_link ''t'' ''r'' ''u'' ''d'' ''{}'' ''{}'' ''{}'' ''{}'' 0 empty_db
      = Inr \<lparr>db_jobs = [publication_row], db_outbox = [o1]\<rparr>"
    by (simp add: knowledge_review_link_def trigger_insert_def add_outbox_def empty_db_def publication_row_def o1_def i_def Let_def)
  moreover have "pgClaimExecutionJobById i ''w'' None 0 \<lparr>db_jobs = [publication_row], db_outbox = [o1]\<rparr>
      = (Some publication_claimed, \<lparr>db_jobs = [publication_claimed], db_outbox = [o1]\<rparr>)"
    by (simp add: pgClaimExecutionJobById_def job_at_def ids upd_job_def ready_def normalizedLeaseMs_def isoAfter_def Let_def
        publication_claimed_def) (simp add: publication_row_def triggered_job_def)
  moreover have "pgQuarantineExecutionJob i ''x'' [] 5 \<lparr>db_jobs = [publication_claimed], db_outbox = [o1]\<rparr>
      = (Some publication_lost, \<lparr>db_jobs = [publication_lost], db_outbox = [o1]\<rparr>)"
    by (simp add: pgQuarantineExecutionJob_def job_at_def ids upd_job_def publication_lost_def)
      (simp add: publication_claimed_def claim_row_def)
  moreover have "retryPublication True ''d'' ''t'' ''r'' ''e'' ''{}'' 10 \<lparr>db_jobs = [publication_lost], db_outbox = [o1]\<rparr>
      = Inr \<lparr>db_jobs = [requeue_publication 10 publication_lost], db_outbox = [o1, o2]\<rparr>"
    by (simp add: retryPublication_def job_at_def i_def [symmetric] ids upd_job_def o2_def Let_def)
      (simp add: publication_lost_def quarantine_row_def o1_def new_outbox_def i_def publication_job_id_def)
  moreover have "pgClaimExecutionJobById i ''w2'' None 20 \<lparr>db_jobs = [requeue_publication 10 publication_lost], db_outbox = [o1, o2]\<rparr>
      = (Some publication_again, \<lparr>db_jobs = [publication_again], db_outbox = [o1, o2]\<rparr>)"
    by (simp add: pgClaimExecutionJobById_def job_at_def upd_job_def ready_def normalizedLeaseMs_def isoAfter_def Let_def
        publication_again_def requeue_publication_def ids)
  moreover have "highRisk publication_again \<and> j_attempts publication_again = j_attempts publication_claimed"
    by (simp add: publication_defs highRisk_def)
  ultimately show ?thesis unfolding claims_job_def i_def [symmetric] by blast
qed

section \<open>Witnesses\<close>

lemma sample_table_ok: "table_ok (sample_db [sample_job r])"
  unfolding table_ok_def using sample_db_ok by (simp add: sample_db_def)

lemma sample_claims: "claims_job ''job_1'' (sample_db [sample_job r]) (running_job r) (sample_db [running_job r])"
  using sample_claim claims_job_def by blast

lemma failed_writes: "(write_sparing jq i)\<^sup>*\<^sup>* (sample_db [running_job Low]) retrying_db"
proof -
  have "job_handler jq (sample_db [running_job Low]) (JFail ''job_1'' ''timeout'' [] sample_options ''obx_1'' 0)
      = Inr (AJob (Some (fail_row sample_options ''timeout'' [] 0 (running_job Low))), retrying_db)"
    by (simp add: retrying_step)
  then have "job_write jq None (sample_db [running_job Low]) retrying_db" by (rule jw_store)
  then have "write_sparing jq i (sample_db [running_job Low]) retrying_db" unfolding write_sparing_def by blast
  then show ?thesis by (rule r_into_rtranclp)
qed

theorem claims_are_fenced_witness:
  "\<exists>j2 s3. pgClaimExecutionJobById ''job_1'' ''w2'' None 2000 retrying_db = (Some j2, s3) \<and> 1 < j_attempts j2"
proof -
  obtain j2 s3 where s: "pgClaimExecutionJobById ''job_1'' ''w2'' None 2000 retrying_db = (Some j2, s3)"
    using second_claim by blast
  then have "claims_job ''job_1'' retrying_db j2 s3" using claims_job_def by blast
  from claims_are_fenced [OF sample_table_ok sample_claims failed_writes this] s show ?thesis by auto
qed

theorem high_risk_claimed_once_witness:
  "\<not> (\<exists>j2 s3. claims_job ''job_1'' (snd (pgQuarantineExecutionJob ''job_1'' ''x'' [] 1 (sample_db [running_job High]))) j2 s3)"
proof -
  have "job_handler (=) (sample_db [running_job High]) (JQuarantine ''job_1'' ''x'' [] 1)
      = Inr (AJob (fst (pgQuarantineExecutionJob ''job_1'' ''x'' [] 1 (sample_db [running_job High]))),
          snd (pgQuarantineExecutionJob ''job_1'' ''x'' [] 1 (sample_db [running_job High])))"
    by (simp add: map_prod_def split_beta)
  then have "job_write (=) None (sample_db [running_job High])
      (snd (pgQuarantineExecutionJob ''job_1'' ''x'' [] 1 (sample_db [running_job High])))" by (rule jw_store)
  then have "write_sparing (=) ''job_1'' (sample_db [running_job High])
      (snd (pgQuarantineExecutionJob ''job_1'' ''x'' [] 1 (sample_db [running_job High])))"
    unfolding write_sparing_def by blast
  from high_risk_claimed_once [OF sample_table_ok sample_claims _ r_into_rtranclp, OF _ this] show ?thesis by simp
qed

theorem enqueue_exactly_once_witness:
  "\<exists>j s1. pgEnqueueExecutionJob (=) (sample_input Low) True ''job_1'' ''obx_1'' 0 empty_db = Inr ((j, True), s1)
    \<and> (\<exists>j'. pgEnqueueExecutionJob (=) (sample_input Low) False ''job_2'' ''obx_2'' 9 s1 = Inr ((j', False), s1)
         \<and> j_id j' = j_id j)"
proof -
  obtain j s1 where one: "pgEnqueueExecutionJob (=) (sample_input Low) True ''job_1'' ''obx_1'' 0 empty_db = Inr ((j, True), s1)"
    by (auto simp: pgEnqueueExecutionJob_def empty_db_def Let_def add_outbox_def split: option.splits)
  then have "db_jobs s1 = [new_job (sample_input Low) ''job_1'' 0]"
    using enqueue_answers [OF one] by (simp add: empty_db_def)
  then have "pgEnqueueExecutionJob (=) (sample_input Low) False ''job_2'' ''obx_2'' 9 s1
      = Inr ((new_job (sample_input Low) ''job_1'' 0, False), s1)"
    by (simp add: pgEnqueueExecutionJob_def job_by_key_def new_job_def)
  with enqueue_exactly_once [OF empty_table_ok one _ rtranclp.rtrancl_refl refl this] one show ?thesis by auto
qed

end
