(* ===== verification/Dispatcher.thy ===== *)
theory Dispatcher
  imports Outbox_Properties
begin

text \<open>
  \<open>backend/src/execution-jobs/dispatcher.ts\<close>: how the outcome of an executor settles a claimed
  job.  The executors are business packages and stand as an argument, what they returned or threw;
  \<open>registered\<close> is the handler registry of \<open>handlers.ts\<close> and \<open>mail_failure\<close> is
  \<open>mailSyncDispatchFailure\<close>.  The state is the store when the executor comes back, after whatever
  other workers did to it.
\<close>

datatype thrown =
    NotDispatched string           \<comment> \<open>\<open>ExecutionNotDispatched\<close> with its code\<close>
  | OtherError utext

datatype executor_result = Returned string "string option" | Threw thrown

record mail_failure =
  mf_code :: string
  mf_summary :: utext
  mf_terminal :: bool
  mf_retry_after :: "int option"

datatype dispatch_outcome = Processed | Duplicate | FailedOutcome

record dispatch_result =
  dr_job :: string
  dr_type :: string
  dr_handled :: bool
  dr_outcome :: dispatch_outcome
  dr_target :: "string option"

definition dispatched :: "job \<Rightarrow> bool \<Rightarrow> dispatch_outcome \<Rightarrow> string option \<Rightarrow> dispatch_result" where
  "dispatched claimed handled outcome target =
    \<lparr>dr_job = j_id claimed, dr_type = j_type claimed, dr_handled = handled, dr_outcome = outcome, dr_target = target\<rparr>"

definition no_options :: fail_options where
  "no_options = \<lparr>fo_retry_at = None, fo_expected_worker = None, fo_not_dispatched = False\<rparr>"

definition checkpoint :: "job \<Rightarrow> job_db \<Rightarrow> bool" where
  "checkpoint claimed s \<longleftrightarrow>
    (case job_at s (j_id claimed) of
       None \<Rightarrow> False
     | Some current \<Rightarrow> j_status current = Running \<and> j_lease_owner current = j_lease_owner claimed)"

definition CLAIM_LOST :: thrown where
  "CLAIM_LOST = OtherError (ascii_text ''execution_job_claim_lost_or_cancelled'')"

definition fail_with ::
  "job \<Rightarrow> bool \<Rightarrow> string \<Rightarrow> utext \<Rightarrow> fail_options \<Rightarrow> string \<Rightarrow> int \<Rightarrow> job_db \<Rightarrow> job_error + dispatch_result \<times> job_db" where
  "fail_with claimed handled code summary opts obx now s =
    (case pgFailExecutionJob (j_id claimed) code summary opts obx now s of
       Inl e \<Rightarrow> Inl e
     | Inr (_, s') \<Rightarrow> Inr (dispatched claimed handled FailedOutcome None, s'))"

text \<open>The \<open>catch\<close> block.\<close>

definition on_error ::
  "(thrown \<Rightarrow> mail_failure option) \<Rightarrow> job \<Rightarrow> thrown \<Rightarrow> string \<Rightarrow> int \<Rightarrow> job_db \<Rightarrow> job_error + dispatch_result \<times> job_db" where
  "on_error mail_fail claimed err obx now s =
    (let owner = no_options\<lparr>fo_expected_worker := j_lease_owner claimed\<rparr>;
         generic = fail_with claimed True ''execution_handler_error''
           (case err of OtherError m \<Rightarrow> m | NotDispatched code \<Rightarrow> ascii_text code) owner obx now s
     in case err of
          NotDispatched code \<Rightarrow>
            fail_with claimed True code (ascii_text code) (owner\<lparr>fo_not_dispatched := True\<rparr>) obx now s
        | OtherError m \<Rightarrow>
            (if j_type claimed = ''mail.sync'' then
               (case mail_fail err of
                  Some f \<Rightarrow> fail_with claimed True (mf_code f) (mf_summary f)
                    (owner\<lparr>fo_retry_at := map_option (\<lambda>d. now + d) (mf_retry_after f),
                           fo_not_dispatched := mf_terminal f\<rparr>) obx now s
                | None \<Rightarrow> generic)
             else generic))"

text \<open>Complete under the name of the worker, after a last checkpoint.\<close>

definition settle_named ::
  "(thrown \<Rightarrow> mail_failure option) \<Rightarrow> job \<Rightarrow> string \<Rightarrow> string \<Rightarrow> int \<Rightarrow> job_db \<Rightarrow> job_error + dispatch_result \<times> job_db" where
  "settle_named mail_fail claimed receipt obx now s =
    (if \<not> checkpoint claimed s then on_error mail_fail claimed CLAIM_LOST obx now s
     else (let (completed, s') = pgCompleteExecutionJob (j_id claimed) receipt now (j_lease_owner claimed) s
           in Inr (dispatched claimed True (if completed \<noteq> None then Processed else Duplicate) None, s')))"

definition dispatchClaimedExecutionJobInner ::
  "(string \<Rightarrow> bool) \<Rightarrow> (thrown \<Rightarrow> mail_failure option) \<Rightarrow> (string \<Rightarrow> string option) \<Rightarrow> job \<Rightarrow> executor_result
     \<Rightarrow> string \<Rightarrow> int \<Rightarrow> job_db \<Rightarrow> job_error + dispatch_result \<times> job_db" where
  \<comment> \<open>\<open>decision_id\<close> reads the trimmed \<open>decision_id\<close> of the payload, \<open>None\<close> when it is empty\<close>
  "dispatchClaimedExecutionJobInner registered mail_fail decision_id claimed result obx now s =
    (let t = j_type claimed in
     if t = ''review.timeout'' then
       (case result of
          Threw err \<Rightarrow> on_error mail_fail claimed err obx now s
        | Returned _ target \<Rightarrow> Inr (dispatched claimed True Processed target, s))
     else if registered t \<or> t = ''mail.sync'' then
       (case result of
          Threw err \<Rightarrow> on_error mail_fail claimed err obx now s
        | Returned receipt _ \<Rightarrow> settle_named mail_fail claimed receipt obx now s)
     else if t = ''cron.run'' then
       (case result of
          Threw err \<Rightarrow> on_error mail_fail claimed err obx now s
        | Returned _ target \<Rightarrow> Inr (dispatched claimed True Processed target, s))
     else if t = ''work_order.materialize'' \<or> t = ''work_order.advance_stage'' then
       (case decision_id (j_payload claimed) of
          None \<Rightarrow> fail_with claimed False ''work_order_decision_id_missing''
            (ascii_text (if t = ''work_order.materialize''
               then ''AI work-order materialization job has no decision_id''
               else ''AI work-order stage job has no decision_id'')) no_options obx now s
        | Some d \<Rightarrow>
           (case result of
              Threw err \<Rightarrow> on_error mail_fail claimed err obx now s
            | Returned receipt target \<Rightarrow>
               Inr (dispatched claimed True Processed (Some (case or_null target of None \<Rightarrow> d | Some x \<Rightarrow> x)),
                    snd (pgCompleteExecutionJob (j_id claimed) receipt now None s))))
     else if t = ''work_plan.run'' \<or> t = ''today_analyze.run'' then
       (case result of
          Threw err \<Rightarrow> on_error mail_fail claimed err obx now s
        | Returned receipt target \<Rightarrow>
           Inr (dispatched claimed True Processed
                  (case or_null target of Some x \<Rightarrow> Some x | None \<Rightarrow> or_null (j_ticket claimed)),
                snd (pgCompleteExecutionJob (j_id claimed) receipt now (j_lease_owner claimed) s)))
     else fail_with claimed False ''unsupported_job_type''
            (ascii_text (''No durable execution handler registered for '' @ t)) no_options obx now s)"

definition dispatch_lease_ms :: "int option \<Rightarrow> int" where
  "dispatch_lease_ms lease = max 1000 (case lease of None \<Rightarrow> 60000 | Some v \<Rightarrow> if v = 0 then 60000 else v)"

definition dispatch_renew_ms :: "int option \<Rightarrow> int option \<Rightarrow> int" where
  "dispatch_renew_ms lease renew =
    (let leaseMs = dispatch_lease_ms lease
     in max 500 (min (leaseMs - 100)
          (case renew of None \<Rightarrow> leaseMs div 3 | Some v \<Rightarrow> if v = 0 then leaseMs div 3 else v)))"

definition processExecutionJobById ::
  "(string \<Rightarrow> bool) \<Rightarrow> (thrown \<Rightarrow> mail_failure option) \<Rightarrow> (string \<Rightarrow> string option)
    \<Rightarrow> (job \<Rightarrow> job_db \<Rightarrow> executor_result \<times> job_db) \<Rightarrow> string \<Rightarrow> string \<Rightarrow> int option \<Rightarrow> string \<Rightarrow> int \<Rightarrow> int \<Rightarrow> job_db
    \<Rightarrow> job_error + dispatch_result option \<times> job_db" where
  \<comment> \<open>\<open>execute\<close> is the executor, with whatever other workers do to the store while it runs\<close>
  "processExecutionJobById registered mail_fail decision_id execute i workerId lease obx now later s =
    (case pgClaimExecutionJobById i workerId lease now s of
       (None, s1) \<Rightarrow> Inr (None, s1)
     | (Some claimed, s1) \<Rightarrow>
        (let (result, s2) = execute claimed s1 in
         case dispatchClaimedExecutionJobInner registered mail_fail decision_id claimed result obx later s2 of
           Inl e \<Rightarrow> Inl e
         | Inr (r, s3) \<Rightarrow> Inr (Some r, s3)))"

section \<open>Properties\<close>

definition named_types :: "(string \<Rightarrow> bool) \<Rightarrow> string \<Rightarrow> bool" where
  \<comment> \<open>job types whose receipt is recorded under the name of the worker\<close>
  "named_types registered t \<longleftrightarrow> t \<noteq> ''review.timeout''
     \<and> (registered t \<or> t \<in> {''mail.sync'', ''work_plan.run'', ''today_analyze.run''})"

lemma fail_with_fenced:
  assumes "job_at s (j_id claimed) = Some j" and "j_lease_owner j \<noteq> j_lease_owner claimed"
    and "j_lease_owner claimed = Some w" and "w \<noteq> []" and "fo_expected_worker opts = Some w"
  shows "fail_with claimed handled code summary opts obx now s = Inr (dispatched claimed handled FailedOutcome None, s)"
proof -
  have "or_null (Some w) = Some w" using assms(4) by (cases w) (simp_all add: or_null_def)
  then show ?thesis using assms by (simp add: fail_with_def pgFailExecutionJob_def)
qed

lemma on_error_fenced:
  assumes "job_at s (j_id claimed) = Some j" and "j_lease_owner j \<noteq> j_lease_owner claimed"
    and "j_lease_owner claimed = Some w" and "w \<noteq> []"
  shows "on_error mail_fail claimed err obx now s = Inr (dispatched claimed True FailedOutcome None, s)"
  using assms fail_with_fenced [OF assms]
  by (cases err) (auto simp: on_error_def Let_def split: option.split)

text \<open>
  A worker that lost its claim changes nothing when its executor comes back: for every job type
  whose receipt is recorded under the worker's name, and for every error of any type, the dispatcher
  leaves both tables as they are while another worker, or nobody, holds the job.
\<close>

theorem stale_dispatch_is_fenced:
  assumes "job_at s (j_id claimed) = Some j" and "j_lease_owner j \<noteq> Some w"
    and "j_lease_owner claimed = Some w" and "w \<noteq> []"
    and "named_types registered (j_type claimed) \<or> (\<exists>err. result = Threw err \<and> j_type claimed \<in> {''review.timeout'', ''cron.run''})"
  shows "\<exists>r. dispatchClaimedExecutionJobInner registered mail_fail decision_id claimed result obx now s = Inr (r, s)"
proof -
  have ne: "j_lease_owner j \<noteq> j_lease_owner claimed" using assms(2,3) by simp
  have w: "or_null (Some w) = Some w" using assms(4) by (cases w) (simp_all add: or_null_def)
  note err = on_error_fenced [OF assms(1) ne assms(3,4)]
  have named: "settle_named mail_fail claimed receipt obx now s = Inr (dispatched claimed True FailedOutcome None, s)" for receipt
    using assms(1) ne by (simp add: settle_named_def checkpoint_def err)
  have complete: "snd (pgCompleteExecutionJob (j_id claimed) receipt now (j_lease_owner claimed) s) = s" for receipt
    using assms(1,2,3) w by (simp add: pgCompleteExecutionJob_def)
  show ?thesis using assms(5)
    by (cases result)
      (auto simp: dispatchClaimedExecutionJobInner_def named_types_def Let_def err named complete)
qed

text \<open>
  C29. The work-order executors are not fenced: when a work-order executor comes back after its lease
  lapsed and another worker claimed the job again, the dispatcher completes the job over the new
  holder's claim.
\<close>

theorem stale_work_order_takes_over:
  assumes "job_at s (j_id claimed) = Some j" and "j_status j = Running" and "j_lease_owner j \<noteq> j_lease_owner claimed"
    and "j_type claimed \<in> {''work_order.materialize'', ''work_order.advance_stage''}"
    and "\<not> registered (j_type claimed)" and "decision_id (j_payload claimed) = Some d"
  shows "\<exists>r s'. dispatchClaimedExecutionJobInner registered mail_fail decision_id claimed (Returned receipt target) obx now s
      = Inr (r, s') \<and> dr_outcome r = Processed \<and> job_at s' (j_id claimed) = Some (complete_row receipt now j)"
  using assms job_at_upd [OF assms(1), of "complete_row receipt now"]
  by (auto simp: dispatchClaimedExecutionJobInner_def Let_def dispatched_def pgCompleteExecutionJob_def or_null_def)

text \<open>
  Lease renewal comes in time exactly for leases below half an hour: with the default renewal
  interval the dispatcher renews before the lease the store granted runs out if and only if the
  configured lease is below 1 800 000 ms, because the store caps a lease at ten minutes while the
  interval is a third of the uncapped value.
\<close>

theorem renewal_in_time_iff:
  "dispatch_renew_ms lease None < normalizedLeaseMs (Some (dispatch_lease_ms lease))
   \<longleftrightarrow> dispatch_lease_ms lease < 1800000"
proof -
  have "1000 \<le> dispatch_lease_ms lease" by (simp add: dispatch_lease_ms_def)
  then show ?thesis by (simp add: dispatch_renew_ms_def normalizedLeaseMs_def Let_def) linarith
qed

section \<open>Witnesses\<close>

theorem stale_dispatch_is_fenced_witness:
  "\<exists>r. dispatchClaimedExecutionJobInner (\<lambda>_. False) (\<lambda>_. None) (\<lambda>_. None)
      ((running_job Low)\<lparr>j_lease_owner := Some ''w9''\<rparr>) (Returned ''{}'' None) ''obx_1'' 5 (sample_db [running_job Low])
    = Inr (r, sample_db [running_job Low])"
  by (rule stale_dispatch_is_fenced [where j = "running_job Low" and w = "''w9''"])
    (simp_all add: named_types_def, simp add: running_job_def claim_row_def sample_job_def new_job_def sample_input_def)

theorem stale_work_order_takes_over_witness:
  "\<exists>r s'. dispatchClaimedExecutionJobInner (\<lambda>_. False) (\<lambda>_. None) (\<lambda>_. Some ''d'')
      ((running_job Low)\<lparr>j_type := ''work_order.materialize'', j_lease_owner := Some ''w9''\<rparr>) (Returned ''{}'' None) ''obx_1'' 5
      (sample_db [running_job Low])
    = Inr (r, s') \<and> dr_outcome r = Processed \<and> job_at s' ''job_1'' = Some (complete_row ''{}'' 5 (running_job Low))"
  using stale_work_order_takes_over [of "sample_db [running_job Low]"
      "(running_job Low)\<lparr>j_type := ''work_order.materialize'', j_lease_owner := Some ''w9''\<rparr>" "running_job Low"
      "\<lambda>_. False" "\<lambda>_. Some ''d''" "''d''" "\<lambda>_. None" "''{}''" None "''obx_1''" 5]
  by simp

end
