(* ===== verification/Review_Numeric.thy ===== *)
theory Review_Numeric
  imports Prelude
begin

text \<open>
  \<open>backend/src/approval/review-numeric.ts\<close>: exact decimal and money values of review forms, kept
  as text and never as floating point numbers.  A form value is a JavaScript value of type \<open>js\<close>;
  numbers are rationals, which holds every finite number exactly.  \<open>decimal_value\<close> is the
  reference: the rational a decimal text denotes in positional notation.
\<close>

section \<open>Field configuration\<close>

record numeric_config =
  n_precision :: rat
  n_scale :: rat
  n_min :: "string option"
  n_max :: "string option"
  n_extra :: "string list"  \<comment> \<open>other own keys\<close>

record review_field =
  f_id :: string
  f_label :: utext
  f_type :: string
  f_required :: bool
  f_options :: "string list option"
  f_numeric :: "numeric_config option"
  f_currencies :: "string list option"
  f_currencySource :: "string option"
  f_extra :: "string list"

section \<open>Decimal text\<close>

record decimal =
  d_units :: int
  d_scale :: nat
  d_integerDigits :: nat

definition is_digit :: "char \<Rightarrow> bool" where
  "is_digit c \<longleftrightarrow> 48 \<le> (of_char c :: nat) \<and> (of_char c :: nat) \<le> 57"

definition digit_value :: "char \<Rightarrow> int" where
  "digit_value c = int (of_char c) - 48"

definition digits_value :: "string \<Rightarrow> int" where
  "digits_value s = foldl (\<lambda>n c. n * 10 + digit_value c) 0 s"

definition strip_minus :: "string \<Rightarrow> string" where
  "strip_minus s = (if s \<noteq> [] \<and> hd s = CHR ''-'' then tl s else s)"

definition decimal_shape :: "string \<Rightarrow> bool" where
  \<comment> \<open>\<open>/^-?(0|[1-9]\d*)(\.\d+)?$/\<close>\<close>
  "decimal_shape s =
    (let body = strip_minus s; int_part = takeWhile is_digit body; rest = dropWhile is_digit body in
     (int_part = ''0'' \<or> (int_part \<noteq> [] \<and> hd int_part \<noteq> CHR ''0''))
     \<and> (rest = [] \<or> (hd rest = CHR ''.'' \<and> tl rest \<noteq> [] \<and> list_all is_digit (tl rest))))"

definition integer_text :: "string \<Rightarrow> string" where
  "integer_text s = takeWhile is_digit (strip_minus s)"

definition fraction_text :: "string \<Rightarrow> string" where
  "fraction_text s = tl (dropWhile is_digit (strip_minus s))"

definition negative_text :: "string \<Rightarrow> bool" where
  "negative_text s \<longleftrightarrow> s \<noteq> [] \<and> hd s = CHR ''-''"

definition decimalParts :: "js \<Rightarrow> decimal option" where
  "decimalParts value =
    (case value of
       JStr s \<Rightarrow>
         if 60 < length s \<or> \<not> decimal_shape s then None
         else Some \<lparr>d_units = (if negative_text s then - 1 else 1) * digits_value (integer_text s @ fraction_text s),
                    d_scale = length (fraction_text s),
                    d_integerDigits = (if integer_text s = ''0'' then 0 else length (integer_text s))\<rparr>
     | _ \<Rightarrow> None)"

definition compareDecimal :: "string \<Rightarrow> string \<Rightarrow> int option" where
  \<comment> \<open>\<open>None\<close>: it throws\<close>
  "compareDecimal left right =
    (case (decimalParts (JStr left), decimalParts (JStr right)) of
       (Some a, Some b) \<Rightarrow>
         (let scale = max (d_scale a) (d_scale b);
              x = d_units a * 10 ^ (scale - d_scale a);
              y = d_units b * 10 ^ (scale - d_scale b)
          in Some (if x < y then - 1 else if x > y then 1 else 0))
     | _ \<Rightarrow> None)"

definition meets_bound :: "(int \<Rightarrow> bool) \<Rightarrow> string \<Rightarrow> string option \<Rightarrow> bool" where
  \<comment> \<open>\<open>!bound || test(compareDecimal(value, bound))\<close>\<close>
  "meets_bound test v bound =
    (case bound of
       None \<Rightarrow> True
     | Some b \<Rightarrow> b = [] \<or> (case compareDecimal v b of None \<Rightarrow> False | Some c \<Rightarrow> test c))"

definition bound_ok :: "string option \<Rightarrow> bool" where
  "bound_ok b = (case b of None \<Rightarrow> True | Some s \<Rightarrow> decimalParts (JStr s) \<noteq> None)"

definition precision_ok :: "numeric_config \<Rightarrow> bool" where
  "precision_ok n \<longleftrightarrow>
     is_integer (n_precision n) \<and> 1 \<le> n_precision n \<and> n_precision n \<le> 38
     \<and> is_integer (n_scale n) \<and> 0 \<le> n_scale n \<and> n_scale n \<le> 18 \<and> n_scale n \<le> n_precision n"

definition validDecimal :: "js \<Rightarrow> review_field \<Rightarrow> bool \<Rightarrow> bool" where
  "validDecimal value field checkBounds =
    (case (decimalParts value, f_numeric field, value) of
       (Some p, Some n, JStr s) \<Rightarrow>
         precision_ok n \<and> rat_of_nat (d_scale p) \<le> n_scale n
         \<and> rat_of_nat (d_integerDigits p) \<le> n_precision n - n_scale n
         \<and> (checkBounds \<longrightarrow> bound_ok (n_min n) \<and> bound_ok (n_max n)
              \<and> meets_bound (\<lambda>c. 0 \<le> c) s (n_min n) \<and> meets_bound (\<lambda>c. c \<le> 0) s (n_max n))
     | _ \<Rightarrow> False)"

definition validMoney :: "js \<Rightarrow> review_field \<Rightarrow> bool \<Rightarrow> bool" where
  "validMoney value field checkBounds =
    (case value of
       JObj kvs \<Rightarrow>
         list_all (\<lambda>(k, _). k = ''amount'' \<or> k = ''currency'') kvs
         \<and> validDecimal (js_field ''amount'' kvs) field checkBounds
         \<and> (case (js_field ''currency'' kvs, f_currencies field) of
              (JStr c, Some cs) \<Rightarrow> c \<in> set cs
            | _ \<Rightarrow> False)
     | _ \<Rightarrow> False)"

section \<open>Configuration errors\<close>

datatype numeric_error =
    NumericOnlyForExact | PrecisionRange | BoundsFormat | BoundsOrder | CurrencyDictionary | CurrencySource
  | CurrenciesOnlyForMoney

definition upper3 :: "string \<Rightarrow> bool" where
  \<comment> \<open>\<open>/^[A-Z]{3}$/\<close>\<close>
  "upper3 s \<longleftrightarrow> length s = 3 \<and> list_all (\<lambda>c. 65 \<le> (of_char c :: nat) \<and> (of_char c :: nat) \<le> 90) s"

definition bound_error :: "review_field \<Rightarrow> string option \<Rightarrow> numeric_error list" where
  "bound_error field b =
    (case b of None \<Rightarrow> [] | Some s \<Rightarrow> if validDecimal (JStr s) field False then [] else [BoundsFormat])"

definition numericConfigurationErrors :: "review_field \<Rightarrow> numeric_error list" where
  "numericConfigurationErrors field =
    (if f_type field \<noteq> ''decimal'' \<and> f_type field \<noteq> ''money'' then
       (if f_numeric field \<noteq> None \<or> f_currencies field \<noteq> None
           \<or> (case f_currencySource field of None \<Rightarrow> False | Some s \<Rightarrow> s \<noteq> [])
        then [NumericOnlyForExact] else [])
     else
       (case f_numeric field of
          None \<Rightarrow> [PrecisionRange]
        | Some n \<Rightarrow>
            if n_extra n \<noteq> [] \<or> \<not> precision_ok n then [PrecisionRange]
            else
              (let e1 = bound_error field (n_min n) @ bound_error field (n_max n);
                   e2 = (case (e1, n_min n, n_max n) of
                           ([], Some lo, Some hi) \<Rightarrow>
                             (case compareDecimal lo hi of Some c \<Rightarrow> if 0 < c then [BoundsOrder] else [] | None \<Rightarrow> [])
                         | _ \<Rightarrow> []);
                   e3 = (if f_type field = ''money'' then
                           (case f_currencies field of
                              None \<Rightarrow> [CurrencyDictionary]
                            | Some cs \<Rightarrow> if cs = [] \<or> 100 < length cs \<or> list_ex (\<lambda>c. \<not> upper3 c) cs \<or> \<not> distinct cs
                                         then [CurrencyDictionary] else [])
                           @ (case f_currencySource field of
                                None \<Rightarrow> [CurrencySource]
                              | Some s \<Rightarrow> if blank s \<or> 500 < length s then [CurrencySource] else [])
                         else if f_currencies field \<noteq> None
                                 \<or> (case f_currencySource field of None \<Rightarrow> False | Some s \<Rightarrow> s \<noteq> [])
                              then [CurrenciesOnlyForMoney] else [])
               in e1 @ e2 @ e3)))"

section \<open>What the text denotes\<close>

fun fraction_value :: "string \<Rightarrow> rat" where
  "fraction_value [] = 0"
| "fraction_value (c # cs) = (of_int (digit_value c) + fraction_value cs) / 10"

definition decimal_value :: "string \<Rightarrow> rat" where
  "decimal_value s =
    (if negative_text s then - 1 else 1) * (of_int (digits_value (integer_text s)) + fraction_value (fraction_text s))"

lemma digits_value_snoc: "digits_value (s @ [c]) = digits_value s * 10 + digit_value c"
  by (simp add: digits_value_def)

lemma foldl_digits: "foldl (\<lambda>n c. n * 10 + digit_value c) a s = a * 10 ^ length s + digits_value s"
proof (induction s rule: rev_induct)
  case (snoc c s)
  then show ?case by (simp add: digits_value_snoc algebra_simps)
qed (simp add: digits_value_def)

lemma digits_value_append: "digits_value (s @ t) = digits_value s * 10 ^ length t + digits_value t"
  by (simp only: digits_value_def [of "s @ t"] foldl_append) (simp add: foldl_digits digits_value_def [of s, symmetric])

lemma fraction_digits: "fraction_value t * 10 ^ length t = of_int (digits_value t)"
proof (induction t)
  case (Cons c t)
  have "digits_value (c # t) = digit_value c * 10 ^ length t + digits_value t"
    using digits_value_append [of "[c]" t] by (simp add: digits_value_def)
  with Cons show ?case by (simp add: algebra_simps)
qed (simp add: digits_value_def)

lemma units_value:
  assumes "decimalParts (JStr s) = Some p"
  shows "of_int (d_units p) = decimal_value s * 10 ^ d_scale p"
proof -
  have p: "d_units p = (if negative_text s then - 1 else 1) * digits_value (integer_text s @ fraction_text s)"
    "d_scale p = length (fraction_text s)"
    using assms by (auto simp: decimalParts_def split: if_splits)
  show ?thesis
    unfolding p decimal_value_def digits_value_append
    using fraction_digits [of "fraction_text s"] by (simp add: algebra_simps)
qed

lemma compare_signs:
  assumes "decimalParts (JStr a) = Some p" and "decimalParts (JStr b) = Some q"
  shows "compareDecimal a b = Some (if decimal_value a < decimal_value b then - 1
     else if decimal_value a > decimal_value b then 1 else 0)"
proof -
  let ?m = "max (d_scale p) (d_scale q)"
  have up: "of_int (d_units r * 10 ^ (?m - d_scale r)) = decimal_value s * 10 ^ ?m"
    if "decimalParts (JStr s) = Some r" "d_scale r \<le> ?m" for r s
  proof -
    have "(10::rat) ^ ?m = 10 ^ d_scale r * 10 ^ (?m - d_scale r)"
      using that(2) by (simp add: power_add [symmetric])
    then show ?thesis using units_value [OF that(1)] by simp
  qed
  have less: "d_units p * 10 ^ (?m - d_scale p) < d_units q * 10 ^ (?m - d_scale q) \<longleftrightarrow> decimal_value a < decimal_value b"
    and greater: "d_units q * 10 ^ (?m - d_scale q) < d_units p * 10 ^ (?m - d_scale p) \<longleftrightarrow> decimal_value b < decimal_value a"
    using up [OF assms(1)] up [OF assms(2)]
    by (simp_all add: of_int_less_iff [where 'a = rat, symmetric] del: of_int_less_iff of_int_mult of_int_power)
  show ?thesis using less greater by (simp add: compareDecimal_def assms Let_def)
qed

lemma digit_bounds: "is_digit c \<Longrightarrow> 0 \<le> digit_value c \<and> digit_value c \<le> 9"
proof -
  assume "is_digit c"
  then have "48 \<le> (of_char c :: nat)" "(of_char c :: nat) \<le> 57" by (simp_all add: is_digit_def)
  then show ?thesis by (simp add: digit_value_def)
qed

lemma digits_bounds: "list_all is_digit s \<Longrightarrow> 0 \<le> digits_value s \<and> digits_value s < 10 ^ length s"
proof (induction s rule: rev_induct)
  case (snoc c s)
  then have "0 \<le> digits_value s" "digits_value s + 1 \<le> 10 ^ length s" "is_digit c" by auto
  with digit_bounds [OF this(3)] show ?case by (simp add: digits_value_snoc)
qed (simp add: digits_value_def)

lemma takeWhile_digits: "list_all is_digit (integer_text s)"
  by (simp add: integer_text_def list_all_iff) (blast dest: set_takeWhileD)

lemma shape_fraction: "decimal_shape s \<Longrightarrow> list_all is_digit (fraction_text s)"
  by (cases "dropWhile is_digit (strip_minus s)") (auto simp: decimal_shape_def fraction_text_def Let_def simp del: dropWhile_eq_Nil_conv)

lemma fraction_bounds: "list_all is_digit t \<Longrightarrow> 0 \<le> fraction_value t \<and> fraction_value t < 1"
proof (induction t)
  case (Cons c t)
  then have "0 \<le> fraction_value t" "fraction_value t < 1" "0 \<le> digit_value c" "digit_value c \<le> 9"
    using digit_bounds by auto
  moreover from this have "(0::rat) \<le> of_int (digit_value c)" "(of_int (digit_value c) :: rat) \<le> 9"
    by (simp, metis of_int_le_iff of_int_numeral)
  ultimately show ?case by simp
qed simp

lemma decimal_magnitude:
  assumes "decimalParts (JStr s) = Some p"
  shows "\<bar>decimal_value s\<bar> < 10 ^ d_integerDigits p"
proof -
  have shape: "decimal_shape s" "d_integerDigits p = (if integer_text s = ''0'' then 0 else length (integer_text s))"
    using assms by (auto simp: decimalParts_def split: if_splits)
  let ?i = "digits_value (integer_text s)" and ?f = "fraction_value (fraction_text s)"
  have f: "0 \<le> ?f" "?f < 1" using fraction_bounds [OF shape_fraction [OF shape(1)]] by simp_all
  have i: "0 \<le> ?i" "?i + 1 \<le> 10 ^ d_integerDigits p"
    using digits_bounds [OF takeWhile_digits, of s] shape(2) by (auto simp: digits_value_def digit_value_def)
  from i(2) have "of_int (?i + 1) \<le> (of_int (10 ^ d_integerDigits p) :: rat)" by (rule of_int_le_iff [THEN iffD2])
  then have "of_int ?i + ?f < (10 ^ d_integerDigits p :: rat)" using f(2) by simp
  moreover have "0 \<le> of_int ?i + ?f" using i(1) f(1) by simp
  ultimately show ?thesis by (simp add: decimal_value_def)
qed

lemma integer_nat: "is_integer r \<Longrightarrow> 0 \<le> r \<Longrightarrow> \<exists>n. r = of_nat n"
  unfolding is_integer_def by (metis floor_of_int of_int_of_nat_eq of_int_0_le_iff zero_le_imp_eq_int)

section \<open>Properties\<close>

text \<open>
  Comparison is exact: on any two accepted decimal texts, of any length and scale up to the
  limit, \<open>compareDecimal\<close> returns the sign of the difference of the rationals the texts denote,
  so no rounding ever decides a branch or a bound.
\<close>

theorem compare_is_exact:
  assumes "decimalParts (JStr a) \<noteq> None" and "decimalParts (JStr b) \<noteq> None"
  shows "compareDecimal a b = Some (if decimal_value a < decimal_value b then - 1
     else if decimal_value b < decimal_value a then 1 else 0)"
proof -
  obtain p q where "decimalParts (JStr a) = Some p" "decimalParts (JStr b) = Some q" using assms by blast
  from compare_signs [OF this] show ?thesis by simp
qed

theorem compare_is_exact_witness: "compareDecimal ''-1.50'' ''-1.5'' = Some 0 \<and> compareDecimal ''0.1'' ''0.09'' = Some 1"
  using compare_is_exact [of "''-1.50''" "''-1.5''"] compare_is_exact [of "''0.1''" "''0.09''"]
  by (simp add: decimalParts_def decimal_shape_def strip_minus_def is_digit_def integer_text_def fraction_text_def
      negative_text_def decimal_value_def digits_value_def digit_value_def)

text \<open>
  A value \<open>validDecimal\<close> accepts obeys its configuration as a number: with precision \<open>p\<close> and
  scale \<open>d\<close> its magnitude is below \<open>10 ^ (p - d)\<close>, it is a multiple of \<open>10 ^ -d\<close>, and it lies
  within the configured bounds.
\<close>

theorem valid_decimal_in_range:
  assumes "validDecimal (JStr s) field True" and "f_numeric field = Some n"
  shows "\<exists>p d. n_precision n = of_nat p \<and> n_scale n = of_nat d \<and> d \<le> p \<and> p \<le> 38
     \<and> \<bar>decimal_value s\<bar> < 10 ^ (p - d) \<and> (\<exists>k :: int. decimal_value s * 10 ^ d = of_int k)
     \<and> (case n_min n of None \<Rightarrow> True | Some lo \<Rightarrow> decimal_value lo \<le> decimal_value s)
     \<and> (case n_max n of None \<Rightarrow> True | Some hi \<Rightarrow> decimal_value s \<le> decimal_value hi)"
proof -
  obtain q where q: "decimalParts (JStr s) = Some q" "precision_ok n" "rat_of_nat (d_scale q) \<le> n_scale n"
    "rat_of_nat (d_integerDigits q) \<le> n_precision n - n_scale n" "bound_ok (n_min n)" "bound_ok (n_max n)"
    "meets_bound (\<lambda>c. 0 \<le> c) s (n_min n)" "meets_bound (\<lambda>c. c \<le> 0) s (n_max n)"
    using assms by (auto simp: validDecimal_def split: option.splits)
  obtain p d where pd: "n_precision n = of_nat p" "n_scale n = of_nat d"
    using q(2) integer_nat [of "n_precision n"] integer_nat [of "n_scale n"] by (auto simp: precision_ok_def)
  have le: "d \<le> p" "p \<le> 38" "d_scale q \<le> d" "d_integerDigits q + d \<le> p"
    using q(2,3,4) unfolding precision_ok_def pd by (simp_all add: le_diff_eq flip: of_nat_add)
  have mag: "\<bar>decimal_value s\<bar> < 10 ^ (p - d)"
    by (rule less_le_trans [OF decimal_magnitude [OF q(1)]]) (use le in \<open>auto intro: power_increasing\<close>)
  have "decimal_value s * 10 ^ d = decimal_value s * 10 ^ d_scale q * 10 ^ (d - d_scale q)"
    using le(3) by (simp add: power_add [symmetric] mult.assoc)
  then have mult: "decimal_value s * 10 ^ d = of_int (d_units q * 10 ^ (d - d_scale q))"
    using units_value [OF q(1)] by simp
  have empty: "decimalParts (JStr []) = None"
    by (simp add: decimalParts_def decimal_shape_def strip_minus_def Let_def)
  have lo: "case n_min n of None \<Rightarrow> True | Some lo \<Rightarrow> decimal_value lo \<le> decimal_value s"
    using q(5,7) empty compare_signs [OF q(1)]
    by (auto simp: bound_ok_def meets_bound_def split: option.splits if_splits)
  have hi: "case n_max n of None \<Rightarrow> True | Some hi \<Rightarrow> decimal_value s \<le> decimal_value hi"
    using q(6,8) empty compare_signs [OF q(1)]
    by (auto simp: bound_ok_def meets_bound_def split: option.splits if_splits)
  show ?thesis using pd le mag mult lo hi by blast
qed

definition sample_config :: numeric_config where
  "sample_config = \<lparr>n_precision = 5, n_scale = 2, n_min = Some ''0'', n_max = Some ''999.99'', n_extra = []\<rparr>"

definition sample_amount :: review_field where
  "sample_amount = \<lparr>f_id = ''amount'', f_label = ascii_text ''Amount'', f_type = ''decimal'', f_required = True, f_options = None,
     f_numeric = Some sample_config, f_currencies = None, f_currencySource = None, f_extra = []\<rparr>"

lemmas decimal_eval = validDecimal_def decimalParts_def decimal_shape_def strip_minus_def is_digit_def integer_text_def
  fraction_text_def negative_text_def digits_value_def digit_value_def precision_ok_def is_integer_def
  meets_bound_def bound_ok_def compareDecimal_def

theorem valid_decimal_in_range_witness: "\<bar>decimal_value ''12.5''\<bar> < 10 ^ 3"
proof -
  have "validDecimal (JStr ''12.5'') sample_amount True"
    by (simp add: sample_amount_def sample_config_def decimal_eval)
  from valid_decimal_in_range [OF this, of sample_config] obtain p d where "n_precision sample_config = of_nat p" "n_scale sample_config = of_nat d"
    "\<bar>decimal_value ''12.5''\<bar> < 10 ^ (p - d)"
    by (auto simp: sample_amount_def)
  moreover from this(1,2) have "rat_of_nat p = rat_of_nat 5" "rat_of_nat d = rat_of_nat 2" by (simp_all add: sample_config_def)
  then have "p = 5" "d = 2" by (simp_all only: of_nat_eq_iff)
  ultimately show ?thesis by simp
qed

text \<open>
  A numeric field without configuration errors has an inhabited range: the configured lower
  bound is itself a value the field accepts, and so is the upper bound.
\<close>

theorem configured_range_inhabited:
  assumes "numericConfigurationErrors field = []" and "f_type field = ''decimal'' \<or> f_type field = ''money''"
    and "f_numeric field = Some n" and "n_min n = Some lo \<or> n_max n = Some lo"
  shows "validDecimal (JStr lo) field True"
proof -
  have errs: "n_extra n = []" "precision_ok n" "bound_error field (n_min n) = []" "bound_error field (n_max n) = []"
    "(case (n_min n, n_max n) of (Some lo, Some hi) \<Rightarrow>
        (case compareDecimal lo hi of Some c \<Rightarrow> c \<le> 0 | None \<Rightarrow> True) | _ \<Rightarrow> True)"
    using assms(1,2,3) by (auto simp: numericConfigurationErrors_def Let_def split: if_splits option.splits)
  have valid: "validDecimal (JStr x) field False" if "n_min n = Some x \<or> n_max n = Some x" for x
    using that errs(3,4) by (auto simp: bound_error_def split: if_splits)
  have parts: "\<exists>q. decimalParts (JStr x) = Some q" if "n_min n = Some x \<or> n_max n = Some x" for x
    using valid [OF that] by (auto simp: validDecimal_def split: option.splits)
  have bounds: "bound_ok (n_min n)" "bound_ok (n_max n)"
    using parts by (auto simp: bound_ok_def split: option.split)
  have order: "decimal_value a \<le> decimal_value b" if ab: "n_min n = Some a" "n_max n = Some b" for a b
  proof -
    obtain p q where pq: "decimalParts (JStr a) = Some p" "decimalParts (JStr b) = Some q" using parts ab by metis
    show ?thesis using errs(5) ab compare_signs [OF pq] by (auto split: if_splits)
  qed
  have low: "meets_bound (\<lambda>c. 0 \<le> c) lo (n_min n)"
  proof (cases "n_min n")
    case (Some a)
    obtain p q where pq: "decimalParts (JStr lo) = Some p" "decimalParts (JStr a) = Some q" using parts Some assms(4) by metis
    have "decimal_value a \<le> decimal_value lo" using order Some assms(4) by auto
    then show ?thesis using Some compare_signs [OF pq] by (simp add: meets_bound_def)
  qed (simp add: meets_bound_def)
  have high: "meets_bound (\<lambda>c. c \<le> 0) lo (n_max n)"
  proof (cases "n_max n")
    case (Some a)
    obtain p q where pq: "decimalParts (JStr lo) = Some p" "decimalParts (JStr a) = Some q" using parts Some assms(4) by metis
    have "decimal_value lo \<le> decimal_value a" using order Some assms(4) by auto
    then show ?thesis using Some compare_signs [OF pq] by (simp add: meets_bound_def)
  qed (simp add: meets_bound_def)
  show ?thesis using valid [OF assms(4)] assms(3) bounds low high
    by (auto simp: validDecimal_def split: option.splits)
qed

theorem configured_range_inhabited_witness: "validDecimal (JStr ''999.99'') sample_amount True"
proof -
  have "numericConfigurationErrors sample_amount = []"
    by (simp add: numericConfigurationErrors_def bound_error_def sample_amount_def sample_config_def decimal_eval)
  then show ?thesis
    by (rule configured_range_inhabited [where n = sample_config]) (simp_all add: sample_amount_def sample_config_def)
qed

end
