(* ===== verification/Review_Conditions.thy ===== *)
theory Review_Conditions
  imports Review_Numeric
begin

text \<open>
  \<open>backend/src/approval/review-conditions.ts\<close>: the bounded condition language of a review branch.
  A condition read from JSON is a \<open>condition\<close>; the constructors keep what the validator looks at:
  the keys that do not belong to the operator, a group whose \<open>conditions\<close> is not an array, a value
  that is not an object.  Evaluating a condition the validator refuses may throw a \<open>TypeError\<close> or
  convert a value, which is \<open>None\<close> here.
\<close>

datatype condition =
    CGroup string "condition list option" "string list"   \<comment> \<open>\<open>all\<close> or \<open>any\<close>, its operands, other keys\<close>
  | CNot condition "string list"
  | CPred string string js "string list"                  \<comment> \<open>operator, field, value, other keys\<close>
  | CNonObject

datatype condition_issue =
    TooLarge | NotAnObject | UnknownKey | GroupSize | BadReference | ExactMismatch | ValueNotComparable
  | OrderNeedsNumber | ContainsNeedsText | TypeMismatch | UnknownOption

definition ORDER_OPS :: "string list" where
  "ORDER_OPS = [''gt'', ''gte'', ''lt'', ''lte'']"

definition PREDICATE_OPS :: "string list" where
  "PREDICATE_OPS = [''eq'', ''ne'', ''gt'', ''gte'', ''lt'', ''lte'', ''contains'']"

fun js_number :: "js \<Rightarrow> bool" where
  "js_number (JNum _) = True"
| "js_number _ = False"

fun js_string :: "js \<Rightarrow> bool" where
  "js_string (JStr _) = True"
| "js_string _ = False"

definition predicate_issue :: "review_field option \<Rightarrow> string \<Rightarrow> js \<Rightarrow> condition_issue option" where
  "predicate_issue fo op value =
    (case fo of
       None \<Rightarrow> Some BadReference
     | Some f \<Rightarrow>
        if f_type f = ''attachment'' \<or> op \<notin> set PREDICATE_OPS then Some BadReference
        else if f_type f = ''decimal'' \<or> f_type f = ''money'' then
          (if op = ''contains''
              \<or> \<not> (if f_type f = ''decimal'' then validDecimal value f False else validMoney value f False)
           then Some ExactMismatch else None)
        else if \<not> js_string value \<and> \<not> js_number value then Some ValueNotComparable
        else if op \<in> set ORDER_OPS \<and> (f_type f \<noteq> ''number'' \<or> \<not> js_number value) then Some OrderNeedsNumber
        else if op = ''contains'' \<and> (f_type f \<notin> {''text'', ''textarea'', ''multiselect''} \<or> \<not> js_string value)
          then Some ContainsNeedsText
        else if op \<noteq> ''contains'' \<and> (f_type f = ''multiselect'' \<or> (f_type f = ''number'') \<noteq> js_number value)
          then Some TypeMismatch
        else if f_type f \<in> {''select'', ''multiselect''}
             \<and> (case value of JStr s \<Rightarrow> (case f_options f of None \<Rightarrow> True | Some os \<Rightarrow> s \<notin> set os) | _ \<Rightarrow> True)
          then Some UnknownOption
        else None)"

definition keys_issue :: "string \<Rightarrow> string list \<Rightarrow> (string \<times> condition_issue) list" where
  "keys_issue p extra = (if extra = [] then [] else [(p, UnknownKey)])"

definition too_large :: "nat \<Rightarrow> nat \<Rightarrow> bool" where
  "too_large count depth \<longleftrightarrow> 100 < count + 1 \<or> 6 < depth"

fun visit_condition ::
  "(string \<rightharpoonup> review_field) \<Rightarrow> condition \<Rightarrow> string \<Rightarrow> nat \<Rightarrow> nat \<Rightarrow> (string \<times> condition_issue) list \<times> nat"
and visit_conditions ::
  "(string \<rightharpoonup> review_field) \<Rightarrow> condition list \<Rightarrow> string \<Rightarrow> nat \<Rightarrow> nat \<Rightarrow> nat \<Rightarrow> (string \<times> condition_issue) list \<times> nat" where
  \<comment> \<open>the last argument and the second result are \<open>count\<close>, shared by the whole visit\<close>
  "visit_condition fds CNonObject p depth count =
    ([(p, if too_large count depth then TooLarge else NotAnObject)], count + 1)"
| "visit_condition fds (CNot c1 extra) p depth count =
    (if too_large count depth then ([(p, TooLarge)], count + 1)
     else (let (is, n) = visit_condition fds c1 (p @ ''.condition'') (depth + 1) (count + 1)
           in (keys_issue p extra @ is, n)))"
| "visit_condition fds (CGroup op None extra) p depth count =
    (if too_large count depth then ([(p, TooLarge)], count + 1)
     else (keys_issue p extra @ [(p, GroupSize)], count + 1))"
| "visit_condition fds (CGroup op (Some cs) extra) p depth count =
    (if too_large count depth then ([(p, TooLarge)], count + 1)
     else if cs = [] \<or> 20 < length cs then (keys_issue p extra @ [(p, GroupSize)], count + 1)
     else (let (is, n) = visit_conditions fds cs p 0 (depth + 1) (count + 1)
           in (keys_issue p extra @ is, n)))"
| "visit_condition fds (CPred op field value extra) p depth count =
    (if too_large count depth then ([(p, TooLarge)], count + 1)
     else (keys_issue p extra @
             (case predicate_issue (fds field) op value of None \<Rightarrow> [] | Some i \<Rightarrow> [(p, i)]), count + 1))"
| "visit_conditions fds [] p i depth count = ([], count)"
| "visit_conditions fds (c # cs) p i depth count =
    (let (is, n) = visit_condition fds c (p @ ''.conditions.'' @ show_nat i) depth count;
         (js, m) = visit_conditions fds cs p (i + 1) depth n
     in (is @ js, m))"

definition validateCondition ::
  "condition \<Rightarrow> (string \<rightharpoonup> review_field) \<Rightarrow> string \<Rightarrow> (string \<times> condition_issue) list" where
  "validateCondition input fds path = fst (visit_condition fds input path 1 0)"

section \<open>Evaluation\<close>

fun strict_eq :: "js \<Rightarrow> js \<Rightarrow> bool" where
  "strict_eq (JStr a) (JStr b) = (a = b)"
| "strict_eq (JNum a) (JNum b) = (a = b)"
| "strict_eq (JBool a) (JBool b) = (a = b)"
| "strict_eq JNull JNull = True"
| "strict_eq JUndefined JUndefined = True"
| "strict_eq _ _ = False"

fun includes_text :: "string \<Rightarrow> string \<Rightarrow> bool" where
  "includes_text needle [] = (needle = [])"
| "includes_text needle (c # s) = (take (length needle) (c # s) = needle \<or> includes_text needle s)"

definition empty_operand :: "js \<Rightarrow> bool" where
  "empty_operand v \<longleftrightarrow> v = JUndefined \<or> v = JNull \<or> v = JStr []"

definition sign_test :: "string \<Rightarrow> int \<Rightarrow> bool" where
  "sign_test op c =
    (if op = ''eq'' then c = 0 else if op = ''ne'' then c \<noteq> 0 else if op = ''gt'' then 0 < c
     else if op = ''gte'' then 0 \<le> c else if op = ''lt'' then c < 0 else if op = ''lte'' then c \<le> 0 else False)"

definition exact_comparison :: "review_field \<Rightarrow> js \<Rightarrow> js \<Rightarrow> int option" where
  \<comment> \<open>\<open>None\<close>: the operand counts as missing\<close>
  "exact_comparison f value cvalue =
    (if f_type f = ''decimal'' then
       (if \<not> validDecimal value f True \<or> \<not> validDecimal cvalue f False then None
        else case (value, cvalue) of (JStr a, JStr b) \<Rightarrow> compareDecimal a b | _ \<Rightarrow> None)
     else
       (if \<not> validMoney value f True \<or> \<not> validMoney cvalue f False then None
        else case (value, cvalue) of
          (JObj v, JObj w) \<Rightarrow>
            if js_field ''currency'' v \<noteq> js_field ''currency'' w then None
            else (case (js_field ''amount'' v, js_field ''amount'' w) of
                    (JStr a, JStr b) \<Rightarrow> compareDecimal a b | _ \<Rightarrow> None)
        | _ \<Rightarrow> None))"

definition plain_test :: "string \<Rightarrow> js \<Rightarrow> js \<Rightarrow> bool option" where
  "plain_test op value cvalue =
    (if op = ''eq'' then Some (strict_eq value cvalue)
     else if op = ''ne'' then Some (\<not> strict_eq value cvalue)
     else if op = ''contains'' then
       (case value of
          JArr xs \<Rightarrow> Some (list_ex (strict_eq cvalue) xs)
        | JStr s \<Rightarrow> (case cvalue of JStr n \<Rightarrow> Some (includes_text n s) | _ \<Rightarrow> None)
        | _ \<Rightarrow> Some False)
     else if op \<in> set ORDER_OPS then
       (case value of
          JNum a \<Rightarrow> (case cvalue of
              JNum b \<Rightarrow> Some (if op = ''gt'' then b < a else if op = ''gte'' then b \<le> a
                             else if op = ''lt'' then a < b else a \<le> b)
            | _ \<Rightarrow> None)
        | _ \<Rightarrow> Some False)
     else Some False)"

definition evaluatePredicate ::
  "string \<Rightarrow> string \<Rightarrow> js \<Rightarrow> (string \<times> js) list \<Rightarrow> review_field list \<Rightarrow> (bool \<times> string list) option" where
  "evaluatePredicate op field cvalue values fds =
    (let value = js_field field values in
     if empty_operand value then Some (False, [field])
     else case find (\<lambda>f. f_id f = field) fds of
            Some f \<Rightarrow>
              if f_type f = ''decimal'' \<or> f_type f = ''money'' then
                (case exact_comparison f value cvalue of
                   None \<Rightarrow> Some (False, [field])
                 | Some c \<Rightarrow> Some (sign_test op c, []))
              else map_option (\<lambda>b. (b, [])) (plain_test op value cvalue)
          | None \<Rightarrow> map_option (\<lambda>b. (b, [])) (plain_test op value cvalue))"

fun evaluateCondition ::
  "condition \<Rightarrow> (string \<times> js) list \<Rightarrow> review_field list \<Rightarrow> (bool \<times> string list) option"
and evaluateConditions ::
  "condition list \<Rightarrow> (string \<times> js) list \<Rightarrow> review_field list \<Rightarrow> (bool \<times> string list) list option" where
  "evaluateCondition (CGroup op None extra) values fds = None"
| "evaluateCondition (CGroup op (Some cs) extra) values fds =
    map_option (\<lambda>rs. (if op = ''all'' then list_all fst rs else list_ex fst rs, js_uniq (concat (map snd rs))))
      (evaluateConditions cs values fds)"
| "evaluateCondition (CNot c extra) values fds = map_option (\<lambda>(b, m). (\<not> b, m)) (evaluateCondition c values fds)"
| "evaluateCondition (CPred op field value extra) values fds = evaluatePredicate op field value values fds"
| "evaluateCondition CNonObject values fds = None"
| "evaluateConditions [] values fds = Some []"
| "evaluateConditions (c # cs) values fds =
    (case evaluateCondition c values fds of
       None \<Rightarrow> None
     | Some r \<Rightarrow> map_option (\<lambda>rs. r # rs) (evaluateConditions cs values fds))"

text \<open>The fields a condition reads, as the nested \<open>collect\<close> of \<open>advanceReview\<close> gathers them.\<close>

fun condition_fields :: "condition \<Rightarrow> string list" where
  "condition_fields (CGroup op cs extra) = (case cs of None \<Rightarrow> [] | Some cs \<Rightarrow> concat (map condition_fields cs))"
| "condition_fields (CNot c extra) = condition_fields c"
| "condition_fields (CPred op field value extra) = [field]"
| "condition_fields CNonObject = []"

section \<open>What a condition means\<close>

text \<open>The predicates of a condition, and the ones whose operand is missing.\<close>

fun predicates :: "condition \<Rightarrow> (string \<times> string \<times> js) list" where
  "predicates (CGroup op None extra) = []"
| "predicates (CGroup op (Some cs) extra) = concat (map predicates cs)"
| "predicates (CNot c extra) = predicates c"
| "predicates (CPred op field value extra) = [(op, field, value)]"
| "predicates CNonObject = []"

definition exact_field :: "string \<Rightarrow> review_field list \<Rightarrow> review_field option" where
  "exact_field field fds =
    (case find (\<lambda>f. f_id f = field) fds of
       None \<Rightarrow> None
     | Some f \<Rightarrow> if f_type f = ''decimal'' \<or> f_type f = ''money'' then Some f else None)"

fun currency_of :: "js \<Rightarrow> js" where
  "currency_of (JObj kvs) = js_field ''currency'' kvs"
| "currency_of _ = JUndefined"

definition operand_missing :: "(string \<times> js) list \<Rightarrow> review_field list \<Rightarrow> string \<times> string \<times> js \<Rightarrow> bool" where
  \<comment> \<open>nothing was entered, or a decimal that does not fit its field, or an amount of money that does not
    or is in another currency than the one it is compared with\<close>
  "operand_missing values fds p =
    (case p of (op, field, cvalue) \<Rightarrow>
       (let v = js_field field values in
        v \<in> {JUndefined, JNull, JStr []}
        \<or> (case exact_field field fds of
              None \<Rightarrow> False
            | Some f \<Rightarrow>
               if f_type f = ''decimal'' then \<not> validDecimal v f True
               else \<not> validMoney v f True \<or> currency_of v \<noteq> currency_of cvalue)))"

text \<open>The relation an operator names, on the rationals the operands denote.\<close>

definition op_rel :: "string \<Rightarrow> rat \<Rightarrow> rat \<Rightarrow> bool" where
  "op_rel op a b =
    (if op = ''eq'' then a = b else if op = ''ne'' then a \<noteq> b else if op = ''gt'' then b < a
     else if op = ''gte'' then b \<le> a else if op = ''lt'' then a < b else if op = ''lte'' then a \<le> b else False)"

fun amount_of :: "js \<Rightarrow> rat" where
  "amount_of (JStr s) = decimal_value s"
| "amount_of (JObj kvs) = (case js_field ''amount'' kvs of JStr s \<Rightarrow> decimal_value s | _ \<Rightarrow> 0)"
| "amount_of _ = 0"

text \<open>On the other fields: equality of values, membership or being a part of a text, the order of numbers.\<close>

definition plain_holds :: "string \<Rightarrow> js \<Rightarrow> js \<Rightarrow> bool" where
  "plain_holds op v w \<longleftrightarrow>
     (if op = ''eq'' then v = w
      else if op = ''ne'' then v \<noteq> w
      else if op = ''contains''
        then (\<exists>xs. v = JArr xs \<and> w \<in> set xs) \<or> (\<exists>before part after. v = JStr (before @ part @ after) \<and> w = JStr part)
      else (\<exists>a b. v = JNum a \<and> w = JNum b \<and> op_rel op a b))"

fun predicate_holds :: "(string \<times> js) list \<Rightarrow> review_field list \<Rightarrow> string \<times> string \<times> js \<Rightarrow> bool" where
  "predicate_holds values fds (op, field, cvalue) =
    (case exact_field field fds of
       Some f \<Rightarrow> op_rel op (amount_of (js_field field values)) (amount_of cvalue)
     | None \<Rightarrow> plain_holds op (js_field field values) cvalue)"

fun condition_holds :: "(string \<times> js) list \<Rightarrow> review_field list \<Rightarrow> condition \<Rightarrow> bool" where
  "condition_holds values fds (CGroup op None extra) = False"
| "condition_holds values fds (CGroup op (Some cs) extra) =
    (if op = ''all'' then \<forall>c \<in> set cs. condition_holds values fds c else \<exists>c \<in> set cs. condition_holds values fds c)"
| "condition_holds values fds (CNot c extra) = (\<not> condition_holds values fds c)"
| "condition_holds values fds (CPred op field value extra) = predicate_holds values fds (op, field, value)"
| "condition_holds values fds CNonObject = False"

text \<open>What an empty list of issues says about a condition.\<close>

fun condition_ok :: "(string \<rightharpoonup> review_field) \<Rightarrow> condition \<Rightarrow> bool" where
  "condition_ok fds (CGroup op None extra) = False"
| "condition_ok fds (CGroup op (Some cs) extra) = (cs \<noteq> [] \<and> (\<forall>c \<in> set cs. condition_ok fds c))"
| "condition_ok fds (CNot c extra) = condition_ok fds c"
| "condition_ok fds (CPred op field value extra) = (predicate_issue (fds field) op value = None)"
| "condition_ok fds CNonObject = False"

lemma visit_ok:
  "fst (visit_condition fds c p depth count) = [] \<Longrightarrow> condition_ok fds c"
  "fst (visit_conditions fds cs p i depth count) = [] \<Longrightarrow> (\<forall>c \<in> set cs. condition_ok fds c)"
  by (induction fds c p depth count and fds cs p i depth count rule: visit_condition_visit_conditions.induct)
    (auto simp: Let_def split: prod.splits if_splits option.splits)

lemma sign_test_rel:
  "sign_test op (if a < b then - 1 else if b < a then 1 else 0) = op_rel op a b"
  by (auto simp: sign_test_def op_rel_def)

lemma exact_comparison_rel:
  assumes "exact_comparison f value cvalue = Some c"
  shows "sign_test op c = op_rel op (amount_of value) (amount_of cvalue)"
proof -
  have cmp: "sign_test op c = op_rel op (decimal_value a) (decimal_value b)" if cd: "compareDecimal a b = Some c" for a b
  proof -
    obtain p q where "decimalParts (JStr a) = Some p" "decimalParts (JStr b) = Some q"
      using cd by (auto simp: compareDecimal_def split: option.splits)
    from compare_signs [OF this] cd have "c = (if decimal_value a < decimal_value b then - 1 else if decimal_value b < decimal_value a then 1 else 0)"
      by (auto split: if_splits)
    then show ?thesis by (simp only: sign_test_rel)
  qed
  show ?thesis
    using assms by (auto simp: exact_comparison_def dest: cmp split: if_splits js.splits)
qed

lemma strict_eq_scalar: "js_string w \<or> js_number w \<Longrightarrow> strict_eq v w = (v = w) \<and> strict_eq w v = (w = v)"
  by (cases v; cases w) auto

lemma includes_text_iff: "includes_text n s \<longleftrightarrow> (\<exists>before after. s = before @ n @ after)"
proof (induction s)
  case (Cons c s)
  have "take (length n) (c # s) = n \<longleftrightarrow> (\<exists>after. c # s = n @ after)"
    by (metis append_eq_conv_conj append_take_drop_id)
  then have "includes_text n (c # s) \<longleftrightarrow> (\<exists>after. c # s = n @ after) \<or> (\<exists>before after. s = before @ n @ after)"
    using Cons by simp
  also have "\<dots> \<longleftrightarrow> (\<exists>before after. c # s = before @ n @ after)"
    by (metis append_Cons append_Nil list.exhaust list.inject)
  finally show ?case .
qed auto

lemma plain_test_holds:
  assumes "predicate_issue (Some f) op cvalue = None" and "f_type f \<noteq> ''decimal''" and "f_type f \<noteq> ''money''"
  shows "plain_test op value cvalue = Some (plain_holds op value cvalue)"
proof -
  have op: "op \<in> set PREDICATE_OPS" "js_string cvalue \<or> js_number cvalue"
    "op = ''contains'' \<Longrightarrow> js_string cvalue" "op \<in> set ORDER_OPS \<Longrightarrow> js_number cvalue"
    using assms by (auto simp: predicate_issue_def split: if_splits)
  note eq = strict_eq_scalar [OF op(2)]
  consider "op = ''eq''" | "op = ''ne''" | (contains) "op = ''contains''" | (order) "op \<in> set ORDER_OPS"
    using op(1) by (auto simp: PREDICATE_OPS_def ORDER_OPS_def)
  then show ?thesis
  proof cases
    case contains
    then obtain n where n: "cvalue = JStr n" using op(3) by (cases cvalue) auto
    show ?thesis using contains n eq by (cases "value") (auto simp: plain_test_def plain_holds_def includes_text_iff list_ex_iff)
  next
    case order
    then obtain n where n: "cvalue = JNum n" using op(4) by (cases cvalue) auto
    show ?thesis using order n
      by (cases "value") (auto simp: plain_test_def plain_holds_def op_rel_def ORDER_OPS_def)
  qed (simp_all add: plain_test_def plain_holds_def eq)
qed

lemma validDecimal_text:
  assumes "validDecimal v f b"
  obtains s where "v = JStr s" and "decimalParts (JStr s) \<noteq> None"
  using assms by (auto simp: validDecimal_def split: option.splits js.splits)

lemma validMoney_object:
  assumes "validMoney v f b"
  obtains kvs s where "v = JObj kvs" and "js_field ''amount'' kvs = JStr s" and "decimalParts (JStr s) \<noteq> None"
proof -
  obtain kvs where kvs: "v = JObj kvs" "validDecimal (js_field ''amount'' kvs) f b"
    using assms by (auto simp: validMoney_def split: js.splits)
  from kvs(2) show thesis by (rule validDecimal_text) (use kvs(1) that in auto)
qed

lemma compareDecimal_defined: "decimalParts (JStr a) \<noteq> None \<Longrightarrow> decimalParts (JStr b) \<noteq> None \<Longrightarrow> compareDecimal a b \<noteq> None"
  by (auto simp: compareDecimal_def Let_def)

lemma exact_comparison_missing:
  assumes "predicate_issue (Some f) op cvalue = None" and "f_type f = ''decimal'' \<or> f_type f = ''money''"
  shows "exact_comparison f v cvalue = None \<longleftrightarrow>
    (if f_type f = ''decimal'' then \<not> validDecimal v f True else \<not> validMoney v f True \<or> currency_of v \<noteq> currency_of cvalue)"
proof (cases "f_type f = ''decimal''")
  case True
  then have w: "validDecimal cvalue f False" using assms(1) by (auto simp: predicate_issue_def split: if_splits)
  obtain b where b: "cvalue = JStr b" "decimalParts (JStr b) \<noteq> None" using w by (rule validDecimal_text)
  show ?thesis
  proof (cases "validDecimal v f True")
    case valid: True
    then obtain a where "v = JStr a" "decimalParts (JStr a) \<noteq> None" by (rule validDecimal_text)
    then show ?thesis using True w b valid compareDecimal_defined by (simp add: exact_comparison_def)
  qed (use True in \<open>simp add: exact_comparison_def\<close>)
next
  case False
  then have w: "validMoney cvalue f False" using assms by (auto simp: predicate_issue_def split: if_splits)
  obtain ws b where b: "cvalue = JObj ws" "js_field ''amount'' ws = JStr b" "decimalParts (JStr b) \<noteq> None"
    using w by (rule validMoney_object)
  show ?thesis
  proof (cases "validMoney v f True")
    case valid: True
    then obtain vs a where "v = JObj vs" "js_field ''amount'' vs = JStr a" "decimalParts (JStr a) \<noteq> None"
      by (rule validMoney_object)
    then show ?thesis using False w b valid compareDecimal_defined by (simp add: exact_comparison_def)
  qed (use False in \<open>simp add: exact_comparison_def\<close>)
qed

lemma predicate_correct:
  assumes "predicate_issue (find (\<lambda>f. f_id f = field) fds) op cvalue = None"
  shows "\<exists>b m. evaluatePredicate op field cvalue values fds = Some (b, m)
    \<and> set m = (if operand_missing values fds (op, field, cvalue) then {field} else {})
    \<and> (m = [] \<longrightarrow> b = predicate_holds values fds (op, field, cvalue))"
proof -
  obtain f where f: "find (\<lambda>f. f_id f = field) fds = Some f"
    using assms by (cases "find (\<lambda>f. f_id f = field) fds") (auto simp: predicate_issue_def)
  then have valid: "predicate_issue (Some f) op cvalue = None" using assms by simp
  show ?thesis
  proof (cases "f_type f = ''decimal'' \<or> f_type f = ''money''")
    case True
    note missing = exact_comparison_missing [OF valid True, of "js_field field values"]
    show ?thesis
    proof (cases "exact_comparison f (js_field field values) cvalue")
      case None
      then show ?thesis using f True missing
        by (auto simp: evaluatePredicate_def operand_missing_def exact_field_def Let_def)
    next
      case (Some c)
      then show ?thesis using f True missing exact_comparison_rel [OF Some]
        by (auto simp: evaluatePredicate_def operand_missing_def exact_field_def empty_operand_def Let_def)
    qed
  next
    case False
    then have "plain_test op (js_field field values) cvalue = Some (plain_holds op (js_field field values) cvalue)"
      using plain_test_holds [OF valid] by simp
    then show ?thesis using f False
      by (auto simp: evaluatePredicate_def operand_missing_def exact_field_def empty_operand_def Let_def)
  qed
qed

lemma evaluate_correct:
  "condition_ok (\<lambda>i. find (\<lambda>f. f_id f = i) fds) c \<Longrightarrow>
     \<exists>b m. evaluateCondition c values fds = Some (b, m)
       \<and> set m = (\<lambda>(op, field, v). field) ` {p \<in> set (predicates c). operand_missing values fds p}
       \<and> (m = [] \<longrightarrow> b = condition_holds values fds c)"
  "\<forall>c \<in> set cs. condition_ok (\<lambda>i. find (\<lambda>f. f_id f = i) fds) c \<Longrightarrow>
     \<exists>rs. evaluateConditions cs values fds = Some rs \<and> length rs = length cs
       \<and> set (concat (map snd rs)) = (\<lambda>(op, field, v). field) ` {p \<in> set (concat (map predicates cs)). operand_missing values fds p}
       \<and> (concat (map snd rs) = [] \<longrightarrow> map fst rs = map (condition_holds values fds) cs)"
proof (induction c "values" fds and cs "values" fds rule: evaluateCondition_evaluateConditions.induct)
  case (2 op cs extra vs fds)
  from 2 obtain rs where rs: "evaluateConditions cs vs fds = Some rs"
    "set (concat (map snd rs)) = (\<lambda>(op, field, v). field) ` {p \<in> set (concat (map predicates cs)). operand_missing vs fds p}"
    "concat (map snd rs) = [] \<longrightarrow> map fst rs = map (condition_holds vs fds) cs" by auto
  have img: "fst ` set rs = condition_holds vs fds ` set cs" if "concat (map snd rs) = []"
    using rs(3) that by (metis set_map)
  have "list_all fst rs \<longleftrightarrow> (\<forall>b \<in> fst ` set rs. b)" "list_ex fst rs \<longleftrightarrow> (\<exists>b \<in> fst ` set rs. b)"
    by (auto simp: list_all_iff list_ex_iff)
  then have all: "concat (map snd rs) = [] \<Longrightarrow> list_all fst rs = (\<forall>c \<in> set cs. condition_holds vs fds c)"
    and ex: "concat (map snd rs) = [] \<Longrightarrow> list_ex fst rs = (\<exists>c \<in> set cs. condition_holds vs fds c)"
    using img by auto
  show ?case using rs(2) all ex by (simp add: rs(1) del: set_concat concat_eq_Nil_conv)
next
  case (4 op field cv extra vs fds)
  then have "predicate_issue (find (\<lambda>f. f_id f = field) fds) op cv = None" by simp
  from predicate_correct [OF this, of vs] show ?case by (auto split: if_splits)
next
  case (7 c cs vs fds)
  from 7(3) have ok: "condition_ok (\<lambda>i. find (\<lambda>f. f_id f = i) fds) c"
    "\<forall>c \<in> set cs. condition_ok (\<lambda>i. find (\<lambda>f. f_id f = i) fds) c" by simp_all
  obtain b m where c: "evaluateCondition c vs fds = Some (b, m)"
    "set m = (\<lambda>(op, field, v). field) ` {p \<in> set (predicates c). operand_missing vs fds p}"
    "m = [] \<longrightarrow> b = condition_holds vs fds c" using 7(1) [OF ok(1)] by blast
  obtain rs where rs: "evaluateConditions cs vs fds = Some rs" "length rs = length cs"
    "set (concat (map snd rs)) = (\<lambda>(op, field, v). field) ` {p \<in> set (concat (map predicates cs)). operand_missing vs fds p}"
    "concat (map snd rs) = [] \<longrightarrow> map fst rs = map (condition_holds vs fds) cs" using 7(2) [OF c(1) ok(2)] by blast
  have "{p \<in> set (concat (map predicates (c # cs))). operand_missing vs fds p}
      = {p \<in> set (predicates c). operand_missing vs fds p} \<union> {p \<in> set (concat (map predicates cs)). operand_missing vs fds p}"
    by auto
  then have set: "set (concat (map snd ((b, m) # rs)))
      = (\<lambda>(op, field, v). field) ` {p \<in> set (concat (map predicates (c # cs))). operand_missing vs fds p}"
    using c(2) rs(3) by (simp only: list.map snd_conv concat.simps set_append image_Un)
  show ?case using c(1,3) rs(1,2,4) set by (intro exI [of _ "(b, m) # rs"]) simp
qed auto

section \<open>Properties\<close>

text \<open>
  C32. Evaluating a condition the validator accepted is correct: it never throws; the fields it reports
  as missing are exactly those of its predicates whose operand was not entered, does not fit its
  decimal or money field, or is in another currency; and when nothing is missing its result is the
  logical value of the condition, where comparisons of decimals, amounts of money and numbers are
  those of the rationals they denote, equality is that of values, and \<open>contains\<close> is membership in a
  list or being a part of a text.
\<close>

theorem validated_condition_evaluates:
  assumes "validateCondition c (\<lambda>i. find (\<lambda>f. f_id f = i) fds) path = []"
  shows "\<exists>b m. evaluateCondition c values fds = Some (b, m)
     \<and> set m = (\<lambda>(op, field, v). field) ` {p \<in> set (predicates c). operand_missing values fds p}
     \<and> (m = [] \<longrightarrow> b = condition_holds values fds c)"
proof -
  have "condition_ok (\<lambda>i. find (\<lambda>f. f_id f = i) fds) c"
    using assms by (simp add: validateCondition_def visit_ok)
  then show ?thesis by (rule evaluate_correct)
qed

theorem validated_condition_evaluates_witness:
  "\<exists>b m. evaluateCondition (CNot (CPred ''gt'' ''amount'' (JStr ''10'') []) []) [(''amount'', JStr ''9.5'')] [sample_amount]
     = Some (b, m) \<and> m = [] \<and> b"
proof -
  let ?c = "CNot (CPred ''gt'' ''amount'' (JStr ''10'') []) []"
  have "validateCondition ?c (\<lambda>i. find (\<lambda>f. f_id f = i) [sample_amount]) ''c'' = []"
    by (simp add: validateCondition_def too_large_def keys_issue_def predicate_issue_def PREDICATE_OPS_def
        sample_amount_def sample_config_def decimal_eval)
  note all = validated_condition_evaluates [OF this, of "[(''amount'', JStr ''9.5'')]"]
  have field: "exact_field ''amount'' [sample_amount] = Some sample_amount" "f_type sample_amount = ''decimal''"
    by (simp_all add: exact_field_def sample_amount_def)
  have operand: "js_field ''amount'' [(''amount'', JStr ''9.5'')] = JStr ''9.5''"
    by (simp add: js_field_def)
  have "validDecimal (JStr ''9.5'') sample_amount True"
    by (simp add: sample_amount_def sample_config_def decimal_eval)
  then have "\<not> operand_missing [(''amount'', JStr ''9.5'')] [sample_amount] (''gt'', ''amount'', JStr ''10'')"
    by (simp add: operand_missing_def field operand Let_def)
  then have none: "{p \<in> set (predicates ?c). operand_missing [(''amount'', JStr ''9.5'')] [sample_amount] p} = {}"
    by auto
  have "condition_holds [(''amount'', JStr ''9.5'')] [sample_amount] ?c"
    by (simp add: field operand op_rel_def decimal_value_def negative_text_def integer_text_def fraction_text_def
        strip_minus_def digits_value_def digit_value_def is_digit_def)
  with all show ?thesis unfolding none by auto
qed

end
