(* ===== verification/Review_Definition.thy ===== *)
theory Review_Definition
  imports Review_Conditions Civil_Time
begin

text \<open>
  The review contract of \<open>shared/review.ts\<close> and its validation in
  \<open>backend/src/approval/review-engine.ts\<close> (\<open>validatePublicationNames\<close>, \<open>validateDefinition\<close>,
  \<open>validateValues\<close>).

  A definition read from JSON is a record whose enumerations are still strings, so the validator has
  something to reject; keys outside the contract are kept in the \<open>extra\<close> fields.  The checks on the
  JavaScript type of a property (is it a string, an array, an object) are discharged by the types of
  the record, and the layout coordinates \<open>x\<close> and \<open>y\<close> are left out.  Names, labels and
  descriptions, which are Chinese text, are lists of code units; messages are tags.
\<close>

section \<open>The contract\<close>

datatype assignee_rule = Named "string list" | ManagerRule | RoleRule string | OtherKind string

datatype assignee = Fixed assignee_rule | RequesterChoice "assignee_rule option"

record transfer_policy =
  tp_candidates :: "assignee option"
  tp_deadline :: string

record timeout_policy =
  to_action :: string
  to_candidates :: "assignee option"
  to_deadline :: "string option"

record amendment_policy =
  am_fields :: "string list"
  am_restart :: string

record operations =
  op_transfer :: "transfer_policy option"
  op_countersign :: "assignee option option"
  op_amendment :: "amendment_policy option"
  op_timeout :: "timeout_policy option"
  op_extra :: "string list"

record node =
  nd_id :: string
  nd_name :: utext
  nd_type :: string
  nd_next :: "string option"
  nd_otherwise :: "string option"
  nd_condition :: "condition option"
  nd_assignee :: "assignee option"
  nd_operations :: "operations option"
  nd_mode :: "string option"
  nd_reject :: "string option"
  nd_timeoutHours :: "rat option"
  nd_extra :: "string list"

record definition_doc =
  rd_schema :: string
  rd_name :: utext
  rd_description :: utext
  rd_fields :: "review_field list"
  rd_nodes :: "node list"
  rd_subjectType :: "string option"
  rd_organizationUnitId :: "string option"
  rd_extra :: "string list"

datatype issue_message =
    UnknownProperty | OrganizationFormat | SchemaVersion | NameRequired | DescriptionLength | UnknownSubject
  | KnowledgeFields | KnowledgeReview | KnowledgeAmendment | SizeLimits | FieldId | NumericIssue numeric_error
  | FieldLabel | FieldType | FieldOptions | NodeId | NodeName | NodeType | OperationsNotHere | UnknownOperation
  | CandidatesInvalid | TransferDeadline | CountersignMode | AmendmentPolicy | TimeoutPolicy | ModeRequired
  | RejectRule | AssigneeKind | ChoiceNotHere | ChoiceCandidates | RoleRequired | NamedUsers | TimeoutHours
  | ConditionIssue condition_issue | OneStart | ReviewNeeded | EdgeTarget | EndHasNext | OtherwiseNotHere | Cycle
  | Unreachable | ReviewBypassed | DefaultName

type_synonym issue = "string \<times> issue_message"

definition work_types :: "string list" where
  "work_types = [''review'', ''cc'', ''consult'', ''handler'']"

definition issue_if :: "bool \<Rightarrow> string \<Rightarrow> issue_message \<Rightarrow> issue list" where
  "issue_if b path m = (if b then [(path, m)] else [])"

definition text_blank :: "utext \<Rightarrow> bool" where
  "text_blank t \<longleftrightarrow> text_trim t = []"

section \<open>Names at publication\<close>

text \<open>\<open>/^(new)(review|approval|cc|consult|handle)(node)(?:\s*\d+)?$/\<close> over the Chinese words.\<close>

definition NEW_WORD :: utext where "NEW_WORD = [26032]"
definition NODE_WORD :: utext where "NODE_WORD = [33410, 28857]"
definition KIND_WORDS :: "utext list" where
  "KIND_WORDS = [[35780, 23457], [23457, 25209], [25220, 36865], [24449, 35810], [21150, 29702]]"

definition text_digit :: "nat \<Rightarrow> bool" where
  "text_digit c \<longleftrightarrow> 48 \<le> c \<and> c \<le> 57"

definition default_name :: "utext \<Rightarrow> bool" where
  "default_name t \<longleftrightarrow>
     list_ex (\<lambda>w. let prefix = NEW_WORD @ w @ NODE_WORD in
         take (length prefix) t = prefix
         \<and> (let rest = drop (length prefix) t in
             rest = [] \<or> (let ds = dropWhile js_space rest in ds \<noteq> [] \<and> list_all text_digit ds))) KIND_WORDS"

definition validatePublicationNames :: "node list \<Rightarrow> issue list" where
  "validatePublicationNames nodes =
    concat (map (\<lambda>(index, n).
        issue_if (nd_type n \<in> set work_types \<and> default_name (text_trim (nd_name n)))
          (''nodes.'' @ show_nat index @ ''.name'') DefaultName)
      (zip [0..<length nodes] nodes))"

section \<open>Fields\<close>

definition id_start :: "char \<Rightarrow> bool" where
  "id_start c = (let n = (of_char c :: nat) in (65 \<le> n \<and> n \<le> 90) \<or> (97 \<le> n \<and> n \<le> 122))"

definition id_char :: "char \<Rightarrow> bool" where
  "id_char c \<longleftrightarrow> id_start c \<or> is_digit c \<or> c = CHR ''_'' \<or> c = CHR ''-''"

definition idPattern :: "string \<Rightarrow> bool" where
  "idPattern s = (case s of [] \<Rightarrow> False | c # cs \<Rightarrow> id_start c \<and> list_all id_char cs \<and> length cs \<le> 63)"

definition unsafe :: "string list" where
  "unsafe = [''__proto__'', ''constructor'', ''prototype'']"

definition FIELD_TYPES :: "string list" where
  "FIELD_TYPES = [''text'', ''textarea'', ''number'', ''decimal'', ''money'', ''date'', ''select'', ''multiselect'', ''attachment'']"

definition options_ok :: "string list option \<Rightarrow> bool" where
  "options_ok os =
    (case os of
       None \<Rightarrow> False
     | Some xs \<Rightarrow> xs \<noteq> [] \<and> length xs \<le> 100 \<and> list_all (\<lambda>x. \<not> blank x \<and> length x \<le> 120) xs \<and> distinct xs)"

definition field_issues :: "string list \<Rightarrow> nat \<Rightarrow> review_field \<Rightarrow> issue list" where
  \<comment> \<open>\<open>before\<close>: the identifiers already in the map\<close>
  "field_issues before i f =
    (let p = ''fields.'' @ show_nat i in
     map (\<lambda>k. (p @ ''.'' @ k, UnknownProperty)) (f_extra f)
     @ issue_if (\<not> idPattern (f_id f) \<or> f_id f \<in> set unsafe \<or> f_id f \<in> set before) (p @ ''.id'') FieldId
     @ map (\<lambda>e. (p, NumericIssue e)) (numericConfigurationErrors f)
     @ issue_if (text_blank (f_label f) \<or> 120 < length (f_label f)) (p @ ''.label'') FieldLabel
     @ issue_if (f_type f \<notin> set FIELD_TYPES) (p @ ''.type'') FieldType
     @ issue_if (f_type f \<in> {''select'', ''multiselect''} \<and> \<not> options_ok (f_options f)) (p @ ''.options'') FieldOptions)"

fun fields_issues :: "string list \<Rightarrow> nat \<Rightarrow> review_field list \<Rightarrow> issue list" where
  "fields_issues before i [] = []"
| "fields_issues before i (f # fs) = field_issues before i f @ fields_issues (f_id f # before) (i + 1) fs"

definition field_map :: "review_field list \<Rightarrow> string \<rightharpoonup> review_field" where
  "field_map fs = map_of (rev (map (\<lambda>f. (f_id f, f)) fs))"

section \<open>Nodes\<close>

definition NODE_TYPES :: "string list" where
  "NODE_TYPES = [''start'', ''review'', ''condition'', ''end'', ''cc'', ''consult'', ''handler'']"

definition users_ok :: "string list \<Rightarrow> bool" where
  "users_ok us \<longleftrightarrow> us \<noteq> [] \<and> length us \<le> 100 \<and> [] \<notin> set us \<and> distinct us"

definition rule_ok :: "assignee_rule option \<Rightarrow> bool" where
  "rule_ok a =
    (case a of
       None \<Rightarrow> False
     | Some (Named us) \<Rightarrow> users_ok us
     | Some ManagerRule \<Rightarrow> True
     | Some (RoleRule r) \<Rightarrow> \<not> blank r
     | Some (OtherKind k) \<Rightarrow> False)"

definition candidates_ok :: "assignee option \<Rightarrow> bool" where
  "candidates_ok a = (case a of Some (Fixed r) \<Rightarrow> rule_ok (Some r) | _ \<Rightarrow> False)"

definition mode_in :: "node \<Rightarrow> string list \<Rightarrow> bool" where
  "mode_in n ms = (case nd_mode n of None \<Rightarrow> False | Some m \<Rightarrow> m \<in> set ms)"

definition has_timeout :: "node \<Rightarrow> bool" where
  "has_timeout n = (case nd_timeoutHours n of None \<Rightarrow> False | Some h \<Rightarrow> h \<noteq> 0)"

definition operation_issues :: "(string \<rightharpoonup> review_field) \<Rightarrow> string \<Rightarrow> node \<Rightarrow> operations \<Rightarrow> issue list" where
  "operation_issues fm p n ops =
     map (\<lambda>k. (p @ ''.operations.'' @ k, UnknownOperation)) (op_extra ops)
     @ (case op_transfer ops of None \<Rightarrow> [] | Some t \<Rightarrow> issue_if (\<not> candidates_ok (tp_candidates t)) (p @ ''.operations'') CandidatesInvalid)
     @ (case op_countersign ops of None \<Rightarrow> [] | Some c \<Rightarrow> issue_if (\<not> candidates_ok c) (p @ ''.operations'') CandidatesInvalid)
     @ (case op_timeout ops of None \<Rightarrow> [] | Some t \<Rightarrow>
          issue_if (to_action t = ''transfer'' \<and> \<not> candidates_ok (to_candidates t)) (p @ ''.operations'') CandidatesInvalid)
     @ (case op_transfer ops of None \<Rightarrow> [] | Some t \<Rightarrow>
          issue_if (tp_deadline t \<notin> {''preserve'', ''reset''}) (p @ ''.operations.transfer'') TransferDeadline)
     @ issue_if (op_countersign ops \<noteq> None \<and> \<not> mode_in n [''all'', ''sequential'']) (p @ ''.operations.countersign'') CountersignMode
     @ (case op_amendment ops of None \<Rightarrow> [] | Some a \<Rightarrow>
          issue_if (am_restart a \<noteq> ''start'' \<or> am_fields a = [] \<or> list_ex (\<lambda>f. fm f = None) (am_fields a) \<or> \<not> distinct (am_fields a))
            (p @ ''.operations.amendment'') AmendmentPolicy)
     @ (case op_timeout ops of None \<Rightarrow> [] | Some t \<Rightarrow>
          issue_if (\<not> has_timeout n \<or> to_action t \<notin> {''remind'', ''transfer''}
              \<or> (to_action t = ''transfer'' \<and> to_deadline t \<noteq> Some ''reset''))
            (p @ ''.operations.timeout'') TimeoutPolicy)"

definition hours_ok :: "rat \<Rightarrow> bool" where
  "hours_ok h \<longleftrightarrow> is_integer h \<and> 1 \<le> h \<and> h \<le> 8760"

definition assignee_issues :: "string option \<Rightarrow> string \<Rightarrow> node \<Rightarrow> issue list" where
  "assignee_issues subject p n =
    (case nd_assignee n of
       None \<Rightarrow> [(p @ ''.assignee'', AssigneeKind)]
     | Some (RequesterChoice a) \<Rightarrow>
         issue_if (nd_type n \<noteq> ''review'' \<or> subject = Some ''knowledge_publication'') (p @ ''.assignee'') ChoiceNotHere
         @ issue_if (\<not> rule_ok a) (p @ ''.assignee'') ChoiceCandidates
     | Some (Fixed (OtherKind k)) \<Rightarrow> [(p @ ''.assignee'', AssigneeKind)]
     | Some (Fixed (RoleRule r)) \<Rightarrow> issue_if (blank r) (p @ ''.assignee'') RoleRequired
     | Some (Fixed (Named us)) \<Rightarrow>
         issue_if (\<not> users_ok us \<or> (nd_mode n = Some ''single'' \<and> length us \<noteq> 1)) (p @ ''.assignee'') NamedUsers
     | Some (Fixed ManagerRule) \<Rightarrow> [])"

definition node_issues :: "string option \<Rightarrow> (string \<rightharpoonup> review_field) \<Rightarrow> string list \<Rightarrow> nat \<Rightarrow> node \<Rightarrow> issue list" where
  "node_issues subject fm before i n =
    (let p = ''nodes.'' @ show_nat i in
     map (\<lambda>k. (p @ ''.'' @ k, UnknownProperty)) (nd_extra n)
     @ issue_if (\<not> idPattern (nd_id n) \<or> nd_id n \<in> set unsafe \<or> nd_id n \<in> set before) (p @ ''.id'') NodeId
     @ issue_if (text_blank (nd_name n) \<or> 120 < length (nd_name n)) (p @ ''.name'') NodeName
     @ issue_if (nd_type n \<notin> set NODE_TYPES) (p @ ''.type'') NodeType
     @ (if nd_type n \<in> set work_types then
          issue_if (nd_type n \<noteq> ''review'' \<and> nd_operations n \<noteq> None) (p @ ''.operations'') OperationsNotHere
          @ (case nd_operations n of None \<Rightarrow> [] | Some ops \<Rightarrow> operation_issues fm p n ops)
          @ issue_if (\<not> mode_in n [''single'', ''all'', ''any'', ''sequential'']) (p @ ''.mode'') ModeRequired
          @ issue_if (nd_type n = ''review''
              \<and> (nd_reject n \<notin> {Some ''any_reject'', Some ''all_reject''}
                 \<or> (nd_reject n = Some ''all_reject'' \<and> nd_mode n \<noteq> Some ''any''))) (p @ ''.reject'') RejectRule
          @ assignee_issues subject p n
          @ (case nd_timeoutHours n of None \<Rightarrow> [] | Some h \<Rightarrow> issue_if (\<not> hours_ok h) (p @ ''.timeoutHours'') TimeoutHours)
        else [])
     @ (if nd_type n = ''condition'' then
          map (\<lambda>(q, m). (q, ConditionIssue m))
            (validateCondition (case nd_condition n of None \<Rightarrow> CNonObject | Some c \<Rightarrow> c) fm (p @ ''.condition''))
        else []))"

fun nodes_issues ::
  "string option \<Rightarrow> (string \<rightharpoonup> review_field) \<Rightarrow> string list \<Rightarrow> nat \<Rightarrow> node list \<Rightarrow> issue list" where
  "nodes_issues subject fm before i [] = []"
| "nodes_issues subject fm before i (n # ns) =
    node_issues subject fm before i n @ nodes_issues subject fm (nd_id n # before) (i + 1) ns"

section \<open>The graph\<close>

definition truthy :: "string option \<Rightarrow> bool" where
  "truthy v = (case v of None \<Rightarrow> False | Some s \<Rightarrow> s \<noteq> [])"

definition edges :: "node \<Rightarrow> string option list" where
  "edges n =
    (if nd_type n = ''end'' then []
     else if nd_type n = ''condition'' then [nd_next n, nd_otherwise n]
     else [nd_next n])"

definition targets :: "node \<Rightarrow> string list" where
  \<comment> \<open>the edges a visit follows\<close>
  "targets n = concat (map (\<lambda>v. case v of None \<Rightarrow> [] | Some t \<Rightarrow> if t = [] then [] else [t]) (edges n))"

text \<open>The \<open>Map\<close> of nodes: the last node set for an identifier, identifiers in order of first
  insertion.\<close>

definition node_map :: "node list \<Rightarrow> string \<rightharpoonup> node" where
  "node_map ns = map_of (rev (map (\<lambda>n. (nd_id n, n)) ns))"

definition node_ids :: "node list \<Rightarrow> string list" where
  "node_ids ns = js_uniq (map nd_id ns)"

definition edge_issues :: "node list \<Rightarrow> node \<Rightarrow> issue list" where
  "edge_issues ns n =
    (let p = ''nodes.'' @ nd_id n in
     concat (map (\<lambda>v. issue_if (\<not> truthy v \<or> (case v of None \<Rightarrow> True | Some t \<Rightarrow>
              (case node_map ns t of None \<Rightarrow> True | Some m \<Rightarrow> nd_type m = ''start''))) p EdgeTarget) (edges n))
     @ issue_if (nd_type n = ''end'' \<and> (truthy (nd_next n) \<or> truthy (nd_otherwise n))) p EndHasNext
     @ issue_if (nd_type n \<noteq> ''condition'' \<and> truthy (nd_otherwise n)) p OtherwiseNotHere)"

definition all_edge_issues :: "node list \<Rightarrow> issue list" where
  "all_edge_issues ns =
    concat (map (\<lambda>i. case node_map ns i of None \<Rightarrow> [] | Some n \<Rightarrow> edge_issues ns n) (node_ids ns))"

text \<open>
  The depth-first \<open>visit\<close>: \<open>stack\<close> is the path of open calls, \<open>visited\<close> and the reported
  cycles are threaded through.  A call works off a list of identifiers (the loop over the targets).
\<close>

function visit_ids ::
  "node list \<Rightarrow> string list \<Rightarrow> string list \<Rightarrow> string list \<times> string list \<Rightarrow> string list \<times> string list" where
  "visit_ids ns stack [] st = st"
| "visit_ids ns stack (i # is) (visited, cycles) =
    (if i \<in> set stack then visit_ids ns stack is (visited, cycles @ [i])
     else if i \<in> set visited then visit_ids ns stack is (visited, cycles)
     else case node_map ns i of
            None \<Rightarrow> visit_ids ns stack is (visited, cycles)
          | Some n \<Rightarrow>
              visit_ids ns stack is (visit_ids ns (i # stack) (targets n) (i # visited, cycles)))"
  by pat_completeness auto

lemma node_map_mem: "node_map ns i = Some n \<Longrightarrow> n \<in> set ns \<and> nd_id n = i"
  by (auto simp: node_map_def dest: map_of_SomeD)

termination visit_ids
proof (relation "measures [\<lambda>(ns, stack, is, st). card (set (map nd_id ns) - set stack), \<lambda>(ns, stack, is, st). length is]")
  fix ns stack i "is" visited cycles n
  assume "i \<notin> set stack" "i \<notin> set visited" and n: "node_map ns i = Some n"
  then have "i \<in> set (map nd_id ns) - set stack" using node_map_mem [OF n] by auto
  then have "card (set (map nd_id ns) - set (i # stack)) < card (set (map nd_id ns) - set stack)"
    by (intro psubset_card_mono) auto
  then show "((ns, i # stack, targets n, i # visited, cycles), ns, stack, i # is, visited, cycles)
      \<in> measures [\<lambda>(ns, stack, is, st). card (set (map nd_id ns) - set stack), \<lambda>(ns, stack, is, st). length is]"
    by simp
qed simp_all

text \<open>\<open>noReview\<close>: an end can be reached from here without a human decision.\<close>

function noReview :: "node list \<Rightarrow> string list \<Rightarrow> string \<Rightarrow> bool" where
  "noReview ns seen i =
    (case node_map ns i of
       None \<Rightarrow> False
     | Some n \<Rightarrow>
        if i \<in> set seen \<or> nd_type n = ''review'' then False
        else if nd_type n = ''end'' then True
        else list_ex (noReview ns (i # seen)) (targets n))"
  by pat_completeness auto

termination noReview
proof (relation "measure (\<lambda>(ns, seen, i). card (set (map nd_id ns) - set seen))")
  fix ns seen i n t
  assume n: "node_map ns i = Some n" and "\<not> (i \<in> set seen \<or> nd_type n = ''review'')"
  then have "i \<in> set (map nd_id ns) - set seen" using node_map_mem [OF n] by auto
  then have "card (set (map nd_id ns) - set (i # seen)) < card (set (map nd_id ns) - set seen)"
    by (intro psubset_card_mono) auto
  then show "((ns, i # seen, t), ns, seen, i) \<in> measure (\<lambda>(ns, seen, i). card (set (map nd_id ns) - set seen))"
    by simp
qed simp

declare noReview.simps [simp del]

definition starts :: "node list \<Rightarrow> node list" where
  "starts ns = filter (\<lambda>n. nd_type n = ''start'') ns"

definition visited_from_start :: "node list \<Rightarrow> string list \<times> string list" where
  "visited_from_start ns =
    (case starts ns of [s] \<Rightarrow> visit_ids ns [] [nd_id s] ([], []) | _ \<Rightarrow> ([], []))"

definition graph_issues :: "node list \<Rightarrow> issue list" where
  "graph_issues ns =
    issue_if (length (starts ns) \<noteq> 1) ''nodes'' OneStart
    @ issue_if (\<not> list_ex (\<lambda>n. nd_type n = ''review'') ns) ''nodes'' ReviewNeeded
    @ all_edge_issues ns
    @ (let (visited, cycles) = visited_from_start ns in
       map (\<lambda>i. (''nodes.'' @ i, Cycle)) cycles
       @ issue_if (length visited \<noteq> length (node_ids ns)) ''nodes'' Unreachable)
    @ (case starts ns of [s] \<Rightarrow> issue_if (noReview ns [] (nd_id s)) ''nodes'' ReviewBypassed | _ \<Rightarrow> [])"

section \<open>The definition\<close>

definition knowledge_issues :: "definition_doc \<Rightarrow> issue list" where
  "knowledge_issues d =
    issue_if (\<not> list_ex (\<lambda>f. f_id f = ''knowledge_request'' \<and> f_type f = ''text'' \<and> f_required f) (rd_fields d)
        \<or> \<not> list_ex (\<lambda>f. f_id f = ''publication_note'' \<and> f_type f = ''textarea'' \<and> f_required f) (rd_fields d))
      ''fields'' KnowledgeFields
    @ issue_if (\<not> list_ex (\<lambda>n. nd_type n = ''review'') (rd_nodes d)) ''nodes'' KnowledgeReview
    @ concat (map (\<lambda>n. case nd_operations n of None \<Rightarrow> [] | Some ops \<Rightarrow>
         (case op_amendment ops of None \<Rightarrow> [] | Some a \<Rightarrow>
            issue_if (list_ex (\<lambda>f. f \<noteq> ''publication_note'') (am_fields a)) (''nodes.'' @ nd_id n @ ''.operations'') KnowledgeAmendment))
       (rd_nodes d))"

definition validateDefinition :: "definition_doc \<Rightarrow> issue list" where
  "validateDefinition d =
     map (\<lambda>k. (k, UnknownProperty)) (rd_extra d)
     @ (case rd_organizationUnitId d of None \<Rightarrow> [] | Some u \<Rightarrow>
          issue_if (blank u \<or> 200 < length u) ''organizationUnitId'' OrganizationFormat)
     @ issue_if (rd_schema d \<noteq> ''review.definition.v1'') ''schema'' SchemaVersion
     @ issue_if (text_blank (rd_name d) \<or> 120 < length (rd_name d)) ''name'' NameRequired
     @ issue_if (2000 < length (rd_description d)) ''description'' DescriptionLength
     @ issue_if (rd_subjectType d \<noteq> None \<and> rd_subjectType d \<noteq> Some ''knowledge_publication'') ''subjectType'' UnknownSubject
     @ (if rd_subjectType d = Some ''knowledge_publication'' then knowledge_issues d else [])
     @ issue_if (100 < length (rd_fields d) \<or> 100 < length (rd_nodes d) \<or> rd_nodes d = []) [] SizeLimits
     @ fields_issues [] 0 (rd_fields d)
     @ nodes_issues (rd_subjectType d) (field_map (rd_fields d)) [] 0 (rd_nodes d)
     @ graph_issues (rd_nodes d)"

section \<open>Values\<close>

datatype value_issue = UndeclaredField | RequiredMissing | InvalidValue

definition empty_value :: "js \<Rightarrow> bool" where
  "empty_value v = (case v of JUndefined \<Rightarrow> True | JNull \<Rightarrow> True | JStr s \<Rightarrow> blank s | JArr xs \<Rightarrow> xs = [] | _ \<Rightarrow> False)"

fun js_strings :: "js list \<Rightarrow> string list option" where
  "js_strings [] = Some []"
| "js_strings (JStr s # xs) = map_option (Cons s) (js_strings xs)"
| "js_strings (_ # xs) = None"

definition attachment_id :: "string \<Rightarrow> bool" where
  \<comment> \<open>\<open>/^[a-zA-Z0-9-]{1,64}$/\<close>\<close>
  "attachment_id s \<longleftrightarrow> 1 \<le> length s \<and> length s \<le> 64
     \<and> list_all (\<lambda>c. id_start c \<or> is_digit c \<or> c = CHR ''-'') s"

definition calendar_date :: "string \<Rightarrow> bool" where
  \<comment> \<open>\<open>/^\d{4}-\d{2}-\d{2}$/\<close> and the text is what the date it parses to prints\<close>
  "calendar_date s \<longleftrightarrow>
     length s = 10 \<and> s ! 4 = CHR ''-'' \<and> s ! 7 = CHR ''-''
     \<and> list_all is_digit (take 4 s) \<and> list_all is_digit (take 2 (drop 5 s)) \<and> list_all is_digit (drop 8 s)
     \<and> (let y = digits_value (take 4 s); m = digits_value (take 2 (drop 5 s)); d = digits_value (drop 8 s)
        in 1 \<le> m \<and> m \<le> 12 \<and> 1 \<le> d \<and> d \<le> days_in_month y m)"

definition value_valid :: "review_field \<Rightarrow> js \<Rightarrow> bool" where
  "value_valid f v =
    (if f_type f = ''number'' then js_number v
     else if f_type f = ''decimal'' then validDecimal v f True
     else if f_type f = ''money'' then validMoney v f True
     else if f_type f = ''attachment'' then
       (case v of JArr xs \<Rightarrow> length xs \<le> 10 \<and> (case js_strings xs of None \<Rightarrow> False
                     | Some ss \<Rightarrow> distinct ss \<and> list_all attachment_id ss)
        | _ \<Rightarrow> False)
     else if f_type f = ''multiselect'' then
       (case v of JArr xs \<Rightarrow> (case js_strings xs of None \<Rightarrow> False
                     | Some ss \<Rightarrow> distinct ss \<and> (case f_options f of None \<Rightarrow> False | Some os \<Rightarrow> set ss \<subseteq> set os))
        | _ \<Rightarrow> False)
     else if f_type f = ''select'' then
       (case v of JStr s \<Rightarrow> (case f_options f of None \<Rightarrow> False | Some os \<Rightarrow> s \<in> set os) | _ \<Rightarrow> False)
     else if f_type f = ''date'' then (case v of JStr s \<Rightarrow> calendar_date s | _ \<Rightarrow> False)
     else (case v of JStr s \<Rightarrow> length s \<le> 10000 | _ \<Rightarrow> False))"

definition value_issues :: "(string \<times> js) list \<Rightarrow> review_field \<Rightarrow> (string \<times> value_issue) list" where
  "value_issues vs f =
    (let v = js_field (f_id f) vs in
     if empty_value v then (if f_required f then [(f_id f, RequiredMissing)] else [])
     else if value_valid f v then [] else [(f_id f, InvalidValue)])"

definition validateValues :: "definition_doc \<Rightarrow> (string \<times> js) list \<Rightarrow> (string \<times> value_issue) list" where
  "validateValues d vs =
     concat (map (\<lambda>(k, _). if list_ex (\<lambda>f. f_id f = k) (rd_fields d) then [] else [(k, UndeclaredField)]) vs)
     @ concat (map (value_issues vs) (rd_fields d))"

end
