(* ===== verification/Review_Engine.thy ===== *)
theory Review_Engine
  imports Review_Definition
begin

text \<open>
  The review engine: \<open>advanceReview\<close> and \<open>decideReview\<close> of
  \<open>backend/src/approval/review-engine.ts\<close>, the operations of \<open>review-operations.ts\<close>, the progress
  projection of \<open>review-progress.ts\<close> and the reviewer resolution of \<open>review-resolver.ts\<close>.

  An instance is a record that every operation returns updated; an exception is \<open>Inl\<close> (the
  callers run in a transaction, so the mutations before it are lost).  The resolver of reviewers is
  an argument, as in the code.  \<open>uuid\<close> supplies the identifiers \<open>randomUUID\<close> draws: the task
  that will stand at position \<open>k\<close> gets \<open>uuid k\<close>.  An absent \<open>round\<close> is \<open>0\<close> and an
  absent task \<open>id\<close> the empty string, both of which the code treats as absent (\<open>||\<close>).
\<close>

section \<open>Instances and tasks\<close>

datatype task_status =
    TWaiting | TPending | TApproved | TRejected | TCancelled | TTransferred | TSuspended | TSuperseded | TCompleted

datatype assignment_source = ByDefault | ByTransfer | ByCountersign | ByTimeout

record task =
  tk_id :: string
  tk_round :: nat
  tk_source :: "assignment_source option"
  tk_duty :: "string option"
  tk_replaced :: "string option"
  tk_node :: string
  tk_user :: string
  tk_status :: task_status
  tk_reason :: "string option"
  tk_decidedAt :: "int option"
  tk_dueAt :: "int option"

datatype instance_status = Reviewing | IApproved | IRejected | Withdrawn | Blocked | AwaitingAmendment

datatype blocked_reason = NoQualifiedReviewer | ConditionFields "string list" | TimeoutTakeover

record amendment =
  ad_fields :: "string list"
  ad_reason :: string
  ad_requestedBy :: string

record review_instance =
  ri_id :: string
  ri_templateId :: string
  ri_templateVersion :: int
  ri_version :: int
  ri_requester :: string
  ri_definition :: definition_doc
  ri_values :: "(string \<times> js) list"
  ri_currentNode :: string
  ri_status :: instance_status
  ri_round :: nat
  ri_amendment :: "amendment option"
  ri_blocked :: "blocked_reason option"
  ri_tasks :: "task list"
  ri_updatedAt :: int

type_synonym resolver = "node \<Rightarrow> string \<Rightarrow> task option \<Rightarrow> string list"

record trace_step =
  ts_node :: string
  ts_type :: string
  ts_users :: "string list option"
  ts_matched :: "bool option"
  ts_inputs :: "(string \<times> js) list option"
  ts_next :: "string option"
  ts_blocked :: "blocked_reason option"

datatype engine_error =
    TargetMissing | NotConverged | MalformedCondition | NotReviewing | NotAReviewNode | NoValidTask | PropertyOfUndefined

definition round_of :: "nat \<Rightarrow> nat" where
  "round_of r = (if r = 0 then 1 else r)"

definition node_at :: "review_instance \<Rightarrow> string option \<Rightarrow> node option" where
  "node_at i target = find (\<lambda>n. Some (nd_id n) = target) (rd_nodes (ri_definition i))"

definition current_node :: "review_instance \<Rightarrow> node option" where
  "current_node i = node_at i (Some (ri_currentNode i))"

definition deadline :: "node \<Rightarrow> int \<Rightarrow> int option" where
  "deadline n now =
    (case nd_timeoutHours n of
       None \<Rightarrow> None
     | Some h \<Rightarrow> if h = 0 then None else Some (\<lfloor>of_int now + h * 3600000\<rfloor>))"

section \<open>Advancing\<close>

definition new_tasks :: "(nat \<Rightarrow> string) \<Rightarrow> int \<Rightarrow> review_instance \<Rightarrow> node \<Rightarrow> string list \<Rightarrow> task list" where
  "new_tasks uuid now i n users =
    map (\<lambda>(k, u).
        (let later = (nd_mode n = Some ''sequential'' \<and> 0 < k) in
         \<lparr>tk_id = uuid (length (ri_tasks i) + k), tk_round = round_of (ri_round i), tk_source = Some ByDefault,
          tk_duty = Some (nd_type n), tk_replaced = None, tk_node = nd_id n, tk_user = u,
          tk_status = (if nd_type n = ''cc'' then TCompleted else if later then TWaiting else TPending),
          tk_reason = None, tk_decidedAt = None, tk_dueAt = (if later then None else deadline n now)\<rparr>))
      (zip [0..<length users] users)"

definition unqualified :: "review_instance \<Rightarrow> node \<Rightarrow> string list \<Rightarrow> bool" where
  "unqualified i n users \<longleftrightarrow>
     users = [] \<or> (nd_mode n = Some ''single'' \<and> length users \<noteq> 1)
     \<or> (nd_type n = ''review'' \<and> ri_requester i \<in> set users)"

datatype move = Stop | Go "string option"

definition block_with :: "blocked_reason \<Rightarrow> review_instance \<Rightarrow> review_instance" where
  "block_with r i = i\<lparr>ri_status := Blocked, ri_blocked := Some r\<rparr>"

definition entry_of :: "node \<Rightarrow> trace_step" where
  "entry_of n = \<lparr>ts_node = nd_id n, ts_type = nd_type n, ts_users = None, ts_matched = None, ts_inputs = None,
     ts_next = nd_next n, ts_blocked = None\<rparr>"

definition or_js_null :: "js \<Rightarrow> js" where
  "or_js_null v = (if v = JUndefined then JNull else v)"

text \<open>One turn of the loop at the node it found.\<close>

definition enter_work ::
  "resolver \<Rightarrow> (nat \<Rightarrow> string) \<Rightarrow> int \<Rightarrow> review_instance \<Rightarrow> node \<Rightarrow> review_instance \<times> move \<times> trace_step" where
  "enter_work resolve uuid now i n =
    (let users = js_uniq (resolve n (ri_requester i) None);
         entry = (entry_of n)\<lparr>ts_users := Some users\<rparr> in
     if unqualified i n users then
       (block_with NoQualifiedReviewer i, Stop, entry\<lparr>ts_blocked := Some NoQualifiedReviewer\<rparr>)
     else
       (let i1 = i\<lparr>ri_status := Reviewing, ri_blocked := None,
                   ri_tasks := ri_tasks i @ new_tasks uuid now i n users\<rparr>
        in (i1, if nd_type n = ''cc'' then Go (nd_next n) else Stop, entry)))"

definition enter_condition ::
  "review_instance \<Rightarrow> node \<Rightarrow> engine_error + review_instance \<times> move \<times> trace_step" where
  "enter_condition i n =
    (case nd_condition n of
       None \<Rightarrow> Inl MalformedCondition
     | Some c \<Rightarrow>
        (case evaluateCondition c (ri_values i) (rd_fields (ri_definition i)) of
           None \<Rightarrow> Inl MalformedCondition
         | Some (result, missing) \<Rightarrow>
            (let entry = (entry_of n)\<lparr>ts_inputs := Some (map (\<lambda>f. (f, or_js_null (js_field f (ri_values i))))
                            (js_uniq (condition_fields c)))\<rparr> in
             if missing \<noteq> [] then
               Inr (block_with (ConditionFields missing) i, Stop, entry\<lparr>ts_blocked := Some (ConditionFields missing)\<rparr>)
             else
               (let target = (if result then nd_next n else nd_otherwise n)
                in Inr (i, Go target, entry\<lparr>ts_matched := Some result, ts_next := target\<rparr>)))))"

definition enter_node ::
  "resolver \<Rightarrow> (nat \<Rightarrow> string) \<Rightarrow> int \<Rightarrow> review_instance \<Rightarrow> node
     \<Rightarrow> engine_error + review_instance \<times> move \<times> trace_step" where
  "enter_node resolve uuid now i0 n =
    (let i = i0\<lparr>ri_currentNode := nd_id n\<rparr> in
     if nd_type n = ''end'' then Inr (i\<lparr>ri_status := IApproved\<rparr>, Stop, entry_of n)
     else if nd_type n \<in> set work_types then Inr (enter_work resolve uuid now i n)
     else if nd_type n = ''condition'' then enter_condition i n
     else Inr (i, Go (nd_next n), entry_of n))"

fun advance_loop ::
  "resolver \<Rightarrow> (nat \<Rightarrow> string) \<Rightarrow> int \<Rightarrow> nat \<Rightarrow> review_instance \<Rightarrow> string option
     \<Rightarrow> engine_error + review_instance \<times> trace_step list" where
  \<comment> \<open>the number is the turns left\<close>
  "advance_loop resolve uuid now 0 i target = Inl NotConverged"
| "advance_loop resolve uuid now (Suc steps) i target =
    (case node_at i target of
       None \<Rightarrow> Inl TargetMissing
     | Some n \<Rightarrow>
        (case enter_node resolve uuid now i n of
           Inl e \<Rightarrow> Inl e
         | Inr (i1, Stop, entry) \<Rightarrow> Inr (i1, [entry])
         | Inr (i1, Go next, entry) \<Rightarrow>
            (case advance_loop resolve uuid now steps i1 next of
               Inl e \<Rightarrow> Inl e
             | Inr (i2, trace) \<Rightarrow> Inr (i2, entry # trace))))"

definition advanceReview ::
  "resolver \<Rightarrow> (nat \<Rightarrow> string) \<Rightarrow> int \<Rightarrow> review_instance \<Rightarrow> string option
     \<Rightarrow> engine_error + review_instance \<times> trace_step list" where
  "advanceReview resolve uuid now i target =
    advance_loop resolve uuid now (length (rd_nodes (ri_definition i)) + 1) i target"

definition advance_only ::
  "resolver \<Rightarrow> (nat \<Rightarrow> string) \<Rightarrow> int \<Rightarrow> review_instance \<Rightarrow> string option \<Rightarrow> engine_error + review_instance" where
  \<comment> \<open>the call without a trace\<close>
  "advance_only resolve uuid now i target = map_sum id fst (advanceReview resolve uuid now i target)"

section \<open>Deciding\<close>

datatype decision = Approve | Reject

definition current_tasks_pred :: "review_instance \<Rightarrow> task \<Rightarrow> bool" where
  "current_tasks_pred i t \<longleftrightarrow> tk_node t = ri_currentNode i \<and> round_of (tk_round t) = round_of (ri_round i)"

definition currentTasks :: "review_instance \<Rightarrow> task list" where
  "currentTasks i = filter (current_tasks_pred i) (ri_tasks i)"

definition open_status :: "task_status \<Rightarrow> bool" where
  "open_status s \<longleftrightarrow> s = TPending \<or> s = TWaiting"

definition active :: "review_instance \<Rightarrow> task \<Rightarrow> bool" where
  "active i t \<longleftrightarrow> current_tasks_pred i t \<and> tk_status t \<notin> {TTransferred, TSuperseded, TCancelled}"

definition cancel_open :: "review_instance \<Rightarrow> review_instance" where
  "cancel_open i =
    i\<lparr>ri_tasks := map (\<lambda>t. if active i t \<and> open_status (tk_status t) then t\<lparr>tk_status := TCancelled\<rparr> else t) (ri_tasks i)\<rparr>"

definition wake_next :: "node \<Rightarrow> int \<Rightarrow> review_instance \<Rightarrow> review_instance" where
  "wake_next n now i =
    i\<lparr>ri_tasks := update_first (\<lambda>t. active i t \<and> tk_status t = TWaiting)
        (\<lambda>t. t\<lparr>tk_status := TPending, tk_dueAt := (case deadline n now of None \<Rightarrow> tk_dueAt t | Some d \<Rightarrow> Some d)\<rparr>) (ri_tasks i)\<rparr>"

definition own_pending :: "review_instance \<Rightarrow> string \<Rightarrow> task \<Rightarrow> bool" where
  "own_pending i user t \<longleftrightarrow> current_tasks_pred i t \<and> tk_user t = user \<and> tk_status t = TPending"

definition settle_node ::
  "resolver \<Rightarrow> (nat \<Rightarrow> string) \<Rightarrow> int \<Rightarrow> review_instance \<Rightarrow> node \<Rightarrow> bool \<Rightarrow> engine_error + review_instance" where
  \<comment> \<open>close the node when it is finished, otherwise wake the next reviewer of a sequence\<close>
  "settle_node resolve uuid now i n finished =
    (if finished then advance_only resolve uuid now (cancel_open i) (nd_next n)
     else Inr (if nd_mode n = Some ''sequential'' then wake_next n now i else i))"

definition decideReview ::
  "resolver \<Rightarrow> (nat \<Rightarrow> string) \<Rightarrow> int \<Rightarrow> string \<Rightarrow> decision \<Rightarrow> string \<Rightarrow> review_instance
     \<Rightarrow> engine_error + review_instance" where
  "decideReview resolve uuid now user action reason i =
    (if ri_status i \<noteq> Reviewing then Inl NotReviewing
     else case current_node i of
       None \<Rightarrow> Inl PropertyOfUndefined
     | Some n \<Rightarrow>
        if nd_type n \<noteq> ''review'' then Inl NotAReviewNode
        else case find (own_pending i user) (ri_tasks i) of
          None \<Rightarrow> Inl NoValidTask
        | Some t \<Rightarrow>
           if user \<notin> set (resolve n (ri_requester i) (Some t)) \<or> user = ri_requester i then Inl NoValidTask
           else
             (let i1 = i\<lparr>ri_tasks := update_first (own_pending i user)
                       (\<lambda>t. t\<lparr>tk_status := (if action = Approve then TApproved else TRejected), tk_reason := Some reason,
                              tk_decidedAt := Some now\<rparr>) (ri_tasks i)\<rparr>;
                  tasks = filter (active i1) (ri_tasks i1)
              in if (if nd_reject n = Some ''all_reject'' then list_all (\<lambda>t. tk_status t = TRejected) tasks
                     else list_ex (\<lambda>t. tk_status t = TRejected) tasks)
                 then Inr (cancel_open (i1\<lparr>ri_status := IRejected\<rparr>))
                 else settle_node resolve uuid now i1 n
                        (if nd_mode n = Some ''any'' then list_ex (\<lambda>t. tk_status t = TApproved) tasks
                         else list_all (\<lambda>t. tk_status t = TApproved) tasks)))"

section \<open>Operations on a running review\<close>

definition normalizeTasks :: "review_instance \<Rightarrow> review_instance" where
  "normalizeTasks i =
    i\<lparr>ri_round := round_of (ri_round i),
      ri_tasks := map (\<lambda>(k, t). t\<lparr>tk_id := (if tk_id t = [] then ri_id i @ '':task:'' @ show_nat k else tk_id t),
                                  tk_round := round_of (tk_round t),
                                  tk_source := (case tk_source t of None \<Rightarrow> Some ByDefault | Some x \<Rightarrow> Some x)\<rparr>)
                    (zip [0..<length (ri_tasks i)] (ri_tasks i))\<rparr>"

definition taskPolicy :: "node \<Rightarrow> task option \<Rightarrow> assignee option" where
  "taskPolicy n t =
    (let ops = nd_operations n; source = (case t of None \<Rightarrow> None | Some t \<Rightarrow> tk_source t) in
     if source = Some ByTransfer then
       (case ops of None \<Rightarrow> None | Some o1 \<Rightarrow> (case op_transfer o1 of None \<Rightarrow> None | Some p \<Rightarrow> tp_candidates p))
     else if source = Some ByCountersign then
       (case ops of None \<Rightarrow> None | Some o1 \<Rightarrow> (case op_countersign o1 of None \<Rightarrow> None | Some p \<Rightarrow> p))
     else (case ops of
             Some o1 \<Rightarrow> (case op_timeout o1 of
                Some p \<Rightarrow> if source = Some ByTimeout \<and> to_action p = ''transfer'' then to_candidates p else nd_assignee n
              | None \<Rightarrow> nd_assignee n)
           | None \<Rightarrow> nd_assignee n))"

definition transfer_deadline :: "node \<Rightarrow> string option" where
  "transfer_deadline n =
    (case nd_operations n of None \<Rightarrow> None | Some o1 \<Rightarrow> map_option tp_deadline (op_transfer o1))"

definition replacement_task ::
  "review_instance \<Rightarrow> node \<Rightarrow> task \<Rightarrow> string \<Rightarrow> assignment_source \<Rightarrow> string \<Rightarrow> int \<Rightarrow> task" where
  "replacement_task i n t target source new_id now =
    \<lparr>tk_id = new_id, tk_round = round_of (ri_round i), tk_source = Some source, tk_duty = None,
     tk_replaced = Some (tk_id t), tk_node = tk_node t, tk_user = target, tk_status = TPending, tk_reason = None,
     tk_decidedAt = None,
     tk_dueAt = (case tk_dueAt t of
        None \<Rightarrow> None
      | Some due \<Rightarrow>
          (case (if source = ByTimeout then Some ''reset'' else transfer_deadline n, deadline n now) of
             (Some r, Some d) \<Rightarrow> Some (if r = ''reset'' then d else due)
           | _ \<Rightarrow> Some due))\<rparr>"

fun replace_first :: "('a \<Rightarrow> bool) \<Rightarrow> ('a \<Rightarrow> 'a list) \<Rightarrow> 'a list \<Rightarrow> 'a list" where
  "replace_first p f [] = []"
| "replace_first p f (x # xs) = (if p x then f x @ xs else x # replace_first p f xs)"

definition reassignTask ::
  "review_instance \<Rightarrow> node \<Rightarrow> (task \<Rightarrow> bool) \<Rightarrow> string \<Rightarrow> assignment_source \<Rightarrow> string option \<Rightarrow> string \<Rightarrow> int
     \<Rightarrow> review_instance" where
  \<comment> \<open>the task is the first one with the property; \<open>reason\<close> is what the caller then writes to it\<close>
  "reassignTask i n p target source reason new_id now =
    i\<lparr>ri_tasks := replace_first p
        (\<lambda>t. [t\<lparr>tk_status := TTransferred, tk_decidedAt := Some now,
                tk_reason := (case reason of None \<Rightarrow> tk_reason t | Some r \<Rightarrow> Some r)\<rparr>,
              replacement_task i n t target source new_id now]) (ri_tasks i)\<rparr>"

datatype operation =
    Complete string | Transfer string string | Countersign string string | RequestAmendment string
  | Resubmit string "(string \<times> js) list"

definition complete_operation ::
  "resolver \<Rightarrow> (nat \<Rightarrow> string) \<Rightarrow> int \<Rightarrow> string \<Rightarrow> string \<Rightarrow> node \<Rightarrow> review_instance \<Rightarrow> engine_error + review_instance" where
  "complete_operation resolve uuid now user reason n i =
    (let i1 = i\<lparr>ri_tasks := update_first (own_pending i user)
               (\<lambda>t. t\<lparr>tk_status := TCompleted, tk_reason := Some reason, tk_decidedAt := Some now\<rparr>) (ri_tasks i)\<rparr>
     in settle_node resolve uuid now i1 n
          (nd_mode n = Some ''any'' \<or> list_all (\<lambda>t. tk_status t = TCompleted) (filter (active i1) (ri_tasks i1))))"

definition countersign_task :: "review_instance \<Rightarrow> node \<Rightarrow> task \<Rightarrow> string \<Rightarrow> string \<Rightarrow> task" where
  "countersign_task i n t target new_id =
    \<lparr>tk_id = new_id, tk_round = ri_round i, tk_source = Some ByCountersign, tk_duty = None, tk_replaced = None,
     tk_node = ri_currentNode i, tk_user = target,
     tk_status = (if nd_mode n = Some ''sequential'' then TWaiting else TPending), tk_reason = None,
     tk_decidedAt = None, tk_dueAt = (if nd_mode n = Some ''sequential'' then None else tk_dueAt t)\<rparr>"

definition start_id :: "review_instance \<Rightarrow> string option" where
  "start_id i = map_option nd_id (find (\<lambda>n. nd_type n = ''start'') (rd_nodes (ri_definition i)))"

definition applyReviewOperation ::
  "resolver \<Rightarrow> (nat \<Rightarrow> string) \<Rightarrow> int \<Rightarrow> string \<Rightarrow> operation \<Rightarrow> review_instance \<Rightarrow> engine_error + review_instance" where
  "applyReviewOperation resolve uuid now user command i0 =
    (let i = normalizeTasks i0; own = find (own_pending i user) (ri_tasks i); fresh = uuid (length (ri_tasks i)) in
     case command of
       Complete reason \<Rightarrow>
        (case (own, current_node i) of
           (Some t, Some n) \<Rightarrow> complete_operation resolve uuid now user reason n i
         | _ \<Rightarrow> Inl PropertyOfUndefined)
     | Transfer target reason \<Rightarrow>
        (case (own, current_node i) of
           (Some t, Some n) \<Rightarrow> Inr (reassignTask i n (own_pending i user) target ByTransfer (Some reason) fresh now)
         | _ \<Rightarrow> Inl PropertyOfUndefined)
     | Countersign target reason \<Rightarrow>
        (case (own, current_node i) of
           (Some t, Some n) \<Rightarrow>
             Inr (i\<lparr>ri_tasks := insert_after_first (own_pending i user) (countersign_task i n t target fresh) (ri_tasks i)\<rparr>)
         | _ \<Rightarrow> Inl PropertyOfUndefined)
     | RequestAmendment reason \<Rightarrow>
        (case current_node i of
           None \<Rightarrow> Inl PropertyOfUndefined
         | Some n \<Rightarrow>
            (case nd_operations n of
               None \<Rightarrow> Inl PropertyOfUndefined
             | Some ops \<Rightarrow>
                (case op_amendment ops of
                   None \<Rightarrow> Inl PropertyOfUndefined
                 | Some a \<Rightarrow>
                    Inr (i\<lparr>ri_status := AwaitingAmendment,
                           ri_amendment := Some \<lparr>ad_fields = am_fields a, ad_reason = reason, ad_requestedBy = user\<rparr>,
                           ri_tasks := map (\<lambda>t. if current_tasks_pred i t \<and> open_status (tk_status t)
                                              then t\<lparr>tk_status := TSuspended\<rparr> else t) (ri_tasks i)\<rparr>))))
     | Resubmit reason new_values \<Rightarrow>
        (let i1 = i\<lparr>ri_tasks := map (\<lambda>t. if tk_status t \<in> {TPending, TWaiting, TSuspended}
                                       then t\<lparr>tk_status := TSuperseded\<rparr> else t) (ri_tasks i),
                    ri_round := ri_round i + 1, ri_values := new_values, ri_amendment := None, ri_blocked := None\<rparr>
         in case start_id i1 of
              None \<Rightarrow> Inl PropertyOfUndefined
            | Some s \<Rightarrow> advance_only resolve uuid now i1 (Some s)))"

section \<open>Progress\<close>

datatype approval_progress = ApprovalPending | ApprovalApproved | ApprovalRejected | ApprovalWithdrawn

datatype fulfillment = FulfillNone | FulfillPending | FulfillHandling | FulfillCompleted | FulfillCancelled

datatype responsibility = SupplyMaterial | HandleMatter | GiveOpinion | DecideApproval | ViewResult

record review_progress =
  rp_approval :: approval_progress
  rp_fulfillment :: fulfillment
  rp_responsibility :: responsibility

text \<open>\<open>hasReviewAfter\<close>: the recursion shares \<open>seen\<close>, so it is the visit of a list of open calls.\<close>

function has_review_after :: "node list \<Rightarrow> string list \<Rightarrow> string option list \<Rightarrow> bool" where
  "has_review_after ns seen [] = False"
| "has_review_after ns seen (v # vs) =
    (if \<not> truthy v \<or> the v \<in> set seen then has_review_after ns seen vs
     else case find (\<lambda>n. nd_id n = the v) ns of
            None \<Rightarrow> has_review_after ns (the v # seen) vs
          | Some n \<Rightarrow>
             if nd_type n = ''review'' then True
             else has_review_after ns (the v # seen) (nd_next n # nd_otherwise n # vs))"
  by pat_completeness auto

termination has_review_after
proof (relation "measures [\<lambda>(ns, seen, vs). card (set (map nd_id ns) - set seen), \<lambda>(ns, seen, vs). length vs]")
  fix ns :: "node list" and seen v vs n
  assume new: "\<not> (\<not> truthy v \<or> the v \<in> set seen)" and n: "find (\<lambda>n. nd_id n = the v) ns = Some n"
  from find_SomeD [OF n] have "the v \<in> set (map nd_id ns)" by (metis imageI list.set_map)
  with new have "the v \<in> set (map nd_id ns) - set seen" by simp
  then have "card (set (map nd_id ns) - set (the v # seen)) < card (set (map nd_id ns) - set seen)"
    by (intro psubset_card_mono) auto
  then show "((ns, the v # seen, nd_next n # nd_otherwise n # vs), ns, seen, v # vs)
      \<in> measures [\<lambda>(ns, seen, vs). card (set (map nd_id ns) - set seen), \<lambda>(ns, seen, vs). length vs]"
    by simp
next
  fix ns :: "node list" and seen v and vs :: "string option list"
  have "card (set (map nd_id ns) - set (the v # seen)) \<le> card (set (map nd_id ns) - set seen)"
    by (intro card_mono) auto
  then show "((ns, the v # seen, vs), ns, seen, v # vs)
      \<in> measures [\<lambda>(ns, seen, vs). card (set (map nd_id ns) - set seen), \<lambda>(ns, seen, vs). length vs]"
    by auto
qed simp_all

definition reviewProgress :: "review_instance \<Rightarrow> review_progress" where
  "reviewProgress i =
    (let n = current_node i; ty = (case n of None \<Rightarrow> [] | Some n \<Rightarrow> nd_type n);
         tasks = filter (\<lambda>t. round_of (tk_round t) = round_of (ri_round i)) (ri_tasks i);
         cancelled = (ri_status i = Withdrawn \<or> ri_status i = IRejected);
         handled = list_ex (\<lambda>t. tk_duty t = Some ''handler'') tasks;
         handling = (ty = ''handler'' \<and> (ri_status i = Reviewing \<or> ri_status i = Blocked));
         after = has_review_after (rd_nodes (ri_definition i)) [] [case n of None \<Rightarrow> None | Some n \<Rightarrow> nd_next n]
     in \<lparr>rp_approval =
          (if ri_status i = IRejected then ApprovalRejected
           else if ri_status i = Withdrawn then ApprovalWithdrawn
           else if ri_status i = IApproved
                \<or> (handling \<and> \<not> after \<and> list_ex (\<lambda>t. tk_duty t = Some ''review'' \<and> tk_status t = TApproved) tasks)
             then ApprovalApproved else ApprovalPending),
        rp_fulfillment =
          (if cancelled then (if handled then FulfillCancelled else FulfillNone)
           else if handling then FulfillHandling
           else if ri_status i = IApproved then (if handled then FulfillCompleted else FulfillNone)
           else if list_ex (\<lambda>n. nd_type n = ''handler'') (rd_nodes (ri_definition i)) then FulfillPending
           else FulfillNone),
        rp_responsibility =
          (if ri_status i = AwaitingAmendment then SupplyMaterial
           else if ty = ''handler'' then HandleMatter
           else if ty = ''consult'' then GiveOpinion
           else if ri_status i = Reviewing then DecideApproval else ViewResult)\<rparr>)"

section \<open>Resolving reviewers\<close>

record person =
  pe_id :: string
  pe_name :: utext
  pe_managers :: "string list"
  pe_roles :: "string list"

record review_context =
  rc_tenant :: string
  rc_actor :: string
  rc_admin :: bool
  rc_people :: "person list"

definition known_person :: "review_context \<Rightarrow> string \<Rightarrow> bool" where
  "known_person ctx i \<longleftrightarrow> list_ex (\<lambda>p. pe_id p = i) (rc_people ctx)"

definition reviewCandidates :: "review_context \<Rightarrow> assignee_rule \<Rightarrow> string \<Rightarrow> string list" where
  "reviewCandidates ctx rule requester =
    (let ids = (case rule of
           Named us \<Rightarrow> us
         | RoleRule r \<Rightarrow> map pe_id (filter (\<lambda>p. r \<in> set (pe_roles p)) (rc_people ctx))
         | _ \<Rightarrow> (case find (\<lambda>p. pe_id p = requester) (rc_people ctx) of None \<Rightarrow> [] | Some p \<Rightarrow> pe_managers p))
     in if list_all (known_person ctx) ids then ids else [])"

definition reviewChoiceCandidates :: "review_context \<Rightarrow> assignee_rule \<Rightarrow> string \<Rightarrow> string list" where
  "reviewChoiceCandidates ctx rule requester =
    filter (\<lambda>i. i \<noteq> requester)
      (case rule of Named us \<Rightarrow> filter (known_person ctx) us | _ \<Rightarrow> reviewCandidates ctx rule requester)"

definition reviewResolver :: "review_context \<Rightarrow> (string \<rightharpoonup> string list) \<Rightarrow> resolver" where
  "reviewResolver ctx choices n requester t =
    (case taskPolicy n t of
       None \<Rightarrow> []
     | Some (Fixed rule) \<Rightarrow> reviewCandidates ctx rule requester
     | Some (RequesterChoice None) \<Rightarrow> []
     | Some (RequesterChoice (Some rule)) \<Rightarrow>
        (let pool = reviewChoiceCandidates ctx rule requester;
             selected = (case choices (nd_id n) of None \<Rightarrow> [] | Some s \<Rightarrow> s)
         in if selected \<noteq> [] \<and> list_all (\<lambda>i. i \<in> set pool) selected then selected else []))"

end
