(* ===== verification/Review_Graph.thy ===== *)
theory Review_Graph
  imports Review_Engine
begin

text \<open>
  What the graph checks of \<open>validateDefinition\<close> establish.  The depth-first visit is shown to be
  correct: when it reports no cycle, the visited nodes that are no longer open are closed under the
  edges and can be ranked so that every edge goes down.  A definition without issues therefore has a
  height function on its nodes, and no way from the start to an end without a human decision.
\<close>

section \<open>The depth-first visit\<close>

definition ranked :: "node list \<Rightarrow> string set \<Rightarrow> bool" where
  \<comment> \<open>the set is closed under edges to nodes and some rank decreases along every edge\<close>
  "ranked ns B \<longleftrightarrow> (\<exists>r :: string \<Rightarrow> nat. \<forall>b \<in> B. \<forall>n. node_map ns b = Some n \<longrightarrow>
     (\<forall>t \<in> set (targets n). node_map ns t \<noteq> None \<longrightarrow> t \<in> B \<and> r t < r b))"

lemma ranked_insert:
  assumes "ranked ns B" and "i \<notin> B"
    and "\<And>n t. node_map ns i = Some n \<Longrightarrow> t \<in> set (targets n) \<Longrightarrow> node_map ns t \<noteq> None \<Longrightarrow> t \<in> B"
    and "finite B"
  shows "ranked ns (insert i B)"
proof -
  obtain r where r: "\<forall>b \<in> B. \<forall>n. node_map ns b = Some n \<longrightarrow>
     (\<forall>t \<in> set (targets n). node_map ns t \<noteq> None \<longrightarrow> t \<in> B \<and> (r t :: nat) < r b)"
    using assms(1) by (auto simp: ranked_def)
  define r' where "r' = r(i := Suc (Max (insert 0 (r ` B))))"
  have top: "r t < r' i" if "t \<in> B" for t
    using that assms(4) by (simp add: r'_def le_imp_less_Suc)
  have same: "r' t = r t" if "t \<in> B" for t using that assms(2) by (auto simp: r'_def)
  have "\<forall>b \<in> insert i B. \<forall>n. node_map ns b = Some n \<longrightarrow>
     (\<forall>t \<in> set (targets n). node_map ns t \<noteq> None \<longrightarrow> t \<in> insert i B \<and> r' t < r' b)"
  proof (intro ballI allI impI)
    fix b n t
    assume b: "b \<in> insert i B" and n: "node_map ns b = Some n" and t: "t \<in> set (targets n)" "node_map ns t \<noteq> None"
    show "t \<in> insert i B \<and> r' t < r' b"
    proof (cases "b = i")
      case True
      then have "t \<in> B" using assms(3) n t by blast
      then show ?thesis using top same True by simp
    next
      case False
      with b have "b \<in> B" by simp
      with r n t have "t \<in> B \<and> r t < r b" by blast
      then show ?thesis using same \<open>b \<in> B\<close> by simp
    qed
  qed
  then show ?thesis unfolding ranked_def by blast
qed

text \<open>The nodes that are visited and closed.\<close>

definition closed_part :: "string list \<Rightarrow> string list \<Rightarrow> string set" where
  "closed_part stack visited = set visited - set stack"

lemma visit_grows:
  "set visited \<subseteq> set (fst (visit_ids ns stack is (visited, cycles)))
   \<and> (\<exists>more. snd (visit_ids ns stack is (visited, cycles)) = cycles @ more)"
proof (induction ns stack "is" "(visited, cycles)" arbitrary: visited cycles rule: visit_ids.induct)
  case (2 ns stack i "is" visited cycles)
  show ?case
  proof (cases "i \<in> set stack \<or> i \<in> set visited \<or> node_map ns i = None")
    case True
    then show ?thesis using 2(1,2,3) by (auto split: option.split)
  next
    case False
    then obtain n where n: "i \<notin> set stack" "i \<notin> set visited" "node_map ns i = Some n" by auto
    obtain v1 c1 where inner: "visit_ids ns (i # stack) (targets n) (i # visited, cycles) = (v1, c1)" by force
    have a: "set (i # visited) \<subseteq> set v1 \<and> (\<exists>more. c1 = cycles @ more)"
      using 2(4) [OF n] inner by simp
    have b: "set v1 \<subseteq> set (fst (visit_ids ns stack is (v1, c1))) \<and> (\<exists>more. snd (visit_ids ns stack is (v1, c1)) = c1 @ more)"
      using 2(5) [OF n] inner by simp
    have eq: "visit_ids ns stack (i # is) (visited, cycles) = visit_ids ns stack is (v1, c1)"
      using n inner by simp
    show ?thesis unfolding eq using a b by auto
  qed
qed simp

lemma visit_correct:
  assumes "snd (visit_ids ns stack is (visited, cycles)) = cycles"
    and "set stack \<subseteq> set visited" and "ranked ns (closed_part stack visited)" and "distinct visited"
    and "set visited \<subseteq> dom (node_map ns)"
  shows "ranked ns (closed_part stack (fst (visit_ids ns stack is (visited, cycles))))
    \<and> distinct (fst (visit_ids ns stack is (visited, cycles)))
    \<and> set (fst (visit_ids ns stack is (visited, cycles))) \<subseteq> dom (node_map ns)
    \<and> (\<forall>t \<in> set is. node_map ns t \<noteq> None \<longrightarrow> t \<in> closed_part stack (fst (visit_ids ns stack is (visited, cycles))))"
  using assms
proof (induction ns stack "is" "(visited, cycles)" arbitrary: visited cycles rule: visit_ids.induct)
  case (2 ns stack i "is" visited cycles)
  have "i \<notin> set stack"
  proof
    assume "i \<in> set stack"
    then have "snd (visit_ids ns stack is (visited, cycles @ [i])) = cycles" using 2(6) by simp
    with visit_grows [of visited ns stack "is" "cycles @ [i]"] show False by auto
  qed
  note i = this
  have keep: "set visited \<subseteq> set (fst (visit_ids ns stack is st))" if "set visited \<subseteq> set (fst st)" for st
    using visit_grows [of "fst st" ns stack "is" "snd st"] that by auto
  show ?case
  proof (cases "i \<in> set visited")
    case True
    have "visit_ids ns stack (i # is) (visited, cycles) = visit_ids ns stack is (visited, cycles)" using i True by simp
    moreover have "i \<in> closed_part stack (fst (visit_ids ns stack is (visited, cycles)))"
      using True i keep [of "(visited, cycles)"] by (auto simp: closed_part_def)
    ultimately show ?thesis using 2(2) [OF i True] 2(6-10) by simp
  next
    case nv: False
    show ?thesis
    proof (cases "node_map ns i")
      case None
      then have "visit_ids ns stack (i # is) (visited, cycles) = visit_ids ns stack is (visited, cycles)" using i nv by simp
      then show ?thesis using 2(3) [OF i nv None] 2(6-10) None by simp
    next
      case (Some n)
      obtain v1 c1 where inner: "visit_ids ns (i # stack) (targets n) (i # visited, cycles) = (v1, c1)" by force
      have eq: "visit_ids ns stack (i # is) (visited, cycles) = visit_ids ns stack is (v1, c1)"
        using i nv Some inner by simp
      obtain m1 m2 where m: "c1 = cycles @ m1" "snd (visit_ids ns stack is (v1, c1)) = c1 @ m2"
        using visit_grows [of "i # visited" ns "i # stack" "targets n" cycles] visit_grows [of v1 ns stack "is" c1] inner by auto
      with 2(6) eq have c1: "c1 = cycles" "snd (visit_ids ns stack is (v1, c1)) = c1" by auto
      have part: "closed_part (i # stack) (i # visited) = closed_part stack visited"
        using nv by (auto simp: closed_part_def)
      have "ranked ns (closed_part (i # stack) v1) \<and> distinct v1 \<and> set v1 \<subseteq> dom (node_map ns)
          \<and> (\<forall>t \<in> set (targets n). node_map ns t \<noteq> None \<longrightarrow> t \<in> closed_part (i # stack) v1)"
        using 2(4) [OF i nv Some] inner c1(1) 2(7-10) part nv Some by auto
      note v1 = this
      have grow: "set (i # visited) \<subseteq> set v1"
        using visit_grows [of "i # visited" ns "i # stack" "targets n" cycles] inner by simp
      have ins: "closed_part stack v1 = insert i (closed_part (i # stack) v1)"
        using grow i by (auto simp: closed_part_def)
      have rank: "ranked ns (closed_part stack v1)"
        unfolding ins by (rule ranked_insert) (use v1 Some in \<open>auto simp: closed_part_def\<close>)
      have "set stack \<subseteq> set v1" using 2(7) grow by auto
      with 2(5) [OF i nv Some] inner c1(2) rank v1
      have out: "ranked ns (closed_part stack (fst (visit_ids ns stack is (v1, c1))))
        \<and> distinct (fst (visit_ids ns stack is (v1, c1))) \<and> set (fst (visit_ids ns stack is (v1, c1))) \<subseteq> dom (node_map ns)
        \<and> (\<forall>t \<in> set is. node_map ns t \<noteq> None \<longrightarrow> t \<in> closed_part stack (fst (visit_ids ns stack is (v1, c1))))"
        by simp
      have "i \<in> closed_part stack (fst (visit_ids ns stack is (v1, c1)))"
        using visit_grows [of v1 ns stack "is" c1] grow i by (auto simp: closed_part_def)
      with out show ?thesis unfolding eq by simp
    qed
  qed
qed simp

section \<open>What a definition without issues satisfies\<close>

lemma map_of_find:
  "distinct (map k xs) \<Longrightarrow> map_of (rev (map (\<lambda>x. (k x, x)) xs)) i = find (\<lambda>x. k x = i) xs"
proof (induction xs)
  case (Cons x xs)
  show ?case
  proof (cases "k x = i")
    case True
    then have "find (\<lambda>x. k x = i) xs = None" using Cons.prems by (force simp: find_None_iff image_iff)
    then show ?thesis using Cons True by (simp add: map_add_def)
  next
    case False
    then show ?thesis using Cons by (simp add: map_add_def split: option.split)
  qed
qed simp

lemma issue_if_Nil [simp]: "issue_if b p m = [] \<longleftrightarrow> \<not> b"
  by (simp add: issue_if_def)

lemma fields_ids: "fields_issues before i fs = [] \<Longrightarrow> distinct (map f_id fs) \<and> set (map f_id fs) \<inter> set before = {}"
proof (induction fs arbitrary: before i)
  case (Cons f fs)
  then have f: "f_id f \<notin> set before" "fields_issues (f_id f # before) (i + 1) fs = []" by (simp_all add: field_issues_def Let_def)
  from Cons.IH [OF f(2)] f(1) show ?case by auto
qed simp

definition node_fine :: "(string \<rightharpoonup> review_field) \<Rightarrow> node \<Rightarrow> bool" where
  "node_fine fm n \<longleftrightarrow> nd_id n \<noteq> [] \<and> nd_type n \<in> set NODE_TYPES
    \<and> (nd_type n = ''condition'' \<longrightarrow> (\<exists>c. nd_condition n = Some c \<and> condition_ok fm c))"

lemma node_issues_fine:
  assumes "node_issues subject fm before i n = []"
  shows "node_fine fm n \<and> nd_id n \<notin> set before"
proof -
  have "idPattern (nd_id n)" "nd_type n \<in> set NODE_TYPES" "nd_id n \<notin> set before"
    using assms by (simp_all add: node_issues_def Let_def)
  moreover have "nd_id n \<noteq> []" using calculation(1) by (auto simp: idPattern_def)
  moreover have "\<exists>c. nd_condition n = Some c \<and> condition_ok fm c" if "nd_type n = ''condition''"
  proof -
    have "validateCondition (case nd_condition n of None \<Rightarrow> CNonObject | Some c \<Rightarrow> c) fm
        (''nodes.'' @ show_nat i @ ''.condition'') = []"
      using assms that by (simp add: node_issues_def Let_def)
    then have "condition_ok fm (case nd_condition n of None \<Rightarrow> CNonObject | Some c \<Rightarrow> c)"
      by (simp add: validateCondition_def visit_ok)
    then show ?thesis by (cases "nd_condition n") simp_all
  qed
  ultimately show ?thesis by (simp add: node_fine_def)
qed

lemma nodes_fine:
  "nodes_issues subject fm before i ns = [] \<Longrightarrow>
    distinct (map nd_id ns) \<and> set (map nd_id ns) \<inter> set before = {} \<and> (\<forall>n \<in> set ns. node_fine fm n)"
proof (induction ns arbitrary: before i)
  case (Cons n ns)
  then have n: "node_fine fm n" "nd_id n \<notin> set before" using node_issues_fine [of subject fm before i n] by simp_all
  with Cons.IH [of "nd_id n # before" "i + 1"] Cons.prems show ?case by auto
qed simp

definition graph_fine :: "definition_doc \<Rightarrow> bool" where
  \<comment> \<open>what the engine relies on\<close>
  "graph_fine d \<longleftrightarrow>
     distinct (map nd_id (rd_nodes d))
     \<and> (\<forall>n \<in> set (rd_nodes d). node_fine (\<lambda>i. find (\<lambda>f. f_id f = i) (rd_fields d)) n)
     \<and> (\<forall>n \<in> set (rd_nodes d). \<forall>v \<in> set (edges n). \<exists>t m. v = Some t \<and> node_map (rd_nodes d) t = Some m \<and> nd_type m \<noteq> ''start'')
     \<and> (\<exists>s. starts (rd_nodes d) = [s] \<and> \<not> noReview (rd_nodes d) [] (nd_id s))
     \<and> (\<exists>r :: string \<Rightarrow> nat. \<forall>n \<in> set (rd_nodes d). \<forall>t \<in> set (targets n). r t < r (nd_id n))"

lemma node_map_find:
  "distinct (map nd_id ns) \<Longrightarrow> node_map ns i = find (\<lambda>n. nd_id n = i) ns"
  unfolding node_map_def by (rule map_of_find)

lemma node_map_in: "distinct (map nd_id ns) \<Longrightarrow> n \<in> set ns \<Longrightarrow> node_map ns (nd_id n) = Some n"
  by (simp add: node_map_find find_Some_iff2) (induction ns, auto simp: image_iff)

lemma edges_fine:
  assumes "all_edge_issues ns = []" and "distinct (map nd_id ns)" and "n \<in> set ns" and "v \<in> set (edges n)"
  shows "\<exists>t m. v = Some t \<and> t \<noteq> [] \<and> node_map ns t = Some m \<and> nd_type m \<noteq> ''start''"
proof -
  have "nd_id n \<in> set (node_ids ns)" using assms(3) by (simp add: node_ids_def)
  then have "edge_issues ns n = []"
    using assms(1) node_map_in [OF assms(2,3)] by (auto simp: all_edge_issues_def)
  then have "truthy v" "(case v of None \<Rightarrow> True | Some t \<Rightarrow> (case node_map ns t of None \<Rightarrow> True | Some m \<Rightarrow> nd_type m = ''start'')) = False"
    using assms(4) by (auto simp: edge_issues_def Let_def)
  then show ?thesis by (auto simp: truthy_def split: option.splits)
qed

lemma targets_edges: "t \<in> set (targets n) \<longleftrightarrow> t \<noteq> [] \<and> Some t \<in> set (edges n)"
  by (auto simp: targets_def split: option.splits if_splits)

lemma node_ids_distinct: "distinct (map nd_id ns) \<Longrightarrow> length (node_ids ns) = card (set (map nd_id ns))"
  unfolding node_ids_def by (metis distinct_card distinct_js_uniq set_js_uniq)

lemma ranked_graph:
  assumes "distinct (map nd_id ns)" and "all_edge_issues ns = []"
    and "visited_from_start ns = (visited, [])" and "length visited = length (node_ids ns)" and "starts ns = [s]"
  shows "\<exists>r :: string \<Rightarrow> nat. \<forall>n \<in> set ns. \<forall>t \<in> set (targets n). r t < r (nd_id n)"
proof -
  have v: "visit_ids ns [] [nd_id s] ([], []) = (visited, [])" using assms(3,5) by (simp add: visited_from_start_def)
  have "ranked ns (closed_part [] visited) \<and> distinct visited \<and> set visited \<subseteq> dom (node_map ns)"
    using visit_correct [of ns "[]" "[nd_id s]" "[]" "[]"] v by (simp add: ranked_def closed_part_def)
  then have r: "ranked ns (set visited)" "distinct visited" "set visited \<subseteq> set (map nd_id ns)"
    by (auto simp: closed_part_def dest: node_map_mem)
  have "card (set visited) = card (set (map nd_id ns))"
    using r(2) assms(4) node_ids_distinct [OF assms(1)] by (simp add: distinct_card)
  then have all: "set visited = set (map nd_id ns)" using r(3) by (intro card_subset_eq) simp_all
  obtain rk :: "string \<Rightarrow> nat" where rk: "\<And>b n t. b \<in> set visited \<Longrightarrow> node_map ns b = Some n \<Longrightarrow> t \<in> set (targets n)
      \<Longrightarrow> node_map ns t \<noteq> None \<Longrightarrow> rk t < rk b"
    using r(1) unfolding ranked_def by blast
  have "rk t < rk (nd_id n)" if n: "n \<in> set ns" and t: "t \<in> set (targets n)" for n t
  proof (rule rk [OF _ node_map_in [OF assms(1) n] t])
    show "nd_id n \<in> set visited" using n by (simp add: all)
    show "node_map ns t \<noteq> None" using edges_fine [OF assms(2,1) n] t by (auto simp: targets_edges)
  qed
  then show ?thesis by blast
qed

lemma valid_graph:
  assumes "validateDefinition d = []"
  shows "graph_fine d"
proof -
  let ?ns = "rd_nodes d"
  have parts: "fields_issues [] 0 (rd_fields d) = []" "nodes_issues (rd_subjectType d) (field_map (rd_fields d)) [] 0 ?ns = []"
    "graph_issues ?ns = []"
    using assms by (simp_all add: validateDefinition_def)
  note nodes = nodes_fine [OF parts(2)]
  have fm: "field_map (rd_fields d) = (\<lambda>i. find (\<lambda>f. f_id f = i) (rd_fields d))"
    using fields_ids [OF parts(1)] unfolding field_map_def by (intro ext map_of_find) simp
  obtain visited cycles where vis: "visited_from_start ?ns = (visited, cycles)" by (cases "visited_from_start ?ns")
  have g: "length (starts ?ns) = 1" "all_edge_issues ?ns = []" "cycles = []" "length visited = length (node_ids ?ns)"
    "(case starts ?ns of [s] \<Rightarrow> issue_if (noReview ?ns [] (nd_id s)) ''nodes'' ReviewBypassed | _ \<Rightarrow> []) = []"
    using parts(3) by (simp_all add: graph_issues_def vis)
  obtain s where s: "starts ?ns = [s]" using g(1) by (cases "starts ?ns") auto
  have "\<not> noReview ?ns [] (nd_id s)" using g(5) by (simp add: s)
  moreover have "\<exists>r :: string \<Rightarrow> nat. \<forall>n \<in> set ?ns. \<forall>t \<in> set (targets n). r t < r (nd_id n)"
    by (rule ranked_graph [OF _ g(2) _ g(4) s]) (use nodes vis g(3) in simp_all)
  moreover have "\<forall>n \<in> set ?ns. \<forall>v \<in> set (edges n). \<exists>t m. v = Some t \<and> node_map ?ns t = Some m \<and> nd_type m \<noteq> ''start''"
    using edges_fine [OF g(2)] nodes by blast
  ultimately show ?thesis using nodes s by (simp add: graph_fine_def fm)
qed

section \<open>Ways without a decision\<close>

definition free_edge :: "node list \<Rightarrow> string \<Rightarrow> string \<Rightarrow> bool" where
  "free_edge ns i t \<longleftrightarrow> (\<exists>n. node_map ns i = Some n \<and> nd_type n \<noteq> ''review'' \<and> t \<in> set (targets n))"

text \<open>The validator's search finds every way to an end that meets no review node.\<close>

lemma noReview_finds:
  assumes "(free_edge ns)\<^sup>*\<^sup>* i e" and "node_map ns e = Some m" and "nd_type m = ''end''"
    and "\<And>n t. n \<in> set ns \<Longrightarrow> t \<in> set (targets n) \<Longrightarrow> (r t :: nat) < r (nd_id n)" and "\<forall>x \<in> set seen. r i < r x"
  shows "noReview ns seen i"
  using assms(1,5)
proof (induction arbitrary: seen rule: converse_rtranclp_induct)
  case base
  then have "e \<notin> set seen" by auto
  then show ?case using assms(2,3) by (subst noReview.simps) simp
next
  case (step i t)
  then obtain n where n: "node_map ns i = Some n" "nd_type n \<noteq> ''review''" "t \<in> set (targets n)"
    by (auto simp: free_edge_def)
  have "r t < r i" using assms(4) n(1,3) node_map_mem [OF n(1)] by auto
  then have "noReview ns (i # seen) t" using step.prems by (intro step.IH) auto
  moreover have "i \<notin> set seen" using step.prems by auto
  ultimately show ?case using n by (subst noReview.simps) (auto simp: list_ex_iff)
qed

lemma no_free_end:
  assumes "graph_fine d" and "starts (rd_nodes d) = [s]" and "(free_edge (rd_nodes d))\<^sup>*\<^sup>* (nd_id s) e"
    and "node_map (rd_nodes d) e = Some m"
  shows "nd_type m \<noteq> ''end''"
proof
  assume e: "nd_type m = ''end''"
  obtain r :: "string \<Rightarrow> nat" where "\<forall>n \<in> set (rd_nodes d). \<forall>t \<in> set (targets n). r t < r (nd_id n)"
    using assms(1) by (auto simp: graph_fine_def)
  then have "noReview (rd_nodes d) [] (nd_id s)" by (intro noReview_finds [OF assms(3,4) e]) auto
  then show False using assms(1,2) by (simp add: graph_fine_def)
qed

end
