(* ===== verification/Review_Advance.thy ===== *)
theory Review_Advance
  imports Review_Graph
begin

text \<open>
  Advancing a review whose definition passed validation: the loop of \<open>advanceReview\<close> always ends,
  within its bound, at a node that fits the status it leaves, and meets no review node on its way.
\<close>

definition settled_at :: "review_instance \<Rightarrow> bool" where
  \<comment> \<open>the status fits the current node\<close>
  "settled_at i \<longleftrightarrow> (\<exists>n. current_node i = Some n \<and>
     (ri_status i = IApproved \<and> nd_type n = ''end''
      \<or> ri_status i = Reviewing \<and> nd_type n \<in> {''review'', ''consult'', ''handler''}
      \<or> ri_status i = Blocked \<and> nd_type n \<in> insert ''condition'' (set work_types)))"

definition same_matter :: "review_instance \<Rightarrow> review_instance \<Rightarrow> bool" where
  \<comment> \<open>what advancing does not touch\<close>
  "same_matter i i' \<longleftrightarrow> ri_definition i' = ri_definition i \<and> ri_round i' = ri_round i \<and> ri_requester i' = ri_requester i
     \<and> ri_values i' = ri_values i \<and> ri_version i' = ri_version i \<and> ri_id i' = ri_id i
     \<and> (\<exists>new. ri_tasks i' = ri_tasks i @ new \<and> (\<forall>t \<in> set new. tk_status t \<in> {TPending, TWaiting, TCompleted}))"

lemma same_matter_refl [simp]: "same_matter i i"
  by (simp add: same_matter_def)

lemma same_matter_trans: "same_matter i j \<Longrightarrow> same_matter j k \<Longrightarrow> same_matter i k"
  unfolding same_matter_def by (elim conjE exE) (simp, blast)

lemma node_at_map:
  assumes "distinct (map nd_id (rd_nodes (ri_definition i)))"
  shows "node_at i (Some t) = node_map (rd_nodes (ri_definition i)) t"
  unfolding node_at_def node_map_find [OF assms] by simp

lemma new_tasks_status: "t \<in> set (new_tasks uuid now i n users) \<Longrightarrow> tk_status t \<in> {TPending, TWaiting, TCompleted}"
  by (auto simp: new_tasks_def Let_def split: if_splits)

lemma enter_condition_total:
  assumes "node_fine (\<lambda>k. find (\<lambda>f. f_id f = k) (rd_fields (ri_definition i))) n" and "nd_type n = ''condition''"
  obtains i1 mv e where "enter_condition i n = Inr (i1, mv, e)"
    and "mv = Stop \<and> (\<exists>fs. i1 = block_with (ConditionFields fs) i) \<or> (\<exists>t \<in> set (edges n). mv = Go t) \<and> i1 = i"
proof -
  obtain c where c: "nd_condition n = Some c" "condition_ok (\<lambda>k. find (\<lambda>f. f_id f = k) (rd_fields (ri_definition i))) c"
    using assms by (auto simp: node_fine_def)
  obtain b m where ev: "evaluateCondition c (ri_values i) (rd_fields (ri_definition i)) = Some (b, m)"
    using evaluate_correct(1) [OF c(2), of "ri_values i"] by blast
  show ?thesis
    by (cases "m = []"; cases b; rule that)
      (use c(1) ev assms(2) in \<open>auto simp: enter_condition_def Let_def edges_def\<close>)
qed

lemma enter_node_total:
  assumes "node_fine (\<lambda>k. find (\<lambda>f. f_id f = k) (rd_fields (ri_definition i))) n"
  obtains i1 mv e where "enter_node resolve uuid now i n = Inr (i1, mv, e)" and "same_matter i i1" and "ri_currentNode i1 = nd_id n"
    and "mv = Stop \<Longrightarrow>
      ri_status i1 = IApproved \<and> nd_type n = ''end''
      \<or> ri_status i1 = Reviewing \<and> nd_type n \<in> {''review'', ''consult'', ''handler''}
      \<or> ri_status i1 = Blocked \<and> nd_type n \<in> insert ''condition'' (set work_types)"
    and "mv = Stop \<or> (\<exists>t \<in> set (edges n). mv = Go t) \<and> nd_type n \<noteq> ''review''"
proof -
  let ?i = "i\<lparr>ri_currentNode := nd_id n\<rparr>"
  consider (fin) "nd_type n = ''end''" | (work) "nd_type n \<in> set work_types" | (cond) "nd_type n = ''condition''" | (start) "nd_type n = ''start''"
    using assms by (auto simp: node_fine_def NODE_TYPES_def work_types_def)
  then show ?thesis
  proof cases
    case fin
    show ?thesis by (rule that) (use fin in \<open>auto simp: enter_node_def same_matter_def\<close>)
  next
    case start
    show ?thesis by (rule that) (use start in \<open>auto simp: enter_node_def same_matter_def work_types_def edges_def\<close>)
  next
    case cond
    obtain i1 mv e where c: "enter_condition ?i n = Inr (i1, mv, e)"
      "mv = Stop \<and> (\<exists>fs. i1 = block_with (ConditionFields fs) ?i) \<or> (\<exists>t \<in> set (edges n). mv = Go t) \<and> i1 = ?i"
      by (rule enter_condition_total [of ?i n]) (use assms cond in simp_all)
    show ?thesis
      by (rule that) (use c cond in \<open>auto simp: enter_node_def same_matter_def work_types_def block_with_def\<close>)
  next
    case work
    then have ty: "nd_type n \<noteq> ''end''" "nd_type n \<noteq> ''condition''" by (auto simp: work_types_def)
    let ?users = "js_uniq (resolve n (ri_requester i) None)"
    show ?thesis
    proof (cases "unqualified ?i n ?users")
      case True
      then show ?thesis
        by (intro that) (use work ty in \<open>auto simp: enter_node_def enter_work_def same_matter_def block_with_def Let_def\<close>)
    next
      case False
      show ?thesis
        by (rule that) (use False work ty in
          \<open>auto simp: enter_node_def enter_work_def same_matter_def Let_def work_types_def edges_def dest: new_tasks_status\<close>)
    qed
  qed
qed

lemma advance_loop_total:
  assumes "graph_fine (ri_definition i)" and "node_at i (Some t) = Some n"
    and rk: "\<And>n t. n \<in> set (rd_nodes (ri_definition i)) \<Longrightarrow> t \<in> set (targets n) \<Longrightarrow> (r t :: nat) < r (nd_id n)"
    and "card {b \<in> set (map nd_id (rd_nodes (ri_definition i))). r b \<le> r t} \<le> fuel"
  shows "\<exists>i' trace. advance_loop resolve uuid now fuel i (Some t) = Inr (i', trace) \<and> same_matter i i' \<and> settled_at i'
    \<and> (free_edge (rd_nodes (ri_definition i)))\<^sup>*\<^sup>* t (ri_currentNode i')"
  using assms(1,2,4) rk
proof (induction fuel arbitrary: i t n)
  case 0
  let ?ns = "rd_nodes (ri_definition i)"
  have "n \<in> set ?ns" "nd_id n = t" using 0(2) by (auto simp: node_at_def dest: find_SomeD)
  then have "t \<in> {b \<in> set (map nd_id ?ns). r b \<le> r t}" by auto
  then have "0 < card {b \<in> set (map nd_id ?ns). r b \<le> r t}" by (subst card_gt_0_iff) auto
  then show ?case using 0(3) by linarith
next
  case (Suc fuel)
  let ?ns = "rd_nodes (ri_definition i)"
  have n: "n \<in> set ?ns" "nd_id n = t" using Suc.prems(2) by (auto simp: node_at_def dest: find_SomeD)
  have dist: "distinct (map nd_id ?ns)" using Suc.prems(1) by (simp add: graph_fine_def)
  have fine: "node_fine (\<lambda>k. find (\<lambda>f. f_id f = k) (rd_fields (ri_definition i))) n" using Suc.prems(1) n by (simp add: graph_fine_def)
  obtain i1 mv e where e: "enter_node resolve uuid now i n = Inr (i1, mv, e)" "same_matter i i1" "ri_currentNode i1 = nd_id n"
    "mv = Stop \<Longrightarrow>
      ri_status i1 = IApproved \<and> nd_type n = ''end''
      \<or> ri_status i1 = Reviewing \<and> nd_type n \<in> {''review'', ''consult'', ''handler''}
      \<or> ri_status i1 = Blocked \<and> nd_type n \<in> insert ''condition'' (set work_types)"
    "mv = Stop \<or> (\<exists>t \<in> set (edges n). mv = Go t) \<and> nd_type n \<noteq> ''review''"
    by (rule enter_node_total [OF fine]) blast
  have def: "ri_definition i1 = ri_definition i" using e(2) by (simp add: same_matter_def)
  show ?case
  proof (cases "mv = Stop")
    case True
    have "current_node i1 = Some n" using Suc.prems(2) n(2) e(3) def by (simp add: current_node_def node_at_def)
    then have "settled_at i1" using e(4) [OF True] by (simp add: settled_at_def)
    then show ?thesis using Suc.prems(2) e(1-3) True n(2) by simp
  next
    case False
    then obtain v where v: "v \<in> set (edges n)" "mv = Go v" "nd_type n \<noteq> ''review''" using e(5) by blast
    have "\<exists>t m. v = Some t \<and> node_map ?ns t = Some m \<and> nd_type m \<noteq> ''start''"
      using Suc.prems(1) n(1) v(1) unfolding graph_fine_def by blast
    then obtain u m where u: "v = Some u" "node_map ?ns u = Some m" by blast
    then have m: "node_at i1 (Some u) = Some m" using node_at_map [of i1 u] dist def by simp
    have fine_u: "node_fine (\<lambda>k. find (\<lambda>f. f_id f = k) (rd_fields (ri_definition i))) m"
      using Suc.prems(1) node_map_mem [OF u(2)] by (simp add: graph_fine_def)
    then have "u \<noteq> []" using node_map_mem [OF u(2)] by (auto simp: node_fine_def)
    then have tu: "u \<in> set (targets n)" using v u by (simp add: targets_edges)
    then have less: "r u < r t" using Suc.prems(4) n by blast
    have "{b \<in> set (map nd_id ?ns). r b \<le> r u} \<subset> {b \<in> set (map nd_id ?ns). r b \<le> r t}"
      using less n by force
    then have "card {b \<in> set (map nd_id ?ns). r b \<le> r u} < card {b \<in> set (map nd_id ?ns). r b \<le> r t}"
      by (intro psubset_card_mono) simp_all
    then have "card {b \<in> set (map nd_id ?ns). r b \<le> r u} \<le> fuel" using Suc.prems(3) by simp
    then obtain i2 tr where i2: "advance_loop resolve uuid now fuel i1 (Some u) = Inr (i2, tr)" "same_matter i1 i2"
      "settled_at i2" "(free_edge ?ns)\<^sup>*\<^sup>* u (ri_currentNode i2)"
      using Suc.IH [of i1 u m] Suc.prems(1,4) m def by auto
    have "free_edge ?ns t u" using node_map_in [OF dist n(1)] n(2) v(3) tu by (simp add: free_edge_def)
    then have "(free_edge ?ns)\<^sup>*\<^sup>* t (ri_currentNode i2)" using i2(4) by (rule converse_rtranclp_into_rtranclp)
    then show ?thesis using Suc.prems(2) e(1) v(2) u(1) i2 same_matter_trans [OF e(2) i2(2)] by simp
  qed
qed

lemma advance_total:
  assumes "graph_fine (ri_definition i)" and "node_at i (Some t) = Some n"
  obtains i' trace where "advanceReview resolve uuid now i (Some t) = Inr (i', trace)" and "same_matter i i'" and "settled_at i'"
    and "(free_edge (rd_nodes (ri_definition i)))\<^sup>*\<^sup>* t (ri_currentNode i')"
proof -
  let ?ns = "rd_nodes (ri_definition i)"
  obtain r :: "string \<Rightarrow> nat" where r: "\<forall>n \<in> set ?ns. \<forall>t \<in> set (targets n). r t < r (nd_id n)"
    using assms(1) by (auto simp: graph_fine_def)
  have "card {b \<in> set (map nd_id ?ns). r b \<le> r t} \<le> card (set (map nd_id ?ns))" by (intro card_mono) auto
  also have "\<dots> \<le> length ?ns" using card_length [of "map nd_id ?ns"] by simp
  finally have "card {b \<in> set (map nd_id ?ns). r b \<le> r t} \<le> length ?ns + 1" by simp
  from advance_loop_total [OF assms _ this, of resolve uuid now] r
  obtain i' trace where "advance_loop resolve uuid now (length ?ns + 1) i (Some t) = Inr (i', trace)" "same_matter i i'" "settled_at i'"
    "(free_edge ?ns)\<^sup>*\<^sup>* t (ri_currentNode i')" by blast
  then show ?thesis using that unfolding advanceReview_def by blast
qed

end
