(* ===== verification/Review_Service.thy ===== *)
theory Review_Service
  imports Review_Advance "HOL-Library.List_Lexorder" "HOL-Library.Char_ord"
begin

text \<open>
  The commands of \<open>PostgresReviewService\<close> (\<open>backend/src/approval/review-postgres-service.ts\<close>) on one
  review instance: which of them \<open>actions\<close> offers, what \<open>check\<close> refuses and what \<open>execute\<close> does to
  the instance.  The tables around it are in \<open>Review_Store\<close>.

  \<open>ctx\<close> is the actor's context and \<open>choices\<close> the approvers the requester selected when the
  instance was created.  A refusal is a \<open>service_error\<close>, one constructor for each \<open>fail\<close>.
\<close>

section \<open>Commands\<close>

datatype instance_command =
    ApproveCmd string | RejectCmd string | WithdrawCmd string | RetryCmd string | Operate operation

fun operation_action :: "operation \<Rightarrow> string" where
  "operation_action (Complete r) = ''complete''"
| "operation_action (Transfer t r) = ''transfer''"
| "operation_action (Countersign t r) = ''countersign''"
| "operation_action (RequestAmendment r) = ''request_amendment''"
| "operation_action (Resubmit r vs) = ''resubmit''"

fun command_action :: "instance_command \<Rightarrow> string" where
  "command_action (ApproveCmd r) = ''approve''"
| "command_action (RejectCmd r) = ''reject''"
| "command_action (WithdrawCmd r) = ''withdraw''"
| "command_action (RetryCmd r) = ''retry''"
| "command_action (Operate c) = operation_action c"

fun operation_reason :: "operation \<Rightarrow> string" where
  "operation_reason (Complete r) = r"
| "operation_reason (Transfer t r) = r"
| "operation_reason (Countersign t r) = r"
| "operation_reason (RequestAmendment r) = r"
| "operation_reason (Resubmit r vs) = r"

fun command_reason :: "instance_command \<Rightarrow> string" where
  "command_reason (ApproveCmd r) = r"
| "command_reason (RejectCmd r) = r"
| "command_reason (WithdrawCmd r) = r"
| "command_reason (RetryCmd r) = r"
| "command_reason (Operate c) = operation_reason c"

definition REASON_REQUIRED :: "string list" where
  "REASON_REQUIRED = [''reject'', ''withdraw'', ''transfer'', ''countersign'', ''request_amendment'', ''resubmit'', ''complete'']"

datatype service_error =
    NotFound | StaleVersion | ActionNotAllowed | BadReason | TargetNotEligible
  | MaterialInvalid "(string \<times> value_issue) list" | AttachmentMissing | AttachmentDamaged | FieldLocked utext
  | EngineError engine_error

section \<open>What is offered\<close>

definition node_actions :: "node \<Rightarrow> string list" where
  "node_actions n =
     (if nd_type n = ''review'' then [''approve'', ''reject'']
      else if nd_type n \<in> {''consult'', ''handler''} then [''complete''] else [])
     @ (case nd_operations n of None \<Rightarrow> [] | Some ops \<Rightarrow>
          (if op_transfer ops \<noteq> None then [''transfer''] else [])
          @ (if op_countersign ops \<noteq> None \<and> mode_in n [''all'', ''sequential''] then [''countersign''] else [])
          @ (if op_amendment ops \<noteq> None then [''request_amendment''] else []))"

definition may_act :: "resolver \<Rightarrow> string \<Rightarrow> review_instance \<Rightarrow> node \<Rightarrow> task \<Rightarrow> bool" where
  "may_act resolve actor i n t \<longleftrightarrow>
     ri_status i = Reviewing \<and> actor \<in> set (resolve n (ri_requester i) (Some t))
     \<and> (nd_type n \<noteq> ''review'' \<or> ri_requester i \<noteq> actor)
     \<and> list_ex (\<lambda>t. tk_node t = ri_currentNode i \<and> tk_user t = actor \<and> tk_status t = TPending) (ri_tasks i)"

definition review_actions :: "resolver \<Rightarrow> string \<Rightarrow> review_instance \<Rightarrow> string list" where
  "review_actions resolve actor i =
     (if ri_requester i = actor \<and> ri_status i \<in> {Reviewing, Blocked, AwaitingAmendment} then [''withdraw''] else [])
     @ (if ri_status i = Blocked \<and> ri_requester i = actor then [''retry''] else [])
     @ (if ri_status i = AwaitingAmendment \<and> ri_requester i = actor then [''resubmit''] else [])
     @ (case (current_node i, find (\<lambda>t. tk_user t = actor \<and> tk_status t = TPending) (currentTasks i)) of
          (Some n, Some t) \<Rightarrow> if may_act resolve actor i n t then node_actions n else []
        | _ \<Rightarrow> [])"

definition with_assignee :: "node \<Rightarrow> assignee option \<Rightarrow> node" where
  "with_assignee n a = n\<lparr>nd_assignee := a\<rparr>"

definition policy_pool :: "operation \<Rightarrow> node \<Rightarrow> assignee option" where
  \<comment> \<open>\<open>node.operations?.[action]?.candidates\<close>\<close>
  "policy_pool c n =
    (case nd_operations n of None \<Rightarrow> None | Some ops \<Rightarrow>
       (case c of
          Transfer _ _ \<Rightarrow> (case op_transfer ops of None \<Rightarrow> None | Some p \<Rightarrow> tp_candidates p)
        | Countersign _ _ \<Rightarrow> (case op_countersign ops of None \<Rightarrow> None | Some p \<Rightarrow> p)
        | _ \<Rightarrow> None))"

definition review_candidates :: "review_context \<Rightarrow> operation \<Rightarrow> review_instance \<Rightarrow> string list" where
  "review_candidates ctx c i =
    (case current_node i of
       None \<Rightarrow> []
     | Some n \<Rightarrow>
        (case policy_pool c n of
           None \<Rightarrow> []
         | Some pool \<Rightarrow>
             filter (\<lambda>u. u \<noteq> ri_requester i \<and> u \<notin> tk_user ` set (currentTasks i))
               (reviewResolver ctx Map.empty (with_assignee n (Some pool)) (ri_requester i) None)))"

section \<open>What is refused\<close>

text \<open>
  \<open>canonical\<close> prints the keys of an object in order and is otherwise \<open>JSON.stringify\<close>, so two values
  print alike exactly when they agree after sorting the keys.
\<close>

fun canonical :: "js \<Rightarrow> js" where
  "canonical (JArr xs) = JArr (map canonical xs)"
| "canonical (JObj kvs) = JObj (sort_key fst (map (\<lambda>(k, v). (k, canonical v)) kvs))"
| "canonical v = v"

definition locked_change :: "review_instance \<Rightarrow> (string \<times> js) list \<Rightarrow> review_field \<Rightarrow> bool" where
  "locked_change i vs f \<longleftrightarrow>
     (case ri_amendment i of None \<Rightarrow> True | Some a \<Rightarrow> f_id f \<notin> set (ad_fields a))
     \<and> canonical (js_field (f_id f) (ri_values i)) \<noteq> canonical (js_field (f_id f) vs)"

definition attachment_ids :: "definition_doc \<Rightarrow> (string \<times> js) list \<Rightarrow> string list" where
  "attachment_ids d vs =
     js_uniq (concat (map (\<lambda>f. if f_type f = ''attachment'' then
         (case js_field (f_id f) vs of JArr xs \<Rightarrow> (case js_strings xs of None \<Rightarrow> [] | Some ss \<Rightarrow> ss) | _ \<Rightarrow> []) else [])
       (rd_fields d)))"

definition first_error :: "('a \<Rightarrow> service_error option) \<Rightarrow> 'a list \<Rightarrow> service_error + unit" where
  "first_error f xs = (case find (\<lambda>x. f x \<noteq> None) xs of None \<Rightarrow> Inr () | Some x \<Rightarrow> Inl (the (f x)))"

definition check_material ::
  "(string \<Rightarrow> service_error option) \<Rightarrow> review_instance \<Rightarrow> (string \<times> js) list \<Rightarrow> service_error + unit" where
  "check_material attachment i vs =
    (let issues = validateValues (ri_definition i) vs in
     if issues \<noteq> [] then Inl (MaterialInvalid issues)
     else case first_error attachment (attachment_ids (ri_definition i) vs) of
       Inl e \<Rightarrow> Inl e
     | Inr _ \<Rightarrow>
        (case find (locked_change i vs) (rd_fields (ri_definition i)) of
           None \<Rightarrow> Inr ()
         | Some f \<Rightarrow> Inl (FieldLocked (f_label f))))"

definition check_operation ::
  "review_context \<Rightarrow> (string \<Rightarrow> service_error option) \<Rightarrow> operation \<Rightarrow> review_instance \<Rightarrow> service_error + unit" where
  "check_operation ctx attachment c i =
    (case c of
       Transfer target _ \<Rightarrow> if target \<in> set (review_candidates ctx c i) then Inr () else Inl TargetNotEligible
     | Countersign target _ \<Rightarrow> if target \<in> set (review_candidates ctx c i) then Inr () else Inl TargetNotEligible
     | Resubmit _ vs \<Rightarrow> check_material attachment i vs
     | _ \<Rightarrow> Inr ())"

definition bad_reason :: "instance_command \<Rightarrow> bool" where
  "bad_reason c \<longleftrightarrow> 2000 < length (command_reason c)
     \<or> (command_action c \<in> set REASON_REQUIRED \<and> blank (command_reason c))"

definition check_instance ::
  "review_context \<Rightarrow> (string \<rightharpoonup> string list) \<Rightarrow> (string \<Rightarrow> service_error option) \<Rightarrow> int \<Rightarrow> instance_command
     \<Rightarrow> review_instance \<Rightarrow> service_error + unit" where
  "check_instance ctx choices attachment expectedVersion c i =
    (if ri_version i \<noteq> expectedVersion then Inl StaleVersion
     else if command_action c \<notin> set (review_actions (reviewResolver ctx choices) (rc_actor ctx) i) then Inl ActionNotAllowed
     else if bad_reason c then Inl BadReason
     else case c of Operate op1 \<Rightarrow> check_operation ctx attachment op1 i | _ \<Rightarrow> Inr ())"

section \<open>What is done\<close>

definition withdraw :: "review_instance \<Rightarrow> review_instance" where
  "withdraw i =
    i\<lparr>ri_status := Withdrawn,
      ri_tasks := map (\<lambda>t. if tk_status t \<in> {TWaiting, TPending, TSuspended} then t\<lparr>tk_status := TCancelled\<rparr> else t) (ri_tasks i)\<rparr>"

definition apply_command ::
  "resolver \<Rightarrow> (nat \<Rightarrow> string) \<Rightarrow> int \<Rightarrow> string \<Rightarrow> instance_command \<Rightarrow> review_instance \<Rightarrow> engine_error + review_instance" where
  "apply_command resolve uuid now actor c i0 =
    (let i = (if ri_status i0 = Reviewing then i0\<lparr>ri_blocked := None\<rparr> else i0) in
     case c of
       WithdrawCmd _ \<Rightarrow> Inr (withdraw i)
     | RetryCmd _ \<Rightarrow> advance_only resolve uuid now i (Some (ri_currentNode i))
     | Operate op1 \<Rightarrow> applyReviewOperation resolve uuid now actor op1 i
     | ApproveCmd r \<Rightarrow> decideReview resolve uuid now actor Approve r i
     | RejectCmd r \<Rightarrow> decideReview resolve uuid now actor Reject r i)"

definition stamp_version :: "int \<Rightarrow> review_instance \<Rightarrow> review_instance" where
  "stamp_version now i = i\<lparr>ri_version := ri_version i + 1, ri_updatedAt := now\<rparr>"

definition run_command ::
  "review_context \<Rightarrow> (string \<rightharpoonup> string list) \<Rightarrow> (string \<Rightarrow> service_error option) \<Rightarrow> (nat \<Rightarrow> string) \<Rightarrow> int \<Rightarrow> int
     \<Rightarrow> instance_command \<Rightarrow> review_instance \<Rightarrow> service_error + review_instance" where
  \<comment> \<open>the stored instance to the instance \<open>execute\<close> writes\<close>
  "run_command ctx choices attachment uuid now expectedVersion c stored =
    (let i = normalizeTasks stored in
     case check_instance ctx choices attachment expectedVersion c i of
       Inl e \<Rightarrow> Inl e
     | Inr _ \<Rightarrow>
        (case apply_command (reviewResolver ctx choices) uuid now (rc_actor ctx) c i of
           Inl e \<Rightarrow> Inl (EngineError e)
         | Inr i' \<Rightarrow> Inr (stamp_version now i')))"

definition newInstance ::
  "string \<Rightarrow> string \<Rightarrow> int \<Rightarrow> definition_doc \<Rightarrow> (string \<times> js) list \<Rightarrow> string \<Rightarrow> int \<Rightarrow> review_instance" where
  "newInstance new_id templateId templateVersion d vs requester now =
    \<lparr>ri_id = new_id, ri_templateId = templateId, ri_templateVersion = templateVersion, ri_version = 1,
     ri_requester = requester, ri_definition = d, ri_values = vs, ri_currentNode = [], ri_status = Reviewing,
     ri_round = 1, ri_amendment = None, ri_blocked = None, ri_tasks = [], ri_updatedAt = now\<rparr>"

definition submit_instance ::
  "resolver \<Rightarrow> (nat \<Rightarrow> string) \<Rightarrow> string \<Rightarrow> string \<Rightarrow> int \<Rightarrow> definition_doc \<Rightarrow> (string \<times> js) list \<Rightarrow> string \<Rightarrow> int
     \<Rightarrow> engine_error + review_instance" where
  "submit_instance resolve uuid new_id templateId templateVersion d vs requester now =
    (let i = newInstance new_id templateId templateVersion d vs requester now in
     case start_id i of
       None \<Rightarrow> Inl PropertyOfUndefined
     | Some s \<Rightarrow> advance_only resolve uuid now i (Some s))"

end
