(* ===== verification/Review_Store.thy ===== *)
theory Review_Store
  imports Review_Service Jobs
begin

text \<open>
  The tables of the review service for one tenant (\<open>review-schema.ts\<close>) and the reading half of
  \<open>PostgresReviewService\<close> (\<open>backend/src/approval/review-postgres-service.ts\<close>): attachments, drafts,
  templates, configuration issues, the trial run of a path and \<open>check\<close>, which every command passes
  before it is confirmed and again before it is executed.

  A table is a map from its primary key, an insertion that must not conflict fails when the key is
  taken.  The organisation units of the context are the argument \<open>units\<close>; \<open>hs\<close> holds the hashes of
  \<open>node:crypto\<close>, applied to the values the code serialises for them.  The binding of a business
  document (\<open>source\<close>, \<open>review-source.ts\<close>) is left out.
\<close>

section \<open>Tables\<close>

record template_row =
  tr_version :: int
  tr_published :: "int option"
  tr_definition :: definition_doc

record lifecycle_row =
  lc_version :: int
  lc_enabled :: bool

record draft_row =
  dr_actor :: string
  dr_version :: int

record instance_row =
  iw_instance :: review_instance
  iw_choices :: "string \<rightharpoonup> string list"

record attachment_row =
  at_actor :: string
  at_content :: string
  at_sha :: string

record confirmation =
  cf_actor :: string
  cf_hash :: string
  cf_expires :: int
  cf_consumed :: bool

record receipt =
  re_id :: string
  re_resource :: string
  re_version :: int
  re_action :: string
  re_recordedAt :: int

record review_event =
  ev_id :: string
  ev_resource :: string
  ev_actor :: string
  ev_action :: string
  ev_version :: int

datatype timer_receipt = Skipped | Reminded string int | Transferred string int | NeedsTakeover string int

record review_db =
  rv_templates :: "string \<rightharpoonup> template_row"
  rv_lifecycle :: "string \<rightharpoonup> lifecycle_row"
  rv_versions :: "string \<times> int \<rightharpoonup> definition_doc"
  rv_drafts :: "string \<rightharpoonup> draft_row"
  rv_instances :: "string \<rightharpoonup> instance_row"
  rv_participants :: "(string \<times> string) set"
  rv_revisions :: "string \<times> nat \<rightharpoonup> (string \<times> js) list"
  rv_attachments :: "string \<rightharpoonup> attachment_row"
  rv_attachment_refs :: "(string \<times> nat \<times> string) set"
  rv_notifications :: "(string \<times> string \<times> string) list"
  rv_confirmations :: "string \<rightharpoonup> confirmation"
  rv_commands :: "string \<times> string \<rightharpoonup> string \<times> receipt"
  rv_events :: "review_event list"
  rv_timers :: "string \<times> int \<rightharpoonup> timer_receipt"
  rv_jobs :: job_db

section \<open>Commands of the service\<close>

record submission =
  su_template :: string
  su_version :: int
  su_title :: utext
  su_values :: "(string \<times> js) list"
  su_choices :: "(string \<times> string list) list"
  su_draft :: "(string \<times> int) option"

datatype review_command =
    Submit submission | Publish string int | Enable string int int | Disable string int int
  | OnInstance string int instance_command

fun review_action :: "review_command \<Rightarrow> string" where
  "review_action (Submit x) = ''submit''"
| "review_action (Publish t v) = ''publish''"
| "review_action (Enable t v l) = ''enable''"
| "review_action (Disable t v l) = ''disable''"
| "review_action (OnInstance i v c) = command_action c"

datatype setup_issue = Located issue | OrganizationGone | AssigneeUnresolved string | ChoicePoolEmpty string | PolicyUnresolved string

datatype review_error =
    NotAdmin | NoTemplate | NoVersion | NoInstance | TemplateChanged | LifecycleChanged | NotPublished | AlreadyInState
  | AlreadyPublished | BadConfiguration "setup_issue list" | IntakeClosed | DraftChanged | TemplateDisabled | TemplateOutdated
  | ChoicesInvalid | FormInvalid "(string \<times> value_issue) list" bool | SubmitBlocked "blocked_reason option" | ApproverUnselected utext
  | InstanceRefused service_error | EngineThrew engine_error | BadKey | KeyReused | ConfirmationInvalid
  | VersionTaken | InstanceTaken | ConfirmationTaken | JobsFailed job_error | BadContract | TemplateKeyReused

record review_hashes =
  hs_command :: "review_command \<Rightarrow> string"
  hs_evidence :: "review_command \<Rightarrow> (int \<times> int option \<times> int \<times> bool) option \<Rightarrow> (string \<times> string list \<times> string list) list \<Rightarrow> string"
  hs_content :: "string \<Rightarrow> string"

section \<open>Attachments\<close>

definition own_attachment :: "review_hashes \<Rightarrow> review_context \<Rightarrow> review_db \<Rightarrow> string \<Rightarrow> service_error option" where
  \<comment> \<open>\<open>attachment(id)\<close> as \<open>checkAttachments\<close> calls it: what it throws\<close>
  "own_attachment hs ctx s a =
    (case rv_attachments s a of
       None \<Rightarrow> Some AttachmentMissing
     | Some row \<Rightarrow>
         if at_actor row \<noteq> rc_actor ctx then Some AttachmentMissing
         else if hs_content hs (at_content row) \<noteq> at_sha row then Some AttachmentDamaged else None)"

definition uploadAttachment ::
  "review_hashes \<Rightarrow> review_context \<Rightarrow> string \<Rightarrow> string \<Rightarrow> nat \<Rightarrow> review_db \<Rightarrow> nat + review_db" where
  \<comment> \<open>\<open>used\<close> is the sum over the actor's rows the query computes; 413 is the status of both
    refusals, a taken identifier breaks the insertion\<close>
  "uploadAttachment hs ctx new_id content used s =
    (if content = [] \<or> 2 * 1024 * 1024 < length content then Inl 413
     else if 100 * 1024 * 1024 < used + length content then Inl 413
     else if rv_attachments s new_id \<noteq> None then Inl 500
     else Inr (s\<lparr>rv_attachments := (rv_attachments s)(new_id \<mapsto>
                  \<lparr>at_actor = rc_actor ctx, at_content = content, at_sha = hs_content hs content\<rparr>)\<rparr>))"

section \<open>Choices of the requester\<close>

definition choice_nodes :: "definition_doc \<Rightarrow> node list" where
  "choice_nodes d = filter (\<lambda>n. case nd_assignee n of Some (RequesterChoice _) \<Rightarrow> True | _ \<Rightarrow> False) (rd_nodes d)"

definition choice_pool :: "review_context \<Rightarrow> string \<Rightarrow> node \<Rightarrow> string list" where
  "choice_pool ctx requester n =
    (case nd_assignee n of Some (RequesterChoice (Some rule)) \<Rightarrow> reviewChoiceCandidates ctx rule requester | _ \<Rightarrow> [])"

definition choiceCandidates :: "review_context \<Rightarrow> definition_doc \<Rightarrow> string \<Rightarrow> string \<rightharpoonup> string list" where
  \<comment> \<open>\<open>Object.fromEntries\<close>: the last entry of a key counts\<close>
  "choiceCandidates ctx d requester = map_of (rev (map (\<lambda>n. (nd_id n, choice_pool ctx requester n)) (choice_nodes d)))"

definition choice_ok :: "review_context \<Rightarrow> definition_doc \<Rightarrow> string \<Rightarrow> string \<times> string list \<Rightarrow> bool" where
  "choice_ok ctx d requester entry =
    (case entry of (i, users) \<Rightarrow>
       (case choiceCandidates ctx d requester i of
          None \<Rightarrow> False
        | Some pool \<Rightarrow>
            length users \<le> 100 \<and> distinct users \<and> set users \<subseteq> set pool
            \<and> \<not> ((case find (\<lambda>n. nd_id n = i) (rd_nodes d) of None \<Rightarrow> False | Some n \<Rightarrow> nd_mode n = Some ''single'')
                 \<and> 1 < length users)))"

definition checkChoices :: "review_context \<Rightarrow> definition_doc \<Rightarrow> (string \<times> string list) list \<Rightarrow> string \<Rightarrow> bool" where
  "checkChoices ctx d choices requester \<longleftrightarrow> list_all (choice_ok ctx d requester) choices"

section \<open>Configuration\<close>

definition checkOrganization :: "string list \<Rightarrow> definition_doc \<Rightarrow> bool" where
  "checkOrganization units d = (case rd_organizationUnitId d of None \<Rightarrow> True | Some u \<Rightarrow> u \<in> set units)"

definition assignee_resolves :: "review_context \<Rightarrow> node \<Rightarrow> bool" where
  "assignee_resolves ctx n =
    (let ids = reviewResolver ctx Map.empty n (rc_actor ctx) None
     in ids \<noteq> [] \<and> \<not> (nd_mode n = Some ''single'' \<and> length ids \<noteq> 1))"

definition static_assignee :: "node \<Rightarrow> bool" where
  "static_assignee n = (case nd_assignee n of Some (Fixed (Named _)) \<Rightarrow> True | Some (Fixed (RoleRule _)) \<Rightarrow> True | _ \<Rightarrow> False)"

definition empty_choice :: "review_context \<Rightarrow> node \<Rightarrow> bool" where
  "empty_choice ctx n =
    (case nd_assignee n of
       Some (RequesterChoice (Some rule)) \<Rightarrow> rule \<noteq> ManagerRule \<and> reviewCandidates ctx rule (rc_actor ctx) = []
     | _ \<Rightarrow> False)"

definition node_policies :: "node \<Rightarrow> assignee option list" where
  "node_policies n =
    (case nd_operations n of None \<Rightarrow> [] | Some ops \<Rightarrow>
       (case op_transfer ops of None \<Rightarrow> [] | Some p \<Rightarrow> [tp_candidates p])
       @ (case op_countersign ops of None \<Rightarrow> [] | Some c \<Rightarrow> [c])
       @ (case op_timeout ops of None \<Rightarrow> [] | Some p \<Rightarrow> if to_action p = ''transfer'' then [to_candidates p] else []))"

definition policy_unresolved :: "review_context \<Rightarrow> node \<Rightarrow> assignee option \<Rightarrow> bool" where
  "policy_unresolved ctx n a \<longleftrightarrow>
     a \<noteq> Some (Fixed ManagerRule) \<and> reviewResolver ctx Map.empty (with_assignee n a) (rc_actor ctx) None = []"

definition configurationIssues :: "review_context \<Rightarrow> string list \<Rightarrow> definition_doc \<Rightarrow> setup_issue list" where
  \<comment> \<open>the caller has checked that the actor is an administrator\<close>
  "configurationIssues ctx units d =
    (let issues = validateDefinition d @ validatePublicationNames (rd_nodes d) in
     if issues \<noteq> [] then map Located issues
     else (if checkOrganization units d then [] else [OrganizationGone])
       @ map (\<lambda>n. AssigneeUnresolved (nd_id n))
           (filter (\<lambda>n. nd_type n \<in> set work_types \<and> static_assignee n \<and> \<not> assignee_resolves ctx n) (rd_nodes d))
       @ map (\<lambda>n. ChoicePoolEmpty (nd_id n)) (filter (empty_choice ctx) (rd_nodes d))
       @ concat (map (\<lambda>n. if nd_type n = ''review'' then map (\<lambda>a. PolicyUnresolved (nd_id n)) (filter (policy_unresolved ctx n) (node_policies n)) else [])
           (rd_nodes d)))"

section \<open>The trial run of a path\<close>

fun walk_nodes ::
  "resolver \<Rightarrow> (nat \<Rightarrow> string) \<Rightarrow> int \<Rightarrow> nat \<Rightarrow> review_instance \<Rightarrow> engine_error + review_instance \<times> trace_step list" where
  "walk_nodes resolve uuid now 0 i = Inr (i, [])"
| "walk_nodes resolve uuid now (Suc k) i =
    (if ri_status i \<noteq> Reviewing then Inr (i, [])
     else case current_node i of
       None \<Rightarrow> Inl PropertyOfUndefined
     | Some n \<Rightarrow>
        (case advanceReview resolve uuid now i (nd_next n) of
           Inl e \<Rightarrow> Inl e
         | Inr (i1, tr) \<Rightarrow>
            (case walk_nodes resolve uuid now k i1 of
               Inl e \<Rightarrow> Inl e
             | Inr (i2, tr') \<Rightarrow> Inr (i2, tr @ tr'))))"

definition tracePath ::
  "resolver \<Rightarrow> (nat \<Rightarrow> string) \<Rightarrow> int \<Rightarrow> definition_doc \<Rightarrow> (string \<times> js) list \<Rightarrow> string
     \<Rightarrow> engine_error + review_instance \<times> trace_step list" where
  "tracePath resolve uuid now d vs requester =
    (let i = newInstance [] ''preview'' 0 d vs requester now in
     case start_id i of
       None \<Rightarrow> Inl PropertyOfUndefined
     | Some s \<Rightarrow>
        (case advanceReview resolve uuid now i (Some s) of
           Inl e \<Rightarrow> Inl e
         | Inr (i1, tr) \<Rightarrow>
            (case walk_nodes resolve uuid now (length (rd_nodes d)) i1 of
               Inl e \<Rightarrow> Inl e
             | Inr (i2, tr') \<Rightarrow> Inr (i2, tr @ tr'))))"

end
