(* ===== verification/Review_Execute.thy ===== *)
theory Review_Execute
  imports Review_Store
begin

text \<open>
  The writing half of \<open>PostgresReviewService\<close>: \<open>check\<close>, \<open>prepare\<close> and \<open>execute\<close>, with the effects an
  instance has on the participants, the notifications and the execution jobs (\<open>syncEffects\<close>).  One call
  runs in one transaction, so an exception leaves the tables as they were.
\<close>

record review_env =
  en_now :: int
  en_units :: "string list"
  en_intake :: bool
  en_uuid :: "nat \<Rightarrow> string"
  en_instance_id :: string
  en_receipt_id :: string
  en_event_id :: string
  en_job_id :: "string \<Rightarrow> string"
  en_outbox_id :: "string \<Rightarrow> string"
  en_jsonb_eq :: "string \<Rightarrow> string \<Rightarrow> bool"

section \<open>Reading\<close>

definition template_state :: "review_db \<Rightarrow> string \<Rightarrow> (int \<times> int option \<times> int \<times> bool) option" where
  \<comment> \<open>version, published version, lifecycle version (0 without a row), enabled (without a row, yes)\<close>
  "template_state s t =
    (case rv_templates s t of
       None \<Rightarrow> None
     | Some row \<Rightarrow>
        (case rv_lifecycle s t of
           None \<Rightarrow> Some (tr_version row, tr_published row, 0, True)
         | Some l \<Rightarrow> Some (tr_version row, tr_published row, lc_version l, lc_enabled l)))"

definition instance_row :: "review_context \<Rightarrow> review_db \<Rightarrow> string \<Rightarrow> instance_row option" where
  \<comment> \<open>only a participant sees an instance\<close>
  "instance_row ctx s i = (if (i, rc_actor ctx) \<in> rv_participants s then rv_instances s i else None)"

section \<open>Drafts of templates\<close>

definition contract_ok :: "definition_doc \<Rightarrow> nat \<Rightarrow> bool" where
  \<comment> \<open>the number is the length of the definition's JSON\<close>
  "contract_ok d json_length \<longleftrightarrow> rd_schema d = ''review.definition.v1'' \<and> length (rd_fields d) \<le> 100
     \<and> length (rd_nodes d) \<le> 100 \<and> json_length \<le> 200000"

definition saveTemplate ::
  "review_context \<Rightarrow> review_env \<Rightarrow> (string \<times> int) option \<Rightarrow> string \<Rightarrow> definition_doc \<Rightarrow> nat \<Rightarrow> review_db
     \<Rightarrow> review_error + (string \<times> int) \<times> review_db" where
  \<comment> \<open>with a target, its draft is replaced; otherwise \<open>new_id\<close> is the hash of the creation key or random\<close>
  "saveTemplate ctx env target new_id d json_length s =
    (let saved = (\<lambda>t v s. ((t, v), s\<lparr>rv_events := rv_events s @ [\<lparr>ev_id = en_event_id env, ev_resource = t,
           ev_actor = rc_actor ctx, ev_action = ''draft.saved'', ev_version = v\<rparr>]\<rparr>)) in
     if \<not> rc_admin ctx then Inl NotAdmin
     else if \<not> checkOrganization (en_units env) d then Inl (BadConfiguration [OrganizationGone])
     else if \<not> contract_ok d json_length then Inl BadContract
     else case target of
       Some (t, v) \<Rightarrow>
        (case rv_templates s t of
           None \<Rightarrow> Inl TemplateChanged
         | Some row \<Rightarrow>
             if tr_version row \<noteq> v then Inl TemplateChanged
             else Inr (saved t (v + 1) (s\<lparr>rv_templates := (rv_templates s)(t \<mapsto> row\<lparr>tr_version := v + 1, tr_definition := d\<rparr>)\<rparr>)))
     | None \<Rightarrow>
        (case rv_templates s new_id of
           Some row \<Rightarrow> if tr_definition row \<noteq> d then Inl TemplateKeyReused else Inr ((new_id, tr_version row), s)
         | None \<Rightarrow>
             Inr (saved new_id 1 (s\<lparr>rv_templates := (rv_templates s)(new_id \<mapsto>
                    \<lparr>tr_version = 1, tr_published = None, tr_definition = d\<rparr>)\<rparr>))))"

section \<open>Checking a command\<close>

definition check_lifecycle :: "review_context \<Rightarrow> review_db \<Rightarrow> bool \<Rightarrow> string \<Rightarrow> int \<Rightarrow> int \<Rightarrow> review_error + unit" where
  "check_lifecycle ctx s enable t v l =
    (if \<not> rc_admin ctx then Inl NotAdmin
     else case template_state s t of
       None \<Rightarrow> Inl NoTemplate
     | Some (version, published, lifecycle, enabled) \<Rightarrow>
         if version \<noteq> v \<or> lifecycle \<noteq> l then Inl LifecycleChanged
         else if published = None \<or> published = Some 0 then Inl NotPublished
         else if enabled = enable then Inl AlreadyInState else Inr ())"

definition check_publish :: "review_context \<Rightarrow> review_env \<Rightarrow> review_db \<Rightarrow> string \<Rightarrow> int \<Rightarrow> review_error + unit" where
  "check_publish ctx env s t v =
    (if \<not> rc_admin ctx then Inl NotAdmin
     else case rv_templates s t of
       None \<Rightarrow> Inl NoTemplate
     | Some row \<Rightarrow>
         if tr_version row \<noteq> v then Inl TemplateChanged
         else if (case tr_published row of None \<Rightarrow> 0 | Some p \<Rightarrow> p) = tr_version row then Inl AlreadyPublished
         else (let issues = configurationIssues ctx (en_units env) (tr_definition row)
               in if issues \<noteq> [] then Inl (BadConfiguration issues) else Inr ()))"

definition attachments_error :: "review_hashes \<Rightarrow> review_context \<Rightarrow> review_db \<Rightarrow> definition_doc \<Rightarrow> (string \<times> js) list \<Rightarrow> service_error + unit" where
  "attachments_error hs ctx s d vs = first_error (own_attachment hs ctx s) (attachment_ids d vs)"

definition title_bad :: "utext \<Rightarrow> bool" where
  "title_bad t \<longleftrightarrow> text_blank t \<or> 200 < length t"

definition check_form ::
  "review_hashes \<Rightarrow> review_context \<Rightarrow> review_db \<Rightarrow> definition_doc \<Rightarrow> submission \<Rightarrow> review_error + unit" where
  "check_form hs ctx s d sub =
    (let issues = validateValues d (su_values sub) in
     case (if issues = [] then attachments_error hs ctx s d (su_values sub) else Inr ()) of
       Inl e \<Rightarrow> Inl (InstanceRefused e)
     | Inr _ \<Rightarrow> if issues \<noteq> [] \<or> title_bad (su_title sub) then Inl (FormInvalid issues (title_bad (su_title sub))) else Inr ())"

definition unselected_step :: "definition_doc \<Rightarrow> trace_step \<Rightarrow> bool" where
  "unselected_step d step \<longleftrightarrow> ts_blocked step \<noteq> None
     \<and> (case find (\<lambda>n. nd_id n = ts_node step) (rd_nodes d) of
          None \<Rightarrow> False
        | Some n \<Rightarrow> (case nd_assignee n of Some (RequesterChoice _) \<Rightarrow> True | _ \<Rightarrow> False))"

definition check_path ::
  "review_context \<Rightarrow> review_env \<Rightarrow> definition_doc \<Rightarrow> submission \<Rightarrow> review_error + unit" where
  "check_path ctx env d sub =
    (let resolve = reviewResolver ctx (map_of (su_choices sub)) in
     case submit_instance resolve (en_uuid env) (en_instance_id env) (su_template sub) (su_version sub) d (su_values sub) (rc_actor ctx) (en_now env) of
       Inl e \<Rightarrow> Inl (EngineThrew e)
     | Inr preview \<Rightarrow>
         if ri_status preview = Blocked then Inl (SubmitBlocked (ri_blocked preview))
         else case tracePath resolve (en_uuid env) (en_now env) d (su_values sub) (rc_actor ctx) of
           Inl e \<Rightarrow> Inl (EngineThrew e)
         | Inr (_, trace) \<Rightarrow>
            (case find (unselected_step d) trace of
               None \<Rightarrow> Inr ()
             | Some step \<Rightarrow>
                 Inl (ApproverUnselected (case find (\<lambda>n. nd_id n = ts_node step) (rd_nodes d) of None \<Rightarrow> [] | Some n \<Rightarrow> nd_name n))))"

definition draft_stale :: "review_context \<Rightarrow> review_db \<Rightarrow> (string \<times> int) option \<Rightarrow> bool" where
  "draft_stale ctx s draft =
    (case draft of
       None \<Rightarrow> False
     | Some (i, v) \<Rightarrow> (case rv_drafts s i of None \<Rightarrow> True | Some row \<Rightarrow> dr_actor row \<noteq> rc_actor ctx \<or> dr_version row \<noteq> v))"

definition check_submit ::
  "review_hashes \<Rightarrow> review_context \<Rightarrow> review_env \<Rightarrow> review_db \<Rightarrow> submission \<Rightarrow> review_error + unit" where
  "check_submit hs ctx env s sub =
    (if \<not> en_intake env then Inl IntakeClosed
     else if draft_stale ctx s (su_draft sub) then Inl DraftChanged
     else case template_state s (su_template sub) of
       None \<Rightarrow> Inl NoTemplate
     | Some (version, published, lifecycle, enabled) \<Rightarrow>
         if \<not> enabled then Inl TemplateDisabled
         else if su_version sub \<noteq> (case published of None \<Rightarrow> 0 | Some p \<Rightarrow> p) then Inl TemplateOutdated
         else case rv_versions s (su_template sub, su_version sub) of
           None \<Rightarrow> Inl NoVersion
         | Some d \<Rightarrow>
             if \<not> checkChoices ctx d (su_choices sub) (rc_actor ctx) then Inl ChoicesInvalid
             else case check_form hs ctx s d sub of
               Inl e \<Rightarrow> Inl e
             | Inr _ \<Rightarrow> check_path ctx env d sub)"

definition checked_instance ::
  "review_hashes \<Rightarrow> review_context \<Rightarrow> review_db \<Rightarrow> string \<Rightarrow> int \<Rightarrow> instance_command \<Rightarrow> review_error + instance_row" where
  "checked_instance hs ctx s i v c =
    (case instance_row ctx s i of
       None \<Rightarrow> Inl NoInstance
     | Some row \<Rightarrow>
        (case check_instance ctx (iw_choices row) (own_attachment hs ctx s) v c (normalizeTasks (iw_instance row)) of
           Inl e \<Rightarrow> Inl (InstanceRefused e)
         | Inr _ \<Rightarrow> Inr row))"

fun check_command :: "review_hashes \<Rightarrow> review_context \<Rightarrow> review_env \<Rightarrow> review_db \<Rightarrow> review_command \<Rightarrow> review_error + unit" where
  "check_command hs ctx env s (Enable t v l) = check_lifecycle ctx s True t v l"
| "check_command hs ctx env s (Disable t v l) = check_lifecycle ctx s False t v l"
| "check_command hs ctx env s (Publish t v) = check_publish ctx env s t v"
| "check_command hs ctx env s (Submit sub) = check_submit hs ctx env s sub"
| "check_command hs ctx env s (OnInstance i v c) = map_sum id (\<lambda>_. ()) (checked_instance hs ctx s i v c)"

section \<open>Confirmation\<close>

fun command_template :: "review_command \<Rightarrow> string option" where
  "command_template (Submit sub) = Some (su_template sub)"
| "command_template (Publish t v) = Some t"
| "command_template (Enable t v l) = Some t"
| "command_template (Disable t v l) = Some t"
| "command_template (OnInstance i v c) = None"

definition people_evidence :: "review_context \<Rightarrow> (string \<times> string list \<times> string list) list" where
  "people_evidence ctx = map (\<lambda>p. (pe_id p, sort (pe_managers p), sort (pe_roles p))) (sort_key pe_id (rc_people ctx))"

definition evidence :: "review_hashes \<Rightarrow> review_context \<Rightarrow> review_db \<Rightarrow> review_command \<Rightarrow> review_error + string" where
  "evidence hs ctx s c =
    (case command_template c of
       None \<Rightarrow> Inr (hs_evidence hs c None (people_evidence ctx))
     | Some t \<Rightarrow>
        (case template_state s t of
           None \<Rightarrow> Inl NoTemplate
         | Some st \<Rightarrow> Inr (hs_evidence hs c (Some st) (people_evidence ctx))))"

definition prepare ::
  "review_hashes \<Rightarrow> review_context \<Rightarrow> review_env \<Rightarrow> string \<Rightarrow> review_command \<Rightarrow> review_db \<Rightarrow> review_error + review_db" where
  "prepare hs ctx env confirmation_id c s =
    (case check_command hs ctx env s c of
       Inl e \<Rightarrow> Inl e
     | Inr _ \<Rightarrow>
        (case evidence hs ctx s c of
           Inl e \<Rightarrow> Inl e
         | Inr h \<Rightarrow>
             if rv_confirmations s confirmation_id \<noteq> None then Inl ConfirmationTaken
             else Inr (s\<lparr>rv_confirmations := (rv_confirmations s)(confirmation_id \<mapsto>
                   \<lparr>cf_actor = rc_actor ctx, cf_hash = h, cf_expires = en_now env + 5 * 60000, cf_consumed = False\<rparr>)\<rparr>)))"

definition confirmation_valid ::
  "review_context \<Rightarrow> review_env \<Rightarrow> review_db \<Rightarrow> string \<Rightarrow> string \<Rightarrow> bool" where
  "confirmation_valid ctx env s confirmation_id h =
    (case rv_confirmations s confirmation_id of
       None \<Rightarrow> False
     | Some t \<Rightarrow> cf_actor t = rc_actor ctx \<and> \<not> cf_consumed t \<and> en_now env < cf_expires t \<and> cf_hash t = h)"

definition consume :: "string \<Rightarrow> review_db \<Rightarrow> review_db" where
  "consume confirmation_id s =
    s\<lparr>rv_confirmations := (rv_confirmations s)(confirmation_id := map_option (\<lambda>t. t\<lparr>cf_consumed := True\<rparr>) (rv_confirmations s confirmation_id))\<rparr>"

section \<open>Effects of an instance\<close>

definition notify :: "string \<times> string \<times> string \<Rightarrow> review_db \<Rightarrow> review_db" where
  \<comment> \<open>the key of the row is the hash of tenant, instance, user and key; on conflict, nothing\<close>
  "notify n s = (if n \<in> set (rv_notifications s) then s else s\<lparr>rv_notifications := rv_notifications s @ [n]\<rparr>)"

definition pad :: "nat \<Rightarrow> int \<Rightarrow> string" where
  "pad k x = replicate (k - length (show_nat (nat x))) (CHR ''0'') @ show_nat (nat x)"

definition iso_text :: "int \<Rightarrow> string" where
  \<comment> \<open>\<open>toISOString\<close>, for the years 0 to 9999\<close>
  "iso_text ms =
    (case civil_of_days (ms div 86400000) of (y, m, d) \<Rightarrow>
       (let r = ms mod 86400000 in
        pad 4 y @ ''-'' @ pad 2 m @ ''-'' @ pad 2 d @ ''T'' @ pad 2 (r div 3600000) @ '':'' @ pad 2 (r div 60000 mod 60)
        @ '':'' @ pad 2 (r div 1000 mod 60) @ ''.'' @ pad 3 (r mod 1000) @ ''Z''))"

definition timeout_key :: "string \<Rightarrow> string \<Rightarrow> int \<Rightarrow> string" where
  "timeout_key tenant taskId dueAt = ''review-timeout:'' @ tenant @ '':'' @ taskId @ '':'' @ iso_text dueAt"

definition quoted :: "string \<Rightarrow> string" where
  "quoted s = [CHR 0x22] @ s @ [CHR 0x22]"

definition json_pairs :: "(string \<times> string) list \<Rightarrow> string" where
  \<comment> \<open>\<open>JSON.stringify\<close> of an object of texts that need no escapes\<close>
  "json_pairs kvs =
    ''{'' @ concat (map (\<lambda>(k, kv). (if k = 0 then [] else '','') @ quoted (fst kv) @ '':'' @ quoted (snd kv)) (zip [0::nat..<length kvs] kvs)) @ ''}''"

definition timeout_input :: "string \<Rightarrow> review_instance \<Rightarrow> string \<Rightarrow> int \<Rightarrow> job_input" where
  "timeout_input tenant i taskId dueAt =
    \<lparr>ji_type = ''review.timeout'', ji_tenant = tenant, ji_actor = ri_requester i, ji_key = timeout_key tenant taskId dueAt,
     ji_object = Some (json_pairs [(''instanceId'', ri_id i)]), ji_ticket = None, ji_run = None, ji_trigger = None,
     ji_rule = Some (ri_templateId i), ji_rule_version = Some (show_nat (nat (ri_templateVersion i))), ji_risk = Some Low,
     ji_scope = Some (json_pairs [(''tenant'', tenant), (''requester'', ri_requester i)]), ji_priority = None,
     ji_max_attempts = Some 3, ji_next_attempt_at = Some dueAt,
     ji_payload = Some (json_pairs [(''instanceId'', ri_id i), (''taskId'', taskId), (''dueAt'', iso_text dueAt)]), ji_outbox = None\<rparr>"

definition enqueue_timeout :: "review_context \<Rightarrow> review_env \<Rightarrow> review_instance \<Rightarrow> string \<Rightarrow> int \<Rightarrow> review_db \<Rightarrow> review_error + review_db" where
  "enqueue_timeout ctx env i taskId dueAt s =
    (case pgEnqueueExecutionJob (en_jsonb_eq env) (timeout_input (rc_tenant ctx) i taskId dueAt) False
            (en_job_id env taskId) (en_outbox_id env taskId) (en_now env) (rv_jobs s) of
       Inl e \<Rightarrow> Inl (JobsFailed e)
     | Inr (_, jobs) \<Rightarrow> Inr (s\<lparr>rv_jobs := jobs\<rparr>))"

definition task_effect :: "review_context \<Rightarrow> review_env \<Rightarrow> review_instance \<Rightarrow> task \<Rightarrow> review_db \<Rightarrow> review_error + review_db" where
  \<comment> \<open>a pending task of the current node\<close>
  "task_effect ctx env i t s =
    (let s1 = notify (ri_id i, tk_user t, ''task:'' @ tk_id t) s in
     case (tk_dueAt t, node_at i (Some (tk_node t))) of
       (Some dueAt, Some n) \<Rightarrow>
         (case nd_operations n of
            None \<Rightarrow> Inr s1
          | Some ops \<Rightarrow> if op_timeout ops \<noteq> None then enqueue_timeout ctx env i (tk_id t) dueAt s1 else Inr s1)
     | (Some dueAt, None) \<Rightarrow> Inl (EngineThrew PropertyOfUndefined)
     | (None, _) \<Rightarrow> Inr s1)"

fun fold_effects :: "('a \<Rightarrow> review_db \<Rightarrow> review_error + review_db) \<Rightarrow> 'a list \<Rightarrow> review_db \<Rightarrow> review_error + review_db" where
  "fold_effects f [] s = Inr s"
| "fold_effects f (x # xs) s = (case f x s of Inl e \<Rightarrow> Inl e | Inr s' \<Rightarrow> fold_effects f xs s')"

definition syncEffects :: "review_context \<Rightarrow> review_env \<Rightarrow> review_instance \<Rightarrow> review_db \<Rightarrow> review_error + review_db" where
  "syncEffects ctx env i0 s =
    (let i = normalizeTasks i0;
         s1 = fold (\<lambda>t. notify (ri_id i, tk_user t, ''cc:'' @ tk_id t)) (filter (\<lambda>t. tk_duty t = Some ''cc'') (ri_tasks i)) s
     in case (if ri_status i = Reviewing
              then fold_effects (task_effect ctx env i) (filter (\<lambda>t. tk_status t = TPending) (currentTasks i)) s1 else Inr s1) of
       Inl e \<Rightarrow> Inl e
     | Inr s2 \<Rightarrow>
         Inr (if ri_status i \<noteq> Reviewing then notify (ri_id i, ri_requester i, ''state:'' @ show_nat (nat (ri_version i))) s2 else s2))"

section \<open>Executing a command\<close>

definition put_revision :: "review_instance \<Rightarrow> review_db \<Rightarrow> review_db" where
  "put_revision i s =
    (if rv_revisions s (ri_id i, round_of (ri_round i)) = None
     then s\<lparr>rv_revisions := (rv_revisions s)((ri_id i, round_of (ri_round i)) \<mapsto> ri_values i)\<rparr> else s)"

definition record_people :: "review_instance \<Rightarrow> review_db \<Rightarrow> review_db" where
  "record_people i s =
    s\<lparr>rv_participants := rv_participants s \<union> (\<lambda>u. (ri_id i, u)) ` insert (ri_requester i) (tk_user ` set (ri_tasks i)),
      rv_attachment_refs := rv_attachment_refs s \<union> (\<lambda>a. (ri_id i, round_of (ri_round i), a)) ` set (attachment_ids (ri_definition i) (ri_values i))\<rparr>"

definition instance_effects :: "review_context \<Rightarrow> review_env \<Rightarrow> bool \<Rightarrow> review_instance \<Rightarrow> review_db \<Rightarrow> review_error + review_db" where
  \<comment> \<open>what follows the write of an instance; \<open>material\<close>: the command brought new material\<close>
  "instance_effects ctx env material i s =
    (case syncEffects ctx env i (record_people i s) of
       Inl e \<Rightarrow> Inl e
     | Inr s' \<Rightarrow> Inr (if material then put_revision i s' else s'))"

definition execute_lifecycle :: "bool \<Rightarrow> string \<Rightarrow> int \<Rightarrow> review_db \<Rightarrow> review_error + (string \<times> int) \<times> review_db" where
  "execute_lifecycle enable t l s =
    (let written = s\<lparr>rv_lifecycle := (rv_lifecycle s)(t \<mapsto> \<lparr>lc_version = l + 1, lc_enabled = enable\<rparr>)\<rparr> in
     case rv_lifecycle s t of
       None \<Rightarrow> Inr ((t, l + 1), written)
     | Some row \<Rightarrow> if lc_version row = l then Inr ((t, l + 1), written) else Inl LifecycleChanged)"

definition execute_publish :: "string \<Rightarrow> review_db \<Rightarrow> review_error + (string \<times> int) \<times> review_db" where
  "execute_publish t s =
    (case rv_templates s t of
       None \<Rightarrow> Inl NoTemplate
     | Some row \<Rightarrow>
         if rv_versions s (t, tr_version row) \<noteq> None then Inl VersionTaken
         else Inr ((t, tr_version row),
           s\<lparr>rv_versions := (rv_versions s)((t, tr_version row) \<mapsto> tr_definition row),
             rv_templates := (rv_templates s)(t \<mapsto> row\<lparr>tr_published := Some (tr_version row)\<rparr>)\<rparr>))"

definition delete_draft :: "review_context \<Rightarrow> (string \<times> int) option \<Rightarrow> review_db \<Rightarrow> review_error + review_db" where
  "delete_draft ctx draft s =
    (case draft of
       None \<Rightarrow> Inr s
     | Some (i, v) \<Rightarrow>
         if draft_stale ctx s (Some (i, v)) then Inl DraftChanged
         else Inr (s\<lparr>rv_drafts := (rv_drafts s)(i := None)\<rparr>))"

definition execute_submit ::
  "review_context \<Rightarrow> review_env \<Rightarrow> submission \<Rightarrow> review_db \<Rightarrow> review_error + (string \<times> int) \<times> review_db" where
  "execute_submit ctx env sub s =
    (case rv_versions s (su_template sub, su_version sub) of
       None \<Rightarrow> Inl NoVersion
     | Some d \<Rightarrow>
        (case submit_instance (reviewResolver ctx (map_of (su_choices sub))) (en_uuid env) (en_instance_id env)
                (su_template sub) (su_version sub) d (su_values sub) (rc_actor ctx) (en_now env) of
           Inl e \<Rightarrow> Inl (EngineThrew e)
         | Inr i \<Rightarrow>
             if rv_instances s (en_instance_id env) \<noteq> None then Inl InstanceTaken
             else case delete_draft ctx (su_draft sub)
                    (s\<lparr>rv_instances := (rv_instances s)(en_instance_id env \<mapsto> \<lparr>iw_instance = i, iw_choices = map_of (su_choices sub)\<rparr>)\<rparr>) of
               Inl e \<Rightarrow> Inl e
             | Inr s1 \<Rightarrow> map_sum id (Pair (ri_id i, ri_version i)) (instance_effects ctx env True i s1)))"

fun brings_material :: "instance_command \<Rightarrow> bool" where
  "brings_material (Operate (Resubmit r vs)) = True"
| "brings_material c = False"

definition execute_instance ::
  "review_context \<Rightarrow> review_env \<Rightarrow> string \<Rightarrow> int \<Rightarrow> instance_command \<Rightarrow> review_db \<Rightarrow> review_error + (string \<times> int) \<times> review_db" where
  "execute_instance ctx env iid v c s =
    (case instance_row ctx s iid of
       None \<Rightarrow> Inl NoInstance
     | Some row \<Rightarrow>
        (let i = normalizeTasks (iw_instance row) in
         case apply_command (reviewResolver ctx (iw_choices row)) (en_uuid env) (en_now env) (rc_actor ctx) c i of
           Inl e \<Rightarrow> Inl (EngineThrew e)
         | Inr i1 \<Rightarrow>
            (let i2 = stamp_version (en_now env) i1; s1 = put_revision i s in
             if ri_version (iw_instance row) \<noteq> v then Inl (InstanceRefused StaleVersion)
             else map_sum id (Pair (ri_id i2, ri_version i2))
                    (instance_effects ctx env (brings_material c) i2
                      (s1\<lparr>rv_instances := (rv_instances s1)(iid \<mapsto> row\<lparr>iw_instance := i2\<rparr>)\<rparr>)))))"

fun execute_body ::
  "review_context \<Rightarrow> review_env \<Rightarrow> review_command \<Rightarrow> review_db \<Rightarrow> review_error + (string \<times> int) \<times> review_db" where
  "execute_body ctx env (Enable t v l) s = execute_lifecycle True t l s"
| "execute_body ctx env (Disable t v l) s = execute_lifecycle False t l s"
| "execute_body ctx env (Publish t v) s = execute_publish t s"
| "execute_body ctx env (Submit sub) s = execute_submit ctx env sub s"
| "execute_body ctx env (OnInstance i v c) s = execute_instance ctx env i v c s"

definition record_command ::
  "review_hashes \<Rightarrow> review_context \<Rightarrow> review_env \<Rightarrow> review_command \<Rightarrow> string \<Rightarrow> string \<times> int \<Rightarrow> review_db \<Rightarrow> receipt \<times> review_db" where
  "record_command hs ctx env c key res s =
    (let r = \<lparr>re_id = en_receipt_id env, re_resource = fst res, re_version = snd res, re_action = review_action c, re_recordedAt = en_now env\<rparr>
     in (r, s\<lparr>rv_events := rv_events s @ [\<lparr>ev_id = en_event_id env, ev_resource = fst res, ev_actor = rc_actor ctx, ev_action = review_action c, ev_version = snd res\<rparr>],
              rv_commands := (rv_commands s)((rc_actor ctx, key) \<mapsto> (hs_command hs c, r))\<rparr>))"

definition replay_allowed :: "review_context \<Rightarrow> review_db \<Rightarrow> review_command \<Rightarrow> receipt \<Rightarrow> review_error + unit" where
  "replay_allowed ctx s c r =
    (let admin_part = (\<lambda>t. if \<not> rc_admin ctx then Inl NotAdmin else if rv_templates s t = None then Inl NoTemplate else Inr ()) in
     case c of
       Publish t _ \<Rightarrow> admin_part t
     | Enable t _ _ \<Rightarrow> admin_part t
     | Disable t _ _ \<Rightarrow> admin_part t
     | _ \<Rightarrow> if instance_row ctx s (re_resource r) = None then Inl NoInstance else Inr ())"

definition execute ::
  "review_hashes \<Rightarrow> review_context \<Rightarrow> review_env \<Rightarrow> review_command \<Rightarrow> string \<Rightarrow> string \<Rightarrow> review_db
     \<Rightarrow> review_error + receipt \<times> review_db" where
  "execute hs ctx env c confirmation_id key s =
    (if length key < 8 \<or> 128 < length key then Inl BadKey
     else case rv_commands s (rc_actor ctx, key) of
       Some (h, r) \<Rightarrow>
         if h \<noteq> hs_command hs c then Inl KeyReused
         else (case replay_allowed ctx s c r of Inl e \<Rightarrow> Inl e | Inr _ \<Rightarrow> Inr (r, s))
     | None \<Rightarrow>
        (case check_command hs ctx env s c of
           Inl e \<Rightarrow> Inl e
         | Inr _ \<Rightarrow>
            (case evidence hs ctx s c of
               Inl e \<Rightarrow> Inl e
             | Inr h \<Rightarrow>
                 if \<not> confirmation_valid ctx env s confirmation_id h then Inl ConfirmationInvalid
                 else case execute_body ctx env c (consume confirmation_id s) of
                   Inl e \<Rightarrow> Inl e
                 | Inr (res, s') \<Rightarrow> Inr (record_command hs ctx env c key res s'))))"

end
