(* ===== verification/Review_Timeout.thy ===== *)
theory Review_Timeout
  imports Review_Execute
begin

text \<open>
  \<open>executePostgresReviewTimeout\<close> of \<open>backend/src/approval/review-postgres-worker.ts\<close>: the execution job
  a pending review task enqueues for its deadline.  The job's payload is passed parsed; the context is the
  one \<open>postgresReviewContext\<close> builds for the job's actor; one call is one transaction.
\<close>

record timeout_call =
  tc_job :: string
  tc_worker :: string
  tc_tenant :: string
  tc_actor :: string
  tc_instance :: string
  tc_task :: string
  tc_due :: "int option"

datatype timeout_error =
    PayloadIncomplete | LeaseLost | InstanceGone | IdentityMismatch | CompletionLost | TimeoutThrew engine_error
  | TimeoutJobs job_error

definition lease_held :: "timeout_call \<Rightarrow> int \<Rightarrow> review_db \<Rightarrow> bool" where
  "lease_held call now s =
    (case job_at (rv_jobs s) (tc_job call) of
       None \<Rightarrow> False
     | Some j \<Rightarrow> j_status j = Running \<and> j_lease_owner j = Some (tc_worker call)
         \<and> (case j_lease_until j of None \<Rightarrow> False | Some t \<Rightarrow> now < t))"

definition finish_timeout ::
  "(timer_receipt \<Rightarrow> string) \<Rightarrow> timeout_call \<Rightarrow> int \<Rightarrow> timer_receipt \<Rightarrow> review_db \<Rightarrow> timeout_error + timer_receipt \<times> review_db" where
  "finish_timeout receipt_text call now r s =
    (case pgCompleteExecutionJob (tc_job call) (receipt_text r) now (Some (tc_worker call)) (rv_jobs s) of
       (None, _) \<Rightarrow> Inl CompletionLost
     | (Some _, jobs) \<Rightarrow> Inr (r, s\<lparr>rv_jobs := jobs\<rparr>))"

definition task_of :: "review_instance \<Rightarrow> string \<Rightarrow> task option" where
  "task_of i taskId = find (\<lambda>t. tk_id t = taskId) (ri_tasks i)"

definition deadline_stale :: "review_instance \<Rightarrow> task option \<Rightarrow> int \<Rightarrow> int \<Rightarrow> bool" where
  "deadline_stale i t dueAt now \<longleftrightarrow>
     ri_status i \<noteq> Reviewing
     \<or> (case t of
          None \<Rightarrow> True
        | Some t \<Rightarrow> tk_status t \<noteq> TPending \<or> tk_round t \<noteq> ri_round i \<or> tk_dueAt t \<noteq> Some dueAt)
     \<or> now < dueAt"

definition timeout_policy_of :: "review_instance \<Rightarrow> task \<Rightarrow> (node \<times> timeout_policy) option" where
  "timeout_policy_of i t =
    (case node_at i (Some (tk_node t)) of
       None \<Rightarrow> None
     | Some n \<Rightarrow> (case nd_operations n of None \<Rightarrow> None | Some ops \<Rightarrow> map_option (Pair n) (op_timeout ops)))"

definition timeout_targets :: "review_context \<Rightarrow> review_instance \<Rightarrow> node \<Rightarrow> timeout_policy \<Rightarrow> string list" where
  "timeout_targets ctx i n p =
    filter (\<lambda>u. u \<noteq> ri_requester i \<and> u \<notin> tk_user ` set (currentTasks i))
      (reviewResolver ctx Map.empty (with_assignee n (to_candidates p)) (ri_requester i) None)"

datatype timeout_outcome = Remind | HandOver string | AskTakeover

definition timeout_outcome_of :: "review_context \<Rightarrow> review_instance \<Rightarrow> node \<Rightarrow> timeout_policy \<Rightarrow> task \<Rightarrow> timeout_outcome" where
  "timeout_outcome_of ctx i n p t =
    (if to_action p \<noteq> ''transfer'' then Remind
     else case timeout_targets ctx i n p of
       [u] \<Rightarrow> if tk_source t = Some ByTimeout then AskTakeover else HandOver u
     | _ \<Rightarrow> AskTakeover)"

definition timeout_change ::
  "(nat \<Rightarrow> string) \<Rightarrow> int \<Rightarrow> string \<Rightarrow> timeout_outcome \<Rightarrow> review_instance \<Rightarrow> engine_error + review_instance" where
  "timeout_change uuid now taskId out i =
    (case out of
       Remind \<Rightarrow> Inr i
     | AskTakeover \<Rightarrow> Inr (i\<lparr>ri_blocked := Some TimeoutTakeover\<rparr>)
     | HandOver u \<Rightarrow>
        (case current_node i of
           None \<Rightarrow> Inl PropertyOfUndefined
         | Some n \<Rightarrow> Inr (reassignTask i n (\<lambda>t. tk_id t = taskId) u ByTimeout None (uuid (length (ri_tasks i))) now)))"

fun outcome_receipt :: "timeout_outcome \<Rightarrow> string \<Rightarrow> int \<Rightarrow> timer_receipt" where
  "outcome_receipt Remind i v = Reminded i v"
| "outcome_receipt (HandOver u) i v = Transferred i v"
| "outcome_receipt AskTakeover i v = NeedsTakeover i v"

fun outcome_action :: "timeout_outcome \<Rightarrow> string" where
  "outcome_action Remind = ''timeout.reminded''"
| "outcome_action (HandOver u) = ''timeout.transferred''"
| "outcome_action AskTakeover = ''timeout.needs_takeover''"

definition timeout_task_effect :: "review_context \<Rightarrow> review_env \<Rightarrow> review_instance \<Rightarrow> string \<Rightarrow> task \<Rightarrow> review_db \<Rightarrow> review_error + review_db" where
  "timeout_task_effect ctx env i user t s =
    (let s1 = s\<lparr>rv_participants := insert (ri_id i, tk_user t) (rv_participants s)\<rparr> in
     if tk_user t = user then Inr s1
     else (let s2 = notify (ri_id i, tk_user t, ''task:'' @ tk_id t) s1 in
           case tk_dueAt t of None \<Rightarrow> Inr s2 | Some dueAt \<Rightarrow> enqueue_timeout ctx env i (tk_id t) dueAt s2))"

definition timeout_effects ::
  "review_context \<Rightarrow> review_env \<Rightarrow> timeout_outcome \<Rightarrow> int \<Rightarrow> task \<Rightarrow> review_instance \<Rightarrow> review_db \<Rightarrow> review_error + review_db" where
  "timeout_effects ctx env out dueAt t i s =
    (let mark = tk_id t @ '':'' @ iso_text dueAt;
         s1 = notify (ri_id i, tk_user t, ''timeout:'' @ mark) s;
         s2 = (if out = AskTakeover then notify (ri_id i, ri_requester i, ''takeover:'' @ mark) s1 else s1)
     in fold_effects (timeout_task_effect ctx env i (tk_user t)) (filter (\<lambda>t. tk_status t = TPending) (currentTasks i)) s2)"

definition fire_timeout ::
  "(timer_receipt \<Rightarrow> string) \<Rightarrow> review_context \<Rightarrow> review_env \<Rightarrow> timeout_call \<Rightarrow> int \<Rightarrow> instance_row \<Rightarrow> task \<Rightarrow> node \<times> timeout_policy
     \<Rightarrow> review_db \<Rightarrow> timeout_error + timer_receipt \<times> review_db" where
  "fire_timeout receipt_text ctx env call dueAt row t np s =
    (let i = normalizeTasks (iw_instance row); out = timeout_outcome_of ctx i (fst np) (snd np) t in
     case timeout_change (en_uuid env) (en_now env) (tk_id t) out i of
       Inl e \<Rightarrow> Inl (TimeoutThrew e)
     | Inr i1 \<Rightarrow>
        (case timeout_effects ctx env out dueAt t i1 s of
           Inl (JobsFailed e) \<Rightarrow> Inl (TimeoutJobs e)
         | Inl _ \<Rightarrow> Inl (TimeoutThrew PropertyOfUndefined)
         | Inr s1 \<Rightarrow>
            (let i2 = stamp_version (en_now env) i1; r = outcome_receipt out (ri_id i2) (ri_version i2)
             in finish_timeout receipt_text call (en_now env) r
                  (s1\<lparr>rv_instances := (rv_instances s1)(tc_instance call \<mapsto> row\<lparr>iw_instance := i2\<rparr>),
                      rv_events := rv_events s1 @ [\<lparr>ev_id = en_event_id env, ev_resource = ri_id i2, ev_actor = tc_actor call,
                        ev_action = outcome_action out, ev_version = ri_version i2\<rparr>],
                      rv_timers := (rv_timers s1)((tc_task call, dueAt) \<mapsto> r)\<rparr>))))"

definition executeReviewTimeout ::
  "(timer_receipt \<Rightarrow> string) \<Rightarrow> review_context \<Rightarrow> review_env \<Rightarrow> timeout_call \<Rightarrow> review_db \<Rightarrow> timeout_error + timer_receipt \<times> review_db" where
  "executeReviewTimeout receipt_text ctx env call s =
    (case tc_due call of
       None \<Rightarrow> Inl PayloadIncomplete
     | Some dueAt \<Rightarrow>
        if [] \<in> {tc_instance call, tc_task call, tc_tenant call, tc_actor call} then Inl PayloadIncomplete
        else if \<not> lease_held call (en_now env) s then Inl LeaseLost
        else case rv_timers s (tc_task call, dueAt) of
          Some r \<Rightarrow> finish_timeout receipt_text call (en_now env) r s
        | None \<Rightarrow>
           (case rv_instances s (tc_instance call) of
              None \<Rightarrow> Inl InstanceGone
            | Some row \<Rightarrow>
               (let i = normalizeTasks (iw_instance row); t = task_of i (tc_task call) in
                if ri_requester i \<noteq> tc_actor call then Inl IdentityMismatch
                else if deadline_stale i t dueAt (en_now env) then finish_timeout receipt_text call (en_now env) Skipped s
                else case timeout_policy_of i (the t) of
                  None \<Rightarrow> finish_timeout receipt_text call (en_now env) Skipped s
                | Some np \<Rightarrow> fire_timeout receipt_text ctx env call dueAt row (the t) np s)))"

end
