(* ===== verification/Review_Soundness.thy ===== *)
theory Review_Soundness
  imports Review_Service
begin

text \<open>
  What every command of the review service keeps: the status fits the current node, every approval was
  given at a review node by someone other than the requester, and the current node was reached either
  past such an approval or on a way without review nodes.  Under this invariant an offered command
  never ends in an exception of the engine.
\<close>

section \<open>The approvals of a task list\<close>

definition task_key :: "task \<Rightarrow> string \<times> string \<times> nat" where
  "task_key t = (tk_node t, tk_user t, round_of (tk_round t))"

definition approvals :: "task list \<Rightarrow> (string \<times> string \<times> nat) set" where
  "approvals ts = task_key ` {t \<in> set ts. tk_status t = TApproved}"

lemma approvals_Nil [simp]: "approvals [] = {}"
  by (simp add: approvals_def)

lemma approvals_Cons: "approvals (t # ts) = (if tk_status t = TApproved then insert (task_key t) (approvals ts) else approvals ts)"
  by (auto simp: approvals_def)

lemma approvals_append: "approvals (ts @ us) = approvals ts \<union> approvals us"
  by (auto simp: approvals_def)

lemma approvals_none: "\<forall>t \<in> set ts. tk_status t \<noteq> TApproved \<Longrightarrow> approvals ts = {}"
  by (auto simp: approvals_def)

lemma approvals_map:
  assumes "\<And>t. t \<in> set ts \<Longrightarrow> task_key (f t) = task_key t \<and> (tk_status (f t) = TApproved \<longleftrightarrow> tk_status t = TApproved)"
  shows "approvals (map f ts) = approvals ts"
  using assms by (induction ts) (simp_all add: approvals_Cons)

lemma approvals_update:
  assumes "find p ts = Some t" and "tk_status t \<noteq> TApproved" and "task_key (f t) = task_key t"
  shows "approvals (update_first p f ts) = (if tk_status (f t) = TApproved then insert (task_key t) (approvals ts) else approvals ts)"
  using assms by (induction ts) (auto simp: approvals_Cons split: if_splits)

lemma approvals_replace:
  assumes "find p ts = Some t" and "tk_status t \<noteq> TApproved" and "approvals (f t) = {}"
  shows "approvals (replace_first p f ts) = approvals ts"
  using assms by (induction ts) (auto simp: approvals_Cons approvals_append split: if_splits)

lemma approvals_insert: "tk_status y \<noteq> TApproved \<Longrightarrow> approvals (insert_after_first p y ts) = approvals ts"
  by (induction ts) (auto simp: approvals_Cons)

lemma approvals_update_open:
  assumes "\<And>t. p t \<Longrightarrow> tk_status t \<noteq> TApproved" and "\<And>t. p t \<Longrightarrow> tk_status (f t) \<noteq> TApproved"
  shows "approvals (update_first p f ts) = approvals ts"
  using assms by (induction ts) (auto simp: approvals_Cons)

section \<open>The invariant\<close>

definition approved_now :: "review_instance \<Rightarrow> bool" where
  "approved_now i \<longleftrightarrow> (\<exists>k \<in> approvals (ri_tasks i). snd (snd k) = round_of (ri_round i))"

definition reached :: "review_instance \<Rightarrow> string \<Rightarrow> bool" where
  "reached i t \<longleftrightarrow> approved_now i
     \<or> (\<exists>s \<in> set (rd_nodes (ri_definition i)). nd_type s = ''start'' \<and> (free_edge (rd_nodes (ri_definition i)))\<^sup>*\<^sup>* (nd_id s) t)"

definition fair_approval :: "review_instance \<Rightarrow> string \<times> string \<times> nat \<Rightarrow> bool" where
  "fair_approval i k \<longleftrightarrow> fst (snd k) \<noteq> ri_requester i
     \<and> (\<exists>n \<in> set (rd_nodes (ri_definition i)). nd_id n = fst k \<and> nd_type n = ''review'')"

definition matter_ok :: "review_instance \<Rightarrow> bool" where
  "matter_ok i \<longleftrightarrow> graph_fine (ri_definition i) \<and> 1 \<le> ri_round i \<and> (\<forall>k \<in> approvals (ri_tasks i). fair_approval i k)"

definition fits :: "review_instance \<Rightarrow> bool" where
  "fits i \<longleftrightarrow>
     (ri_status i = Reviewing \<longrightarrow> (\<exists>n. current_node i = Some n \<and> nd_type n \<in> {''review'', ''consult'', ''handler''}))
     \<and> (ri_status i = IApproved \<longrightarrow> (\<exists>n. current_node i = Some n \<and> nd_type n = ''end''))
     \<and> (ri_status i = Blocked \<longrightarrow> (\<exists>n. current_node i = Some n))"

definition review_ok :: "review_instance \<Rightarrow> bool" where
  "review_ok i \<longleftrightarrow> matter_ok i \<and> fits i \<and> reached i (ri_currentNode i)"

definition same_frame :: "review_instance \<Rightarrow> review_instance \<Rightarrow> bool" where
  "same_frame i i' \<longleftrightarrow> ri_definition i' = ri_definition i \<and> ri_requester i' = ri_requester i \<and> ri_round i' = ri_round i
     \<and> approvals (ri_tasks i') = approvals (ri_tasks i)"

lemma same_frame_matter: "same_frame i i' \<Longrightarrow> matter_ok i' \<longleftrightarrow> matter_ok i"
  by (simp add: same_frame_def matter_ok_def fair_approval_def)

lemma same_frame_reached: "same_frame i i' \<Longrightarrow> reached i' t \<longleftrightarrow> reached i t"
  by (simp add: same_frame_def reached_def approved_now_def)

lemma same_matter_frame: "same_matter i i' \<Longrightarrow> same_frame i i'"
proof -
  assume m: "same_matter i i'"
  then obtain new where new: "ri_tasks i' = ri_tasks i @ new" "\<forall>t \<in> set new. tk_status t \<in> {TPending, TWaiting, TCompleted}"
    unfolding same_matter_def by blast
  from new(2) have "approvals new = {}" by (intro approvals_none) fastforce
  then show ?thesis using m new(1) by (simp add: same_frame_def same_matter_def approvals_append)
qed

lemma current_node_cong:
  "ri_definition i' = ri_definition i \<Longrightarrow> ri_currentNode i' = ri_currentNode i \<Longrightarrow> current_node i' = current_node i"
  by (simp add: current_node_def node_at_def)

lemma stays_ok:
  assumes "review_ok i" and "same_frame i i'" and "ri_currentNode i' = ri_currentNode i"
    and "ri_status i' = ri_status i \<or> ri_status i' \<in> {IRejected, Withdrawn, AwaitingAmendment}"
  shows "review_ok i'"
proof -
  have "matter_ok i'" "reached i' (ri_currentNode i')"
    using assms(1,3) same_frame_matter [OF assms(2)] same_frame_reached [OF assms(2)] by (simp_all add: review_ok_def)
  moreover have "current_node i' = current_node i"
    by (rule current_node_cong) (use assms(2,3) in \<open>simp_all add: same_frame_def\<close>)
  then have "fits i'" using assms(1,4) by (auto simp: review_ok_def fits_def)
  ultimately show ?thesis by (simp add: review_ok_def)
qed

lemma current_node_mem: "current_node i = Some n \<Longrightarrow> n \<in> set (rd_nodes (ri_definition i)) \<and> nd_id n = ri_currentNode i"
  by (auto simp: current_node_def node_at_def dest: find_SomeD)

section \<open>Moving on\<close>

lemma advance_ok:
  assumes "matter_ok i" and "node_at i (Some t) = Some n" and "reached i t"
  shows "\<exists>i'. advance_only resolve uuid now i (Some t) = Inr i' \<and> review_ok i'
    \<and> ri_definition i' = ri_definition i \<and> ri_requester i' = ri_requester i \<and> ri_round i' = ri_round i"
proof -
  have "graph_fine (ri_definition i)" using assms(1) by (simp add: matter_ok_def)
  then obtain i' tr where a: "advanceReview resolve uuid now i (Some t) = Inr (i', tr)" "same_matter i i'" "settled_at i'"
    "(free_edge (rd_nodes (ri_definition i)))\<^sup>*\<^sup>* t (ri_currentNode i')"
    by (rule advance_total [OF _ assms(2)])
  have f: "same_frame i i'" using a(2) by (rule same_matter_frame)
  have "reached i (ri_currentNode i')" using assms(3) a(4) unfolding reached_def by (blast intro: rtranclp_trans)
  moreover have "fits i'" using a(3) by (auto simp: settled_at_def fits_def)
  ultimately have "review_ok i'" using f assms(1) by (simp add: review_ok_def same_frame_matter same_frame_reached)
  then show ?thesis using a(1) f by (simp add: advance_only_def same_frame_def)
qed

lemma next_node:
  assumes "graph_fine (ri_definition i)" and "current_node i = Some n" and "nd_type n \<in> {''review'', ''consult'', ''handler''}"
  obtains t m where "nd_next n = Some t" and "node_at i (Some t) = Some m" and "t \<in> set (targets n)"
proof -
  have n: "n \<in> set (rd_nodes (ri_definition i))" using current_node_mem [OF assms(2)] by simp
  have e: "edges n = [nd_next n]" using assms(3) by (auto simp: edges_def)
  have dist: "distinct (map nd_id (rd_nodes (ri_definition i)))" using assms(1) by (simp add: graph_fine_def)
  have "\<exists>t m. nd_next n = Some t \<and> node_map (rd_nodes (ri_definition i)) t = Some m \<and> nd_type m \<noteq> ''start''"
    using assms(1) n e unfolding graph_fine_def by (metis list.set_intros(1))
  then obtain t m where t: "nd_next n = Some t" "node_map (rd_nodes (ri_definition i)) t = Some m" by blast
  have "m \<in> set (rd_nodes (ri_definition i))" "nd_id m = t" using node_map_mem [OF t(2)] by simp_all
  then have "t \<noteq> []" using assms(1) by (auto simp: graph_fine_def node_fine_def)
  then have "t \<in> set (targets n)" using t(1) e by (simp add: targets_def)
  then show ?thesis using that [OF t(1)] t(2) node_at_map [OF dist] by simp
qed

lemma cancel_open_frame: "same_frame i (cancel_open i)" "ri_currentNode (cancel_open i) = ri_currentNode i"
  by (simp_all add: cancel_open_def same_frame_def approvals_map open_status_def task_key_def)
    (intro approvals_map, auto simp: task_key_def open_status_def)

lemma wake_next_frame:
  "same_frame i (wake_next n now i)" "ri_currentNode (wake_next n now i) = ri_currentNode i" "ri_status (wake_next n now i) = ri_status i"
  by (simp_all add: wake_next_def same_frame_def) (intro approvals_update_open, auto)

lemma settle_ok:
  assumes m: "matter_ok i" and n: "current_node i = Some n" "nd_type n \<in> {''review'', ''consult'', ''handler''}"
    and st: "ri_status i = Reviewing" and r: "reached i (ri_currentNode i)"
    and fin: "finished \<Longrightarrow> nd_type n = ''review'' \<Longrightarrow> approved_now i"
  shows "\<exists>i'. settle_node resolve uuid now i n finished = Inr i' \<and> review_ok i'
    \<and> ri_definition i' = ri_definition i \<and> ri_requester i' = ri_requester i \<and> ri_round i' = ri_round i"
proof (cases finished)
  case True
  have g: "graph_fine (ri_definition i)" using m by (simp add: matter_ok_def)
  obtain t k where t: "nd_next n = Some t" "node_at i (Some t) = Some k" "t \<in> set (targets n)"
    by (rule next_node [OF g n])
  let ?c = "cancel_open i"
  have mem: "n \<in> set (rd_nodes (ri_definition i))" "nd_id n = ri_currentNode i" using current_node_mem [OF n(1)] by simp_all
  have "reached i t"
  proof (cases "nd_type n = ''review''")
    case True
    then show ?thesis using fin \<open>finished\<close> by (simp add: reached_def)
  next
    case False
    then have "free_edge (rd_nodes (ri_definition i)) (ri_currentNode i) t"
      using g mem t(3) node_map_in [of "rd_nodes (ri_definition i)" n] by (auto simp: free_edge_def graph_fine_def)
    then show ?thesis using r unfolding reached_def by (blast intro: rtranclp.rtrancl_into_rtrancl)
  qed
  then have "reached ?c t" using same_frame_reached [OF cancel_open_frame(1)] by simp
  moreover have "matter_ok ?c" using m same_frame_matter [OF cancel_open_frame(1)] by simp
  moreover have "node_at ?c (Some t) = Some k" using t(2) by (simp add: node_at_def cancel_open_def)
  ultimately obtain i' where "advance_only resolve uuid now ?c (Some t) = Inr i'" "review_ok i'"
    "ri_definition i' = ri_definition ?c \<and> ri_requester i' = ri_requester ?c \<and> ri_round i' = ri_round ?c"
    using advance_ok by blast
  then show ?thesis using True t(1) cancel_open_frame(1) [of i] by (simp add: settle_node_def same_frame_def)
next
  case False
  have ok: "review_ok i" using m n st r by (auto simp: review_ok_def fits_def)
  show ?thesis
  proof (cases "nd_mode n = Some ''sequential''")
    case True
    have "review_ok (wake_next n now i)" by (rule stays_ok [OF ok wake_next_frame(1)]) (simp_all add: wake_next_frame)
    then show ?thesis using True False wake_next_frame(1) [of i n now] by (simp add: settle_node_def same_frame_def)
  next
    case other: False
    then show ?thesis using ok False by (simp add: settle_node_def)
  qed
qed

section \<open>Deciding and completing\<close>

lemma find_update_mem: "find p ts = Some t \<Longrightarrow> f t \<in> set (update_first p f ts)"
  by (induction ts) (auto split: if_splits)

lemma own_pendingD:
  "find (own_pending i user) (ri_tasks i) = Some t \<Longrightarrow>
    t \<in> set (ri_tasks i) \<and> tk_status t = TPending \<and> tk_user t = user \<and> tk_node t = ri_currentNode i \<and> round_of (tk_round t) = round_of (ri_round i)"
  by (auto simp: own_pending_def current_tasks_pred_def dest: find_SomeD)

lemma decide_ok:
  assumes ok: "review_ok i" and st: "ri_status i = Reviewing" and n: "current_node i = Some n" "nd_type n = ''review''"
    and t: "find (own_pending i user) (ri_tasks i) = Some t"
    and who: "user \<in> set (resolve n (ri_requester i) (Some t))" "user \<noteq> ri_requester i"
  shows "\<exists>i'. decideReview resolve uuid now user action reason i = Inr i' \<and> review_ok i'
    \<and> ri_definition i' = ri_definition i \<and> ri_requester i' = ri_requester i \<and> ri_round i' = ri_round i"
proof -
  define f :: "task \<Rightarrow> task" where "f = (\<lambda>t. t\<lparr>tk_status := (if action = Approve then TApproved else TRejected), tk_reason := Some reason, tk_decidedAt := Some now\<rparr>)"
  define i1 where "i1 = i\<lparr>ri_tasks := update_first (own_pending i user) f (ri_tasks i)\<rparr>"
  define tasks where "tasks = filter (active i1) (ri_tasks i1)"
  note tD = own_pendingD [OF t]
  have frame: "ri_definition i1 = ri_definition i" "ri_requester i1 = ri_requester i" "ri_round i1 = ri_round i"
    "ri_currentNode i1 = ri_currentNode i" "ri_status i1 = Reviewing" by (simp_all add: i1_def st)
  have ap: "approvals (ri_tasks i1) = (if action = Approve then insert (ri_currentNode i, user, round_of (ri_round i)) (approvals (ri_tasks i)) else approvals (ri_tasks i))"
    using approvals_update [OF t, of f] tD by (simp add: i1_def f_def task_key_def)
  have n1: "current_node i1 = Some n" using n(1) current_node_cong frame(1,4) by metis
  have ind: "fair_approval i (ri_currentNode i, user, r)" for r
    using current_node_mem [OF n(1)] n(2) who(2) by (auto simp: fair_approval_def)
  have m1: "matter_ok i1"
    using ok ind by (simp add: review_ok_def matter_ok_def frame ap fair_approval_def)
  have r1: "reached i1 (ri_currentNode i1)"
    using ok unfolding review_ok_def reached_def approved_now_def frame ap by auto
  have ok1: "review_ok i1" using m1 r1 n1 n(2) by (simp add: review_ok_def fits_def frame)
  have decided: "f t \<in> set tasks"
    using find_update_mem [OF t, of f] tD by (auto simp: tasks_def i1_def active_def current_tasks_pred_def f_def)
  have now: "approved_now i1" if "x \<in> set tasks" "tk_status x = TApproved" for x
    using that unfolding approved_now_def tasks_def active_def current_tasks_pred_def approvals_def task_key_def by force
  define fin where "fin = (if nd_mode n = Some ''any'' then list_ex (\<lambda>t. tk_status t = TApproved) tasks else list_all (\<lambda>t. tk_status t = TApproved) tasks)"
  have eq: "decideReview resolve uuid now user action reason i =
    (if (if nd_reject n = Some ''all_reject'' then list_all (\<lambda>t. tk_status t = TRejected) tasks else list_ex (\<lambda>t. tk_status t = TRejected) tasks)
     then Inr (cancel_open (i1\<lparr>ri_status := IRejected\<rparr>)) else settle_node resolve uuid now i1 n fin)"
    unfolding f_def i1_def tasks_def fin_def
    by (simp only: decideReview_def st n t who Let_def option.case simp_thms if_True if_False not_False_eq_True)
  show ?thesis
  proof (cases "if nd_reject n = Some ''all_reject'' then list_all (\<lambda>t. tk_status t = TRejected) tasks else list_ex (\<lambda>t. tk_status t = TRejected) tasks")
    case True
    let ?i2 = "i1\<lparr>ri_status := IRejected\<rparr>"
    have "review_ok ?i2" by (rule stays_ok [OF ok1]) (simp_all add: same_frame_def)
    then have "review_ok (cancel_open ?i2)" by (rule stays_ok [OF _ cancel_open_frame]) (simp add: cancel_open_def)
    moreover have "decideReview resolve uuid now user action reason i = Inr (cancel_open ?i2)"
      unfolding eq using True by (rule if_P)
    ultimately show ?thesis using cancel_open_frame(1) [of ?i2] frame by (simp add: same_frame_def)
  next
    case False
    have "approved_now i1" if fin
      using that now decided by (auto simp: fin_def list_ex_iff list_all_iff split: if_splits)
    then obtain i' where i': "settle_node resolve uuid now i1 n fin = Inr i'" "review_ok i'"
      "ri_definition i' = ri_definition i1 \<and> ri_requester i' = ri_requester i1 \<and> ri_round i' = ri_round i1"
      using settle_ok [OF m1 n1 _ frame(5) r1] n(2) by blast
    have "decideReview resolve uuid now user action reason i = settle_node resolve uuid now i1 n fin"
      unfolding eq using False by (rule if_not_P)
    then show ?thesis using i' frame by simp
  qed
qed

lemma complete_ok:
  assumes ok: "review_ok i" and st: "ri_status i = Reviewing" and n: "current_node i = Some n" "nd_type n \<in> {''consult'', ''handler''}"
    and t: "find (own_pending i user) (ri_tasks i) = Some t"
  shows "\<exists>i'. complete_operation resolve uuid now user reason n i = Inr i' \<and> review_ok i'
    \<and> ri_definition i' = ri_definition i \<and> ri_requester i' = ri_requester i \<and> ri_round i' = ri_round i"
proof -
  let ?f = "\<lambda>t. t\<lparr>tk_status := TCompleted, tk_reason := Some reason, tk_decidedAt := Some now\<rparr>"
  define i1 where "i1 = i\<lparr>ri_tasks := update_first (own_pending i user) ?f (ri_tasks i)\<rparr>"
  have frame: "same_frame i i1" "ri_currentNode i1 = ri_currentNode i" "ri_status i1 = Reviewing"
    using approvals_update [OF t, of ?f] own_pendingD [OF t] by (simp_all add: i1_def same_frame_def task_key_def st)
  have ok1: "review_ok i1" by (rule stays_ok [OF ok frame(1,2)]) (simp add: frame st)
  have n1: "current_node i1 = Some n"
    using n(1) current_node_cong [of i1 i] frame(1,2) by (simp add: same_frame_def)
  have "nd_type n \<noteq> ''review''" using n(2) by auto
  then show ?thesis
    using settle_ok [of i1 n "nd_mode n = Some ''any'' \<or> list_all (\<lambda>t. tk_status t = TCompleted) (filter (active i1) (ri_tasks i1))" resolve uuid now]
      ok1 n1 n(2) frame
    by (simp add: complete_operation_def Let_def i1_def review_ok_def same_frame_def)
qed

section \<open>Normal form\<close>

lemma normalize_frame: "1 \<le> ri_round i \<Longrightarrow> same_frame i (normalizeTasks i)"
proof -
  assume r: "1 \<le> ri_round i"
  let ?g = "\<lambda>(k, t). t\<lparr>tk_id := (if tk_id t = [] then ri_id i @ '':task:'' @ show_nat k else tk_id t),
       tk_round := round_of (tk_round t), tk_source := (case tk_source t of None \<Rightarrow> Some ByDefault | Some x \<Rightarrow> Some x)\<rparr>"
  have "approvals (map ?g (zip [m..<m + length ts] ts)) = approvals ts" for m ts
    by (induction ts arbitrary: m) (simp_all add: approvals_Cons upt_conv_Cons task_key_def round_of_def del: upt_Suc, simp_all flip: add_Suc)
  from this [of 0 "ri_tasks i"] show ?thesis using r by (simp add: normalizeTasks_def same_frame_def round_of_def)
qed

lemma normalize_ok: "review_ok i \<Longrightarrow> review_ok (normalizeTasks i)"
  by (rule stays_ok [OF _ normalize_frame]) (auto simp: review_ok_def matter_ok_def normalizeTasks_def)

definition normal :: "review_instance \<Rightarrow> bool" where
  "normal i \<longleftrightarrow> 1 \<le> ri_round i \<and> (\<forall>t \<in> set (ri_tasks i). tk_id t \<noteq> [] \<and> 1 \<le> tk_round t \<and> tk_source t \<noteq> None)"

lemma normal_normalize: "normal (normalizeTasks i)"
  by (auto simp: normal_def normalizeTasks_def round_of_def split: option.splits if_splits)

lemma normalize_normal:
  assumes "normal i"
  shows "normalizeTasks i = i"
proof -
  have "map (\<lambda>(k, t). t\<lparr>tk_id := (if tk_id t = [] then ri_id i @ '':task:'' @ show_nat k else tk_id t),
       tk_round := round_of (tk_round t), tk_source := (case tk_source t of None \<Rightarrow> Some ByDefault | Some x \<Rightarrow> Some x)\<rparr>)
     (zip [0..<length (ri_tasks i)] (ri_tasks i)) = ri_tasks i" (is "map ?g _ = _")
  proof (rule nth_equalityI)
    fix k assume "k < length (map ?g (zip [0..<length (ri_tasks i)] (ri_tasks i)))"
    then have k: "k < length (ri_tasks i)" by simp
    then have "ri_tasks i ! k \<in> set (ri_tasks i)" by simp
    with assms have "tk_id (ri_tasks i ! k) \<noteq> []" "1 \<le> tk_round (ri_tasks i ! k)" "tk_source (ri_tasks i ! k) \<noteq> None"
      unfolding normal_def by blast+
    then show "map ?g (zip [0..<length (ri_tasks i)] (ri_tasks i)) ! k = ri_tasks i ! k"
      using k by (auto simp: round_of_def)
  qed simp
  then show ?thesis using assms by (simp add: normalizeTasks_def normal_def round_of_def)
qed

end
