(* ===== verification/Review_Properties.thy ===== *)
theory Review_Properties
  imports Review_Soundness
begin

text \<open>
  The theorems about the commands of a review: which commands can run, what they keep, and what an
  approved review proves about the people who handled it.
\<close>

section \<open>Offered commands\<close>

lemma find_filter: "find p (filter q xs) = find (\<lambda>x. q x \<and> p x) xs"
  by (induction xs) auto

lemma own_pending_find: "find (\<lambda>t. tk_user t = actor \<and> tk_status t = TPending) (currentTasks i) = find (own_pending i actor) (ri_tasks i)"
  by (simp add: currentTasks_def find_filter own_pending_def [abs_def])

definition own_actions :: "string list" where
  "own_actions = [''withdraw'', ''retry'', ''resubmit'']"

lemma node_actions_own: "a \<in> set (node_actions n) \<Longrightarrow> a \<notin> set own_actions"
  by (auto simp: node_actions_def own_actions_def split: option.splits if_splits)

lemma offered_at_node:
  assumes "a \<in> set (review_actions resolve actor i)" and "a \<notin> set own_actions"
  obtains n t where "current_node i = Some n" and "find (own_pending i actor) (ri_tasks i) = Some t"
    and "may_act resolve actor i n t" and "a \<in> set (node_actions n)"
proof -
  have "a \<in> set (case (current_node i, find (own_pending i actor) (ri_tasks i)) of
      (Some n, Some t) \<Rightarrow> if may_act resolve actor i n t then node_actions n else [] | _ \<Rightarrow> [])"
    using assms by (auto simp: review_actions_def own_pending_find own_actions_def split: if_splits)
  then show ?thesis
    by (cases "current_node i"; cases "find (own_pending i actor) (ri_tasks i)") (auto intro: that split: if_splits)
qed

lemma offered_own:
  assumes "a \<in> set (review_actions resolve actor i)" and "a \<in> set own_actions"
  shows "ri_requester i = actor"
    and "a = ''retry'' \<Longrightarrow> ri_status i = Blocked"
    and "a = ''resubmit'' \<Longrightarrow> ri_status i = AwaitingAmendment"
  using assms node_actions_own [of a]
  by (auto simp: review_actions_def split: option.splits if_splits; simp add: own_actions_def)+

lemma may_act_unblocked: "may_act resolve actor (i\<lparr>ri_blocked := b\<rparr>) n t = may_act resolve actor i n t"
  by (simp add: may_act_def)

lemma actions_unblocked [simp]: "review_actions resolve actor (i\<lparr>ri_blocked := b\<rparr>) = review_actions resolve actor i"
  by (simp add: review_actions_def current_node_def node_at_def currentTasks_def may_act_unblocked current_tasks_pred_def [abs_def] cong: option.case_cong if_cong)

lemma unblocked_ok: "review_ok i \<Longrightarrow> review_ok (i\<lparr>ri_blocked := b\<rparr>)"
  by (erule stays_ok) (simp_all add: same_frame_def)

lemma unblocked_normal: "normal (i\<lparr>ri_blocked := b\<rparr>) \<longleftrightarrow> normal i"
  by (simp add: normal_def)

section \<open>No exception, and the invariant is kept\<close>

lemma retry_ok:
  assumes "review_ok i" and "ri_status i = Blocked"
  shows "\<exists>i'. advance_only resolve uuid now i (Some (ri_currentNode i)) = Inr i' \<and> review_ok i'"
proof -
  obtain n where "node_at i (Some (ri_currentNode i)) = Some n"
    using assms by (auto simp: review_ok_def fits_def current_node_def)
  with advance_ok show ?thesis using assms(1) unfolding review_ok_def by blast
qed

lemma filter_find: "filter p xs = x # ys \<Longrightarrow> find p xs = Some x"
  by (induction xs) (auto split: if_splits)

lemma start_node:
  assumes "graph_fine (ri_definition i)"
  obtains s where "s \<in> set (rd_nodes (ri_definition i))" and "nd_type s = ''start''" and "start_id i = Some (nd_id s)"
    and "node_at i (Some (nd_id s)) = Some s"
proof -
  obtain s where s: "starts (rd_nodes (ri_definition i)) = [s]" using assms by (auto simp: graph_fine_def)
  then have f: "find (\<lambda>n. nd_type n = ''start'') (rd_nodes (ri_definition i)) = Some s"
    unfolding starts_def by (rule filter_find)
  then have m: "s \<in> set (rd_nodes (ri_definition i))" "nd_type s = ''start''" by (auto dest: find_SomeD)
  have "distinct (map nd_id (rd_nodes (ri_definition i)))" using assms by (simp add: graph_fine_def)
  then have "node_at i (Some (nd_id s)) = Some s" using m node_map_in node_at_map by metis
  then show ?thesis using that m f by (simp add: start_id_def)
qed

lemma from_start_ok:
  assumes "matter_ok i"
  shows "\<exists>s i'. start_id i = Some s \<and> advance_only resolve uuid now i (Some s) = Inr i' \<and> review_ok i'"
proof -
  obtain s where s: "s \<in> set (rd_nodes (ri_definition i))" "nd_type s = ''start''" "start_id i = Some (nd_id s)" "node_at i (Some (nd_id s)) = Some s"
    using start_node assms unfolding matter_ok_def by blast
  have "reached i (nd_id s)" using s by (auto simp: reached_def)
  then show ?thesis using advance_ok [OF assms s(4)] s(3) by blast
qed

lemma map_open_frame:
  assumes "\<And>t. task_key (f t) = task_key t" and "\<And>t. tk_status (f t) = TApproved \<longleftrightarrow> tk_status t = TApproved"
  shows "same_frame i (i\<lparr>ri_tasks := map f (ri_tasks i)\<rparr>)"
  using approvals_map [of "ri_tasks i" f] assms by (simp add: same_frame_def)

lemma operation_ok:
  assumes ok: "review_ok i" and nrm: "normal i" and offered: "operation_action c \<in> set (review_actions resolve actor i)"
  shows "\<exists>i'. applyReviewOperation resolve uuid now actor c i = Inr i' \<and> review_ok i'"
proof (cases c)
  case (Resubmit reason vs)
  let ?f = "\<lambda>t. if tk_status t \<in> {TPending, TWaiting, TSuspended} then t\<lparr>tk_status := TSuperseded\<rparr> else t"
  let ?i1 = "i\<lparr>ri_tasks := map ?f (ri_tasks i), ri_round := ri_round i + 1, ri_values := vs, ri_amendment := None, ri_blocked := None\<rparr>"
  have ap: "approvals (map ?f (ri_tasks i)) = approvals (ri_tasks i)" by (rule approvals_map) (auto simp: task_key_def)
  have "matter_ok ?i1" using ok ap by (simp add: review_ok_def matter_ok_def fair_approval_def del: insert_iff)
  then show ?thesis using from_start_ok [of ?i1 resolve uuid now] Resubmit nrm
    by (auto simp: applyReviewOperation_def normalize_normal)
next
  case (Complete reason)
  then obtain n t where n: "current_node i = Some n" "find (own_pending i actor) (ri_tasks i) = Some t" "may_act resolve actor i n t" "''complete'' \<in> set (node_actions n)"
    using offered_at_node [OF offered] by (auto simp: own_actions_def)
  have "nd_type n \<in> {''consult'', ''handler''}" using n(4) by (auto simp: node_actions_def split: if_splits option.splits)
  then obtain i' where "complete_operation resolve uuid now actor reason n i = Inr i'" "review_ok i'"
    using complete_ok [OF ok _ n(1) _ n(2), of resolve uuid now reason] n(3) by (auto simp: may_act_def)
  then show ?thesis using n(1,2) Complete nrm by (simp add: applyReviewOperation_def normalize_normal)
next
  case (Transfer target reason)
  then obtain n t where n: "current_node i = Some n" "find (own_pending i actor) (ri_tasks i) = Some t" "may_act resolve actor i n t"
    "operation_action c \<in> set (node_actions n)"
    using offered_at_node [OF offered] by (auto simp: own_actions_def)
  let ?i' = "reassignTask i n (own_pending i actor) target ByTransfer (Some reason) (uuid (length (ri_tasks i))) now"
  have "same_frame i ?i'"
    using approvals_replace [OF n(2)] own_pendingD [OF n(2)] by (simp add: reassignTask_def same_frame_def approvals_Cons replacement_task_def)
  then have "review_ok ?i'" by (rule stays_ok [OF ok]) (simp_all add: reassignTask_def)
  then show ?thesis using n Transfer nrm by (simp add: applyReviewOperation_def normalize_normal)
next
  case (Countersign target reason)
  then obtain n t where n: "current_node i = Some n" "find (own_pending i actor) (ri_tasks i) = Some t" "may_act resolve actor i n t"
    "operation_action c \<in> set (node_actions n)"
    using offered_at_node [OF offered] by (auto simp: own_actions_def)
  let ?i' = "i\<lparr>ri_tasks := insert_after_first (own_pending i actor) (countersign_task i n t target (uuid (length (ri_tasks i)))) (ri_tasks i)\<rparr>"
  have "same_frame i ?i'" by (simp add: same_frame_def approvals_insert countersign_task_def)
  then have "review_ok ?i'" by (rule stays_ok [OF ok]) simp_all
  then show ?thesis using n Countersign nrm by (simp add: applyReviewOperation_def normalize_normal)
next
  case (RequestAmendment reason)
  then obtain n t where n: "current_node i = Some n" "find (own_pending i actor) (ri_tasks i) = Some t" "may_act resolve actor i n t"
    "''request_amendment'' \<in> set (node_actions n)"
    using offered_at_node [OF offered] by (auto simp: own_actions_def)
  then obtain ops a where ops: "nd_operations n = Some ops" "op_amendment ops = Some a"
    by (cases "nd_operations n") (auto simp: node_actions_def split: if_splits)
  let ?f = "\<lambda>t. if current_tasks_pred i t \<and> open_status (tk_status t) then t\<lparr>tk_status := TSuspended\<rparr> else t"
  let ?i' = "i\<lparr>ri_status := AwaitingAmendment, ri_amendment := Some \<lparr>ad_fields = am_fields a, ad_reason = reason, ad_requestedBy = actor\<rparr>,
      ri_tasks := map ?f (ri_tasks i)\<rparr>"
  have "approvals (map ?f (ri_tasks i)) = approvals (ri_tasks i)" by (rule approvals_map) (auto simp: task_key_def open_status_def)
  then have "same_frame i ?i'" by (simp add: same_frame_def)
  then have "review_ok ?i'" by (rule stays_ok [OF ok]) simp_all
  then show ?thesis using n ops RequestAmendment nrm by (simp add: applyReviewOperation_def normalize_normal)
qed

lemma command_ok:
  assumes ok: "review_ok i" and nrm: "normal i" and offered: "command_action c \<in> set (review_actions resolve actor i)"
  shows "\<exists>i'. apply_command resolve uuid now actor c i = Inr i' \<and> review_ok i'"
proof -
  define j where "j = (if ri_status i = Reviewing then i\<lparr>ri_blocked := None\<rparr> else i)"
  have j: "review_ok j" "normal j" "command_action c \<in> set (review_actions resolve actor j)" "ri_status j = ri_status i"
    using assms unblocked_ok unblocked_normal by (simp_all add: j_def)
  have eq: "apply_command resolve uuid now actor c i =
    (case c of WithdrawCmd _ \<Rightarrow> Inr (withdraw j) | RetryCmd _ \<Rightarrow> advance_only resolve uuid now j (Some (ri_currentNode j))
     | Operate op1 \<Rightarrow> applyReviewOperation resolve uuid now actor op1 j
     | ApproveCmd r \<Rightarrow> decideReview resolve uuid now actor Approve r j | RejectCmd r \<Rightarrow> decideReview resolve uuid now actor Reject r j)"
    by (simp only: apply_command_def Let_def j_def)
  have decide: "\<exists>i'. decideReview resolve uuid now actor d r j = Inr i' \<and> review_ok i'"
    if act: "command_action c \<in> {''approve'', ''reject''}" for d r
  proof -
    obtain n t where n: "current_node j = Some n" "find (own_pending j actor) (ri_tasks j) = Some t" "may_act resolve actor j n t" "command_action c \<in> set (node_actions n)"
      by (rule offered_at_node [OF j(3)]) (use act in \<open>auto simp: own_actions_def\<close>)
    have "nd_type n = ''review''" using n(4) act by (auto simp: node_actions_def split: if_splits option.splits)
    then show ?thesis using decide_ok [OF j(1) _ n(1) _ n(2)] n(3) by (fastforce simp: may_act_def)
  qed
  show ?thesis
  proof (cases c)
    case (WithdrawCmd r)
    let ?f = "\<lambda>t. if tk_status t \<in> {TWaiting, TPending, TSuspended} then t\<lparr>tk_status := TCancelled\<rparr> else t"
    have "approvals (map ?f (ri_tasks j)) = approvals (ri_tasks j)" by (rule approvals_map) (auto simp: task_key_def)
    then have "same_frame j (withdraw j)" by (simp add: same_frame_def withdraw_def)
    then have "review_ok (withdraw j)" by (rule stays_ok [OF j(1)]) (simp_all add: withdraw_def)
    then show ?thesis using eq WithdrawCmd by simp
  next
    case (RetryCmd r)
    then have "ri_status j = Blocked" using offered_own(2) [OF j(3)] by (simp add: own_actions_def)
    then show ?thesis using eq RetryCmd retry_ok [OF j(1)] by simp
  next
    case (Operate op1)
    then show ?thesis using eq operation_ok [OF j(1,2)] j(3) by simp
  qed (use eq decide in simp_all)
qed

end
