(* ===== verification/Review_Database.thy ===== *)
theory Review_Database
  imports Review_Timeout Review_Properties
begin

text \<open>
  The invariant of the review tables and what the transactions keep of it: a published definition passed
  validation, a stored instance is \<open>review_ok\<close> and its people are participants.
\<close>

section \<open>What an instance keeps\<close>

definition identity :: "review_instance \<Rightarrow> string \<times> string \<times> int \<times> definition_doc \<times> string \<times> int" where
  "identity i = (ri_id i, ri_requester i, ri_version i, ri_definition i, ri_templateId i, ri_templateVersion i)"

lemma enter_node_identity: "enter_node resolve uuid now i n = Inr (i1, mv, e) \<Longrightarrow> identity i1 = identity i"
  by (auto simp: enter_node_def enter_work_def enter_condition_def identity_def block_with_def Let_def
      split: if_splits option.splits prod.splits)

lemma advance_loop_identity: "advance_loop resolve uuid now k i target = Inr (i', tr) \<Longrightarrow> identity i' = identity i"
proof (induction k arbitrary: i target tr)
  case (Suc k)
  from Suc.prems obtain n where n: "node_at i target = Some n" by (cases "node_at i target") auto
  from Suc.prems n obtain i1 mv e where e: "enter_node resolve uuid now i n = Inr (i1, mv, e)"
    by (cases "enter_node resolve uuid now i n") auto
  have "identity i' = identity i1"
  proof (cases mv)
    case Stop
    then show ?thesis using Suc.prems n e by simp
  next
    case (Go t)
    then show ?thesis using Suc.prems n e
      by (cases "advance_loop resolve uuid now k i1 t") (auto dest: Suc.IH)
  qed
  then show ?case using enter_node_identity [OF e] by simp
qed simp

lemma advance_identity: "advanceReview resolve uuid now i t = Inr (i', tr) \<Longrightarrow> identity i' = identity i"
  unfolding advanceReview_def by (rule advance_loop_identity)

lemma advance_only_identity: "advance_only resolve uuid now i t = Inr i' \<Longrightarrow> identity i' = identity i"
  unfolding advance_only_def by (cases "advanceReview resolve uuid now i t") (auto dest: advance_identity)

lemma identity_simps [simp]:
  "identity (cancel_open i) = identity i" "identity (wake_next n now i) = identity i" "identity (normalizeTasks i) = identity i"
  "identity (withdraw i) = identity i" "identity (reassignTask i n p u src r new now) = identity i"
  by (simp_all add: identity_def cancel_open_def wake_next_def normalizeTasks_def withdraw_def reassignTask_def)

lemma identity_update [simp]:
  "identity (i\<lparr>ri_tasks := ts\<rparr>) = identity i" "identity (i\<lparr>ri_status := st\<rparr>) = identity i" "identity (i\<lparr>ri_blocked := b\<rparr>) = identity i"
  "identity (i\<lparr>ri_round := r\<rparr>) = identity i" "identity (i\<lparr>ri_values := vs\<rparr>) = identity i" "identity (i\<lparr>ri_amendment := a\<rparr>) = identity i"
  by (simp_all add: identity_def)

lemma settle_identity: "settle_node resolve uuid now i n fin = Inr i' \<Longrightarrow> identity i' = identity i"
  by (auto simp: settle_node_def dest!: advance_only_identity split: if_splits)

lemma decide_identity: "decideReview resolve uuid now user d r i = Inr i' \<Longrightarrow> identity i' = identity i"
  by (auto simp: decideReview_def Let_def dest!: settle_identity split: if_splits option.splits)

lemma operation_identity: "applyReviewOperation resolve uuid now user c i = Inr i' \<Longrightarrow> identity i' = identity i"
  by (cases c) (auto simp: applyReviewOperation_def complete_operation_def Let_def
      dest!: settle_identity advance_only_identity split: option.splits)

lemma apply_identity: "apply_command resolve uuid now actor c i = Inr i' \<Longrightarrow> identity i' = identity i"
  by (cases c) (auto simp: apply_command_def Let_def
      dest!: decide_identity advance_only_identity operation_identity split: if_splits)

section \<open>What the effects keep\<close>

definition same_core :: "review_db \<Rightarrow> review_db \<Rightarrow> bool" where
  \<comment> \<open>only participants, attachment references, notifications, events and jobs differ; participants stay\<close>
  "same_core s s' \<longleftrightarrow> rv_templates s' = rv_templates s \<and> rv_lifecycle s' = rv_lifecycle s \<and> rv_versions s' = rv_versions s
     \<and> rv_drafts s' = rv_drafts s \<and> rv_instances s' = rv_instances s \<and> rv_revisions s' = rv_revisions s
     \<and> rv_attachments s' = rv_attachments s \<and> rv_confirmations s' = rv_confirmations s \<and> rv_commands s' = rv_commands s
     \<and> rv_timers s' = rv_timers s \<and> rv_participants s \<subseteq> rv_participants s'"

lemma same_core_refl [simp]: "same_core s s"
  by (simp add: same_core_def)

lemma same_core_trans: "same_core s t \<Longrightarrow> same_core t u \<Longrightarrow> same_core s u"
  by (auto simp: same_core_def)

lemma notify_core [simp]: "same_core s (notify n s)"
  by (simp add: notify_def same_core_def)

lemma fold_notify_core: "same_core s (fold (\<lambda>x. notify (f x)) xs s)"
  by (induction xs arbitrary: s) (auto intro: same_core_trans [OF notify_core])

lemma enqueue_core: "enqueue_timeout ctx env i k d s = Inr s' \<Longrightarrow> same_core s s'"
  by (auto simp: enqueue_timeout_def same_core_def split: sum.splits)

lemma fold_effects_core:
  assumes "\<And>x s s'. x \<in> set xs \<Longrightarrow> f x s = Inr s' \<Longrightarrow> same_core s s'"
  shows "fold_effects f xs s = Inr s' \<Longrightarrow> same_core s s'"
  using assms
proof (induction xs arbitrary: s)
  case (Cons x xs)
  from Cons.prems(1) obtain t where "f x s = Inr t" "fold_effects f xs t = Inr s'" by (auto split: sum.splits)
  then show ?case using Cons.IH [of t] Cons.prems(2) same_core_trans by (metis list.set_intros)
qed simp

lemma task_effect_core: "task_effect ctx env i t s = Inr s' \<Longrightarrow> same_core s s'"
  by (auto simp: task_effect_def Let_def split: option.splits if_splits
      intro: same_core_trans [OF notify_core] enqueue_core)

lemma timeout_task_effect_core: "timeout_task_effect ctx env i u t s = Inr s' \<Longrightarrow> same_core s s'"
proof -
  assume e: "timeout_task_effect ctx env i u t s = Inr s'"
  let ?s1 = "s\<lparr>rv_participants := insert (ri_id i, tk_user t) (rv_participants s)\<rparr>"
  have "same_core ?s1 s'"
    using e by (auto simp: timeout_task_effect_def Let_def split: option.splits if_splits
        intro: same_core_trans [OF notify_core] enqueue_core)
  moreover have "same_core s ?s1" by (auto simp: same_core_def)
  ultimately show ?thesis by (rule same_core_trans [rotated])
qed

lemma sync_core:
  assumes "syncEffects ctx env i0 s = Inr s'"
  shows "same_core s s'"
proof -
  define i where "i = normalizeTasks i0"
  define s1 where "s1 = fold (\<lambda>t. notify (ri_id i, tk_user t, ''cc:'' @ tk_id t)) (filter (\<lambda>t. tk_duty t = Some ''cc'') (ri_tasks i)) s"
  have s1: "same_core s s1" unfolding s1_def by (rule fold_notify_core)
  show ?thesis
  proof (cases "ri_status i = Reviewing")
    case True
    then have "fold_effects (task_effect ctx env i) (filter (\<lambda>t. tk_status t = TPending) (currentTasks i)) s1 = Inr s'"
      using assms unfolding syncEffects_def Let_def i_def [symmetric] s1_def [symmetric] by (simp split: sum.splits)
    then have "same_core s1 s'" by (rule fold_effects_core [rotated]) (rule task_effect_core)
    then show ?thesis by (rule same_core_trans [OF s1])
  next
    case False
    then have "s' = notify (ri_id i, ri_requester i, ''state:'' @ show_nat (nat (ri_version i))) s1"
      using assms unfolding syncEffects_def Let_def i_def [symmetric] s1_def [symmetric] by simp
    then show ?thesis using same_core_trans [OF s1 notify_core] by simp
  qed
qed

lemma timeout_effects_core: "timeout_effects ctx env out d t i s = Inr s' \<Longrightarrow> same_core s s'"
proof -
  assume e: "timeout_effects ctx env out d t i s = Inr s'"
  let ?mark = "tk_id t @ '':'' @ iso_text d"
  let ?s1 = "notify (ri_id i, tk_user t, ''timeout:'' @ ?mark) s"
  let ?s2 = "if out = AskTakeover then notify (ri_id i, ri_requester i, ''takeover:'' @ ?mark) ?s1 else ?s1"
  have "fold_effects (timeout_task_effect ctx env i (tk_user t)) (filter (\<lambda>t. tk_status t = TPending) (currentTasks i)) ?s2 = Inr s'"
    using e by (simp only: timeout_effects_def Let_def)
  then have "same_core ?s2 s'" by (rule fold_effects_core [rotated]) (rule timeout_task_effect_core)
  moreover have "same_core s ?s2" using same_core_trans [OF notify_core notify_core] by simp
  ultimately show ?thesis by (rule same_core_trans [rotated])
qed

section \<open>The invariant\<close>

definition instance_ok :: "review_db \<Rightarrow> string \<Rightarrow> instance_row \<Rightarrow> bool" where
  "instance_ok s k row \<longleftrightarrow>
     (let i = iw_instance row in
      review_ok i \<and> ri_id i = k \<and> rv_versions s (ri_templateId i, ri_templateVersion i) = Some (ri_definition i)
      \<and> (k, ri_requester i) \<in> rv_participants s)"

definition db_ok :: "review_db \<Rightarrow> bool" where
  "db_ok s \<longleftrightarrow>
     (\<forall>k d. rv_versions s k = Some d \<longrightarrow> validateDefinition d = [])
     \<and> (\<forall>k row. rv_instances s k = Some row \<longrightarrow> instance_ok s k row)"

definition grows :: "review_db \<Rightarrow> review_db \<Rightarrow> bool" where
  \<comment> \<open>published versions never change, participants never leave\<close>
  "grows s s' \<longleftrightarrow> rv_versions s \<subseteq>\<^sub>m rv_versions s' \<and> rv_participants s \<subseteq> rv_participants s'"

lemma grows_refl [simp]: "grows s s"
  by (simp add: grows_def)

lemma grows_trans: "grows s t \<Longrightarrow> grows t u \<Longrightarrow> grows s u"
  by (auto simp: grows_def intro: map_le_trans)

lemma core_grows: "same_core s s' \<Longrightarrow> grows s s'"
  by (simp add: same_core_def grows_def)

lemma instance_ok_grows: "instance_ok s k row \<Longrightarrow> grows s s' \<Longrightarrow> instance_ok s' k row"
  by (auto simp: instance_ok_def Let_def grows_def map_le_def dom_def)

lemma db_okI:
  assumes "db_ok s" and "grows s s'"
    and "\<And>k d. rv_versions s' k = Some d \<Longrightarrow> rv_versions s k = Some d \<or> validateDefinition d = []"
    and "\<And>k row. rv_instances s' k = Some row \<Longrightarrow> rv_instances s k = Some row \<or> instance_ok s' k row"
  shows "db_ok s'"
  unfolding db_ok_def
proof (intro conjI allI impI)
  fix k d assume "rv_versions s' k = Some d"
  then show "validateDefinition d = []" using assms(1,3) unfolding db_ok_def by blast
next
  fix k row assume "rv_instances s' k = Some row"
  then show "instance_ok s' k row" using assms(1,4) instance_ok_grows [OF _ assms(2)] unfolding db_ok_def by blast
qed

lemma db_ok_core: "db_ok s \<Longrightarrow> same_core s s' \<Longrightarrow> db_ok s'"
  by (rule db_okI [OF _ core_grows]) (auto simp: same_core_def)

lemma db_ok_row: "db_ok s \<Longrightarrow> rv_instances s k = Some row \<Longrightarrow> instance_ok s k row"
  by (simp add: db_ok_def)

section \<open>No exception of the engine\<close>

lemma fold_effects_throws:
  assumes "\<And>x s. x \<in> set xs \<Longrightarrow> f x s \<noteq> Inl (EngineThrew e)"
  shows "fold_effects f xs s \<noteq> Inl (EngineThrew e)"
  using assms
proof (induction xs arbitrary: s)
  case (Cons x xs)
  have "f x s \<noteq> Inl (EngineThrew e)" "\<And>t. fold_effects f xs t \<noteq> Inl (EngineThrew e)"
    by (rule Cons.prems, simp) (rule Cons.IH, rule Cons.prems, simp)
  then show ?case by (cases "f x s") simp_all
qed simp

lemma task_effect_throws: "node_at i (Some (tk_node t)) \<noteq> None \<Longrightarrow> task_effect ctx env i t s \<noteq> Inl (EngineThrew e)"
  by (auto simp: task_effect_def enqueue_timeout_def Let_def split: option.splits sum.splits)

lemma sync_throws:
  assumes "ri_status i = Reviewing \<Longrightarrow> current_node i \<noteq> None"
  shows "syncEffects ctx env i s \<noteq> Inl (EngineThrew e)"
proof -
  define j where "j = normalizeTasks i"
  have j: "ri_status j = ri_status i" "current_node j = current_node i" "ri_currentNode j = ri_currentNode i"
    by (simp_all add: j_def normalizeTasks_def current_node_def node_at_def)
  have "fold_effects (task_effect ctx env j) (filter (\<lambda>t. tk_status t = TPending) (currentTasks j)) s' \<noteq> Inl (EngineThrew e)"
    if "ri_status i = Reviewing" for s'
  proof (rule fold_effects_throws)
    fix t s assume "t \<in> set (filter (\<lambda>t. tk_status t = TPending) (currentTasks j))"
    then have "tk_node t = ri_currentNode j" by (simp add: currentTasks_def current_tasks_pred_def)
    then show "task_effect ctx env j t s \<noteq> Inl (EngineThrew e)"
      by (intro task_effect_throws) (use assms that j in \<open>simp add: current_node_def\<close>)
  qed
  then show ?thesis unfolding syncEffects_def Let_def j_def [symmetric] using j by (auto split: sum.splits)
qed

lemma new_matter: "graph_fine d \<Longrightarrow> matter_ok (newInstance k t v d vs r now)"
  by (simp add: newInstance_def matter_ok_def)

lemma submit_ok:
  assumes "graph_fine d"
  shows "\<exists>i. submit_instance resolve uuid k t v d vs r now = Inr i \<and> review_ok i \<and> identity i = (k, r, 1, d, t, v)"
proof -
  obtain s i where i: "start_id (newInstance k t v d vs r now) = Some s"
    "advance_only resolve uuid now (newInstance k t v d vs r now) (Some s) = Inr i" "review_ok i"
    using from_start_ok [OF new_matter [OF assms]] by blast
  then show ?thesis using advance_only_identity [OF i(2)]
    by (simp add: submit_instance_def identity_def newInstance_def)
qed

lemma walk_total:
  assumes "graph_fine (ri_definition i)" and "fits i"
  shows "\<exists>r. walk_nodes resolve uuid now k i = Inr r"
  using assms
proof (induction k arbitrary: i)
  case (Suc k)
  show ?case
  proof (cases "ri_status i = Reviewing")
    case True
    then obtain n where n: "current_node i = Some n" "nd_type n \<in> {''review'', ''consult'', ''handler''}"
      using Suc.prems(2) by (auto simp: fits_def)
    obtain t m where t: "nd_next n = Some t" "node_at i (Some t) = Some m" by (rule next_node [OF Suc.prems(1) n])
    obtain i' tr where a: "advanceReview resolve uuid now i (Some t) = Inr (i', tr)" "same_matter i i'" "settled_at i'"
      by (rule advance_total [OF Suc.prems(1) t(2)])
    have "fits i'" using a(3) by (auto simp: settled_at_def fits_def)
    moreover have "graph_fine (ri_definition i')" using a(2) Suc.prems(1) by (simp add: same_matter_def)
    ultimately obtain r where "walk_nodes resolve uuid now k i' = Inr r" using Suc.IH by blast
    then show ?thesis using True n(1) t(1) a(1) by (cases r) simp
  qed simp
qed simp

lemma trace_total:
  assumes "graph_fine d"
  shows "\<exists>r. tracePath resolve uuid now d vs requester = Inr r"
proof -
  let ?i = "newInstance [] ''preview'' 0 d vs requester now"
  have g: "graph_fine (ri_definition ?i)" using assms by (simp add: newInstance_def)
  obtain s where s: "start_id ?i = Some (nd_id s)" "node_at ?i (Some (nd_id s)) = Some s" by (rule start_node [OF g])
  obtain i' tr where a: "advanceReview resolve uuid now ?i (Some (nd_id s)) = Inr (i', tr)" "same_matter ?i i'" "settled_at i'"
    by (rule advance_total [OF g s(2)])
  have "fits i'" using a(3) by (auto simp: settled_at_def fits_def)
  moreover have "graph_fine (ri_definition i')" using a(2) g by (simp add: same_matter_def)
  ultimately obtain r where "walk_nodes resolve uuid now (length (rd_nodes d)) i' = Inr r" using walk_total by blast
  then show ?thesis using s(1) a(1) by (cases r) (simp add: tracePath_def Let_def)
qed

lemma published_graph: "db_ok s \<Longrightarrow> rv_versions s k = Some d \<Longrightarrow> graph_fine d"
  by (rule valid_graph) (unfold db_ok_def, blast)

lemma check_path_throws: "graph_fine d \<Longrightarrow> check_path ctx env d sub \<noteq> Inl (EngineThrew e)"
proof -
  assume g: "graph_fine d"
  let ?r = "reviewResolver ctx (map_of (su_choices sub))"
  obtain i where "submit_instance ?r (en_uuid env) (en_instance_id env) (su_template sub) (su_version sub) d (su_values sub) (rc_actor ctx) (en_now env) = Inr i"
    using submit_ok [OF g] by blast
  moreover obtain t where "tracePath ?r (en_uuid env) (en_now env) d (su_values sub) (rc_actor ctx) = Inr t"
    using trace_total [OF g] by blast
  ultimately show ?thesis by (cases t) (simp add: check_path_def Let_def split: option.split)
qed

lemma check_form_throws: "check_form hs ctx s d sub \<noteq> Inl (EngineThrew e)"
  by (simp add: check_form_def Let_def split: sum.split)

lemma check_submit_throws: "db_ok s \<Longrightarrow> check_submit hs ctx env s sub \<noteq> Inl (EngineThrew e)"
  using check_path_throws [OF published_graph] check_form_throws
  by (auto simp: check_submit_def split: option.split sum.split)

lemma check_throws: "db_ok s \<Longrightarrow> check_command hs ctx env s c \<noteq> Inl (EngineThrew e)"
  using check_submit_throws [of s hs ctx env _ e]
  by (cases c) (auto simp: check_lifecycle_def check_publish_def checked_instance_def Let_def split: option.splits sum.splits)

lemma consume_simps [simp]:
  "rv_templates (consume k s) = rv_templates s" "rv_lifecycle (consume k s) = rv_lifecycle s" "rv_versions (consume k s) = rv_versions s"
  "rv_drafts (consume k s) = rv_drafts s" "rv_instances (consume k s) = rv_instances s" "rv_participants (consume k s) = rv_participants s"
  "rv_commands (consume k s) = rv_commands s" "rv_timers (consume k s) = rv_timers s" "rv_revisions (consume k s) = rv_revisions s"
  "rv_jobs (consume k s) = rv_jobs s" "rv_attachments (consume k s) = rv_attachments s"
  by (simp_all add: consume_def)

lemma consume_ok: "db_ok s \<Longrightarrow> db_ok (consume k s)"
  by (rule db_okI) (auto simp: grows_def)

lemma instance_row_consume [simp]: "instance_row ctx (consume k s) i = instance_row ctx s i"
  by (simp add: instance_row_def)

lemma put_revision_simps [simp]:
  "rv_versions (put_revision i s) = rv_versions s" "rv_instances (put_revision i s) = rv_instances s"
  "rv_participants (put_revision i s) = rv_participants s" "rv_templates (put_revision i s) = rv_templates s"
  "rv_commands (put_revision i s) = rv_commands s" "rv_confirmations (put_revision i s) = rv_confirmations s"
  "rv_lifecycle (put_revision i s) = rv_lifecycle s" "rv_timers (put_revision i s) = rv_timers s"
  by (simp_all add: put_revision_def)

definition frame :: "review_db \<Rightarrow> review_db \<Rightarrow> bool" where
  \<comment> \<open>what no effect of an instance touches\<close>
  "frame s s' \<longleftrightarrow> rv_templates s' = rv_templates s \<and> rv_versions s' = rv_versions s \<and> rv_instances s' = rv_instances s
     \<and> rv_commands s' = rv_commands s \<and> rv_confirmations s' = rv_confirmations s \<and> rv_lifecycle s' = rv_lifecycle s
     \<and> rv_timers s' = rv_timers s \<and> rv_participants s \<subseteq> rv_participants s'"

lemma effects_frame:
  assumes "instance_effects ctx env m i s = Inr s'"
  shows "frame s s'" and "(ri_id i, ri_requester i) \<in> rv_participants s'"
proof -
  obtain t where t: "syncEffects ctx env i (record_people i s) = Inr t" "s' = (if m then put_revision i t else t)"
    using assms by (cases "syncEffects ctx env i (record_people i s)") (auto simp: instance_effects_def)
  have "same_core (record_people i s) t" by (rule sync_core [OF t(1)])
  then show "frame s s'" "(ri_id i, ri_requester i) \<in> rv_participants s'"
    using t(2) by (auto simp: same_core_def frame_def record_people_def)
qed

lemma effects_throws:
  "(ri_status i = Reviewing \<Longrightarrow> current_node i \<noteq> None) \<Longrightarrow> instance_effects ctx env m i s \<noteq> Inl (EngineThrew e)"
  using sync_throws [of i ctx env "record_people i s" e]
  by (auto simp: instance_effects_def split: sum.splits)

lemma review_ok_current: "review_ok i \<Longrightarrow> ri_status i = Reviewing \<Longrightarrow> current_node i \<noteq> None"
  by (auto simp: review_ok_def fits_def)

end
