(* ===== verification/Review_Transactions.thy ===== *)
theory Review_Transactions
  imports Review_Database
begin

text \<open>
  The transactions of the review service keep the invariant of the tables, never end in an exception of
  the engine, and record what they did: the lemmas on each kind of command and on \<open>execute\<close>.
\<close>

section \<open>Single commands\<close>

definition outcome :: "review_context \<Rightarrow> review_db \<Rightarrow> string \<times> int \<Rightarrow> review_db \<Rightarrow> bool" where
  \<comment> \<open>the result of a command on an instance\<close>
  "outcome ctx s res s' \<longleftrightarrow> db_ok s' \<and> grows s s' \<and> rv_commands s' = rv_commands s \<and> rv_confirmations s' = rv_confirmations s
     \<and> (\<exists>row. rv_instances s' = (rv_instances s)(fst res \<mapsto> row) \<and> ri_version (iw_instance row) = snd res)
     \<and> (fst res, rc_actor ctx) \<in> rv_participants s'"

lemma delete_draft_frame: "delete_draft ctx draft s = Inr s' \<Longrightarrow> same_core s (s'\<lparr>rv_drafts := rv_drafts s\<rparr>)"
  by (auto simp: delete_draft_def same_core_def split: option.splits if_splits)

lemma put_instance_ok:
  assumes db: "db_ok s" and f: "frame (s\<lparr>rv_instances := (rv_instances s)(k \<mapsto> row)\<rparr>) s'" and i: "instance_ok s' k row"
  shows "db_ok s'" and "grows s s'"
proof -
  show g: "grows s s'" using f by (auto simp: frame_def grows_def)
  show "db_ok s'"
  proof (rule db_okI [OF db g])
    fix k' row' assume "rv_instances s' k' = Some row'"
    then show "rv_instances s k' = Some row' \<or> instance_ok s' k' row'"
      using f i by (cases "k' = k") (auto simp: frame_def)
  qed (use f in \<open>auto simp: frame_def\<close>)
qed

lemma submit_body:
  assumes db: "db_ok s" and ex: "execute_submit ctx env sub s = Inr (res, s')"
  shows "outcome ctx s res s'"
proof -
  let ?k = "en_instance_id env"
  obtain d where d: "rv_versions s (su_template sub, su_version sub) = Some d"
    using ex by (auto simp: execute_submit_def split: option.splits)
  obtain i where i: "submit_instance (reviewResolver ctx (map_of (su_choices sub))) (en_uuid env) ?k (su_template sub) (su_version sub) d
      (su_values sub) (rc_actor ctx) (en_now env) = Inr i" "review_ok i" "identity i = (?k, rc_actor ctx, 1, d, su_template sub, su_version sub)"
    using submit_ok [OF published_graph [OF db d]] by blast
  let ?row = "\<lparr>iw_instance = i, iw_choices = map_of (su_choices sub)\<rparr>"
  let ?s1 = "s\<lparr>rv_instances := (rv_instances s)(?k \<mapsto> ?row)\<rparr>"
  have split: "execute_submit ctx env sub s = (if rv_instances s ?k \<noteq> None then Inl InstanceTaken else
      case delete_draft ctx (su_draft sub) ?s1 of Inl e \<Rightarrow> Inl e
      | Inr t \<Rightarrow> map_sum id (Pair (ri_id i, ri_version i)) (instance_effects ctx env True i t))"
    by (simp add: execute_submit_def d i(1))
  obtain t where t: "delete_draft ctx (su_draft sub) ?s1 = Inr t" "instance_effects ctx env True i t = Inr s'" "res = (ri_id i, ri_version i)"
    using ex unfolding split
    by (cases "delete_draft ctx (su_draft sub) ?s1"; cases "rv_instances s ?k"; cases "instance_effects ctx env True i (projr (delete_draft ctx (su_draft sub) ?s1))") auto
  have f1: "frame ?s1 t" using delete_draft_frame [OF t(1)] by (simp add: same_core_def frame_def)
  have f: "frame ?s1 s'" using f1 effects_frame(1) [OF t(2)] by (auto simp: frame_def)
  have ids: "ri_id i = ?k" "ri_requester i = rc_actor ctx" "ri_definition i = d" "ri_templateId i = su_template sub" "ri_templateVersion i = su_version sub"
    using i(3) by (simp_all add: identity_def)
  have part: "(?k, rc_actor ctx) \<in> rv_participants s'" using effects_frame(2) [OF t(2)] ids by simp
  have "instance_ok s' ?k ?row" using i(2) ids part f d by (simp add: instance_ok_def Let_def frame_def)
  from put_instance_ok [OF db f this] show ?thesis
    using f part t(3) ids by (auto simp: outcome_def frame_def)
qed

lemma own_attachment_consume [simp]: "own_attachment hs ctx (consume k s) = own_attachment hs ctx s"
  by (rule ext) (simp add: own_attachment_def)

lemma checked_instance_consume [simp]: "checked_instance hs ctx (consume k s) = checked_instance hs ctx s"
  unfolding checked_instance_def [abs_def] own_attachment_consume instance_row_consume by (rule refl)

lemma checkedD:
  assumes "checked_instance hs ctx s iid v c = Inr row"
  shows "instance_row ctx s iid = Some row" and "ri_version (iw_instance row) = v"
    and "command_action c \<in> set (review_actions (reviewResolver ctx (iw_choices row)) (rc_actor ctx) (normalizeTasks (iw_instance row)))"
  using assms by (auto simp: checked_instance_def check_instance_def normalizeTasks_def split: option.splits sum.splits if_splits)

lemma instance_rowD: "instance_row ctx s iid = Some row \<Longrightarrow> rv_instances s iid = Some row \<and> (iid, rc_actor ctx) \<in> rv_participants s"
  by (simp add: instance_row_def split: if_splits)

lemma instance_total:
  assumes db: "db_ok s" and ck: "checked_instance hs ctx s iid v c = Inr row"
  obtains i1 where "apply_command (reviewResolver ctx (iw_choices row)) (en_uuid env) (en_now env) (rc_actor ctx) c (normalizeTasks (iw_instance row)) = Inr i1"
    and "review_ok i1" and "identity i1 = identity (iw_instance row)"
proof -
  have "review_ok (iw_instance row)"
    using db_ok_row [OF db, of iid row] instance_rowD [OF checkedD(1) [OF ck]] by (simp add: instance_ok_def Let_def)
  then obtain i1 where "apply_command (reviewResolver ctx (iw_choices row)) (en_uuid env) (en_now env) (rc_actor ctx) c (normalizeTasks (iw_instance row)) = Inr i1" "review_ok i1"
    using command_ok [OF normalize_ok normal_normalize checkedD(3) [OF ck]] by blast
  then show ?thesis using that apply_identity by fastforce
qed

lemma stamp_ok: "review_ok i \<Longrightarrow> review_ok (stamp_version now i)"
  by (erule stays_ok) (simp_all add: same_frame_def stamp_version_def)

lemma instance_body:
  assumes db: "db_ok s" and ck: "checked_instance hs ctx s iid v c = Inr row"
  shows "execute_instance ctx env iid v c s \<noteq> Inl (EngineThrew e)"
    and "execute_instance ctx env iid v c s = Inr (res, s') \<Longrightarrow> outcome ctx s res s' \<and> res = (iid, v + 1)"
proof -
  obtain i1 where i1: "apply_command (reviewResolver ctx (iw_choices row)) (en_uuid env) (en_now env) (rc_actor ctx) c (normalizeTasks (iw_instance row)) = Inr i1"
    "review_ok i1" "identity i1 = identity (iw_instance row)" by (rule instance_total [OF db ck])
  let ?i2 = "stamp_version (en_now env) i1" and ?p = "put_revision (normalizeTasks (iw_instance row)) s"
  let ?row = "row\<lparr>iw_instance := ?i2\<rparr>"
  let ?s1 = "?p\<lparr>rv_instances := (rv_instances s)(iid \<mapsto> ?row)\<rparr>"
  note row = instance_rowD [OF checkedD(1) [OF ck]]
  have split: "execute_instance ctx env iid v c s = map_sum id (Pair (ri_id ?i2, ri_version ?i2)) (instance_effects ctx env (brings_material c) ?i2 ?s1)"
    using checkedD(1,2) [OF ck] i1(1) by (simp add: execute_instance_def Let_def)
  have ok2: "review_ok ?i2" by (rule stamp_ok [OF i1(2)])
  have old: "instance_ok s iid row" using db_ok_row [OF db] row by blast
  have ids: "ri_id ?i2 = iid" "ri_version ?i2 = v + 1" "ri_requester ?i2 = ri_requester (iw_instance row)" "ri_definition ?i2 = ri_definition (iw_instance row)"
    "ri_templateId ?i2 = ri_templateId (iw_instance row)" "ri_templateVersion ?i2 = ri_templateVersion (iw_instance row)"
    using i1(3) old checkedD(2) [OF ck] by (simp_all add: identity_def stamp_version_def instance_ok_def Let_def)
  show "execute_instance ctx env iid v c s \<noteq> Inl (EngineThrew e)"
    using effects_throws [of ?i2 ctx env "brings_material c" ?s1 e] review_ok_current [OF ok2]
    unfolding split by (cases "instance_effects ctx env (brings_material c) ?i2 ?s1") auto
  assume "execute_instance ctx env iid v c s = Inr (res, s')"
  then have e: "instance_effects ctx env (brings_material c) ?i2 ?s1 = Inr s'" "res = (ri_id ?i2, ri_version ?i2)"
    unfolding split by (cases "instance_effects ctx env (brings_material c) ?i2 ?s1"; simp)+
  have f: "frame (s\<lparr>rv_instances := (rv_instances s)(iid \<mapsto> ?row)\<rparr>) s'"
    using effects_frame(1) [OF e(1)] by (simp add: frame_def)
  then have "rv_versions s' = rv_versions s" "rv_participants s \<subseteq> rv_participants s'" by (simp_all add: frame_def)
  then have "instance_ok s' iid ?row" using ok2 ids old by (auto simp: instance_ok_def Let_def)
  from put_instance_ok [OF db f this] show "outcome ctx s res s' \<and> res = (iid, v + 1)"
    using f row e(2) ids by (auto simp: outcome_def frame_def)
qed

section \<open>Templates\<close>

lemma lifecycle_body:
  assumes "db_ok s" and "execute_lifecycle enable t l s = Inr (res, s')"
  shows "db_ok s'" and "grows s s'" and "rv_commands s' = rv_commands s" and "rv_confirmations s' = rv_confirmations s"
    and "rv_instances s' = rv_instances s" and "rv_templates s' = rv_templates s"
proof -
  have s': "s' = s\<lparr>rv_lifecycle := (rv_lifecycle s)(t \<mapsto> \<lparr>lc_version = l + 1, lc_enabled = enable\<rparr>)\<rparr>"
    using assms(2) by (auto simp: execute_lifecycle_def Let_def split: option.splits if_splits)
  show "grows s s'" by (simp add: s' grows_def)
  with assms(1) show "db_ok s'" by (rule db_okI) (simp_all add: s')
qed (use assms(2) in \<open>auto simp: execute_lifecycle_def Let_def split: option.splits if_splits\<close>)

lemma configuration_valid: "configurationIssues ctx units d = [] \<Longrightarrow> validateDefinition d = []"
  by (auto simp: configurationIssues_def Let_def split: if_splits)

lemma publish_body:
  assumes db: "db_ok s" and ck: "check_publish ctx env s0 t v = Inr ()" "rv_templates s0 = rv_templates s" and ex: "execute_publish t s = Inr (res, s')"
  shows "db_ok s'" and "grows s s'" and "rv_commands s' = rv_commands s" and "rv_confirmations s' = rv_confirmations s"
    and "rv_instances s' = rv_instances s" and "rv_templates s' t \<noteq> None"
proof -
  obtain row where row: "rv_templates s t = Some row" "rv_versions s (t, tr_version row) = None"
    "s' = s\<lparr>rv_versions := (rv_versions s)((t, tr_version row) \<mapsto> tr_definition row),
            rv_templates := (rv_templates s)(t \<mapsto> row\<lparr>tr_published := Some (tr_version row)\<rparr>)\<rparr>"
    using ex by (auto simp: execute_publish_def split: option.splits if_splits)
  have "configurationIssues ctx (en_units env) (tr_definition row) = []"
    using ck row(1) by (auto simp: check_publish_def Let_def split: if_splits)
  then have v: "validateDefinition (tr_definition row) = []" by (rule configuration_valid)
  show g: "grows s s'" using row(2) by (auto simp: row(3) grows_def map_le_def dom_def)
  show "db_ok s'" by (rule db_okI [OF db g]) (use v in \<open>auto simp: row(3) split: if_splits\<close>)
qed (use ex in \<open>auto simp: execute_publish_def split: option.splits if_splits\<close>)

section \<open>The whole transaction\<close>

definition replayable :: "review_context \<Rightarrow> review_db \<Rightarrow> review_command \<Rightarrow> string \<Rightarrow> bool" where
  \<comment> \<open>what \<open>replay_allowed\<close> will ask for\<close>
  "replayable ctx s c resource \<longleftrightarrow>
     (case c of
        Publish t _ \<Rightarrow> rc_admin ctx \<and> rv_templates s t \<noteq> None
      | Enable t _ _ \<Rightarrow> rc_admin ctx \<and> rv_templates s t \<noteq> None
      | Disable t _ _ \<Rightarrow> rc_admin ctx \<and> rv_templates s t \<noteq> None
      | _ \<Rightarrow> instance_row ctx s resource \<noteq> None)"

lemma replay_allowed_iff: "replay_allowed ctx s c r = Inr () \<longleftrightarrow> replayable ctx s c (re_resource r)"
  by (cases c) (simp_all add: replay_allowed_def replayable_def Let_def)

lemma outcome_instance: "outcome ctx s res s' \<Longrightarrow> instance_row ctx s' (fst res) \<noteq> None"
  by (auto simp: outcome_def instance_row_def)

lemma body_effect:
  assumes db: "db_ok s" and ck: "check_command hs ctx env s c = Inr ()" and ex: "execute_body ctx env c (consume k s) = Inr (res, s')"
  shows "db_ok s' \<and> grows s s' \<and> rv_commands s' = rv_commands s \<and> rv_confirmations s' = rv_confirmations (consume k s)
    \<and> replayable ctx s' c (fst res)"
proof -
  have dbc: "db_ok (consume k s)" by (rule consume_ok [OF db])
  have gr: "grows s s'" if "grows (consume k s) s'" using that by (simp add: grows_def)
  have life: ?thesis if e: "execute_lifecycle b t l (consume k s) = Inr (res, s')" and ck: "check_lifecycle ctx s b t v l = Inr ()"
    and rep: "rc_admin ctx \<Longrightarrow> rv_templates s' t \<noteq> None \<Longrightarrow> replayable ctx s' c (fst res)" for b t v l
  proof -
    note lb = lifecycle_body [OF dbc e]
    have "rc_admin ctx" "rv_templates s t \<noteq> None"
      using ck by (auto simp: check_lifecycle_def template_state_def split: if_splits option.splits)
    then show ?thesis using lb gr rep by simp
  qed
  show ?thesis
  proof (cases c)
    case (Submit sub)
    then have o: "outcome ctx (consume k s) res s'" using submit_body [OF dbc] ex by simp
    show ?thesis using outcome_instance [OF o] o Submit gr by (simp add: outcome_def replayable_def)
  next
    case (Publish t v)
    have e: "execute_publish t (consume k s) = Inr (res, s')" and ck': "check_publish ctx env s t v = Inr ()"
      using ex ck Publish by simp_all
    note pb = publish_body [OF dbc ck' _ e]
    have "rc_admin ctx" using ck' by (auto simp: check_publish_def split: if_splits)
    then show ?thesis using pb gr Publish by (simp add: replayable_def)
  next
    case (Enable t v l)
    then show ?thesis using life [of True t l v] ex ck by (simp add: replayable_def)
  next
    case (Disable t v l)
    then show ?thesis using life [of False t l v] ex ck by (simp add: replayable_def)
  next
    case (OnInstance i v c1)
    then obtain row where "checked_instance hs ctx s i v c1 = Inr row"
      using ck by (cases "checked_instance hs ctx s i v c1") auto
    then have "checked_instance hs ctx (consume k s) i v c1 = Inr row"
      by simp
    then have o: "outcome ctx (consume k s) res s'" using instance_body(2) [OF dbc] ex OnInstance by fastforce
    show ?thesis using outcome_instance [OF o] o OnInstance gr by (simp add: outcome_def replayable_def)
  qed
qed

lemma map_sum_Inl: "map_sum id f x = Inl e \<longleftrightarrow> x = Inl e"
  by (cases x) auto

lemma delete_draft_throws: "delete_draft ctx draft s \<noteq> Inl (EngineThrew e)"
  by (simp add: delete_draft_def split: option.split)

lemma body_throws:
  assumes db: "db_ok s" and ck: "check_command hs ctx env s c = Inr ()"
  shows "execute_body ctx env c (consume k s) \<noteq> Inl (EngineThrew e)"
proof (cases c)
  case (Submit sub)
  have dbc: "db_ok (consume k s)" by (rule consume_ok [OF db])
  show ?thesis
  proof (cases "rv_versions s (su_template sub, su_version sub)")
    case None
    then show ?thesis using Submit by (simp add: execute_submit_def)
  next
    case (Some d)
    obtain i where i: "submit_instance (reviewResolver ctx (map_of (su_choices sub))) (en_uuid env) (en_instance_id env) (su_template sub) (su_version sub) d
      (su_values sub) (rc_actor ctx) (en_now env) = Inr i" "review_ok i"
      using submit_ok [OF published_graph [OF db Some]] by blast
    have "instance_effects ctx env True i t \<noteq> Inl (EngineThrew e)" for t
      by (rule effects_throws) (rule review_ok_current [OF i(2)])
    then show ?thesis using Submit Some i(1)
      by (simp add: execute_submit_def map_sum_Inl split: sum.split) (metis delete_draft_throws)
  qed
next
  case (OnInstance i v c1)
  then obtain row where "checked_instance hs ctx s i v c1 = Inr row"
    using ck by (cases "checked_instance hs ctx s i v c1") auto
  then have "checked_instance hs ctx (consume k s) i v c1 = Inr row"
    by simp
  then show ?thesis using instance_body(1) [OF consume_ok [OF db]] OnInstance by simp
qed (auto simp: execute_lifecycle_def execute_publish_def Let_def split: option.split)

lemma execute_cases:
  assumes "execute hs ctx env c conf key s = Inr (r, s')"
  obtains (Replay) "s' = s" and "rv_commands s (rc_actor ctx, key) = Some (hs_command hs c, r)" and "replay_allowed ctx s c r = Inr ()"
    and "8 \<le> length key" and "length key \<le> 128"
  | (Fresh) h res t where "rv_commands s (rc_actor ctx, key) = None" and "check_command hs ctx env s c = Inr ()" and "evidence hs ctx s c = Inr h"
    and "confirmation_valid ctx env s conf h" and "execute_body ctx env c (consume conf s) = Inr (res, t)"
    and "(r, s') = record_command hs ctx env c key res t" and "8 \<le> length key" and "length key \<le> 128"
  using assms by (auto simp: execute_def split: if_splits option.splits sum.splits prod.splits)

end
