(* ===== verification/Review_Outcomes.thy ===== *)
theory Review_Outcomes
  imports Review_Transactions
begin

text \<open>
  Reviews over time: the transactions that change the tables are the steps of a relation, and the theorems
  speak of every state they can lead to.
\<close>

section \<open>Timeouts\<close>

lemma job_finish_core:
  "finish_timeout rt call now r s = Inr (r', s') \<Longrightarrow> r' = r \<and> (\<exists>jobs. s' = s\<lparr>rv_jobs := jobs\<rparr>)"
  by (auto simp: finish_timeout_def split: prod.splits option.splits)

lemma timeout_change_ok:
  assumes ok: "review_ok i" and st: "ri_status i = Reviewing" and t: "task_of i k = Some t" "tk_status t = TPending"
  shows "\<exists>i'. timeout_change uuid now k out i = Inr i' \<and> review_ok i' \<and> identity i' = identity i"
proof (cases out)
  case (HandOver u)
  obtain n where n: "current_node i = Some n" using review_ok_current [OF ok st] by auto
  let ?i' = "reassignTask i n (\<lambda>t. tk_id t = k) u ByTimeout None (uuid (length (ri_tasks i))) now"
  have f: "find (\<lambda>t. tk_id t = k) (ri_tasks i) = Some t" using t(1) by (simp add: task_of_def)
  have "same_frame i ?i'"
    using approvals_replace [OF f] t(2) by (simp add: reassignTask_def same_frame_def approvals_Cons replacement_task_def)
  then have "review_ok ?i'" by (rule stays_ok [OF ok]) (simp_all add: reassignTask_def)
  then show ?thesis using HandOver n by (simp add: timeout_change_def)
next
  case AskTakeover
  then show ?thesis using unblocked_ok [OF ok] by (simp add: timeout_change_def)
qed (use ok in \<open>simp add: timeout_change_def\<close>)

lemma timeout_ok:
  assumes db: "db_ok s" and ex: "executeReviewTimeout rt ctx env call s = Inr (r, s')"
  shows "db_ok s' \<and> grows s s' \<and> rv_commands s' = rv_commands s \<and> rv_confirmations s' = rv_confirmations s
    \<and> (\<forall>k row. rv_instances s k = Some row \<longrightarrow> ri_status (iw_instance row) \<noteq> Reviewing \<longrightarrow> rv_instances s' k = Some row)
    \<and> rv_timers s \<subseteq>\<^sub>m rv_timers s'
    \<and> (r = Skipped \<or> (\<exists>d. tc_due call = Some d \<and> rv_timers s' (tc_task call, d) = Some r))"
proof -
  obtain d where d: "tc_due call = Some d" using ex by (auto simp: executeReviewTimeout_def split: option.splits)
  have only_jobs: ?thesis if fin: "finish_timeout rt call (en_now env) x s = Inr (r, s')" and rec: "x = Skipped \<or> rv_timers s (tc_task call, d) = Some x" for x
  proof -
    obtain jobs where j: "r = x" "s' = s\<lparr>rv_jobs := jobs\<rparr>" using job_finish_core [OF fin] by blast
    have "same_core s s'" by (simp add: j(2) same_core_def)
    then show ?thesis using db_ok_core [OF db] core_grows rec d j by (auto simp: same_core_def)
  qed
  consider (old) x where "rv_timers s (tc_task call, d) = Some x" "finish_timeout rt call (en_now env) x s = Inr (r, s')"
    | (skip) "finish_timeout rt call (en_now env) Skipped s = Inr (r, s')"
    | (fire) row np where "rv_timers s (tc_task call, d) = None" "rv_instances s (tc_instance call) = Some row"
        "\<not> deadline_stale (normalizeTasks (iw_instance row)) (task_of (normalizeTasks (iw_instance row)) (tc_task call)) d (en_now env)"
        "fire_timeout rt ctx env call d row (the (task_of (normalizeTasks (iw_instance row)) (tc_task call))) np s = Inr (r, s')"
    using ex d by (auto simp: executeReviewTimeout_def Let_def split: if_splits option.splits)
  then show ?thesis
  proof cases
    case old
    then show ?thesis using only_jobs by blast
  next
    case skip
    then show ?thesis using only_jobs by blast
  next
    case fire
    define i where "i = normalizeTasks (iw_instance row)"
    obtain t where t: "task_of i (tc_task call) = Some t" "tk_status t = TPending" "ri_status i = Reviewing"
      using fire(3) unfolding i_def [symmetric] by (auto simp: deadline_stale_def split: option.splits)
    have tid: "tk_id t = tc_task call" using t(1) by (auto simp: task_of_def dest: find_SomeD)
    have old: "instance_ok s (tc_instance call) row" by (rule db_ok_row [OF db fire(2)])
    have ok: "review_ok i" using old normalize_ok by (simp add: i_def instance_ok_def Let_def)
    define out where "out = timeout_outcome_of ctx i (fst np) (snd np) t"
    obtain i1 where i1: "timeout_change (en_uuid env) (en_now env) (tc_task call) out i = Inr i1" "review_ok i1" "identity i1 = identity i"
      using timeout_change_ok [OF ok t(3,1,2)] by blast
    define i2 where "i2 = stamp_version (en_now env) i1"
    define rr where "rr = outcome_receipt out (ri_id i2) (ri_version i2)"
    obtain s1 where s1: "timeout_effects ctx env out d t i1 s = Inr s1"
      "finish_timeout rt call (en_now env) rr
         (s1\<lparr>rv_instances := (rv_instances s1)(tc_instance call \<mapsto> row\<lparr>iw_instance := i2\<rparr>),
             rv_events := rv_events s1 @ [\<lparr>ev_id = en_event_id env, ev_resource = ri_id i2, ev_actor = tc_actor call,
               ev_action = outcome_action out, ev_version = ri_version i2\<rparr>],
             rv_timers := (rv_timers s1)((tc_task call, d) \<mapsto> rr)\<rparr>) = Inr (r, s')"
      using fire(4) i1(1) t(1) tid
      by (auto simp: fire_timeout_def Let_def i_def [symmetric] out_def [symmetric] i2_def [symmetric] rr_def [symmetric]
          split: sum.splits review_error.splits)
    obtain jobs where j: "r = rr" "rv_instances s' = (rv_instances s1)(tc_instance call \<mapsto> row\<lparr>iw_instance := i2\<rparr>)"
      "rv_timers s' = (rv_timers s1)((tc_task call, d) \<mapsto> rr)" "rv_versions s' = rv_versions s1" "rv_participants s' = rv_participants s1"
      "rv_commands s' = rv_commands s1" "rv_confirmations s' = rv_confirmations s1"
      using job_finish_core [OF s1(2)] by auto
    note c = timeout_effects_core [OF s1(1), unfolded same_core_def]
    have g: "grows s s'" using c j by (simp add: grows_def)
    have ok2: "review_ok i2" unfolding i2_def by (rule stamp_ok [OF i1(2)])
    have "identity i = identity (iw_instance row)" by (simp add: i_def)
    then have "instance_ok s' (tc_instance call) (row\<lparr>iw_instance := i2\<rparr>)"
      using ok2 old i1(3) g c j by (auto simp: instance_ok_def Let_def identity_def i2_def stamp_version_def grows_def)
    then have "db_ok s'" using c j by (intro db_okI [OF db g]) (auto split: if_splits)
    moreover have "rv_timers s \<subseteq>\<^sub>m rv_timers s'" using fire(1) c j by (auto simp: map_le_def)
    moreover have "ri_status (iw_instance row) = Reviewing" using t(3) by (simp add: i_def normalizeTasks_def)
    ultimately show ?thesis using g c j d fire(2) by auto
  qed
qed

section \<open>Steps\<close>

inductive review_step :: "review_db \<Rightarrow> review_db \<Rightarrow> bool" where
  Save: "saveTemplate ctx env target new_id d n s = Inr (res, s') \<Longrightarrow> review_step s s'"
| Upload: "uploadAttachment hs ctx new_id content used s = Inr s' \<Longrightarrow> review_step s s'"
| Prepare: "prepare hs ctx env conf c s = Inr s' \<Longrightarrow> review_step s s'"
| Execute: "execute hs ctx env c conf key s = Inr (r, s') \<Longrightarrow> review_step s s'"
| Timeout: "executeReviewTimeout rt ctx env call s = Inr (tr, s') \<Longrightarrow> review_step s s'"
| Work: "review_step s (s\<lparr>rv_jobs := jobs\<rparr>)"  \<comment> \<open>other users of the job store\<close>

definition empty_db :: review_db where
  "empty_db = \<lparr>rv_templates = Map.empty, rv_lifecycle = Map.empty, rv_versions = Map.empty, rv_drafts = Map.empty,
     rv_instances = Map.empty, rv_participants = {}, rv_revisions = Map.empty, rv_attachments = Map.empty,
     rv_attachment_refs = {}, rv_notifications = [], rv_confirmations = Map.empty, rv_commands = Map.empty, rv_events = [],
     rv_timers = Map.empty, rv_jobs = \<lparr>db_jobs = [], db_outbox = []\<rparr>\<rparr>"

lemma execute_ok:
  assumes "db_ok s" and "execute hs ctx env c conf key s = Inr (r, s')"
  shows "db_ok s' \<and> grows s s'"
  using assms(2)
proof (cases rule: execute_cases)
  case (Fresh h res t)
  have b: "db_ok t \<and> grows s t" using body_effect [OF assms(1) Fresh(2,5)] by blast
  have "db_ok s'"
    by (rule db_okI [of t]) (use b Fresh(6) in \<open>auto simp: record_command_def Let_def grows_def instance_ok_def db_ok_def\<close>)
  moreover have "grows t s'" using Fresh(6) by (simp add: record_command_def Let_def grows_def)
  ultimately show ?thesis using b grows_trans by blast
qed (simp_all add: assms(1))

lemma closed_offers_nothing:
  "ri_status i \<in> {IApproved, IRejected, Withdrawn} \<Longrightarrow> review_actions resolve actor i = []"
proof -
  assume "ri_status i \<in> {IApproved, IRejected, Withdrawn}"
  then have "ri_status i \<noteq> Reviewing" "ri_status i \<noteq> Blocked" "ri_status i \<noteq> AwaitingAmendment" by auto
  then show ?thesis by (simp add: review_actions_def may_act_def split: option.split)
qed

lemma submit_result:
  assumes db: "db_ok s" and ex: "execute_submit ctx env sub s = Inr (res, s')"
  shows "fst res = en_instance_id env" and "rv_instances s (en_instance_id env) = None"
proof -
  let ?k = "en_instance_id env"
  obtain d where d: "rv_versions s (su_template sub, su_version sub) = Some d"
    using ex by (auto simp: execute_submit_def split: option.splits)
  obtain i where i: "submit_instance (reviewResolver ctx (map_of (su_choices sub))) (en_uuid env) ?k (su_template sub) (su_version sub) d
      (su_values sub) (rc_actor ctx) (en_now env) = Inr i" "identity i = (?k, rc_actor ctx, 1, d, su_template sub, su_version sub)"
    using submit_ok [OF published_graph [OF db d]] by blast
  let ?s1 = "s\<lparr>rv_instances := (rv_instances s)(?k \<mapsto> \<lparr>iw_instance = i, iw_choices = map_of (su_choices sub)\<rparr>)\<rparr>"
  have split: "execute_submit ctx env sub s = (if rv_instances s ?k \<noteq> None then Inl InstanceTaken else
      case delete_draft ctx (su_draft sub) ?s1 of Inl e \<Rightarrow> Inl e
      | Inr t \<Rightarrow> map_sum id (Pair (ri_id i, ri_version i)) (instance_effects ctx env True i t))"
    by (simp add: execute_submit_def d i(1))
  show "rv_instances s ?k = None" using ex unfolding split by (simp split: if_splits)
  have "res = (ri_id i, ri_version i)"
    using ex unfolding split
    by (cases "delete_draft ctx (su_draft sub) ?s1"; cases "rv_instances s ?k"; cases "instance_effects ctx env True i (projr (delete_draft ctx (su_draft sub) ?s1))") auto
  then show "fst res = ?k" using i(2) by (simp add: identity_def)
qed

lemma body_closed:
  assumes db: "db_ok s" and ck: "check_command hs ctx env s c = Inr ()" and ex: "execute_body ctx env c (consume k s) = Inr (res, s')"
    and row: "rv_instances s i = Some row" "ri_status (iw_instance row) \<in> {IApproved, IRejected, Withdrawn}"
  shows "rv_instances s' i = Some row"
proof (cases c)
  case (Submit sub)
  have o: "outcome ctx (consume k s) res s'" using submit_body [OF consume_ok [OF db]] ex Submit by simp
  have "fst res = en_instance_id env" "rv_instances s (en_instance_id env) = None"
    using submit_result [OF consume_ok [OF db], of ctx env sub k res s'] ex Submit by simp_all
  then show ?thesis using o row(1) by (auto simp: outcome_def)
next
  case (OnInstance iid v c1)
  then obtain r where r: "checked_instance hs ctx s iid v c1 = Inr r"
    using ck by (cases "checked_instance hs ctx s iid v c1") auto
  have o: "outcome ctx (consume k s) res s' \<and> res = (iid, v + 1)"
    using instance_body(2) [OF consume_ok [OF db]] r ex OnInstance by fastforce
  have "iid \<noteq> i"
  proof
    assume "iid = i"
    then have "r = row" using instance_rowD [OF checkedD(1) [OF r]] row(1) by simp
    then show False using checkedD(3) [OF r] closed_offers_nothing [of "normalizeTasks (iw_instance row)"] row(2)
      by (simp add: normalizeTasks_def)
  qed
  then show ?thesis using o row(1) by (auto simp: outcome_def)
next
  case (Publish t v)
  then show ?thesis using publish_body(5) [OF consume_ok [OF db], of ctx env s t v k res s'] ck ex row(1) by simp
next
  case (Enable t v l)
  then show ?thesis using lifecycle_body(5) [OF consume_ok [OF db], of True t l k res s'] ex row(1) by simp
next
  case (Disable t v l)
  then show ?thesis using lifecycle_body(5) [OF consume_ok [OF db], of False t l k res s'] ex row(1) by simp
qed

definition keeps :: "review_db \<Rightarrow> review_db \<Rightarrow> bool" where
  "keeps s s' \<longleftrightarrow> db_ok s' \<and> grows s s' \<and> rv_timers s \<subseteq>\<^sub>m rv_timers s' \<and> rv_commands s \<subseteq>\<^sub>m rv_commands s'
     \<and> (\<forall>k t. rv_confirmations s k = Some t \<longrightarrow> cf_consumed t \<longrightarrow> rv_confirmations s' k = Some t)
     \<and> (\<forall>k row. rv_instances s k = Some row \<longrightarrow> ri_status (iw_instance row) \<in> {IApproved, IRejected, Withdrawn} \<longrightarrow> rv_instances s' k = Some row)"

lemma frame_keeps:
  "db_ok s \<Longrightarrow> rv_versions s' = rv_versions s \<Longrightarrow> rv_instances s' = rv_instances s \<Longrightarrow> rv_participants s' = rv_participants s
    \<Longrightarrow> rv_timers s' = rv_timers s \<Longrightarrow> rv_commands s' = rv_commands s
    \<Longrightarrow> (\<And>k t. rv_confirmations s k = Some t \<Longrightarrow> cf_consumed t \<Longrightarrow> rv_confirmations s' k = Some t) \<Longrightarrow> keeps s s'"
  by (auto simp: keeps_def grows_def db_ok_def instance_ok_def)

lemma map_sum_Inr: "map_sum id f x = Inr y \<longleftrightarrow> (\<exists>z. x = Inr z \<and> y = f z)"
  by (cases x) auto

lemma body_timers: "execute_body ctx env c s = Inr (res, s') \<Longrightarrow> rv_timers s' = rv_timers s"
proof (cases c)
  case (Submit sub)
  assume "execute_body ctx env c s = Inr (res, s')"
  then have "execute_submit ctx env sub s = Inr (res, s')" using Submit by simp
  then show ?thesis
    by (auto simp: execute_submit_def map_sum_Inr frame_def same_core_def
        dest!: delete_draft_frame effects_frame(1) split: option.splits sum.splits if_splits)
next
  case (OnInstance i v c1)
  assume "execute_body ctx env c s = Inr (res, s')"
  then have "execute_instance ctx env i v c1 s = Inr (res, s')" using OnInstance by simp
  then show ?thesis
    by (auto simp: execute_instance_def Let_def map_sum_Inr frame_def dest!: effects_frame(1) split: option.splits sum.splits if_splits)
qed (auto simp: execute_lifecycle_def execute_publish_def Let_def split: option.splits if_splits)

lemma consume_keeps: "rv_confirmations s k = Some t \<Longrightarrow> cf_consumed t \<Longrightarrow> rv_confirmations (consume k' s) k = Some t"
  by (cases "k = k'") (auto simp: consume_def)

lemma execute_keeps:
  assumes db: "db_ok s" and ex: "execute hs ctx env c conf key s = Inr (r, s')"
  shows "keeps s s'"
  using ex
proof (cases rule: execute_cases)
  case Replay
  then show ?thesis using db by (auto simp: keeps_def)
next
  case (Fresh h res t)
  note b = body_effect [OF db Fresh(2,5)]
  have s': "rv_versions s' = rv_versions t" "rv_instances s' = rv_instances t" "rv_participants s' = rv_participants t"
    "rv_timers s' = rv_timers t" "rv_confirmations s' = rv_confirmations t"
    "rv_commands s' = (rv_commands t)((rc_actor ctx, key) \<mapsto> (hs_command hs c, r))"
    using Fresh(6) by (auto simp: record_command_def Let_def)
  have "rv_timers t = rv_timers s" using body_timers [OF Fresh(5)] by simp
  then have "rv_timers s \<subseteq>\<^sub>m rv_timers s'" using s' by (simp add: map_le_def)
  moreover have "rv_commands s \<subseteq>\<^sub>m rv_commands s'" using s' b Fresh(1) by (auto simp: map_le_def)
  moreover have "rv_confirmations s' k = Some x" if "rv_confirmations s k = Some x" "cf_consumed x" for k x
    using that s'(5) b consume_keeps by simp
  moreover have "rv_instances s' k = Some row"
    if "rv_instances s k = Some row" "ri_status (iw_instance row) \<in> {IApproved, IRejected, Withdrawn}" for k row
    using that s'(2) body_closed [OF db Fresh(2,5)] by simp
  moreover have "db_ok s'" "grows s s'" using execute_ok [OF db ex] by simp_all
  ultimately show ?thesis unfolding keeps_def by blast
qed

lemma step_keeps:
  assumes "review_step s s'" and "db_ok s"
  shows "keeps s s'"
  using assms
proof cases
  case (Save ctx env target new_id d n res)
  then have "rv_versions s' = rv_versions s \<and> rv_instances s' = rv_instances s \<and> rv_participants s' = rv_participants s
      \<and> rv_timers s' = rv_timers s \<and> rv_commands s' = rv_commands s \<and> rv_confirmations s' = rv_confirmations s"
    by (auto simp: saveTemplate_def Let_def split: if_splits option.splits)
  then show ?thesis using frame_keeps [OF assms(2)] by simp
next
  case (Upload hs ctx new_id content used)
  then show ?thesis by (intro frame_keeps [OF assms(2)]) (auto simp: uploadAttachment_def split: if_splits)
next
  case (Prepare hs ctx env conf c)
  then obtain h where "rv_confirmations s conf = None" "s' = s\<lparr>rv_confirmations := (rv_confirmations s)(conf \<mapsto>
      \<lparr>cf_actor = rc_actor ctx, cf_hash = h, cf_expires = en_now env + 5 * 60000, cf_consumed = False\<rparr>)\<rparr>"
    by (auto simp: prepare_def split: sum.splits if_splits)
  then show ?thesis by (intro frame_keeps [OF assms(2)]) auto
next
  case (Execute hs ctx env c conf key r)
  then show ?thesis using execute_keeps [OF assms(2)] by blast
next
  case (Timeout rt ctx env call tr)
  then show ?thesis using timeout_ok [OF assms(2)] by (fastforce simp: keeps_def)
next
  case (Work jobs)
  then show ?thesis by (intro frame_keeps [OF assms(2)]) auto
qed

lemma keepsD:
  assumes "keeps s s'"
  shows "db_ok s'" and "grows s s'" and "rv_timers s \<subseteq>\<^sub>m rv_timers s'" and "rv_commands s \<subseteq>\<^sub>m rv_commands s'"
    and "rv_confirmations s k = Some t \<Longrightarrow> cf_consumed t \<Longrightarrow> rv_confirmations s' k = Some t"
    and "rv_instances s k = Some row \<Longrightarrow> ri_status (iw_instance row) \<in> {IApproved, IRejected, Withdrawn} \<Longrightarrow> rv_instances s' k = Some row"
  using assms unfolding keeps_def by blast+

lemma keeps_chain:
  assumes "keeps s t" and "keeps t u"
  shows "keeps s u"
  unfolding keeps_def
proof (intro conjI allI impI)
  show "grows s u" by (rule grows_trans [OF keepsD(2) [OF assms(1)] keepsD(2) [OF assms(2)]])
  show "rv_timers s \<subseteq>\<^sub>m rv_timers u" by (rule map_le_trans [OF keepsD(3) [OF assms(1)] keepsD(3) [OF assms(2)]])
  show "rv_commands s \<subseteq>\<^sub>m rv_commands u" by (rule map_le_trans [OF keepsD(4) [OF assms(1)] keepsD(4) [OF assms(2)]])
qed (use keepsD [OF assms(2)] keepsD(5,6) [OF assms(1)] in blast)+

lemma steps_keep: "review_step\<^sup>*\<^sup>* s s' \<Longrightarrow> db_ok s \<Longrightarrow> keeps s s'"
proof (induction rule: rtranclp_induct)
  case base
  then show ?case by (auto simp: keeps_def)
next
  case (step y z)
  then have "keeps s y" by blast
  then show ?case using step_keeps [OF step.hyps(2) keepsD(1)] keeps_chain by blast
qed

lemma empty_ok: "db_ok empty_db"
  by (simp add: db_ok_def empty_db_def)

lemma reachable_ok: "review_step\<^sup>*\<^sup>* empty_db s \<Longrightarrow> db_ok s"
  by (rule keepsD(1) [OF steps_keep [OF _ empty_ok]])

lemma approval_proof:
  assumes "review_ok i" and "ri_status i = IApproved"
  shows "\<exists>t \<in> set (ri_tasks i). tk_status t = TApproved \<and> round_of (tk_round t) = round_of (ri_round i) \<and> tk_user t \<noteq> ri_requester i
    \<and> (\<exists>n \<in> set (rd_nodes (ri_definition i)). nd_id n = tk_node t \<and> nd_type n = ''review'')"
proof -
  obtain n where n: "current_node i = Some n" "nd_type n = ''end''" using assms by (auto simp: review_ok_def fits_def)
  have g: "graph_fine (ri_definition i)" and r: "reached i (ri_currentNode i)" and m: "matter_ok i"
    using assms(1) by (simp_all add: review_ok_def matter_ok_def)
  have "node_map (rd_nodes (ri_definition i)) (ri_currentNode i) = Some n"
    using n(1) node_at_map [of i] g by (simp add: current_node_def graph_fine_def)
  moreover obtain s where s: "starts (rd_nodes (ri_definition i)) = [s]" using g by (auto simp: graph_fine_def)
  moreover have "s' = s" if "s' \<in> set (rd_nodes (ri_definition i))" "nd_type s' = ''start''" for s'
  proof -
    have "s' \<in> set (starts (rd_nodes (ri_definition i)))" using that by (simp add: starts_def)
    then show ?thesis using s by simp
  qed
  ultimately have "approved_now i"
    using r no_free_end [OF g s] n(2) unfolding reached_def by metis
  then obtain t where t: "t \<in> set (ri_tasks i)" "tk_status t = TApproved" "round_of (tk_round t) = round_of (ri_round i)"
    by (auto simp: approved_now_def approvals_def task_key_def)
  then have "task_key t \<in> approvals (ri_tasks i)" by (auto simp: approvals_def)
  then have "fair_approval i (task_key t)" using m by (simp add: matter_ok_def)
  then show ?thesis using t by (auto simp: fair_approval_def task_key_def)
qed

end
