(* ===== verification/Review_Example.thy ===== *)
theory Review_Example
  imports Review_Outcomes
begin

text \<open>
  A small review carried through the transactions: an administrator saves and publishes a definition with
  one review node, \<open>u1\<close> submits, \<open>u2\<close> approves.  The theorems on reviews are applied to it.
\<close>

section \<open>The definition\<close>

definition sample_node :: "string \<Rightarrow> string \<Rightarrow> string option \<Rightarrow> node" where
  "sample_node i ty nxt =
    \<lparr>nd_id = i, nd_name = [65], nd_type = ty, nd_next = nxt, nd_otherwise = None, nd_condition = None,
     nd_assignee = (if ty = ''review'' then Some (Fixed (Named [''u2''])) else None), nd_operations = None,
     nd_mode = (if ty = ''review'' then Some ''single'' else None),
     nd_reject = (if ty = ''review'' then Some ''any_reject'' else None), nd_timeoutHours = None, nd_extra = []\<rparr>"

definition sample_doc :: definition_doc where
  "sample_doc =
    \<lparr>rd_schema = ''review.definition.v1'', rd_name = [65], rd_description = [], rd_fields = [],
     rd_nodes = [sample_node ''a'' ''start'' (Some ''r''), sample_node ''r'' ''review'' (Some ''z''), sample_node ''z'' ''end'' None],
     rd_subjectType = None, rd_organizationUnitId = None, rd_extra = []\<rparr>"

definition sample_ctx :: "string \<Rightarrow> review_context" where
  "sample_ctx actor =
    \<lparr>rc_tenant = ''c'', rc_actor = actor, rc_admin = True,
     rc_people = [\<lparr>pe_id = ''u1'', pe_name = [65], pe_managers = [''u2''], pe_roles = []\<rparr>,
                  \<lparr>pe_id = ''u2'', pe_name = [66], pe_managers = [], pe_roles = []\<rparr>]\<rparr>"

definition sample_env :: "string \<Rightarrow> review_env" where
  "sample_env tag =
    \<lparr>en_now = 1000, en_units = [], en_intake = True, en_uuid = (\<lambda>k. tag @ replicate k (CHR ''x'')), en_instance_id = ''i'' @ tag,
     en_receipt_id = ''q'' @ tag, en_event_id = ''e'' @ tag, en_job_id = (\<lambda>t. ''j'' @ t), en_outbox_id = (\<lambda>t. ''o'' @ t),
     en_jsonb_eq = (=)\<rparr>"

definition sample_hashes :: review_hashes where
  "sample_hashes = \<lparr>hs_command = review_action, hs_evidence = (\<lambda>c st ps. review_action c), hs_content = (\<lambda>x. x)\<rparr>"


lemma sample_nodes: "nodes_issues None fm [] 0 (rd_nodes sample_doc) = []"
  by (simp add: sample_doc_def sample_node_def node_issues_def Let_def idPattern_def id_start_def id_char_def unsafe_def issue_if_def text_blank_def text_trim_def js_space_def NODE_TYPES_def work_types_def mode_in_def assignee_issues_def users_ok_def)

lemma sample_graph: "graph_issues (rd_nodes sample_doc) = []"
  by (simp add: sample_doc_def sample_node_def graph_issues_def starts_def issue_if_def all_edge_issues_def node_ids_def js_uniq_def edge_issues_def Let_def node_map_def edges_def truthy_def visited_from_start_def targets_def noReview.simps)

lemma sample_valid: "validateDefinition sample_doc = []"
  using sample_nodes sample_graph
  by (simp add: validateDefinition_def issue_if_def text_blank_def text_trim_def js_space_def) (simp add: sample_doc_def issue_if_def js_space_def)

definition then_do :: "review_error + review_db \<Rightarrow> (review_db \<Rightarrow> review_error + review_db) \<Rightarrow> review_error + review_db" where
  "then_do r f = (case r of Inl e \<Rightarrow> Inl e | Inr s \<Rightarrow> f s)"

definition confirmed :: "string \<Rightarrow> string \<Rightarrow> review_command \<Rightarrow> review_db \<Rightarrow> review_error + review_db" where
  "confirmed actor tag c s =
    then_do (prepare sample_hashes (sample_ctx actor) (sample_env tag) (''k'' @ tag) c s)
      (\<lambda>s. map_sum id snd (execute sample_hashes (sample_ctx actor) (sample_env tag) c (''k'' @ tag) (''command-'' @ tag) s))"

definition sample_submission :: submission where
  "sample_submission = \<lparr>su_template = ''t'', su_version = 1, su_title = [65], su_values = [], su_choices = [], su_draft = None\<rparr>"

definition sample_run :: "review_error + review_db" where
  "sample_run =
    then_do (map_sum id snd (saveTemplate (sample_ctx ''u1'') (sample_env ''0'') None ''t'' sample_doc 100 empty_db))
      (\<lambda>s. then_do (confirmed ''u1'' ''1'' (Publish ''t'' 1) s)
      (\<lambda>s. then_do (confirmed ''u1'' ''2'' (Submit sample_submission) s)
      (\<lambda>s. confirmed ''u2'' ''3'' (OnInstance ''i2'' 1 (ApproveCmd ''ok'')) s)))"

definition status_of :: "string \<Rightarrow> review_error + review_db \<Rightarrow> instance_status option" where
  "status_of i r = (case r of Inl e \<Rightarrow> None | Inr s \<Rightarrow> map_option (\<lambda>row. ri_status (iw_instance row)) (rv_instances s i))"


lemma sample_configuration: "configurationIssues (sample_ctx ''u1'') [] sample_doc = []"
  by (simp add: configurationIssues_def sample_valid Let_def)
   (simp add: validatePublicationNames_def sample_doc_def sample_node_def issue_if_def default_name_def NEW_WORD_def NODE_WORD_def KIND_WORDS_def text_trim_def js_space_def
     checkOrganization_def work_types_def static_assignee_def assignee_resolves_def reviewResolver_def taskPolicy_def sample_ctx_def reviewCandidates_def known_person_def empty_choice_def node_policies_def Let_def)

definition saved_db :: review_db where
  "saved_db = empty_db\<lparr>rv_templates := [''t'' \<mapsto> \<lparr>tr_version = 1, tr_published = None, tr_definition = sample_doc\<rparr>],
     rv_events := [\<lparr>ev_id = ''e0'', ev_resource = ''t'', ev_actor = ''u1'', ev_action = ''draft.saved'', ev_version = 1\<rparr>]\<rparr>"

lemma sample_saved: "saveTemplate (sample_ctx ''u1'') (sample_env ''0'') None ''t'' sample_doc 100 empty_db = Inr ((''t'', 1), saved_db)"
  by (simp add: saveTemplate_def sample_ctx_def sample_env_def saved_db_def empty_db_def checkOrganization_def contract_ok_def Let_def) (simp add: sample_doc_def)

definition ready_db :: "review_db \<Rightarrow> bool" where
  "ready_db s \<longleftrightarrow> rv_templates s ''t'' = Some \<lparr>tr_version = 1, tr_published = Some 1, tr_definition = sample_doc\<rparr>
   \<and> rv_versions s = [(''t'', 1) \<mapsto> sample_doc] \<and> rv_lifecycle s = Map.empty \<and> rv_instances s = Map.empty \<and> rv_participants s = {} \<and> rv_confirmations s ''k2'' = None \<and> rv_confirmations s ''k3'' = None 
   \<and> rv_commands s (''u1'', ''command-2'') = None \<and> rv_commands s (''u2'', ''command-3'') = None \<and> rv_notifications s = [] \<and> rv_timers s = Map.empty \<and> rv_revisions s = Map.empty"

lemma sample_published: "\<exists>s. confirmed ''u1'' ''1'' (Publish ''t'' 1) saved_db = Inr s \<and> ready_db s"
  by (simp add: ready_db_def confirmed_def then_do_def prepare_def evidence_def check_publish_def template_state_def saved_db_def empty_db_def sample_hashes_def execute_def confirmation_valid_def consume_def execute_publish_def record_command_def Let_def sample_env_def sample_configuration cong: if_cong)
   (simp add: sample_ctx_def)

lemma sample_simps [simp]:
  "en_now (sample_env g) = 1000" "en_units (sample_env g) = []" "en_instance_id (sample_env g) = ''i'' @ g" "en_receipt_id (sample_env g) = ''q'' @ g"
  "en_event_id (sample_env g) = ''e'' @ g" "rc_actor (sample_ctx a) = a" "rc_admin (sample_ctx a) = True"
  "su_template sample_submission = ''t''" "su_version sample_submission = 1" "su_choices sample_submission = []" "su_values sample_submission = []" "su_draft sample_submission = None"
  "hs_command sample_hashes = review_action" "hs_evidence sample_hashes c st ps = review_action c"
  by (simp_all add: sample_env_def sample_ctx_def sample_submission_def sample_hashes_def)

lemma sample_people: "reviewCandidates (sample_ctx a) (Named [''u2'']) r = [''u2'']"
  by (simp add: reviewCandidates_def sample_ctx_def known_person_def)

definition sample_task :: "task_status \<Rightarrow> string option \<Rightarrow> int option \<Rightarrow> task" where
  "sample_task st reason decided =
    \<lparr>tk_id = ''2'', tk_round = 1, tk_source = Some ByDefault, tk_duty = Some ''review'', tk_replaced = None, tk_node = ''r'', tk_user = ''u2'',
     tk_status = st, tk_reason = reason, tk_decidedAt = decided, tk_dueAt = None\<rparr>"

definition sample_instance :: review_instance where
  "sample_instance =
    \<lparr>ri_id = ''i2'', ri_templateId = ''t'', ri_templateVersion = 1, ri_version = 1, ri_requester = ''u1'', ri_definition = sample_doc,
     ri_values = [], ri_currentNode = ''r'', ri_status = Reviewing, ri_round = 1, ri_amendment = None, ri_blocked = None,
     ri_tasks = [sample_task TPending None None], ri_updatedAt = 1000\<rparr>"

lemmas sample_engine_defs = newInstance_def submit_instance_def start_id_def advance_only_def advanceReview_def node_at_def enter_node_def enter_work_def
  entry_of_def new_tasks_def unqualified_def round_of_def deadline_def work_types_def Let_def block_with_def reviewResolver_def taskPolicy_def js_uniq_def

lemma sample_submit: "submit_instance (reviewResolver (sample_ctx ''u1'') (\<lambda>x. None)) (en_uuid (sample_env ''2'')) ''i2'' ''t'' 1 sample_doc [] ''u1'' 1000 = Inr sample_instance"
  by (simp add: sample_engine_defs sample_instance_def sample_task_def sample_doc_def sample_node_def sample_people sample_env_def)

lemma sample_trace: "\<exists>i. tracePath (reviewResolver (sample_ctx ''u1'') (\<lambda>x. None)) (en_uuid (sample_env ''2'')) 1000 sample_doc [] ''u1'' = Inr (i, [entry_of (sample_node ''a'' ''start'' (Some ''r'')), (entry_of (sample_node ''r'' ''review'' (Some ''z'')))\<lparr>ts_users := Some [''u2'']\<rparr>, entry_of (sample_node ''z'' ''end'' None)])"
  by (simp add: tracePath_def sample_engine_defs sample_doc_def sample_node_def sample_people sample_env_def current_node_def)

lemma sample_check_submit: "check_submit sample_hashes (sample_ctx ''u1'') (sample_env ''2'') s sample_submission = Inr ()"
  if "rv_templates s ''t'' = Some \<lparr>tr_version = 1, tr_published = Some 1, tr_definition = sample_doc\<rparr>" "rv_lifecycle s = Map.empty" "rv_versions s = [(''t'', 1) \<mapsto> sample_doc]"
proof -
  have "check_path (sample_ctx ''u1'') (sample_env ''2'') sample_doc sample_submission = Inr ()"
    using sample_submit sample_trace by (auto simp: check_path_def sample_submission_def sample_env_def sample_ctx_def unselected_step_def entry_of_def Let_def sample_instance_def)
  moreover have "check_form sample_hashes (sample_ctx ''u1'') s sample_doc sample_submission = Inr ()"
    by (simp add: check_form_def sample_submission_def sample_doc_def validateValues_def attachments_error_def attachment_ids_def first_error_def title_bad_def text_blank_def text_trim_def js_space_def js_uniq_def)
  ultimately show ?thesis using that
    by (simp add: check_submit_def template_state_def sample_env_def draft_stale_def) (simp add: sample_submission_def sample_env_def checkChoices_def)
qed

definition submitted :: "review_db \<Rightarrow> bool" where
  "submitted s \<longleftrightarrow> rv_instances s = [''i2'' \<mapsto> \<lparr>iw_instance = sample_instance, iw_choices = (\<lambda>x. None)\<rparr>]
     \<and> (''i2'', ''u2'') \<in> rv_participants s \<and> rv_confirmations s ''k3'' = None \<and> rv_commands s (''u2'', ''command-3'') = None
     \<and> rv_revisions s (''i2'', 1) = Some [] \<and> rv_notifications s = [(''i2'', ''u2'', ''task:2'')]"

lemma sample_normal: "normalizeTasks sample_instance = sample_instance"
  by (simp add: normalizeTasks_def sample_instance_def sample_task_def round_of_def)

lemma sample_sync: "rv_notifications s = [] \<Longrightarrow> syncEffects (sample_ctx a) (sample_env g) sample_instance s = Inr (s\<lparr>rv_notifications := [(''i2'', ''u2'', ''task:2'')]\<rparr>)"
  unfolding syncEffects_def sample_normal
  by (simp add: sample_instance_def sample_task_def currentTasks_def current_tasks_pred_def round_of_def task_effect_def notify_def Let_def)

lemma sample_fields [simp]: "ri_id sample_instance = ''i2''" "ri_version sample_instance = 1" "ri_round sample_instance = 1" "ri_values sample_instance = []"
  "tk_user ` set (ri_tasks sample_instance) = {''u2''}" "ri_requester sample_instance = ''u1''" "ri_definition sample_instance = sample_doc"
  by (simp_all add: sample_instance_def sample_task_def)

lemma sample_submitted: assumes "ready_db s" shows "\<exists>s'. confirmed ''u1'' ''2'' (Submit sample_submission) s = Inr s' \<and> submitted s'"
  using assms sample_submit sample_sync [of _ "''u1''" "''2''"]
  by (simp add: ready_db_def confirmed_def then_do_def prepare_def evidence_def template_state_def sample_check_submit execute_def confirmation_valid_def consume_def execute_submit_def
     instance_effects_def delete_draft_def record_command_def submitted_def record_people_def put_revision_def round_of_def Let_def attachment_ids_def)


definition approved_instance :: review_instance where
  "approved_instance = sample_instance\<lparr>ri_status := IApproved, ri_currentNode := ''z'', ri_tasks := [sample_task TApproved (Some ''ok'') (Some 1000)]\<rparr>"

lemma sample_check: "check_instance (sample_ctx ''u2'') (\<lambda>x. None) att 1 (ApproveCmd ''ok'') sample_instance = Inr ()"
  by (simp add: check_instance_def review_actions_def current_node_def node_at_def sample_instance_def sample_doc_def sample_node_def currentTasks_def
    current_tasks_pred_def sample_task_def round_of_def may_act_def node_actions_def reviewResolver_def taskPolicy_def sample_people bad_reason_def REASON_REQUIRED_def)

lemma sample_decide: "apply_command (reviewResolver (sample_ctx ''u2'') (\<lambda>x. None)) uuid 1000 ''u2'' (ApproveCmd ''ok'') sample_instance = Inr approved_instance"
  by (simp add: apply_command_def decideReview_def sample_instance_def approved_instance_def sample_doc_def sample_node_def current_node_def sample_engine_defs own_pending_def
    current_tasks_pred_def sample_task_def sample_people active_def settle_node_def cancel_open_def open_status_def)

lemma approved_fields [simp]: "ri_id approved_instance = ''i2''" "ri_version approved_instance = 1" "ri_round approved_instance = 1" "ri_values approved_instance = []"
  "tk_user ` set (ri_tasks approved_instance) = {''u2''}" "ri_requester approved_instance = ''u1''" "ri_definition approved_instance = sample_doc" "ri_status approved_instance = IApproved"
  by (simp_all add: approved_instance_def sample_task_def)

lemma notify_shape: "notify n s = s\<lparr>rv_notifications := rv_notifications (notify n s)\<rparr>"
  by (simp add: notify_def)

lemma approved_sync: "\<exists>ns. syncEffects (sample_ctx a) (sample_env g) (stamp_version 1000 approved_instance) s = Inr (s\<lparr>rv_notifications := ns\<rparr>)"
proof -
  have n: "normalizeTasks (stamp_version 1000 approved_instance) = stamp_version 1000 approved_instance"
    by (simp add: normalizeTasks_def approved_instance_def sample_instance_def sample_task_def round_of_def stamp_version_def)
  have "syncEffects (sample_ctx a) (sample_env g) (stamp_version 1000 approved_instance) s = Inr (notify (''i2'', ''u1'', ''state:'' @ show_nat 2) s)"
    unfolding syncEffects_def n
    by (simp add: approved_instance_def sample_instance_def sample_task_def stamp_version_def Let_def)
  then show ?thesis by (subst (asm) notify_shape) blast
qed

lemma sample_approved: assumes "submitted s"
  shows "\<exists>s'. confirmed ''u2'' ''3'' (OnInstance ''i2'' 1 (ApproveCmd ''ok'')) s = Inr s' \<and> rv_instances s' ''i2'' = Some \<lparr>iw_instance = stamp_version 1000 approved_instance, iw_choices = (\<lambda>x. None)\<rparr>"
proof -
  have sy: "\<exists>ns. syncEffects (sample_ctx ''u2'') (sample_env ''3'') (stamp_version 1000 approved_instance) s = Inr (s\<lparr>rv_notifications := ns\<rparr>)" for s by (rule approved_sync)
  obtain f where f: "\<And>s. syncEffects (sample_ctx ''u2'') (sample_env ''3'') (stamp_version 1000 approved_instance) s = Inr (s\<lparr>rv_notifications := f s\<rparr>)" using sy by metis
  have st: "ri_id (stamp_version 1000 approved_instance) = ''i2''" "ri_version (stamp_version 1000 approved_instance) = 2" by (simp_all add: stamp_version_def)
  show ?thesis using assms
    by (simp add: submitted_def confirmed_def then_do_def prepare_def evidence_def checked_instance_def instance_row_def sample_normal sample_check execute_def confirmation_valid_def consume_def execute_instance_def
      sample_decide f st instance_effects_def record_command_def record_people_def put_revision_def Let_def)
qed

section \<open>The run\<close>

lemma confirmedD:
  assumes "confirmed a g c s = Inr s'"
  obtains t r where "prepare sample_hashes (sample_ctx a) (sample_env g) (''k'' @ g) c s = Inr t"
    and "execute sample_hashes (sample_ctx a) (sample_env g) c (''k'' @ g) (''command-'' @ g) t = Inr (r, s')"
  using assms by (auto simp: confirmed_def then_do_def map_sum_Inr split: sum.splits)

lemma confirmed_steps: "confirmed a g c s = Inr s' \<Longrightarrow> review_step\<^sup>*\<^sup>* s s'"
  by (erule confirmedD) (meson Prepare Execute converse_rtranclp_into_rtranclp r_into_rtranclp)

lemma sample_run:
  obtains s s1 s2 where "review_step\<^sup>*\<^sup>* empty_db s" and "ready_db s" and "review_step\<^sup>*\<^sup>* empty_db s1" and "submitted s1"
    and "confirmed ''u1'' ''2'' (Submit sample_submission) s = Inr s1" and "confirmed ''u2'' ''3'' (OnInstance ''i2'' 1 (ApproveCmd ''ok'')) s1 = Inr s2"
    and "review_step\<^sup>*\<^sup>* empty_db s2" and "rv_instances s2 ''i2'' = Some \<lparr>iw_instance = stamp_version 1000 approved_instance, iw_choices = (\<lambda>x. None)\<rparr>"
proof -
  obtain s where s: "confirmed ''u1'' ''1'' (Publish ''t'' 1) saved_db = Inr s" "ready_db s" using sample_published by blast
  obtain s1 where s1: "confirmed ''u1'' ''2'' (Submit sample_submission) s = Inr s1" "submitted s1" using sample_submitted [OF s(2)] by blast
  obtain s2 where s2: "confirmed ''u2'' ''3'' (OnInstance ''i2'' 1 (ApproveCmd ''ok'')) s1 = Inr s2"
    "rv_instances s2 ''i2'' = Some \<lparr>iw_instance = stamp_version 1000 approved_instance, iw_choices = (\<lambda>x. None)\<rparr>" using sample_approved [OF s1(2)] by blast
  have "review_step\<^sup>*\<^sup>* empty_db saved_db" using Save [OF sample_saved] by blast
  then have r: "review_step\<^sup>*\<^sup>* empty_db s" using confirmed_steps [OF s(1)] by (rule rtranclp_trans)
  then have r1: "review_step\<^sup>*\<^sup>* empty_db s1" using confirmed_steps [OF s1(1)] by (rule rtranclp_trans)
  then have r2: "review_step\<^sup>*\<^sup>* empty_db s2" using confirmed_steps [OF s2(1)] by (rule rtranclp_trans)
  show ?thesis by (rule that [OF r s(2) r1 s1(2) s1(1) s2(1) r2 s2(2)])
qed

lemma sample_end:
  obtains s row where "review_step\<^sup>*\<^sup>* empty_db s" and "rv_instances s ''i2'' = Some row" and "ri_status (iw_instance row) = IApproved"
    and "ri_requester (iw_instance row) = ''u1''"
proof -
  obtain s where "review_step\<^sup>*\<^sup>* empty_db s"
    "rv_instances s ''i2'' = Some \<lparr>iw_instance = stamp_version 1000 approved_instance, iw_choices = (\<lambda>x. None)\<rparr>"
    using sample_run by blast
  then show ?thesis by (rule that) (simp_all add: stamp_version_def)
qed

end
