(* ===== verification/Review_Machine.thy ===== *)
theory Review_Machine
  imports Review_Outcomes Machines
begin

text \<open>
  The contracts the review service provides, as interpretations of the locales of \<open>Machines\<close> on the handler
  of its transactions.
\<close>

datatype review_request =
    SaveRq review_context review_env "(string \<times> int) option" string definition_doc nat
  | UploadRq review_context string string nat
  | PrepareRq review_context review_env string review_command
  | ExecuteRq review_context review_env review_command string string
  | TimeoutRq review_context review_env timeout_call
  | JobsRq job_db

datatype review_answer = Saved "string \<times> int" | Done | Executed receipt | Fired timer_receipt

datatype review_failure = ReviewFailed review_error | TimeoutFailed timeout_error | UploadFailed nat

fun review_handler :: "review_hashes \<Rightarrow> (timer_receipt \<Rightarrow> string) \<Rightarrow> (review_db, review_request, review_failure, review_answer) handler" where
  "review_handler hs rt s (SaveRq ctx env target new_id d n) = map_sum ReviewFailed (map_prod Saved id) (saveTemplate ctx env target new_id d n s)"
| "review_handler hs rt s (UploadRq ctx new_id content used) = map_sum UploadFailed (Pair Done) (uploadAttachment hs ctx new_id content used s)"
| "review_handler hs rt s (PrepareRq ctx env conf c) = map_sum ReviewFailed (Pair Done) (prepare hs ctx env conf c s)"
| "review_handler hs rt s (ExecuteRq ctx env c conf key) = map_sum ReviewFailed (map_prod Executed id) (execute hs ctx env c conf key s)"
| "review_handler hs rt s (TimeoutRq ctx env call) = map_sum TimeoutFailed (map_prod Fired id) (executeReviewTimeout rt ctx env call s)"
| "review_handler hs rt s (JobsRq jobs) = Inr (Done, s\<lparr>rv_jobs := jobs\<rparr>)"

lemma map_sum_InrE:
  assumes "map_sum f g x = Inr y"
  obtains z where "x = Inr z" and "y = g z"
  using assms by (cases x) auto

lemma handler_step: "review_handler hs rt s c = Inr (r, s') \<Longrightarrow> review_step s s'"
  by (cases c) (auto elim!: map_sum_InrE intro: review_step.intros)

text \<open>The rows of closed reviews, the receipts of deadlines and the receipts of commands stay recorded.\<close>

definition closed_row :: "review_db \<Rightarrow> string \<Rightarrow> instance_row option" where
  "closed_row s k =
    (case rv_instances s k of
       None \<Rightarrow> None
     | Some row \<Rightarrow> if ri_status (iw_instance row) \<in> {IApproved, IRejected, Withdrawn} then Some row else None)"

definition command_receipt :: "review_db \<Rightarrow> string \<times> string \<Rightarrow> receipt option" where
  "command_receipt s k = map_option snd (rv_commands s k)"

fun request_key :: "review_request \<Rightarrow> (string \<times> string) option" where
  "request_key (ExecuteRq ctx env c conf key) = Some (rc_actor ctx, key)"
| "request_key rq = None"

fun answered_receipt :: "review_answer \<Rightarrow> receipt" where
  "answered_receipt (Executed r) = r"
| "answered_receipt _ = undefined"

interpretation rvg: guarded_machine "review_handler hs rt" db_ok for hs rt
  by unfold_locales (rule keepsD(1) [OF step_keeps [OF handler_step]])

interpretation rvc: ledger_machine "review_handler hs rt" db_ok closed_row for hs rt
proof
  fix s c r s' k v
  assume db: "db_ok s" and h: "review_handler hs rt s c = Inr (r, s')" and v: "closed_row s k = Some v"
  have "rv_instances s k = Some v" "ri_status (iw_instance v) \<in> {IApproved, IRejected, Withdrawn}"
    using v by (auto simp: closed_row_def split: option.splits if_splits)
  then have "rv_instances s' k = Some v" by (rule keepsD(6) [OF step_keeps [OF handler_step [OF h] db]])
  then show "closed_row s' k = Some v" using v by (auto simp: closed_row_def split: option.splits if_splits)
qed

interpretation rvd: ledger_machine "review_handler hs rt" db_ok rv_timers for hs rt
proof
  fix s c r s' k v
  assume "db_ok s" and "review_handler hs rt s c = Inr (r, s')" and "rv_timers s k = Some v"
  then show "rv_timers s' k = Some v" using keepsD(3) [OF step_keeps [OF handler_step]] by (metis domI map_le_def)
qed

lemma execute_receipt: "execute hs ctx env c conf key s = Inr (r, s') \<Longrightarrow> command_receipt s' (rc_actor ctx, key) = Some r"
  by (erule execute_cases) (auto simp: command_receipt_def record_command_def Let_def)

lemma execute_recorded:
  "execute hs ctx env c conf key s = Inr (r, s') \<Longrightarrow> command_receipt s (rc_actor ctx, key) = Some v \<Longrightarrow> s' = s \<and> r = v"
  by (erule execute_cases) (auto simp: command_receipt_def)

interpretation rve: idempotent_machine "review_handler hs rt" db_ok command_receipt request_key answered_receipt for hs rt
proof
  fix s c r s' k v
  assume "db_ok s" and "review_handler hs rt s c = Inr (r, s')" and "command_receipt s k = Some v"
  then show "command_receipt s' k = Some v"
    using keepsD(4) [OF step_keeps [OF handler_step]] by (auto simp: command_receipt_def) (metis domI map_le_def)
next
  fix s c r s' k
  assume "db_ok s" and "review_handler hs rt s c = Inr (r, s')" and "request_key c = Some k"
  then show "command_receipt s' k = Some (answered_receipt r)"
    by (cases c) (auto elim!: map_sum_InrE dest: execute_receipt)
next
  fix s c k v r s'
  assume "db_ok s" and "request_key c = Some k" and "command_receipt s k = Some v" and "review_handler hs rt s c = Inr (r, s')"
  then show "s' = s \<and> answered_receipt r = v"
    by (cases c) (auto elim!: map_sum_InrE dest: execute_recorded)
qed

text \<open>Every step of the relation is served by a handler with some hashes.\<close>

lemma step_handler: "review_step s s' \<Longrightarrow> \<exists>hs rt c r. review_handler hs rt s c = Inr (r, s')"
proof (induction rule: review_step.induct)
  case (Save ctx env target new_id d n s res s')
  then have "review_handler undefined undefined s (SaveRq ctx env target new_id d n) = Inr (Saved res, s')" by simp
  then show ?case by blast
next
  case (Upload hs ctx new_id content used s s')
  then have "review_handler hs undefined s (UploadRq ctx new_id content used) = Inr (Done, s')" by simp
  then show ?case by blast
next
  case (Prepare hs ctx env conf c s s')
  then have "review_handler hs undefined s (PrepareRq ctx env conf c) = Inr (Done, s')" by simp
  then show ?case by blast
next
  case (Execute hs ctx env c conf key s r s')
  then have "review_handler hs undefined s (ExecuteRq ctx env c conf key) = Inr (Executed r, s')" by simp
  then show ?case by blast
next
  case (Timeout rt ctx env call s tr s')
  then have "review_handler undefined rt s (TimeoutRq ctx env call) = Inr (Fired tr, s')" by simp
  then show ?case by blast
next
  case (Work s jobs)
  have "review_handler undefined undefined s (JobsRq jobs) = Inr (Done, s\<lparr>rv_jobs := jobs\<rparr>)" by simp
  then show ?case by blast
qed

lemma closed_rows_stay: "review_step\<^sup>*\<^sup>* s s' \<Longrightarrow> db_ok s \<Longrightarrow> db_ok s' \<and> (closed_row s k = Some v \<longrightarrow> closed_row s' k = Some v)"
proof (induction rule: rtranclp_induct)
  case (step y z)
  obtain hs rt c r where h: "review_handler hs rt y c = Inr (r, z)" using step_handler [OF step.hyps(2)] by blast
  then show ?case using step.IH [OF step.prems] rvg.preserved [OF _ h] rvc.recorded [OF _ h] by blast
qed simp

end
