(* ===== verification/Review_Guarantees.thy ===== *)
theory Review_Guarantees
  imports Review_Example Review_Machine
begin

text \<open>
  What the review service guarantees, as theorems about every state its transactions can reach, and the
  example run at which they are applied.
\<close>

section \<open>Advancing\<close>

text \<open>
  C3. On a definition the validator accepts, advancing from any of its nodes ends within the bound of the
  loop, whatever the form values and whoever resolves as reviewer, and it ends settled: at an end node when
  it reports approval, at a review, consult or handler node when it reports a running review, and at a
  condition or work node when it reports a block.
\<close>

theorem advancing_valid_definition_ends:
  assumes "validateDefinition (ri_definition i) = []" and "t \<in> nd_id ` set (rd_nodes (ri_definition i))"
  shows "\<exists>i' trace n. advanceReview resolve uuid now i (Some t) = Inr (i', trace) \<and> current_node i' = Some n
    \<and> (ri_status i' = IApproved \<and> nd_type n = ''end''
       \<or> ri_status i' = Reviewing \<and> nd_type n \<in> {''review'', ''consult'', ''handler''}
       \<or> ri_status i' = Blocked \<and> nd_type n \<in> insert ''condition'' (set work_types))"
proof -
  have g: "graph_fine (ri_definition i)" by (rule valid_graph [OF assms(1)])
  obtain n where n: "n \<in> set (rd_nodes (ri_definition i))" "nd_id n = t" using assms(2) by auto
  have "distinct (map nd_id (rd_nodes (ri_definition i)))" using g by (simp add: graph_fine_def)
  then have "node_at i (Some t) = Some n" using n node_map_in node_at_map by metis
  then obtain i' tr where "advanceReview resolve uuid now i (Some t) = Inr (i', tr)" "settled_at i'"
    by (rule advance_total [OF g])
  then show ?thesis unfolding settled_at_def by blast
qed

theorem advancing_valid_definition_ends_witness:
  "\<exists>i' trace n. advanceReview (\<lambda>n r t. [''u2'']) (\<lambda>k. ''x'') 0 sample_instance (Some ''a'') = Inr (i', trace) \<and> current_node i' = Some n
    \<and> (ri_status i' = IApproved \<and> nd_type n = ''end''
       \<or> ri_status i' = Reviewing \<and> nd_type n \<in> {''review'', ''consult'', ''handler''}
       \<or> ri_status i' = Blocked \<and> nd_type n \<in> insert ''condition'' (set work_types))"
  by (rule advancing_valid_definition_ends) (simp_all add: sample_valid, simp add: sample_doc_def sample_node_def)

section \<open>Nothing is deleted\<close>

definition dom_grows :: "review_db \<Rightarrow> review_db \<Rightarrow> bool" where
  "dom_grows s s' \<longleftrightarrow> dom (rv_instances s) \<subseteq> dom (rv_instances s') \<and> dom (rv_templates s) \<subseteq> dom (rv_templates s')"

lemma dom_grows_trans: "dom_grows s t \<Longrightarrow> dom_grows t u \<Longrightarrow> dom_grows s u"
  unfolding dom_grows_def by (elim conjE) (intro conjI; erule (1) subset_trans)

lemma body_dom: "execute_body ctx env c s = Inr (res, s') \<Longrightarrow> dom_grows s s'"
proof (cases c)
  case (Submit sub)
  assume "execute_body ctx env c s = Inr (res, s')"
  then have "execute_submit ctx env sub s = Inr (res, s')" using Submit by simp
  then show ?thesis
    by (auto simp: execute_submit_def map_sum_Inr frame_def same_core_def dom_grows_def
        dest!: delete_draft_frame effects_frame(1) split: option.splits sum.splits if_splits)
next
  case (OnInstance i v c1)
  assume "execute_body ctx env c s = Inr (res, s')"
  then have "execute_instance ctx env i v c1 s = Inr (res, s')" using OnInstance by simp
  then show ?thesis
    by (auto simp: execute_instance_def Let_def map_sum_Inr frame_def dom_grows_def dest!: effects_frame(1) split: option.splits sum.splits if_splits)
qed (auto simp: execute_lifecycle_def execute_publish_def dom_grows_def Let_def split: option.splits if_splits)

lemma execute_dom: "execute hs ctx env c conf key s = Inr (r, s') \<Longrightarrow> dom_grows s s'"
proof (erule execute_cases)
  fix h res t
  assume "execute_body ctx env c (consume conf s) = Inr (res, t)" and "(r, s') = record_command hs ctx env c key res t"
  then show ?thesis using body_dom [of ctx env c "consume conf s" res t] by (simp add: dom_grows_def record_command_def Let_def)
qed (simp add: dom_grows_def)

lemma fire_dom: "fire_timeout rt ctx env call d row t np s = Inr (r, s') \<Longrightarrow> dom_grows s s' \<and> rv_timers s' = (rv_timers s)((tc_task call, d) \<mapsto> r)"
  by (auto simp: fire_timeout_def Let_def dom_grows_def same_core_def dest!: timeout_effects_core job_finish_core
      split: sum.splits review_error.splits)

lemma timeout_cases:
  assumes "executeReviewTimeout rt ctx env call s = Inr (r, s')"
  obtains (Jobs) d jobs where "tc_due call = Some d" and "s' = s\<lparr>rv_jobs := jobs\<rparr>" and "r = Skipped \<or> rv_timers s (tc_task call, d) = Some r"
    and "rv_timers s (tc_task call, d) \<noteq> None \<Longrightarrow> rv_timers s (tc_task call, d) = Some r"
  | (Fire) d row t np where "tc_due call = Some d" and "rv_timers s (tc_task call, d) = None" and "fire_timeout rt ctx env call d row t np s = Inr (r, s')"
proof -
  obtain d where d: "tc_due call = Some d" using assms by (auto simp: executeReviewTimeout_def split: option.splits)
  consider (old) x where "rv_timers s (tc_task call, d) = Some x" "finish_timeout rt call (en_now env) x s = Inr (r, s')"
    | (skip) "rv_timers s (tc_task call, d) = None" "finish_timeout rt call (en_now env) Skipped s = Inr (r, s')"
    | (fire) row t np where "rv_timers s (tc_task call, d) = None" "fire_timeout rt ctx env call d row t np s = Inr (r, s')"
    using assms d by (auto simp: executeReviewTimeout_def Let_def split: if_splits option.splits)
  then show ?thesis
  proof cases
    case old
    then show ?thesis using Jobs d job_finish_core by blast
  next
    case skip
    then show ?thesis using Jobs [OF d] job_finish_core [OF skip(2)] by auto
  next
    case fire
    then show ?thesis using Fire d by blast
  qed
qed

lemma timeout_dom: "executeReviewTimeout rt ctx env call s = Inr (r, s') \<Longrightarrow> dom_grows s s' \<and> rv_timers s \<subseteq>\<^sub>m rv_timers s'"
proof (erule timeout_cases)
  fix d row t np assume "rv_timers s (tc_task call, d) = None" "fire_timeout rt ctx env call d row t np s = Inr (r, s')"
  then show ?thesis using fire_dom by (fastforce simp: map_le_def)
qed (simp add: dom_grows_def)

lemma step_dom: "review_step s s' \<Longrightarrow> dom_grows s s' \<and> rv_timers s \<subseteq>\<^sub>m rv_timers s'"
proof (induction rule: review_step.induct)
  case (Save ctx env target new_id d n s res s')
  then show ?case by (auto simp: saveTemplate_def dom_grows_def Let_def split: if_splits option.splits)
next
  case (Upload hs ctx new_id content used s s')
  then show ?case by (auto simp: uploadAttachment_def dom_grows_def split: if_splits)
next
  case (Prepare hs ctx env conf c s s')
  then show ?case by (auto simp: prepare_def dom_grows_def split: sum.splits if_splits)
next
  case (Execute hs ctx env c conf key s r s')
  have "rv_timers s' = rv_timers s"
    using Execute
  proof (cases rule: execute_cases)
    case (Fresh h res t)
    then show ?thesis using body_timers [OF Fresh(5)] by (simp add: record_command_def Let_def)
  qed simp
  then show ?case using execute_dom [OF Execute] by simp
next
  case (Timeout rt ctx env call s tr s')
  then show ?case by (rule timeout_dom)
next
  case (Work s jobs)
  then show ?case by (simp add: dom_grows_def)
qed

lemma steps_dom: "review_step\<^sup>*\<^sup>* s s' \<Longrightarrow> dom_grows s s' \<and> rv_timers s \<subseteq>\<^sub>m rv_timers s'"
proof (induction rule: rtranclp_induct)
  case base
  then show ?case by (simp add: dom_grows_def)
next
  case (step y z)
  then show ?case using step_dom [OF step.hyps(2)] dom_grows_trans map_le_trans by blast
qed

section \<open>All reachable states\<close>

lemma execute_throws: "db_ok s \<Longrightarrow> execute hs ctx env c conf key s \<noteq> Inl (EngineThrew e)"
  using check_throws [of s hs ctx env c e] body_throws [of s hs ctx env c conf e]
  by (auto simp: execute_def replay_allowed_def evidence_def Let_def split: if_splits option.splits sum.splits review_command.splits)

text \<open>
  C2. In every reachable state of the review tables, preparing and executing a command never end in an
  exception of the review engine (a missing node, a loop that does not converge, a missing task): a command
  is refused for a stated reason or it has a result.
\<close>

theorem transactions_never_throw:
  assumes "review_step\<^sup>*\<^sup>* empty_db s"
  shows "execute hs ctx env c conf key s \<noteq> Inl (EngineThrew e) \<and> prepare hs ctx env conf c s \<noteq> Inl (EngineThrew e)"
  using execute_throws [OF reachable_ok [OF assms]] check_throws [OF reachable_ok [OF assms], of hs ctx env c e]
  by (auto simp: prepare_def evidence_def split: sum.splits option.splits if_splits)

theorem transactions_never_throw_witness:
  "\<exists>s. rv_instances s ''i2'' \<noteq> None \<and>
    (\<forall>e. execute sample_hashes (sample_ctx ''u2'') (sample_env ''4'') (OnInstance ''i2'' 1 (ApproveCmd ''ok'')) ''k4'' ''command-4'' s \<noteq> Inl (EngineThrew e)
     \<and> prepare sample_hashes (sample_ctx ''u2'') (sample_env ''4'') ''k4'' (OnInstance ''i2'' 1 (ApproveCmd ''ok'')) s \<noteq> Inl (EngineThrew e))"
proof -
  obtain s where s: "review_step\<^sup>*\<^sup>* empty_db s" "submitted s" using sample_run by blast
  then show ?thesis using transactions_never_throw [OF s(1)] by (intro exI [of _ s]) (simp add: submitted_def)
qed

text \<open>
  C1. No review is approved by its requester or without a decision: in every reachable state, an approved
  instance has a task that somebody other than the requester approved in the round the instance is in, at a
  review node of its definition; and that definition is the published, validated version the instance was
  submitted under.
\<close>

theorem approved_by_another_person:
  assumes "review_step\<^sup>*\<^sup>* empty_db s" and "rv_instances s k = Some row" and "ri_status (iw_instance row) = IApproved"
  shows "(\<exists>t \<in> set (ri_tasks (iw_instance row)). tk_status t = TApproved \<and> tk_user t \<noteq> ri_requester (iw_instance row)
      \<and> round_of (tk_round t) = round_of (ri_round (iw_instance row))
      \<and> (\<exists>n \<in> set (rd_nodes (ri_definition (iw_instance row))). nd_id n = tk_node t \<and> nd_type n = ''review''))
    \<and> rv_versions s (ri_templateId (iw_instance row), ri_templateVersion (iw_instance row)) = Some (ri_definition (iw_instance row))
    \<and> validateDefinition (ri_definition (iw_instance row)) = []"
proof -
  have db: "db_ok s" by (rule reachable_ok [OF assms(1)])
  have ok: "review_ok (iw_instance row)"
    and v: "rv_versions s (ri_templateId (iw_instance row), ri_templateVersion (iw_instance row)) = Some (ri_definition (iw_instance row))"
    using db_ok_row [OF db assms(2)] by (simp_all add: instance_ok_def Let_def)
  show ?thesis using approval_proof [OF ok assms(3)] v db unfolding db_ok_def by blast
qed

theorem approved_by_another_person_witness:
  "\<exists>(s :: review_db) row. rv_instances s ''i2'' = Some row \<and> ri_requester (iw_instance row) = ''u1''
    \<and> (\<exists>t \<in> set (ri_tasks (iw_instance row)). tk_status t = TApproved \<and> tk_user t \<noteq> ri_requester (iw_instance row)
      \<and> round_of (tk_round t) = round_of (ri_round (iw_instance row))
      \<and> (\<exists>n \<in> set (rd_nodes (ri_definition (iw_instance row))). nd_id n = tk_node t \<and> nd_type n = ''review''))"
  by (rule sample_end) (use approved_by_another_person in blast)

text \<open>
  C6. A closed review is final: once an instance is approved, rejected or withdrawn, no later sequence of
  transactions (commands of any user, timeouts, changes of the template) changes its row.
\<close>

theorem closed_reviews_are_final:
  assumes "review_step\<^sup>*\<^sup>* empty_db s" and "rv_instances s k = Some row"
    and "ri_status (iw_instance row) \<in> {IApproved, IRejected, Withdrawn}" and "review_step\<^sup>*\<^sup>* s s'"
  shows "rv_instances s' k = Some row"
proof -
  have "closed_row s k = Some row" using assms(2,3) by (auto simp: closed_row_def)
  then have "closed_row s' k = Some row" using closed_rows_stay [OF assms(4) reachable_ok [OF assms(1)]] by blast
  then show ?thesis by (auto simp: closed_row_def split: option.splits if_splits)
qed

theorem closed_reviews_are_final_witness:
  "\<exists>(s :: review_db) row. ri_status (iw_instance row) = IApproved
    \<and> rv_instances (s\<lparr>rv_jobs := \<lparr>db_jobs = [], db_outbox = []\<rparr>\<rparr>) ''i2'' = Some row"
proof (rule sample_end)
  fix s row assume s: "review_step\<^sup>*\<^sup>* empty_db s" "rv_instances s ''i2'' = Some row" and st: "ri_status (iw_instance row) = IApproved"
  have "review_step\<^sup>*\<^sup>* s (s\<lparr>rv_jobs := \<lparr>db_jobs = [], db_outbox = []\<rparr>\<rparr>)" using Work by blast
  then have "rv_instances (s\<lparr>rv_jobs := \<lparr>db_jobs = [], db_outbox = []\<rparr>\<rparr>) ''i2'' = Some row"
    by (rule closed_reviews_are_final [OF s, rotated]) (simp add: st)
  with st show ?thesis by blast
qed

text \<open>
  C4. Executing a command is idempotent under its key: after it succeeded, repeating it with the same key and
  any confirmation, at any time and after any other transactions, answers with the first receipt and changes
  nothing.
\<close>

theorem repeated_command_replays:
  assumes "review_step\<^sup>*\<^sup>* empty_db s" and ex: "execute hs ctx env c conf key s = Inr (r, s')" and "review_step\<^sup>*\<^sup>* s' t"
  shows "execute hs ctx env' c conf' key t = Inr (r, t)"
proof -
  have db: "db_ok s" by (rule reachable_ok [OF assms(1)])
  have now: "rv_commands s' (rc_actor ctx, key) = Some (hs_command hs c, r) \<and> replayable ctx s' c (re_resource r) \<and> 8 \<le> length key \<and> length key \<le> 128"
    using ex
  proof (cases rule: execute_cases)
    case Replay
    then show ?thesis by (simp add: replay_allowed_iff)
  next
    case (Fresh h res u)
    then show ?thesis using body_effect [OF db Fresh(2,5)]
      by (auto simp: record_command_def Let_def replayable_def instance_row_def split: review_command.splits if_splits)
  qed
  have k: "keeps s' t" by (rule steps_keep [OF assms(3) keepsD(1) [OF execute_keeps [OF db ex]]])
  have "rv_commands t (rc_actor ctx, key) = Some (hs_command hs c, r)"
    using now keepsD(4) [OF k] by (auto simp: map_le_def dom_def)
  moreover have "replayable ctx t c (re_resource r)"
    using now steps_dom [OF assms(3)] keepsD(2) [OF k]
    by (auto simp: replayable_def instance_row_def dom_grows_def grows_def subset_iff dom_def split: review_command.splits if_splits)
  then have "replay_allowed ctx t c r = Inr ()" by (simp only: replay_allowed_iff)
  ultimately show ?thesis using now by (simp add: execute_def)
qed

theorem repeated_command_replays_witness:
  "\<exists>s r. rv_instances s ''i2'' \<noteq> None
    \<and> execute sample_hashes (sample_ctx ''u1'') (sample_env ''9'') (Submit sample_submission) ''other'' ''command-2'' s = Inr (r, s)"
proof -
  obtain s s1 where s: "review_step\<^sup>*\<^sup>* empty_db s" "ready_db s" "submitted s1" "confirmed ''u1'' ''2'' (Submit sample_submission) s = Inr s1"
    using sample_run by metis
  obtain t r where t: "prepare sample_hashes (sample_ctx ''u1'') (sample_env ''2'') (''k'' @ ''2'') (Submit sample_submission) s = Inr t"
    "execute sample_hashes (sample_ctx ''u1'') (sample_env ''2'') (Submit sample_submission) (''k'' @ ''2'') (''command-'' @ ''2'') t = Inr (r, s1)"
    by (rule confirmedD [OF s(4)])
  have "review_step\<^sup>*\<^sup>* empty_db t" using s(1) Prepare [OF t(1)] by (rule rtranclp.rtrancl_into_rtrancl)
  from repeated_command_replays [OF this t(2) rtranclp.rtrancl_refl, of "sample_env ''9''" "''other''"] show ?thesis
    using s(3) by (intro exI [of _ s1] exI [of _ r]) (simp add: submitted_def)
qed

text \<open>
  C5. A confirmation is spent on exactly what was confirmed, once: a command that was executed under it (not
  replayed) had been prepared by the same person, not longer ago than it is valid, over the same command, state of
  the template and organisation; and after any later transactions no command whatever can be executed under it
  again, by anyone.
\<close>

theorem confirmation_spent_once:
  assumes "review_step\<^sup>*\<^sup>* empty_db s" and ex: "execute hs ctx env c conf key s = Inr (r, s')" and new: "rv_commands s (rc_actor ctx, key) = None"
    and "review_step\<^sup>*\<^sup>* s' t" and new': "rv_commands t (rc_actor ctx', key') = None"
  shows "(\<exists>cf h. rv_confirmations s conf = Some cf \<and> evidence hs ctx s c = Inr h \<and> cf_actor cf = rc_actor ctx \<and> cf_hash cf = h
      \<and> \<not> cf_consumed cf \<and> en_now env < cf_expires cf)
    \<and> (\<forall>x. execute hs' ctx' env' c' conf key' t \<noteq> Inr x)"
proof -
  have db: "db_ok s" by (rule reachable_ok [OF assms(1)])
  from ex obtain h res u where f: "check_command hs ctx env s c = Inr ()" "evidence hs ctx s c = Inr h" "confirmation_valid ctx env s conf h"
    "execute_body ctx env c (consume conf s) = Inr (res, u)" "(r, s') = record_command hs ctx env c key res u"
    by (cases rule: execute_cases) (use new in auto)
  obtain cf where cf: "rv_confirmations s conf = Some cf" "cf_actor cf = rc_actor ctx" "\<not> cf_consumed cf" "en_now env < cf_expires cf" "cf_hash cf = h"
    using f(3) by (auto simp: confirmation_valid_def split: option.splits)
  have "rv_confirmations s' conf = Some (cf\<lparr>cf_consumed := True\<rparr>)"
    using body_effect [OF db f(1,4)] f(5) cf(1) by (simp add: record_command_def Let_def consume_def)
  then have "rv_confirmations t conf = Some (cf\<lparr>cf_consumed := True\<rparr>)"
    using keepsD(5) [OF steps_keep [OF assms(4) keepsD(1) [OF execute_keeps [OF db ex]]]] by simp
  then have "\<not> confirmation_valid ctx' env' t conf g" for g by (simp add: confirmation_valid_def)
  then have "execute hs' ctx' env' c' conf key' t \<noteq> Inr x" for x
    using new' by (cases x) (auto elim!: execute_cases)
  then show ?thesis using cf f(2) by blast
qed

theorem confirmation_spent_once_witness:
  "\<exists>(s :: review_db) s' cf. rv_confirmations s ''k2'' = Some cf \<and> cf_actor cf = ''u1'' \<and> \<not> cf_consumed cf
    \<and> (\<forall>x. execute sample_hashes (sample_ctx ''u2'') (sample_env ''3'') (OnInstance ''i2'' 1 (ApproveCmd ''ok'')) ''k2'' ''command-3'' s' \<noteq> Inr x)"
proof -
  obtain s s1 where s: "review_step\<^sup>*\<^sup>* empty_db s" "ready_db s" "submitted s1" "confirmed ''u1'' ''2'' (Submit sample_submission) s = Inr s1"
    using sample_run by metis
  obtain t r where t: "prepare sample_hashes (sample_ctx ''u1'') (sample_env ''2'') (''k'' @ ''2'') (Submit sample_submission) s = Inr t"
    "execute sample_hashes (sample_ctx ''u1'') (sample_env ''2'') (Submit sample_submission) (''k'' @ ''2'') (''command-'' @ ''2'') t = Inr (r, s1)"
    by (rule confirmedD [OF s(4)])
  have reach: "review_step\<^sup>*\<^sup>* empty_db t" using s(1) Prepare [OF t(1)] by (rule rtranclp.rtrancl_into_rtrancl)
  have "rv_commands t = rv_commands s" using t(1) by (auto simp: prepare_def split: sum.splits if_splits)
  then have "rv_commands t (rc_actor (sample_ctx ''u1''), ''command-'' @ ''2'') = None" using s(2) by (simp add: ready_db_def)
  moreover have "rv_commands s1 (rc_actor (sample_ctx ''u2''), ''command-3'') = None" using s(3) by (simp add: submitted_def)
  ultimately have "(\<exists>cf. rv_confirmations t ''k2'' = Some cf \<and> cf_actor cf = ''u1'' \<and> \<not> cf_consumed cf)
      \<and> (\<forall>x. execute sample_hashes (sample_ctx ''u2'') (sample_env ''3'') (OnInstance ''i2'' 1 (ApproveCmd ''ok'')) ''k2'' ''command-3'' s1 \<noteq> Inr x)"
    using confirmation_spent_once [OF reach t(2) _ rtranclp.rtrancl_refl, of "sample_ctx ''u2''" "''command-3''" sample_hashes "sample_env ''3''" "OnInstance ''i2'' 1 (ApproveCmd ''ok'')"]
    by (auto simp del: split_paired_All)
  then show ?thesis by blast
qed

end
