(* ===== verification/Review_Deadlines.thy ===== *)
theory Review_Deadlines
  imports Review_Guarantees
begin

text \<open>
  Deadlines, resubmission and the progress a review reports.
\<close>

section \<open>Deadlines\<close>

text \<open>
  C11. The deadline of a task takes effect once: after an execution job handled it (a reminder, a hand-over or a
  call for a takeover), any later job for the same task and deadline, whatever happened in between, answers with
  the recorded receipt and changes neither the instance nor the notifications nor the history.
\<close>

theorem deadline_fires_once:
  assumes "executeReviewTimeout rt ctx env call s = Inr (r, s1)" and "r \<noteq> Skipped" and "review_step\<^sup>*\<^sup>* s1 s2"
    and "tc_task call' = tc_task call" and "tc_due call' = tc_due call"
    and "executeReviewTimeout rt' ctx' env' call' s2 = Inr (r', s3)"
  shows "r' = r \<and> rv_instances s3 = rv_instances s2 \<and> rv_notifications s3 = rv_notifications s2 \<and> rv_events s3 = rv_events s2"
proof -
  obtain d where d: "tc_due call = Some d" "rv_timers s1 (tc_task call, d) = Some r"
    using assms(1)
  proof (cases rule: timeout_cases)
    case (Jobs d jobs)
    then show ?thesis using that assms(2) by auto
  next
    case (Fire d row t np)
    then show ?thesis using that fire_dom by fastforce
  qed
  then have "rv_timers s2 (tc_task call, d) = Some r"
    using steps_dom [OF assms(3)] by (auto simp: map_le_def dom_def)
  with assms(6) show ?thesis
  proof (cases rule: timeout_cases)
    case (Jobs d' jobs)
    then show ?thesis using d assms(4,5) \<open>rv_timers s2 (tc_task call, d) = Some r\<close> by simp
  next
    case (Fire d' row t np)
    then show ?thesis using d assms(4,5) \<open>rv_timers s2 (tc_task call, d) = Some r\<close> by simp
  qed
qed

definition timed_node :: node where
  "timed_node = (sample_node ''r'' ''review'' (Some ''z''))\<lparr>nd_timeoutHours := Some 1,
     nd_operations := Some \<lparr>op_transfer = None, op_countersign = None, op_amendment = None,
       op_timeout = Some \<lparr>to_action = ''remind'', to_candidates = None, to_deadline = None\<rparr>, op_extra = []\<rparr>\<rparr>"

definition timed_instance :: review_instance where
  "timed_instance = sample_instance\<lparr>ri_definition := sample_doc\<lparr>rd_nodes := [timed_node]\<rparr>,
     ri_tasks := [(sample_task TPending None None)\<lparr>tk_dueAt := Some 500\<rparr>]\<rparr>"

definition timed_job :: "string \<Rightarrow> job" where
  "timed_job k = (new_job (timeout_input ''c'' timed_instance ''2'' 500) k 0)
     \<lparr>j_status := Running, j_lease_owner := Some ''w'', j_lease_until := Some 9000\<rparr>"

definition timed_db :: review_db where
  "timed_db = empty_db\<lparr>rv_instances := [''i2'' \<mapsto> \<lparr>iw_instance = timed_instance, iw_choices = Map.empty\<rparr>],
     rv_jobs := \<lparr>db_jobs = [timed_job ''j1'', timed_job ''j2''], db_outbox = []\<rparr>\<rparr>"

definition timed_call :: "string \<Rightarrow> timeout_call" where
  "timed_call j = \<lparr>tc_job = j, tc_worker = ''w'', tc_tenant = ''c'', tc_actor = ''u1'', tc_instance = ''i2'', tc_task = ''2'', tc_due = Some 500\<rparr>"

lemma timed_job_simps [simp]:
  "j_id (timed_job k) = k" "j_status (timed_job k) = Running" "j_lease_owner (timed_job k) = Some ''w''" "j_lease_until (timed_job k) = Some 9000"
  by (simp_all add: timed_job_def new_job_def)

lemma timed_first:
  "\<exists>s1 j1. executeReviewTimeout (\<lambda>r. ''x'') (sample_ctx ''u1'') (sample_env ''5'') (timed_call ''j1'') timed_db = Inr (Reminded ''i2'' 2, s1)
    \<and> rv_timers s1 (''2'', 500) = Some (Reminded ''i2'' 2) \<and> rv_jobs s1 = \<lparr>db_jobs = [j1, timed_job ''j2''], db_outbox = []\<rparr> \<and> j_id j1 = ''j1''"
proof -
  have n: "normalizeTasks timed_instance = timed_instance"
    by (simp add: normalizeTasks_def timed_instance_def sample_instance_def sample_task_def round_of_def)
  have f: "finish_timeout (\<lambda>r. ''x'') (timed_call ''j1'') 1000 r s =
      Inr (r, s\<lparr>rv_jobs := \<lparr>db_jobs = [complete_row ''x'' 1000 (timed_job ''j1''), timed_job ''j2''], db_outbox = []\<rparr>\<rparr>)"
    if "rv_jobs s = rv_jobs timed_db" for r s
    using that by (simp add: finish_timeout_def pgCompleteExecutionJob_def timed_db_def timed_call_def job_at_def or_null_def upd_job_def)
  have e: "timeout_effects (sample_ctx ''u1'') (sample_env ''5'') Remind 500 ((sample_task TPending None None)\<lparr>tk_dueAt := Some 500\<rparr>) timed_instance timed_db
      = Inr (timed_db\<lparr>rv_notifications := [(''i2'', ''u2'', ''timeout:2:'' @ iso_text 500)], rv_participants := {(''i2'', ''u2'')}\<rparr>)"
    by (simp add: timeout_effects_def timeout_task_effect_def timed_instance_def sample_instance_def sample_task_def currentTasks_def current_tasks_pred_def
        round_of_def notify_def timed_db_def empty_db_def Let_def)
  have p: "timeout_policy_of timed_instance ((sample_task TPending None None)\<lparr>tk_dueAt := Some 500\<rparr>)
      = Some (timed_node, \<lparr>to_action = ''remind'', to_candidates = None, to_deadline = None\<rparr>)"
    by (simp add: timeout_policy_of_def node_at_def timed_instance_def timed_node_def sample_node_def sample_task_def)
  have t: "task_of timed_instance ''2'' = Some ((sample_task TPending None None)\<lparr>tk_dueAt := Some 500\<rparr>)"
    by (simp add: task_of_def timed_instance_def sample_task_def)
  have st: "\<not> deadline_stale timed_instance (Some ((sample_task TPending None None)\<lparr>tk_dueAt := Some 500\<rparr>)) 500 1000"
    by (simp add: deadline_stale_def timed_instance_def sample_instance_def sample_task_def)
  have ids: "ri_id timed_instance = ''i2''" "ri_version timed_instance = 1" "ri_requester timed_instance = ''u1''"
    by (simp_all add: timed_instance_def)
  have l: "lease_held (timed_call ''j1'') 1000 timed_db" by (simp add: lease_held_def timed_call_def timed_db_def job_at_def)
  have row: "rv_instances timed_db ''i2'' = Some \<lparr>iw_instance = timed_instance, iw_choices = Map.empty\<rparr>" "rv_timers timed_db = Map.empty"
    by (simp_all add: timed_db_def empty_db_def)
  show ?thesis
    using l t st p e f n ids row
    by (simp add: executeReviewTimeout_def timed_call_def fire_timeout_def timeout_outcome_of_def timeout_change_def stamp_version_def Let_def complete_row_def sample_task_def)
qed

theorem deadline_fires_once_witness:
  "\<exists>s1 s3. executeReviewTimeout (\<lambda>r. ''x'') (sample_ctx ''u1'') (sample_env ''5'') (timed_call ''j1'') timed_db = Inr (Reminded ''i2'' 2, s1)
    \<and> executeReviewTimeout (\<lambda>r. ''x'') (sample_ctx ''u1'') (sample_env ''6'') (timed_call ''j2'') s1 = Inr (Reminded ''i2'' 2, s3)
    \<and> rv_instances s3 = rv_instances s1"
proof -
  obtain s1 j1 where s1: "executeReviewTimeout (\<lambda>r. ''x'') (sample_ctx ''u1'') (sample_env ''5'') (timed_call ''j1'') timed_db = Inr (Reminded ''i2'' 2, s1)"
    "rv_timers s1 (''2'', 500) = Some (Reminded ''i2'' 2)" "rv_jobs s1 = \<lparr>db_jobs = [j1, timed_job ''j2''], db_outbox = []\<rparr>" "j_id j1 = ''j1''"
    using timed_first by blast
  obtain r s3 where s3: "executeReviewTimeout (\<lambda>r. ''x'') (sample_ctx ''u1'') (sample_env ''6'') (timed_call ''j2'') s1 = Inr (r, s3)"
    using s1(2-4) by (simp add: executeReviewTimeout_def timed_call_def lease_held_def job_at_def finish_timeout_def pgCompleteExecutionJob_def or_null_def)
  from deadline_fires_once [OF s1(1) _ rtranclp.rtrancl_refl _ _ s3] s1(1) s3 show ?thesis by (auto simp: timed_call_def)
qed

section \<open>Resubmission\<close>

definition extends :: "review_instance \<Rightarrow> review_instance \<Rightarrow> bool" where
  "extends i i' \<longleftrightarrow> ri_values i' = ri_values i \<and> ri_round i' = ri_round i
     \<and> (\<exists>new. ri_tasks i' = ri_tasks i @ new \<and> (\<forall>t \<in> set new. tk_round t = round_of (ri_round i)))"

lemma extension_trans: "extends i j \<Longrightarrow> extends j k \<Longrightarrow> extends i k"
  unfolding extends_def by (elim conjE exE) (simp, blast)

lemma enter_node_extends: "enter_node resolve uuid now i n = Inr (i1, mv, e) \<Longrightarrow> extends i i1"
  by (auto simp: enter_node_def enter_work_def enter_condition_def extends_def block_with_def new_tasks_def Let_def
      split: if_splits option.splits prod.splits)

lemma advance_loop_extends: "advance_loop resolve uuid now k i target = Inr (i', tr) \<Longrightarrow> extends i i'"
proof (induction k arbitrary: i target tr)
  case (Suc k)
  from Suc.prems obtain n where n: "node_at i target = Some n" by (cases "node_at i target") auto
  from Suc.prems n obtain i1 mv e where e: "enter_node resolve uuid now i n = Inr (i1, mv, e)"
    by (cases "enter_node resolve uuid now i n") auto
  note e' = enter_node_extends [OF e]
  show ?case
  proof (cases mv)
    case Stop
    then show ?thesis using Suc.prems n e e' by simp
  next
    case (Go t)
    then obtain tr' where "advance_loop resolve uuid now k i1 t = Inr (i', tr')"
      using Suc.prems n e by (cases "advance_loop resolve uuid now k i1 t") auto
    then show ?thesis using extension_trans [OF e'] Suc.IH by blast
  qed
qed simp

lemma advance_extends: "advanceReview resolve uuid now i t = Inr (i', tr) \<Longrightarrow> extends i i'"
  unfolding advanceReview_def by (rule advance_loop_extends)

lemma advance_only_extends: "advance_only resolve uuid now i t = Inr i' \<Longrightarrow> extends i i'"
  unfolding advance_only_def by (cases "advanceReview resolve uuid now i t") (auto dest: advance_extends)

text \<open>
  A resubmission changes what the amendment opened and starts the review over: an accepted resubmission
  leaves every field outside the amendment as it was, raises the round by one, and leaves no task of an
  earlier round open.
\<close>

theorem resubmission_within_amendment:
  assumes ck: "check_instance ctx choices attachment v (Operate (Resubmit reason vs)) i = Inr ()" and nrm: "normalizeTasks i = i"
    and ex: "apply_command (reviewResolver ctx choices) uuid now (rc_actor ctx) (Operate (Resubmit reason vs)) i = Inr i'"
  shows "(\<forall>f \<in> set (rd_fields (ri_definition i)). (case ri_amendment i of None \<Rightarrow> True | Some a \<Rightarrow> f_id f \<notin> set (ad_fields a))
        \<longrightarrow> canonical (js_field (f_id f) (ri_values i')) = canonical (js_field (f_id f) (ri_values i)))
    \<and> ri_requester i = rc_actor ctx \<and> ri_round i' = ri_round i + 1
    \<and> (\<forall>t \<in> set (ri_tasks i'). tk_status t \<in> {TPending, TWaiting, TSuspended} \<longrightarrow> tk_round t = ri_round i')"
proof -
  have off: "''resubmit'' \<in> set (review_actions (reviewResolver ctx choices) (rc_actor ctx) i)"
    and mat: "check_material attachment i vs = Inr ()"
    using ck by (simp_all add: check_instance_def check_operation_def split: if_splits)
  have own: "ri_requester i = rc_actor ctx" "ri_status i = AwaitingAmendment"
    using offered_own(1,3) [OF off] by (simp_all add: own_actions_def)
  have "find (locked_change i vs) (rd_fields (ri_definition i)) = None"
    using mat by (auto simp: check_material_def Let_def split: if_splits sum.splits option.splits)
  then have locked: "\<not> locked_change i vs f" if "f \<in> set (rd_fields (ri_definition i))" for f using that find_NoneD by metis
  define i1 where "i1 = i\<lparr>ri_tasks := map (\<lambda>t. if tk_status t \<in> {TPending, TWaiting, TSuspended} then t\<lparr>tk_status := TSuperseded\<rparr> else t) (ri_tasks i),
      ri_round := ri_round i + 1, ri_values := vs, ri_amendment := None, ri_blocked := None\<rparr>"
  obtain st where "advance_only (reviewResolver ctx choices) uuid now i1 (Some st) = Inr i'"
    using ex own(2) nrm by (auto simp: apply_command_def applyReviewOperation_def Let_def i1_def split: option.splits)
  then have e: "extends i1 i'" by (rule advance_only_extends)
  then obtain new where new: "ri_values i' = vs" "ri_round i' = ri_round i + 1" "ri_tasks i' = ri_tasks i1 @ new" "\<forall>t \<in> set new. tk_round t = ri_round i + 1"
    by (auto simp: extends_def i1_def round_of_def)
  have "tk_status t \<notin> {TPending, TWaiting, TSuspended}" if "t \<in> set (ri_tasks i1)" for t
    using that by (auto simp: i1_def)
  then show ?thesis using new own(1) locked unfolding locked_change_def by fastforce
qed

definition text_field :: "string \<Rightarrow> review_field" where
  "text_field k = \<lparr>f_id = k, f_label = [65], f_type = ''text'', f_required = True, f_options = None, f_numeric = None, f_currencies = None,
     f_currencySource = None, f_extra = []\<rparr>"

definition amended_instance :: review_instance where
  "amended_instance = sample_instance\<lparr>ri_definition := sample_doc\<lparr>rd_fields := [text_field ''f'', text_field ''g'']\<rparr>,
     ri_values := [(''f'', JStr ''old''), (''g'', JStr ''x'')], ri_status := AwaitingAmendment,
     ri_amendment := Some \<lparr>ad_fields = [''f''], ad_reason = ''more'', ad_requestedBy = ''u2''\<rparr>,
     ri_tasks := [sample_task TSuspended None None]\<rparr>"

definition new_material :: "(string \<times> js) list" where
  "new_material = [(''f'', JStr ''new''), (''g'', JStr ''x'')]"

lemma amended_check:
  "check_instance (sample_ctx ''u1'') Map.empty (\<lambda>a. None) 1 (Operate (Resubmit ''done'' new_material)) amended_instance = Inr ()"
proof -
  have "check_material (\<lambda>a. None) amended_instance new_material = Inr ()"
    by (simp add: check_material_def amended_instance_def sample_instance_def sample_doc_def text_field_def new_material_def validateValues_def value_issues_def
        js_field_def empty_value_def blank_def js_space_def value_valid_def attachment_ids_def first_error_def js_uniq_def locked_change_def Let_def)
  then show ?thesis
    by (simp add: check_instance_def check_operation_def review_actions_def amended_instance_def sample_instance_def bad_reason_def REASON_REQUIRED_def
        blank_def js_space_def)
qed

lemma amended_resubmits:
  "\<exists>i'. apply_command (reviewResolver (sample_ctx ''u1'') Map.empty) (\<lambda>k. ''n'') 7 ''u1'' (Operate (Resubmit ''done'' new_material)) amended_instance = Inr i'"
  by (simp add: apply_command_def applyReviewOperation_def normalizeTasks_def amended_instance_def sample_instance_def sample_task_def sample_engine_defs
      sample_doc_def sample_node_def sample_people)

theorem resubmission_within_amendment_witness:
  "\<exists>i'. apply_command (reviewResolver (sample_ctx ''u1'') Map.empty) (\<lambda>k. ''n'') 7 ''u1'' (Operate (Resubmit ''done'' new_material)) amended_instance = Inr i'
    \<and> canonical (js_field ''g'' (ri_values i')) = JStr ''x'' \<and> ri_round i' = 2"
proof -
  obtain i' where i': "apply_command (reviewResolver (sample_ctx ''u1'') Map.empty) (\<lambda>k. ''n'') 7 (rc_actor (sample_ctx ''u1'')) (Operate (Resubmit ''done'' new_material)) amended_instance = Inr i'"
    using amended_resubmits by auto
  have n: "normalizeTasks amended_instance = amended_instance"
    by (simp add: normalizeTasks_def amended_instance_def sample_instance_def sample_task_def round_of_def)
  have "canonical (js_field ''g'' (ri_values i')) = canonical (js_field ''g'' (ri_values amended_instance)) \<and> ri_round i' = ri_round amended_instance + 1"
    using resubmission_within_amendment [OF amended_check n i'] by (simp add: amended_instance_def text_field_def)
  then show ?thesis using i' by (simp add: amended_instance_def js_field_def)
qed

section \<open>Progress\<close>

definition handover_doc :: definition_doc where
  "handover_doc = sample_doc\<lparr>rd_nodes :=
     [sample_node ''a'' ''start'' (Some ''r''),
      (sample_node ''r'' ''review'' (Some ''h''))\<lparr>nd_operations := Some \<lparr>op_transfer = Some \<lparr>tp_candidates = Some (Fixed (Named [''u3''])), tp_deadline = ''preserve''\<rparr>,
        op_countersign = None, op_amendment = None, op_timeout = None, op_extra = []\<rparr>\<rparr>,
      (sample_node ''h'' ''handler'' (Some ''z''))\<lparr>nd_assignee := Some (Fixed (Named [''u2''])), nd_mode := Some ''single''\<rparr>,
      sample_node ''z'' ''end'' None]\<rparr>"

definition handover_start :: review_instance where
  "handover_start = sample_instance\<lparr>ri_definition := handover_doc\<rparr>"

definition everyone :: resolver where
  "everyone n r t = (if nd_type n = ''handler'' then [''u2''] else [''u2'', ''u3''])"

definition run_all :: "(review_instance \<Rightarrow> engine_error + review_instance) list \<Rightarrow> review_instance \<Rightarrow> review_instance option" where
  "run_all fs i = foldl (\<lambda>r f. case r of None \<Rightarrow> None | Some j \<Rightarrow> (case f j of Inl e \<Rightarrow> None | Inr j' \<Rightarrow> Some j')) (Some i) fs"

text \<open>Advancing appends open or completed tasks and touches no other, whatever the definition.\<close>

lemma enter_node_matter: "enter_node resolve uuid now i n = Inr (i1, mv, e) \<Longrightarrow> same_matter i i1"
  by (auto simp: enter_node_def enter_work_def enter_condition_def same_matter_def block_with_def Let_def
      dest: new_tasks_status split: if_splits option.splits prod.splits)

lemma advance_loop_matter:
  "advance_loop resolve uuid now fuel i target = Inr (i', trace) \<Longrightarrow> same_matter i i'"
proof (induction fuel arbitrary: i target trace)
  case (Suc fuel)
  from Suc.prems obtain n where n: "node_at i target = Some n" by (auto split: option.splits)
  with Suc.prems obtain i1 mv e where e: "enter_node resolve uuid now i n = Inr (i1, mv, e)"
    by (cases "enter_node resolve uuid now i n") auto
  note first = enter_node_matter [OF e]
  show ?case
  proof (cases mv)
    case Stop
    then show ?thesis using Suc.prems n e first by simp
  next
    case (Go v)
    then obtain tr where "advance_loop resolve uuid now fuel i1 v = Inr (i', tr)"
      using Suc.prems n e by (auto split: sum.splits)
    from same_matter_trans [OF first Suc.IH [OF this]] show ?thesis .
  qed
qed simp

lemma advance_only_matter: "advance_only resolve uuid now i target = Inr i' \<Longrightarrow> same_matter i i'"
proof -
  assume "advance_only resolve uuid now i target = Inr i'"
  then obtain r where "advanceReview resolve uuid now i target = Inr (i', r)"
    by (cases "advanceReview resolve uuid now i target") (auto simp: advance_only_def)
  then show ?thesis unfolding advanceReview_def by (rule advance_loop_matter)
qed

definition duty_approved :: "review_instance \<Rightarrow> bool" where
  \<comment> \<open>a task of this round whose duty is to review was approved: what \<open>reviewProgress\<close> looks for\<close>
  "duty_approved i \<longleftrightarrow> (\<exists>t \<in> set (ri_tasks i). tk_duty t = Some ''review'' \<and> tk_status t = TApproved
     \<and> round_of (tk_round t) = round_of (ri_round i))"

definition approved_by :: "string \<Rightarrow> review_instance \<Rightarrow> bool" where
  "approved_by user i \<longleftrightarrow> (\<exists>t \<in> set (ri_tasks i). tk_user t = user \<and> tk_status t = TApproved
     \<and> round_of (tk_round t) = round_of (ri_round i))"

lemma matter_approvals:
  assumes "same_matter i i'"
  shows "duty_approved i' = duty_approved i" and "approved_by u i \<Longrightarrow> approved_by u i'"
proof -
  obtain new where new: "ri_tasks i' = ri_tasks i @ new" "\<forall>t \<in> set new. tk_status t \<noteq> TApproved" "ri_round i' = ri_round i"
    using assms by (fastforce simp: same_matter_def)
  then show "duty_approved i' = duty_approved i" by (auto simp: duty_approved_def simp del: bex_simps)
  show "approved_by u i \<Longrightarrow> approved_by u i'" using new by (auto simp: approved_by_def)
qed

lemma map_same: "(\<And>t. P (f t) = P t) \<Longrightarrow> (\<exists>t \<in> set (map f ts). P t) = (\<exists>t \<in> set ts. P t)"
  by auto

lemma cancel_approvals: "duty_approved (cancel_open i) = duty_approved i" "approved_by u (cancel_open i) = approved_by u i"
  unfolding duty_approved_def approved_by_def cancel_open_def open_status_def
  by (simp_all del: set_map, (subst map_same; auto)+)

lemma update_first_same:
  assumes "\<And>t. p t \<Longrightarrow> P (f t) = P t"
  shows "(\<exists>t \<in> set (update_first p f ts). P t) = (\<exists>t \<in> set ts. P t)"
  using assms by (induction ts) auto

lemma wake_approvals: "duty_approved (wake_next n now i) = duty_approved i" "approved_by u (wake_next n now i) = approved_by u i"
  unfolding duty_approved_def approved_by_def wake_next_def
  by (simp_all, (subst update_first_same; simp)+)

lemma settle_approvals:
  assumes "settle_node resolve uuid now i n finished = Inr i'"
  shows "duty_approved i' = duty_approved i" and "approved_by u i \<Longrightarrow> approved_by u i'"
proof -
  have "duty_approved i' = duty_approved i \<and> (approved_by u i \<longrightarrow> approved_by u i')"
  proof (cases finished)
    case True
    then have "same_matter (cancel_open i) i'" using assms by (simp add: settle_node_def advance_only_matter)
    then show ?thesis using matter_approvals cancel_approvals by blast
  next
    case False
    then have "i' = (if nd_mode n = Some ''sequential'' then wake_next n now i else i)" using assms by (simp add: settle_node_def)
    then show ?thesis using wake_approvals by (cases "nd_mode n = Some ''sequential''") simp_all
  qed
  then show "duty_approved i' = duty_approved i" "approved_by u i \<Longrightarrow> approved_by u i'" by simp_all
qed

lemma update_first_first:
  assumes "\<forall>t \<in> set ts. p t \<longrightarrow> Q t" and "t \<in> set (update_first p f ts)"
  shows "t \<in> set ts \<or> (\<exists>t0. Q t0 \<and> t = f t0)"
  using assms by (induction ts) (auto split: if_splits)

text \<open>Approving a task that carries no duty adds none.\<close>

lemma approve_without_duty:
  assumes "decideReview resolve uuid now user Approve reason i = Inr i'" and "\<not> duty_approved i"
    and "\<forall>t \<in> set (ri_tasks i). own_pending i user t \<longrightarrow> tk_duty t = None"
  shows "\<not> duty_approved i'" and "approved_by user i'"
proof -
  let ?f = "\<lambda>t. t\<lparr>tk_status := TApproved, tk_reason := Some reason, tk_decidedAt := Some now\<rparr>"
  define i1 where "i1 = i\<lparr>ri_tasks := update_first (own_pending i user) ?f (ri_tasks i)\<rparr>"
  obtain n t where n: "current_node i = Some n" and t: "find (own_pending i user) (ri_tasks i) = Some t"
    and run: "(\<exists>fin. settle_node resolve uuid now i1 n fin = Inr i') \<or> i' = cancel_open (i1\<lparr>ri_status := IRejected\<rparr>)"
    using assms(1) by (auto simp: decideReview_def Let_def i1_def split: if_splits option.splits)
  have "\<not> duty_approved i1"
  proof
    assume "duty_approved i1"
    then obtain x where x: "x \<in> set (update_first (own_pending i user) ?f (ri_tasks i))" "tk_duty x = Some ''review''"
      "tk_status x = TApproved" "round_of (tk_round x) = round_of (ri_round i)"
      by (auto simp: duty_approved_def i1_def)
    from update_first_first [OF assms(3) x(1)] x(2-4) assms(2) show False by (auto simp: duty_approved_def)
  qed
  moreover have "approved_by user i1"
    using find_update_mem [OF t, of ?f] find_SomeD [OF t]
    by (auto simp: approved_by_def i1_def own_pending_def current_tasks_pred_def intro!: bexI [of _ "?f t"])
  moreover have "duty_approved (i1\<lparr>ri_status := IRejected\<rparr>) = duty_approved i1"
    "approved_by user (i1\<lparr>ri_status := IRejected\<rparr>) = approved_by user i1"
    by (simp_all add: duty_approved_def approved_by_def)
  ultimately show "\<not> duty_approved i'" "approved_by user i'"
    using run settle_approvals [of resolve uuid now i1 n _ i'] cancel_approvals by metis+
qed

lemma replace_first_mem: "x \<in> set (replace_first p f ts) \<Longrightarrow> x \<in> set ts \<or> (\<exists>t \<in> set ts. p t \<and> x \<in> set (f t))"
  by (induction ts) (auto split: if_splits)

lemma transfer_approvals:
  assumes "applyReviewOperation resolve uuid now user (Transfer target why) i = Inr i1"
    and "\<not> duty_approved i" and "\<forall>t \<in> set (ri_tasks i). \<not> own_pending i target t"
  shows "\<not> duty_approved i1" and "\<forall>t \<in> set (ri_tasks i1). own_pending i1 target t \<longrightarrow> tk_duty t = None"
proof -
  let ?n = "normalizeTasks i"
  have norm: "\<exists>t0 \<in> set (ri_tasks i). tk_status t = tk_status t0 \<and> tk_duty t = tk_duty t0 \<and> tk_user t = tk_user t0
      \<and> tk_node t = tk_node t0 \<and> tk_round t = round_of (tk_round t0)" if "t \<in> set (ri_tasks ?n)" for t
  proof -
    from that obtain k t0 where "(k, t0) \<in> set (zip [0..<length (ri_tasks i)] (ri_tasks i))"
      "t = t0\<lparr>tk_id := (if tk_id t0 = [] then ri_id i @ '':task:'' @ show_nat k else tk_id t0),
        tk_round := round_of (tk_round t0), tk_source := (case tk_source t0 of None \<Rightarrow> Some ByDefault | Some x \<Rightarrow> Some x)\<rparr>"
      by (auto simp: normalizeTasks_def)
    then show ?thesis by (intro bexI [of _ t0]) (auto dest: set_zip_rightD)
  qed
  have frame: "ri_round ?n = round_of (ri_round i)" "ri_currentNode ?n = ri_currentNode i" by (simp_all add: normalizeTasks_def)
  have rr: "round_of (round_of r) = round_of r" for r by (simp add: round_of_def)
  obtain n where i1: "i1 = reassignTask ?n n (own_pending ?n user) target ByTransfer (Some why) (uuid (length (ri_tasks ?n))) now"
    using assms(1) by (auto simp: applyReviewOperation_def Let_def split: option.splits)
  then have frame1: "ri_round i1 = ri_round ?n" "ri_currentNode i1 = ri_currentNode ?n" by (simp_all add: reassignTask_def)
  have mem: "t \<in> set (ri_tasks ?n) \<or> tk_status t = TTransferred \<or> tk_duty t = None \<and> tk_status t = TPending"
    if "t \<in> set (ri_tasks i1)" for t
    using replace_first_mem [OF that [unfolded i1 reassignTask_def, simplified]] by (auto simp: replacement_task_def)
  show "\<not> duty_approved i1"
  proof
    assume "duty_approved i1"
    then obtain t where t: "t \<in> set (ri_tasks i1)" "tk_duty t = Some ''review''" "tk_status t = TApproved"
      "round_of (tk_round t) = round_of (ri_round i1)" by (auto simp: duty_approved_def)
    then have "t \<in> set (ri_tasks ?n)" using mem by fastforce
    from norm [OF this] t assms(2) show False by (auto simp: duty_approved_def frame1 frame rr)
  qed
  show "\<forall>t \<in> set (ri_tasks i1). own_pending i1 target t \<longrightarrow> tk_duty t = None"
  proof (intro ballI impI)
    fix t assume t: "t \<in> set (ri_tasks i1)" "own_pending i1 target t"
    have "t \<notin> set (ri_tasks ?n)"
    proof
      assume "t \<in> set (ri_tasks ?n)"
      from norm [OF this] t(2) assms(3) show False
        by (auto simp: own_pending_def current_tasks_pred_def frame1 frame rr)
    qed
    then show "tk_duty t = None" using mem [OF t(1)] t(2) by (auto simp: own_pending_def)
  qed
qed

lemma no_duty_pending: "\<not> duty_approved i \<Longrightarrow> ri_status i \<in> {Reviewing, Blocked} \<Longrightarrow> rp_approval (reviewProgress i) = ApprovalPending"
  by (auto simp: reviewProgress_def duty_approved_def list_ex_iff Let_def)

text \<open>
  C12. An approval given after a hand-over is not reported.  When a reviewer hands the task over to
  somebody who has no pending task at the node, in a round in which no reviewer has approved yet, and
  that person approves, then the approval is recorded, but as long as the review goes on, at its
  handler too, \<open>reviewProgress\<close> reports the approval as pending: the task that replaces a
  transferred one carries no duty.
\<close>

theorem handed_over_approval_reported_pending:
  assumes "\<not> duty_approved i" and "\<forall>t \<in> set (ri_tasks i). \<not> own_pending i target t"
    and "apply_command resolve uuid now user (Operate (Transfer target why)) i = Inr i1"
    and "apply_command resolve' uuid' now' target (ApproveCmd reason) i1 = Inr i2"
    and "ri_status i2 \<in> {Reviewing, Blocked}"
  shows "(\<exists>t \<in> set (ri_tasks i2). tk_user t = target \<and> tk_status t = TApproved \<and> round_of (tk_round t) = round_of (ri_round i2))
    \<and> rp_approval (reviewProgress i2) = ApprovalPending"
proof -
  define unblock where "unblock = (\<lambda>i :: review_instance. if ri_status i = Reviewing then i\<lparr>ri_blocked := None\<rparr> else i)"
  have same: "ri_tasks (unblock i) = ri_tasks i" "duty_approved (unblock i) = duty_approved i"
    "own_pending (unblock i) u t = own_pending i u t" for i u t
    by (simp_all add: unblock_def duty_approved_def own_pending_def current_tasks_pred_def)
  have "applyReviewOperation resolve uuid now user (Transfer target why) (unblock i) = Inr i1"
    using assms(3) by (simp add: apply_command_def unblock_def Let_def)
  from transfer_approvals [OF this] assms(1,2)
  have one: "\<not> duty_approved i1" "\<forall>t \<in> set (ri_tasks i1). own_pending i1 target t \<longrightarrow> tk_duty t = None"
    by (simp_all add: same)
  have "decideReview resolve' uuid' now' target Approve reason (unblock i1) = Inr i2"
    using assms(4) by (simp add: apply_command_def unblock_def Let_def)
  from approve_without_duty [OF this] one have "\<not> duty_approved i2" "approved_by target i2" by (simp_all add: same)
  then show ?thesis using no_duty_pending assms(5) by (simp add: approved_by_def)
qed

text \<open>The run the witness takes, and the same path without the hand-over, whose approval is reported.\<close>

lemma handover_direct:
  "map_option (\<lambda>i. (ri_currentNode i, map tk_status (ri_tasks i), rp_approval (reviewProgress i)))
      (run_all [apply_command everyone (\<lambda>k. ''n'') 7 ''u2'' (ApproveCmd ''ok'')] handover_start)
    = Some (''h'', [TApproved, TPending], ApprovalApproved)"
  by (simp add: run_all_def apply_command_def decideReview_def handover_start_def handover_doc_def sample_instance_def sample_doc_def sample_node_def sample_task_def
        current_node_def sample_engine_defs own_pending_def current_tasks_pred_def everyone_def active_def settle_node_def cancel_open_def open_status_def
        reviewProgress_def truthy_def)

lemma handover_run:
  "\<exists>i1 i2. apply_command everyone (\<lambda>k. ''n'') 7 ''u2'' (Operate (Transfer ''u3'' ''away'')) handover_start = Inr i1
    \<and> apply_command everyone (\<lambda>k. ''m'') 8 ''u3'' (ApproveCmd ''ok'') i1 = Inr i2
    \<and> ri_currentNode i2 = ''h'' \<and> ri_status i2 = Reviewing"
  by (simp add: apply_command_def decideReview_def handover_start_def handover_doc_def sample_instance_def sample_doc_def sample_node_def sample_task_def
        current_node_def sample_engine_defs own_pending_def current_tasks_pred_def everyone_def active_def settle_node_def cancel_open_def open_status_def
        applyReviewOperation_def normalizeTasks_def reassignTask_def replacement_task_def)

theorem handed_over_approval_reported_pending_witness:
  "\<exists>i1 i2. apply_command everyone (\<lambda>k. ''n'') 7 ''u2'' (Operate (Transfer ''u3'' ''away'')) handover_start = Inr i1
    \<and> apply_command everyone (\<lambda>k. ''m'') 8 ''u3'' (ApproveCmd ''ok'') i1 = Inr i2
    \<and> ri_currentNode i2 = ''h'' \<and> rp_approval (reviewProgress i2) = ApprovalPending"
proof -
  obtain i1 i2 where run: "apply_command everyone (\<lambda>k. ''n'') 7 ''u2'' (Operate (Transfer ''u3'' ''away'')) handover_start = Inr i1"
    "apply_command everyone (\<lambda>k. ''m'') 8 ''u3'' (ApproveCmd ''ok'') i1 = Inr i2" "ri_currentNode i2 = ''h''" "ri_status i2 = Reviewing"
    using handover_run by blast
  have "\<not> duty_approved handover_start" "\<forall>t \<in> set (ri_tasks handover_start). \<not> own_pending handover_start ''u3'' t"
    by (simp_all add: duty_approved_def own_pending_def handover_start_def sample_instance_def sample_task_def)
  from handed_over_approval_reported_pending [OF this run(1,2)] run show ?thesis by auto
qed

end
