(* ===== verification/Ticket_Lifecycle.thy ===== *)
theory Ticket_Lifecycle
  imports Prelude Machines
begin

text \<open>
  \<open>backend/src/ticket-lifecycle-contract.ts\<close> and \<open>backend/src/ticket-lifecycle.ts\<close>: the formal
  transitions of a ticket.  A transition is one serializable PostgreSQL transaction over six tables
  (\<open>tickets\<close>, \<open>task_events\<close>, \<open>ticket_acceptance_history\<close>, \<open>ticket_acceptances\<close>,
  \<open>ticket_audit_events\<close>, \<open>ticket_command_receipts\<close>), modelled as a function from the input and the
  tables to an error or to the receipt and the new tables: an error leaves the tables alone.
  Random identifiers and the time are arguments; a violated key constraint is an error.  The
  theory holds the definitions, the contracts they provide and the properties.
\<close>

section \<open>Data\<close>

datatype lifecycle_action = ActAccept | ActComplete | ActCancel | ActReopen

record transition_input =
  ti_ticket :: string
  ti_action :: lifecycle_action
  ti_expected :: "rat option"  \<comment> \<open>\<open>None\<close> for \<open>NaN\<close> and the infinities\<close>
  ti_key :: string
  ti_actor :: string
  ti_evidence :: js
  ti_reason :: "utext option"  \<comment> \<open>a text or absent\<close>

record transition_receipt =
  tr_ticket :: string
  tr_action :: lifecycle_action
  tr_status :: string
  tr_version :: int
  tr_event :: string
  tr_replayed :: bool

text \<open>The columns of the rows that a transition reads or writes.\<close>

record ticket_row =
  t_id :: string
  t_owner :: string
  t_status :: string
  t_version :: int
  t_completed_at :: "int option"
  t_updated_at :: int

record task_event =
  ev_id :: string
  ev_item :: string
  ev_sequence :: int
  ev_type :: string
  ev_label :: utext
  ev_status :: string
  ev_summary :: utext
  ev_time :: int

record acceptance =
  ac_ticket :: string
  ac_event :: string
  ac_accepted_at :: int
  ac_owner :: string
  ac_accepted_by :: string
  ac_evidence :: js

record acceptance_entry = acceptance +
  ah_id :: string
  ah_version :: int

record audit_row =
  au_id :: string
  au_ticket :: string
  au_actor :: string
  au_action :: lifecycle_action
  au_expected :: "rat option"
  au_reason :: "utext option"
  au_evidence :: "js option"
  au_result :: transition_receipt

record receipt_row =
  rr_key :: string
  rr_ticket :: string
  rr_action :: lifecycle_action
  rr_result :: "transition_receipt option"  \<comment> \<open>\<open>None\<close> for a text that does not parse\<close>

record ticket_db =
  td_tickets :: "ticket_row list"
  td_events :: "task_event list"
  td_history :: "acceptance_entry list"
  td_acceptances :: "acceptance list"
  td_audit :: "audit_row list"
  td_receipts :: "receipt_row list"

datatype ticket_error =
    ExpectedVersionRequired | IdempotencyKeyRequired | AcceptanceEvidenceRequired | ReopenReasonRequired
  | TaskNotFound | IdempotencyKeyReused | ReceiptCorrupt | VersionConflict "(int \<times> int) option"
  | ActionNotAllowed | ConstraintViolated

section \<open>The contract\<close>

definition parseTicketLifecycleReceipt :: "transition_receipt option \<Rightarrow> ticket_error + transition_receipt" where
  "parseTicketLifecycleReceipt v = (case v of None \<Rightarrow> Inl ReceiptCorrupt | Some r \<Rightarrow> Inr r)"

definition ticketAllowedLifecycleActions :: "string \<Rightarrow> lifecycle_action list" where
  "ticketAllowedLifecycleActions status =
    (if status = ''completed'' then [ActReopen]
     else if status \<in> set [''failed'', ''cancelled''] then []
     else (if status \<in> set [''pending'', ''queued'', ''waiting'', ''needs_clarification''] then [ActCancel] else [])
        @ (if status = ''pending'' then [ActAccept] else [])
        @ (if status \<in> set [''accepted'', ''waiting'', ''waiting_approval'', ''in_progress''] then [ActComplete] else []))"

definition expected_ok :: "rat option \<Rightarrow> bool" where
  "expected_ok v = (case v of None \<Rightarrow> False | Some r \<Rightarrow> is_integer r \<and> 1 \<le> r)"

definition is_object :: "js \<Rightarrow> bool" where
  "is_object v = (case v of JObj _ \<Rightarrow> True | _ \<Rightarrow> False)"

definition reason_blank :: "utext option \<Rightarrow> bool" where
  "reason_blank r = (case r of None \<Rightarrow> True | Some t \<Rightarrow> text_trim t = [])"

definition validateTicketLifecycleCommand :: "transition_input \<Rightarrow> ticket_error option" where
  "validateTicketLifecycleCommand inp =
    (if \<not> expected_ok (ti_expected inp) then Some ExpectedVersionRequired
     else if length (ti_key inp) < 8 \<or> 200 < length (ti_key inp) then Some IdempotencyKeyRequired
     else if ti_action inp = ActComplete \<and> \<not> is_object (ti_evidence inp) then Some AcceptanceEvidenceRequired
     else if ti_action inp = ActReopen \<and> reason_blank (ti_reason inp) then Some ReopenReasonRequired
     else None)"

section \<open>The transition\<close>

fun nextStatus :: "lifecycle_action \<Rightarrow> string" where
  "nextStatus ActComplete = ''completed''"
| "nextStatus ActAccept = ''accepted''"
| "nextStatus ActReopen = ''pending''"
| "nextStatus ActCancel = ''cancelled''"

fun event_type :: "lifecycle_action \<Rightarrow> string" where
  "event_type ActComplete = ''task.accepted''"
| "event_type ActAccept = ''task.claimed''"
| "event_type ActReopen = ''task.reopened''"
| "event_type ActCancel = ''task.cancelled''"

fun event_label :: "lifecycle_action \<Rightarrow> utext" where
  "event_label ActComplete = [0x4EFB, 0x52A1, 0x9A8C, 0x6536, 0x5B8C, 0x6210]"
| "event_label ActAccept = [0x5DE5, 0x5355, 0x5DF2, 0x53D7, 0x7406]"
| "event_label ActReopen = [0x5DE5, 0x5355, 0x5DF2, 0x91CD, 0x5F00]"
| "event_label ActCancel = [0x4EFB, 0x52A1, 0x5DF2, 0x53D6, 0x6D88]"

definition CANCELLED_BEFORE_RUN :: utext where
  "CANCELLED_BEFORE_RUN = [0x4EFB, 0x52A1, 0x5728, 0x672A, 0x5F00, 0x59CB, 0x5916, 0x90E8, 0x6267, 0x884C, 0x524D,
     0x5DF2, 0x53D6, 0x6D88]"

fun safe_summary :: "lifecycle_action \<Rightarrow> utext option \<Rightarrow> utext" where
  "safe_summary ActComplete _ =
     [0x5DF2, 0x8BB0, 0x5F55, 0x9A8C, 0x6536, 0x8BC1, 0x636E, 0xFF1B, 0x8FD0, 0x884C, 0x6210, 0x529F, 0x4E0E, 0x5DE5,
      0x5355, 0x5B8C, 0x6210, 0x5206, 0x522B, 0x4FDD, 0x7559, 0x3002]"
| "safe_summary ActAccept _ =
     [0x4E3B, 0x53D7, 0x7406, 0x4EBA, 0x5DF2, 0x660E, 0x786E, 0x786E, 0x8BA4, 0x53D7, 0x7406, 0xFF1B, 0x6267, 0x884C,
      0x4E0E, 0x9A8C, 0x6536, 0x4ECD, 0x9700, 0x5355, 0x72EC, 0x8BB0, 0x5F55, 0x3002]"
| "safe_summary ActReopen r = take 1000 (case r of None \<Rightarrow> [] | Some t \<Rightarrow> t)"
| "safe_summary ActCancel r =
     take 1000 (case r of None \<Rightarrow> CANCELLED_BEFORE_RUN | Some t \<Rightarrow> if t = [] then CANCELLED_BEFORE_RUN else t)"

definition find_ticket :: "ticket_db \<Rightarrow> string \<Rightarrow> ticket_row option" where
  "find_ticket s i = find (\<lambda>t. t_id t = i) (td_tickets s)"

definition find_receipt :: "ticket_db \<Rightarrow> string \<Rightarrow> receipt_row option" where
  "find_receipt s k = find (\<lambda>r. rr_key r = k) (td_receipts s)"

definition current_version :: "ticket_row \<Rightarrow> int" where
  "current_version t = (if t_version t = 0 then 1 else t_version t)"

definition transition_row :: "lifecycle_action \<Rightarrow> int \<Rightarrow> ticket_row \<Rightarrow> ticket_row" where
  "transition_row a now t =
    t\<lparr>t_status := nextStatus a,
      t_completed_at := (if nextStatus a = ''completed'' then Some now
                         else if nextStatus a = ''pending'' then None else t_completed_at t),
      t_updated_at := now, t_version := t_version t + 1\<rparr>"

definition max_of :: "int list \<Rightarrow> int" where
  "max_of xs = fold max xs 0"

definition last_sequence :: "ticket_db \<Rightarrow> string \<Rightarrow> int" where
  "last_sequence s i = max_of (map ev_sequence (filter (\<lambda>e. ev_item e = i) (td_events s)))"

definition lifecycle_event :: "transition_input \<Rightarrow> string \<Rightarrow> int \<Rightarrow> ticket_db \<Rightarrow> task_event" where
  "lifecycle_event inp eid now s =
    (let a = ti_action inp in
     \<lparr>ev_id = eid, ev_item = ti_ticket inp, ev_sequence = last_sequence s (ti_ticket inp) + 1,
      ev_type = event_type a, ev_label = event_label a, ev_status = nextStatus a,
      ev_summary = safe_summary a (ti_reason inp), ev_time = now\<rparr>)"

definition last_acceptance :: "ticket_db \<Rightarrow> string \<Rightarrow> int" where
  "last_acceptance s i = max_of (map ah_version (filter (\<lambda>h. ac_ticket h = i) (td_history s)))"

definition acceptance_of :: "transition_input \<Rightarrow> ticket_row \<Rightarrow> string \<Rightarrow> int \<Rightarrow> acceptance" where
  "acceptance_of inp t eid now =
    \<lparr>ac_ticket = t_id t, ac_event = eid, ac_accepted_at = now, ac_owner = t_owner t, ac_accepted_by = ti_actor inp,
     ac_evidence = ti_evidence inp\<rparr>"

definition history_row :: "transition_input \<Rightarrow> ticket_row \<Rightarrow> string \<Rightarrow> string \<Rightarrow> int \<Rightarrow> ticket_db \<Rightarrow> acceptance_entry" where
  "history_row inp t eid hid now s =
    acceptance.extend (acceptance_of inp t eid now)
      (acceptance_entry.fields hid (last_acceptance s (t_id t) + 1))"

definition lifecycle_receipt :: "transition_input \<Rightarrow> ticket_row \<Rightarrow> string \<Rightarrow> transition_receipt" where
  "lifecycle_receipt inp updated eid =
    \<lparr>tr_ticket = t_id updated, tr_action = ti_action inp, tr_status = nextStatus (ti_action inp),
     tr_version = t_version updated, tr_event = eid, tr_replayed = False\<rparr>"

definition audit_of :: "transition_input \<Rightarrow> string \<Rightarrow> transition_receipt \<Rightarrow> audit_row" where
  "audit_of inp aid response =
    \<lparr>au_id = aid, au_ticket = ti_ticket inp, au_actor = ti_actor inp, au_action = ti_action inp,
     au_expected = ti_expected inp,
     au_reason = (case ti_reason inp of None \<Rightarrow> None | Some t \<Rightarrow> if t = [] then None else Some t),
     au_evidence = (if ti_action inp = ActComplete then Some (ti_evidence inp) else None), au_result = response\<rparr>"

definition ids_free :: "transition_input \<Rightarrow> string \<Rightarrow> string \<Rightarrow> string \<Rightarrow> ticket_db \<Rightarrow> bool" where
  \<comment> \<open>the primary and unique keys the inserts rely on\<close>
  "ids_free inp eid hid aid s \<longleftrightarrow>
     list_all (\<lambda>e. ev_id e \<noteq> eid) (td_events s) \<and> list_all (\<lambda>a. au_id a \<noteq> aid) (td_audit s)
     \<and> (ti_action inp = ActComplete \<longrightarrow> list_all (\<lambda>h. ah_id h \<noteq> hid \<and> ac_event h \<noteq> eid) (td_history s))"

definition write_transition ::
  "transition_input \<Rightarrow> ticket_row \<Rightarrow> string \<Rightarrow> string \<Rightarrow> string \<Rightarrow> int \<Rightarrow> ticket_db \<Rightarrow> transition_receipt \<times> ticket_db" where
  "write_transition inp t eid hid aid now s =
    (let a = ti_action inp; i = t_id t; others = filter (\<lambda>x. ac_ticket x \<noteq> i) (td_acceptances s);
         response = lifecycle_receipt inp (transition_row a now t) eid
     in (response,
         s\<lparr>td_tickets := map (\<lambda>x. if t_id x = i then transition_row a now x else x) (td_tickets s),
           td_events := td_events s @ [lifecycle_event inp eid now s],
           td_history := td_history s @ (if a = ActComplete then [history_row inp t eid hid now s] else []),
           td_acceptances :=
             (if a = ActComplete then others @ [acceptance_of inp t eid now]
              else if a = ActReopen then others else td_acceptances s),
           td_audit := td_audit s @ [audit_of inp aid response],
           td_receipts := td_receipts s
             @ [\<lparr>rr_key = ti_key inp, rr_ticket = i, rr_action = a, rr_result = Some response\<rparr>]\<rparr>))"

definition transitionTicketLifecyclePostgres ::
  "transition_input \<Rightarrow> string \<Rightarrow> string \<Rightarrow> string \<Rightarrow> int \<Rightarrow> ticket_db \<Rightarrow> ticket_error + transition_receipt \<times> ticket_db" where
  "transitionTicketLifecyclePostgres inp eid hid aid now s =
    (case validateTicketLifecycleCommand inp of
       Some e \<Rightarrow> Inl e
     | None \<Rightarrow>
       (case find_ticket s (ti_ticket inp) of
          None \<Rightarrow> Inl TaskNotFound
        | Some t \<Rightarrow>
          (case find_receipt s (ti_key inp) of
             Some replay \<Rightarrow>
               if rr_ticket replay \<noteq> ti_ticket inp \<or> rr_action replay \<noteq> ti_action inp then Inl IdempotencyKeyReused
               else (case parseTicketLifecycleReceipt (rr_result replay) of
                       Inl e \<Rightarrow> Inl e
                     | Inr r \<Rightarrow> Inr (r\<lparr>tr_replayed := True\<rparr>, s))
           | None \<Rightarrow>
               (let expected = (case ti_expected inp of None \<Rightarrow> 0 | Some r \<Rightarrow> \<lfloor>r\<rfloor>) in
                if current_version t \<noteq> expected then Inl (VersionConflict (Some (expected, current_version t)))
                else if ti_action inp \<notin> set (ticketAllowedLifecycleActions (t_status t)) then Inl ActionNotAllowed
                else if t_version t \<noteq> expected then Inl (VersionConflict None)
                else if \<not> ids_free inp eid hid aid s then Inl ConstraintViolated
                else Inr (write_transition inp t eid hid aid now s)))))"

datatype ticket_command = Transition transition_input string string string int

fun ticket_handler :: "ticket_db \<Rightarrow> ticket_command \<Rightarrow> ticket_error + transition_receipt \<times> ticket_db" where
  "ticket_handler s (Transition inp eid hid aid now) = transitionTicketLifecyclePostgres inp eid hid aid now s"

end
