(* ===== verification/Ticket_Properties.thy ===== *)
theory Ticket_Properties
  imports Ticket_Lifecycle
begin

text \<open>
  What the ticket transitions guarantee: the invariant of the tables and its preservation, the
  contracts \<open>idempotent_machine\<close>, \<open>versioned_machine\<close> and \<open>ledger_machine\<close> on the handler, and the
  properties that rest on them.
\<close>

section \<open>Outcomes of a transition\<close>

lemma transition_Inr:
  assumes "transitionTicketLifecyclePostgres inp eid hid aid now s = Inr (r, s')"
  obtains (replayed) q r0 where "find_receipt s (ti_key inp) = Some q" "rr_result q = Some r0"
      "r = r0\<lparr>tr_replayed := True\<rparr>" "s' = s"
  | (written) t where "find_ticket s (ti_ticket inp) = Some t" "find_receipt s (ti_key inp) = None"
      "\<exists>q. ti_expected inp = Some q \<and> t_version t = \<lfloor>q\<rfloor>"
      "ti_action inp \<in> set (ticketAllowedLifecycleActions (t_status t))"
      "write_transition inp t eid hid aid now s = (r, s')"
  using assms
  by (auto simp: transitionTicketLifecyclePostgres_def parseTicketLifecycleReceipt_def Let_def
      validateTicketLifecycleCommand_def expected_ok_def split: option.splits if_splits)

lemma find_ticket_Some: "find_ticket s i = Some t \<Longrightarrow> t \<in> set (td_tickets s) \<and> t_id t = i"
  by (auto simp: find_ticket_def dest: find_SomeD)

lemma write_simps:
  assumes "write_transition inp t eid hid aid now s = (r, s')"
  shows "r = lifecycle_receipt inp (transition_row (ti_action inp) now t) eid"
    and "td_tickets s' = map (\<lambda>x. if t_id x = t_id t then transition_row (ti_action inp) now x else x) (td_tickets s)"
    and "td_events s' = td_events s @ [lifecycle_event inp eid now s]"
    and "td_history s' = td_history s @ (if ti_action inp = ActComplete then [history_row inp t eid hid now s] else [])"
    and "td_receipts s' = td_receipts s
       @ [\<lparr>rr_key = ti_key inp, rr_ticket = t_id t, rr_action = ti_action inp, rr_result = Some r\<rparr>]"
    and "td_acceptances s' =
      (if ti_action inp = ActComplete then filter (\<lambda>x. ac_ticket x \<noteq> t_id t) (td_acceptances s) @ [acceptance_of inp t eid now]
       else if ti_action inp = ActReopen then filter (\<lambda>x. ac_ticket x \<noteq> t_id t) (td_acceptances s)
       else td_acceptances s)"
  using assms by (auto simp: write_transition_def Let_def)

lemma transition_row_simps [simp]:
  "t_id (transition_row a now t) = t_id t" "t_version (transition_row a now t) = t_version t + 1"
  "t_status (transition_row a now t) = nextStatus a" "t_owner (transition_row a now t) = t_owner t"
  by (simp_all add: transition_row_def)

lemma lifecycle_event_simps [simp]:
  "ev_item (lifecycle_event inp eid now s) = ti_ticket inp"
  "ev_sequence (lifecycle_event inp eid now s) = last_sequence s (ti_ticket inp) + 1"
  by (simp_all add: lifecycle_event_def Let_def)

lemma history_row_simps [simp]:
  "ac_ticket (history_row inp t eid hid now s) = t_id t"
  "ah_version (history_row inp t eid hid now s) = last_acceptance s (t_id t) + 1"
  "acceptance.truncate (history_row inp t eid hid now s) = acceptance_of inp t eid now"
  by (simp_all add: history_row_def acceptance_of_def acceptance.defs acceptance_entry.defs)

lemma acceptance_of_simps [simp]: "ac_ticket (acceptance_of inp t eid now) = t_id t"
  by (simp add: acceptance_of_def)

lemma nextStatus_completed: "nextStatus a = ''completed'' \<longleftrightarrow> a = ActComplete"
  by (cases a) simp_all

lemma allowed_completed:
  "a \<in> set (ticketAllowedLifecycleActions ''completed'') \<Longrightarrow> a = ActReopen"
  "ActReopen \<in> set (ticketAllowedLifecycleActions st) \<Longrightarrow> st = ''completed''"
  by (auto simp: ticketAllowedLifecycleActions_def split: if_splits)

lemma fold_max_ge: "(m::int) \<le> fold max xs m \<and> (\<forall>x \<in> set xs. x \<le> fold max xs m)"
proof (induction xs arbitrary: m)
  case (Cons x xs)
  from Cons [of "max x m"] show ?case by auto
qed simp

lemma max_of_ge: "x \<in> set xs \<Longrightarrow> x \<le> max_of xs"
  using fold_max_ge by (simp add: max_of_def)

section \<open>The invariant\<close>

definition of_ticket :: "ticket_db \<Rightarrow> string \<Rightarrow> acceptance_entry list" where
  "of_ticket s i = filter (\<lambda>h. ac_ticket h = i) (td_history s)"

definition events_of :: "ticket_db \<Rightarrow> string \<Rightarrow> task_event list" where
  "events_of s i = filter (\<lambda>e. ev_item e = i) (td_events s)"

text \<open>Keys are unique, no stored receipt says it was replayed, the acceptances of a ticket are
  numbered from one without a gap, its events carry increasing sequence numbers, and a ticket has a
  current acceptance, the one last recorded in its history, exactly while it is completed.\<close>

definition tickets_ok :: "ticket_db \<Rightarrow> bool" where
  "tickets_ok s \<longleftrightarrow>
     distinct (map t_id (td_tickets s)) \<and> distinct (map rr_key (td_receipts s))
     \<and> (\<forall>q \<in> set (td_receipts s). \<forall>r. rr_result q = Some r \<longrightarrow> \<not> tr_replayed r)
     \<and> (\<forall>i. map ah_version (of_ticket s i) = [1..int (length (of_ticket s i))])
     \<and> (\<forall>i. sorted_wrt (<) (map ev_sequence (events_of s i)))
     \<and> (\<forall>t \<in> set (td_tickets s). t_status t = ''completed'' \<longleftrightarrow> (\<exists>a \<in> set (td_acceptances s). ac_ticket a = t_id t))
     \<and> (\<forall>a \<in> set (td_acceptances s). of_ticket s (ac_ticket a) \<noteq> []
          \<and> a = acceptance.truncate (last (of_ticket s (ac_ticket a))))"

lemma max_of_numbers: "max_of [1..int n] = int n"
proof (cases n)
  case 0
  then show ?thesis by (simp add: max_of_def)
next
  case (Suc k)
  have "int n \<le> max_of [1..int n]" using Suc by (intro max_of_ge) simp
  moreover have "fold max xs m \<le> u" if "\<forall>x \<in> set xs. x \<le> u" "(m::int) \<le> u" for xs m u
    using that by (induction xs arbitrary: m) auto
  then have "max_of [1..int n] \<le> int n" by (simp add: max_of_def)
  ultimately show ?thesis by simp
qed

lemma numbers_snoc: "[1..int n + 1] = [1..int n] @ [int n + 1]"
  using upto_rec2 [of 1 "int n + 1"] by simp

lemma written_history:
  assumes "tickets_ok s" and "write_transition inp t eid hid aid now s = (r, s')"
  shows "map ah_version (of_ticket s' i) = [1..int (length (of_ticket s' i))]"
proof -
  have num: "map ah_version (of_ticket s i) = [1..int (length (of_ticket s i))]" for i
    using assms(1) by (simp add: tickets_ok_def)
  have "last_acceptance s i = int (length (of_ticket s i))" for i
    using num [of i] by (simp add: last_acceptance_def of_ticket_def max_of_numbers)
  then show ?thesis
    using num [of i] by (simp add: of_ticket_def write_simps [OF assms(2)] numbers_snoc)
qed

lemma written_events:
  assumes "tickets_ok s" and "write_transition inp t eid hid aid now s = (r, s')"
  shows "sorted_wrt (<) (map ev_sequence (events_of s' i))"
proof -
  have "sorted_wrt (<) (map ev_sequence (events_of s i))" using assms(1) by (simp add: tickets_ok_def)
  moreover have "q \<le> last_sequence s i" if "q \<in> set (map ev_sequence (events_of s i))" for q
    using that unfolding last_sequence_def events_of_def by (rule max_of_ge)
  ultimately show ?thesis
    by (force simp: events_of_def write_simps [OF assms(2)] sorted_wrt_append)
qed

lemma written_completed:
  assumes ok: "tickets_ok s" and w: "write_transition inp t eid hid aid now s = (r, s')"
    and t: "t \<in> set (td_tickets s)" and allowed: "ti_action inp \<in> set (ticketAllowedLifecycleActions (t_status t))"
    and u: "u \<in> set (td_tickets s')"
  shows "t_status u = ''completed'' \<longleftrightarrow> (\<exists>a \<in> set (td_acceptances s'). ac_ticket a = t_id u)"
proof -
  have old: "\<And>u. u \<in> set (td_tickets s) \<Longrightarrow> t_status u = ''completed'' \<longleftrightarrow> (\<exists>a \<in> set (td_acceptances s). ac_ticket a = t_id u)"
    using ok by (simp add: tickets_ok_def)
  obtain v where v: "v \<in> set (td_tickets s)" "u = (if t_id v = t_id t then transition_row (ti_action inp) now v else v)"
    using u by (auto simp: write_simps [OF w])
  show ?thesis
  proof (cases "t_id v = t_id t")
    case False
    with v old [OF v(1)] show ?thesis by (auto simp: write_simps [OF w])
  next
    case True
    have "ti_action inp \<noteq> ActComplete \<Longrightarrow> ti_action inp \<noteq> ActReopen \<Longrightarrow> \<not> (\<exists>a \<in> set (td_acceptances s). ac_ticket a = t_id t)"
      using allowed old [OF t] allowed_completed(1) by metis
    with True v show ?thesis by (auto simp: write_simps [OF w] nextStatus_completed)
  qed
qed

lemma written_acceptances:
  assumes ok: "tickets_ok s" and w: "write_transition inp t eid hid aid now s = (r, s')"
    and t: "t \<in> set (td_tickets s)" and allowed: "ti_action inp \<in> set (ticketAllowedLifecycleActions (t_status t))"
    and a: "a \<in> set (td_acceptances s')"
  shows "of_ticket s' (ac_ticket a) \<noteq> [] \<and> a = acceptance.truncate (last (of_ticket s' (ac_ticket a)))"
proof -
  have old: "\<And>a. a \<in> set (td_acceptances s) \<Longrightarrow> of_ticket s (ac_ticket a) \<noteq> []
      \<and> a = acceptance.truncate (last (of_ticket s (ac_ticket a)))"
    using ok by (simp add: tickets_ok_def)
  have hist: "of_ticket s' i = of_ticket s i @ (if ti_action inp = ActComplete \<and> i = t_id t then [history_row inp t eid hid now s] else [])" for i
    by (simp add: of_ticket_def write_simps [OF w])
  from a consider "a \<in> set (td_acceptances s)" "ti_action inp = ActComplete \<longrightarrow> ac_ticket a \<noteq> t_id t"
    | "ti_action inp = ActComplete" "a = acceptance_of inp t eid now"
    by (auto simp: write_simps [OF w] split: if_splits)
  then show ?thesis
  proof cases
    case 1
    then show ?thesis using old [of a] by (auto simp: hist)
  next
    case 2
    then show ?thesis by (simp add: hist)
  qed
qed

lemma tickets_preserved:
  assumes ok: "tickets_ok s" and h: "ticket_handler s c = Inr (r, s')"
  shows "tickets_ok s'"
proof -
  obtain inp eid hid aid now where c: "c = Transition inp eid hid aid now" by (cases c) auto
  from h have tr: "transitionTicketLifecyclePostgres inp eid hid aid now s = Inr (r, s')" by (simp add: c)
  then show ?thesis
  proof (cases rule: transition_Inr)
    case (written t)
    note w = written(5) and t = find_ticket_Some [OF written(1), THEN conjunct1]
    have "map t_id (td_tickets s') = map t_id (td_tickets s)" by (simp add: write_simps [OF w])
    moreover have "ti_key inp \<notin> rr_key ` set (td_receipts s)"
      using written(2) by (auto simp: find_receipt_def find_None_iff)
    moreover have "\<not> tr_replayed r" by (simp add: write_simps(1) [OF w] lifecycle_receipt_def)
    ultimately show ?thesis
      using ok written_history [OF ok w] written_events [OF ok w] written_completed [OF ok w t written(4)]
        written_acceptances [OF ok w t written(4)]
      unfolding tickets_ok_def by (simp add: write_simps(5) [OF w])
  qed (use ok in simp)
qed

section \<open>Contracts\<close>

definition version_of :: "ticket_db \<Rightarrow> string \<Rightarrow> int" where
  "version_of s i = (case find_ticket s i of None \<Rightarrow> 0 | Some t \<Rightarrow> t_version t)"

definition closed_ticket :: "ticket_db \<Rightarrow> string \<Rightarrow> ticket_row option" where
  "closed_ticket s i =
    (case find_ticket s i of None \<Rightarrow> None | Some t \<Rightarrow> if t_status t \<in> {''failed'', ''cancelled''} then Some t else None)"

definition recorded_receipt :: "ticket_db \<Rightarrow> string \<Rightarrow> transition_receipt option" where
  "recorded_receipt s k = (case find_receipt s k of None \<Rightarrow> None | Some q \<Rightarrow> rr_result q)"

fun command_key :: "ticket_command \<Rightarrow> string option" where
  "command_key (Transition inp eid hid aid now) = Some (ti_key inp)"

definition first_answer :: "transition_receipt \<Rightarrow> transition_receipt" where
  "first_answer r = r\<lparr>tr_replayed := False\<rparr>"

lemma find_map_row: "(\<And>x. t_id (f x) = t_id x) \<Longrightarrow>
    find (\<lambda>t. t_id t = i) (map f ts) = map_option f (find (\<lambda>t. t_id t = i) ts)"
  by (induction ts) auto

lemma written_ticket:
  assumes "write_transition inp t eid hid aid now s = (r, s')"
  shows "find_ticket s' i =
    map_option (\<lambda>x. if t_id x = t_id t then transition_row (ti_action inp) now x else x) (find_ticket s i)"
  by (simp add: find_ticket_def write_simps(2) [OF assms] find_map_row)

lemma find_snoc: "find P (xs @ [x]) = (case find P xs of Some y \<Rightarrow> Some y | None \<Rightarrow> if P x then Some x else None)"
  by (induction xs) auto

lemma written_receipt:
  assumes "write_transition inp t eid hid aid now s = (r, s')"
  shows "recorded_receipt s' k = (case find_receipt s k of Some q \<Rightarrow> rr_result q | None \<Rightarrow> if k = ti_key inp then Some r else None)"
  by (simp add: recorded_receipt_def find_receipt_def write_simps(5) [OF assms] find_snoc split: option.splits)

lemma recorded_kept:
  assumes "write_transition inp t eid hid aid now s = (r, s')" and "recorded_receipt s k = Some v"
  shows "recorded_receipt s' k = Some v"
  using assms(2) by (auto simp: written_receipt [OF assms(1)]) (auto simp: recorded_receipt_def split: option.splits)

lemma receipt_not_replayed:
  "tickets_ok s \<Longrightarrow> find_receipt s k = Some q \<Longrightarrow> rr_result q = Some r \<Longrightarrow> \<not> tr_replayed r"
  by (auto simp: tickets_ok_def find_receipt_def dest!: find_SomeD)

lemma first_answer_replayed: "\<not> tr_replayed r \<Longrightarrow> first_answer (r\<lparr>tr_replayed := x\<rparr>) = r"
  by (cases r) (simp add: first_answer_def)

lemma written_answer: "write_transition inp t eid hid aid now s = (r, s') \<Longrightarrow> first_answer r = r"
  by (drule write_simps(1)) (simp add: first_answer_def lifecycle_receipt_def)

interpretation tv: versioned_machine ticket_handler tickets_ok version_of
proof
  fix s s' :: ticket_db and c r k
  show "tickets_ok s \<Longrightarrow> ticket_handler s c = Inr (r, s') \<Longrightarrow> tickets_ok s'" by (rule tickets_preserved)
  show "ticket_handler s c = Inr (r, s') \<Longrightarrow> version_of s k \<le> version_of s' k"
    by (cases c) (auto elim!: transition_Inr simp: version_of_def written_ticket split: option.splits)
qed

lemma closed_recorded:
  assumes h: "ticket_handler s c = Inr (r, s')" and closed: "closed_ticket s i = Some t"
  shows "closed_ticket s' i = Some t"
proof -
  obtain inp eid hid aid now where c: "c = Transition inp eid hid aid now" by (cases c) auto
  from h have tr: "transitionTicketLifecyclePostgres inp eid hid aid now s = Inr (r, s')" by (simp add: c)
  have t: "find_ticket s i = Some t" "t_status t \<in> {''failed'', ''cancelled''}"
    using closed by (auto simp: closed_ticket_def split: option.splits if_splits)
  from tr show ?thesis
  proof (cases rule: transition_Inr)
    case (written u)
    have "t_id u \<noteq> t_id t"
    proof
      assume "t_id u = t_id t"
      then have "ti_ticket inp = i" using find_ticket_Some [OF written(1)] find_ticket_Some [OF t(1)] by simp
      then have "u = t" using written(1) t(1) by simp
      with written(4) t(2) show False by (auto simp: ticketAllowedLifecycleActions_def)
    qed
    then show ?thesis using t written_ticket [OF written(5), of i] by (simp add: closed_ticket_def)
  qed (use closed in simp)
qed

interpretation tl: ledger_machine ticket_handler tickets_ok closed_ticket
  by unfold_locales (rule closed_recorded)

interpretation ti: idempotent_machine ticket_handler tickets_ok recorded_receipt command_key first_answer
proof
  fix s s' :: ticket_db and c r k v
  obtain inp eid hid aid now where c: "c = Transition inp eid hid aid now" by (cases c) auto
  show "ticket_handler s c = Inr (r, s') \<Longrightarrow> recorded_receipt s k = Some v \<Longrightarrow> recorded_receipt s' k = Some v"
    by (auto simp: c elim!: transition_Inr dest: recorded_kept)
  show "tickets_ok s \<Longrightarrow> ticket_handler s c = Inr (r, s') \<Longrightarrow> command_key c = Some k
    \<Longrightarrow> recorded_receipt s' k = Some (first_answer r)"
    by (auto simp: c written_receipt written_answer elim!: transition_Inr)
      (simp add: recorded_receipt_def first_answer_replayed receipt_not_replayed)
  show "tickets_ok s \<Longrightarrow> command_key c = Some k \<Longrightarrow> recorded_receipt s k = Some v
    \<Longrightarrow> ticket_handler s c = Inr (r, s') \<Longrightarrow> s' = s \<and> first_answer r = v"
    by (auto simp: c recorded_receipt_def first_answer_replayed receipt_not_replayed elim!: transition_Inr)
qed

definition versions_counted :: "ticket_db \<Rightarrow> bool" where
  "versions_counted s \<longleftrightarrow>
     tickets_ok s \<and> (\<forall>t \<in> set (td_tickets s). t_version t = 1 + int (length (events_of s (t_id t))))"

lemma counted_preserved:
  assumes ok: "versions_counted s" and h: "ticket_handler s c = Inr (r, s')"
  shows "versions_counted s'"
proof -
  obtain inp eid hid aid now where c: "c = Transition inp eid hid aid now" by (cases c) auto
  from h have tr: "transitionTicketLifecyclePostgres inp eid hid aid now s = Inr (r, s')" by (simp add: c)
  have "tickets_ok s'" using ok tickets_preserved [OF _ h] by (simp add: versions_counted_def)
  from tr show ?thesis
  proof (cases rule: transition_Inr)
    case (written t)
    have "events_of s' i = events_of s i @ (if i = t_id t then [lifecycle_event inp eid now s] else [])" for i
      using find_ticket_Some [OF written(1)] by (simp add: events_of_def write_simps(3) [OF written(5)])
    with \<open>tickets_ok s'\<close> ok show ?thesis by (auto simp: versions_counted_def write_simps(2) [OF written(5)])
  qed (use ok in simp)
qed

interpretation tc: guarded_machine ticket_handler versions_counted
  by unfold_locales (rule counted_preserved)

section \<open>Properties\<close>

text \<open>Tickets as their creation leaves them: at version one, not completed, nothing recorded.\<close>

definition fresh_tickets :: "ticket_row list \<Rightarrow> ticket_db" where
  "fresh_tickets ts =
    \<lparr>td_tickets = ts, td_events = [], td_history = [], td_acceptances = [], td_audit = [], td_receipts = []\<rparr>"

definition created :: "ticket_row list \<Rightarrow> bool" where
  "created ts \<longleftrightarrow> distinct (map t_id ts) \<and> list_all (\<lambda>t. t_version t = 1 \<and> t_status t \<noteq> ''completed'') ts"

lemma fresh_counted: "created ts \<Longrightarrow> versions_counted (fresh_tickets ts)"
  by (auto simp: versions_counted_def tickets_ok_def fresh_tickets_def created_def of_ticket_def events_of_def list_all_iff)

text \<open>
  C33. A ticket command takes effect once: after a successful transition, whatever other commands are
  served, a command with the same idempotency key that succeeds changes nothing and answers with the
  first receipt, apart from the mark that it was replayed.
\<close>

theorem ticket_commands_exactly_once:
  assumes "tickets_ok s" and "transitionTicketLifecyclePostgres inp eid hid aid now s = Inr (r, s1)"
    and "serves ticket_handler s1 s2" and "ti_key inp' = ti_key inp"
    and "transitionTicketLifecyclePostgres inp' eid' hid' aid' now' s2 = Inr (r', s3)"
  shows "s3 = s2 \<and> r'\<lparr>tr_replayed := False\<rparr> = r\<lparr>tr_replayed := False\<rparr>"
  using ti.exactly_once [of s "Transition inp eid hid aid now" r s1 s2 "ti_key inp" "Transition inp' eid' hid' aid' now'" r' s3]
    assms by (simp add: first_answer_def)

text \<open>
  Optimistic concurrency: once a transition was written at an expected version, no other new
  command that expects the same version of the ticket succeeds, whatever is served in between.
\<close>

theorem stale_version_refused:
  assumes ok: "tickets_ok s" and first: "transitionTicketLifecyclePostgres inp eid hid aid now s = Inr (r, s1)"
    and new: "\<not> tr_replayed r" and run: "serves ticket_handler s1 s2"
    and same: "ti_ticket inp' = ti_ticket inp" "ti_expected inp' = ti_expected inp"
    and key: "find_receipt s2 (ti_key inp') = None"
  shows "\<exists>e. transitionTicketLifecyclePostgres inp' eid' hid' aid' now' s2 = Inl e"
proof (cases "transitionTicketLifecyclePostgres inp' eid' hid' aid' now' s2")
  case (Inr answer)
  obtain r' s3 where snd: "transitionTicketLifecyclePostgres inp' eid' hid' aid' now' s2 = Inr (r', s3)"
    using Inr by (cases answer) simp
  from first obtain t q where t: "find_ticket s (ti_ticket inp) = Some t" "ti_expected inp = Some q" "t_version t = \<lfloor>q\<rfloor>"
    "write_transition inp t eid hid aid now s = (r, s1)"
    using new by (cases rule: transition_Inr) auto
  have "version_of s1 (ti_ticket inp) = \<lfloor>q\<rfloor> + 1"
    using t written_ticket [OF t(4), of "ti_ticket inp"] by (simp add: version_of_def)
  moreover have "tickets_ok s1" using tickets_preserved [OF ok, of "Transition inp eid hid aid now"] first by simp
  ultimately have "\<lfloor>q\<rfloor> < version_of s2 (ti_ticket inp)"
    using tv.serves_monotone [OF run, of "ti_ticket inp"] by simp
  moreover from snd have "version_of s2 (ti_ticket inp) = \<lfloor>q\<rfloor>"
    using key t(2) same by (cases rule: transition_Inr) (auto simp: version_of_def)
  ultimately show ?thesis by simp
qed simp

text \<open>
  As long as only the transitions write: a ticket is completed exactly while it has a current
  acceptance, that acceptance is the last one of its history, and its acceptances are numbered one,
  two, three without a gap.
\<close>

theorem completed_iff_accepted:
  assumes "created ts" and "serves ticket_handler (fresh_tickets ts) s" and "t \<in> set (td_tickets s)"
  shows "(t_status t = ''completed'' \<longleftrightarrow> (\<exists>a \<in> set (td_acceptances s). ac_ticket a = t_id t))
    \<and> (\<forall>a \<in> set (td_acceptances s). ac_ticket a = t_id t
         \<longrightarrow> a = acceptance.truncate (last (filter (\<lambda>h. ac_ticket h = t_id t) (td_history s))))
    \<and> map ah_version (filter (\<lambda>h. ac_ticket h = t_id t) (td_history s))
       = [1..int (length (filter (\<lambda>h. ac_ticket h = t_id t) (td_history s)))]"
proof -
  have "tickets_ok s" using tc.serves_inv [OF assms(2) fresh_counted [OF assms(1)]] by (simp add: versions_counted_def)
  then show ?thesis using assms(3) by (auto simp: tickets_ok_def of_ticket_def)
qed

section \<open>Acceptances beside the other writers of tickets\<close>

text \<open>
  The transitions are not the only writers of \<open>tickets\<close>, \<open>task_events\<close>, \<open>ticket_audit_events\<close> and
  \<open>ticket_command_receipts\<close>: running tasks, their recovery and the host set the status of a ticket,
  also to completed (\<open>tasks/runtime-task-state.ts\<close>, \<open>host/task-run-recovery.ts\<close>, \<open>host/api.ts\<close>), and
  the rest of the ticket domain records events, audits and receipts.  Nothing but the transition
  writes \<open>ticket_acceptances\<close> and \<open>ticket_acceptance_history\<close>, but for the migration that copied older
  acceptances once and \<open>ticket-lifecycle-legacy.ts\<close>, which nothing imports; a run starts with the two
  tables empty.  So any other writer is a step to
  any state with the same two tables; \<open>acts\<close> is the list of the transitions carried out.
\<close>

inductive ticket_run :: "(string \<times> lifecycle_action) list \<Rightarrow> ticket_db \<Rightarrow> bool" where
  run_start: "td_history s = [] \<Longrightarrow> td_acceptances s = [] \<Longrightarrow> ticket_run [] s"
| run_transition: "ticket_run acts s \<Longrightarrow> transitionTicketLifecyclePostgres inp eid hid aid now s = Inr (r, s')
    \<Longrightarrow> ticket_run (if tr_replayed r then acts else acts @ [(ti_ticket inp, ti_action inp)]) s'"
| run_other: "ticket_run acts s \<Longrightarrow> td_history s' = td_history s \<Longrightarrow> td_acceptances s' = td_acceptances s
    \<Longrightarrow> ticket_run acts s'"

definition completions :: "(string \<times> lifecycle_action) list \<Rightarrow> string \<Rightarrow> lifecycle_action list" where
  \<comment> \<open>the completions and reopenings of a ticket, in their order\<close>
  "completions acts i = [a. (k, a) \<leftarrow> acts, k = i \<and> a \<in> {ActComplete, ActReopen}]"

definition last_completes :: "(string \<times> lifecycle_action) list \<Rightarrow> string \<Rightarrow> bool" where
  "last_completes acts i \<longleftrightarrow> completions acts i \<noteq> [] \<and> last (completions acts i) = ActComplete"

lemma completions_snoc: "completions (acts @ [(k, a)]) i =
    completions acts i @ (if k = i \<and> a \<in> {ActComplete, ActReopen} then [a] else [])"
  by (simp add: completions_def)

definition acceptances_follow :: "(string \<times> lifecycle_action) list \<Rightarrow> ticket_db \<Rightarrow> string \<Rightarrow> bool" where
  "acceptances_follow acts s i \<longleftrightarrow>
     filter (\<lambda>a. ac_ticket a = i) (td_acceptances s)
       = (if last_completes acts i then [acceptance.truncate (last (of_ticket s i))] else [])
     \<and> map ah_version (of_ticket s i) = [1..int (length (of_ticket s i))]
     \<and> length (of_ticket s i) = length (filter (\<lambda>a. a = ActComplete) (completions acts i))"

lemma write_follows:
  assumes "acceptances_follow acts s i" and "write_transition inp t eid hid aid now s = (r, s')" and "t_id t = ti_ticket inp"
  shows "acceptances_follow (acts @ [(ti_ticket inp, ti_action inp)]) s' i"
proof -
  note w = write_simps [OF assms(2), unfolded assms(3)]
  have hist: "of_ticket s' i = of_ticket s i @ (if ti_action inp = ActComplete \<and> i = ti_ticket inp then [history_row inp t eid hid now s] else [])"
    using assms(3) by (simp add: of_ticket_def w(4))
  have num: "map ah_version (of_ticket s i) = [1..int (length (of_ticket s i))]" using assms(1) by (simp add: acceptances_follow_def)
  then have lst: "last_acceptance s i = int (length (of_ticket s i))"
    by (simp add: last_acceptance_def of_ticket_def max_of_numbers)
  have acc: "filter (\<lambda>a. ac_ticket a = i) (td_acceptances s') =
      (if i = ti_ticket inp \<and> ti_action inp = ActComplete then [acceptance_of inp t eid now]
       else if i = ti_ticket inp \<and> ti_action inp = ActReopen then [] else filter (\<lambda>a. ac_ticket a = i) (td_acceptances s))"
    using assms(3) by (auto simp: w(6) filter_empty_conv intro!: filter_cong)
  show ?thesis
  proof (cases "i = ti_ticket inp")
    case True
    then show ?thesis using assms(1) num lst acc hist assms(3)
      by (cases "ti_action inp") (simp_all add: acceptances_follow_def completions_snoc last_completes_def numbers_snoc [unfolded add.commute [of _ 1]] numbers_snoc)
  next
    case False
    then show ?thesis using assms(1) acc hist
      by (simp add: acceptances_follow_def completions_snoc last_completes_def)
  qed
qed

lemma run_follows: "ticket_run acts s \<Longrightarrow> acceptances_follow acts s i"
proof (induction rule: ticket_run.induct)
  case (run_start s)
  then show ?case by (simp add: acceptances_follow_def completions_def last_completes_def of_ticket_def)
next
  case (run_transition acts s inp eid hid aid now r s')
  from run_transition(2) show ?case
  proof (cases rule: transition_Inr)
    case replayed
    then show ?thesis using run_transition(3) by simp
  next
    case (written t)
    then have "\<not> tr_replayed r" using write_simps(1) [OF written(5)] by (simp add: lifecycle_receipt_def)
    then show ?thesis using write_follows [OF run_transition(3) written(5)] find_ticket_Some [OF written(1)] by simp
  qed
next
  case (run_other acts s s')
  then show ?case by (simp add: acceptances_follow_def of_ticket_def)
qed

text \<open>
  C34. Acceptance is a fact of its own, whatever the other writers do to the tickets: from empty tables of
  acceptances, and as long as only the transitions write these, a ticket has a
  current acceptance exactly when the last completion or reopening the transitions carried out for
  it was a completion; it is then the only one and the last entry of its history; and the history
  has one entry for each completion, numbered one, two, three without a gap.
\<close>

theorem acceptance_is_last_completion:
  assumes "ticket_run acts s"
  shows "((\<exists>a \<in> set (td_acceptances s). ac_ticket a = i)
        \<longleftrightarrow> completions acts i \<noteq> [] \<and> last (completions acts i) = ActComplete)
    \<and> (\<forall>a \<in> set (td_acceptances s). ac_ticket a = i
         \<longrightarrow> filter (\<lambda>h. ac_ticket h = i) (td_history s) \<noteq> []
           \<and> a = acceptance.truncate (last (filter (\<lambda>h. ac_ticket h = i) (td_history s))))
    \<and> length (filter (\<lambda>a. ac_ticket a = i) (td_acceptances s)) \<le> 1
    \<and> map ah_version (filter (\<lambda>h. ac_ticket h = i) (td_history s))
       = [1..int (length (filter (\<lambda>a. a = ActComplete) (completions acts i)))]"
proof -
  note follows = run_follows [OF assms, of i, unfolded acceptances_follow_def last_completes_def of_ticket_def]
  let ?accs = "filter (\<lambda>a. ac_ticket a = i) (td_acceptances s)" and ?hist = "filter (\<lambda>h. ac_ticket h = i) (td_history s)"
  have mem: "a \<in> set (td_acceptances s) \<and> ac_ticket a = i \<longleftrightarrow> a \<in> set ?accs" for a by auto
  have some: "?hist \<noteq> []" if "completions acts i \<noteq> []" "last (completions acts i) = ActComplete"
  proof -
    have "ActComplete \<in> set (completions acts i)" using that last_in_set by metis
    then have "0 < length (filter (\<lambda>a. a = ActComplete) (completions acts i))"
      by (metis (mono_tags, lifting) filter_empty_conv length_greater_0_conv)
    then show ?thesis using follows by force
  qed
  show ?thesis
  proof (cases "completions acts i \<noteq> [] \<and> last (completions acts i) = ActComplete")
    case True
    then have one: "?accs = [acceptance.truncate (last ?hist)]" using follows by simp
    show ?thesis using True one some follows mem [of "acceptance.truncate (last ?hist)"] mem by auto
  next
    case False
    then have none: "?accs = []" using follows by simp
    then have "\<not> (\<exists>a \<in> set (td_acceptances s). ac_ticket a = i)" by (auto simp: filter_empty_conv)
    then show ?thesis using False none follows by auto
  qed
qed

text \<open>
  The version of a ticket counts its formal events: in every state the transitions reach, each
  ticket is at one plus the number of its lifecycle events, whose sequence numbers increase.
\<close>

theorem version_counts_events:
  assumes "created ts" and "serves ticket_handler (fresh_tickets ts) s" and "t \<in> set (td_tickets s)"
  shows "t_version t = 1 + int (length (filter (\<lambda>e. ev_item e = t_id t) (td_events s)))
    \<and> sorted_wrt (<) (map ev_sequence (filter (\<lambda>e. ev_item e = t_id t) (td_events s)))"
  using tc.serves_inv [OF assms(2) fresh_counted [OF assms(1)]] assms(3)
  by (simp add: versions_counted_def tickets_ok_def events_of_def)

text \<open>
  Closed tickets stay closed: the row of a failed or cancelled ticket is never changed by a
  transition.
\<close>

theorem closed_ticket_final:
  assumes "tickets_ok s" and "find_ticket s i = Some t" and "t_status t \<in> {''failed'', ''cancelled''}"
    and "serves ticket_handler s s'"
  shows "find_ticket s' i = Some t"
  using tl.serves_fact [OF assms(4,1), of i t] assms(2,3)
  by (auto simp: closed_ticket_def split: option.splits if_splits)

section \<open>Witnesses\<close>

definition sample_ticket :: ticket_row where
  "sample_ticket = \<lparr>t_id = ''tk_1'', t_owner = ''u1'', t_status = ''pending'', t_version = 1, t_completed_at = None,
     t_updated_at = 0\<rparr>"

definition sample_transition :: "lifecycle_action \<Rightarrow> string \<Rightarrow> transition_input" where
  "sample_transition a k = \<lparr>ti_ticket = ''tk_1'', ti_action = a, ti_expected = Some 1, ti_key = k, ti_actor = ''u2'',
     ti_evidence = JUndefined, ti_reason = None\<rparr>"

definition sample_store :: ticket_db where
  "sample_store = fresh_tickets [sample_ticket]"

definition cancelled_store :: ticket_db where
  "cancelled_store = snd (write_transition (sample_transition ActCancel ''key-00001'') sample_ticket ''e1'' ''h1'' ''a1'' 5 sample_store)"

lemma sample_created: "created [sample_ticket]"
  by (simp add: created_def sample_ticket_def)

lemma sample_ok: "tickets_ok sample_store"
  using fresh_counted [OF sample_created] by (simp add: versions_counted_def sample_store_def)

lemma sample_cancel:
  "\<exists>r. transitionTicketLifecyclePostgres (sample_transition ActCancel ''key-00001'') ''e1'' ''h1'' ''a1'' 5 sample_store
    = Inr (r, cancelled_store) \<and> \<not> tr_replayed r"
proof -
  let ?w = "write_transition (sample_transition ActCancel ''key-00001'') sample_ticket ''e1'' ''h1'' ''a1'' 5 sample_store"
  have "transitionTicketLifecyclePostgres (sample_transition ActCancel ''key-00001'') ''e1'' ''h1'' ''a1'' 5 sample_store = Inr ?w"
    by (simp add: transitionTicketLifecyclePostgres_def validateTicketLifecycleCommand_def sample_transition_def
        expected_ok_def is_integer_def find_ticket_def find_receipt_def sample_store_def fresh_tickets_def sample_ticket_def
        current_version_def ticketAllowedLifecycleActions_def ids_free_def)
  moreover have "\<not> tr_replayed (fst ?w)" by (simp add: write_transition_def Let_def lifecycle_receipt_def)
  ultimately show ?thesis by (metis cancelled_store_def prod.collapse)
qed

lemma cancelled_served: "serves ticket_handler sample_store cancelled_store"
  using sample_cancel serves_step [OF serves_refl, of ticket_handler sample_store
      "Transition (sample_transition ActCancel ''key-00001'') ''e1'' ''h1'' ''a1'' 5" _ cancelled_store] by auto

lemma cancelled_find: "find_ticket cancelled_store ''tk_1'' = Some (transition_row ActCancel 5 sample_ticket)"
  "find_receipt cancelled_store ''key-00002'' = None"
  by (simp_all add: find_ticket_def find_receipt_def cancelled_store_def write_transition_def Let_def sample_transition_def
      sample_store_def fresh_tickets_def sample_ticket_def)

lemma cancelled_replay:
  "\<exists>r. transitionTicketLifecyclePostgres (sample_transition ActCancel ''key-00001'') ''e2'' ''h2'' ''a2'' 9 cancelled_store
    = Inr (r, cancelled_store)"
  by (simp add: transitionTicketLifecyclePostgres_def validateTicketLifecycleCommand_def sample_transition_def expected_ok_def
      is_integer_def find_ticket_def find_receipt_def cancelled_store_def write_transition_def Let_def sample_store_def
      fresh_tickets_def sample_ticket_def parseTicketLifecycleReceipt_def)

theorem ticket_commands_exactly_once_witness:
  "\<exists>r r'. r'\<lparr>tr_replayed := False\<rparr> = r\<lparr>tr_replayed := False\<rparr>
    \<and> transitionTicketLifecyclePostgres (sample_transition ActCancel ''key-00001'') ''e2'' ''h2'' ''a2'' 9 cancelled_store
       = Inr (r', cancelled_store)"
  using sample_cancel cancelled_replay
    ticket_commands_exactly_once [OF sample_ok _ serves_refl refl] by meson

theorem stale_version_refused_witness:
  "\<exists>e. transitionTicketLifecyclePostgres (sample_transition ActAccept ''key-00002'') ''e2'' ''h2'' ''a2'' 9 cancelled_store = Inl e"
proof -
  obtain r where "transitionTicketLifecyclePostgres (sample_transition ActCancel ''key-00001'') ''e1'' ''h1'' ''a1'' 5 sample_store
    = Inr (r, cancelled_store)" "\<not> tr_replayed r" using sample_cancel by blast
  from stale_version_refused [OF sample_ok this serves_refl] show ?thesis
    by (simp add: sample_transition_def cancelled_find)
qed

theorem completed_iff_accepted_witness:
  "\<not> (\<exists>a \<in> set (td_acceptances cancelled_store). ac_ticket a = ''tk_1'')"
proof -
  let ?t = "transition_row ActCancel 5 sample_ticket"
  have "?t \<in> set (td_tickets cancelled_store)" using find_ticket_Some [OF cancelled_find(1)] by simp
  from completed_iff_accepted [OF sample_created cancelled_served [unfolded sample_store_def] this]
  show ?thesis by (simp add: sample_ticket_def)
qed

definition accepted_ticket :: ticket_row where
  "accepted_ticket = sample_ticket\<lparr>t_status := ''accepted''\<rparr>"

definition sample_completion :: transition_input where
  "sample_completion = (sample_transition ActComplete ''key-00003'')\<lparr>ti_evidence := JObj []\<rparr>"

definition completed_store :: ticket_db where
  "completed_store = snd (write_transition sample_completion accepted_ticket ''e1'' ''h1'' ''a1'' 5 (fresh_tickets [accepted_ticket]))"

lemma sample_completes:
  "\<exists>r. transitionTicketLifecyclePostgres sample_completion ''e1'' ''h1'' ''a1'' 5 (fresh_tickets [accepted_ticket])
    = Inr (r, completed_store) \<and> \<not> tr_replayed r"
proof -
  let ?w = "write_transition sample_completion accepted_ticket ''e1'' ''h1'' ''a1'' 5 (fresh_tickets [accepted_ticket])"
  have "transitionTicketLifecyclePostgres sample_completion ''e1'' ''h1'' ''a1'' 5 (fresh_tickets [accepted_ticket]) = Inr ?w"
    by (simp add: transitionTicketLifecyclePostgres_def validateTicketLifecycleCommand_def sample_transition_def
        sample_completion_def is_object_def accepted_ticket_def expected_ok_def is_integer_def find_ticket_def
        find_receipt_def fresh_tickets_def sample_ticket_def current_version_def ticketAllowedLifecycleActions_def ids_free_def)
  moreover have "\<not> tr_replayed (fst ?w)" by (simp add: write_transition_def Let_def lifecycle_receipt_def)
  ultimately show ?thesis by (metis completed_store_def prod.collapse)
qed

text \<open>A completed and accepted ticket whose task is started again keeps its acceptance.\<close>

theorem acceptance_is_last_completion_witness:
  "\<exists>a \<in> set (td_acceptances (completed_store\<lparr>td_tickets := [accepted_ticket\<lparr>t_status := ''running''\<rparr>]\<rparr>)). ac_ticket a = ''tk_1''"
proof -
  obtain r where r: "transitionTicketLifecyclePostgres sample_completion ''e1'' ''h1'' ''a1'' 5 (fresh_tickets [accepted_ticket])
    = Inr (r, completed_store)" "\<not> tr_replayed r" using sample_completes by blast
  have "ticket_run [] (fresh_tickets [accepted_ticket])" by (rule run_start) (simp_all add: fresh_tickets_def)
  from run_transition [OF this r(1)] r(2) have "ticket_run [(''tk_1'', ActComplete)] completed_store"
    by (simp add: sample_completion_def sample_transition_def)
  then have "ticket_run [(''tk_1'', ActComplete)] (completed_store\<lparr>td_tickets := [accepted_ticket\<lparr>t_status := ''running''\<rparr>]\<rparr>)"
    by (rule run_other) simp_all
  from acceptance_is_last_completion [OF this, of "''tk_1''"] show ?thesis by (simp add: completions_def)
qed

theorem version_counts_events_witness:
  "length (filter (\<lambda>e. ev_item e = ''tk_1'') (td_events cancelled_store)) = 1"
proof -
  let ?t = "transition_row ActCancel 5 sample_ticket"
  have "?t \<in> set (td_tickets cancelled_store)" using find_ticket_Some [OF cancelled_find(1)] by simp
  from version_counts_events [OF sample_created cancelled_served [unfolded sample_store_def] this]
  show ?thesis by (simp add: sample_ticket_def)
qed

theorem closed_ticket_final_witness:
  "find_ticket cancelled_store ''tk_1'' = Some (transition_row ActCancel 5 sample_ticket)"
  by (rule closed_ticket_final [OF _ cancelled_find(1) _ serves_refl])
    (use tc.serves_inv [OF cancelled_served] fresh_counted [OF sample_created] in
      \<open>simp_all add: versions_counted_def sample_store_def\<close>)

end
