(* ===== verification/Ticket_Types.thy ===== *)
theory Ticket_Types
  imports Prelude "HOL-Library.List_Lexorder" "HOL-Library.Char_ord"
begin

text \<open>
  \<open>backend/src/tickets.ts\<close>: the ticket type directory, the classification of tickets and the start-up
  reconciliation.  The directory file is an argument (\<open>types_disk\<close>): absent, or with a modification
  time and a content that does not parse or is the parsed object.  The cache is explicit state.
\<close>

section \<open>Displayed status\<close>

datatype ticket_status = StOpen | StInProgress | StWaiting | StDone | StFailed | StCancelled

definition ticketStatusFromWorkItem :: "string \<Rightarrow> ticket_status option" where
  "ticketStatusFromWorkItem s =
    (if s \<in> set [''pending'', ''needs_clarification''] then Some StOpen
     else if s \<in> set [''queued'', ''starting'', ''running'', ''in_progress''] then Some StInProgress
     else if s \<in> set [''waiting'', ''waiting_approval''] then Some StWaiting
     else if s \<in> set [''completed'', ''done''] then Some StDone
     else if s = ''failed'' then Some StFailed
     else if s \<in> set [''cancelled'', ''stopped''] then Some StCancelled
     else None)"

section \<open>The directory\<close>

record raw_kind =
  rk_code :: "string option"
  rk_task_types :: "string list"

record raw_channel =
  rch_code :: "string option"
  rch_order :: "rat option"  \<comment> \<open>\<open>None\<close> where \<open>Number\<close> gives no finite number\<close>
  rch_fallback :: bool
  rch_task_types :: "string list"
  rch_sources :: "string list"

record raw_types =
  rt_version :: "rat option"
  rt_kinds :: "raw_kind list"
  rt_channels :: "raw_channel list"

record channel_rule =
  cr_code :: string
  cr_order :: rat
  cr_fallback :: bool
  cr_task_types :: "string list"
  cr_sources :: "string list"

record types_config =
  tc_version :: rat
  tc_kinds :: "(string \<times> string) list"
  tc_rules :: "channel_rule list"
  tc_fallback :: string

datatype types_disk = TypesMissing | TypesFile int "raw_types option"

type_synonym types_cache = "(string \<times> int \<times> types_config) option"

definition or_else :: "string \<Rightarrow> string option \<Rightarrow> string" where
  "or_else d v = (case v of None \<Rightarrow> d | Some x \<Rightarrow> if x = [] then d else x)"

fun add_types :: "string \<Rightarrow> string list \<Rightarrow> (string \<times> string) list \<Rightarrow> (string \<times> string) list" where
  "add_types code [] m = m"
| "add_types code (t # ts) m = add_types code ts (if map_of m t = None then m @ [(t, code)] else m)"

definition kind_table :: "raw_kind list \<Rightarrow> (string \<times> string) list" where
  "kind_table ks = fold (\<lambda>k m. add_types (or_else ''general'' (rk_code k)) (rk_task_types k) m) ks []"

definition rule_of :: "nat \<times> raw_channel \<Rightarrow> channel_rule" where
  "rule_of p = (case p of (i, ch) \<Rightarrow>
    \<lparr>cr_code = or_else ''human'' (rch_code ch),
     cr_order = (case rch_order ch of None \<Rightarrow> of_nat i | Some q \<Rightarrow> q),
     cr_fallback = rch_fallback ch, cr_task_types = rch_task_types ch, cr_sources = rch_sources ch\<rparr>)"

definition types_of_raw :: "raw_types \<Rightarrow> types_config" where
  "types_of_raw raw =
    (let rules = sort_key cr_order (map rule_of (zip [0..<length (rt_channels raw)] (rt_channels raw))) in
     \<lparr>tc_version = (case rt_version raw of None \<Rightarrow> 1 | Some v \<Rightarrow> if v = 0 then 1 else v),
      tc_kinds = kind_table (rt_kinds raw), tc_rules = rules,
      tc_fallback = (case find cr_fallback rules of None \<Rightarrow> ''human'' | Some r \<Rightarrow> or_else ''human'' (Some (cr_code r)))\<rparr>)"

definition resetTicketTypesCache :: "types_cache \<Rightarrow> types_cache" where
  "resetTicketTypesCache c = None"

definition loadTicketTypes ::
  "bool \<Rightarrow> string \<Rightarrow> types_disk \<Rightarrow> types_cache \<Rightarrow> types_config option \<times> types_cache" where
  "loadTicketTypes refresh file disk cached =
    (case disk of
       TypesMissing \<Rightarrow> (None, cached)
     | TypesFile mtime content \<Rightarrow>
        (case cached of
           Some (f, m, cfg) \<Rightarrow>
             if \<not> refresh \<and> f = file \<and> m = mtime then (Some cfg, cached)
             else (case content of
                     None \<Rightarrow> (None, cached)
                   | Some raw \<Rightarrow> (Some (types_of_raw raw), Some (file, mtime, types_of_raw raw)))
         | None \<Rightarrow>
             (case content of
                None \<Rightarrow> (None, cached)
              | Some raw \<Rightarrow> (Some (types_of_raw raw), Some (file, mtime, types_of_raw raw)))))"

section \<open>Classification\<close>

fun first_channel :: "channel_rule list \<Rightarrow> string \<Rightarrow> string \<Rightarrow> string \<Rightarrow> string" where
  "first_channel [] fallback taskType source = fallback"
| "first_channel (r # rs) fallback taskType source =
    (if cr_fallback r then first_channel rs fallback taskType source
     else if taskType \<in> set (cr_task_types r) \<or> source \<in> set (cr_sources r) then cr_code r
     else first_channel rs fallback taskType source)"

definition classify_with :: "types_config option \<Rightarrow> string \<Rightarrow> string \<Rightarrow> string \<times> string" where
  "classify_with config taskType source =
    (case config of
       None \<Rightarrow> (''general'', ''human'')
     | Some cfg \<Rightarrow>
        (or_else ''general'' (map_of (tc_kinds cfg) taskType),
         first_channel (tc_rules cfg) (tc_fallback cfg) taskType source))"

definition classifyTicket ::
  "string \<Rightarrow> types_disk \<Rightarrow> string \<Rightarrow> string \<Rightarrow> types_cache \<Rightarrow> (string \<times> string) \<times> types_cache" where
  "classifyTicket file disk taskType source cached =
    (case loadTicketTypes False file disk cached of
       (config, cached') \<Rightarrow> (classify_with config taskType source, cached'))"

definition requesterTypeForChannel :: "string \<Rightarrow> string" where
  "requesterTypeForChannel channel =
    (if channel = ''system'' then ''system'' else if channel = ''agent'' then ''agent'' else ''human'')"

text \<open>The columns of a row of \<open>tickets\<close> that the classification reads and writes.\<close>

record classified_row =
  cl_id :: string
  cl_task_type :: string
  cl_source :: string
  cl_owner :: string
  cl_collaboration :: "string option"
  cl_kind :: "string option"
  cl_channel :: "string option"
  cl_requester_type :: "string option"
  cl_requester :: "string option"
  cl_object_type :: "string option"
  cl_object :: "string option"
  cl_kind_version :: rat

record types_db =
  ty_rows :: "classified_row list"
  ty_done :: bool  \<comment> \<open>the \<open>app_state\<close> flag\<close>
  ty_cache :: types_cache

definition classify_row :: "types_config option \<Rightarrow> classified_row \<Rightarrow> classified_row" where
  "classify_row config row =
    (let (kind, channel) = classify_with config (cl_task_type row) (cl_source row);
         requesterType = requesterTypeForChannel channel;
         collaboration = (case cl_collaboration row of None \<Rightarrow> None | Some c \<Rightarrow> if c = [] then None else Some c)
     in row\<lparr>cl_kind := Some kind, cl_channel := Some channel, cl_requester_type := Some requesterType,
            cl_requester := (if requesterType = ''system'' then None else Some (cl_owner row)),
            cl_object_type := (if collaboration = None then None else Some ''collaboration''),
            cl_object := collaboration,
            cl_kind_version := (case config of None \<Rightarrow> 1 | Some cfg \<Rightarrow> tc_version cfg)\<rparr>)"

definition ensureTicketForWorkItem :: "string \<Rightarrow> types_disk \<Rightarrow> string \<Rightarrow> types_db \<Rightarrow> bool \<times> types_db" where
  "ensureTicketForWorkItem file disk i s =
    (case find (\<lambda>r. cl_id r = i) (ty_rows s) of
       None \<Rightarrow> (False, s)
     | Some row \<Rightarrow>
        (let (config, c1) = loadTicketTypes False file disk (ty_cache s);
             (config2, c2) = loadTicketTypes False file disk c1;
             row' = (classify_row config row)\<lparr>cl_kind_version := (case config2 of None \<Rightarrow> 1 | Some cfg \<Rightarrow> tc_version cfg)\<rparr>
         in (True, s\<lparr>ty_rows := map (\<lambda>r. if cl_id r = i then row' else r) (ty_rows s), ty_cache := c2\<rparr>)))"

definition reconcileTickets :: "bool \<Rightarrow> string \<Rightarrow> types_disk \<Rightarrow> types_db \<Rightarrow> nat \<times> types_db" where
  "reconcileTickets force file disk s =
    (if \<not> force \<and> ty_done s then (0, s)
     else
       (let ids = map cl_id (ty_rows s);
            s1 = fold (\<lambda>i s. snd (ensureTicketForWorkItem file disk i s)) (sort ids) s
        in (length ids, s1\<lparr>ty_done := True\<rparr>)))"

section \<open>Properties\<close>

lemma load_stable:
  "loadTicketTypes False file disk c = (cfg, c1) \<Longrightarrow> loadTicketTypes False file disk c1 = (cfg, c1)"
  by (auto simp: loadTicketTypes_def split: types_disk.splits option.splits if_splits)

lemma classify_row_id [simp]: "cl_id (classify_row cfg r) = cl_id r"
  by (simp add: classify_row_def Let_def split: prod.splits)

lemma classify_row_again [simp]: "classify_row cfg (classify_row cfg r) = classify_row cfg r"
  by (simp add: classify_row_def Let_def split: prod.splits)

lemma ensure_row:
  assumes "distinct (map cl_id (ty_rows s))" and "i \<in> cl_id ` set (ty_rows s)"
    and load: "loadTicketTypes False file disk (ty_cache s) = (cfg, c1)"
  shows "snd (ensureTicketForWorkItem file disk i s)
    = s\<lparr>ty_rows := map (\<lambda>r. if cl_id r = i then classify_row cfg r else r) (ty_rows s), ty_cache := c1\<rparr>"
proof -
  obtain row where row: "find (\<lambda>r. cl_id r = i) (ty_rows s) = Some row"
    using assms(2) by (cases "find (\<lambda>r. cl_id r = i) (ty_rows s)") (auto simp: find_None_iff)
  then have "row \<in> set (ty_rows s)" "cl_id row = i" by (auto dest: find_SomeD)
  then have uniq: "r = row" if "r \<in> set (ty_rows s)" "cl_id r = i" for r
    using assms(1) that by (auto simp: distinct_map dest: inj_onD)
  have "(classify_row cfg row)\<lparr>cl_kind_version := (case cfg of None \<Rightarrow> 1 | Some c \<Rightarrow> tc_version c)\<rparr> = classify_row cfg row"
    by (simp add: classify_row_def Let_def split: prod.splits)
  then have "map (\<lambda>r. if cl_id r = i then (classify_row cfg row)\<lparr>cl_kind_version := (case cfg of None \<Rightarrow> 1 | Some c \<Rightarrow> tc_version c)\<rparr> else r) (ty_rows s)
      = map (\<lambda>r. if cl_id r = i then classify_row cfg r else r) (ty_rows s)"
    using uniq by (auto intro!: map_cong)
  then show ?thesis
    by (simp add: ensureTicketForWorkItem_def row load load_stable [OF load])
qed

lemma ensure_all:
  assumes "distinct (map cl_id (ty_rows s))" and "set xs \<subseteq> cl_id ` set (ty_rows s)"
    and "loadTicketTypes False file disk (ty_cache s) = (cfg, c1)"
  shows "let s' = fold (\<lambda>i s. snd (ensureTicketForWorkItem file disk i s)) xs s in
    ty_rows s' = map (\<lambda>r. if cl_id r \<in> set xs then classify_row cfg r else r) (ty_rows s)
    \<and> loadTicketTypes False file disk (ty_cache s') = (cfg, c1)"
  using assms
proof (induction xs arbitrary: s)
  case (Cons i xs)
  let ?s = "snd (ensureTicketForWorkItem file disk i s)"
  have s: "?s = s\<lparr>ty_rows := map (\<lambda>r. if cl_id r = i then classify_row cfg r else r) (ty_rows s), ty_cache := c1\<rparr>"
    using Cons.prems by (intro ensure_row) auto
  have ids: "map cl_id (ty_rows ?s) = map cl_id (ty_rows s)" by (simp add: s)
  then have "set xs \<subseteq> cl_id ` set (ty_rows ?s)" using Cons.prems(2) by (metis list.set_map order_trans set_subset_Cons)
  moreover have "distinct (map cl_id (ty_rows ?s))" using Cons.prems(1) by (simp only: ids)
  moreover have "loadTicketTypes False file disk (ty_cache ?s) = (cfg, c1)"
    using load_stable [OF Cons.prems(3)] by (simp add: s)
  ultimately have "let s' = fold (\<lambda>i s. snd (ensureTicketForWorkItem file disk i s)) xs ?s in
    ty_rows s' = map (\<lambda>r. if cl_id r \<in> set xs then classify_row cfg r else r) (ty_rows ?s)
    \<and> loadTicketTypes False file disk (ty_cache s') = (cfg, c1)"
    by (intro Cons.IH)
  then show ?case by (auto simp: Let_def s intro!: map_cong)
qed simp

text \<open>
  The start-up reconciliation classifies every ticket and settles: when it runs, each row gets
  the classification the type directory gives it, the count is the number of rows, and a second
  forced run over the same directory leaves the rows as they are.
\<close>

theorem reconcile_classifies_all:
  assumes "distinct (map cl_id (ty_rows s))" and "force \<or> \<not> ty_done s"
    and "reconcileTickets force file disk s = (n, s')"
  shows "ty_rows s' = map (classify_row (fst (loadTicketTypes False file disk (ty_cache s)))) (ty_rows s)
    \<and> n = length (ty_rows s) \<and> ty_rows (snd (reconcileTickets True file disk s')) = ty_rows s'"
proof -
  obtain cfg c1 where load: "loadTicketTypes False file disk (ty_cache s) = (cfg, c1)" by fastforce
  have run: "ty_rows (snd (reconcileTickets f file disk u)) = map (classify_row cfg) (ty_rows u)
      \<and> loadTicketTypes False file disk (ty_cache (snd (reconcileTickets f file disk u))) = (cfg, c1)"
    if "distinct (map cl_id (ty_rows u))" "f \<or> \<not> ty_done u" "loadTicketTypes False file disk (ty_cache u) = (cfg, c1)" for u f
    using ensure_all [OF that(1) _ that(3), of "sort (map cl_id (ty_rows u))"] that
    by (auto simp: reconcileTickets_def Let_def)
  have s': "s' = snd (reconcileTickets force file disk s)" using assms(3) by simp
  have first: "ty_rows s' = map (classify_row cfg) (ty_rows s)" "loadTicketTypes False file disk (ty_cache s') = (cfg, c1)"
    using run [OF assms(1,2) load] by (simp_all add: s')
  then have "map cl_id (ty_rows s') = map cl_id (ty_rows s)" by simp
  then have "distinct (map cl_id (ty_rows s'))" using assms(1) by (simp only:)
  from run [OF this _ first(2), of True] have "ty_rows (snd (reconcileTickets True file disk s')) = ty_rows s'"
    by (simp add: first(1))
  moreover have "n = length (ty_rows s)" using assms(2,3) by (auto simp: reconcileTickets_def Let_def)
  ultimately show ?thesis using first(1) load by simp
qed

definition sample_types :: types_disk where
  "sample_types = TypesFile 7 (Some
    \<lparr>rt_version = Some 3,
      rt_kinds = [\<lparr>rk_code = Some ''service'', rk_task_types = [''email_compose'']\<rparr>],
      rt_channels = [\<lparr>rch_code = Some ''email'', rch_order = Some 1, rch_fallback = False,
        rch_task_types = [''email_compose''], rch_sources = []\<rparr>]\<rparr>)"

definition sample_row :: classified_row where
  "sample_row = \<lparr>cl_id = ''tk_1'', cl_task_type = ''email_compose'', cl_source = ''manual'', cl_owner = ''u1'',
     cl_collaboration = None, cl_kind = None, cl_channel = None, cl_requester_type = None, cl_requester = None,
     cl_object_type = None, cl_object = None, cl_kind_version = 1\<rparr>"

theorem reconcile_classifies_all_witness:
  "map cl_kind (ty_rows (snd (reconcileTickets False ''f'' sample_types
      \<lparr>ty_rows = [sample_row], ty_done = False, ty_cache = None\<rparr>))) = [Some ''service'']"
proof -
  let ?s = "\<lparr>ty_rows = [sample_row], ty_done = False, ty_cache = None\<rparr>"
  obtain n s' where run: "reconcileTickets False ''f'' sample_types ?s = (n, s')" by fastforce
  from reconcile_classifies_all [OF _ _ run] have rows: "ty_rows s' = [classify_row (fst (loadTicketTypes False ''f'' sample_types None)) sample_row]"
    by simp
  show ?thesis
    by (simp only: run snd_conv rows) (simp add: loadTicketTypes_def sample_types_def types_of_raw_def Let_def classify_row_def classify_with_def
        kind_table_def or_else_def sample_row_def split: prod.splits)
qed

end
