(* ===== verification/Org_Chart.thy ===== *)
theory Org_Chart
  imports Prelude
begin

text \<open>
  The organisation the approval plans read: the records of \<open>approval/types.ts\<close>, the look-ups of
  \<open>approval/org.ts\<close> and the built-in snapshot of \<open>approval/snapshot.ts\<close>.

  A nullable string is a \<open>string option\<close>; the code treats the empty string as absent, and so do the
  definitions.  \<open>getManagerChain\<close> throws an \<open>OrgError\<close>: it returns in the sum type.  Its loop ends after
  at most 32 levels whatever the data; \<open>chain_from_iff\<close> says when it returns and what.

  \<open>toUpperCase\<close> and \<open>toLowerCase\<close> follow Unicode on the letters of Latin-1 and on the letters beyond it
  whose other case is an ASCII letter; other letters beyond Latin-1 are left as they are.
\<close>

section \<open>Letters\<close>

definition upper_unit :: "nat \<Rightarrow> utext" where
  "upper_unit c =
     (if (97 \<le> c \<and> c \<le> 122) \<or> (224 \<le> c \<and> c \<le> 254 \<and> c \<noteq> 247) then [c - 32]
      else if c = 223 then [83, 83] else if c = 181 then [924] else if c = 255 then [376]
      else if c = 305 then [73] else if c = 383 then [83] else [c])"

definition js_upper :: "utext \<Rightarrow> utext" where
  "js_upper t = concat (map upper_unit t)"

definition lower_unit :: "nat \<Rightarrow> utext" where
  "lower_unit c =
     (if (65 \<le> c \<and> c \<le> 90) \<or> (192 \<le> c \<and> c \<le> 222 \<and> c \<noteq> 215) then [c + 32]
      else if c = 304 then [105, 775] else if c = 8490 then [107] else if c = 8491 then [229] else [c])"

definition js_lower :: "utext \<Rightarrow> utext" where
  "js_lower t = concat (map lower_unit t)"

text \<open>\<open>String(x || "")\<close> of a nullable string.\<close>

definition or_empty :: "utext option \<Rightarrow> utext" where
  "or_empty x = (case x of None \<Rightarrow> [] | Some t \<Rightarrow> t)"

section \<open>Data\<close>

datatype employee_status = Serving | OnLeave | Left | VacantPost

datatype relationship_type =
  REPORTS_TO | FUNCTIONAL_MANAGER | DEPARTMENT_LEADER | COST_CENTER_OWNER | FINANCE_OWNER

record employee =
  em_id :: string
  em_name :: utext
  em_department :: string
  em_position :: utext
  em_manager :: "string option"
  em_status :: employee_status
  em_cost_center :: string
  em_brand :: "utext option"
  em_region :: "utext option"
  em_mailboxes :: "utext list"
  em_delegate :: "string option"

record org_unit =
  un_id :: string
  un_name :: utext
  un_parent :: "string option"
  un_leader :: "string option"
  un_level :: int

record relationship =
  rl_type :: relationship_type
  rl_from :: string
  rl_to :: string

record org_snapshot =
  og_employees :: "employee list"
  og_units :: "org_unit list"
  og_relationships :: "relationship list"

record chain_node =
  cn_level :: nat
  cn_employee :: string
  cn_name :: utext
  cn_role :: utext
  cn_status :: employee_status
  cn_delegate :: "string option"

datatype org_error = UnknownEmployee string | CircularHierarchy string | BrokenEdge string | ChainTooLong

section \<open>Look-ups\<close>

definition given :: "string option \<Rightarrow> bool" where
  "given x \<longleftrightarrow> x \<noteq> None \<and> x \<noteq> Some []"

definition employeeById :: "org_snapshot \<Rightarrow> string option \<Rightarrow> employee option" where
  "employeeById org i = (if given i then find (\<lambda>e. Some (em_id e) = i) (og_employees org) else None)"

definition employeeByName :: "org_snapshot \<Rightarrow> utext option \<Rightarrow> employee option" where
  "employeeByName org name =
     (let needle = text_trim (or_empty name) in
      if needle = [] then None else find (\<lambda>e. em_name e = needle) (og_employees org))"

definition employeeByMailbox :: "org_snapshot \<Rightarrow> utext option \<Rightarrow> employee option" where
  "employeeByMailbox org mailbox =
     (let email = js_lower (text_trim (or_empty mailbox)) in
      if email = [] then None
      else find (\<lambda>e. list_ex (\<lambda>m. js_lower m = email) (em_mailboxes e)) (og_employees org))"

definition unitLeaderRole :: "org_snapshot \<Rightarrow> employee \<Rightarrow> utext" where
  "unitLeaderRole org e =
     (case find (\<lambda>u. un_leader u = Some (em_id e)) (og_units org) of
        Some u \<Rightarrow> if un_name u = [] then em_position e else un_name u @ [36127, 36131, 20154]
      | None \<Rightarrow> em_position e)"

section \<open>The manager chain\<close>

definition node_of :: "org_snapshot \<Rightarrow> nat \<Rightarrow> employee \<Rightarrow> chain_node" where
  "node_of org level p =
     \<lparr>cn_level = level, cn_employee = em_id p, cn_name = em_name p, cn_role = unitLeaderRole org p,
      cn_status = em_status p, cn_delegate = em_delegate p\<rparr>"

text \<open>
  The loop of \<open>getManagerChain\<close> from \<open>current\<close>, with the set \<open>seen\<close> and the counter \<open>level\<close>; the nodes
  it pushes are the result.
\<close>

function chain_from :: "org_snapshot \<Rightarrow> string list \<Rightarrow> nat \<Rightarrow> string option \<Rightarrow> org_error + chain_node list" where
  "chain_from org seen level current =
     (if \<not> given current then Inr []
      else if the current \<in> set seen then Inl (CircularHierarchy (the current))
      else case employeeById org current of
          None \<Rightarrow> Inl (BrokenEdge (the current))
        | Some p \<Rightarrow>
            if 32 < level + 1 then Inl ChainTooLong
            else case chain_from org (the current # seen) (level + 1) (em_manager p) of
                Inl e \<Rightarrow> Inl e
              | Inr rest \<Rightarrow> Inr (node_of org level p # rest))"
  by pat_completeness auto
termination by (relation "measure (\<lambda>(org, seen, level, current). 32 - level)") auto

declare chain_from.simps [simp del]

definition getManagerChain :: "org_snapshot \<Rightarrow> string \<Rightarrow> org_error + chain_node list" where
  "getManagerChain org i =
     (case employeeById org (Some i) of
        None \<Rightarrow> Inl (UnknownEmployee i)
      | Some start \<Rightarrow> chain_from org [i] 1 (em_manager start))"

section \<open>Roles\<close>

text \<open>
  \<open>roleHolder\<close>: the general manager leads the first unit without a parent, the finance owner is named
  by the first relationship of that type, and any other role is the leader of the first-level department.
\<close>

definition roleHolder :: "org_snapshot \<Rightarrow> string \<Rightarrow> employee \<Rightarrow> employee option" where
  "roleHolder org role requester =
     (if role = ''gm'' then
        (case find (\<lambda>u. \<not> given (un_parent u)) (og_units org) of
           None \<Rightarrow> None | Some u \<Rightarrow> employeeById org (un_leader u))
      else if role = ''finance_owner'' then
        (case find (\<lambda>r. rl_type r = FINANCE_OWNER) (og_relationships org) of
           None \<Rightarrow> None | Some rel \<Rightarrow> employeeById org (Some (rl_to rel)))
      else
        let dept = find (\<lambda>u. un_id u = em_department requester) (og_units org);
            parent = (case dept of None \<Rightarrow> None | Some d \<Rightarrow> un_parent d);
            wanted = (if given parent then the parent else em_department requester);
            promo = (case find (\<lambda>u. un_id u = wanted \<and> un_level u = 1) (og_units org) of
                       Some u \<Rightarrow> Some u | None \<Rightarrow> find (\<lambda>u. un_id u = ''org_promo'') (og_units org));
            leader = (case promo of None \<Rightarrow> None | Some u \<Rightarrow> un_leader u) in
        employeeById org (if given leader then leader else case dept of None \<Rightarrow> None | Some d \<Rightarrow> un_leader d))"

section \<open>The built-in snapshot\<close>

definition staff :: "string \<Rightarrow> utext \<Rightarrow> string \<Rightarrow> utext \<Rightarrow> string option \<Rightarrow> string \<Rightarrow> utext option \<Rightarrow> utext option
    \<Rightarrow> string list \<Rightarrow> string option \<Rightarrow> employee" where
  "staff i name dept position manager cost brand region mailboxes delegate =
     \<lparr>em_id = i, em_name = name, em_department = dept, em_position = position, em_manager = manager, em_status = Serving,
      em_cost_center = cost, em_brand = brand, em_region = region, em_mailboxes = map ascii_text mailboxes,
      em_delegate = delegate\<rparr>"

definition default_units :: "org_unit list" where
  "default_units =
    [\<lparr>un_id = ''org_group'', un_name = [38598, 22242], un_parent = None, un_leader = Some ''emp_zhang'', un_level = 0\<rparr>,
     \<lparr>un_id = ''org_promo'', un_name = [25512, 24191, 37096], un_parent = Some ''org_group'', un_leader = Some ''emp_wang'', un_level = 1\<rparr>,
     \<lparr>un_id = ''org_pq'', un_name = ascii_text ''PQ'' @ [21697, 29260, 32452], un_parent = Some ''org_promo'', un_leader = Some ''emp_lintong'', un_level = 2\<rparr>,
     \<lparr>un_id = ''org_ro'', un_name = ascii_text ''RO'' @ [21697, 29260, 32452], un_parent = Some ''org_promo'', un_leader = Some ''emp_laiyixun'', un_level = 2\<rparr>,
     \<lparr>un_id = ''org_lt'', un_name = ascii_text ''LT'' @ [21697, 29260, 32452], un_parent = Some ''org_promo'', un_leader = Some ''emp_zhongjinnian'', un_level = 2\<rparr>,
     \<lparr>un_id = ''org_finance'', un_name = [36130, 21153, 37096], un_parent = Some ''org_group'', un_leader = Some ''emp_finance'', un_level = 1\<rparr>]"

definition default_employees :: "employee list" where
  "default_employees =
    [staff ''emp_zhang'' ([24352, 24635]) ''org_group'' ([20013, 22269, 21306, 24635, 32463, 29702] @ ascii_text '' / GM'') None ''GM'' None None
       [] None,
     staff ''emp_wang'' ([29579, 20027, 31649]) ''org_promo'' ([25512, 24191, 37096, 36127, 36131, 20154]) (Some ''emp_zhang'') ''MKT'' None None
       [] None,
     staff ''emp_finance'' ([36130, 21153, 36127, 36131, 20154]) ''org_finance'' ([36130, 21153, 36127, 36131, 20154]) (Some ''emp_zhang'') ''FIN'' None None
       [] None,
     staff ''emp_lintong'' ([26519, 26704]) ''org_pq'' (ascii_text ''PQ'' @ [21697, 29260, 32452, 36127, 36131, 20154]) (Some ''emp_wang'') ''PQ'' (Some (ascii_text ''PQ'')) None
       [''marketingde@ipowerqueen.com'', ''ipowerqueen.de.marketing@gmail.com'', ''marketing@ipowerqueen.com''] None,
     staff ''emp_liyuanyan'' ([40654, 29577, 29141]) ''org_pq'' (ascii_text ''PQ-US '' @ [24314, 32852]) (Some ''emp_lintong'') ''PQ'' (Some (ascii_text ''PQ'')) (Some [21271, 32654])
       [''ipowerqueenmarketing@gmail.com'', ''affiliate@ipowerqueen.com'', ''marketing.us@ipowerqueen.com''] None,
     staff ''emp_laiyixun'' ([36182, 36920, 35810]) ''org_ro'' (ascii_text ''RO'' @ [21697, 29260, 32452, 36127, 36131, 20154]) (Some ''emp_wang'') ''RO'' (Some (ascii_text ''RO'')) None
       [''marketingde@redodopower.com''] (Some ''emp_lingjiayu''),
     staff ''emp_chenbingbing'' ([38472, 20912, 20912]) ''org_ro'' (ascii_text ''RO '' @ [24314, 32852]) (Some ''emp_laiyixun'') ''RO'' (Some (ascii_text ''RO'')) None
       [''lynn@redodopower.com''] None,
     staff ''emp_yujiani'' ([20313, 20339, 22958]) ''org_ro'' (ascii_text ''RO '' @ [24314, 32852]) (Some ''emp_laiyixun'') ''RO'' (Some (ascii_text ''RO'')) None
       [''marketing@redodopower.com''] None,
     staff ''emp_lingjiayu'' ([20940, 22025, 20313]) ''org_ro'' (ascii_text ''RO ES/FR '' @ [24314, 32852]) (Some ''emp_laiyixun'') ''RO'' (Some (ascii_text ''RO'')) (Some [27431, 27954])
       [''marketing.es@redodopower.com'', ''marketing.fr@redodopower.com''] None,
     staff ''emp_zhongjinnian'' ([38047, 27135, 24180]) ''org_lt'' (ascii_text ''LT'' @ [21697, 29260, 32452, 36127, 36131, 20154]) (Some ''emp_wang'') ''LT'' (Some (ascii_text ''LT'')) None
       [''marketing.us@litime.com'', ''marketing@litime.com''] None,
     staff ''emp_yeguanwang'' ([21494, 35266, 26106]) ''org_lt'' (ascii_text ''LT-US BD'') (Some ''emp_zhongjinnian'') ''LT'' (Some (ascii_text ''LT'')) (Some [21271, 32654])
       [''marketing-bd.us@litime.com''] None,
     staff ''emp_liweiyu'' ([26446, 20255, 29788]) ''org_lt'' (ascii_text ''LT '' @ [27431, 27954]) (Some ''emp_zhongjinnian'') ''LT'' (Some (ascii_text ''LT'')) (Some [27431, 27954])
       [''marketing.de@litime.com''] None,
     staff ''emp_gujiarui'' ([21476, 20339, 30591]) ''org_lt'' (ascii_text ''LT '' @ [27431, 27954]) (Some ''emp_zhongjinnian'') ''LT'' (Some (ascii_text ''LT'')) (Some [27431, 27954])
       [''amperetimemarketing.de@gmail.com''] None,
     staff ''emp_zhanggan'' ([24352, 24178]) ''org_lt'' (ascii_text ''LT-US/AU/CA'') (Some ''emp_zhongjinnian'') ''LT'' (Some (ascii_text ''LT'')) (Some [21271, 32654])
       [''brandmarketing@litime.com'', ''marketing.ca@litime.com'', ''marketing.team@litime.com''] None,
     staff ''emp_diaochucong'' ([20993, 26970, 32874]) ''org_lt'' (ascii_text ''LT BD'') (Some ''emp_zhongjinnian'') ''LT'' (Some (ascii_text ''LT'')) None
       [''mkt-bd.us@litime.com''] None,
     staff ''emp_liuxiaoli'' ([21016, 23567, 20029]) ''org_lt'' (ascii_text ''LT-JP'') (Some ''emp_zhongjinnian'') ''LT'' (Some (ascii_text ''LT'')) (Some [26085, 26412])
       [''marketing.jp@amperetime.com'', ''litime.jp@gmail.com''] None]"

definition default_relationships :: "relationship list" where
  "default_relationships =
    [\<lparr>rl_type = DEPARTMENT_LEADER, rl_from = ''org_promo'', rl_to = ''emp_wang''\<rparr>,
     \<lparr>rl_type = FINANCE_OWNER, rl_from = ''org_group'', rl_to = ''emp_finance''\<rparr>,
     \<lparr>rl_type = COST_CENTER_OWNER, rl_from = ''PQ'', rl_to = ''emp_lintong''\<rparr>,
     \<lparr>rl_type = COST_CENTER_OWNER, rl_from = ''RO'', rl_to = ''emp_laiyixun''\<rparr>,
     \<lparr>rl_type = COST_CENTER_OWNER, rl_from = ''LT'', rl_to = ''emp_zhongjinnian''\<rparr>]"

definition defaultOrgSnapshot :: org_snapshot where
  "defaultOrgSnapshot =
     \<lparr>og_employees = default_employees, og_units = default_units, og_relationships = default_relationships\<rparr>"

section \<open>What the look-ups return\<close>

lemma employeeById_Some:
  assumes "employeeById org i = Some e"
  shows "e \<in> set (og_employees org)" and "i = Some (em_id e)" and "em_id e \<noteq> []"
  using assms by (auto simp: employeeById_def given_def find_Some_iff split: if_splits)

lemma employeeById_id: "employeeById org i = Some e \<Longrightarrow> employeeById org (Some (em_id e)) = Some e"
  using employeeById_Some(2) by fastforce

lemma roleHolder_Some: "roleHolder org role r = Some e \<Longrightarrow> e \<in> set (og_employees org)"
  by (auto simp: roleHolder_def Let_def split: option.splits if_splits dest: employeeById_Some(1))

text \<open>
  The managers above somebody, by the manager links alone: \<open>reports_up org c ms\<close> when \<open>ms\<close> are the people met by
  following the links from the link \<open>c\<close> to somebody without a manager.
\<close>

inductive reports_up :: "org_snapshot \<Rightarrow> string option \<Rightarrow> string list \<Rightarrow> bool" for org where
  Top: "\<not> given c \<Longrightarrow> reports_up org c []"
| Up: "employeeById org (Some m) = Some p \<Longrightarrow> reports_up org (em_manager p) ms \<Longrightarrow> reports_up org (Some m) (m # ms)"

lemma above_given: "employeeById org (Some m) = Some p \<Longrightarrow> reports_up org (Some m) ns \<Longrightarrow> \<exists>ms. ns = m # ms \<and> reports_up org (em_manager p) ms"
  by (erule reports_up.cases) (auto simp: employeeById_def)

lemma above_top: "\<not> given c \<Longrightarrow> reports_up org c ns \<Longrightarrow> ns = []"
  by (erule reports_up.cases) (auto simp: employeeById_def)

lemma above_det: "reports_up org c ms \<Longrightarrow> reports_up org c ns \<Longrightarrow> ms = ns"
proof (induction arbitrary: ns rule: reports_up.induct)
  case (Up m p ms)
  from above_given [OF Up.hyps(1) Up.prems] Up.IH show ?case by blast
qed (auto dest: above_top)

lemma above_suffix: "reports_up org c ms \<Longrightarrow> m \<in> set ms \<Longrightarrow> \<exists>as bs. ms = as @ m # bs \<and> reports_up org (Some m) (m # bs)"
proof (induction rule: reports_up.induct)
  case (Up m' p ms)
  show ?case
  proof (cases "m = m'")
    case True
    then show ?thesis using reports_up.Up [OF Up.hyps(1,2)] by blast
  next
    case False
    then have "m \<in> set ms" using Up.prems by simp
    from Up.IH [OF this] show ?thesis by (metis append_Cons)
  qed
qed simp

lemma above_distinct: "reports_up org c ms \<Longrightarrow> distinct ms"
proof (induction rule: reports_up.induct)
  case (Up m p ms)
  have "m \<notin> set ms"
  proof
    assume "m \<in> set ms"
    then obtain as bs where "ms = as @ m # bs" "reports_up org (Some m) (m # bs)" using above_suffix [OF Up.hyps(2)] by blast
    moreover have "m # bs = m # ms" by (rule above_det [OF calculation(2) reports_up.Up [OF Up.hyps]])
    ultimately show False by simp
  qed
  then show ?case using Up.IH by simp
qed simp

primrec nodes_of :: "org_snapshot \<Rightarrow> nat \<Rightarrow> string list \<Rightarrow> chain_node list" where
  "nodes_of org level [] = []"
| "nodes_of org level (m # ms) = node_of org level (the (employeeById org (Some m))) # nodes_of org (Suc level) ms"

lemma chain_from_sound:
  "chain_from org seen level c = Inr ns \<Longrightarrow> \<exists>ms. reports_up org c ms \<and> ns = nodes_of org level ms \<and> (ms = [] \<or> level + length ms \<le> 32)"
proof (induction org seen level c arbitrary: ns rule: chain_from.induct)
  case (1 org seen level c)
  show ?case
  proof (cases "given c")
    case False
    then show ?thesis using 1(2) by (subst (asm) chain_from.simps) (auto intro: reports_up.Top)
  next
    case True
    then obtain m where m: "c = Some m" by (auto simp: given_def)
    obtain p rest where p: "m \<notin> set seen" "employeeById org c = Some p" "\<not> 32 < level + 1"
      "chain_from org (m # seen) (level + 1) (em_manager p) = Inr rest" "ns = node_of org level p # rest"
      using 1(2) True m by (subst (asm) chain_from.simps) (auto split: if_splits option.splits sum.splits)
    obtain ms where "reports_up org (em_manager p) ms" "rest = nodes_of org (level + 1) ms" "ms = [] \<or> level + 1 + length ms \<le> 32"
      using 1(1) [OF _ _ p(2,3), of rest] True p(1,4) m by auto
    then show ?thesis using p m reports_up.Up [of org m p ms] by (intro exI [of _ "m # ms"]) auto
  qed
qed

lemma chain_from_complete:
  "reports_up org c ms \<Longrightarrow> set ms \<inter> set seen = {} \<Longrightarrow> ms = [] \<or> level + length ms \<le> 32 \<Longrightarrow> chain_from org seen level c = Inr (nodes_of org level ms)"
proof (induction arbitrary: seen level rule: reports_up.induct)
  case (Top c)
  then show ?case by (subst chain_from.simps) simp
next
  case (Up m p ms)
  have "m \<notin> set ms" using above_distinct [OF reports_up.Up [OF Up.hyps]] by simp
  then have "chain_from org (m # seen) (level + 1) (em_manager p) = Inr (nodes_of org (level + 1) ms)"
    using Up.prems by (intro Up.IH) auto
  then show ?case using Up.prems Up.hyps employeeById_Some(2,3) [OF Up.hyps(1)]
    by (subst chain_from.simps) (auto simp: given_def)
qed

text \<open>
  \<open>getManagerChain\<close> returns exactly when following the manager links ends at somebody without a manager
  after at most 31 steps, and then it returns the people met, nearest first.
\<close>

lemma manager_chain_iff:
  "getManagerChain org i = Inr ns \<longleftrightarrow>
     (\<exists>e ms. employeeById org (Some i) = Some e \<and> reports_up org (em_manager e) ms \<and> length ms \<le> 31 \<and> ns = nodes_of org 1 ms)"
proof
  assume "getManagerChain org i = Inr ns"
  then obtain e where e: "employeeById org (Some i) = Some e" "chain_from org [i] 1 (em_manager e) = Inr ns"
    by (auto simp: getManagerChain_def split: option.splits)
  from chain_from_sound [OF e(2)] e(1)
  show "\<exists>e ms. employeeById org (Some i) = Some e \<and> reports_up org (em_manager e) ms \<and> length ms \<le> 31 \<and> ns = nodes_of org 1 ms" by force
next
  assume "\<exists>e ms. employeeById org (Some i) = Some e \<and> reports_up org (em_manager e) ms \<and> length ms \<le> 31 \<and> ns = nodes_of org 1 ms"
  then obtain e ms where e: "employeeById org (Some i) = Some e" "reports_up org (em_manager e) ms" "length ms \<le> 31" "ns = nodes_of org 1 ms" by blast
  have "i \<notin> set ms" using above_distinct [OF reports_up.Up [OF e(1,2)]] by simp
  then have "chain_from org [i] 1 (em_manager e) = Inr (nodes_of org 1 ms)" using e(3) by (intro chain_from_complete [OF e(2)]) auto
  then show "getManagerChain org i = Inr ns" using e by (simp add: getManagerChain_def)
qed

text \<open>An organisation in which every chain of managers ends soon enough: no look-up throws.\<close>

definition sound_org :: "org_snapshot \<Rightarrow> bool" where
  "sound_org org \<longleftrightarrow> list_all (\<lambda>e. \<not> isl (getManagerChain org (em_id e))) (og_employees org)"

lemma staff_fields [simp]:
  "em_id (staff i n d p m c b r ms x) = i" "em_name (staff i n d p m c b r ms x) = n"
  "em_department (staff i n d p m c b r ms x) = d" "em_position (staff i n d p m c b r ms x) = p"
  "em_manager (staff i n d p m c b r ms x) = m" "em_status (staff i n d p m c b r ms x) = Serving"
  "em_brand (staff i n d p m c b r ms x) = b" "em_region (staff i n d p m c b r ms x) = r"
  by (simp_all add: staff_def)

lemma default_staff [simp]: "og_employees defaultOrgSnapshot = default_employees"
  by (simp add: defaultOrgSnapshot_def)

lemma default_columns:
  "map em_id default_employees =
     [''emp_zhang'', ''emp_wang'', ''emp_finance'', ''emp_lintong'', ''emp_liyuanyan'', ''emp_laiyixun'',
      ''emp_chenbingbing'', ''emp_yujiani'', ''emp_lingjiayu'', ''emp_zhongjinnian'', ''emp_yeguanwang'', ''emp_liweiyu'',
      ''emp_gujiarui'', ''emp_zhanggan'', ''emp_diaochucong'', ''emp_liuxiaoli'']"
  "map em_manager default_employees =
     [None, Some ''emp_zhang'', Some ''emp_zhang'', Some ''emp_wang'', Some ''emp_lintong'', Some ''emp_wang'',
      Some ''emp_laiyixun'', Some ''emp_laiyixun'', Some ''emp_laiyixun'', Some ''emp_wang'', Some ''emp_zhongjinnian'', Some ''emp_zhongjinnian'',
      Some ''emp_zhongjinnian'', Some ''emp_zhongjinnian'', Some ''emp_zhongjinnian'', Some ''emp_zhongjinnian'']"
  "map em_status default_employees = [Serving, Serving, Serving, Serving, Serving, Serving, Serving, Serving,
      Serving, Serving, Serving, Serving, Serving, Serving, Serving, Serving]"
  by (simp_all only: default_employees_def list.map staff_fields)

lemma default_ids: "distinct (map em_id default_employees)" "[] \<notin> set (map em_id default_employees)"
  by (simp_all only: default_columns) simp_all

lemma find_by_id: "distinct (map em_id es) \<Longrightarrow> e \<in> set es \<Longrightarrow> find (\<lambda>x. em_id x = em_id e) es = Some e"
  by (induction es) (auto simp: image_iff)

lemma default_by_id: "e \<in> set default_employees \<Longrightarrow> employeeById defaultOrgSnapshot (Some (em_id e)) = Some e"
  using default_ids by (force simp: employeeById_def given_def find_by_id)

lemma default_length [simp]: "length default_employees = 16"
  using arg_cong [OF default_columns(3), of length] by simp

lemma default_serving: "e \<in> set default_employees \<Longrightarrow> em_status e = Serving"
proof -
  assume "e \<in> set default_employees"
  then have "em_status e \<in> set (map em_status default_employees)" by simp
  then show ?thesis by (simp only: default_columns) auto
qed

lemma default_nth:
  assumes "k < 16"
  shows "employeeById defaultOrgSnapshot (Some (map em_id default_employees ! k)) = Some (default_employees ! k)"
    and "em_manager (default_employees ! k) = map em_manager default_employees ! k"
    and "em_status (default_employees ! k) = Serving"
  using assms default_by_id [of "default_employees ! k"] default_serving by simp_all

text \<open>The managers of the snapshot, by their position in the list.\<close>

lemma default_managers:
  "employeeById defaultOrgSnapshot (Some ''emp_zhang'') = Some (default_employees ! 0)"
  "employeeById defaultOrgSnapshot (Some ''emp_wang'') = Some (default_employees ! 1)"
  "employeeById defaultOrgSnapshot (Some ''emp_finance'') = Some (default_employees ! 2)"
  "employeeById defaultOrgSnapshot (Some ''emp_lintong'') = Some (default_employees ! 3)"
  "employeeById defaultOrgSnapshot (Some ''emp_laiyixun'') = Some (default_employees ! 5)"
  "employeeById defaultOrgSnapshot (Some ''emp_zhongjinnian'') = Some (default_employees ! 9)"
  using default_nth(1) [of 0] default_nth(1) [of 1] default_nth(1) [of 2] default_nth(1) [of 3] default_nth(1) [of 5] default_nth(1) [of 9]
  by (simp_all only: default_columns(1)) simp_all

lemma default_above:
  "reports_up defaultOrgSnapshot None []"
  "reports_up defaultOrgSnapshot (Some ''emp_zhang'') [''emp_zhang'']"
  "reports_up defaultOrgSnapshot (Some ''emp_wang'') [''emp_wang'', ''emp_zhang'']"
  "reports_up defaultOrgSnapshot (Some ''emp_lintong'') [''emp_lintong'', ''emp_wang'', ''emp_zhang'']"
  "reports_up defaultOrgSnapshot (Some ''emp_laiyixun'') [''emp_laiyixun'', ''emp_wang'', ''emp_zhang'']"
  "reports_up defaultOrgSnapshot (Some ''emp_zhongjinnian'') [''emp_zhongjinnian'', ''emp_wang'', ''emp_zhang'']"
proof -
  show top: "reports_up defaultOrgSnapshot None []" by (rule reports_up.Top) (simp add: given_def)
  show zhang: "reports_up defaultOrgSnapshot (Some ''emp_zhang'') [''emp_zhang'']"
    by (rule reports_up.Up [OF default_managers(1)]) (use top in \<open>simp add: default_nth(2) default_columns(2)\<close>)
  show wang: "reports_up defaultOrgSnapshot (Some ''emp_wang'') [''emp_wang'', ''emp_zhang'']"
    by (rule reports_up.Up [OF default_managers(2)]) (use zhang in \<open>simp add: default_nth(2) default_columns(2)\<close>)
  show "reports_up defaultOrgSnapshot (Some ''emp_lintong'') [''emp_lintong'', ''emp_wang'', ''emp_zhang'']"
    by (rule reports_up.Up [OF default_managers(4)]) (use wang in \<open>simp add: default_nth(2) default_columns(2)\<close>)
  show "reports_up defaultOrgSnapshot (Some ''emp_laiyixun'') [''emp_laiyixun'', ''emp_wang'', ''emp_zhang'']"
    by (rule reports_up.Up [OF default_managers(5)]) (use wang in \<open>simp add: default_nth(2) default_columns(2)\<close>)
  show "reports_up defaultOrgSnapshot (Some ''emp_zhongjinnian'') [''emp_zhongjinnian'', ''emp_wang'', ''emp_zhang'']"
    by (rule reports_up.Up [OF default_managers(6)]) (use wang in \<open>simp add: default_nth(2) default_columns(2)\<close>)
qed

lemma default_manager_above:
  assumes "e \<in> set default_employees"
  obtains ms where "reports_up defaultOrgSnapshot (em_manager e) ms" "length ms \<le> 31"
proof -
  have "em_manager e \<in> set (map em_manager default_employees)" using assms by simp
  then have "em_manager e \<in> {None, Some ''emp_zhang'', Some ''emp_wang'', Some ''emp_lintong'', Some ''emp_laiyixun'', Some ''emp_zhongjinnian''}"
    unfolding default_columns(2) by auto
  then show ?thesis using that default_above by (elim insertE emptyE) auto
qed

lemma default_org_sound: "sound_org defaultOrgSnapshot"
proof -
  have "\<not> isl (getManagerChain defaultOrgSnapshot (em_id e))" if e: "e \<in> set default_employees" for e
  proof -
    obtain ms where "reports_up defaultOrgSnapshot (em_manager e) ms" "length ms \<le> 31" by (rule default_manager_above [OF e])
    then have "getManagerChain defaultOrgSnapshot (em_id e) = Inr (nodes_of defaultOrgSnapshot 1 ms)"
      using default_by_id [OF e] by (auto simp: manager_chain_iff)
    then show ?thesis by simp
  qed
  then show ?thesis by (simp add: sound_org_def list_all_iff)
qed

end
