(* ===== verification/Js_Number.thy ===== *)
theory Js_Number
  imports Prelude
begin

text \<open>
  The numbers of JavaScript: IEEE 754 doubles with rounding to the nearest (ties to even), gradual
  underflow and overflow to infinity, and the operations the approval plans use on them
  (\<open>*\<close>, \<open>/\<close> by a positive literal, \<open>Math.round\<close>, the comparisons, \<open>Number.isFinite\<close>).
  A finite double is the rational it denotes; the sign of a zero is not kept, since none of these
  operations shows it.

  The lemmas give what the callers need of rounding: it is monotone, exact on representable
  numbers, and off by at most one part in \<open>2 ^ 53\<close>.
\<close>

section \<open>Rounding\<close>

fun bits :: "nat \<Rightarrow> nat" where
  "bits n = (if n = 0 then 0 else Suc (bits (n div 2)))"

declare bits.simps [simp del]

text \<open>The exponent of the leading binary digit of a positive rational.\<close>

definition binade :: "rat \<Rightarrow> int" where
  "binade q = (if 1 \<le> q then int (bits (nat \<lfloor>q\<rfloor>)) - 1 else - int (bits (nat (\<lceil>1 / q\<rceil> - 1))))"

definition round_even :: "rat \<Rightarrow> int" where
  "round_even r =
     (let f = \<lfloor>r\<rfloor>; d = r - of_int f in if d < 1 / 2 \<or> (d = 1 / 2 \<and> even f) then f else f + 1)"

text \<open>The unit in the last place at \<open>q\<close>: 53 significant bits, none below \<open>2 ^ -1074\<close>.\<close>

definition ulp_exp :: "rat \<Rightarrow> int" where
  "ulp_exp q = max (binade q - 52) (- 1074)"

definition magnitude :: "rat \<Rightarrow> rat" where
  "magnitude q = of_int (round_even (q / 2 powi ulp_exp q)) * 2 powi ulp_exp q"

datatype js_number = NotANumber | Infinite bool | Finite rat

text \<open>A magnitude of at least \<open>2 ^ 1024\<close> is infinity.\<close>

definition overflow :: rat where
  "overflow = 2 ^ 1024"

definition to_double :: "rat \<Rightarrow> js_number" where
  "to_double q =
     (if q = 0 then Finite 0
      else let m = magnitude \<bar>q\<bar> in
        if overflow \<le> m then Infinite (q < 0) else Finite (if q < 0 then - m else m))"

section \<open>Operations\<close>

fun js_times :: "js_number \<Rightarrow> js_number \<Rightarrow> js_number" where
  "js_times (Finite a) (Finite b) = to_double (a * b)"
| "js_times (Infinite s) (Infinite t) = Infinite (s \<noteq> t)"
| "js_times (Infinite s) (Finite b) = (if b = 0 then NotANumber else Infinite (s \<noteq> (b < 0)))"
| "js_times (Finite a) (Infinite t) = (if a = 0 then NotANumber else Infinite (t \<noteq> (a < 0)))"
| "js_times _ _ = NotANumber"

text \<open>Division by a positive finite number.\<close>

fun js_over :: "js_number \<Rightarrow> rat \<Rightarrow> js_number" where
  "js_over (Finite a) b = to_double (a / b)"
| "js_over x b = x"

text \<open>\<open>Math.round\<close>: ties towards plus infinity; an integral double is returned as it is.\<close>

fun js_Math_round :: "js_number \<Rightarrow> js_number" where
  "js_Math_round (Finite a) = Finite (of_int \<lfloor>a + 1 / 2\<rfloor>)"
| "js_Math_round x = x"

fun js_is_finite :: "js_number \<Rightarrow> bool" where
  "js_is_finite (Finite a) = True"
| "js_is_finite x = False"

fun js_less :: "js_number \<Rightarrow> js_number \<Rightarrow> bool" where
  "js_less (Finite a) (Finite b) = (a < b)"
| "js_less (Infinite s) (Infinite t) = (s \<and> \<not> t)"
| "js_less (Infinite s) (Finite b) = s"
| "js_less (Finite a) (Infinite t) = (\<not> t)"
| "js_less _ _ = False"

definition js_le :: "js_number \<Rightarrow> js_number \<Rightarrow> bool" where
  "js_le x y \<longleftrightarrow> x \<noteq> NotANumber \<and> y \<noteq> NotANumber \<and> \<not> js_less y x"

text \<open>A decimal literal of the source, and \<open>v === w\<close> on numbers.\<close>

definition literal :: "rat \<Rightarrow> js_number" where
  "literal q = to_double q"

section \<open>Facts of rounding\<close>

lemma bits_upper: "n < 2 ^ bits n"
proof (induction n rule: bits.induct)
  case (1 n)
  show ?case
  proof (cases "n = 0")
    case False
    have "n < 2 * (n div 2) + 2" by linarith
    also have "\<dots> \<le> 2 * 2 ^ bits (n div 2)" using 1 [OF False] by linarith
    finally show ?thesis using False by (subst bits.simps) simp
  qed (simp add: bits.simps)
qed

lemma bits_lower: "0 < n \<Longrightarrow> 2 ^ bits n \<le> 2 * n"
proof (induction n rule: bits.induct)
  case (1 n)
  show ?case
  proof (cases "n div 2 = 0")
    case True
    then have "n = 1" using 1(2) by linarith
    then show ?thesis by (simp add: bits.simps)
  next
    case False
    then have "2 ^ bits (n div 2) \<le> 2 * (n div 2)" using 1 by simp
    then have "2 * 2 ^ bits (n div 2) \<le> 2 * n" by linarith
    then show ?thesis using 1(2) by (subst bits.simps) simp
  qed
qed

lemma of_nat_le_power2: "n \<le> 2 ^ k \<Longrightarrow> of_nat n \<le> (2 :: rat) ^ k"
  by (metis of_nat_le_iff of_nat_numeral of_nat_power)

lemma power2_le_of_nat: "2 ^ k \<le> n \<Longrightarrow> (2 :: rat) ^ k \<le> of_nat n"
  by (metis of_nat_le_iff of_nat_numeral of_nat_power)

lemma powi_2_less: "(2 :: rat) powi a < 2 powi b \<Longrightarrow> a < b"
  by (rule ccontr) (use power_int_increasing [of b a "2 :: rat"] in simp)

lemma powi_2_diff: "(2 :: rat) powi (a - int k) = 2 powi a / 2 ^ k"
  by (simp add: power_int_diff)

lemma binade_bounds:
  assumes "0 < q"
  shows "2 powi binade q \<le> q" and "q < 2 powi (binade q + 1)"
proof -
  have "2 powi binade q \<le> q \<and> q < 2 powi (binade q + 1)"
  proof (cases "1 \<le> q")
    case True
    define n where "n = nat \<lfloor>q\<rfloor>"
    have f: "1 \<le> \<lfloor>q\<rfloor>" using True by (simp only: one_le_floor)
    then have "0 < n" "int n = \<lfloor>q\<rfloor>" unfolding n_def by simp_all
    then have n: "0 < n" "of_nat n \<le> q" "q < of_nat n + 1"
      using floor_correct [of q] by (metis, metis of_int_of_nat_eq, metis of_int_1 of_int_add of_int_of_nat_eq)
    have "bits n \<noteq> 0" using n(1) by (subst bits.simps) simp
    then obtain k where k: "bits n = Suc k" by (cases "bits n") auto
    have up: "n + 1 \<le> 2 ^ Suc k" using bits_upper [of n] k by simp
    have lo: "2 ^ k \<le> n" using bits_lower [OF n(1)] k by simp
    have "(2 :: rat) ^ k \<le> of_nat n" using lo by (rule power2_le_of_nat)
    then have "(2 :: rat) ^ k \<le> q" using n by linarith
    moreover have "of_nat n + 1 \<le> (2 :: rat) ^ Suc k" using of_nat_le_power2 [OF up] by simp
    then have "q < (2 :: rat) ^ Suc k" using n by linarith
    moreover have "binade q = int k" using True k by (simp add: binade_def n_def)
    moreover have "2 powi (int k + 1) = (2 :: rat) ^ Suc k" by (simp add: power_int_add)
    ultimately show ?thesis by simp
  next
    case False
    define n where "n = nat (\<lceil>1 / q\<rceil> - 1)"
    have inv: "1 < 1 / q" using False assms by (simp add: field_simps)
    have c: "of_int \<lceil>1 / q\<rceil> < 1 / q + 1" "1 / q \<le> of_int \<lceil>1 / q\<rceil>" by (simp_all add: ceiling_less_iff, linarith?)
    have "1 < \<lceil>1 / q\<rceil>" using inv by (simp add: less_ceiling_iff)
    then have "0 < n" "\<lceil>1 / q\<rceil> = int n + 1" unfolding n_def using assms by simp_all
    then have n: "0 < n" "of_int \<lceil>1 / q\<rceil> = (of_nat n + 1 :: rat)" by simp_all
    let ?k = "bits n"
    have "n + 1 \<le> 2 ^ ?k" using bits_upper [of n] by simp
    from of_nat_le_power2 [OF this] have "of_nat n + 1 \<le> (2 :: rat) ^ ?k" by simp
    then have a: "1 / q \<le> 2 ^ ?k" using c n by linarith
    have "2 ^ ?k \<le> 2 * n" by (rule bits_lower [OF n(1)])
    from power2_le_of_nat [OF this] have "(2 :: rat) ^ ?k \<le> 2 * of_nat n" by simp
    then have b: "2 ^ ?k < 2 * (1 / q)" using c n by linarith
    have e: "binade q = - int ?k" using False by (simp add: binade_def n_def)
    have "1 \<le> q * 2 ^ ?k" "q * 2 ^ ?k < 2" using a b assms by (simp_all add: divide_simps mult.commute)
    have p: "(2 :: rat) powi - int ?k = 1 / 2 ^ ?k" "(2 :: rat) powi (- int ?k + 1) = 2 / 2 ^ ?k"
      using powi_2_diff [of 0 ?k] powi_2_diff [of 1 ?k] by simp_all
    show ?thesis unfolding e p using \<open>1 \<le> q * 2 ^ ?k\<close> \<open>q * 2 ^ ?k < 2\<close> by (simp add: divide_le_eq less_divide_eq mult.commute)
  qed
  then show "2 powi binade q \<le> q" and "q < 2 powi (binade q + 1)" by simp_all
qed

lemma binade_mono:
  assumes "0 < p" "p \<le> q"
  shows "binade p \<le> binade q"
proof (rule ccontr)
  assume "\<not> binade p \<le> binade q"
  then have "(2 :: rat) powi (binade q + 1) \<le> 2 powi binade p" by (intro power_int_increasing) simp_all
  then show False using binade_bounds [OF assms(1)] binade_bounds [of q] assms by linarith
qed

lemma round_even_mono: "r \<le> s \<Longrightarrow> round_even r \<le> round_even s"
proof -
  assume le: "r \<le> s"
  have f: "\<lfloor>r\<rfloor> \<le> \<lfloor>s\<rfloor>" using le by (rule floor_mono)
  show ?thesis
  proof (cases "\<lfloor>r\<rfloor> = \<lfloor>s\<rfloor>")
    case True
    then show ?thesis using le by (auto simp: round_even_def Let_def)
  next
    case False
    then have "\<lfloor>r\<rfloor> + 1 \<le> \<lfloor>s\<rfloor>" using f by simp
    moreover have "round_even r \<le> \<lfloor>r\<rfloor> + 1" "\<lfloor>s\<rfloor> \<le> round_even s" by (simp_all add: round_even_def Let_def)
    ultimately show ?thesis by linarith
  qed
qed

lemma round_even_int [simp]: "round_even (of_int n) = n"
  by (simp add: round_even_def)

lemma of_int_le_power2: "n \<le> 2 ^ k \<Longrightarrow> of_int n \<le> (2 :: rat) ^ k"
  by (metis of_int_le_iff of_int_numeral of_int_power)

lemma power2_le_of_int: "2 ^ k \<le> n \<Longrightarrow> (2 :: rat) ^ k \<le> of_int n"
  by (metis of_int_le_iff of_int_numeral of_int_power)

lemma round_even_int_le: "of_int n \<le> r \<Longrightarrow> n \<le> round_even r"
  using round_even_mono [of "of_int n" r] by simp

lemma round_even_le_int: "r \<le> of_int n \<Longrightarrow> round_even r \<le> n"
  using round_even_mono [of r "of_int n"] by simp

lemma round_even_close: "\<bar>of_int (round_even r) - r\<bar> \<le> 1 / 2"
proof -
  have b: "of_int \<lfloor>r\<rfloor> \<le> r" "r < of_int \<lfloor>r\<rfloor> + 1" by linarith+
  show ?thesis
  proof (cases "r - of_int \<lfloor>r\<rfloor> < 1 / 2 \<or> (r - of_int \<lfloor>r\<rfloor> = 1 / 2 \<and> even \<lfloor>r\<rfloor>)")
    case True
    then have "round_even r = \<lfloor>r\<rfloor>" by (simp only: round_even_def Let_def if_True)
    then show ?thesis using b True by (auto simp: abs_le_iff)
  next
    case False
    then have "round_even r = \<lfloor>r\<rfloor> + 1" by (simp only: round_even_def Let_def if_False)
    then show ?thesis using b False by (auto simp: abs_le_iff)
  qed
qed

lemma two_pos [simp]: "0 < (2 :: rat) powi e"
  by simp

lemma ulp_upper:
  assumes "0 < q"
  shows "q < 2 powi (ulp_exp q + 53)"
proof -
  have "binade q + 1 \<le> ulp_exp q + 53" by (simp add: ulp_exp_def)
  then have "(2 :: rat) powi (binade q + 1) \<le> 2 powi (ulp_exp q + 53)" by (intro power_int_increasing) simp_all
  then show ?thesis using binade_bounds(2) [OF assms] by linarith
qed

lemma scaled_upper:
  assumes "0 < q"
  shows "q / 2 powi ulp_exp q \<le> of_int (2 ^ 53)"
proof -
  have "(2 :: rat) powi (ulp_exp q + 53) = 2 ^ 53 * 2 powi ulp_exp q" by (simp add: power_int_add)
  then show ?thesis using ulp_upper [OF assms] by (simp add: field_simps)
qed

text \<open>Rounding is monotone.\<close>

lemma magnitude_mono:
  assumes "0 < p" "p \<le> q"
  shows "magnitude p \<le> magnitude q"
proof (cases "ulp_exp p = ulp_exp q")
  case True
  have "p / 2 powi ulp_exp q \<le> q / 2 powi ulp_exp q" using assms by (simp add: divide_right_mono)
  then show ?thesis unfolding magnitude_def True by (intro mult_right_mono) (simp_all add: round_even_mono)
next
  case False
  have "ulp_exp p \<le> ulp_exp q" using binade_mono [OF assms] by (simp add: ulp_exp_def)
  then have less: "ulp_exp p + 1 \<le> ulp_exp q" and e: "ulp_exp q = binade q - 52" using False by (auto simp: ulp_exp_def)
  have "round_even (p / 2 powi ulp_exp p) \<le> 2 ^ 53" by (rule round_even_le_int [OF scaled_upper [OF assms(1)]])
  then have "magnitude p \<le> 2 ^ 53 * 2 powi ulp_exp p"
    unfolding magnitude_def by (intro mult_right_mono of_int_le_power2) simp_all
  also have "\<dots> = 2 ^ 52 * 2 powi (ulp_exp p + 1)" by (simp add: power_int_add)
  also have "\<dots> \<le> 2 ^ 52 * 2 powi ulp_exp q" using less by (intro mult_left_mono power_int_increasing) simp_all
  also have "\<dots> \<le> magnitude q"
  proof -
    have "(2 :: rat) powi binade q = 2 ^ 52 * 2 powi ulp_exp q" unfolding e by (simp add: power_int_diff)
    then have "of_int (2 ^ 52) \<le> q / 2 powi ulp_exp q" using binade_bounds(1) [of q] assms by (simp add: field_simps)
    from round_even_int_le [OF this] show ?thesis
      unfolding magnitude_def by (intro mult_right_mono power2_le_of_int) simp_all
  qed
  finally show ?thesis .
qed

text \<open>Rounding is exact on multiples of the unit in the last place, so on integers up to \<open>2 ^ 53\<close>.\<close>

lemma magnitude_exact:
  assumes "q / 2 powi ulp_exp q = of_int n"
  shows "magnitude q = q"
proof -
  have "magnitude q = q / 2 powi ulp_exp q * 2 powi ulp_exp q" unfolding magnitude_def assms by simp
  then show ?thesis by simp
qed

lemma magnitude_rep:
  assumes "0 \<le> m" "m \<le> 2 ^ 53" "- 1074 \<le> k"
  shows "magnitude (of_int m * 2 powi k) = of_int m * 2 powi k"
proof -
  have exact: "magnitude (of_int a * 2 powi j) = of_int a * 2 powi j" if a: "0 < a" "a < 2 ^ 53" and j: "- 1074 \<le> j" for a j
  proof -
    let ?q = "of_int a * 2 powi j :: rat"
    have q: "0 < ?q" using a by simp
    have "of_int a < (2 :: rat) ^ 53" using a(2) by (metis of_int_less_iff of_int_numeral of_int_power)
    then have "?q < 2 ^ 53 * 2 powi j" by simp
    also have "\<dots> = 2 powi (53 + j)" by (simp add: power_int_add)
    finally have "(2 :: rat) powi binade ?q < 2 powi (53 + j)" using binade_bounds(1) [OF q] by linarith
    then have "binade ?q < 53 + j" by (rule powi_2_less)
    then have "ulp_exp ?q \<le> j" using j by (simp add: ulp_exp_def)
    then obtain d where d: "j = ulp_exp ?q + int d" by (metis zle_iff_zadd)
    have "(2 :: rat) powi j / 2 powi ulp_exp ?q = 2 ^ d" using d by (metis add_diff_cancel_left' power_int_diff power_int_of_nat zero_neq_numeral)
    then have "?q / 2 powi ulp_exp ?q = of_int (a * 2 ^ d)" by (simp add: field_simps)
    then show ?thesis by (rule magnitude_exact)
  qed
  consider "m = 0" | "m = 2 ^ 53" | "0 < m" "m < 2 ^ 53" using assms by linarith
  then show ?thesis
  proof cases
    case 1
    then show ?thesis by (simp add: magnitude_def round_even_def)
  next
    case 2
    have e: "of_int m * 2 powi k = of_int (2 ^ 52) * (2 :: rat) powi (k + 1)" unfolding 2 by (simp add: power_int_add)
    show ?thesis unfolding e by (rule exact) (use assms in simp_all)
  qed (use exact assms in simp)
qed

lemma magnitude_int: "0 \<le> n \<Longrightarrow> n \<le> 2 ^ 53 \<Longrightarrow> magnitude (of_int n) = of_int n"
  using magnitude_rep [of n 0] by simp

lemma magnitude_nonneg: "0 \<le> q \<Longrightarrow> 0 \<le> magnitude q"
  unfolding magnitude_def by (intro mult_nonneg_nonneg) (simp_all add: round_even_int_le [of 0, simplified])

lemma magnitude_magnitude:
  assumes "0 < q"
  shows "magnitude (magnitude q) = magnitude q"
  unfolding magnitude_def [of q]
proof (rule magnitude_rep)
  show "0 \<le> round_even (q / 2 powi ulp_exp q)" using assms by (intro round_even_int_le) simp
  show "round_even (q / 2 powi ulp_exp q) \<le> 2 ^ 53" by (rule round_even_le_int [OF scaled_upper [OF assms]])
qed (simp add: ulp_exp_def)

text \<open>The error is at most half a unit in the last place: one part in \<open>2 ^ 53\<close> of a normal number.\<close>

lemma magnitude_close:
  assumes "1 / 2 ^ 1000 \<le> q"
  shows "\<bar>magnitude q - q\<bar> \<le> q / 2 ^ 53"
proof -
  have q: "0 < q" using assms by (rule less_le_trans [rotated]) simp
  have "(2 :: rat) powi (- 1000) < 2 powi (binade q + 1)"
    using binade_bounds(2) [OF q] assms by (simp add: power_int_minus divide_simps)
  then have "- 1000 < binade q + 1" by (rule powi_2_less)
  then have e: "ulp_exp q = binade q - 52" by (simp add: ulp_exp_def)
  have "magnitude q - q = (of_int (round_even (q / 2 powi ulp_exp q)) - q / 2 powi ulp_exp q) * 2 powi ulp_exp q"
    by (simp add: magnitude_def algebra_simps)
  then have "\<bar>magnitude q - q\<bar> = \<bar>of_int (round_even (q / 2 powi ulp_exp q)) - q / 2 powi ulp_exp q\<bar> * 2 powi ulp_exp q"
    by (simp add: abs_mult)
  also have "\<dots> \<le> 1 / 2 * 2 powi ulp_exp q" by (intro mult_right_mono round_even_close) simp
  also have "\<dots> = 2 powi binade q / 2 ^ 53" unfolding e by (simp add: power_int_diff)
  also have "\<dots> \<le> q / 2 ^ 53" by (intro divide_right_mono binade_bounds(1) [OF q]) simp
  finally show ?thesis .
qed

lemma to_double_pos: "0 < q \<Longrightarrow> magnitude q < overflow \<Longrightarrow> to_double q = Finite (magnitude q)"
  by (simp add: to_double_def Let_def)

lemma small_magnitude:
  assumes "0 < q" "q \<le> 2 ^ 1000"
  shows "magnitude q < overflow"
proof -
  have "magnitude q \<le> magnitude (2 ^ 1000)" by (rule magnitude_mono [OF assms])
  also have "\<dots> = 2 ^ 1000" using magnitude_rep [of 1 1000] by simp
  also have "\<dots> < overflow" unfolding overflow_def by (rule power_strict_increasing) simp_all
  finally show ?thesis .
qed

lemma magnitude_0 [simp]: "magnitude 0 = 0"
  by (simp add: magnitude_def round_even_def)

lemma overflow_pos [simp]: "\<not> overflow \<le> 0"
  by (simp add: overflow_def not_le del: power_numeral)

lemma to_double_nonneg: "0 \<le> q \<Longrightarrow> to_double q = (if overflow \<le> magnitude q then Infinite False else Finite (magnitude q))"
  by (simp add: to_double_def Let_def)

lemma to_double_small: "0 \<le> q \<Longrightarrow> q \<le> 2 ^ 1000 \<Longrightarrow> to_double q = Finite (magnitude q)"
  using small_magnitude [of q] by (cases "q = 0") (auto simp: to_double_nonneg)

lemma to_double_mono:
  assumes "0 \<le> p" "p \<le> q" "to_double q = Finite b"
  shows "to_double p = Finite (magnitude p)" and "magnitude p \<le> b"
proof -
  have b: "b = magnitude q" "magnitude q < overflow" using assms by (auto simp: to_double_nonneg split: if_splits)
  have le: "magnitude p \<le> magnitude q"
  proof (cases "p = 0")
    case True
    then show ?thesis using magnitude_nonneg [of q] assms by simp
  qed (use assms in \<open>simp add: magnitude_mono\<close>)
  then show "magnitude p \<le> b" and "to_double p = Finite (magnitude p)" using assms b by (simp_all add: to_double_nonneg)
qed

lemma literal_int: "0 \<le> n \<Longrightarrow> n \<le> 2 ^ 53 \<Longrightarrow> literal (of_int n) = Finite (of_int n)"
proof -
  assume n: "0 \<le> n" "n \<le> 2 ^ 53"
  have "(of_int n :: rat) \<le> 2 ^ 53" using n(2) by (rule of_int_le_power2)
  also have "\<dots> \<le> 2 ^ 1000" by (rule power_increasing) simp_all
  finally show ?thesis using n by (simp add: literal_def to_double_small magnitude_int)
qed

section \<open>Amounts in cents\<close>

text \<open>
  The double of an amount of \<open>n\<close> cents, scaled by 100, rounded and scaled back, is the same double: the two
  rounding errors together stay below half a cent.
\<close>

lemma cents_scaled:
  assumes "0 < n" and "n \<le> 2 ^ 49"
  shows "\<lfloor>magnitude (magnitude (of_int n / 100) * 100) + 1 / 2\<rfloor> = n"
proof -
  define q :: rat where "q = of_int n / 100"
  define a where "a = magnitude q"
  define c where "c = magnitude (a * 100)"
  have tiny: "(1 :: rat) / 2 ^ 1000 \<le> 1 / 2 ^ 10" by (intro divide_left_mono power_increasing) simp_all
  have n: "1 \<le> (of_int n :: rat)" "(of_int n :: rat) \<le> 2 ^ 49" using assms of_int_le_power2 by simp_all
  have "\<bar>a - q\<bar> \<le> q / 2 ^ 53" unfolding a_def by (rule magnitude_close) (use n tiny in \<open>simp add: q_def\<close>)
  then have a: "\<bar>a * 100 - of_int n\<bar> \<le> of_int n / 2 ^ 53" unfolding q_def abs_le_iff by (simp add: field_simps)
  have "of_int n / 2 ^ 53 \<le> (1 / 16 :: rat)" using n by simp
  then have a16: "\<bar>a * 100 - of_int n\<bar> \<le> 1 / 16" using a by linarith
  then have "1 / 2 \<le> a * 100" and up: "a * 100 \<le> 2 ^ 50" using n unfolding abs_le_iff by (linarith, simp)
  then have "1 / 2 ^ 10 \<le> a * 100" by simp
  then have c: "\<bar>c - a * 100\<bar> \<le> a * 100 / 2 ^ 53" unfolding c_def by (intro magnitude_close order_trans [OF tiny])
  have "a * 100 / 2 ^ 53 \<le> (1 / 8 :: rat)" using up by simp
  then have "\<bar>c - a * 100\<bar> \<le> 1 / 8" using c by linarith
  then have "\<bar>c - of_int n\<bar> \<le> 1 / 4" using a16 unfolding abs_le_iff by linarith
  then have "of_int n \<le> c + 1 / 2" "c + 1 / 2 < of_int n + 1" unfolding abs_le_iff by linarith+
  then show ?thesis unfolding c_def a_def q_def by (simp add: floor_eq_iff)
qed

lemma cents_double:
  assumes "0 < n" and "n \<le> 2 ^ 49"
  shows "to_double (of_int n / 100) = Finite (magnitude (of_int n / 100))"
    and "js_over (js_Math_round (js_times (js_times (to_double (of_int n / 100)) (Finite 1)) (Finite 100))) 100 = to_double (of_int n / 100)"
proof -
  define a where "a = magnitude (of_int n / 100)"
  have q: "(0 :: rat) < of_int n / 100" "(of_int n / 100 :: rat) \<le> 2 ^ 49" using assms of_int_le_power2 [of n 49] by simp_all
  have big: "(2 :: rat) ^ 56 \<le> 2 ^ 1000" "(2 :: rat) ^ 49 \<le> 2 ^ 1000" by (intro power_increasing; simp)+
  show d: "to_double (of_int n / 100) = Finite (magnitude (of_int n / 100))" by (rule to_double_small) (use q big in linarith)+
  have "magnitude (of_int n / 100) \<le> magnitude (of_int (2 ^ 49))" by (rule magnitude_mono) (use q in simp_all)
  then have a: "0 \<le> a" "a \<le> 2 ^ 49" using magnitude_int [of "2 ^ 49"] magnitude_nonneg [of "of_int n / 100"] q by (simp_all add: a_def)
  have aa: "magnitude a = a" unfolding a_def by (rule magnitude_magnitude [OF q(1)])
  have "a \<le> 2 ^ 1000" using a big by linarith
  then have "to_double a = Finite a" using to_double_small [of a] a(1) aa by simp
  moreover have "to_double (a * 100) = Finite (magnitude (a * 100))" by (rule to_double_small) (use a big in simp_all)
  ultimately show "js_over (js_Math_round (js_times (js_times (to_double (of_int n / 100)) (Finite 1)) (Finite 100))) 100
      = to_double (of_int n / 100)"
    using cents_scaled [OF assms] by (simp add: d flip: a_def)
qed

end
