(* ===== verification/Approval_Plan.thy ===== *)
theory Approval_Plan
  imports Org_Chart Js_Number
begin

text \<open>
  The rule engine of the expense approvals: \<open>approval/policy.ts\<close> (currencies, amount bands) and
  \<open>calculateApprovalPlan\<close> of \<open>approval/plan.ts\<close> with the resolution of an approver.

  Every function that walks the manager chain returns in a sum: the \<open>OrgError\<close> that \<open>getManagerChain\<close>
  throws passes through.  A refusal of the engine is not an error of the code: it is a plan with
  \<open>pn_blocked\<close> set.  The display text \<open>explanation\<close> and the source citations of a plan are left out.
\<close>

section \<open>Policy\<close>

text \<open>An approver of a rule; any role but \<open>gm\<close> and \<open>finance_owner\<close> is read as the department leader.\<close>

datatype policy_approver = ManagerLevel int | RoleHolder string

record policy_rule =
  pr_id :: utext
  pr_min :: js_number
  pr_max :: "js_number option"
  pr_approvers :: "policy_approver list"

record approval_policy =
  pl_id :: utext
  pl_name :: utext
  pl_business_type :: utext
  pl_currency :: utext
  pl_skip_self :: bool
  pl_skip_inactive :: bool
  pl_skip_vacant :: bool
  pl_skip_same_person :: bool
  pl_rules :: "policy_rule list"

definition FX_TO_CNY :: "(utext \<times> js_number) list" where
  "FX_TO_CNY = map (\<lambda>(c, r). (ascii_text c, literal r))
     [(''CNY'', 1), (''RMB'', 1), (''CNH'', 1), (''USD'', 72 / 10), (''EUR'', 78 / 10), (''GBP'', 91 / 10),
      (''JPY'', 48 / 1000), (''AUD'', 47 / 10), (''CAD'', 52 / 10), (''HKD'', 92 / 100)]"

definition normalizeCurrency :: "utext option \<Rightarrow> utext" where
  "normalizeCurrency code =
     (let raw = js_upper (text_trim (case code of None \<Rightarrow> ascii_text ''CNY''
                                     | Some t \<Rightarrow> if t = [] then ascii_text ''CNY'' else t)) in
      if raw = ascii_text ''RMB'' \<or> raw = ascii_text ''CNH'' then ascii_text ''CNY'' else raw)"

record base_amount =
  fx_currency :: utext
  fx_rate :: js_number
  fx_amount_base :: js_number

text \<open>\<open>toBaseCny\<close>: \<open>Inl\<close> is the unsupported currency.\<close>

definition toBaseCny :: "js_number \<Rightarrow> utext option \<Rightarrow> utext + base_amount" where
  "toBaseCny amount currency =
     (let iso = normalizeCurrency currency in
      case map_of FX_TO_CNY iso of
        None \<Rightarrow> Inl iso
      | Some rate \<Rightarrow>
          Inr \<lparr>fx_currency = iso, fx_rate = rate,
               fx_amount_base = js_over (js_Math_round (js_times (js_times amount rate) (Finite 100))) 100\<rparr>)"

definition EXPENSE_POLICY :: approval_policy where
  "EXPENSE_POLICY =
     \<lparr>pl_id = ascii_text ''FIN-EXP'', pl_name = ascii_text ''Marketing Expense'',
      pl_business_type = ascii_text ''marketing_expense'', pl_currency = ascii_text ''CNY'',
      pl_skip_self = True, pl_skip_inactive = True, pl_skip_vacant = True, pl_skip_same_person = True,
      pl_rules =
        [\<lparr>pr_id = ascii_text ''FIN-EXP-001'', pr_min = literal 0, pr_max = Some (literal 5000),
           pr_approvers = [ManagerLevel 1]\<rparr>,
         \<lparr>pr_id = ascii_text ''FIN-EXP-002'', pr_min = literal (500001 / 100), pr_max = Some (literal 20000),
           pr_approvers = [ManagerLevel 1, ManagerLevel 2]\<rparr>,
         \<lparr>pr_id = ascii_text ''FIN-EXP-003'', pr_min = literal (2000001 / 100), pr_max = Some (literal 100000),
           pr_approvers = [ManagerLevel 1, ManagerLevel 2, RoleHolder ''finance_owner'']\<rparr>,
         \<lparr>pr_id = ascii_text ''FIN-EXP-004'', pr_min = literal (10000001 / 100), pr_max = None,
           pr_approvers = [ManagerLevel 1, ManagerLevel 2, RoleHolder ''finance_owner'', RoleHolder ''gm'']\<rparr>]\<rparr>"

definition matchExpenseRule :: "js_number \<Rightarrow> approval_policy \<Rightarrow> policy_rule option" where
  "matchExpenseRule amount policy =
     (if \<not> js_is_finite amount \<or> js_less amount (Finite 0) then None
      else find (\<lambda>rule. js_le (pr_min rule) amount \<and>
                    (case pr_max rule of None \<Rightarrow> True | Some m \<Rightarrow> js_le amount m)) (pl_rules policy))"

section \<open>People\<close>

record plan_input =
  pi_requester_id :: "string option"
  pi_requester_name :: "utext option"
  pi_mailbox :: "utext option"
  pi_amount :: js_number
  pi_currency :: "utext option"
  pi_business_type :: "utext option"
  pi_purpose :: "utext option"
  pi_brand :: "utext option"
  pi_region :: "utext option"

definition or_else :: "'a option \<Rightarrow> 'a option \<Rightarrow> 'a option" where
  "or_else x y = (case x of None \<Rightarrow> y | Some v \<Rightarrow> Some v)"

definition resolveRequester :: "org_snapshot \<Rightarrow> plan_input \<Rightarrow> employee option" where
  "resolveRequester org input =
     or_else (employeeById org (pi_requester_id input))
       (or_else (employeeByName org (pi_requester_name input)) (employeeByMailbox org (pi_mailbox input)))"

definition effectivePerson :: "org_snapshot \<Rightarrow> employee option \<Rightarrow> approval_policy \<Rightarrow> employee option" where
  "effectivePerson org person policy =
     (case person of
        None \<Rightarrow> None
      | Some p \<Rightarrow>
          if pl_skip_inactive policy \<and> (em_status p = Left \<or> em_status p = VacantPost) then None
          else if pl_skip_vacant policy \<and> em_status p = VacantPost then None
          else if em_status p = OnLeave then
            (case employeeById org (em_delegate p) of
               Some d \<Rightarrow> if em_status d = Serving then Some d
                         else if pl_skip_inactive policy then None else Some p
             | None \<Rightarrow> if pl_skip_inactive policy then None else Some p)
          else Some p)"

definition walkFrom :: "org_snapshot \<Rightarrow> employee \<Rightarrow> approval_policy \<Rightarrow> org_error + employee list" where
  "walkFrom org start policy =
     map_sum id (List.map_filter (\<lambda>node. effectivePerson org (employeeById org (Some (cn_employee node))) policy))
       (getManagerChain org (em_id start))"

definition is_requester :: "approval_policy \<Rightarrow> employee \<Rightarrow> employee \<Rightarrow> bool" where
  "is_requester policy requester person \<longleftrightarrow> pl_skip_self policy \<and> em_id person = em_id requester"

text \<open>\<open>xs[i]\<close> of a list, \<open>undefined\<close> out of range.\<close>

definition js_index :: "'a list \<Rightarrow> int \<Rightarrow> 'a option" where
  "js_index xs i = (if 0 \<le> i \<and> nat i < length xs then Some (xs ! nat i) else None)"

definition managerAt :: "org_snapshot \<Rightarrow> employee \<Rightarrow> int \<Rightarrow> approval_policy \<Rightarrow> org_error + employee option" where
  "managerAt org requester level policy =
     map_sum id (\<lambda>people. js_index (filter (\<lambda>p. \<not> is_requester policy requester p) people) (level - 1))
       (walkFrom org requester policy)"

text \<open>The scope rule: somebody with a brand or region of their own only approves inside it.\<close>

definition matchesScope :: "employee \<Rightarrow> utext option \<Rightarrow> utext option \<Rightarrow> bool" where
  "matchesScope person brand region =
     (let b = js_upper (text_trim (or_empty brand)); r = text_trim (or_empty region) in
      if b = [] \<and> r = [] then True
      else if b \<noteq> [] \<and> or_empty (em_brand person) \<noteq> [] \<and> js_upper (or_empty (em_brand person)) \<noteq> b then False
      else if r \<noteq> [] \<and> or_empty (em_region person) \<noteq> [] \<and> or_empty (em_region person) \<noteq> r then False
      else True)"

definition in_scope :: "plan_input option \<Rightarrow> employee \<Rightarrow> bool" where
  "in_scope input person = (case input of None \<Rightarrow> True | Some i \<Rightarrow> matchesScope person (pi_brand i) (pi_region i))"

definition fallbackUp :: "org_snapshot \<Rightarrow> employee \<Rightarrow> approval_policy \<Rightarrow> string set \<Rightarrow> plan_input option
    \<Rightarrow> org_error + employee option" where
  "fallbackUp org requester policy used input =
     map_sum id (find (\<lambda>p. \<not> is_requester policy requester p \<and> em_id p \<notin> used \<and> in_scope input p))
       (walkFrom org requester policy)"

definition show_level :: "int \<Rightarrow> string" where
  "show_level n = (if n < 0 then ''-'' @ show_nat (nat (- n)) else show_nat (nat n))"

text \<open>The \<open>gm\<close> as the engine resolves it.\<close>

definition effective_gm :: "org_snapshot \<Rightarrow> employee \<Rightarrow> approval_policy \<Rightarrow> employee option" where
  "effective_gm org requester policy = effectivePerson org (roleHolder org ''gm'' requester) policy"

text \<open>
  \<open>resolveApprover\<close>: the person, or none, and the text that says where the person came from.  A role held by
  the requester goes to the \<open>gm\<close> (finance) or up the requester's chain, without the scope rule.
\<close>

definition resolveApprover :: "org_snapshot \<Rightarrow> employee \<Rightarrow> policy_approver \<Rightarrow> approval_policy \<Rightarrow> plan_input
    \<Rightarrow> org_error + employee option \<times> string" where
  "resolveApprover org requester spec policy input =
     (case spec of
        ManagerLevel level \<Rightarrow>
          map_sum id (\<lambda>person.
              let src = ''manager(level='' @ show_level level @ '')'' in
              case person of
                Some p \<Rightarrow> if in_scope (Some input) p then (Some p, src) else (None, src @ ''+scope_mismatch'')
              | None \<Rightarrow> (None, src))
            (managerAt org requester level policy)
      | RoleHolder role \<Rightarrow>
          (let held = effectivePerson org (roleHolder org role requester) policy;
               scoped = (case held of Some p \<Rightarrow> if in_scope (Some input) p then Some p else None | None \<Rightarrow> None);
               src = ''role('' @ role @ '')'' in
           case scoped of
             None \<Rightarrow> Inr (None, src)
           | Some p \<Rightarrow>
               if is_requester policy requester p then
                 map_sum id (\<lambda>other.
                     (case other of
                        Some q \<Rightarrow> if em_id q = em_id requester then None else Some q
                      | None \<Rightarrow> None, src))
                   (if role = ''finance_owner'' then Inr (effective_gm org requester policy)
                    else fallbackUp org requester policy {em_id requester} None)
               else Inr (Some p, src)))"

section \<open>The plan\<close>

record approval_step =
  ps_sequence :: nat
  ps_employee :: string
  ps_name :: utext
  ps_role :: utext
  ps_source :: string

record approval_plan =
  pn_policy_id :: utext
  pn_rule_id :: utext
  pn_business_type :: utext
  pn_amount :: js_number
  pn_currency :: utext
  pn_amount_base :: js_number
  pn_currency_base :: utext
  pn_fx_rate :: js_number
  pn_requester_id :: string
  pn_requester_name :: utext
  pn_steps :: "approval_step list"
  pn_blocked :: "(string \<times> utext) option"

definition or_text :: "utext option \<Rightarrow> utext \<Rightarrow> utext" where
  "or_text x d = (case x of None \<Rightarrow> d | Some t \<Rightarrow> if t = [] then d else t)"

definition emptyPlan :: "approval_policy \<Rightarrow> plan_input \<Rightarrow> utext \<Rightarrow> employee option \<Rightarrow> approval_step list \<Rightarrow> string \<times> utext \<Rightarrow> approval_plan" where
  "emptyPlan policy input rule_id requester steps blocked =
     \<lparr>pn_policy_id = pl_id policy, pn_rule_id = rule_id, pn_business_type = pl_business_type policy,
      pn_amount = pi_amount input, pn_currency = or_text (pi_currency input) (pl_currency policy),
      pn_amount_base = NotANumber, pn_currency_base = pl_currency policy, pn_fx_rate = NotANumber,
      pn_requester_id = (case requester of None \<Rightarrow> [] | Some r \<Rightarrow> em_id r),
      pn_requester_name = (case requester of None \<Rightarrow> or_empty (pi_requester_name input)
                             | Some r \<Rightarrow> or_text (Some (em_name r)) (or_empty (pi_requester_name input))),
      pn_steps = steps, pn_blocked = Some blocked\<rparr>"

text \<open>One turn of the loop over the approvers of the rule: go on without a step, refuse, or add a person.\<close>

datatype choice = Skip | Missing string | Choose employee string

definition fall_back :: "org_snapshot \<Rightarrow> employee \<Rightarrow> approval_policy \<Rightarrow> plan_input \<Rightarrow> string set \<Rightarrow> policy_approver \<Rightarrow> string \<Rightarrow> org_error + choice" where
  "fall_back org requester policy input used spec src =
     map_sum id (\<lambda>other. case other of
         Some p \<Rightarrow> Choose p (src @ ''+fallback'')
       | None \<Rightarrow>
           if (case spec of ManagerLevel level \<Rightarrow> 1 < level | RoleHolder _ \<Rightarrow> used \<noteq> {}) then Skip
           else Missing (src @ ''+fallback''))
       (fallbackUp org requester policy used (Some input))"

definition choose_approver :: "org_snapshot \<Rightarrow> employee \<Rightarrow> approval_policy \<Rightarrow> plan_input \<Rightarrow> string set \<Rightarrow> policy_approver \<Rightarrow> org_error + choice" where
  "choose_approver org requester policy input used spec =
     (case resolveApprover org requester spec policy input of
        Inl e \<Rightarrow> Inl e
      | Inr (None, src) \<Rightarrow> fall_back org requester policy input used spec src
      | Inr (Some p, src) \<Rightarrow>
          if em_id p \<in> used then
            (case fallbackUp org requester policy used (Some input) of
               Inl e \<Rightarrow> Inl e
             | Inr (Some q) \<Rightarrow> Inr (Choose q (src @ ''+dedupe''))
             | Inr None \<Rightarrow>
                 (case spec of
                    RoleHolder _ \<Rightarrow> Inr Skip
                  | ManagerLevel _ \<Rightarrow> fall_back org requester policy input used spec (src @ ''+dedupe'')))
          else Inr (Choose p src))"

definition step_of :: "approval_step list \<Rightarrow> employee \<Rightarrow> string \<Rightarrow> approval_step" where
  "step_of steps p src =
     \<lparr>ps_sequence = length steps + 1, ps_employee = em_id p, ps_name = em_name p, ps_role = em_position p, ps_source = src\<rparr>"

text \<open>The loop; \<open>Inl\<close> of the inner sum is the refusal with the source that had nobody.\<close>

fun plan_steps :: "org_snapshot \<Rightarrow> employee \<Rightarrow> approval_policy \<Rightarrow> plan_input \<Rightarrow> approval_step list \<Rightarrow> string set \<Rightarrow> policy_approver list
    \<Rightarrow> org_error + ((string \<times> approval_step list) + (approval_step list \<times> string set))" where
  "plan_steps org requester policy input steps used [] = Inr (Inr (steps, used))"
| "plan_steps org requester policy input steps used (spec # specs) =
     (case choose_approver org requester policy input used spec of
        Inl e \<Rightarrow> Inl e
      | Inr Skip \<Rightarrow> plan_steps org requester policy input steps used specs
      | Inr (Missing src) \<Rightarrow> Inr (Inl (src, steps))
      | Inr (Choose p src) \<Rightarrow>
          plan_steps org requester policy input (steps @ [step_of steps p src]) (insert (em_id p) used) specs)"

text \<open>The final approval by the \<open>gm\<close>, unless the \<open>gm\<close> is a step already or is the requester.\<close>

definition with_gm :: "org_snapshot \<Rightarrow> employee \<Rightarrow> approval_policy \<Rightarrow> approval_step list \<Rightarrow> string set \<Rightarrow> approval_step list" where
  "with_gm org requester policy steps used =
     (case effective_gm org requester policy of
        None \<Rightarrow> steps
      | Some ceo \<Rightarrow>
          if (steps = [] \<or> ps_employee (last steps) \<noteq> em_id ceo) \<and> em_id ceo \<notin> used \<and> \<not> is_requester policy requester ceo
          then steps @ [step_of steps ceo ''role(gm)+ceo_terminal''] else steps)"

definition calculateApprovalPlan :: "org_snapshot \<Rightarrow> approval_policy \<Rightarrow> plan_input \<Rightarrow> org_error + approval_plan" where
  "calculateApprovalPlan org policy input =
     (case resolveRequester org input of
        None \<Rightarrow> Inr (emptyPlan policy input [] None [] (''unknown_requester'', ascii_text ''requester not in org''))
      | Some requester \<Rightarrow>
          if \<not> js_is_finite (pi_amount input) \<or> js_le (pi_amount input) (Finite 0)
          then Inr (emptyPlan policy input [] (Some requester) [] (''missing_amount'', ascii_text ''amount required''))
          else case toBaseCny (pi_amount input) (pi_currency input) of
              Inl currency \<Rightarrow>
                Inr (emptyPlan policy input [] (Some requester) [] (''unsupported_currency'', ascii_text ''unsupported '' @ currency))
            | Inr fx \<Rightarrow>
                (case matchExpenseRule (fx_amount_base fx) policy of
                   None \<Rightarrow> Inr (emptyPlan policy input [] (Some requester) [] (''missing_amount'', ascii_text ''amount required''))
                 | Some rule \<Rightarrow>
                     (case plan_steps org requester policy input [] {} (pr_approvers rule) of
                        Inl e \<Rightarrow> Inl e
                      | Inr (Inl (src, steps)) \<Rightarrow>
                          Inr (emptyPlan policy input (pr_id rule) (Some requester) steps
                                 (''org_level_missing'', ascii_text (''missing approver for '' @ src)))
                      | Inr (Inr (steps, used)) \<Rightarrow>
                          Inr \<lparr>pn_policy_id = pl_id policy, pn_rule_id = pr_id rule, pn_business_type = pl_business_type policy,
                               pn_amount = pi_amount input, pn_currency = fx_currency fx, pn_amount_base = fx_amount_base fx,
                               pn_currency_base = pl_currency policy, pn_fx_rate = fx_rate fx, pn_requester_id = em_id requester,
                               pn_requester_name = em_name requester, pn_steps = with_gm org requester policy steps used,
                               pn_blocked = None\<rparr>)))"

section \<open>Who can be an approver\<close>

text \<open>What every person the engine resolves has: an employee of the organisation, and under a policy that skips those who are absent, one at work.\<close>

definition may_approve :: "org_snapshot \<Rightarrow> approval_policy \<Rightarrow> employee \<Rightarrow> bool" where
  "may_approve org policy p \<longleftrightarrow> p \<in> set (og_employees org) \<and> (pl_skip_inactive policy \<longrightarrow> em_status p = Serving)"

lemma effectivePerson_may:
  assumes "effectivePerson org x policy = Some p" and "\<And>q. x = Some q \<Longrightarrow> q \<in> set (og_employees org)"
  shows "may_approve org policy p"
  using assms by (cases "em_status (the x)")
    (auto simp: effectivePerson_def may_approve_def split: option.splits if_splits dest: employeeById_Some(1))

lemma gm_may: "effective_gm org r policy = Some p \<Longrightarrow> may_approve org policy p"
  unfolding effective_gm_def by (erule effectivePerson_may) (rule roleHolder_Some)

lemma walkFrom_may: "walkFrom org r policy = Inr ps \<Longrightarrow> p \<in> set ps \<Longrightarrow> may_approve org policy p"
  by (cases "getManagerChain org (em_id r)")
    (auto simp: walkFrom_def List.map_filter_def elim!: effectivePerson_may, drule employeeById_Some(1), simp)

lemma managerAt_may:
  assumes "managerAt org r level policy = Inr (Some p)"
  shows "may_approve org policy p" and "\<not> is_requester policy r p"
proof -
  obtain ps where "walkFrom org r policy = Inr ps" "js_index (filter (\<lambda>p. \<not> is_requester policy r p) ps) (level - 1) = Some p"
    using assms by (cases "walkFrom org r policy") (auto simp: managerAt_def)
  then have "p \<in> set (filter (\<lambda>p. \<not> is_requester policy r p) ps)" by (metis js_index_def nth_mem option.distinct(1) option.inject)
  then show "may_approve org policy p" and "\<not> is_requester policy r p" using walkFrom_may [OF \<open>walkFrom org r policy = Inr ps\<close>] by auto
qed

lemma fallbackUp_may:
  assumes "fallbackUp org r policy used input = Inr (Some p)"
  shows "may_approve org policy p" and "\<not> is_requester policy r p" and "em_id p \<notin> used" and "in_scope input p"
proof -
  obtain ps where ps: "walkFrom org r policy = Inr ps" "find (\<lambda>p. \<not> is_requester policy r p \<and> em_id p \<notin> used \<and> in_scope input p) ps = Some p"
    using assms by (cases "walkFrom org r policy") (auto simp: fallbackUp_def)
  then have "p \<in> set ps" "\<not> is_requester policy r p \<and> em_id p \<notin> used \<and> in_scope input p" by (auto simp: find_Some_iff)
  then show "may_approve org policy p" and "\<not> is_requester policy r p" and "em_id p \<notin> used" and "in_scope input p"
    using walkFrom_may [OF ps(1)] by auto
qed

lemma resolveApprover_may:
  assumes "resolveApprover org r spec policy input = Inr (Some p, src)"
  shows "may_approve org policy p" and "\<not> is_requester policy r p"
    and "in_scope (Some input) p \<or> effective_gm org r policy = Some p \<or> (\<exists>q. effective_gm org r policy = Some q \<and> is_requester policy r q)
      \<or> (\<exists>role. spec = RoleHolder role \<and> role \<noteq> ''gm'' \<and> role \<noteq> ''finance_owner'')"
proof -
  have "may_approve org policy p \<and> \<not> is_requester policy r p \<and> (in_scope (Some input) p \<or> effective_gm org r policy = Some p
      \<or> (\<exists>q. effective_gm org r policy = Some q \<and> is_requester policy r q)
      \<or> (\<exists>role. spec = RoleHolder role \<and> role \<noteq> ''gm'' \<and> role \<noteq> ''finance_owner''))"
  proof (cases spec)
    case (ManagerLevel level)
    then obtain x where "managerAt org r level policy = Inr x" "x = Some p" "in_scope (Some input) p"
      using assms by (cases "managerAt org r level policy") (auto simp: resolveApprover_def Let_def split: option.splits if_splits)
    then show ?thesis using managerAt_may by auto
  next
    case (RoleHolder role)
    let ?held = "effectivePerson org (roleHolder org role r) policy"
    obtain h where h: "?held = Some h" "in_scope (Some input) h"
      using assms RoleHolder by (auto simp: resolveApprover_def Let_def split: option.splits if_splits)
    have may: "may_approve org policy h" using effectivePerson_may [OF h(1)] roleHolder_Some by blast
    show ?thesis
    proof (cases "is_requester policy r h")
      case False
      then show ?thesis using assms RoleHolder h may by (simp add: resolveApprover_def)
    next
      case self: True
      show ?thesis
      proof (cases "role = ''finance_owner''")
        case True
        then have "effective_gm org r policy = Some p" "em_id p \<noteq> em_id r"
          using assms RoleHolder h self by (auto simp: resolveApprover_def split: option.splits if_splits)
        then show ?thesis using gm_may by (auto simp: is_requester_def)
      next
        case False
        obtain x where x: "fallbackUp org r policy {em_id r} None = Inr x" "x = Some p"
          using assms RoleHolder h self False
          by (cases "fallbackUp org r policy {em_id r} None") (auto simp: resolveApprover_def split: option.splits if_splits)
        have "role = ''gm'' \<Longrightarrow> effective_gm org r policy = Some h" using h by (simp add: effective_gm_def)
        then show ?thesis using fallbackUp_may [of org r policy "{em_id r}" None p] x self RoleHolder False by auto
      qed
    qed
  qed
  then show "may_approve org policy p" and "\<not> is_requester policy r p"
    and "in_scope (Some input) p \<or> effective_gm org r policy = Some p \<or> (\<exists>q. effective_gm org r policy = Some q \<and> is_requester policy r q)
      \<or> (\<exists>role. spec = RoleHolder role \<and> role \<noteq> ''gm'' \<and> role \<noteq> ''finance_owner'')"
    by blast+
qed

lemma fall_back_Choose:
  assumes "fall_back org r policy input used spec src = Inr (Choose p t)"
  shows "fallbackUp org r policy used (Some input) = Inr (Some p)"
  using assms by (cases "fallbackUp org r policy used (Some input)") (auto simp: fall_back_def split: option.splits if_splits)

lemma choose_approver_cases:
  assumes "choose_approver org r policy input used spec = Inr (Choose p src)"
  shows "fallbackUp org r policy used (Some input) = Inr (Some p)
    \<or> resolveApprover org r spec policy input = Inr (Some p, src) \<and> em_id p \<notin> used"
  using assms by (auto simp: choose_approver_def split: sum.splits option.splits if_splits prod.splits policy_approver.splits dest: fall_back_Choose)

lemma choose_approver_may:
  assumes "choose_approver org r policy input used spec = Inr (Choose p src)"
  shows "may_approve org policy p" and "\<not> is_requester policy r p" and "em_id p \<notin> used"
    and "in_scope (Some input) p \<or> effective_gm org r policy = Some p \<or> (\<exists>q. effective_gm org r policy = Some q \<and> is_requester policy r q)
      \<or> (\<exists>role. spec = RoleHolder role \<and> role \<noteq> ''gm'' \<and> role \<noteq> ''finance_owner'')"
  using choose_approver_cases [OF assms] fallbackUp_may [of org r policy used "Some input" p] resolveApprover_may [of org r spec policy input p src]
  by blast+

section \<open>The steps of a plan\<close>

text \<open>\<open>P\<close> is what the people chosen have in common.\<close>

definition steps_ok :: "(employee \<Rightarrow> bool) \<Rightarrow> approval_step list \<Rightarrow> bool" where
  "steps_ok P steps \<longleftrightarrow> distinct (map ps_employee steps) \<and> map ps_sequence steps = [1 ..< length steps + 1]
     \<and> (\<forall>s \<in> set steps. \<exists>p. P p \<and> ps_employee s = em_id p \<and> ps_name s = em_name p \<and> ps_role s = em_position p)"

lemma steps_ok_Nil [simp]: "steps_ok P []"
  by (simp add: steps_ok_def)

lemma steps_ok_snoc: "steps_ok P steps \<Longrightarrow> P p \<Longrightarrow> em_id p \<notin> ps_employee ` set steps \<Longrightarrow> steps_ok P (steps @ [step_of steps p src])"
  by (auto simp: steps_ok_def step_of_def)

lemma steps_ok_mono: "steps_ok P steps \<Longrightarrow> (\<And>p. P p \<Longrightarrow> Q p) \<Longrightarrow> steps_ok Q steps"
  unfolding steps_ok_def by blast

lemma plan_steps_ok:
  assumes "plan_steps org r policy input steps used specs = Inr (Inr (steps', used'))"
    and "steps_ok P steps" and "used = ps_employee ` set steps"
    and "\<And>spec u p src. spec \<in> set specs \<Longrightarrow> choose_approver org r policy input u spec = Inr (Choose p src) \<Longrightarrow> P p"
  shows "steps_ok P steps'" and "used' = ps_employee ` set steps'"
proof -
  have "steps_ok P steps' \<and> used' = ps_employee ` set steps'"
    using assms
  proof (induction specs arbitrary: steps used)
    case (Cons spec specs)
    show ?case
    proof (cases "choose_approver org r policy input used spec")
      case (Inr c)
      show ?thesis
      proof (cases c)
        case Skip
        have "plan_steps org r policy input steps used specs = Inr (Inr (steps', used'))" using Cons.prems(1) Inr Skip by simp
        then show ?thesis by (rule Cons.IH) (use Cons.prems in auto)
      next
        case (Choose p src)
        have p: "P p" "em_id p \<notin> ps_employee ` set steps"
          using Cons.prems(3,4) Inr Choose choose_approver_may(3) [of org r policy input used spec p src] by auto
        have "plan_steps org r policy input (steps @ [step_of steps p src]) (insert (em_id p) used) specs = Inr (Inr (steps', used'))"
          using Cons.prems(1) Inr Choose by simp
        then show ?thesis
          by (rule Cons.IH) (use Cons.prems p steps_ok_snoc [of P steps p src] in \<open>auto simp: step_of_def\<close>)
      qed (use Cons.prems Inr in simp)
    qed (use Cons.prems in simp)
  qed simp
  then show "steps_ok P steps'" and "used' = ps_employee ` set steps'" by simp_all
qed

lemma with_gm_ok:
  assumes "steps_ok P steps" and "used = ps_employee ` set steps"
    and "\<And>p. effective_gm org r policy = Some p \<Longrightarrow> \<not> is_requester policy r p \<Longrightarrow> P p"
  shows "steps_ok P (with_gm org r policy steps used)"
  using assms by (auto simp: with_gm_def split: option.splits intro: steps_ok_snoc)

lemma with_gm_has:
  assumes "effective_gm org r policy = Some p" and "\<not> is_requester policy r p" and "used = ps_employee ` set steps"
  shows "em_id p \<in> ps_employee ` set (with_gm org r policy steps used)"
proof (cases "steps = [] \<or> ps_employee (last steps) \<noteq> em_id p")
  case True
  then show ?thesis using assms by (auto simp: with_gm_def step_of_def)
next
  case False
  then have "last steps \<in> set steps" "ps_employee (last steps) = em_id p" by simp_all
  then show ?thesis using assms by (auto simp: with_gm_def step_of_def intro: image_eqI [of _ _ "last steps"])
qed

end
