(* ===== verification/Approval_Rules.thy ===== *)
theory Approval_Rules
  imports Approval_Plan
begin

text \<open>
  What the plans of \<open>Approval_Plan\<close> guarantee: the amount bands leave no gap and amounts in cents survive
  the conversion, the engine does not throw on a sound organisation, and the approvers of a plan are distinct
  people at work other than the requester, in scope, with the general manager among them.
\<close>

section \<open>Amounts and bands\<close>

text \<open>The band of an amount of \<open>n\<close> cents.\<close>

definition band :: "int \<Rightarrow> nat" where
  "band n = (if n \<le> 500000 then 0 else if n \<le> 2000000 then 1 else if n \<le> 10000000 then 2 else 3)"

lemma band_limits:
  assumes "0 \<le> n" and d: "to_double (of_int n / 100) = Finite b"
  shows "n \<le> 500000 \<Longrightarrow> b \<le> 5000" and "500000 < n \<Longrightarrow> magnitude (500001 / 100) \<le> b"
    and "n \<le> 2000000 \<Longrightarrow> b \<le> 20000" and "2000000 < n \<Longrightarrow> magnitude (2000001 / 100) \<le> b"
    and "n \<le> 10000000 \<Longrightarrow> b \<le> 100000" and "10000000 < n \<Longrightarrow> magnitude (10000001 / 100) \<le> b"
proof -
  have up: "b \<le> of_int k" if k: "n \<le> k * 100" "0 \<le> k" "k \<le> 2 ^ 53" for k
  proof -
    have "(of_int n :: rat) \<le> of_int k * 100" using k(1) by (metis of_int_le_iff of_int_mult of_int_numeral)
    then have le: "(of_int n / 100 :: rat) \<le> of_int k" by simp
    have kd: "to_double (of_int k) = Finite (of_int k)" using literal_int [OF k(2,3)] by (simp add: literal_def)
    show ?thesis using to_double_mono [OF _ le kd] assms by simp
  qed
  show "n \<le> 500000 \<Longrightarrow> b \<le> 5000" using up [of 5000] by simp
  show "n \<le> 2000000 \<Longrightarrow> b \<le> 20000" using up [of 20000] by simp
  show "n \<le> 10000000 \<Longrightarrow> b \<le> 100000" using up [of 100000] by simp
  have low: "magnitude (of_int k / 100) \<le> b" if "k \<le> n" "0 \<le> k" for k
    by (rule to_double_mono(2) [OF _ _ d]) (use that in \<open>simp_all add: divide_right_mono\<close>)
  show "500000 < n \<Longrightarrow> magnitude (500001 / 100) \<le> b" using low [of 500001] by simp
  show "2000000 < n \<Longrightarrow> magnitude (2000001 / 100) \<le> b" using low [of 2000001] by simp
  show "10000000 < n \<Longrightarrow> magnitude (10000001 / 100) \<le> b" using low [of 10000001] by simp
qed

lemma literal_cents:
  assumes "0 < n" "n \<le> 2 ^ 49"
  shows "literal (of_int n / 100) = Finite (magnitude (of_int n / 100))"
  using cents_double(1) [OF assms] by (simp add: literal_def)

lemma band_literals:
  "literal 0 = Finite 0" "literal 5000 = Finite 5000" "literal 20000 = Finite 20000" "literal 100000 = Finite 100000"
  "literal (500001 / 100) = Finite (magnitude (500001 / 100))" "literal (2000001 / 100) = Finite (magnitude (2000001 / 100))"
  "literal (10000001 / 100) = Finite (magnitude (10000001 / 100))"
  using literal_int [of 0] literal_int [of 5000] literal_int [of 20000] literal_int [of 100000]
    literal_cents [of 500001] literal_cents [of 2000001] literal_cents [of 10000001] by simp_all

lemma above_limit:
  assumes "0 < k" and "k \<le> 2 ^ 49"
  shows "of_int k / 100 - 1 / 200 < magnitude (of_int k / 100)"
proof -
  have tiny: "(1 :: rat) / 2 ^ 1000 \<le> 1 / 2 ^ 10" by (intro divide_left_mono power_increasing) simp_all
  have k: "1 \<le> (of_int k :: rat)" "(of_int k :: rat) \<le> 2 ^ 49" using assms of_int_le_power2 by simp_all
  then have "\<bar>magnitude (of_int k / 100) - of_int k / 100\<bar> \<le> of_int k / 100 / 2 ^ 53"
    by (intro magnitude_close order_trans [OF tiny]) simp
  moreover have "of_int k / 100 / 2 ^ 53 < (1 / 200 :: rat)" using k by simp
  ultimately show ?thesis unfolding abs_le_iff by linarith
qed

lemma limits_strict: "5000 < magnitude (500001 / 100)" "20000 < magnitude (2000001 / 100)" "100000 < magnitude (10000001 / 100)"
  using above_limit [of 500001] above_limit [of 2000001] above_limit [of 10000001] by simp_all

text \<open>A finite amount of whole cents falls into the band its cents say, and into no gap.\<close>

lemma match_by_cents:
  assumes "0 \<le> n" and d: "to_double (of_int n / 100) = Finite b"
  shows "matchExpenseRule (Finite b) EXPENSE_POLICY = Some (pl_rules EXPENSE_POLICY ! band n)"
proof -
  have b0: "0 \<le> b" using to_double_mono(2) [OF order_refl _ d] assms(1) by simp
  note lim = band_limits [OF assms]
  consider "n \<le> 500000" | "500000 < n" "n \<le> 2000000" | "2000000 < n" "n \<le> 10000000" | "10000000 < n" by linarith
  then show ?thesis
  proof cases
    case 1
    then show ?thesis using lim b0 by (simp add: matchExpenseRule_def EXPENSE_POLICY_def band_literals js_le_def band_def not_less)
  next
    case 2
    then show ?thesis using lim(2,3) limits_strict b0
      by (simp add: matchExpenseRule_def EXPENSE_POLICY_def band_literals js_le_def band_def not_less)
  next
    case 3
    then show ?thesis using lim(2,4,5) limits_strict b0
      by (simp add: matchExpenseRule_def EXPENSE_POLICY_def band_literals js_le_def band_def not_less)
  next
    case 4
    then show ?thesis using lim(2,4,6) limits_strict b0
      by (simp add: matchExpenseRule_def EXPENSE_POLICY_def band_literals js_le_def band_def not_less)
  qed
qed

lemma rate_pos:
  assumes "map_of FX_TO_CNY c = Some rate"
  shows "\<exists>r. rate = Finite r \<and> 0 \<le> r"
proof -
  have "\<exists>q. rate = literal q \<and> 0 \<le> q \<and> q \<le> 10"
    using map_of_SomeD [OF assms] by (auto simp: FX_TO_CNY_def)
  then obtain q where q: "rate = to_double q" "0 \<le> q" "q \<le> 10" by (auto simp: literal_def)
  have "(10 :: rat) \<le> 2 ^ 4" by simp
  also have "\<dots> \<le> 2 ^ 1000" by (rule power_increasing) simp_all
  finally have "to_double q = Finite (magnitude q)" using q by (intro to_double_small) simp_all
  then show ?thesis using q magnitude_nonneg by blast
qed

lemma to_double_cases:
  assumes "0 \<le> q"
  obtains "to_double q = Infinite False" | p where "to_double q = Finite p" "0 \<le> p"
  using that magnitude_nonneg [OF assms] by (cases "overflow \<le> magnitude q") (auto simp: to_double_nonneg [OF assms])

text \<open>The base amount is a whole number of cents.\<close>

lemma base_in_cents:
  assumes "0 \<le> q" and "toBaseCny (Finite q) currency = Inr fx" and "js_is_finite (fx_amount_base fx)"
  obtains n b where "0 \<le> n" "fx_amount_base fx = Finite b" "to_double (of_int n / 100) = Finite b"
proof -
  obtain rate where rate: "map_of FX_TO_CNY (normalizeCurrency currency) = Some rate"
    and base: "fx_amount_base fx = js_over (js_Math_round (js_times (js_times (Finite q) rate) (Finite 100))) 100"
    using assms(2) by (auto simp: toBaseCny_def Let_def split: option.splits)
  obtain r where r: "rate = Finite r" "0 \<le> r" using rate_pos [OF rate] by blast
  have "0 \<le> q * r" using assms(1) r by simp
  then obtain p where p: "js_times (Finite q) rate = Finite p" "0 \<le> p"
    by (cases rule: to_double_cases) (use assms(3) base r in auto)
  then have "0 \<le> p * 100" by simp
  then obtain c where c: "js_times (Finite p) (Finite 100) = Finite c" "0 \<le> c"
    by (cases rule: to_double_cases) (use assms(3) base p in auto)
  have n: "0 \<le> \<lfloor>c + 1 / 2\<rfloor>" using c by simp
  then have "0 \<le> (of_int \<lfloor>c + 1 / 2\<rfloor> / 100 :: rat)" by simp
  then obtain b where "to_double (of_int \<lfloor>c + 1 / 2\<rfloor> / 100) = Finite b"
    by (cases rule: to_double_cases) (use assms(3) base p c in auto)
  then show ?thesis using that [OF n, of b] base p c by simp
qed

text \<open>
  C10. The amount bands have no gap: whatever the currency and the amount, a base amount that is finite matches a
  rule, the one its whole number of cents lies in, although the bands are written with the limits 5000 and
  5000.01, 20000 and 20000.01, and 100000 and 100000.01.
\<close>

theorem bands_have_no_gap:
  assumes "0 \<le> q" and "toBaseCny (Finite q) currency = Inr fx" and "js_is_finite (fx_amount_base fx)"
  shows "\<exists>n \<ge> 0. fx_amount_base fx = to_double (of_int n / 100)
    \<and> matchExpenseRule (fx_amount_base fx) EXPENSE_POLICY = Some (pl_rules EXPENSE_POLICY ! band n)"
  by (rule base_in_cents [OF assms]) (metis match_by_cents)

text \<open>
  An amount of the base currency in cents is kept exactly by the conversion, up to five and a half trillion:
  the multiplication by 100, \<open>Math.round\<close> and the division give back the double of the amount, and the band
  is the one of its cents.
\<close>

theorem cents_survive_conversion:
  assumes "0 < n" and "n \<le> 2 ^ 49" and "normalizeCurrency currency = ascii_text ''CNY''"
  shows "toBaseCny (to_double (of_int n / 100)) currency
      = Inr \<lparr>fx_currency = ascii_text ''CNY'', fx_rate = Finite 1, fx_amount_base = to_double (of_int n / 100)\<rparr>
    \<and> matchExpenseRule (to_double (of_int n / 100)) EXPENSE_POLICY = Some (pl_rules EXPENSE_POLICY ! band n)"
proof (intro conjI)
  have "map_of FX_TO_CNY (ascii_text ''CNY'') = Some (Finite 1)"
    using literal_int [of 1] by (simp add: FX_TO_CNY_def)
  then show "toBaseCny (to_double (of_int n / 100)) currency
      = Inr \<lparr>fx_currency = ascii_text ''CNY'', fx_rate = Finite 1, fx_amount_base = to_double (of_int n / 100)\<rparr>"
    using cents_double(2) [OF assms(1,2)] assms(3) by (simp add: toBaseCny_def)
  show "matchExpenseRule (to_double (of_int n / 100)) EXPENSE_POLICY = Some (pl_rules EXPENSE_POLICY ! band n)"
    using match_by_cents [of n] cents_double(1) [OF assms(1,2)] assms(1) by simp
qed

section \<open>The engine and its steps\<close>

lemma resolveRequester_Some: "resolveRequester org input = Some r \<Longrightarrow> r \<in> set (og_employees org)"
  by (auto simp: resolveRequester_def or_else_def employeeByName_def employeeByMailbox_def Let_def find_Some_iff
      split: option.splits if_splits dest: employeeById_Some(1))

lemma plan_made:
  assumes "calculateApprovalPlan org policy input = Inr plan" and "pn_blocked plan = None"
  obtains r fx rule steps used where "resolveRequester org input = Some r"
    "toBaseCny (pi_amount input) (pi_currency input) = Inr fx" "matchExpenseRule (fx_amount_base fx) policy = Some rule"
    "plan_steps org r policy input [] {} (pr_approvers rule) = Inr (Inr (steps, used))"
    "pn_requester_id plan = em_id r" "pn_steps plan = with_gm org r policy steps used" "pn_rule_id plan = pr_id rule"
    "pn_amount_base plan = fx_amount_base fx"
  using assms unfolding calculateApprovalPlan_def
  by (auto simp: emptyPlan_def split: option.splits if_splits sum.splits)

lemma plan_steps_common:
  assumes "calculateApprovalPlan org policy input = Inr plan" and "pn_blocked plan = None"
    and "\<And>r spec u p src rule. resolveRequester org input = Some r \<Longrightarrow> rule \<in> set (pl_rules policy) \<Longrightarrow> spec \<in> set (pr_approvers rule)
      \<Longrightarrow> choose_approver org r policy input u spec = Inr (Choose p src) \<Longrightarrow> P p"
    and "\<And>r p. resolveRequester org input = Some r \<Longrightarrow> effective_gm org r policy = Some p \<Longrightarrow> \<not> is_requester policy r p \<Longrightarrow> P p"
  shows "steps_ok P (pn_steps plan)"
proof -
  obtain r steps used and fx :: base_amount and rule :: policy_rule where made: "resolveRequester org input = Some r"
    "matchExpenseRule (fx_amount_base fx) policy = Some rule"
    "plan_steps org r policy input [] {} (pr_approvers rule) = Inr (Inr (steps, used))" "pn_steps plan = with_gm org r policy steps used"
    by (rule plan_made [OF assms(1,2)]) blast
  have "rule \<in> set (pl_rules policy)" using made(2) by (auto simp: matchExpenseRule_def find_Some_iff split: if_splits)
  then have "steps_ok P steps \<and> used = ps_employee ` set steps"
    using plan_steps_ok [OF made(3)] assms(3) [OF made(1)] by simp
  then show ?thesis unfolding made(4) using assms(4) [OF made(1)] by (intro with_gm_ok) auto
qed

text \<open>
  C9. Nobody approves an expense of their own, nobody approves it twice, and nobody absent approves it: under a
  policy that skips the requester and absent people, the steps of a plan that is not refused name pairwise distinct
  employees of the organisation, all of them at work and none of them the requester, numbered from 1.
\<close>

theorem plan_approvers_sound:
  assumes "calculateApprovalPlan org policy input = Inr plan" and "pn_blocked plan = None"
    and "pl_skip_self policy" and "pl_skip_inactive policy"
  shows "distinct (map ps_employee (pn_steps plan)) \<and> pn_requester_id plan \<notin> ps_employee ` set (pn_steps plan)
    \<and> map ps_sequence (pn_steps plan) = [1 ..< length (pn_steps plan) + 1]
    \<and> (\<forall>s \<in> set (pn_steps plan). \<exists>p \<in> set (og_employees org). em_id p = ps_employee s \<and> em_status p = Serving)"
proof -
  let ?P = "\<lambda>p. may_approve org policy p \<and> em_id p \<noteq> pn_requester_id plan"
  obtain r where r: "resolveRequester org input = Some r" "pn_requester_id plan = em_id r"
    by (rule plan_made [OF assms(1,2)]) blast
  have "steps_ok ?P (pn_steps plan)"
    by (rule plan_steps_common [OF assms(1,2)])
      (use r assms(3) choose_approver_may gm_may in \<open>fastforce simp: is_requester_def\<close>)+
  then show ?thesis using assms(4) unfolding steps_ok_def may_approve_def by fastforce
qed

text \<open>
  C13. The general manager is an approver of every plan: when there is one at work (or a delegate at work) who is not the
  requester, one of the steps is theirs.
\<close>

theorem gm_approves_every_plan:
  assumes "calculateApprovalPlan org policy input = Inr plan" and "pn_blocked plan = None"
    and "resolveRequester org input = Some r" and "effective_gm org r policy = Some gm" and "\<not> is_requester policy r gm"
  shows "em_id gm \<in> ps_employee ` set (pn_steps plan)"
proof -
  obtain steps used and fx :: base_amount and rule :: policy_rule where
    "plan_steps org r policy input [] {} (pr_approvers rule) = Inr (Inr (steps, used))" "pn_steps plan = with_gm org r policy steps used"
    by (rule plan_made [OF assms(1,2)]) (use assms(3) in auto)
  note made = this
  have "used = ps_employee ` set steps" by (rule plan_steps_ok(2) [OF made(1), where P = "\<lambda>_. True"]) simp_all
  then show ?thesis unfolding made(2) by (rule with_gm_has [OF assms(4,5)])
qed

text \<open>
  Approvers stay in the scope of the document: under a policy whose roles are the finance owner and the general
  manager, everybody on the plan either has no brand or region other than the document's or is the general manager,
  as long as the requester is not acting general manager.
\<close>

theorem approvers_stay_in_scope:
  assumes "calculateApprovalPlan org policy input = Inr plan" and "pn_blocked plan = None"
    and "resolveRequester org input = Some r" and "\<And>g. effective_gm org r policy = Some g \<Longrightarrow> \<not> is_requester policy r g"
    and "\<And>rule role. rule \<in> set (pl_rules policy) \<Longrightarrow> RoleHolder role \<in> set (pr_approvers rule) \<Longrightarrow> role \<in> {''finance_owner'', ''gm''}"
  shows "\<forall>s \<in> set (pn_steps plan). \<exists>p \<in> set (og_employees org). em_id p = ps_employee s
    \<and> (matchesScope p (pi_brand input) (pi_region input) \<or> effective_gm org r policy = Some p)"
proof -
  have "steps_ok (\<lambda>p. may_approve org policy p \<and> (in_scope (Some input) p \<or> effective_gm org r policy = Some p)) (pn_steps plan)"
  proof (rule plan_steps_common [OF assms(1,2)])
    fix r' spec u p src rule
    assume s: "resolveRequester org input = Some r'" "rule \<in> set (pl_rules policy)" "spec \<in> set (pr_approvers rule)"
      and c: "choose_approver org r' policy input u spec = Inr (Choose p src)"
    have "r' = r" using s(1) assms(3) by simp
    then show "may_approve org policy p \<and> (in_scope (Some input) p \<or> effective_gm org r policy = Some p)"
      using choose_approver_may(1,4) [OF c] assms(4) assms(5) [OF s(2)] s(3) by blast
  qed (use assms(3) gm_may in simp)
  then show ?thesis unfolding steps_ok_def in_scope_def may_approve_def by (auto; metis)
qed

section \<open>The engine does not throw\<close>

lemma walkFrom_total:
  assumes "sound_org org" "r \<in> set (og_employees org)"
  obtains ps where "walkFrom org r policy = Inr ps"
  using assms by (cases "getManagerChain org (em_id r)") (auto simp: sound_org_def list_all_iff walkFrom_def)

lemma choose_total:
  assumes "sound_org org" "r \<in> set (og_employees org)"
  shows "\<exists>c. choose_approver org r policy input used spec = Inr c"
proof -
  obtain ps where ps: "walkFrom org r policy = Inr ps" by (rule walkFrom_total [OF assms])
  have "\<exists>x src. resolveApprover org r spec policy input = Inr (x, src)"
    by (cases spec) (auto simp: resolveApprover_def managerAt_def fallbackUp_def ps Let_def split: option.splits if_splits)
  then obtain x src where "resolveApprover org r spec policy input = Inr (x, src)" by blast
  then show ?thesis
    by (cases x) (auto simp: choose_approver_def fall_back_def fallbackUp_def ps split: option.splits policy_approver.splits)
qed

lemma plan_steps_total:
  assumes "sound_org org" "r \<in> set (og_employees org)"
  shows "\<exists>x. plan_steps org r policy input steps used specs = Inr x"
proof (induction specs arbitrary: steps used)
  case (Cons spec specs)
  obtain c where "choose_approver org r policy input used spec = Inr c" using choose_total [OF assms] by blast
  then show ?case using Cons.IH by (cases c) simp_all
qed simp

text \<open>
  The engine answers every request: when every employee's chain of managers ends at somebody without a manager within
  31 levels, no input makes it throw, and the built-in organisation is such an organisation.
\<close>

theorem plan_engine_total:
  assumes "sound_org org \<or> org = defaultOrgSnapshot"
  shows "\<exists>plan. calculateApprovalPlan org policy input = Inr plan"
proof -
  have org: "sound_org org" using assms default_org_sound by blast
  have "\<exists>x. plan_steps org r policy input [] {} specs = Inr x" if "resolveRequester org input = Some r" for r specs
    by (rule plan_steps_total [OF org resolveRequester_Some [OF that]])
  then show ?thesis unfolding calculateApprovalPlan_def
    by (auto split: option.splits sum.splits) (metis sum.distinct(1))+
qed

end
