(* ===== verification/Approval_Sample.thy ===== *)
theory Approval_Sample
  imports Approval_Rules
begin

text \<open>
  Plans of the built-in organisation: the walk up from an employee, the holders of the roles, and the plan of a
  brand leader's expense of 30000, which the witnesses of the rule engine use.
\<close>

lemma effectivePerson_serving: "em_status p = Serving \<Longrightarrow> effectivePerson org (Some p) policy = Some p"
  by (simp add: effectivePerson_def)

lemma walk_nodes:
  assumes "\<And>m. m \<in> set ms \<Longrightarrow> \<exists>p. employeeById org (Some m) = Some p \<and> em_status p = Serving"
  shows "List.map_filter (\<lambda>node. effectivePerson org (employeeById org (Some (cn_employee node))) policy) (nodes_of org k ms)
    = map (\<lambda>m. the (employeeById org (Some m))) ms"
  using assms
proof (induction ms arbitrary: k)
  case (Cons m ms)
  obtain p where p: "employeeById org (Some m) = Some p" "em_status p = Serving" using Cons.prems [of m] by auto
  then have "employeeById org (Some (em_id p)) = Some p" by (metis employeeById_id)
  then show ?case using Cons p by (simp add: List.map_filter_simps node_of_def effectivePerson_serving)
qed (simp add: List.map_filter_simps)

lemma default_walk:
  assumes e: "e \<in> set default_employees" and up: "reports_up defaultOrgSnapshot (em_manager e) ms" and "length ms \<le> 31"
    and found: "\<And>m. m \<in> set ms \<Longrightarrow> \<exists>p. employeeById defaultOrgSnapshot (Some m) = Some p"
  shows "walkFrom defaultOrgSnapshot e policy = Inr (map (\<lambda>m. the (employeeById defaultOrgSnapshot (Some m))) ms)"
proof -
  have "getManagerChain defaultOrgSnapshot (em_id e) = Inr (nodes_of defaultOrgSnapshot 1 ms)"
    using default_by_id [OF e] up assms(3) by (auto simp: manager_chain_iff)
  moreover have "\<exists>p. employeeById defaultOrgSnapshot (Some m) = Some p \<and> em_status p = Serving" if "m \<in> set ms" for m
    using found [OF that] default_serving employeeById_Some(1) by fastforce
  ultimately show ?thesis by (simp add: walkFrom_def walk_nodes)
qed

definition zhang :: employee where "zhang = default_employees ! 0"
definition wang :: employee where "wang = default_employees ! 1"
definition finance :: employee where "finance = default_employees ! 2"
definition lintong :: employee where "lintong = default_employees ! 3"

lemmas staff_defs = zhang_def wang_def finance_def lintong_def

lemma staff_ids [simp]: "em_id zhang = ''emp_zhang''" "em_id wang = ''emp_wang''" "em_id finance = ''emp_finance''" "em_id lintong = ''emp_lintong''"
proof -
  have "em_id (default_employees ! k) = map em_id default_employees ! k" if "k < 16" for k using that by simp
  note nth = this [of 0] this [of 1] this [of 2] this [of 3]
  show "em_id zhang = ''emp_zhang''" "em_id wang = ''emp_wang''" "em_id finance = ''emp_finance''" "em_id lintong = ''emp_lintong''"
    unfolding staff_defs using nth by (simp_all only: default_columns) simp_all
qed

lemma staff_serving [simp]: "em_status zhang = Serving" "em_status wang = Serving" "em_status finance = Serving" "em_status lintong = Serving"
  unfolding staff_defs by (simp_all add: default_nth(3))

lemma staff_found [simp]:
  "employeeById defaultOrgSnapshot (Some ''emp_zhang'') = Some zhang" "employeeById defaultOrgSnapshot (Some ''emp_wang'') = Some wang"
  "employeeById defaultOrgSnapshot (Some ''emp_finance'') = Some finance" "employeeById defaultOrgSnapshot (Some ''emp_lintong'') = Some lintong"
  unfolding staff_defs by (rule default_managers)+

lemma lintong_walk: "walkFrom defaultOrgSnapshot lintong policy = Inr [wang, zhang]"
proof -
  have "em_manager lintong = Some ''emp_wang''" unfolding staff_defs by (simp only: default_nth(2) default_columns) simp
  then have "walkFrom defaultOrgSnapshot lintong policy = Inr (map (\<lambda>m. the (employeeById defaultOrgSnapshot (Some m))) [''emp_wang'', ''emp_zhang''])"
    by (intro default_walk) (use default_above(3) in \<open>auto simp: lintong_def\<close>)
  then show ?thesis by simp
qed

lemma default_tables [simp]: "og_units defaultOrgSnapshot = default_units" "og_relationships defaultOrgSnapshot = default_relationships"
  by (simp_all add: defaultOrgSnapshot_def)

lemma default_roles:
  "roleHolder defaultOrgSnapshot ''gm'' r = Some zhang" "roleHolder defaultOrgSnapshot ''finance_owner'' r = Some finance"
  by (simp_all add: roleHolder_def given_def default_units_def default_relationships_def)

definition sample_request :: "string \<Rightarrow> js_number \<Rightarrow> plan_input" where
  "sample_request i amount =
     \<lparr>pi_requester_id = Some i, pi_requester_name = None, pi_mailbox = None, pi_amount = amount, pi_currency = None,
      pi_business_type = None, pi_purpose = None, pi_brand = None, pi_region = None\<rparr>"

lemma sample_in_scope [simp]: "in_scope (Some (sample_request i a)) p"
  by (simp add: in_scope_def sample_request_def matchesScope_def or_empty_def text_trim_def js_upper_def)

lemma sample_cny: "normalizeCurrency None = ascii_text ''CNY''"
  by (simp add: normalizeCurrency_def ascii_text_def text_trim_def js_space_def js_upper_def upper_unit_def)

lemma sample_base:
  "toBaseCny (Finite 30000) None = Inr \<lparr>fx_currency = ascii_text ''CNY'', fx_rate = Finite 1, fx_amount_base = Finite 30000\<rparr>"
  "matchExpenseRule (Finite 30000) EXPENSE_POLICY = Some (pl_rules EXPENSE_POLICY ! 2)"
proof -
  have d: "to_double (of_int 3000000 / 100) = Finite 30000" using literal_int [of 30000] by (simp add: literal_def)
  have iso: "map_of FX_TO_CNY (ascii_text ''CNY'') = Some (Finite 1)" using literal_int [of 1] by (simp add: FX_TO_CNY_def)
  show "toBaseCny (Finite 30000) None = Inr \<lparr>fx_currency = ascii_text ''CNY'', fx_rate = Finite 1, fx_amount_base = Finite 30000\<rparr>"
    using cents_double(2) [of 3000000] d iso by (simp add: toBaseCny_def sample_cny)
  show "matchExpenseRule (Finite 30000) EXPENSE_POLICY = Some (pl_rules EXPENSE_POLICY ! 2)"
    using match_by_cents [OF _ d] by (simp add: band_def)
qed

lemma sample_rule: "pr_approvers (pl_rules EXPENSE_POLICY ! 2) = [ManagerLevel 1, ManagerLevel 2, RoleHolder ''finance_owner'']"
  by (simp add: EXPENSE_POLICY_def numeral_2_eq_2)

lemma expense_skips [simp]: "pl_skip_self EXPENSE_POLICY" "pl_skip_inactive EXPENSE_POLICY"
  by (simp_all add: EXPENSE_POLICY_def)

lemma show_levels: "show_level 1 = ''1''" "show_level 2 = ''2''"
  by code_simp+

lemma expense_roles: "rule \<in> set (pl_rules EXPENSE_POLICY) \<Longrightarrow> RoleHolder role \<in> set (pr_approvers rule) \<Longrightarrow> role \<in> {''finance_owner'', ''gm''}"
  by (auto simp: EXPENSE_POLICY_def)

lemma sample_steps:
  "plan_steps defaultOrgSnapshot lintong EXPENSE_POLICY (sample_request i a) [] {} [ManagerLevel 1, ManagerLevel 2, RoleHolder ''finance_owner'']
    = Inr (Inr ([\<lparr>ps_sequence = 1, ps_employee = ''emp_wang'', ps_name = em_name wang, ps_role = em_position wang, ps_source = ''manager(level=1)''\<rparr>,
        \<lparr>ps_sequence = 2, ps_employee = ''emp_zhang'', ps_name = em_name zhang, ps_role = em_position zhang, ps_source = ''manager(level=2)''\<rparr>,
        \<lparr>ps_sequence = 3, ps_employee = ''emp_finance'', ps_name = em_name finance, ps_role = em_position finance, ps_source = ''role(finance_owner)''\<rparr>],
        {''emp_finance'', ''emp_zhang'', ''emp_wang''}))"
  by (simp add: choose_approver_def resolveApprover_def managerAt_def lintong_walk is_requester_def js_index_def step_of_def
      default_roles effectivePerson_serving Let_def show_levels)

lemma sample_requester: "resolveRequester defaultOrgSnapshot (sample_request ''emp_lintong'' a) = Some lintong"
  by (simp add: resolveRequester_def sample_request_def or_else_def)

lemma sample_plan_eq:
  "\<exists>plan. calculateApprovalPlan defaultOrgSnapshot EXPENSE_POLICY (sample_request ''emp_lintong'' (Finite 30000)) = Inr plan
    \<and> pn_blocked plan = None \<and> pn_requester_id plan = ''emp_lintong'' \<and> map ps_employee (pn_steps plan) = [''emp_wang'', ''emp_zhang'', ''emp_finance'']"
proof -
  have "pi_amount (sample_request i a) = a" "pi_currency (sample_request i a) = None" for i a by (simp_all add: sample_request_def)
  then show ?thesis
    by (simp add: calculateApprovalPlan_def sample_requester sample_base sample_rule sample_steps js_le_def with_gm_def effective_gm_def
        default_roles effectivePerson_serving del: plan_steps.simps)
qed

lemma sample_planE:
  obtains plan where "calculateApprovalPlan defaultOrgSnapshot EXPENSE_POLICY (sample_request ''emp_lintong'' (Finite 30000)) = Inr plan"
    "pn_blocked plan = None" "pn_requester_id plan = ''emp_lintong''" "map ps_employee (pn_steps plan) = [''emp_wang'', ''emp_zhang'', ''emp_finance'']"
  by (rule exE [OF sample_plan_eq]) (elim conjE, rule that)

text \<open>
  The last approval is not always the general manager's: for an expense of 30000 by a brand leader the plan is the
  promotion leader, the general manager, and then the finance owner, since the general manager was met as second manager
  and the final approval is only added for a general manager who is not on the plan.
\<close>

theorem gm_not_last:
  "\<exists>plan. calculateApprovalPlan defaultOrgSnapshot EXPENSE_POLICY (sample_request ''emp_lintong'' (Finite 30000)) = Inr plan
    \<and> pn_blocked plan = None \<and> effective_gm defaultOrgSnapshot lintong EXPENSE_POLICY = Some zhang
    \<and> em_id zhang = ''emp_zhang'' \<and> map ps_employee (pn_steps plan) = [''emp_wang'', ''emp_zhang'', ''emp_finance'']"
  using sample_plan_eq by (auto simp: effective_gm_def default_roles effectivePerson_serving)

theorem plan_approvers_sound_witness:
  "\<exists>plan. calculateApprovalPlan defaultOrgSnapshot EXPENSE_POLICY (sample_request ''emp_lintong'' (Finite 30000)) = Inr plan
    \<and> length (pn_steps plan) = 3 \<and> distinct (map ps_employee (pn_steps plan)) \<and> ''emp_lintong'' \<notin> ps_employee ` set (pn_steps plan)"
proof -
  obtain plan where plan: "calculateApprovalPlan defaultOrgSnapshot EXPENSE_POLICY (sample_request ''emp_lintong'' (Finite 30000)) = Inr plan"
    "pn_blocked plan = None" "pn_requester_id plan = ''emp_lintong''" "map ps_employee (pn_steps plan) = [''emp_wang'', ''emp_zhang'', ''emp_finance'']"
    by (rule sample_planE)
  have "length (map ps_employee (pn_steps plan)) = 3" unfolding plan(4) by simp
  then have "length (pn_steps plan) = 3" by simp
  moreover have "distinct (map ps_employee (pn_steps plan)) \<and> ''emp_lintong'' \<notin> ps_employee ` set (pn_steps plan)"
    using plan_approvers_sound [OF plan(1,2) expense_skips] unfolding plan(3) by blast
  ultimately show ?thesis using plan(1) by blast
qed

theorem gm_approves_every_plan_witness:
  "\<exists>plan. calculateApprovalPlan defaultOrgSnapshot EXPENSE_POLICY (sample_request ''emp_lintong'' (Finite 30000)) = Inr plan
    \<and> ''emp_zhang'' \<in> ps_employee ` set (pn_steps plan)"
proof -
  obtain plan where plan: "calculateApprovalPlan defaultOrgSnapshot EXPENSE_POLICY (sample_request ''emp_lintong'' (Finite 30000)) = Inr plan"
    "pn_blocked plan = None" by (rule sample_planE)
  have "em_id zhang \<in> ps_employee ` set (pn_steps plan)"
    by (rule gm_approves_every_plan [OF plan sample_requester]) (simp_all add: effective_gm_def default_roles effectivePerson_serving is_requester_def)
  then show ?thesis using plan(1) by auto
qed

theorem approvers_stay_in_scope_witness:
  "\<exists>plan. calculateApprovalPlan defaultOrgSnapshot EXPENSE_POLICY (sample_request ''emp_lintong'' (Finite 30000)) = Inr plan
    \<and> (\<exists>p \<in> set default_employees. em_id p = ps_employee (hd (pn_steps plan))
        \<and> (matchesScope p None None \<or> effective_gm defaultOrgSnapshot lintong EXPENSE_POLICY = Some p))"
proof -
  obtain plan where plan: "calculateApprovalPlan defaultOrgSnapshot EXPENSE_POLICY (sample_request ''emp_lintong'' (Finite 30000)) = Inr plan"
    "pn_blocked plan = None" "pn_requester_id plan = ''emp_lintong''" "map ps_employee (pn_steps plan) = [''emp_wang'', ''emp_zhang'', ''emp_finance'']"
    by (rule sample_planE)
  have gm: "effective_gm defaultOrgSnapshot lintong EXPENSE_POLICY = Some g \<Longrightarrow> \<not> is_requester EXPENSE_POLICY lintong g" for g
    by (auto simp: effective_gm_def default_roles effectivePerson_serving is_requester_def)
  have "\<forall>s \<in> set (pn_steps plan). \<exists>p \<in> set (og_employees defaultOrgSnapshot). em_id p = ps_employee s
      \<and> (matchesScope p (pi_brand (sample_request ''emp_lintong'' (Finite 30000))) (pi_region (sample_request ''emp_lintong'' (Finite 30000)))
         \<or> effective_gm defaultOrgSnapshot lintong EXPENSE_POLICY = Some p)"
    by (rule approvers_stay_in_scope [OF plan(1,2) sample_requester gm expense_roles])
  moreover have "pn_steps plan \<noteq> []" using plan(4) by force
  then have "hd (pn_steps plan) \<in> set (pn_steps plan)" by (rule hd_in_set)
  ultimately obtain p where "p \<in> set default_employees" "em_id p = ps_employee (hd (pn_steps plan))"
    "matchesScope p None None \<or> effective_gm defaultOrgSnapshot lintong EXPENSE_POLICY = Some p"
    unfolding default_staff sample_request_def plan_input.simps by blast
  then show ?thesis using plan(1) by blast
qed

theorem plan_engine_total_witness:
  "\<exists>plan. calculateApprovalPlan defaultOrgSnapshot EXPENSE_POLICY (sample_request ''emp_nobody'' NotANumber) = Inr plan"
  by (rule plan_engine_total) simp

theorem bands_have_no_gap_witness:
  "\<exists>n \<ge> 0. Finite 30000 = to_double (of_int n / 100) \<and> matchExpenseRule (Finite 30000) EXPENSE_POLICY = Some (pl_rules EXPENSE_POLICY ! band n)"
  using bands_have_no_gap [OF _ sample_base(1)] by simp

theorem cents_survive_conversion_witness:
  "matchExpenseRule (to_double (of_int 500001 / 100)) EXPENSE_POLICY = Some (pl_rules EXPENSE_POLICY ! 1)"
  using cents_survive_conversion [of 500001 None] sample_cny by (simp add: band_def)

end
