(* ===== verification/Approval_Inbox.thy ===== *)
theory Approval_Inbox
  imports Approval_Sample
begin

text \<open>
  An approval and who sees it: a row of the table \<open>approvals\<close> as \<open>getApproval\<close> of \<open>gateway/wecom.ts\<close> reads it, who may
  decide its current node (\<open>approval/inbox.ts\<close>), and the boxes, visibility and displayed states of \<open>approval/queue.ts\<close>.

  A payload is JSON; the record keeps the fields the code reads and writes, typed, and the others in \<open>py_other\<close>.
  \<open>authDisabled()\<close> and the approval roles of the session (\<open>authority_approval_roles\<close>) are fields of the viewer.
\<close>

section \<open>Rows\<close>

record payload_step =
  pp_sequence :: nat
  pp_employee :: string
  pp_name :: utext
  pp_role :: utext
  pp_source :: string
  pp_user :: "string option"
  pp_person :: "string option"

record transfer_note =
  tn_from :: string
  tn_from_name :: utext
  tn_to :: string
  tn_to_name :: utext
  tn_reason :: "utext option"
  tn_at :: int

record assignment =
  as_from_node :: string
  as_from_step :: payload_step
  as_actor :: string
  as_target :: string
  as_target_name :: utext
  as_person :: string
  as_reason :: utext
  as_key :: string
  as_at :: int

record payload =
  py_requester_name :: "utext option"
  py_steps :: "payload_step list option"
  py_transfers :: "transfer_note list"
  py_countersigns :: "transfer_note list"
  py_reject :: "(utext \<times> utext) option"
  py_withdrawn :: "(utext option \<times> int) option"
  py_original_node :: "string option"
  py_original_step :: "payload_step option"
  py_history :: "assignment list"
  py_other :: "(string \<times> js) list"

record approval =
  ap_id :: string
  ap_draft :: string
  ap_brand :: utext
  ap_amount :: js_number
  ap_status :: string
  ap_chain :: "string list"
  ap_index :: nat
  ap_uses :: nat
  ap_kind :: string
  ap_payload :: payload
  ap_title :: utext
  ap_submitted_by :: utext
  ap_version :: nat
  ap_created :: int
  ap_updated :: int

record actor =
  ac_node :: string
  ac_name :: utext
  ac_role :: utext

definition actorOf :: "string \<Rightarrow> payload \<Rightarrow> actor" where
  "actorOf i payload =
     (let hit = find (\<lambda>s. pp_employee s = i) (case py_steps payload of None \<Rightarrow> [] | Some steps \<Rightarrow> steps) in
      \<lparr>ac_node = i, ac_name = or_text (map_option pp_name hit) (ascii_text i), ac_role = or_text (map_option pp_role hit) (ascii_text i)\<rparr>)"

text \<open>\<open>chain_detail\<close> of \<open>getApproval\<close>.\<close>

definition chain_detail :: "approval \<Rightarrow> actor list" where
  "chain_detail a = map (\<lambda>i. actorOf i (ap_payload a)) (ap_chain a)"

definition current_node :: "approval \<Rightarrow> string option" where
  "current_node a = js_index (ap_chain a) (int (ap_index a))"

section \<open>Viewers\<close>

record app_user =
  us_id :: string
  us_username :: utext
  us_name :: utext
  us_handle :: utext
  us_active :: bool
  us_admin :: bool
  us_roles :: "utext list"

record session =
  se_auth_disabled :: bool
  se_user :: "app_user option"

definition approvalRoles :: "session \<Rightarrow> utext list" where
  "approvalRoles se =
     (if se_auth_disabled se then []
      else case se_user se of None \<Rightarrow> [] | Some u \<Rightarrow> if us_admin u then [ascii_text ''*''] else us_roles u)"

definition employeeForUser :: "app_user option \<Rightarrow> employee option" where
  "employeeForUser user =
     (case user of
        None \<Rightarrow> None
      | Some u \<Rightarrow> or_else (employeeByName defaultOrgSnapshot (Some (us_name u))) (employeeByMailbox defaultOrgSnapshot (Some (us_username u))))"

definition USER_PREFIX :: string where
  "USER_PREFIX = ''user:''"

text \<open>\<open>canDecideCurrent\<close>; \<open>expected\<close> is the node of the chain at the current index.\<close>

definition canDecideCurrent :: "session \<Rightarrow> string option \<Rightarrow> bool" where
  "canDecideCurrent se expected =
     (if se_auth_disabled se then True
      else case se_user se of
          None \<Rightarrow> False
        | Some u \<Rightarrow>
            if \<not> given expected then False
            else if the expected = USER_PREFIX @ us_id u then us_active u
            else if take 5 (the expected) = USER_PREFIX then False
            else let person = employeeForUser (Some u); roles = approvalRoles se in
              if \<exists>p. person = Some p \<and> Some (em_id p) = expected then True
              else if ascii_text (the expected) \<in> set roles \<or> (case person of None \<Rightarrow> [] | Some p \<Rightarrow> em_name p) \<in> set roles then True
              else case employeeById defaultOrgSnapshot expected of
                  None \<Rightarrow> False
                | Some node \<Rightarrow> em_name node \<in> set roles)"

section \<open>Boxes\<close>

datatype box = Inbox | Submitted | Done

definition parseApprovalBox :: "utext option \<Rightarrow> unit + box option" where
  "parseApprovalBox raw =
     (let v = text_trim (or_empty raw) in
      if v = [] then Inr None
      else if v = ascii_text ''inbox'' then Inr (Some Inbox)
      else if v = ascii_text ''submitted'' then Inr (Some Submitted)
      else if v = ascii_text ''done'' then Inr (Some Done)
      else Inl ())"

record viewer =
  vw_employee :: string
  vw_name :: utext
  vw_handle :: utext

definition viewerOf :: "app_user option \<Rightarrow> viewer" where
  "viewerOf user =
     (let person = employeeForUser user in
      \<lparr>vw_employee = (case person of None \<Rightarrow> [] | Some p \<Rightarrow> em_id p),
       vw_name = or_text (map_option em_name person) (case user of None \<Rightarrow> [] | Some u \<Rightarrow> us_name u),
       vw_handle = (case user of None \<Rightarrow> [] | Some u \<Rightarrow> or_text (Some (us_handle u)) (us_username u))\<rparr>)"

definition isCurrentDecider :: "session \<Rightarrow> approval \<Rightarrow> bool" where
  "isCurrentDecider se a \<longleftrightarrow> ap_status a = ''pending'' \<and> canDecideCurrent se (current_node a)"

definition isSubmitter :: "session \<Rightarrow> approval \<Rightarrow> bool" where
  "isSubmitter se a =
     (let viewer = viewerOf (se_user se); by = text_trim (ap_submitted_by a) in
      (vw_handle viewer \<noteq> [] \<and> by \<noteq> [] \<and> by = vw_handle viewer)
      \<or> (case se_user se of None \<Rightarrow> False | Some u \<Rightarrow> us_username u \<noteq> [] \<and> by \<noteq> [] \<and> by = us_username u))"

definition chainIndexForViewer :: "session \<Rightarrow> approval \<Rightarrow> int" where
  "chainIndexForViewer se a =
     (let viewer = viewerOf (se_user se); chain = ap_chain a;
          canonical = (case se_user se of
                         Some u \<Rightarrow> if us_id u = [] then -1 else index_of (USER_PREFIX @ us_id u) chain
                       | None \<Rightarrow> -1);
          by_id = (if vw_employee viewer = [] then -1 else index_of (vw_employee viewer) chain);
          by_name = (if vw_name viewer = [] then -1
                     else find_index (\<lambda>(node, step). take 5 node \<noteq> USER_PREFIX \<and> ac_name step = vw_name viewer) (zip chain (chain_detail a))) in
      if 0 \<le> canonical then canonical else if 0 \<le> by_id then by_id else if 0 \<le> by_name then by_name else -1)"

definition hasProcessed :: "session \<Rightarrow> approval \<Rightarrow> bool" where
  "hasProcessed se a =
     (let i = chainIndexForViewer se a in
      if i < 0 then False
      else if ap_status a = ''rejected'' then i \<le> int (ap_index a)
      else if ap_status a \<noteq> ''pending'' then True
      else i < int (ap_index a))"

definition isVisibleToViewer :: "session \<Rightarrow> approval \<Rightarrow> bool" where
  "isVisibleToViewer se a \<longleftrightarrow> se_auth_disabled se \<or> isCurrentDecider se a \<or> isSubmitter se a \<or> 0 \<le> chainIndexForViewer se a"

fun inApprovalBox :: "session \<Rightarrow> box \<Rightarrow> approval \<Rightarrow> bool" where
  "inApprovalBox se Inbox a = isCurrentDecider se a"
| "inApprovalBox se Submitted a = isSubmitter se a"
| "inApprovalBox se Done a =
     (hasProcessed se a \<or> (ap_status a \<noteq> ''pending'' \<and> (isSubmitter se a \<or> 0 \<le> chainIndexForViewer se a)))"

section \<open>Displayed states\<close>

text \<open>The column \<open>business_status\<close> does not exist, so the state is always derived.\<close>

definition businessStatusOf :: "approval \<Rightarrow> string" where
  "businessStatusOf a =
     (let s = ap_status a in
      if s = ''rejected'' then ''rejected''
      else if s = ''withdrawn'' \<or> s = ''cancelled'' then ''withdrawn''
      else if s = ''stale'' then ''stale''
      else if s = ''pending'' then (if 0 < ap_index a then ''waiting_next'' else ''pending'')
      else if s = ''consumed'' \<or> s = ''sent'' \<or> s = ''approved'' then ''succeeded''
      else if s = [] then ''pending'' else s)"

datatype path_state = PathDone | PathCurrent | PathRejected | PathTodo

definition pathStateAt :: "approval \<Rightarrow> nat \<Rightarrow> path_state" where
  "pathStateAt a i =
     (if ap_status a = ''consumed'' \<or> ap_status a = ''sent'' \<or> ap_status a = ''approved'' then PathDone
      else if ap_status a = ''rejected'' then (if i < ap_index a then PathDone else if i = ap_index a then PathRejected else PathTodo)
      else if i < ap_index a then PathDone else if i = ap_index a then PathCurrent else PathTodo)"

datatype decision_state = Decided bool | Undecided
datatype external_state = ExternalSucceeded | ExternalPendingCheck | NoExternal

text \<open>The receipts shown with an approval; \<open>sent\<close> and \<open>discarded\<close> come with the answer of a decision.\<close>

definition receiptProjection :: "approval \<Rightarrow> bool \<Rightarrow> bool \<Rightarrow> decision_state \<times> external_state" where
  "receiptProjection a sent discarded0 =
     (let s = ap_status a; discarded = (discarded0 \<or> s = ''rejected'');
          decided = (if s = ''rejected'' then Decided False
                     else if s = ''consumed'' \<or> s = ''sent'' \<or> s = ''approved'' then Decided True else Undecided);
          external = (if decided = Undecided then NoExternal
                      else if discarded then NoExternal else if sent then ExternalSucceeded else ExternalPendingCheck) in
      (decided, external))"

definition allowed_actions :: "session \<Rightarrow> approval \<Rightarrow> string list" where
  "allowed_actions se a = (if isCurrentDecider se a then [''approve'', ''reject''] else [])"

section \<open>Who decides\<close>

text \<open>
  A node that names a user is decided by that user alone: with authentication on, such a node may be decided exactly
  by the active account with that id; display names, organisation snapshot, approval roles and administrator rights
  do not count.
\<close>

theorem canonical_node_is_personal:
  assumes "\<not> se_auth_disabled se"
  shows "canDecideCurrent se (Some (USER_PREFIX @ uid)) \<longleftrightarrow> (\<exists>u. se_user se = Some u \<and> us_id u = uid \<and> us_active u)"
  using assms by (auto simp: canDecideCurrent_def given_def USER_PREFIX_def split: option.splits)

text \<open>
  What a role grants on a node of the organisation: with authentication on, an account that holds its own
  employee's name as an approval role may decide every such node, whoever the node names.
\<close>

theorem own_name_role_decides_any_node:
  assumes "\<not> se_auth_disabled se" and "se_user se = Some u" and "\<not> us_admin u"
    and "employeeForUser (Some u) = Some p" and "em_name p \<in> set (us_roles u)"
    and "node \<noteq> []" and "take 5 node \<noteq> USER_PREFIX"
  shows "canDecideCurrent se (Some node)"
  using assms by (auto simp: canDecideCurrent_def given_def approvalRoles_def USER_PREFIX_def)

text \<open>Every box shows rows the viewer may see.\<close>

lemma boxes_visible: "inApprovalBox se b a \<Longrightarrow> isVisibleToViewer se a"
  by (cases b) (auto simp: isVisibleToViewer_def hasProcessed_def Let_def split: if_splits)

end
