(* ===== verification/Approval_Gateway.thy ===== *)
theory Approval_Gateway
  imports Approval_Inbox
begin

text \<open>
  The approval gateway \<open>gateway/wecom.ts\<close> and its routes in \<open>routers/approvals.ts\<close>: creating an approval, deciding
  its current node, handing it over (transfer), adding a node (countersign) and withdrawing it.

  Each operation reads the approval, checks it, and then writes with a compare-and-set on the version it read; other
  requests may run in between.  So an operation is three functions: what it reads and checks
  (\<open>decide_read\<close>, \<open>transfer_read\<close>, \<dots>, giving the write it will attempt), the side effect of a final approval
  (\<open>fulfil\<close>), and the transaction (\<open>commit\<close>).  \<open>decide\<close> is the whole, run alone; \<open>Approval_Machine\<close>
  interleaves the parts.

  The stage service behind \<open>applyConfirmedStageFromApproval\<close> is the argument \<open>stage\<close>: what it answers for an
  approval; the calls made to it are logged in \<open>gw_stage_writes\<close>.  Texts of notices and the audit log are left out.
\<close>

section \<open>Tables\<close>

record card =
  cd_status :: string
  cd_assignee :: utext

datatype fulfilment = NoStage | StageWritten bool

datatype decision_outcome = RejectedFor utext | AdvancedTo | FulfilledWith fulfilment

record decide_result =
  rs_row :: approval
  rs_outcome :: decision_outcome
  rs_replayed :: bool

record gateway_db =
  gw_approvals :: "string \<Rightarrow> approval option"
  gw_cards :: "string \<Rightarrow> card option"
  gw_drafts :: "string \<Rightarrow> (string \<times> string option) option"
  gw_created :: "string \<Rightarrow> string option"
  gw_decided :: "string \<times> string \<Rightarrow> decide_result option"
  gw_assigned :: "string \<times> string \<Rightarrow> (string \<times> utext \<times> nat \<times> string) option"
  gw_stage_writes :: "approval list"

datatype gw_error =
    KeyError string
  | PlainError string
  | HttpFail nat string

abbreviation stale :: gw_error where
  "stale \<equiv> HttpFail 409 ''stale''"

section \<open>Writes\<close>

datatype action =
    Reject utext
  | Advance
  | Consume
  | Transfer string utext "utext option"
  | Countersign string employee "utext option"
  | Withdraw "utext option"

definition note_of :: "approval \<Rightarrow> string \<Rightarrow> string \<Rightarrow> utext \<Rightarrow> utext option \<Rightarrow> int \<Rightarrow> transfer_note" where
  "note_of snap expected target to_name reason time =
     \<lparr>tn_from = expected, tn_from_name = ac_name (actorOf expected (ap_payload snap)), tn_to = target, tn_to_name = to_name,
      tn_reason = (if text_trim (or_empty reason) = [] then None else Some (text_trim (or_empty reason))), tn_at = time\<rparr>"

definition expected_of :: "approval \<Rightarrow> string" where
  "expected_of a = ap_chain a ! ap_index a"

definition countersign_steps :: "nat \<Rightarrow> string \<Rightarrow> employee \<Rightarrow> payload_step list \<Rightarrow> payload_step list" where
  "countersign_steps i target e steps =
     take (i + 1) steps
     @ \<lparr>pp_sequence = i + 2, pp_employee = target, pp_name = em_name e,
        pp_role = em_position e @ [65288, 21152, 31614, 65289], pp_source = ''countersign'', pp_user = None, pp_person = None\<rparr>
     # map (\<lambda>s. s\<lparr>pp_sequence := pp_sequence s + 1\<rparr>) (drop (i + 1) steps)"

text \<open>
  The columns an action sets, from the row \<open>snap\<close> that was read, in the row \<open>row\<close> that is there.  The person a
  transfer names is looked up in the built-in organisation first, then among the steps.
\<close>

fun set_columns :: "action \<Rightarrow> int \<Rightarrow> approval \<Rightarrow> approval \<Rightarrow> approval" where
  "set_columns (Reject reason) now snap row =
     row\<lparr>ap_status := ''rejected'',
         ap_payload := (ap_payload snap)\<lparr>py_reject := Some (reason, ac_name (actorOf (expected_of snap) (ap_payload snap)))\<rparr>,
         ap_version := ap_version snap + 1, ap_updated := now\<rparr>"
| "set_columns Advance now snap row =
     row\<lparr>ap_index := ap_index snap + 1, ap_version := ap_version snap + 1, ap_updated := now\<rparr>"
| "set_columns Consume now snap row =
     row\<lparr>ap_status := ''consumed'', ap_uses := 0, ap_version := ap_version snap + 1, ap_updated := now\<rparr>"
| "set_columns (Transfer target to_role reason) now snap row =
     (let p = ap_payload snap; e = find (\<lambda>x. em_id x = target) default_employees;
          to_name = or_text (map_option em_name e) (ac_name (actorOf target p));
          steps = map_option (\<lambda>ss. if ap_index snap < length ss
                    then ss[ap_index snap := (ss ! ap_index snap)\<lparr>pp_employee := target, pp_name := to_name, pp_role := to_role\<rparr>] else ss)
                    (py_steps p) in
      row\<lparr>ap_chain := (ap_chain snap)[ap_index snap := target],
          ap_payload := p\<lparr>py_steps := steps, py_transfers := py_transfers p @ [note_of snap (expected_of snap) target to_name reason now]\<rparr>,
          ap_version := ap_version snap + 1, ap_updated := now\<rparr>)"
| "set_columns (Countersign target e reason) now snap row =
     (let p = ap_payload snap; i = ap_index snap;
          steps = (case py_steps p of None \<Rightarrow> [] | Some ss \<Rightarrow> ss) in
      row\<lparr>ap_chain := take (i + 1) (ap_chain snap) @ target # drop (i + 1) (ap_chain snap),
          ap_payload := p\<lparr>py_steps := Some (countersign_steps i target e steps),
                          py_countersigns := py_countersigns p @ [note_of snap (expected_of snap) target (em_name e) reason now]\<rparr>,
          ap_version := ap_version snap + 1, ap_updated := now\<rparr>)"
| "set_columns (Withdraw by) now snap row =
     row\<lparr>ap_status := ''withdrawn'', ap_payload := (ap_payload snap)\<lparr>py_withdrawn := Some (by, now)\<rparr>,
         ap_version := ap_version snap + 1, ap_updated := now\<rparr>"

fun card_after :: "action \<Rightarrow> approval \<Rightarrow> card \<Rightarrow> card" where
  "card_after (Reject reason) snap c = c\<lparr>cd_status := ''rejected''\<rparr>"
| "card_after Advance snap c =
     c\<lparr>cd_status := ''forwarded'', cd_assignee := ac_name (actorOf (ap_chain snap ! (ap_index snap + 1)) (ap_payload snap))\<rparr>"
| "card_after Consume snap c = c\<lparr>cd_status := ''sent''\<rparr>"
| "card_after (Transfer target to_role reason) snap c = c"
| "card_after (Countersign target e reason) snap c = c"
| "card_after (Withdraw by) snap c = c\<lparr>cd_status := ''withdrawn''\<rparr>"

text \<open>The transaction: the update holds only for a pending row of the version that was read.\<close>

definition discard_draft :: "action \<Rightarrow> approval \<Rightarrow> gateway_db \<Rightarrow> gateway_db" where
  "discard_draft act snap db =
     (case act of
        Reject reason \<Rightarrow>
          (case gw_drafts db (ap_draft snap) of
             Some (status, a) \<Rightarrow> if ap_draft snap = [] then db else db\<lparr>gw_drafts := (gw_drafts db)(ap_draft snap \<mapsto> (''discarded'', a))\<rparr>
           | None \<Rightarrow> db)
      | _ \<Rightarrow> db)"

definition commit :: "action \<Rightarrow> int \<Rightarrow> approval \<Rightarrow> gateway_db \<Rightarrow> gw_error + gateway_db" where
  "commit act now snap db =
     (case gw_approvals db (ap_id snap) of
        None \<Rightarrow> Inl stale
      | Some row \<Rightarrow>
          if ap_status row = ''pending'' \<and> ap_version row = ap_version snap
          then Inr (discard_draft act snap
                 (db\<lparr>gw_approvals := (gw_approvals db)(ap_id snap \<mapsto> set_columns act now snap row),
                     gw_cards := (gw_cards db)(ap_id snap := map_option (card_after act snap) (gw_cards db (ap_id snap)))\<rparr>))
          else Inl stale)"

section \<open>Reads and checks\<close>

text \<open>What the operations on the current node check first.\<close>

definition read_pending :: "gateway_db \<Rightarrow> string \<Rightarrow> nat \<Rightarrow> gw_error + approval" where
  "read_pending db aid version =
     (case gw_approvals db aid of
        None \<Rightarrow> Inl (KeyError aid)
      | Some a \<Rightarrow>
          if ap_status a \<noteq> ''pending'' then Inl (PlainError (''approval status '' @ ap_status a))
          else if ap_version a \<noteq> version then Inl stale
          else Inr a)"

definition read_current :: "gateway_db \<Rightarrow> string \<Rightarrow> string option \<Rightarrow> nat \<Rightarrow> gw_error + approval" where
  "read_current db aid actor version =
     (case read_pending db aid version of
        Inl e \<Rightarrow> Inl e
      | Inr a \<Rightarrow>
          if given actor \<and> actor \<noteq> current_node a
          then Inl (PlainError (''current level is '' @ (case current_node a of None \<Rightarrow> ''undefined'' | Some n \<Rightarrow> n)))
          else Inr a)"

definition decide_read :: "gateway_db \<Rightarrow> string \<Rightarrow> string \<Rightarrow> string option \<Rightarrow> utext option \<Rightarrow> nat \<Rightarrow> gw_error + action \<times> approval" where
  "decide_read db aid decision actor reason version =
     (case read_current db aid actor version of
        Inl e \<Rightarrow> Inl e
      | Inr a \<Rightarrow>
          if decision = ''reject'' then
            (let why = text_trim (or_empty reason) in
             if why = [] then Inl (PlainError ''reject_reason_required'') else Inr (Reject why, a))
          else if decision \<noteq> ''approve'' then Inl (PlainError ''decision must be approve or reject'')
          else if ap_index a + 1 < length (ap_chain a) then Inr (Advance, a) else Inr (Consume, a))"

definition transfer_read :: "gateway_db \<Rightarrow> string \<Rightarrow> string \<Rightarrow> string option \<Rightarrow> utext option \<Rightarrow> nat \<Rightarrow> gw_error + action \<times> approval" where
  "transfer_read db aid target0 actor reason version =
     (case read_current db aid actor version of
        Inl e \<Rightarrow> Inl e
      | Inr a \<Rightarrow>
          (let target = js_trim target0 in
           if target = [] then Inl (PlainError ''transfer_target_required'')
           else if Some target = current_node a then Inl (PlainError ''transfer_target_same'')
           else Inr (Transfer target
                  (case find (\<lambda>x. em_id x = target) default_employees of
                     None \<Rightarrow> ascii_text target | Some e \<Rightarrow> or_text (Some (em_position e)) (ascii_text target)) reason, a)))"

definition countersign_read :: "gateway_db \<Rightarrow> string \<Rightarrow> string \<Rightarrow> string option \<Rightarrow> utext option \<Rightarrow> nat \<Rightarrow> gw_error + action \<times> approval" where
  "countersign_read db aid target0 actor reason version =
     (case read_current db aid actor version of
        Inl e \<Rightarrow> Inl e
      | Inr a \<Rightarrow>
          (let target = js_trim target0 in
           if target = [] then Inl (PlainError ''countersign_target_required'')
           else if target \<in> set (ap_chain a) then Inl (PlainError ''countersign_target_exists'')
           else case find (\<lambda>x. em_id x = target) default_employees of
               None \<Rightarrow> Inl (PlainError ''countersign_target_unknown'')
             | Some e \<Rightarrow> Inr (Countersign target e reason, a)))"

definition withdraw_read :: "gateway_db \<Rightarrow> string \<Rightarrow> utext option \<Rightarrow> nat \<Rightarrow> gw_error + action \<times> approval" where
  "withdraw_read db aid handle version = map_sum id (Pair (Withdraw handle)) (read_pending db aid version)"

section \<open>The final side effect and the receipts\<close>

text \<open>\<open>fulfillExpenseApproval\<close>; a stage approval calls the stage service before anything is written.\<close>

definition fulfil :: "(approval \<Rightarrow> gw_error + bool) \<Rightarrow> approval \<Rightarrow> gateway_db \<Rightarrow> gw_error + fulfilment \<times> gateway_db" where
  "fulfil stage a db =
     (if ap_kind a = ''expense'' \<or> ap_kind a = ''skill_publish'' \<or> ap_kind a = ''ontology_change'' then Inr (NoStage, db)
      else if ap_kind a = ''stage'' \<or> ap_kind a = ''content'' \<or> ap_kind a = ''settlement'' then
        (case stage a of
           Inl e \<Rightarrow> Inl e
         | Inr waiting \<Rightarrow> Inr (StageWritten (\<not> waiting), db\<lparr>gw_stage_writes := gw_stage_writes db @ [a]\<rparr>))
      else Inl (PlainError (''unknown approval kind '' @ ap_kind a)))"

fun outcome_of :: "action \<Rightarrow> fulfilment \<Rightarrow> decision_outcome" where
  "outcome_of (Reject why) f = RejectedFor why"
| "outcome_of Consume f = FulfilledWith f"
| "outcome_of _ f = AdvancedTo"

text \<open>\<open>remember\<close>: the answer is stored under the key unless one is there.\<close>

definition remember :: "string \<Rightarrow> string \<Rightarrow> decide_result \<Rightarrow> gateway_db \<Rightarrow> gateway_db" where
  "remember aid key r db =
     (if gw_decided db (aid, key) = None then db\<lparr>gw_decided := (gw_decided db)((aid, key) \<mapsto> r)\<rparr> else db)"

definition final_effect :: "(approval \<Rightarrow> gw_error + bool) \<Rightarrow> action \<Rightarrow> approval \<Rightarrow> gateway_db \<Rightarrow> gw_error + fulfilment \<times> gateway_db" where
  "final_effect stage act snap db = (if act = Consume then fulfil stage snap db else Inr (NoStage, db))"

definition finish_decision :: "string \<Rightarrow> action \<Rightarrow> approval \<Rightarrow> fulfilment \<Rightarrow> string \<Rightarrow> int \<Rightarrow> gateway_db \<Rightarrow> (gw_error + decide_result) \<times> gateway_db" where
  "finish_decision aid act snap f key now db =
     (case commit act now snap db of
        Inl e \<Rightarrow> (Inl e, db)
      | Inr db' \<Rightarrow>
          (case gw_approvals db' aid of
             None \<Rightarrow> (Inl (KeyError aid), db')
           | Some row \<Rightarrow>
               (let r = \<lparr>rs_row = row, rs_outcome = outcome_of act f, rs_replayed = False\<rparr> in
                (Inr r, if key = [] then db' else remember aid key r db'))))"

definition decide :: "(approval \<Rightarrow> gw_error + bool) \<Rightarrow> string \<Rightarrow> string \<Rightarrow> string option \<Rightarrow> utext option \<Rightarrow> nat \<Rightarrow> string \<Rightarrow> int \<Rightarrow> gateway_db
    \<Rightarrow> (gw_error + decide_result) \<times> gateway_db" where
  "decide stage aid decision actor reason version key now db =
     (case (if key = [] then None else gw_decided db (aid, key)) of
        Some r \<Rightarrow> (Inr (r\<lparr>rs_replayed := True\<rparr>), db)
      | None \<Rightarrow>
          (case decide_read db aid decision actor reason version of
             Inl e \<Rightarrow> (Inl e, db)
           | Inr (act, snap) \<Rightarrow>
               (case final_effect stage act snap db of
                  Inl e \<Rightarrow> (Inl e, db)
                | Inr (f, db1) \<Rightarrow> finish_decision aid act snap f key now db1)))"

text \<open>\<open>transferApproval\<close>, \<open>countersignApproval\<close> and \<open>withdrawApproval\<close>, run alone.\<close>

definition write_read :: "(gw_error + action \<times> approval) \<Rightarrow> int \<Rightarrow> gateway_db \<Rightarrow> gw_error + gateway_db" where
  "write_read r now db = (case r of Inl e \<Rightarrow> Inl e | Inr (act, snap) \<Rightarrow> commit act now snap db)"

definition transferApproval :: "string \<Rightarrow> string \<Rightarrow> string option \<Rightarrow> utext option \<Rightarrow> nat \<Rightarrow> int \<Rightarrow> gateway_db \<Rightarrow> gw_error + gateway_db" where
  "transferApproval aid target actor reason version now db = write_read (transfer_read db aid target actor reason version) now db"

definition countersignApproval :: "string \<Rightarrow> string \<Rightarrow> string option \<Rightarrow> utext option \<Rightarrow> nat \<Rightarrow> int \<Rightarrow> gateway_db \<Rightarrow> gw_error + gateway_db" where
  "countersignApproval aid target actor reason version now db = write_read (countersign_read db aid target actor reason version) now db"

definition withdrawApproval :: "string \<Rightarrow> utext option \<Rightarrow> nat \<Rightarrow> int \<Rightarrow> gateway_db \<Rightarrow> gw_error + gateway_db" where
  "withdrawApproval aid handle version now db = write_read (withdraw_read db aid handle version) now db"

end
