(* ===== verification/Approval_Routes.thy ===== *)
theory Approval_Routes
  imports Approval_Gateway
begin

text \<open>
  The writing routes of \<open>routers/approvals.ts\<close> over the gateway: the creation of an expense approval from a plan, the
  checks before a decision, a transfer, a countersign and a withdrawal.
\<close>

section \<open>Requests\<close>

definition digits_from :: "string \<Rightarrow> nat" where
  "digits_from s = fold (\<lambda>c n. 10 * n + (of_char c - 48)) s 0"

text \<open>\<open>parseExpectedVersion\<close>: absent, a version, or a refusal.\<close>

definition parseExpectedVersion :: "js \<Rightarrow> gw_error + nat option" where
  "parseExpectedVersion v =
     (let refuse = Inl (HttpFail 400 ''expected_version'') in
      case v of
        JUndefined \<Rightarrow> Inr None
      | JNull \<Rightarrow> Inr None
      | JNum r \<Rightarrow> if is_integer r \<and> 0 \<le> r then Inr (Some (nat \<lfloor>r\<rfloor>)) else refuse
      | JStr s \<Rightarrow>
          (let t = js_trim s in
           if s = [] then Inr None
           else if t \<noteq> [] \<and> list_all (\<lambda>c. 48 \<le> (of_char c :: nat) \<and> (of_char c :: nat) \<le> 57) t \<and> (hd t \<noteq> CHR ''0'' \<or> t = ''0'')
           then Inr (Some (digits_from t)) else refuse)
      | _ \<Rightarrow> refuse)"

definition requireExpectedVersion :: "js \<Rightarrow> gw_error + nat" where
  "requireExpectedVersion v =
     (case parseExpectedVersion v of
        Inl e \<Rightarrow> Inl e
      | Inr None \<Rightarrow> Inl (HttpFail 400 ''expected_version_required'')
      | Inr (Some n) \<Rightarrow> Inr n)"

section \<open>Creation\<close>

text \<open>\<open>createWorkApproval\<close>: nothing for an empty chain; the insertion fails when the identifier is taken.\<close>

record work_input =
  wi_kind :: string
  wi_brand :: utext
  wi_amount :: js_number
  wi_draft :: string
  wi_payload :: payload
  wi_title :: utext
  wi_chain :: "string list"

definition new_approval :: "work_input \<Rightarrow> string \<Rightarrow> utext \<Rightarrow> int \<Rightarrow> approval" where
  "new_approval w aid by now =
     \<lparr>ap_id = aid, ap_draft = wi_draft w, ap_brand = or_text (Some (wi_brand w)) (ascii_text ''LT''),
      ap_amount = (if wi_amount w = NotANumber then Finite 0 else wi_amount w), ap_status = ''pending'',
      ap_chain = wi_chain w, ap_index = 0, ap_uses = 1, ap_kind = wi_kind w, ap_payload = wi_payload w, ap_title = wi_title w,
      ap_submitted_by = by, ap_version = 0, ap_created = now, ap_updated = now\<rparr>"

definition createWorkApproval :: "work_input \<Rightarrow> string \<Rightarrow> utext \<Rightarrow> int \<Rightarrow> gateway_db \<Rightarrow> gw_error + approval option \<times> gateway_db" where
  "createWorkApproval w aid by now db =
     (if wi_chain w = [] then Inr (None, db)
      else if gw_approvals db aid \<noteq> None \<or> gw_cards db aid \<noteq> None then Inl (PlainError ''duplicate key'')
      else
        (let a = new_approval w aid by now in
         Inr (Some a,
              db\<lparr>gw_approvals := (gw_approvals db)(aid \<mapsto> a),
                 gw_cards := (gw_cards db)(aid \<mapsto> \<lparr>cd_status = ''waiting'', cd_assignee = ac_name (actorOf (hd (wi_chain w)) (wi_payload w))\<rparr>),
                 gw_drafts := (if wi_draft w = [] then gw_drafts db
                               else (gw_drafts db)(wi_draft w := map_option (\<lambda>(st, x). (st, Some aid)) (gw_drafts db (wi_draft w))))\<rparr>)))"

definition step_payload :: "approval_step \<Rightarrow> payload_step" where
  "step_payload s =
     \<lparr>pp_sequence = ps_sequence s, pp_employee = ps_employee s, pp_name = ps_name s, pp_role = ps_role s, pp_source = ps_source s,
      pp_user = None, pp_person = None\<rparr>"

definition plan_payload :: "approval_plan \<Rightarrow> payload" where
  "plan_payload plan =
     \<lparr>py_requester_name = Some (pn_requester_name plan), py_steps = Some (map step_payload (pn_steps plan)), py_transfers = [],
      py_countersigns = [], py_reject = None, py_withdrawn = None, py_original_node = None, py_original_step = None,
      py_history = [], py_other = []\<rparr>"

text \<open>
  \<open>createExpenseApproval\<close>: \<open>digest\<close> is \<open>planContentVersion\<close> (a hash of the plan), \<open>key\<close> the trimmed idempotency key,
  \<open>title\<close> the display title of the plan.
\<close>

definition createExpenseApproval :: "(approval_plan \<Rightarrow> nat) \<Rightarrow> session \<Rightarrow> approval_plan \<Rightarrow> js \<Rightarrow> string \<Rightarrow> utext \<Rightarrow> string \<Rightarrow> utext \<Rightarrow> int \<Rightarrow> gateway_db
    \<Rightarrow> gw_error + approval \<times> gateway_db" where
  "createExpenseApproval digest se plan version key title aid by now db =
     (case pn_blocked plan of
        Some (code, msg) \<Rightarrow> Inl (HttpFail 400 code)
      | None \<Rightarrow>
          (case (if version = JNull \<or> version = JUndefined \<or> version = JStr []
                 then (if se_auth_disabled se then Inr (digest plan) else Inl (HttpFail 400 ''expected_version_required''))
                 else requireExpectedVersion version) of
             Inl e \<Rightarrow> Inl e
           | Inr expected \<Rightarrow>
               if expected \<noteq> digest plan then Inl stale
               else if key = [] \<and> \<not> se_auth_disabled se then Inl (HttpFail 400 ''idempotency_key_required'')
               else
                 (case (if key = [] then None
                        else case gw_created db key of None \<Rightarrow> None | Some i \<Rightarrow> gw_approvals db i) of
                    Some a \<Rightarrow> Inr (a, db)
                  | None \<Rightarrow>
                      (case createWorkApproval \<lparr>wi_kind = ''expense'', wi_brand = ascii_text ''LT'', wi_amount = pn_amount_base plan,
                               wi_draft = [], wi_payload = plan_payload plan, wi_title = title,
                               wi_chain = map ps_employee (pn_steps plan)\<rparr> aid by now db of
                         Inl e \<Rightarrow> Inl e
                       | Inr (None, db1) \<Rightarrow> Inl (HttpFail 400 ''empty_approval_chain'')
                       | Inr (Some a, db1) \<Rightarrow>
                           Inr (a, if key = [] \<or> gw_created db1 key \<noteq> None then db1
                                   else db1\<lparr>gw_created := (gw_created db1)(key \<mapsto> ap_id a)\<rparr>)))))"

section \<open>Checks of the routes\<close>

text \<open>
  What a decision, transfer or countersign checks on its own read of the approval; the result is the actor it passes on:
  with authentication the node the viewer was found entitled to.
\<close>

definition may_act_on :: "gateway_db \<Rightarrow> session \<Rightarrow> string \<Rightarrow> string option \<Rightarrow> gw_error + string option" where
  "may_act_on db se aid given_actor =
     (case gw_approvals db aid of
        None \<Rightarrow> Inl (HttpFail 404 ''Not Found'')
      | Some a \<Rightarrow>
          if se_auth_disabled se then Inr given_actor
          else if se_user se = None \<or> \<not> isVisibleToViewer se a then Inl (HttpFail 404 ''Not Found'')
          else if \<not> isCurrentDecider se a then Inl (HttpFail 403 ''approval_role_required'')
          else Inr (current_node a))"

definition may_withdraw :: "gateway_db \<Rightarrow> session \<Rightarrow> string \<Rightarrow> gw_error + unit" where
  "may_withdraw db se aid =
     (case gw_approvals db aid of
        None \<Rightarrow> Inl (HttpFail 404 ''Not Found'')
      | Some a \<Rightarrow>
          if se_auth_disabled se \<or> isSubmitter se a then Inr () else Inl (HttpFail 403 ''only_submitter_can_withdraw''))"

text \<open>The list of the approvals a viewer sees, of one box or all, and the number on the badge; \<open>rows\<close> is \<open>listApprovals\<close>.\<close>

definition visibleRows :: "session \<Rightarrow> box option \<Rightarrow> approval list \<Rightarrow> approval list" where
  "visibleRows se b rows =
     filter (\<lambda>a. isVisibleToViewer se a \<and> (case b of None \<Rightarrow> True | Some x \<Rightarrow> inApprovalBox se x a)) rows"

definition badge :: "session \<Rightarrow> approval list \<Rightarrow> nat" where
  "badge se rows = length (filter (inApprovalBox se Inbox) rows)"

lemma badge_counts_inbox: "badge se rows = length (visibleRows se (Some Inbox) rows)"
  unfolding badge_def visibleRows_def by (rule arg_cong [where f = length], rule filter_cong) (use boxes_visible [of se Inbox] in auto)

record decide_body =
  bd_decision :: string
  bd_actor :: "string option"
  bd_reason :: "utext option"
  bd_version :: js
  bd_key :: string

text \<open>The route \<open>/approvals/:aid/decide\<close>, run alone; \<open>KeyError\<close> becomes 404 and other plain errors 400.\<close>

definition http :: "gw_error \<Rightarrow> gw_error" where
  "http e = (case e of KeyError k \<Rightarrow> HttpFail 404 ''Not Found'' | PlainError m \<Rightarrow> HttpFail 400 m | HttpFail n c \<Rightarrow> HttpFail n c)"

definition decide_route :: "(approval \<Rightarrow> gw_error + bool) \<Rightarrow> session \<Rightarrow> string \<Rightarrow> decide_body \<Rightarrow> int \<Rightarrow> gateway_db \<Rightarrow> (gw_error + decide_result) \<times> gateway_db" where
  "decide_route stage se aid body now db =
     (let key = js_trim (bd_key body) in
      case gw_approvals db aid of
        None \<Rightarrow> (Inl (HttpFail 404 ''Not Found''), db)
      | Some a \<Rightarrow>
          (case requireExpectedVersion (bd_version body) of
             Inl e \<Rightarrow> (Inl e, db)
           | Inr version \<Rightarrow>
               if key = [] then (Inl (HttpFail 400 ''idempotency_key_required''), db)
               else case gw_decided db (aid, key) of
                   Some r \<Rightarrow>
                     if se_auth_disabled se \<or> isVisibleToViewer se a then (Inr (r\<lparr>rs_replayed := True\<rparr>), db)
                     else (Inl (HttpFail 404 ''Not Found''), db)
                 | None \<Rightarrow>
                     (case may_act_on db se aid (bd_actor body) of
                        Inl e \<Rightarrow> (Inl e, db)
                      | Inr actor \<Rightarrow>
                          if bd_decision body = ''reject'' \<and> text_trim (or_empty (bd_reason body)) = []
                          then (Inl (HttpFail 400 ''reject_reason_required''), db)
                          else
                            (let (r, db') = decide stage aid (bd_decision body) actor (bd_reason body) version key now db in
                             (case r of Inl e \<Rightarrow> Inl (http e) | Inr x \<Rightarrow> Inr x, db')))))"

text \<open>
  The routes of a transfer, a countersign and a withdrawal, run alone.  All their errors but a missing approval answer 400,
  a lost compare-and-set included.
\<close>

definition http400 :: "gw_error \<Rightarrow> gw_error" where
  "http400 e = (case e of KeyError k \<Rightarrow> HttpFail 404 ''Not Found'' | PlainError m \<Rightarrow> HttpFail 400 m | HttpFail n c \<Rightarrow> HttpFail 400 c)"

definition node_route :: "string \<Rightarrow> (string option \<Rightarrow> nat \<Rightarrow> gw_error + gateway_db) \<Rightarrow> session \<Rightarrow> string \<Rightarrow> string \<Rightarrow> js \<Rightarrow> gateway_db
    \<Rightarrow> gw_error + gateway_db" where
  "node_route missing operation se aid target version db =
     (case gw_approvals db aid of
        None \<Rightarrow> Inl (HttpFail 404 ''Not Found'')
      | Some a \<Rightarrow>
          (case requireExpectedVersion version of
             Inl e \<Rightarrow> Inl e
           | Inr n \<Rightarrow>
               if js_trim target = [] then Inl (HttpFail 400 missing)
               else case may_act_on db se aid None of
                   Inl e \<Rightarrow> Inl e
                 | Inr actor \<Rightarrow> map_sum http400 id (operation actor n)))"

definition transfer_route :: "session \<Rightarrow> string \<Rightarrow> string \<Rightarrow> utext \<Rightarrow> js \<Rightarrow> int \<Rightarrow> gateway_db \<Rightarrow> gw_error + gateway_db" where
  "transfer_route se aid target reason version now db =
     node_route ''transfer_target_required'' (\<lambda>actor n. transferApproval aid (js_trim target) actor (Some reason) n now db) se aid target version db"

definition countersign_route :: "session \<Rightarrow> string \<Rightarrow> string \<Rightarrow> utext \<Rightarrow> js \<Rightarrow> int \<Rightarrow> gateway_db \<Rightarrow> gw_error + gateway_db" where
  "countersign_route se aid target reason version now db =
     node_route ''countersign_target_required'' (\<lambda>actor n. countersignApproval aid (js_trim target) actor (Some reason) n now db) se aid target version db"

definition withdraw_route :: "session \<Rightarrow> string \<Rightarrow> js \<Rightarrow> int \<Rightarrow> gateway_db \<Rightarrow> gw_error + gateway_db" where
  "withdraw_route se aid version now db =
     (case gw_approvals db aid of
        None \<Rightarrow> Inl (HttpFail 404 ''Not Found'')
      | Some a \<Rightarrow>
          (case requireExpectedVersion version of
             Inl e \<Rightarrow> Inl e
           | Inr n \<Rightarrow>
               (case may_withdraw db se aid of
                  Inl e \<Rightarrow> Inl e
                | Inr ok \<Rightarrow> map_sum http400 id (withdrawApproval aid (map_option us_handle (se_user se)) n now db))))"

end
