(* ===== verification/Owner_Assignment.thy ===== *)
theory Owner_Assignment
  imports Approval_Routes
begin

text \<open>
  The repair of one orphaned node of an ontology change approval:
  \<open>approval/current-owner-assignment-repository.ts\<close>.  The whole is a serializable transaction, one function here.
  The tables \<open>users\<close>, \<open>organization_people\<close> and \<open>approval_role_bindings\<close> it reads are the record \<open>directory\<close>.
\<close>

record directory_user =
  du_id :: string
  du_name :: utext
  du_username :: "utext option"
  du_email :: "utext option"
  du_active :: bool

record directory_person =
  dp_ref :: string
  dp_active :: bool
  dp_user :: "string option"
  dp_user_ref :: "string option"

record role_binding =
  rb_user :: string
  rb_role :: utext
  rb_from :: "int option"
  rb_to :: "int option"

record directory =
  dy_users :: "directory_user list"
  dy_people :: "directory_person list"
  dy_bindings :: "role_binding list"

record assign_input =
  ai_approval :: string
  ai_target :: string
  ai_reason :: utext
  ai_version :: nat
  ai_key :: string
  ai_actor :: string

record assign_result =
  ar_replayed :: bool
  ar_version :: nat
  ar_target :: string
  ar_person :: string

definition canonicalUserNode :: "string \<Rightarrow> string" where
  "canonicalUserNode uid = USER_PREFIX @ uid"

text \<open>The pattern \<open>/^user:[^\s:][^\s]*$/\<close>.\<close>

definition isCanonicalUserNode :: "string \<Rightarrow> bool" where
  "isCanonicalUserNode node \<longleftrightarrow>
     (let rest = drop 5 node in
      take 5 node = USER_PREFIX \<and> rest \<noteq> [] \<and> hd rest \<noteq> CHR '':'' \<and> list_all (\<lambda>c. \<not> js_space (of_char c)) rest)"

definition replayOrConflict :: "string \<times> utext \<times> nat \<times> string \<Rightarrow> assign_input \<Rightarrow> gw_error + assign_result" where
  "replayOrConflict receipt input =
     (case receipt of (target, reason, version, person) \<Rightarrow>
        if target \<noteq> ai_target input \<or> reason \<noteq> ai_reason input then Inl (HttpFail 409 ''idempotency_key_conflict'')
        else Inr \<lparr>ar_replayed = True, ar_version = version, ar_target = target, ar_person = person\<rparr>)"

text \<open>
  The node must be an employee of the built-in organisation whom no active account matches exactly, by id, name, user
  name or mailbox, and no active account holds as an approval role now.
\<close>

definition account_matches :: "string \<Rightarrow> employee \<Rightarrow> directory_user \<Rightarrow> bool" where
  "account_matches node e u \<longleftrightarrow>
     (let boxes = filter (\<lambda>m. m \<noteq> []) (map (\<lambda>m. js_lower (text_trim m)) (em_mailboxes e)) in
      du_active u \<and> (du_id u = node \<or> du_name u = em_name e
        \<or> js_lower (or_empty (du_username u)) \<in> set boxes \<or> js_lower (or_empty (du_email u)) \<in> set boxes))"

definition binding_holds :: "string \<Rightarrow> employee \<Rightarrow> int \<Rightarrow> directory \<Rightarrow> role_binding \<Rightarrow> bool" where
  "binding_holds node e now dir b \<longleftrightarrow>
     list_ex (\<lambda>u. du_active u \<and> du_id u = rb_user b) (dy_users dir)
     \<and> (rb_role b = ascii_text node \<or> rb_role b = em_name e)
     \<and> (case rb_from b of None \<Rightarrow> True | Some t \<Rightarrow> t \<le> now) \<and> (case rb_to b of None \<Rightarrow> True | Some t \<Rightarrow> now < t)"

definition assertLegacyNodeIsOrphan :: "directory \<Rightarrow> string \<Rightarrow> int \<Rightarrow> gw_error + unit" where
  "assertLegacyNodeIsOrphan dir node now =
     (case employeeById defaultOrgSnapshot (Some node) of
        None \<Rightarrow> Inl (HttpFail 409 ''current_node_not_legacy_snapshot'')
      | Some e \<Rightarrow>
          if list_ex (account_matches node e) (dy_users dir) then Inl (HttpFail 409 ''current_node_resolved_to_active_user'')
          else if list_ex (binding_holds node e now dir) (dy_bindings dir)
          then Inl (HttpFail 409 ''current_node_has_active_approval_binding'')
          else Inr ())"

definition activeTarget :: "directory \<Rightarrow> string \<Rightarrow> gw_error + directory_user \<times> string" where
  "activeTarget dir target =
     (case find (\<lambda>u. du_id u = target) (dy_users dir) of
        None \<Rightarrow> Inl (HttpFail 400 ''target_user_not_found'')
      | Some u \<Rightarrow>
          if \<not> du_active u then Inl (HttpFail 400 ''target_user_inactive'')
          else
            (case filter (\<lambda>p. dp_active p \<and> (dp_user p = Some target \<or> dp_user_ref p = Some target)) (dy_people dir) of
               [p] \<Rightarrow> if js_trim (dp_ref p) = [] then Inl (HttpFail 400 ''target_person_ref_required'') else Inr (u, js_trim (dp_ref p))
             | _ \<Rightarrow> Inl (HttpFail 400 ''target_person_ref_required'')))"

definition FINAL_REVIEWER :: utext where
  "FINAL_REVIEWER = [26412, 20307, 21464, 26356] @ ascii_text '' objects '' @ [21333, 24352, 25480, 26435, 32456, 23457, 20154]"

definition assignedOwnerPayload :: "payload \<Rightarrow> nat \<Rightarrow> string \<Rightarrow> directory_user \<Rightarrow> string \<Rightarrow> assign_input \<Rightarrow> int \<Rightarrow> gw_error + payload" where
  "assignedOwnerPayload payload i previous u person input now =
     (let steps = (case py_steps payload of None \<Rightarrow> [] | Some ss \<Rightarrow> ss) in
      if length steps \<le> i then Inl (HttpFail 409 ''current_step_missing'')
      else
        (let old = steps ! i;
             new = old\<lparr>pp_employee := canonicalUserNode (du_id u), pp_user := Some (du_id u), pp_person := Some person,
                       pp_name := du_name u, pp_role := FINAL_REVIEWER\<rparr> in
         Inr (payload\<lparr>py_original_node := (case py_original_node payload of None \<Rightarrow> Some previous | Some n \<Rightarrow> Some n),
                      py_original_step := (case py_original_step payload of None \<Rightarrow> Some old | Some x \<Rightarrow> Some x),
                      py_steps := Some (steps[i := new]),
                      py_history := py_history payload @
                        [\<lparr>as_from_node = previous, as_from_step = old, as_actor = ai_actor input, as_target = du_id u,
                          as_target_name = du_name u, as_person = person, as_reason = ai_reason input, as_key = ai_key input,
                          as_at = now\<rparr>]\<rparr>)))"

definition in_objects_scope :: "payload \<Rightarrow> bool" where
  "in_objects_scope payload \<longleftrightarrow> (case js_field ''scope'' (py_other payload) of JStr s \<Rightarrow> js_trim s = ''objects'' | _ \<Rightarrow> False)"

text \<open>The checks of the transaction on the approval it locked, in their order.\<close>

definition assign_guard :: "assign_input \<Rightarrow> approval \<Rightarrow> gw_error option" where
  "assign_guard input a =
     (let chain = map js_trim (ap_chain a); i = ap_index a in
      if js_trim (ap_status a) \<noteq> ''pending'' then Some (HttpFail 409 ''approval_not_pending'')
      else if js_trim (ap_kind a) \<noteq> ''ontology_change'' then Some (HttpFail 409 ''approval_kind_not_supported'')
      else if \<not> in_objects_scope (ap_payload a) then Some (HttpFail 409 ''approval_scope_not_supported'')
      else if length chain \<le> i \<or> chain ! i = [] then Some (HttpFail 409 ''current_node_invalid'')
      else if isCanonicalUserNode (chain ! i) then Some (HttpFail 409 ''current_node_already_canonical'')
      else if ap_version a \<noteq> ai_version input then Some stale
      else None)"

definition current_trimmed :: "approval \<Rightarrow> string" where
  "current_trimmed a = map js_trim (ap_chain a) ! ap_index a"

definition assign_prepare :: "directory \<Rightarrow> assign_input \<Rightarrow> int \<Rightarrow> approval \<Rightarrow> gw_error + directory_user \<times> string \<times> payload" where
  "assign_prepare dir input now a =
     (case assign_guard input a of
        Some e \<Rightarrow> Inl e
      | None \<Rightarrow>
          (case assertLegacyNodeIsOrphan dir (current_trimmed a) now of
             Inl e \<Rightarrow> Inl e
           | Inr ok \<Rightarrow>
               (case activeTarget dir (ai_target input) of
                  Inl e \<Rightarrow> Inl e
                | Inr (u, person) \<Rightarrow>
                    map_sum id (\<lambda>payload. (u, person, payload))
                      (assignedOwnerPayload (ap_payload a) (ap_index a) (current_trimmed a) u person input now))))"

definition assigned_row :: "approval \<Rightarrow> directory_user \<Rightarrow> payload \<Rightarrow> int \<Rightarrow> approval" where
  "assigned_row a u payload now =
     a\<lparr>ap_chain := (map js_trim (ap_chain a))[ap_index a := canonicalUserNode (du_id u)], ap_payload := payload,
       ap_version := ap_version a + 1, ap_updated := now\<rparr>"

definition assignCurrentOwner :: "directory \<Rightarrow> assign_input \<Rightarrow> int \<Rightarrow> gateway_db \<Rightarrow> gw_error + assign_result \<times> gateway_db" where
  "assignCurrentOwner dir input now db =
     (case gw_assigned db (ai_approval input, ai_key input) of
        Some receipt \<Rightarrow> map_sum id (\<lambda>r. (r, db)) (replayOrConflict receipt input)
      | None \<Rightarrow>
          (case gw_approvals db (ai_approval input) of
             None \<Rightarrow> Inl (HttpFail 404 ''approval_not_found'')
           | Some a \<Rightarrow>
               (case assign_prepare dir input now a of
                  Inl e \<Rightarrow> Inl e
                | Inr (u, person, payload) \<Rightarrow>
                    if ap_status a \<noteq> ''pending'' \<or> ap_kind a \<noteq> ''ontology_change'' then Inl stale
                    else
                      Inr (\<lparr>ar_replayed = False, ar_version = ap_version a + 1, ar_target = du_id u, ar_person = person\<rparr>,
                           db\<lparr>gw_approvals := (gw_approvals db)(ai_approval input \<mapsto> assigned_row a u payload now),
                              gw_assigned := (gw_assigned db)((ai_approval input, ai_key input) \<mapsto>
                                (du_id u, ai_reason input, ap_version a + 1, person))\<rparr>))))"

text \<open>The route, for a session whose user is an administrator when authentication is on; \<open>reason\<close> and \<open>key\<close> untrimmed.\<close>

definition assign_route :: "directory \<Rightarrow> session \<Rightarrow> string \<Rightarrow> string \<Rightarrow> utext \<Rightarrow> js \<Rightarrow> string \<Rightarrow> int \<Rightarrow> gateway_db
    \<Rightarrow> gw_error + assign_result \<times> gateway_db" where
  "assign_route dir se aid target reason version key now db =
     (if se_auth_disabled se then Inl (HttpFail 503 ''approval_owner_assignment_auth_required'')
      else case se_user se of
          None \<Rightarrow> Inl (HttpFail 403 ''admin required'')
        | Some u \<Rightarrow>
            if \<not> us_admin u then Inl (HttpFail 403 ''admin required'')
            else if js_trim target = [] then Inl (HttpFail 400 ''target_user_id_required'')
            else if text_trim reason = [] then Inl (HttpFail 400 ''assignment_reason_required'')
            else case requireExpectedVersion version of
                Inl e \<Rightarrow> Inl e
              | Inr n \<Rightarrow>
                  if js_trim key = [] then Inl (HttpFail 400 ''idempotency_key_required'')
                  else assignCurrentOwner dir
                         \<lparr>ai_approval = aid, ai_target = js_trim target, ai_reason = text_trim reason, ai_version = n,
                          ai_key = js_trim key, ai_actor = us_id u\<rparr> now db)"

section \<open>What an assignment does\<close>

lemma assign_prepared:
  assumes "assign_prepare dir input now a = Inr (u, person, payload)"
  shows "ap_version a = ai_version input" and "ap_index a < length (ap_chain a)" and "\<not> isCanonicalUserNode (current_trimmed a)"
    and "assertLegacyNodeIsOrphan dir (current_trimmed a) now = Inr ()" and "activeTarget dir (ai_target input) = Inr (u, person)"
    and "assignedOwnerPayload (ap_payload a) (ap_index a) (current_trimmed a) u person input now = Inr payload"
proof -
  have g: "assign_guard input a = None" using assms by (auto simp: assign_prepare_def split: option.splits)
  then show "ap_version a = ai_version input" and "ap_index a < length (ap_chain a)" and "\<not> isCanonicalUserNode (current_trimmed a)"
    by (auto simp: assign_guard_def Let_def current_trimmed_def split: if_splits)
  show "assertLegacyNodeIsOrphan dir (current_trimmed a) now = Inr ()" and "activeTarget dir (ai_target input) = Inr (u, person)"
    and "assignedOwnerPayload (ap_payload a) (ap_index a) (current_trimmed a) u person input now = Inr payload"
    using assms g by (auto simp: assign_prepare_def map_sum_def split: sum.splits)
qed

lemma assignedE:
  assumes "assignCurrentOwner dir input now db = Inr (r, db')"
  obtains (Replay) "db' = db" "ar_replayed r"
  | (Assigned) a u person payload where "gw_approvals db (ai_approval input) = Some a" "ap_status a = ''pending''"
      "assign_prepare dir input now a = Inr (u, person, payload)"
      "r = \<lparr>ar_replayed = False, ar_version = ap_version a + 1, ar_target = du_id u, ar_person = person\<rparr>"
      "db' = db\<lparr>gw_approvals := (gw_approvals db)(ai_approval input \<mapsto> assigned_row a u payload now),
              gw_assigned := (gw_assigned db)((ai_approval input, ai_key input) \<mapsto> (du_id u, ai_reason input, ap_version a + 1, person))\<rparr>"
proof (cases "gw_assigned db (ai_approval input, ai_key input)")
  case (Some receipt)
  then show ?thesis using assms Replay
    by (auto simp: assignCurrentOwner_def replayOrConflict_def map_sum_def split: sum.splits prod.splits if_splits)
next
  case none: None
  show ?thesis
  proof (cases "gw_approvals db (ai_approval input)")
    case (Some a)
    show ?thesis
    proof (cases "assign_prepare dir input now a")
      case (Inr x)
      then show ?thesis using assms none Some Assigned
        by (cases x) (auto simp: assignCurrentOwner_def split: if_splits)
    qed (use assms none Some in \<open>simp add: assignCurrentOwner_def\<close>)
  qed (use assms none in \<open>simp add: assignCurrentOwner_def\<close>)
qed

text \<open>
  C16. An assignment repairs one orphaned node and nothing else: it succeeds only when the node names an employee of the
  organisation whom no active account matches and no active account holds as a role, and then the current node, and no
  other, becomes the one active target account; the approval stays pending at its place.
\<close>

theorem assignment_repairs_one_node:
  assumes "assignCurrentOwner dir input now db = Inr (r, db')" and "\<not> ar_replayed r"
  shows "\<exists>a a'. gw_approvals db (ai_approval input) = Some a \<and> gw_approvals db' = (gw_approvals db)(ai_approval input \<mapsto> a')
    \<and> ap_chain a' = (map js_trim (ap_chain a))[ap_index a := USER_PREFIX @ ai_target input] \<and> ap_index a < length (ap_chain a)
    \<and> ap_status a' = ''pending'' \<and> ap_index a' = ap_index a \<and> ap_version a' = ap_version a + 1
    \<and> (\<exists>e. employeeById defaultOrgSnapshot (Some (current_trimmed a)) = Some e
        \<and> (\<forall>u \<in> set (dy_users dir). \<not> account_matches (current_trimmed a) e u))
    \<and> (\<exists>u \<in> set (dy_users dir). du_id u = ai_target input \<and> du_active u)"
  using assms(1)
proof (cases rule: assignedE)
  case (Assigned a u person payload)
  note p = assign_prepared [OF Assigned(3)]
  obtain e where e: "employeeById defaultOrgSnapshot (Some (current_trimmed a)) = Some e" "\<not> list_ex (account_matches (current_trimmed a) e) (dy_users dir)"
    using p(4) by (auto simp: assertLegacyNodeIsOrphan_def split: option.splits if_splits)
  have u: "u \<in> set (dy_users dir)" "du_id u = ai_target input" "du_active u"
    using p(5) by (auto simp: activeTarget_def find_Some_iff split: option.splits if_splits list.splits)
  show ?thesis
    by (rule exI [of _ a], rule exI [of _ "assigned_row a u payload now"])
      (use Assigned p e u in \<open>auto simp: assigned_row_def canonicalUserNode_def list_ex_iff\<close>)
qed (use assms(2) in simp)

end
