(* ===== verification/Approval_Machine.thy ===== *)
theory Approval_Machine
  imports Owner_Assignment
begin

text \<open>
  The approval gateway under concurrent requests.  A request runs in parts with other requests in between: the check of
  the route, the read of the operation, for a final approval the side effect, and the compare-and-set transaction.  The
  machine keeps what requests have checked and read; any of them may go on at any time, or never (a crash).  It may even go
  on twice, which only adds behaviours.  \<open>mc_log\<close> is the history of the transactions that went through.

  The locale \<open>optimistic_store\<close> is the contract of versioned rows: every step keeps a row or raises its version.  It
  gives that a row read earlier is the row that is there when the versions agree, which makes each transaction atomic.
\<close>

section \<open>Versioned rows\<close>

locale optimistic_store =
  fixes step :: "'s \<Rightarrow> 's \<Rightarrow> bool" and row :: "'s \<Rightarrow> 'k \<Rightarrow> 'r option" and version :: "'r \<Rightarrow> nat"
  assumes step_row: "step s s' \<Longrightarrow> row s k = Some r \<Longrightarrow> \<exists>r'. row s' k = Some r' \<and> (r' = r \<or> version r < version r')"
begin

lemma run_row: "step\<^sup>*\<^sup>* s s' \<Longrightarrow> row s k = Some r \<Longrightarrow> \<exists>r'. row s' k = Some r' \<and> (r' = r \<or> version r < version r')"
proof (induction rule: rtranclp.induct)
  case (rtrancl_into_rtrancl a b c)
  then obtain r1 where r1: "row b k = Some r1" "r1 = r \<or> version r < version r1" by blast
  then show ?case using step_row [OF rtrancl_into_rtrancl.hyps(2) r1(1)] by fastforce
qed auto

lemma read_still_current:
  "step\<^sup>*\<^sup>* s s' \<Longrightarrow> row s k = Some r \<Longrightarrow> row s' k = Some r' \<Longrightarrow> version r' = version r \<Longrightarrow> r' = r"
  using run_row by fastforce

end

section \<open>The machine\<close>

record machine =
  mc_db :: gateway_db
  mc_checked :: "(session \<times> string \<times> string option) set"
  mc_withdrawers :: "(session \<times> string) set"
  mc_reads :: "(session \<times> action \<times> approval) set"
  mc_fulfilled :: "approval set"
  mc_log :: "(session \<times> action \<times> approval) list"

definition empty_gateway :: gateway_db where
  "empty_gateway =
     \<lparr>gw_approvals = Map.empty, gw_cards = Map.empty, gw_drafts = Map.empty, gw_created = Map.empty, gw_decided = Map.empty,
      gw_assigned = Map.empty, gw_stage_writes = []\<rparr>"

definition start :: machine where
  "start = \<lparr>mc_db = empty_gateway, mc_checked = {}, mc_withdrawers = {}, mc_reads = {}, mc_fulfilled = {}, mc_log = []\<rparr>"

definition reads_current :: "gateway_db \<Rightarrow> string \<Rightarrow> string option \<Rightarrow> action \<times> approval \<Rightarrow> bool" where
  "reads_current db aid actor x \<longleftrightarrow>
     (\<exists>decision reason version. decide_read db aid decision actor reason version = Inr x)
     \<or> (\<exists>target reason version. transfer_read db aid target actor reason version = Inr x)
     \<or> (\<exists>target reason version. countersign_read db aid target actor reason version = Inr x)"

inductive gw_step :: "machine \<Rightarrow> machine \<Rightarrow> bool" where
  Create: "createWorkApproval w aid who now (mc_db m) = Inr (Some a, db) \<Longrightarrow> gw_step m (m\<lparr>mc_db := db\<rparr>)"
| Check: "may_act_on (mc_db m) se aid given_actor = Inr actor
    \<Longrightarrow> gw_step m (m\<lparr>mc_checked := insert (se, aid, actor) (mc_checked m)\<rparr>)"
| Read: "(se, aid, actor) \<in> mc_checked m \<Longrightarrow> reads_current (mc_db m) aid actor (act, snap)
    \<Longrightarrow> gw_step m (m\<lparr>mc_reads := insert (se, act, snap) (mc_reads m)\<rparr>)"
| Check_Withdraw: "may_withdraw (mc_db m) se aid = Inr ()
    \<Longrightarrow> gw_step m (m\<lparr>mc_withdrawers := insert (se, aid) (mc_withdrawers m)\<rparr>)"
| Read_Withdraw: "(se, aid) \<in> mc_withdrawers m \<Longrightarrow> withdraw_read (mc_db m) aid handle version = Inr (act, snap)
    \<Longrightarrow> gw_step m (m\<lparr>mc_reads := insert (se, act, snap) (mc_reads m)\<rparr>)"
| Fulfil: "(se, Consume, snap) \<in> mc_reads m \<Longrightarrow> fulfil stage snap (mc_db m) = Inr (f, db)
    \<Longrightarrow> gw_step m (m\<lparr>mc_db := db, mc_fulfilled := insert snap (mc_fulfilled m)\<rparr>)"
| Commit: "(se, act, snap) \<in> mc_reads m \<Longrightarrow> act = Consume \<longrightarrow> snap \<in> mc_fulfilled m \<Longrightarrow> commit act now snap (mc_db m) = Inr db
    \<Longrightarrow> gw_step m (m\<lparr>mc_db := db, mc_log := mc_log m @ [(se, act, snap)]\<rparr>)"
| Receipt: "gw_step m (m\<lparr>mc_db := remember aid key r (mc_db m)\<rparr>)"
| Created: "gw_step m (m\<lparr>mc_db := (mc_db m)\<lparr>gw_created := c\<rparr>\<rparr>)"
| Assign: "assignCurrentOwner dir input now (mc_db m) = Inr (r, db) \<Longrightarrow> gw_step m (m\<lparr>mc_db := db\<rparr>)"


abbreviation the_row :: "machine \<Rightarrow> string \<Rightarrow> approval option" where
  "the_row m k \<equiv> gw_approvals (mc_db m) k"

section \<open>What the parts do to the rows\<close>

lemma discard_draft_rows [simp]: "gw_approvals (discard_draft act snap db) = gw_approvals db"
  by (auto simp: discard_draft_def split: action.splits option.splits)

lemma commitE:
  assumes "commit act now snap db = Inr db'"
  obtains row where "gw_approvals db (ap_id snap) = Some row" "ap_status row = ''pending''" "ap_version row = ap_version snap"
    "gw_approvals db' = (gw_approvals db)(ap_id snap \<mapsto> set_columns act now snap row)"
  using assms by (auto simp: commit_def split: option.splits if_splits)

lemma set_columns_version [simp]: "ap_version (set_columns act now snap row) = ap_version snap + 1"
  by (cases act) (simp_all add: Let_def)

lemma set_columns_id [simp]: "ap_id (set_columns act now snap row) = ap_id row"
  by (cases act) (simp_all add: Let_def)

lemma fulfil_rows: "fulfil stage a db = Inr (f, db') \<Longrightarrow> gw_approvals db' = gw_approvals db"
  by (auto simp: fulfil_def split: if_splits sum.splits)

lemma remember_rows [simp]: "gw_approvals (remember aid key r db) = gw_approvals db"
  by (simp add: remember_def)

lemma create_rows:
  assumes "createWorkApproval w aid who now db = Inr (Some a, db')"
  shows "gw_approvals db aid = None" and "gw_approvals db' = (gw_approvals db)(aid \<mapsto> a)" and "a = new_approval w aid who now" and "wi_chain w \<noteq> []"
  using assms by (auto simp: createWorkApproval_def Let_def split: if_splits)

lemma assign_rows:
  assumes "assignCurrentOwner dir input now db = Inr (r, db')"
  obtains "gw_approvals db' = gw_approvals db"
  | a u payload where "gw_approvals db (ai_approval input) = Some a" "ap_status a = ''pending''" "ap_index a < length (ap_chain a)"
      "gw_approvals db' = (gw_approvals db)(ai_approval input \<mapsto> assigned_row a u payload now)"
  using assms by (cases rule: assignedE) (use assign_prepared(2) in auto)

lemma step_row:
  assumes "gw_step m m'" and "the_row m k = Some r"
  shows "\<exists>r'. the_row m' k = Some r' \<and> (r' = r \<or> ap_version r < ap_version r')"
  using assms
proof (cases rule: gw_step.cases)
  case (Create w aid who now a db)
  then show ?thesis using assms(2) create_rows [OF Create(2)] by auto
next
  case (Fulfil se snap stage f db)
  then show ?thesis using assms(2) fulfil_rows by auto
next
  case (Commit se act snap now db)
  then show ?thesis using assms(2) by (auto elim!: commitE)
next
  case (Assign dir input now r db)
  then show ?thesis using assms(2) by (auto elim!: assign_rows simp: assigned_row_def)
qed (use assms(2) in auto)

interpretation gwo: optimistic_store gw_step the_row ap_version
  by unfold_locales (rule step_row)

text \<open>A closed approval is final.\<close>

lemma step_closed:
  assumes "gw_step m m'" and "the_row m k = Some r" and "ap_status r \<noteq> ''pending''"
  shows "the_row m' k = Some r"
  using assms(1)
proof (cases rule: gw_step.cases)
  case (Create w aid who now a db)
  then show ?thesis using assms(2) create_rows [OF Create(2)] by auto
next
  case (Fulfil se snap stage f db)
  then show ?thesis using assms(2) fulfil_rows by auto
next
  case (Commit se act snap now db)
  then show ?thesis using assms(2,3) by (auto elim!: commitE)
next
  case (Assign dir input now r db)
  then show ?thesis using assms(2,3) by (auto elim!: assign_rows)
qed (use assms(2) in auto)

lemma run_closed:
  "gw_step\<^sup>*\<^sup>* m m' \<Longrightarrow> the_row m k = Some r \<Longrightarrow> ap_status r \<noteq> ''pending'' \<Longrightarrow> the_row m' k = Some r"
  by (induction rule: rtranclp.induct) (auto intro: step_closed)

section \<open>The invariant\<close>

definition row_ok :: "string \<Rightarrow> approval \<Rightarrow> bool" where
  "row_ok k a \<longleftrightarrow> ap_id a = k \<and> ap_index a < length (ap_chain a)
     \<and> ap_status a \<in> {''pending'', ''rejected'', ''consumed'', ''withdrawn''}"

definition entitled :: "session \<Rightarrow> string option \<Rightarrow> bool" where
  "entitled se node \<longleftrightarrow> se_auth_disabled se \<or> given node \<and> canDecideCurrent se node"

definition action_fits :: "action \<Rightarrow> approval \<Rightarrow> bool" where
  "action_fits act snap \<longleftrightarrow> (act = Advance \<longrightarrow> ap_index snap + 1 < length (ap_chain snap)) \<and> (act = Consume \<longrightarrow> ap_index snap + 1 = length (ap_chain snap))"

text \<open>What holds of a read: the row it read, entitled, and still the row that is there unless a later version is.\<close>

definition read_ok :: "gateway_db \<Rightarrow> session \<times> action \<times> approval \<Rightarrow> bool" where
  "read_ok db x \<longleftrightarrow>
     (case x of (se, act, snap) \<Rightarrow>
        row_ok (ap_id snap) snap \<and> ap_status snap = ''pending'' \<and> action_fits act snap
        \<and> ((\<forall>who. act \<noteq> Withdraw who) \<longrightarrow> entitled se (current_node snap))
        \<and> (\<exists>row. gw_approvals db (ap_id snap) = Some row \<and> (row = snap \<or> ap_version snap < ap_version row)))"

text \<open>Who approved the node at place \<open>k\<close>: a transaction of the history that found it current, by somebody entitled to it.\<close>

definition approved_at :: "(session \<times> action \<times> approval) list \<Rightarrow> string \<Rightarrow> nat \<Rightarrow> string \<Rightarrow> bool" where
  "approved_at lg aid k node \<longleftrightarrow>
     (\<exists>(se, act, snap) \<in> set lg. ap_id snap = aid \<and> ap_index snap = k \<and> act \<in> {Advance, Consume}
        \<and> entitled se (current_node snap) \<and> (\<exists>n. current_node snap = Some n \<and> js_trim n = js_trim node))"

definition history_ok :: "(session \<times> action \<times> approval) list \<Rightarrow> string \<Rightarrow> approval \<Rightarrow> bool" where
  "history_ok lg k a \<longleftrightarrow>
     (\<forall>i < length (ap_chain a). i < ap_index a \<or> ap_status a = ''consumed'' \<longrightarrow> approved_at lg k i (ap_chain a ! i))"

definition machine_ok :: "machine \<Rightarrow> bool" where
  "machine_ok m \<longleftrightarrow>
     (\<forall>k a. the_row m k = Some a \<longrightarrow> row_ok k a \<and> history_ok (mc_log m) k a)
     \<and> (\<forall>(se, aid, actor) \<in> mc_checked m. entitled se actor)
     \<and> (\<forall>x \<in> mc_reads m. read_ok (mc_db m) x)"

lemma machine_okD:
  assumes "machine_ok m"
  shows "the_row m k = Some a \<Longrightarrow> row_ok k a" and "the_row m k = Some a \<Longrightarrow> history_ok (mc_log m) k a"
    and "(se, aid, actor) \<in> mc_checked m \<Longrightarrow> entitled se actor" and "x \<in> mc_reads m \<Longrightarrow> read_ok (mc_db m) x"
  using assms unfolding machine_ok_def by fast+

text \<open>A step keeps what was read.\<close>

lemma read_ok_step: "gw_step m m' \<Longrightarrow> read_ok (mc_db m) x \<Longrightarrow> read_ok (mc_db m') x"
  unfolding read_ok_def using step_row by (fastforce split: prod.splits)

lemma approved_at_mono: "approved_at lg aid k node \<Longrightarrow> set lg \<subseteq> set lg' \<Longrightarrow> approved_at lg' aid k node"
  unfolding approved_at_def by blast

lemma history_ok_mono: "history_ok lg k a \<Longrightarrow> set lg \<subseteq> set lg' \<Longrightarrow> history_ok lg' k a"
  unfolding history_ok_def using approved_at_mono by blast

section \<open>Every step keeps the invariant\<close>

lemma dropWhile_twice: "dropWhile P (rev (dropWhile P (rev (dropWhile P s)))) = rev (dropWhile P (rev (dropWhile P s)))"
proof -
  let ?t = "dropWhile P s" and ?u = "rev (dropWhile P (rev (dropWhile P s)))"
  have t: "?t = ?u @ rev (takeWhile P (rev ?t))" by (metis rev_append rev_rev_ident takeWhile_dropWhile_id)
  show ?thesis
  proof (cases ?u)
    case (Cons c cs)
    then have "?t = c # (cs @ rev (takeWhile P (rev ?t)))" using t by simp
    then have "\<not> P c" by (metis dropWhile_eq_Cons_conv)
    then show ?thesis unfolding Cons by simp
  next
    case Nil
    show ?thesis unfolding Nil by simp
  qed
qed

lemma js_trim_js_trim [simp]: "js_trim (js_trim s) = js_trim s"
  by (simp add: js_trim_def dropWhile_twice)

lemma read_pending_Some:
  "read_pending db aid version = Inr a \<Longrightarrow> gw_approvals db aid = Some a \<and> ap_status a = ''pending''"
  by (auto simp: read_pending_def split: option.splits if_splits)

lemma read_current_Some:
  "read_current db aid actor version = Inr a \<Longrightarrow> gw_approvals db aid = Some a \<and> ap_status a = ''pending'' \<and> (given actor \<longrightarrow> actor = current_node a)"
  by (auto simp: read_current_def split: sum.splits if_splits dest: read_pending_Some)

definition good_read :: "gateway_db \<Rightarrow> string \<Rightarrow> string option \<Rightarrow> action \<times> approval \<Rightarrow> bool" where
  "good_read db aid actor x \<longleftrightarrow>
     (case x of (act, snap) \<Rightarrow>
        gw_approvals db aid = Some snap \<and> ap_status snap = ''pending'' \<and> (given actor \<longrightarrow> actor = current_node snap)
        \<and> (act = Advance \<longrightarrow> ap_index snap + 1 < length (ap_chain snap)) \<and> (act = Consume \<longrightarrow> \<not> ap_index snap + 1 < length (ap_chain snap)))"

lemma decide_read_good: "decide_read db aid decision actor reason version = Inr x \<Longrightarrow> good_read db aid actor x"
  by (cases "read_current db aid actor version") (auto simp: decide_read_def good_read_def Let_def split: if_splits dest: read_current_Some)

lemma transfer_read_good: "transfer_read db aid target actor reason version = Inr x \<Longrightarrow> good_read db aid actor x"
  by (cases "read_current db aid actor version") (auto simp: transfer_read_def good_read_def Let_def split: if_splits dest: read_current_Some)

lemma countersign_read_good: "countersign_read db aid target actor reason version = Inr x \<Longrightarrow> good_read db aid actor x"
  by (cases "read_current db aid actor version") (auto simp: countersign_read_def good_read_def Let_def split: if_splits option.splits dest: read_current_Some)

lemma reads_current_facts:
  assumes "reads_current db aid actor (act, snap)"
  shows "gw_approvals db aid = Some snap" and "ap_status snap = ''pending''" and "given actor \<longrightarrow> actor = current_node snap"
    and "act = Advance \<longrightarrow> ap_index snap + 1 < length (ap_chain snap)" and "act = Consume \<longrightarrow> \<not> ap_index snap + 1 < length (ap_chain snap)"
proof -
  have "good_read db aid actor (act, snap)"
    using assms unfolding reads_current_def
    by (elim disjE exE) (erule decide_read_good transfer_read_good countersign_read_good)+
  then show "gw_approvals db aid = Some snap" "ap_status snap = ''pending''" "given actor \<longrightarrow> actor = current_node snap"
    "act = Advance \<longrightarrow> ap_index snap + 1 < length (ap_chain snap)" "act = Consume \<longrightarrow> \<not> ap_index snap + 1 < length (ap_chain snap)"
    by (simp_all add: good_read_def)
qed

lemma withdraw_read_facts:
  assumes "withdraw_read db aid handle version = Inr (act, snap)"
  shows "gw_approvals db aid = Some snap" and "ap_status snap = ''pending''" and "act = Withdraw handle"
  using assms by (auto simp: withdraw_read_def map_sum_def split: sum.splits dest!: read_pending_Some)

lemma decider_given: "canDecideCurrent se e \<Longrightarrow> se_auth_disabled se \<or> given e"
  by (cases "given e"; cases "se_user se") (simp_all add: canDecideCurrent_def split: if_splits)

lemma may_act_entitled: "may_act_on db se aid g = Inr actor \<Longrightarrow> entitled se actor"
  using decider_given by (auto simp: may_act_on_def entitled_def isCurrentDecider_def split: option.splits if_splits)

lemma approved_now:
  assumes "entitled se (current_node snap)" "act \<in> {Advance, Consume}" "ap_index snap < length (ap_chain snap)"
  shows "approved_at (lg @ [(se, act, snap)]) (ap_id snap) (ap_index snap) (ap_chain snap ! ap_index snap)"
  using assms unfolding approved_at_def by (auto simp: current_node_def js_index_def)

lemma history_before:
  "history_ok lg k a \<Longrightarrow> i < ap_index a \<Longrightarrow> ap_index a < length (ap_chain a) \<Longrightarrow> approved_at (lg @ x) k i (ap_chain a ! i)"
  by (rule approved_at_mono [of lg]) (auto simp: history_ok_def)

text \<open>The transactions, on the row they read.\<close>

lemma set_columns_ok:
  assumes "row_ok k snap" "action_fits act snap" "ap_status snap = ''pending''"
  shows "row_ok k (set_columns act now snap snap)"
  using assms by (cases act) (auto simp: row_ok_def action_fits_def Let_def)

lemma set_columns_history:
  assumes ok: "row_ok (ap_id snap) snap" and fits: "action_fits act snap" and st: "ap_status snap = ''pending''"
    and h: "history_ok lg (ap_id snap) snap" and e: "(\<forall>who. act \<noteq> Withdraw who) \<longrightarrow> entitled se (current_node snap)"
  shows "history_ok (lg @ [(se, act, snap)]) (ap_id snap) (set_columns act now snap snap)"
proof -
  have i: "ap_index snap < length (ap_chain snap)" using ok by (simp add: row_ok_def)
  note past = history_before [OF h _ i, of _ "[(se, act, snap)]"]
  have now: "act \<in> {Advance, Consume} \<Longrightarrow> approved_at (lg @ [(se, act, snap)]) (ap_id snap) (ap_index snap) (ap_chain snap ! ap_index snap)"
    using approved_now [of se snap act lg] e i by auto
  show ?thesis
  proof (cases act)
    case (Reject why)
    then show ?thesis using past by (simp add: history_ok_def)
  next
    case Advance
    then show ?thesis using past now st by (auto simp: history_ok_def less_Suc_eq)
  next
    case Consume
    then have "length (ap_chain snap) = Suc (ap_index snap)" using fits by (simp add: action_fits_def)
    then show ?thesis using past now Consume by (auto simp: history_ok_def less_Suc_eq)
  next
    case (Transfer t role reason)
    then show ?thesis using past st by (auto simp: history_ok_def Let_def)
  next
    case (Countersign t p reason)
    then show ?thesis using past st i by (auto simp: history_ok_def Let_def nth_append)
  next
    case (Withdraw who)
    then show ?thesis using past by (simp add: history_ok_def)
  qed
qed

lemma assigned_row_ok: "row_ok k a \<Longrightarrow> ap_status a = ''pending'' \<Longrightarrow> row_ok k (assigned_row a u payload now)"
  by (simp add: row_ok_def assigned_row_def)

lemma approved_at_trim: "approved_at lg k i node \<Longrightarrow> approved_at lg k i (js_trim node)"
  unfolding approved_at_def by simp

lemma assigned_row_history:
  assumes "history_ok lg k a" "ap_status a = ''pending''"
  shows "history_ok lg k (assigned_row a u payload now)"
  using assms unfolding history_ok_def assigned_row_def by (auto simp: nth_list_update intro!: approved_at_trim)

lemma new_approval_ok: "wi_chain w \<noteq> [] \<Longrightarrow> row_ok aid (new_approval w aid who now) \<and> history_ok lg aid (new_approval w aid who now)"
  by (simp add: row_ok_def history_ok_def new_approval_def)

lemma start_ok: "machine_ok start"
  by (simp add: machine_ok_def start_def empty_gateway_def)

lemma step_machine_ok:
  assumes "gw_step m m'" and ok: "machine_ok m"
  shows "machine_ok m'"
proof -
  have old: "\<And>x. x \<in> mc_reads m \<Longrightarrow> read_ok (mc_db m') x"
    using read_ok_step [OF assms(1)] machine_okD(4) [OF ok] by blast
  have fresh: "read_ok (mc_db m) (se, act, snap)"
    if "gw_approvals (mc_db m) aid = Some snap" "ap_status snap = ''pending''" "action_fits act snap"
      "(\<forall>who. act \<noteq> Withdraw who) \<longrightarrow> entitled se (current_node snap)" for aid se act snap
    using machine_okD(1) [OF ok that(1)] that by (auto simp: read_ok_def row_ok_def)
  show ?thesis
    using assms(1)
  proof (cases rule: gw_step.cases)
    case (Create w aid who now a db)
    note r = create_rows [OF Create(2)]
    show ?thesis using old ok new_approval_ok [OF r(4)] r(2,3) unfolding machine_ok_def Create(1) by auto
  next
    case (Check se aid g actor)
    show ?thesis using old ok may_act_entitled [OF Check(2)] unfolding machine_ok_def Check(1) by auto
  next
    case (Read se aid actor act snap)
    note f = reads_current_facts [OF Read(3)]
    have "entitled se actor" by (rule machine_okD(3) [OF ok Read(2)])
    then have "entitled se (current_node snap)" using f(3) by (auto simp: entitled_def)
    moreover have "action_fits act snap" using f(4,5) machine_okD(1) [OF ok f(1)] by (auto simp: action_fits_def row_ok_def)
    ultimately have "read_ok (mc_db m) (se, act, snap)" using fresh [OF f(1,2)] by simp
    then show ?thesis using old ok unfolding machine_ok_def Read(1) by auto
  next
    case (Check_Withdraw se aid)
    show ?thesis using old ok unfolding machine_ok_def Check_Withdraw(1) by auto
  next
    case (Read_Withdraw se aid handle version act snap)
    note f = withdraw_read_facts [OF Read_Withdraw(3)]
    have "read_ok (mc_db m) (se, act, snap)" using fresh [OF f(1,2)] f(3) by (simp add: action_fits_def)
    then show ?thesis using old ok unfolding machine_ok_def Read_Withdraw(1) by auto
  next
    case (Fulfil se snap stage f db)
    show ?thesis using old ok fulfil_rows [OF Fulfil(3)] unfolding machine_ok_def Fulfil(1) by auto
  next
    case (Commit se act snap now db)
    have r: "read_ok (mc_db m) (se, act, snap)" by (rule machine_okD(4) [OF ok Commit(2)])
    obtain row where row: "the_row m (ap_id snap) = Some row" "ap_version row = ap_version snap"
      "gw_approvals db = (gw_approvals (mc_db m))(ap_id snap \<mapsto> set_columns act now snap row)"
      using Commit(4) by (rule commitE) 
    have eq: "row = snap" using r row(1,2) by (auto simp: read_ok_def)
    have snap: "row_ok (ap_id snap) snap" "ap_status snap = ''pending''" "action_fits act snap"
      "(\<forall>who. act \<noteq> Withdraw who) \<longrightarrow> entitled se (current_node snap)" using r by (auto simp: read_ok_def)
    have "history_ok (mc_log m) (ap_id snap) snap" using machine_okD(2) [OF ok] row(1) eq by blast
    from set_columns_history [OF snap(1,3,2) this snap(4)] set_columns_ok [OF snap(1,3,2)]
    have new: "row_ok (ap_id snap) (set_columns act now snap snap)"
      "history_ok (mc_log m @ [(se, act, snap)]) (ap_id snap) (set_columns act now snap snap)" by blast+
    have rest: "history_ok (mc_log m @ [(se, act, snap)]) k a" if "the_row m k = Some a" for k a
      using machine_okD(2) [OF ok that] by (rule history_ok_mono) auto
    show ?thesis using old ok new rest row(3) eq unfolding machine_ok_def Commit(1) by auto
  next
    case (Receipt aid key r)
    show ?thesis using old ok unfolding machine_ok_def Receipt by auto
  next
    case (Created c)
    show ?thesis using old ok unfolding machine_ok_def Created by auto
  next
    case (Assign dir input now r db)
    have rows: "row_ok k a \<and> history_ok (mc_log m) k a" if "gw_approvals db k = Some a" for k a
      using Assign(2)
    proof (cases rule: assign_rows)
      case 1
      then show ?thesis using that machine_okD(1,2) [OF ok] by simp
    next
      case (2 b u payload)
      then show ?thesis using that machine_okD(1,2) [OF ok] assigned_row_ok assigned_row_history
        by (auto split: if_splits)
    qed
    show ?thesis using old ok rows unfolding machine_ok_def Assign(1) by auto
  qed
qed

lemma run_ok: "gw_step\<^sup>*\<^sup>* start m \<Longrightarrow> machine_ok m"
  by (induction rule: rtranclp_induct) (simp add: start_ok, rule step_machine_ok)

end
