(* ===== verification/Approval_Claims.thy ===== *)
theory Approval_Claims
  imports Approval_Machine
begin

text \<open>
  What the gateway guarantees under interleaved requests, for the operations run alone, and what it does not: properties
  over the invariant of \<open>Approval_Machine\<close>, and the concrete runs of their witnesses.
\<close>

section \<open>Each transaction is atomic\<close>

text \<open>What a request checked and read could be checked and read again in \<open>db\<close>.\<close>

definition read_again :: "gateway_db \<Rightarrow> session \<Rightarrow> action \<Rightarrow> approval \<Rightarrow> bool" where
  "read_again db se act snap \<longleftrightarrow>
     (\<exists>actor. entitled se actor \<and> reads_current db (ap_id snap) actor (act, snap))
     \<or> (\<exists>handle version. withdraw_read db (ap_id snap) handle version = Inr (act, snap))"

lemma read_pending_row: "gw_approvals db k = gw_approvals db' k \<Longrightarrow> read_pending db k version = read_pending db' k version"
  by (simp add: read_pending_def)

lemma read_again_row:
  assumes "gw_approvals db (ap_id snap) = gw_approvals db' (ap_id snap)" and "read_again db se act snap"
  shows "read_again db' se act snap"
proof -
  note p = read_pending_row [OF assms(1)]
  have "read_current db (ap_id snap) actor version = read_current db' (ap_id snap) actor version" for actor version
    by (simp add: read_current_def p)
  then show ?thesis
    using assms(2) by (simp add: read_again_def reads_current_def decide_read_def transfer_read_def countersign_read_def withdraw_read_def p)
qed

lemma run_read_from:
  assumes "gw_step\<^sup>*\<^sup>* start m" and "(se, act, snap) \<in> mc_reads m"
  shows "\<exists>m0. gw_step\<^sup>*\<^sup>* m0 m \<and> the_row m0 (ap_id snap) = Some snap \<and> read_again (mc_db m0) se act snap"
  using assms
proof (induction rule: rtranclp_induct)
  case (step m m')
  have ok: "machine_ok m" by (rule run_ok [OF step.hyps(1)])
  show ?case
  proof (cases "(se, act, snap) \<in> mc_reads m")
    case True
    then show ?thesis using step.IH step.hyps(2) by (meson rtranclp.rtrancl_into_rtrancl)
  next
    case new: False
    have "the_row m (ap_id snap) = Some snap \<and> read_again (mc_db m) se act snap"
      using step.hyps(2)
    proof (cases rule: gw_step.cases)
      case (Read se' aid actor act' snap')
      then have eq: "se' = se" "act' = act" "snap' = snap" using step.prems new by auto
      note f = reads_current_facts [OF Read(3)]
      have "aid = ap_id snap" using machine_okD(1) [OF ok f(1)] eq by (simp add: row_ok_def)
      then show ?thesis using f(1) Read(3) machine_okD(3) [OF ok Read(2)] eq unfolding read_again_def by blast
    next
      case (Read_Withdraw se' aid handle version act' snap')
      then have eq: "act' = act" "snap' = snap" using step.prems new by auto
      note f = withdraw_read_facts [OF Read_Withdraw(3)]
      have "aid = ap_id snap" using machine_okD(1) [OF ok f(1)] eq by (simp add: row_ok_def)
      then show ?thesis using f(1) Read_Withdraw(3) eq unfolding read_again_def by blast
    qed (use step.prems new in auto)
    then show ?thesis using step.hyps(2) by blast
  qed
qed (simp add: start_def)

text \<open>
  C7. Every write is the atomic operation: whatever other requests did between a request's read and its transaction, when
  the compare-and-set goes through, the row is still the one that was read, the same checks and the same read would give
  the same write at that moment, and the write changes that row alone.
\<close>

theorem compare_and_set_is_atomic:
  assumes "gw_step\<^sup>*\<^sup>* start m" and "(se, act, snap) \<in> mc_reads m" and "commit act now snap (mc_db m) = Inr db"
  shows "the_row m (ap_id snap) = Some snap \<and> read_again (mc_db m) se act snap
    \<and> gw_approvals db = (gw_approvals (mc_db m))(ap_id snap \<mapsto> set_columns act now snap snap)"
proof -
  obtain m0 where m0: "gw_step\<^sup>*\<^sup>* m0 m" "the_row m0 (ap_id snap) = Some snap" "read_again (mc_db m0) se act snap"
    using run_read_from [OF assms(1,2)] by blast
  obtain row where row: "the_row m (ap_id snap) = Some row" "ap_version row = ap_version snap"
    "gw_approvals db = (gw_approvals (mc_db m))(ap_id snap \<mapsto> set_columns act now snap row)"
    using assms(3) by (rule commitE)
  have "row = snap" by (rule gwo.read_still_current [OF m0(1,2) row(1,2)])
  then show ?thesis using row(1,3) read_again_row [OF _ m0(3), of "mc_db m"] m0(2) by simp
qed

text \<open>
  C8. An approval is consumed only when everybody on its path approved: in every reachable state, for each node of a
  consumed approval's chain some transaction of the history approved it while it was the current node, by a viewer
  entitled to that node (or with authentication off).
\<close>

theorem consumed_approved_by_everyone:
  assumes "gw_step\<^sup>*\<^sup>* start m" and "the_row m k = Some a" and "ap_status a = ''consumed''" and "i < length (ap_chain a)"
  shows "approved_at (mc_log m) k i (ap_chain a ! i)"
  using machine_okD(2) [OF run_ok [OF assms(1)] assms(2)] assms(3,4) by (simp add: history_ok_def)

text \<open>
  A closed approval is final: once it is rejected, consumed or withdrawn, no request, receipt or owner assignment
  changes its row again.
\<close>

theorem closed_approvals_final:
  assumes "gw_step\<^sup>*\<^sup>* m m'" and "the_row m k = Some a" and "ap_status a \<noteq> ''pending''"
  shows "the_row m' k = Some a"
  using assms by (rule run_closed)

section \<open>The operations, run alone\<close>

lemma fulfil_decided: "fulfil stage a db = Inr (f, db') \<Longrightarrow> gw_decided db' = gw_decided db"
  by (auto simp: fulfil_def split: if_splits sum.splits)

lemma commit_decided: "commit act now snap db = Inr db' \<Longrightarrow> gw_decided db' = gw_decided db"
  by (auto simp: commit_def discard_draft_def split: option.splits if_splits action.splits)

lemma final_effect_keeps:
  "final_effect stage act snap db = Inr (f, db') \<Longrightarrow> gw_approvals db' = gw_approvals db \<and> gw_decided db' = gw_decided db"
  by (auto simp: final_effect_def dest: fulfil_rows fulfil_decided split: if_splits)

lemma finishE:
  assumes "finish_decision aid act snap f key now db = (out, db')"
  obtains (Lost) e where "commit act now snap db = Inl e" "out = Inl e" "db' = db"
  | (Missing) "commit act now snap db = Inr db'" "gw_approvals db' aid = None" "out = Inl (KeyError aid)"
  | (Done) db2 row where "commit act now snap db = Inr db2" "gw_approvals db2 aid = Some row"
      "out = Inr \<lparr>rs_row = row, rs_outcome = outcome_of act f, rs_replayed = False\<rparr>"
      "db' = (if key = [] then db2 else remember aid key \<lparr>rs_row = row, rs_outcome = outcome_of act f, rs_replayed = False\<rparr> db2)"
proof (cases "commit act now snap db")
  case (Inl e)
  then have "out = Inl e" "db' = db" using assms by (simp_all add: finish_decision_def)
  then show ?thesis by (rule Lost [OF Inl])
next
  case (Inr db2)
  show ?thesis
  proof (cases "gw_approvals db2 aid")
    case None
    then have "out = Inl (KeyError aid)" "db2 = db'" using assms Inr by (simp_all add: finish_decision_def)
    then show ?thesis using Inr None by (intro Missing) simp_all
  next
    case (Some row)
    show ?thesis by (rule Done [OF Inr Some]) (use assms Inr Some in \<open>simp_all add: finish_decision_def Let_def\<close>)
  qed
qed

lemma decideE:
  assumes "decide stage aid decision actor reason version key now db = (out, db')"
  obtains (Replayed) r where "key \<noteq> []" "gw_decided db (aid, key) = Some r" "out = Inr (r\<lparr>rs_replayed := True\<rparr>)" "db' = db"
  | (Refused) e where "out = Inl e" "db' = db"
  | (Written) act snap f db1 where "decide_read db aid decision actor reason version = Inr (act, snap)"
      "final_effect stage act snap db = Inr (f, db1)" "key = [] \<or> gw_decided db (aid, key) = None"
      "finish_decision aid act snap f key now db1 = (out, db')"
proof (cases "if key = [] then None else gw_decided db (aid, key)")
  case (Some r)
  then have "key \<noteq> []" "gw_decided db (aid, key) = Some r" by (auto split: if_splits)
  then show ?thesis by (rule Replayed) (use assms in \<open>simp_all add: decide_def Some\<close>)
next
  case none: None
  then have new: "key = [] \<or> gw_decided db (aid, key) = None" by (auto split: if_splits)
  have d: "decide stage aid decision actor reason version key now db =
      (case decide_read db aid decision actor reason version of
         Inl e \<Rightarrow> (Inl e, db)
       | Inr (act, snap) \<Rightarrow>
           (case final_effect stage act snap db of
              Inl e \<Rightarrow> (Inl e, db)
            | Inr (f, db1) \<Rightarrow> finish_decision aid act snap f key now db1))"
    unfolding decide_def none by simp
  show ?thesis
  proof (cases "decide_read db aid decision actor reason version")
    case (Inl e)
    show ?thesis by (rule Refused [of e]) (use assms in \<open>simp_all add: d Inl\<close>)
  next
    case (Inr x)
    obtain act snap where r: "x = (act, snap)" by (cases x)
    show ?thesis
    proof (cases "final_effect stage act snap db")
      case (Inl e)
      show ?thesis by (rule Refused [of e]) (use assms in \<open>simp_all add: d Inr r Inl\<close>)
    next
      case Inr': (Inr y)
      obtain f db1 where f: "y = (f, db1)" by (cases y)
      show ?thesis by (rule Written [OF Inr [unfolded r] Inr' [unfolded f] new]) (use assms in \<open>simp add: d Inr r Inr' f\<close>)
    qed
  qed
qed

text \<open>
  C15. A decision under an idempotency key is made once: after a request that ran alone has succeeded, the same key on the same
  approval gives the stored answer, marked as a replay, and changes nothing, whatever decision, actor, reason and version come
  with it.  (The receipt is written outside the transaction of the compare-and-set, so this is not a statement on two requests at once.)
\<close>

theorem decision_replays:
  assumes "decide stage aid decision actor reason version key now db = (Inr r, db')" and "key \<noteq> []"
  shows "decide stage' aid decision' actor' reason' version' key now' db' = (Inr (r\<lparr>rs_replayed := True\<rparr>), db')"
  using assms(1)
proof (cases rule: decideE)
  case (Replayed r0)
  then show ?thesis by (simp add: decide_def)
next
  case (Written act snap f db1)
  from Written(4) show ?thesis
  proof (cases rule: finishE)
    case (Done db2 row)
    have "gw_decided db2 (aid, key) = None"
      using Written(3) assms(2) final_effect_keeps [OF Written(2)] commit_decided [OF Done(1)] by simp
    then show ?thesis using Done(3,4) assms(2) by (simp add: decide_def remember_def)
  qed simp_all
qed simp

lemma pending_commits:
  assumes "gw_approvals db (ap_id snap) = Some snap" "ap_status snap = ''pending''"
  obtains db' where "commit act now snap db = Inr db'" "gw_approvals db' (ap_id snap) = Some (set_columns act now snap snap)"
  using assms by (simp add: commit_def)

text \<open>
  A decision that is refused leaves no trace when no other request runs in between: over rows stored under their own
  identifiers, an error of the operation is an error of its checks or of the stage service, before anything is written.
\<close>

theorem refused_decision_changes_nothing:
  assumes "decide stage aid decision actor reason version key now db = (Inl e, db')"
    and "\<forall>k a. gw_approvals db k = Some a \<longrightarrow> ap_id a = k"
  shows "db' = db"
  using assms(1)
proof (cases rule: decideE)
  case (Written act snap f db1)
  have read: "gw_approvals db aid = Some snap" "ap_status snap = ''pending''"
    using decide_read_good [OF Written(1)] by (auto simp: good_read_def)
  then have aid: "ap_id snap = aid" using assms(2) by blast
  have "gw_approvals db1 (ap_id snap) = Some snap" using read(1) aid final_effect_keeps [OF Written(2)] by simp
  then obtain x where x: "commit act now snap db1 = Inr x" "gw_approvals x (ap_id snap) = Some (set_columns act now snap snap)"
    using read(2) by (rule pending_commits)
  from Written(4) show ?thesis by (cases rule: finishE) (use x aid in simp_all)
qed auto

text \<open>
  Nobody checks whom an approval is handed to: a pending approval may be transferred to any identifier but the current
  node's own, the requester's and one of nobody included, and that identifier is then the node that decides.
\<close>

theorem transfer_takes_any_target:
  assumes "read_current db aid actor version = Inr a" and "ap_id a = aid" and "ap_index a < length (ap_chain a)"
    and "js_trim target \<noteq> []" and "Some (js_trim target) \<noteq> current_node a"
  shows "\<exists>db' a'. transferApproval aid target actor reason version now db = Inr db' \<and> gw_approvals db' aid = Some a'
    \<and> ap_status a' = ''pending'' \<and> current_node a' = Some (js_trim target)"
proof -
  have row: "gw_approvals db aid = Some a" "ap_status a = ''pending''" using read_current_Some [OF assms(1)] by auto
  obtain role where r: "transfer_read db aid target actor reason version = Inr (Transfer (js_trim target) role reason, a)"
    using assms(1,4,5) by (simp add: transfer_read_def Let_def)
  obtain db' where db': "commit (Transfer (js_trim target) role reason) now a db = Inr db'"
    "gw_approvals db' aid = Some (set_columns (Transfer (js_trim target) role reason) now a a)"
    using pending_commits [of db a] row assms(2) by metis
  show ?thesis
    by (rule exI [of _ db'], rule exI [of _ "set_columns (Transfer (js_trim target) role reason) now a a"])
      (use db' r row assms(3) in \<open>simp add: transferApproval_def write_read_def Let_def current_node_def js_index_def\<close>)
qed

section \<open>The path and its steps\<close>

text \<open>The steps shown with an approval are its chain, numbered from 1.\<close>

definition path_ok :: "approval \<Rightarrow> bool" where
  "path_ok a \<longleftrightarrow>
     (case py_steps (ap_payload a) of
        None \<Rightarrow> False
      | Some ss \<Rightarrow> map pp_employee ss = ap_chain a \<and> map pp_sequence ss = [1..<Suc (length (ap_chain a))])"

lemma seq_nth: "map pp_sequence ss = [1..<Suc (length ss)] \<longleftrightarrow> (\<forall>i < length ss. pp_sequence (ss ! i) = Suc i)"
  unfolding list_eq_iff_nth_eq by (simp del: upt_Suc)

lemma renumber_keeps: "map pp_employee (map (\<lambda>s. s\<lparr>pp_sequence := pp_sequence s + 1\<rparr>) xs) = map pp_employee xs"
  by simp

lemma countersign_path:
  assumes "map pp_employee ss = chain" "map pp_sequence ss = [1..<Suc (length chain)]" "i < length chain"
  shows "map pp_employee (countersign_steps i t e ss) = take (i + 1) chain @ t # drop (i + 1) chain"
    and "map pp_sequence (countersign_steps i t e ss) = [1..<Suc (Suc (length chain))]"
proof -
  show "map pp_employee (countersign_steps i t e ss) = take (i + 1) chain @ t # drop (i + 1) chain"
    unfolding countersign_steps_def map_append list.map renumber_keeps take_map [symmetric] drop_map [symmetric] assms(1) by simp
  have len: "length ss = length chain" using assms(1) by auto
  have s: "pp_sequence (ss ! j) = Suc j" if "j < length ss" for j using assms(2) that unfolding len [symmetric] seq_nth by blast
  have i: "i < length ss" using assms(3) len by simp
  have "pp_sequence (countersign_steps i t e ss ! j) = Suc j" if j: "j < Suc (length ss)" for j
  proof -
    consider "j \<le> i" | "j = Suc i" | "Suc (Suc i) \<le> j" by linarith
    then show ?thesis
    proof cases
      case 1
      then show ?thesis using s [of j] i by (simp add: countersign_steps_def nth_append)
    next
      case 2
      then show ?thesis using i by (simp add: countersign_steps_def nth_append)
    next
      case 3
      then obtain k where "j = Suc (Suc i) + k" using le_Suc_ex by blast
      then show ?thesis using s [of "Suc i + k"] i j by (simp add: countersign_steps_def nth_append)
    qed
  qed
  moreover have "length (countersign_steps i t e ss) = Suc (length ss)" using assms(3) len by (simp add: countersign_steps_def)
  ultimately show "map pp_sequence (countersign_steps i t e ss) = [1..<Suc (Suc (length chain))]"
    using seq_nth [of "countersign_steps i t e ss"] len by simp
qed

text \<open>
  The steps an approver sees are the path that decides: every write of the gateway, a transfer and a countersign included,
  keeps the steps of the payload in line with the chain, node by node, numbered from 1 without a gap.
\<close>

theorem path_stays_aligned:
  assumes "path_ok snap" and "ap_index snap < length (ap_chain snap)"
  shows "path_ok (set_columns act now snap snap)"
proof -
  obtain ss where ss: "py_steps (ap_payload snap) = Some ss" "map pp_employee ss = ap_chain snap"
    "map pp_sequence ss = [1..<Suc (length (ap_chain snap))]"
    using assms(1) by (auto simp: path_ok_def split: option.splits)
  have len: "length ss = length (ap_chain snap)" using ss(2) by (metis length_map)
  show ?thesis
  proof (cases act)
    case (Transfer t role reason)
    have seq: "map pp_sequence (ss[i := (ss ! i)\<lparr>pp_employee := t, pp_name := n, pp_role := role\<rparr>]) = map pp_sequence ss" for i n
      by (cases "i < length ss") (simp_all add: map_update list_update_same_conv list_update_beyond)
    have emp: "map pp_employee (ss[i := (ss ! i)\<lparr>pp_employee := t, pp_name := n, pp_role := role\<rparr>]) = (map pp_employee ss)[i := t]" for i n
      by (simp add: map_update)
    show ?thesis using ss len assms(2) Transfer by (simp add: path_ok_def Let_def seq emp del: upt_Suc)
  next
    case (Countersign t e reason)
    note c = countersign_path [OF ss(2,3) assms(2), of t e]
    have "length (take (ap_index snap + 1) (ap_chain snap) @ t # drop (ap_index snap + 1) (ap_chain snap)) = Suc (length (ap_chain snap))"
      using assms(2) by simp
    then show ?thesis using c ss(1) Countersign by (simp add: path_ok_def Let_def del: upt_Suc length_append)
  qed (use assms(1) ss in \<open>simp_all add: path_ok_def\<close>)
qed

end
