(* ===== verification/Approval_Runs.thy ===== *)
theory Approval_Runs
  imports Approval_Claims
begin

text \<open>
  Concrete approvals and runs of the gateway: a stage approval with one node that is decided while its submitter withdraws
  it, the repair of an orphaned node, and the witnesses of the properties over the gateway.
\<close>

section \<open>A stage approval\<close>

definition open_session :: session where
  "open_session = \<lparr>se_auth_disabled = True, se_user = None\<rparr>"

definition one_step :: payload where
  "one_step =
     \<lparr>py_requester_name = None,
      py_steps = Some [\<lparr>pp_sequence = 1, pp_employee = ''emp_zhang'', pp_name = [24352, 24635], pp_role = [], pp_source = ''stage'',
        pp_user = None, pp_person = None\<rparr>],
      py_transfers = [], py_countersigns = [], py_reject = None, py_withdrawn = None, py_original_node = None,
      py_original_step = None, py_history = [], py_other = [(''scope'', JStr ''objects'')]\<rparr>"

definition work_of :: "string \<Rightarrow> work_input" where
  "work_of kind =
     \<lparr>wi_kind = kind, wi_brand = [], wi_amount = Finite 0, wi_draft = [], wi_payload = one_step, wi_title = [], wi_chain = [''emp_zhang'']\<rparr>"

definition row_of :: "string \<Rightarrow> approval" where
  "row_of kind = new_approval (work_of kind) ''a1'' [] 0"

definition db_of :: "string \<Rightarrow> gateway_db" where
  "db_of kind =
     empty_gateway\<lparr>gw_approvals := Map.empty(''a1'' \<mapsto> row_of kind),
       gw_cards := Map.empty(''a1'' \<mapsto> \<lparr>cd_status = ''waiting'', cd_assignee = [24352, 24635]\<rparr>)\<rparr>"

lemma row_of_fields [simp]:
  "ap_id (row_of k) = ''a1''" "ap_status (row_of k) = ''pending''" "ap_chain (row_of k) = [''emp_zhang'']" "ap_index (row_of k) = 0"
  "ap_version (row_of k) = 0" "ap_kind (row_of k) = k" "ap_payload (row_of k) = one_step" "ap_draft (row_of k) = []"
  by (simp_all add: row_of_def new_approval_def work_of_def)

lemma db_of_rows [simp]: "gw_approvals (db_of k) = Map.empty(''a1'' \<mapsto> row_of k)" "gw_decided (db_of k) = Map.empty"
    "gw_assigned (db_of k) = Map.empty" "gw_stage_writes (db_of k) = []"
  by (simp_all add: db_of_def empty_gateway_def)

lemma db_created: "createWorkApproval (work_of kind) ''a1'' [] 0 empty_gateway = Inr (Some (row_of kind), db_of kind)"
  by (simp add: createWorkApproval_def row_of_def db_of_def work_of_def empty_gateway_def one_step_def actorOf_def or_text_def Let_def)

lemma row_current [simp]: "current_node (row_of k) = Some ''emp_zhang''"
  by (simp add: current_node_def js_index_def)

lemma read_approve: "decide_read (db_of k) ''a1'' ''approve'' None None 0 = Inr (Consume, row_of k)"
  by (simp add: decide_read_def read_current_def read_pending_def given_def)

lemma read_withdraw: "withdraw_read (db_of k) ''a1'' None 0 = Inr (Withdraw None, row_of k)"
  by (simp add: withdraw_read_def read_pending_def)

text \<open>The machine after the creation, with the decision and the withdrawal checked and read.\<close>

definition both_read :: machine where
  "both_read =
     \<lparr>mc_db = db_of ''stage'', mc_checked = {(open_session, ''a1'', None)}, mc_withdrawers = {(open_session, ''a1'')},
      mc_reads = {(open_session, Withdraw None, row_of ''stage''), (open_session, Consume, row_of ''stage'')},
      mc_fulfilled = {}, mc_log = []\<rparr>"

lemma reach_both_read: "gw_step\<^sup>*\<^sup>* start both_read"
proof -
  let ?a = "row_of ''stage''"
  let ?m1 = "start\<lparr>mc_db := db_of ''stage''\<rparr>"
  let ?m2 = "?m1\<lparr>mc_checked := {(open_session, ''a1'', None)}\<rparr>"
  let ?m3 = "?m2\<lparr>mc_withdrawers := {(open_session, ''a1'')}\<rparr>"
  let ?m4 = "?m3\<lparr>mc_reads := {(open_session, Consume, ?a)}\<rparr>"
  have "gw_step start ?m1" using gw_step.Create [of "work_of ''stage''" "''a1''" "[]" 0 start "row_of ''stage''" "db_of ''stage''"]
    by (simp add: start_def db_created)
  moreover have "gw_step ?m1 ?m2"
    using gw_step.Check [of ?m1 open_session "''a1''" None None] by (simp add: may_act_on_def open_session_def start_def)
  moreover have "gw_step ?m2 ?m3"
    using gw_step.Check_Withdraw [of ?m2 open_session "''a1''"] by (simp add: may_withdraw_def open_session_def start_def)
  moreover have "reads_current (db_of ''stage'') ''a1'' None (Consume, ?a)"
    unfolding reads_current_def using read_approve by blast
  then have "gw_step ?m3 ?m4"
    using gw_step.Read [of open_session "''a1''" None ?m3 Consume ?a] by (simp add: start_def)
  moreover have "gw_step ?m4 both_read"
    using gw_step.Read_Withdraw [of open_session "''a1''" ?m4 None 0 "Withdraw None" ?a] read_withdraw by (simp add: start_def both_read_def)
  ultimately show ?thesis by (meson converse_rtranclp_into_rtranclp rtranclp.rtrancl_refl)
qed

definition stage_says :: "approval \<Rightarrow> gw_error + bool" where
  "stage_says a = Inr False"

definition fulfilled :: machine where
  "fulfilled = both_read\<lparr>mc_db := (db_of ''stage'')\<lparr>gw_stage_writes := [row_of ''stage'']\<rparr>, mc_fulfilled := {row_of ''stage''}\<rparr>"

lemma reach_fulfilled: "gw_step\<^sup>*\<^sup>* start fulfilled"
proof -
  have "fulfil stage_says (row_of ''stage'') (mc_db both_read) = Inr (StageWritten True, (db_of ''stage'')\<lparr>gw_stage_writes := [row_of ''stage'']\<rparr>)"
    by (simp add: fulfil_def both_read_def stage_says_def)
  then have "gw_step both_read fulfilled"
    using gw_step.Fulfil [of open_session "row_of ''stage''" both_read stage_says] by (simp add: fulfilled_def) (simp add: both_read_def)
  then show ?thesis using reach_both_read by (meson rtranclp.rtrancl_into_rtrancl)
qed

lemma fulfilled_parts [simp]:
  "gw_approvals (mc_db fulfilled) = Map.empty(''a1'' \<mapsto> row_of ''stage'')" "mc_fulfilled fulfilled = {row_of ''stage''}" "mc_log fulfilled = []"
  "mc_reads fulfilled = {(open_session, Withdraw None, row_of ''stage''), (open_session, Consume, row_of ''stage'')}"
  "gw_stage_writes (mc_db fulfilled) = [row_of ''stage'']"
  by (simp_all add: fulfilled_def both_read_def)

lemma commit_stage_writes: "commit act now snap db = Inr db' \<Longrightarrow> gw_stage_writes db' = gw_stage_writes db"
  by (auto simp: commit_def discard_draft_def split: option.splits if_splits action.splits)

lemma finish_fulfilled:
  assumes "(open_session, act, row_of ''stage'') \<in> mc_reads fulfilled"
  obtains m where "gw_step\<^sup>*\<^sup>* start m" "the_row m ''a1'' = Some (set_columns act 1 (row_of ''stage'') (row_of ''stage''))"
    "mc_log m = [(open_session, act, row_of ''stage'')]" "gw_stage_writes (mc_db m) = [row_of ''stage'']"
proof -
  obtain db where db: "commit act 1 (row_of ''stage'') (mc_db fulfilled) = Inr db"
    "gw_approvals db ''a1'' = Some (set_columns act 1 (row_of ''stage'') (row_of ''stage''))"
    using pending_commits [of "mc_db fulfilled" "row_of ''stage''" act 1] by auto
  have "gw_step fulfilled (fulfilled\<lparr>mc_db := db, mc_log := [(open_session, act, row_of ''stage'')]\<rparr>)"
    using gw_step.Commit [OF assms _ db(1)] by simp
  then have "gw_step\<^sup>*\<^sup>* start (fulfilled\<lparr>mc_db := db, mc_log := [(open_session, act, row_of ''stage'')]\<rparr>)"
    using reach_fulfilled by (meson rtranclp.rtrancl_into_rtrancl)
  then show ?thesis by (rule that) (use db commit_stage_writes [OF db(1)] in simp_all)
qed

text \<open>
  C17. The side effect of a final approval is not covered by the compare-and-set: there is a run in which the stage service
  has carried out a final approval while the approval itself ends withdrawn by its submitter, with no approval in its
  history.
\<close>

theorem stage_written_though_withdrawn:
  "\<exists>m a snap. gw_step\<^sup>*\<^sup>* start m \<and> the_row m ''a1'' = Some a \<and> ap_status a = ''withdrawn'' \<and> ap_kind a = ''stage''
    \<and> gw_stage_writes (mc_db m) = [snap] \<and> ap_id snap = ''a1'' \<and> mc_log m = [(open_session, Withdraw None, snap)]"
proof -
  have "(open_session, Withdraw None, row_of ''stage'') \<in> mc_reads fulfilled" by simp
  then obtain m where m: "gw_step\<^sup>*\<^sup>* start m" "the_row m ''a1'' = Some (set_columns (Withdraw None) 1 (row_of ''stage'') (row_of ''stage''))"
    "mc_log m = [(open_session, Withdraw None, row_of ''stage'')]" "gw_stage_writes (mc_db m) = [row_of ''stage'']"
    by (rule finish_fulfilled)
  show ?thesis
    by (rule exI [of _ m], rule exI [of _ "set_columns (Withdraw None) 1 (row_of ''stage'') (row_of ''stage'')"], rule exI [of _ "row_of ''stage''"])
      (use m in simp)
qed

section \<open>Witnesses of the gateway\<close>

theorem compare_and_set_is_atomic_witness:
  "\<exists>m. gw_step\<^sup>*\<^sup>* start m \<and> the_row m ''a1'' = Some (row_of ''stage'') \<and> read_again (mc_db m) open_session (Withdraw None) (row_of ''stage'')"
proof -
  have row: "gw_approvals (mc_db both_read) (ap_id (row_of ''stage'')) = Some (row_of ''stage'')" by (simp add: both_read_def)
  obtain db where db: "commit (Withdraw None) 1 (row_of ''stage'') (mc_db both_read) = Inr db"
    using row row_of_fields(2) by (rule pending_commits)
  have "(open_session, Withdraw None, row_of ''stage'') \<in> mc_reads both_read" by (simp add: both_read_def)
  from compare_and_set_is_atomic [OF reach_both_read this db] show ?thesis using reach_both_read by auto
qed

theorem consumed_approved_by_everyone_witness:
  "\<exists>m a. gw_step\<^sup>*\<^sup>* start m \<and> the_row m ''a1'' = Some a \<and> ap_status a = ''consumed'' \<and> approved_at (mc_log m) ''a1'' 0 ''emp_zhang''"
proof -
  have "(open_session, Consume, row_of ''stage'') \<in> mc_reads fulfilled" by simp
  then obtain m where m: "gw_step\<^sup>*\<^sup>* start m" "the_row m ''a1'' = Some (set_columns Consume 1 (row_of ''stage'') (row_of ''stage''))"
    by (rule finish_fulfilled)
  from consumed_approved_by_everyone [OF m, of 0] show ?thesis using m by auto
qed

theorem closed_approvals_final_witness:
  "\<exists>m m' a. gw_step\<^sup>*\<^sup>* start m \<and> gw_step m m' \<and> the_row m ''a1'' = Some a \<and> ap_status a = ''consumed'' \<and> the_row m' ''a1'' = Some a"
proof -
  have "(open_session, Consume, row_of ''stage'') \<in> mc_reads fulfilled" by simp
  then obtain m where m: "gw_step\<^sup>*\<^sup>* start m" "the_row m ''a1'' = Some (set_columns Consume 1 (row_of ''stage'') (row_of ''stage''))"
    by (rule finish_fulfilled)
  let ?a = "set_columns Consume 1 (row_of ''stage'') (row_of ''stage'')"
  obtain m' where m': "gw_step m m'" using gw_step.Created by blast
  have "the_row m' ''a1'' = Some ?a" by (rule closed_approvals_final [OF r_into_rtranclp [of gw_step, OF m'] m(2)]) simp
  then show ?thesis using m m' by (intro exI [of _ m] exI [of _ m'] exI [of _ ?a]) simp
qed

text \<open>Decisions run alone.\<close>

lemma alone_consumes:
  "decide stage_says ''a1'' ''approve'' None None 0 ''k1'' 5 (db_of ''expense'') =
    (let a = set_columns Consume 5 (row_of ''expense'') (row_of ''expense''); r = \<lparr>rs_row = a, rs_outcome = FulfilledWith NoStage, rs_replayed = False\<rparr> in
     (Inr r, snd (decide stage_says ''a1'' ''approve'' None None 0 ''k1'' 5 (db_of ''expense''))))"
  by (simp add: decide_def final_effect_def fulfil_def finish_decision_def commit_def read_approve Let_def discard_draft_def)

theorem decision_replays_witness:
  "\<exists>r db'. decide stage_says ''a1'' ''approve'' None None 0 ''k1'' 5 (db_of ''expense'') = (Inr r, db')
    \<and> decide stage_says ''a1'' ''reject'' None None 9 ''k1'' 6 db' = (Inr (r\<lparr>rs_replayed := True\<rparr>), db')"
proof -
  obtain r db' where d: "decide stage_says ''a1'' ''approve'' None None 0 ''k1'' 5 (db_of ''expense'') = (Inr r, db')"
    using alone_consumes by (metis (no_types, lifting))
  from decision_replays [OF d] d show ?thesis by simp
qed

theorem refused_decision_changes_nothing_witness:
  "\<exists>e db'. decide stage_says ''a1'' ''approve'' None None 7 ''k1'' 5 (db_of ''stage'') = (Inl e, db') \<and> db' = db_of ''stage''"
proof -
  have "decide stage_says ''a1'' ''approve'' None None 7 ''k1'' 5 (db_of ''stage'') = (Inl stale, db_of ''stage'')"
    by (simp add: decide_def decide_read_def read_current_def read_pending_def)
  from refused_decision_changes_nothing [OF this] this show ?thesis by auto
qed

theorem transfer_takes_any_target_witness:
  "\<exists>db' a'. transferApproval ''a1'' ''nobody'' None None 0 5 (db_of ''expense'') = Inr db' \<and> gw_approvals db' ''a1'' = Some a'
    \<and> current_node a' = Some ''nobody''"
proof -
  have read: "read_current (db_of ''expense'') ''a1'' None 0 = Inr (row_of ''expense'')"
    by (simp add: read_current_def read_pending_def given_def)
  have trim: "js_trim ''nobody'' = ''nobody''" by (simp add: js_trim_def js_space_def)
  show ?thesis using transfer_takes_any_target [OF read, of "''nobody''" None 5] unfolding trim by auto
qed

theorem path_stays_aligned_witness: "path_ok (set_columns (Transfer ''emp_wang'' [] None) 5 (row_of ''stage'') (row_of ''stage''))"
  by (rule path_stays_aligned) (simp_all add: path_ok_def one_step_def)

section \<open>Accounts\<close>

definition account :: "utext \<Rightarrow> utext list \<Rightarrow> app_user" where
  "account name roles =
     \<lparr>us_id = ''u1'', us_username = [], us_name = name, us_handle = [], us_active = True, us_admin = False, us_roles = roles\<rparr>"

theorem canonical_node_is_personal_witness:
  "canDecideCurrent \<lparr>se_auth_disabled = False, se_user = Some (account [] [])\<rparr> (Some (USER_PREFIX @ ''u1''))
    \<and> \<not> canDecideCurrent \<lparr>se_auth_disabled = False, se_user = Some (account [] [])\<rparr> (Some (USER_PREFIX @ ''u2''))"
  using canonical_node_is_personal [of "\<lparr>se_auth_disabled = False, se_user = Some (account [] [])\<rparr>"] by (simp add: account_def)

lemma default_first: "default_employees = zhang # tl default_employees"
  unfolding zhang_def by (metis default_length hd_Cons_tl hd_conv_nth list.size(3) zero_neq_numeral)

lemma zhang_name: "em_name zhang = [24352, 24635]" "em_mailboxes zhang = []"
proof -
  have hd_field: "f zhang = hd (map f default_employees)" for f :: "employee \<Rightarrow> utext" by (subst default_first) simp
  have hd_field': "f zhang = hd (map f default_employees)" for f :: "employee \<Rightarrow> utext list" by (subst default_first) simp
  have boxes: "em_mailboxes (staff i n d p m c b r ms x) = map ascii_text ms" for i n d p m c b r ms x by (simp add: staff_def)
  show "em_name zhang = [24352, 24635]" unfolding hd_field by (simp only: default_employees_def list.map list.sel staff_fields)
  show "em_mailboxes zhang = []" unfolding hd_field' by (simp only: default_employees_def list.map list.sel boxes)
qed

lemma zhang_account: "employeeForUser (Some (account [24352, 24635] roles)) = Some zhang"
proof -
  have trim: "text_trim (or_empty (Some [24352, 24635])) = [24352, 24635]" by (simp add: or_empty_def text_trim_def js_space_def)
  show ?thesis unfolding employeeForUser_def employeeByName_def Let_def option.case
    by (subst default_staff, subst default_first) (simp add: account_def trim zhang_name or_else_def)
qed

theorem own_name_role_decides_any_node_witness:
  "canDecideCurrent \<lparr>se_auth_disabled = False, se_user = Some (account [24352, 24635] [[24352, 24635]])\<rparr> (Some ''emp_finance'')"
proof -
  have role: "em_name zhang \<in> set (us_roles (account [24352, 24635] [[24352, 24635]]))" unfolding zhang_name by (simp add: account_def)
  show ?thesis
    by (rule own_name_role_decides_any_node [OF _ _ _ zhang_account role]) (simp_all add: account_def USER_PREFIX_def)
qed

definition sample_directory :: directory where
  "sample_directory =
     \<lparr>dy_users = [\<lparr>du_id = ''u1'', du_name = [], du_username = None, du_email = None, du_active = True\<rparr>],
      dy_people = [\<lparr>dp_ref = ''p1'', dp_active = True, dp_user = Some ''u1'', dp_user_ref = None\<rparr>], dy_bindings = []\<rparr>"

definition sample_assign :: assign_input where
  "sample_assign =
     \<lparr>ai_approval = ''a1'', ai_target = ''u1'', ai_reason = [], ai_version = 0, ai_key = ''k1'', ai_actor = ''u0''\<rparr>"

lemma sample_trims: "js_trim ''emp_zhang'' = ''emp_zhang''" "js_trim ''pending'' = ''pending''" "js_trim ''ontology_change'' = ''ontology_change''"
  "js_trim ''objects'' = ''objects''" "js_trim ''p1'' = ''p1''"
  by (simp_all add: js_trim_def js_space_def)

lemma sample_prepare:
  "\<exists>u person payload. assign_prepare sample_directory sample_assign 5 (row_of ''ontology_change'') = Inr (u, person, payload)"
proof -
  have current: "current_trimmed (row_of ''ontology_change'') = ''emp_zhang''" by (simp add: current_trimmed_def sample_trims)
  have guard: "assign_guard sample_assign (row_of ''ontology_change'') = None"
    by (simp add: assign_guard_def Let_def sample_trims in_objects_scope_def one_step_def js_field_def isCanonicalUserNode_def USER_PREFIX_def sample_assign_def)
  have orphan: "assertLegacyNodeIsOrphan sample_directory ''emp_zhang'' 5 = Inr ()"
    by (simp add: assertLegacyNodeIsOrphan_def sample_directory_def account_matches_def Let_def zhang_name)
  have target: "\<exists>u. activeTarget sample_directory (ai_target sample_assign) = Inr (u, ''p1'')"
    by (simp add: activeTarget_def sample_directory_def sample_assign_def sample_trims)
  then show ?thesis
    by (auto simp: assign_prepare_def guard current orphan assignedOwnerPayload_def one_step_def Let_def)
qed

theorem assignment_repairs_one_node_witness:
  "\<exists>r db' a'. assignCurrentOwner sample_directory sample_assign 5 (db_of ''ontology_change'') = Inr (r, db')
    \<and> gw_approvals db' ''a1'' = Some a' \<and> ap_chain a' = [USER_PREFIX @ ''u1''] \<and> ap_status a' = ''pending''"
proof -
  have fields: "ai_approval sample_assign = ''a1''" "ai_target sample_assign = ''u1''" by (simp_all add: sample_assign_def)
  obtain u person payload where "assign_prepare sample_directory sample_assign 5 (row_of ''ontology_change'') = Inr (u, person, payload)"
    using sample_prepare by blast
  then obtain r db' where r: "assignCurrentOwner sample_directory sample_assign 5 (db_of ''ontology_change'') = Inr (r, db')" "\<not> ar_replayed r"
    by (simp add: assignCurrentOwner_def fields)
  from assignment_repairs_one_node [OF this] obtain a' where "gw_approvals db' ''a1'' = Some a'"
    "ap_chain a' = [USER_PREFIX @ ''u1'']" "ap_status a' = ''pending''" by (auto simp: fields)
  then show ?thesis using r by blast
qed

end
