(* ===== verification/Approval_Cited.thy ===== *)
theory Approval_Cited
  imports Approval_Sample
begin

text \<open>
  The plan of an expense from searched citations, \<open>tryCitedApprovalPlan\<close> of \<open>approval/plan.ts\<close>: the item an agent
  returns names the exchange rate, the policy and the people of the chain; with citations it takes the place of the rule
  engine.  An item is JSON; the records hold the fields the code reads, as text or numbers, or absent.
\<close>

section \<open>Citations\<close>

record raw_citation =
  rc_id :: "utext option"
  rc_pair :: "utext option"
  rc_rate :: "js_number option"
  rc_title :: "utext option"
  rc_as_of :: "utext option"
  rc_source_title :: "utext option"
  rc_source_url :: "utext option"
  rc_quote :: "utext option"

record search_citation =
  ct_id :: utext
  ct_pair :: utext
  ct_rate :: "js_number option"
  ct_title :: utext
  ct_as_of :: utext
  ct_source_url :: utext
  ct_quote :: utext

text \<open>\<open>Number\<close> of a number or of \<open>undefined\<close>.\<close>

definition number_or_nan :: "js_number option \<Rightarrow> js_number" where
  "number_or_nan x = (case x of None \<Rightarrow> NotANumber | Some r \<Rightarrow> r)"

definition positive :: "js_number \<Rightarrow> bool" where
  "positive r \<longleftrightarrow> js_is_finite r \<and> js_less (Finite 0) r"

definition trimmed :: "utext option \<Rightarrow> utext" where
  "trimmed x = text_trim (or_empty x)"

definition citationOf :: "raw_citation option \<Rightarrow> search_citation option" where
  "citationOf raw =
     (case raw of
        None \<Rightarrow> None
      | Some row \<Rightarrow>
          (let source_url = trimmed (rc_source_url row); quote = trimmed (rc_quote row);
               source_title = text_trim (or_text (rc_source_title row) (or_empty (rc_title row)));
               i = trimmed (rc_id row); rate = number_or_nan (rc_rate row) in
           if source_url = [] \<and> quote = [] \<and> source_title = [] \<and> i = [] \<and> \<not> js_is_finite rate then None
           else Some \<lparr>ct_id = i, ct_pair = trimmed (rc_pair row), ct_rate = (if positive rate then Some rate else None),
                      ct_title = source_title, ct_as_of = trimmed (rc_as_of row), ct_source_url = source_url, ct_quote = quote\<rparr>))"

definition web_address :: "utext \<Rightarrow> bool" where
  "web_address u \<longleftrightarrow> js_lower (take 7 u) = ascii_text ''http://'' \<or> js_lower (take 8 u) = ascii_text ''https://''"

definition hasSearchCitation :: "raw_citation option \<Rightarrow> bool" where
  "hasSearchCitation raw =
     (case citationOf raw of None \<Rightarrow> False | Some cite \<Rightarrow> web_address (ct_source_url cite) \<or> 8 \<le> length (ct_quote cite))"

section \<open>The chain\<close>

record raw_chain_row =
  rr_name :: "utext option"
  rr_employee :: "string option"
  rr_id :: "string option"
  rr_role :: "utext option"
  rr_source :: "string option"

record chain_row =
  cw_name :: utext
  cw_employee :: string
  cw_role :: "utext option"
  cw_source :: "string option"

definition some_text :: "'a list option \<Rightarrow> 'a list option" where
  "some_text x = (if x = Some [] then None else x)"

definition chain_row_of :: "raw_chain_row \<Rightarrow> chain_row option" where
  "chain_row_of row =
     (let name = trimmed (rr_name row);
          employee = js_trim (case or_else (some_text (rr_employee row)) (rr_id row) of None \<Rightarrow> [] | Some s \<Rightarrow> s) in
      if name = [] \<and> employee = [] then None
      else Some \<lparr>cw_name = name, cw_employee = employee, cw_role = some_text (rr_role row), cw_source = some_text (rr_source row)\<rparr>)"

definition readCitedChain :: "raw_chain_row list option \<Rightarrow> chain_row list" where
  "readCitedChain raw = (case raw of None \<Rightarrow> [] | Some rows \<Rightarrow> List.map_filter chain_row_of rows)"

record cited_item =
  ci_fx :: "raw_citation option"
  ci_policy :: "raw_citation option"
  ci_currency :: "utext option"
  ci_fx_rate :: "js_number option"
  ci_chain :: "raw_chain_row list option"
  ci_steps :: "raw_chain_row list option"
  ci_amount_cny :: "js_number option"
  ci_amount_base :: "js_number option"
  ci_rule_id :: "utext option"
  ci_business_type :: "utext option"

definition cited_person :: "org_snapshot \<Rightarrow> chain_row \<Rightarrow> employee option" where
  "cited_person org row = or_else (employeeById org (Some (cw_employee row))) (employeeByName org (Some (cw_name row)))"

definition cited_step :: "approval_step list \<Rightarrow> chain_row \<Rightarrow> employee \<Rightarrow> approval_step" where
  "cited_step steps row p =
     \<lparr>ps_sequence = length steps + 1, ps_employee = em_id p, ps_name = em_name p,
      ps_role = (case cw_role row of None \<Rightarrow> em_position p | Some r \<Rightarrow> r),
      ps_source = (case cw_source row of None \<Rightarrow> ''codex_search'' | Some s \<Rightarrow> s)\<rparr>"

text \<open>The loop over the rows; nothing when somebody is not in the organisation.\<close>

fun cited_steps :: "org_snapshot \<Rightarrow> approval_step list \<Rightarrow> string list \<Rightarrow> chain_row list \<Rightarrow> approval_step list option" where
  "cited_steps org steps used [] = Some steps"
| "cited_steps org steps used (row # rows) =
     (case cited_person org row of
        None \<Rightarrow> None
      | Some p \<Rightarrow>
          if em_id p \<in> set used then cited_steps org steps used rows
          else cited_steps org (steps @ [cited_step steps row p]) (em_id p # used) rows)"

section \<open>The plan\<close>

definition cents :: "js_number \<Rightarrow> js_number" where
  "cents x = js_over (js_Math_round (js_times x (Finite 100))) 100"

definition cited_amount :: "cited_item \<Rightarrow> js_number \<Rightarrow> js_number \<Rightarrow> js_number" where
  "cited_amount item amount rate =
     (let cited = number_or_nan (or_else (ci_amount_cny item) (ci_amount_base item)) in
      if positive cited then cents cited else cents (js_times amount rate))"

definition cited_rule :: "cited_item \<Rightarrow> search_citation \<Rightarrow> utext" where
  "cited_rule item cite = text_trim (or_text (Some (ct_id cite)) (or_text (ci_rule_id item) (or_text (Some (ct_title cite)) (ascii_text ''searched-policy''))))"

definition cited_currency :: "cited_item \<Rightarrow> plan_input \<Rightarrow> utext" where
  "cited_currency item input = normalizeCurrency (Some (or_text (pi_currency input) (or_text (ci_currency item) (ascii_text ''CNY''))))"

text \<open>The checks on the citations: the rate and the citation of the policy, when both are good.\<close>

definition citations_ok :: "cited_item \<Rightarrow> plan_input \<Rightarrow> (js_number \<times> search_citation) option" where
  "citations_ok item input =
     (case (citationOf (ci_fx item), citationOf (ci_policy item)) of
        (Some fx, Some policy) \<Rightarrow>
          (let rate = number_or_nan (or_else (ct_rate fx) (ci_fx_rate item));
               cnyOk = (cited_currency item input = ascii_text ''CNY'' \<and> (rate = Finite 1 \<or> \<not> js_is_finite rate)) in
           if \<not> cnyOk \<and> (\<not> hasSearchCitation (ci_fx item) \<or> \<not> positive rate) then None
           else if \<not> hasSearchCitation (ci_policy item) then None
           else Some (if cited_currency item input = ascii_text ''CNY'' then Finite 1 else rate, policy))
      | _ \<Rightarrow> None)"

definition cited_plan :: "cited_item \<Rightarrow> plan_input \<Rightarrow> search_citation \<Rightarrow> js_number \<Rightarrow> employee \<Rightarrow> approval_step list \<Rightarrow> approval_plan" where
  "cited_plan item input policy rate requester steps =
     \<lparr>pn_policy_id = or_text (Some (ct_title policy)) (cited_rule item policy), pn_rule_id = cited_rule item policy,
      pn_business_type = or_text (pi_business_type input) (or_text (ci_business_type item) (ascii_text ''marketing_expense'')),
      pn_amount = pi_amount input, pn_currency = cited_currency item input, pn_amount_base = cited_amount item (pi_amount input) rate,
      pn_currency_base = ascii_text ''CNY'', pn_fx_rate = rate, pn_requester_id = em_id requester,
      pn_requester_name = em_name requester, pn_steps = steps, pn_blocked = None\<rparr>"

definition cited_rows :: "cited_item \<Rightarrow> chain_row list" where
  "cited_rows item = readCitedChain (if ci_chain item \<noteq> None then ci_chain item else ci_steps item)"

definition tryCitedApprovalPlan :: "org_snapshot \<Rightarrow> cited_item \<Rightarrow> plan_input \<Rightarrow> approval_plan option" where
  "tryCitedApprovalPlan org item input =
     (case citations_ok item input of
        None \<Rightarrow> None
      | Some (rate, policy) \<Rightarrow>
          if cited_rows item = [] then None
           else case resolveRequester org input of
               None \<Rightarrow> Some (emptyPlan EXPENSE_POLICY input [] None [] (''unknown_requester'', ascii_text ''requester not in org''))
             | Some requester \<Rightarrow>
                 if \<not> positive (pi_amount input) then None
                 else case cited_steps org [] [] (cited_rows item) of
                     None \<Rightarrow> Some (emptyPlan EXPENSE_POLICY input (cited_rule item policy) (Some requester) []
                               (''unknown_approver'', ascii_text ''approver not in org binding''))
                   | Some steps \<Rightarrow> if steps = [] then None else Some (cited_plan item input policy rate requester steps))"

section \<open>What a cited chain guarantees\<close>

lemma cited_person_Some: "cited_person org row = Some p \<Longrightarrow> p \<in> set (og_employees org)"
  by (auto simp: cited_person_def or_else_def employeeByName_def Let_def find_Some_iff split: option.splits if_splits
      dest: employeeById_Some(1))

lemma cited_steps_Some:
  assumes "cited_steps org steps used rows = Some out" and "set used = set (map ps_employee steps)"
    and "map ps_sequence steps = [1..<Suc (length steps)]"
  shows "list_all (\<lambda>row. cited_person org row \<noteq> None) rows
    \<and> map ps_employee out = map ps_employee steps @ js_uniq_from used (map (\<lambda>row. em_id (the (cited_person org row))) rows)
    \<and> map ps_sequence out = [1..<Suc (length out)]"
  using assms
proof (induction rows arbitrary: steps used)
  case (Cons row rows)
  obtain p where p: "cited_person org row = Some p" using Cons.prems(1) by (auto split: option.splits)
  show ?case
  proof (cases "em_id p \<in> set used")
    case True
    then have "cited_steps org steps used rows = Some out" using Cons.prems(1) p by simp
    from Cons.IH [OF this Cons.prems(2,3)] show ?thesis using True p by simp
  next
    case False
    let ?steps = "steps @ [cited_step steps row p]"
    have run: "cited_steps org ?steps (em_id p # used) rows = Some out" using Cons.prems(1) p False by simp
    have "set (em_id p # used) = set (map ps_employee ?steps)" using Cons.prems(2) by (simp add: cited_step_def)
    moreover have "map ps_sequence ?steps = [1..<Suc (length ?steps)]" using Cons.prems(3) by (simp add: cited_step_def)
    ultimately show ?thesis using Cons.IH [OF run] False p by (simp add: cited_step_def)
  qed
qed auto

lemma cited_planE:
  assumes "tryCitedApprovalPlan org item input = Some plan" and "pn_blocked plan = None"
  obtains rate policy requester steps where "citations_ok item input = Some (rate, policy)" "resolveRequester org input = Some requester"
    "positive (pi_amount input)" "steps \<noteq> []"
    "cited_steps org [] [] (cited_rows item) = Some steps"
    "plan = cited_plan item input policy rate requester steps"
  using assms by (auto simp: tryCitedApprovalPlan_def Let_def emptyPlan_def split: option.splits if_splits prod.splits)

text \<open>
  A cited chain is taken as it is given: when the citations make a plan, its approvers are the people of the item's
  chain, each once and in the item's order, all of them employees of the organisation; nobody is added or left out, be it
  the requester, somebody who is absent or outside the scope, or the general manager.
\<close>

theorem cited_chain_is_taken:
  assumes "tryCitedApprovalPlan org item input = Some plan" and "pn_blocked plan = None"
  shows "map ps_employee (pn_steps plan) = js_uniq (map (\<lambda>row. em_id (the (cited_person org row))) (cited_rows item))
    \<and> (\<forall>row \<in> set (cited_rows item). \<exists>p \<in> set (og_employees org). cited_person org row = Some p)
    \<and> map ps_sequence (pn_steps plan) = [1..<Suc (length (pn_steps plan))] \<and> pn_steps plan \<noteq> []"
  using assms
proof (rule cited_planE)
  fix rate policy requester steps
  assume c: "cited_steps org [] [] (cited_rows item) = Some steps"
    "plan = cited_plan item input policy rate requester steps" "steps \<noteq> []"
  have "list_all (\<lambda>row. cited_person org row \<noteq> None) (cited_rows item)
      \<and> map ps_employee steps = js_uniq (map (\<lambda>row. em_id (the (cited_person org row))) (cited_rows item))
      \<and> map ps_sequence steps = [1..<Suc (length steps)]"
    using cited_steps_Some [OF c(1)] by (simp add: js_uniq_def del: upt_Suc)
  moreover have "pn_steps plan = steps" by (simp add: c(2) cited_plan_def)
  ultimately show ?thesis using c(3) cited_person_Some by (fastforce simp: list_all_iff simp del: upt_Suc)
qed

section \<open>An agent's item\<close>

definition quoted :: raw_citation where
  "quoted =
     \<lparr>rc_id = None, rc_pair = None, rc_rate = None, rc_title = None, rc_as_of = None, rc_source_title = None,
      rc_source_url = None, rc_quote = Some (ascii_text ''FIN-EXP-001'')\<rparr>"

definition sample_item :: "string \<Rightarrow> cited_item" where
  "sample_item i =
     \<lparr>ci_fx = Some quoted, ci_policy = Some quoted, ci_currency = None, ci_fx_rate = None,
      ci_chain = Some [\<lparr>rr_name = None, rr_employee = Some i, rr_id = None, rr_role = None, rr_source = None\<rparr>], ci_steps = None,
      ci_amount_cny = None, ci_amount_base = None, ci_rule_id = None, ci_business_type = None\<rparr>"

lemma sample_citation: "citationOf (Some quoted) = Some \<lparr>ct_id = [], ct_pair = [], ct_rate = None, ct_title = [], ct_as_of = [],
    ct_source_url = [], ct_quote = ascii_text ''FIN-EXP-001''\<rparr>"
  by (simp add: citationOf_def quoted_def trimmed_def or_empty_def or_text_def text_trim_def js_space_def ascii_text_def
      number_or_nan_def positive_def Let_def)

lemma sample_citations: "citations_ok (sample_item i) (sample_request j a) = Some (Finite 1, the (citationOf (Some quoted)))"
proof -
  have "normalizeCurrency (Some (ascii_text ''CNY'')) = ascii_text ''CNY''"
    by (simp add: normalizeCurrency_def ascii_text_def text_trim_def js_space_def js_upper_def upper_unit_def)
  then show ?thesis
    by (simp add: citations_ok_def sample_item_def cited_currency_def sample_request_def or_text_def hasSearchCitation_def
        sample_citation number_or_nan_def or_else_def ascii_text_def Let_def)
qed

lemma sample_rows: "js_trim i = i \<Longrightarrow> i \<noteq> [] \<Longrightarrow>
    cited_rows (sample_item i) = [\<lparr>cw_name = [], cw_employee = i, cw_role = None, cw_source = None\<rparr>]"
  by (simp add: cited_rows_def readCitedChain_def sample_item_def chain_row_of_def some_text_def or_else_def trimmed_def or_empty_def text_trim_def
      Let_def List.map_filter_simps)

lemma sample_cited:
  "\<exists>plan. tryCitedApprovalPlan defaultOrgSnapshot (sample_item ''emp_lintong'') (sample_request ''emp_lintong'' (Finite 30000)) = Some plan
    \<and> pn_blocked plan = None \<and> pn_requester_id plan = ''emp_lintong'' \<and> map ps_employee (pn_steps plan) = [''emp_lintong'']"
proof -
  have trim: "js_trim ''emp_lintong'' = ''emp_lintong''" by (simp add: js_trim_def js_space_def)
  have "pi_amount (sample_request i a) = a" for i a by (simp add: sample_request_def)
  then show ?thesis
    by (simp add: tryCitedApprovalPlan_def sample_citations sample_rows [OF trim] sample_requester positive_def cited_person_def
        or_else_def cited_step_def cited_plan_def)
qed

lemma js_uniq_from_seen: "\<forall>x \<in> set xs. x \<in> set seen \<Longrightarrow> js_uniq_from seen xs = []"
  by (induction seen xs rule: js_uniq_from.induct) auto

lemma js_uniq_only: "xs \<noteq> [] \<Longrightarrow> \<forall>x \<in> set xs. x = r \<Longrightarrow> js_uniq xs = [r]"
  by (cases xs) (simp_all add: js_uniq_def js_uniq_from_seen)

text \<open>
  C14. On the path of the citations requesters approve their own expenses: whenever the chain of the
  item names the requester, the plan that is made has the requester among its approvers, and when
  the chain names nobody else the requester is its only approver.  (The rule engine never asks the
  requester, which is C9; for the expense of the witness it asks the promotion leader, the general
  manager and the finance owner.)
\<close>

theorem cited_requester_approves_alone:
  assumes "tryCitedApprovalPlan org item input = Some plan" and "pn_blocked plan = None"
    and "row \<in> set (cited_rows item)" and "map_option em_id (cited_person org row) = Some (pn_requester_id plan)"
  shows "pn_requester_id plan \<in> set (map ps_employee (pn_steps plan))
    \<and> ((\<forall>other \<in> set (cited_rows item). map_option em_id (cited_person org other) = Some (pn_requester_id plan))
        \<longrightarrow> map ps_employee (pn_steps plan) = [pn_requester_id plan])"
proof -
  have "map ps_employee (pn_steps plan) = js_uniq (map (\<lambda>row. em_id (the (cited_person org row))) (cited_rows item))"
    using assms(1,2)
  proof (rule cited_planE)
    fix rate policy requester steps
    assume c: "cited_steps org [] [] (cited_rows item) = Some steps" "plan = cited_plan item input policy rate requester steps"
    show ?thesis using cited_steps_Some [OF c(1)] by (simp add: c(2) cited_plan_def js_uniq_def del: upt_Suc)
  qed
  then have steps: "map ps_employee (pn_steps plan) = js_uniq (map (\<lambda>row. em_id (the (cited_person org row))) (cited_rows item))" .
  have who: "em_id (the (cited_person org other)) = pn_requester_id plan"
    if "map_option em_id (cited_person org other) = Some (pn_requester_id plan)" for other
    using that by auto
  have "pn_requester_id plan \<in> (\<lambda>row. em_id (the (cited_person org row))) ` set (cited_rows item)"
    using who [OF assms(4)] assms(3) by (metis imageI)
  then have "pn_requester_id plan \<in> set (map ps_employee (pn_steps plan))"
    unfolding steps by simp
  moreover have "map ps_employee (pn_steps plan) = [pn_requester_id plan]"
    if "\<forall>other \<in> set (cited_rows item). map_option em_id (cited_person org other) = Some (pn_requester_id plan)"
    unfolding steps using that who assms(3) by (intro js_uniq_only) auto
  ultimately show ?thesis by blast
qed

theorem cited_requester_approves_alone_witness:
  "\<exists>plan engine. tryCitedApprovalPlan defaultOrgSnapshot (sample_item ''emp_lintong'') (sample_request ''emp_lintong'' (Finite 30000)) = Some plan
    \<and> pn_requester_id plan = ''emp_lintong'' \<and> map ps_employee (pn_steps plan) = [''emp_lintong'']
    \<and> calculateApprovalPlan defaultOrgSnapshot EXPENSE_POLICY (sample_request ''emp_lintong'' (Finite 30000)) = Inr engine
    \<and> map ps_employee (pn_steps engine) = [''emp_wang'', ''emp_zhang'', ''emp_finance'']"
proof (rule exE [OF sample_cited], elim conjE, rule sample_planE)
  fix plan engine
  assume plan: "tryCitedApprovalPlan defaultOrgSnapshot (sample_item ''emp_lintong'') (sample_request ''emp_lintong'' (Finite 30000)) = Some plan"
    "pn_blocked plan = None" "pn_requester_id plan = ''emp_lintong''"
    and engine: "calculateApprovalPlan defaultOrgSnapshot EXPENSE_POLICY (sample_request ''emp_lintong'' (Finite 30000)) = Inr engine"
      "map ps_employee (pn_steps engine) = [''emp_wang'', ''emp_zhang'', ''emp_finance'']"
  have trim: "js_trim ''emp_lintong'' = ''emp_lintong''" by (simp add: js_trim_def js_space_def)
  note rows = sample_rows [OF trim, simplified]
  have "map_option em_id (cited_person defaultOrgSnapshot \<lparr>cw_name = [], cw_employee = ''emp_lintong'', cw_role = None, cw_source = None\<rparr>)
      = Some ''emp_lintong''"
    by (simp add: cited_person_def sample_requester or_else_def)
  then have "map ps_employee (pn_steps plan) = [''emp_lintong'']"
    using cited_requester_approves_alone [OF plan(1,2)] plan(3) unfolding rows by simp
  with plan(1,3) engine show ?thesis by (intro exI [of _ plan] exI [of _ engine] conjI)
qed

theorem cited_chain_is_taken_witness:
  "\<exists>plan. tryCitedApprovalPlan defaultOrgSnapshot (sample_item ''emp_lintong'') (sample_request ''emp_lintong'' (Finite 30000)) = Some plan
    \<and> map ps_sequence (pn_steps plan) = [1]"
proof (rule exE [OF sample_cited], elim conjE)
  fix plan
  assume plan: "tryCitedApprovalPlan defaultOrgSnapshot (sample_item ''emp_lintong'') (sample_request ''emp_lintong'' (Finite 30000)) = Some plan"
    "pn_blocked plan = None" "map ps_employee (pn_steps plan) = [''emp_lintong'']"
  have "length (map ps_employee (pn_steps plan)) = 1" unfolding plan(3) by simp
  then have "length (pn_steps plan) = 1" by simp
  then show ?thesis using cited_chain_is_taken [OF plan(1,2)] plan(1) by simp
qed

end
