(* ===== verification/Crawl_Queue.thy ===== *)
theory Crawl_Queue
  imports Jobs
begin

text \<open>
  The queue of remote collections, \<open>crawl/runtime-gates.ts\<close>: one remote crawler serves one collection at a time, the others
  wait in \<open>runtime_crawl_jobs\<close>.  Execution jobs of the types \<open>crawler.starter\<close>, \<open>monitor\<close>, \<open>reconcile\<close> and \<open>sweep\<close>
  move a collection along; they are jobs of the model \<open>Jobs\<close>, in the same state.

  An SQL statement outside a transaction, or a transaction, is one function, checked against the unique index
  \<open>runtime_crawl_instance_active\<close>.  The sections under the advisory lock of an instance and the handlers are put together
  from these: as functions they are what the section or handler does when nothing comes in between, and \<open>Crawl_Steps\<close> has the
  statements one by one, in any order.  A handler that awaits the remote service is split there as well; what the remote answers
  is an argument.  The clock, the identifiers, the rows locked by others and \<open>jsonb\<close> equality are in \<open>env\<close>.
  Context, arguments and receipts of a collection, and who may act on it, are left out.
\<close>

section \<open>Tables\<close>

datatype crawl_state = Waiting | Starting | Active | Stopping | Unsure | Done | Broken | Dropped

record crawl =
  cr_id :: string
  cr_instance :: string
  cr_actor :: string
  cr_task :: "string option"
  cr_state :: crawl_state
  cr_error :: "string option"
  cr_created :: int
  cr_updated :: int

record crawl_config =
  cf_depth :: nat
  cf_wait :: int
  cf_fast :: int
  cf_slow_after :: int
  cf_slow :: int
  cf_monitor_max :: int
  cf_reconcile :: int
  cf_uncertain_max :: int
  cf_no_task_max :: int

definition default_config :: crawl_config where
  "default_config =
     \<lparr>cf_depth = 20, cf_wait = 24 * 60 * 60 * 1000, cf_fast = 5000, cf_slow_after = 10 * 60 * 1000, cf_slow = 30000,
      cf_monitor_max = 2 * 60 * 60 * 1000, cf_reconcile = 5 * 60 * 1000, cf_uncertain_max = 24 * 60 * 60 * 1000,
      cf_no_task_max = 60 * 60 * 1000\<rparr>"

record env =
  ev_config :: crawl_config
  ev_now :: int
  ev_ids :: "string \<Rightarrow> string \<times> string"
  ev_jsonb :: "string \<Rightarrow> string \<Rightarrow> bool"
  ev_locked :: "string list"

record crawl_db =
  cq_crawls :: "crawl list"
  cq_legacy :: bool
  cq_jobs :: job_db

datatype crawl_error = UniqueViolation | DuplicateCrawl | JobFailure job_error | RefusedCode string

type_synonym 'a answer = "(crawl_error + 'a) \<times> crawl_db"

section \<open>Statements\<close>

definition and_then :: "'a answer \<Rightarrow> ('a \<Rightarrow> crawl_db \<Rightarrow> 'b answer) \<Rightarrow> 'b answer" where
  "and_then x f = (case x of (Inl e, s) \<Rightarrow> (Inl e, s) | (Inr v, s) \<Rightarrow> f v s)"

text \<open>A transaction: an error rolls back.\<close>

definition in_tx :: "(crawl_db \<Rightarrow> 'a answer) \<Rightarrow> crawl_db \<Rightarrow> 'a answer" where
  "in_tx f s = (case f s of (Inl e, s') \<Rightarrow> (Inl e, s) | r \<Rightarrow> r)"

definition occupies :: "crawl \<Rightarrow> bool" where
  "occupies c \<longleftrightarrow> cr_state c \<in> {Starting, Active, Stopping, Unsure}"

definition index_ok :: "crawl list \<Rightarrow> bool" where
  "index_ok cs \<longleftrightarrow> distinct (map cr_instance (filter occupies cs))"

definition update_crawls :: "(crawl \<Rightarrow> bool) \<Rightarrow> (crawl \<Rightarrow> crawl) \<Rightarrow> crawl_db \<Rightarrow> bool answer" where
  "update_crawls P f s =
     (let cs = map (\<lambda>c. if P c then f c else c) (cq_crawls s) in
      if index_ok cs then (Inr (list_ex P (cq_crawls s)), s\<lparr>cq_crawls := cs\<rparr>) else (Inl UniqueViolation, s))"

definition insert_crawl :: "crawl \<Rightarrow> crawl_db \<Rightarrow> unit answer" where
  "insert_crawl c s =
     (if list_ex (\<lambda>x. cr_id x = cr_id c) (cq_crawls s) then (Inl DuplicateCrawl, s)
      else if index_ok (cq_crawls s @ [c]) then (Inr (), s\<lparr>cq_crawls := cq_crawls s @ [c]\<rparr>) else (Inl UniqueViolation, s))"

definition mark :: "crawl_state \<Rightarrow> string option \<Rightarrow> int \<Rightarrow> crawl \<Rightarrow> crawl" where
  "mark st err now c =
     c\<lparr>cr_state := st, cr_error := (case err of None \<Rightarrow> cr_error c | Some x \<Rightarrow> Some x), cr_updated := now\<rparr>"

definition crawl_at :: "crawl_db \<Rightarrow> string \<Rightarrow> crawl option" where
  "crawl_at s i = find (\<lambda>c. cr_id c = i) (cq_crawls s)"

definition hasActiveRuntimeCrawl :: "string \<Rightarrow> crawl_db \<Rightarrow> bool" where
  "hasActiveRuntimeCrawl k s = list_ex (\<lambda>c. cr_instance c = k \<and> occupies c) (cq_crawls s)"

definition waits :: "string \<Rightarrow> crawl \<Rightarrow> bool" where
  "waits k c \<longleftrightarrow> cr_instance c = k \<and> cr_state c = Waiting"

definition queueDepth :: "string \<Rightarrow> crawl_db \<Rightarrow> nat" where
  "queueDepth k s = length (filter (waits k) (cq_crawls s))"

definition queue_order :: "crawl \<Rightarrow> int \<times> string" where
  "queue_order c = (cr_created c, cr_id c)"

definition crawlQueuePosition :: "string \<Rightarrow> crawl \<Rightarrow> crawl_db \<Rightarrow> nat" where
  "crawlQueuePosition k c s = length (filter (\<lambda>q. waits k q \<and> queue_order q \<le> queue_order c) (cq_crawls s))"

section \<open>Dispatch of jobs\<close>

definition crawl_ref :: "string \<Rightarrow> string" where
  "crawl_ref i = ''{\"crawl_id\":\"'' @ i @ ''\"}''"

definition instance_ref :: "string \<Rightarrow> string" where
  "instance_ref k = ''{\"instance_key\":\"'' @ k @ ''\"}''"

definition crawl_job :: "string \<Rightarrow> string \<Rightarrow> string \<Rightarrow> string \<Rightarrow> string \<Rightarrow> rat \<Rightarrow> int option \<Rightarrow> job_input" where
  "crawl_job type actor key object payload attempts next =
     \<lparr>ji_type = type, ji_tenant = ''runtime'', ji_actor = actor, ji_key = key, ji_object = Some object, ji_ticket = None,
      ji_run = None, ji_trigger = None, ji_rule = None, ji_rule_version = None, ji_risk = Some Low, ji_scope = None,
      ji_priority = None, ji_max_attempts = Some attempts, ji_next_attempt_at = next, ji_payload = Some payload, ji_outbox = None\<rparr>"

definition enqueue :: "env \<Rightarrow> bool \<Rightarrow> job_input \<Rightarrow> crawl_db \<Rightarrow> bool answer" where
  "enqueue e dedup input s =
     (case pgEnqueueExecutionJob (ev_jsonb e) input dedup (fst (ev_ids e (ji_type input))) (snd (ev_ids e (ji_type input))) (ev_now e) (cq_jobs s) of
        Inl err \<Rightarrow> (Inl (JobFailure err), s)
      | Inr ((j, created), jobs) \<Rightarrow> (Inr created, s\<lparr>cq_jobs := jobs\<rparr>))"

definition monitor_delay :: "env \<Rightarrow> crawl \<Rightarrow> int" where
  "monitor_delay e c =
     (if ev_now e - cr_created c < cf_slow_after (ev_config e) then cf_fast (ev_config e) else cf_slow (ev_config e))"

definition monitor_input :: "env \<Rightarrow> crawl \<Rightarrow> nat \<Rightarrow> job_input" where
  "monitor_input e c n =
     crawl_job ''crawler.monitor'' (cr_actor c) (''crawler-monitor:'' @ cr_id c @ '':'' @ show_nat n) (crawl_ref (cr_id c))
       (''{\"crawl_id\":\"'' @ cr_id c @ ''\",\"sequence\":'' @ show_nat n @ ''}'') 4 (Some (ev_now e + monitor_delay e c))"

definition enqueueMonitor :: "env \<Rightarrow> crawl \<Rightarrow> nat \<Rightarrow> crawl_db \<Rightarrow> bool answer" where
  "enqueueMonitor e c n = enqueue e False (monitor_input e c n)"

text \<open>The key of a reconciliation ends with the clock.\<close>

definition reconcile_input :: "env \<Rightarrow> string \<Rightarrow> string \<Rightarrow> job_input" where
  "reconcile_input e i actor =
     crawl_job ''crawler.reconcile'' actor (''crawler-reconcile:'' @ i @ '':'' @ show_nat (nat (ev_now e))) (crawl_ref i) (crawl_ref i)
       3 (Some (ev_now e + cf_reconcile (ev_config e)))"

definition enqueueReconcile :: "env \<Rightarrow> crawl \<Rightarrow> crawl_db \<Rightarrow> bool answer" where
  "enqueueReconcile e c = enqueue e True (reconcile_input e (cr_id c) (cr_actor c))"

definition sweep_key :: "string \<Rightarrow> string" where
  "sweep_key k = ''crawler-sweep:'' @ k"

definition ensureSweepScheduled :: "env \<Rightarrow> string \<Rightarrow> string \<Rightarrow> crawl_db \<Rightarrow> bool answer" where
  "ensureSweepScheduled e k actor =
     enqueue e True (crawl_job ''crawler.sweep'' actor (sweep_key k) (instance_ref k) (instance_ref k) 3 (Some (ev_now e + 60 * 60 * 1000)))"

definition enqueueCrawlResults :: "env \<Rightarrow> crawl \<Rightarrow> crawl_db \<Rightarrow> bool answer" where
  "enqueueCrawlResults e c =
     enqueue e True (crawl_job ''crawler.results'' (cr_actor c) (''crawler-results:'' @ cr_id c @ '':initial'') (crawl_ref (cr_id c)) (crawl_ref (cr_id c)) 3 None)"

definition starter_key :: "string \<Rightarrow> string" where
  "starter_key i = ''crawler-starter:'' @ i"

definition starter_input :: "env \<Rightarrow> crawl \<Rightarrow> job_input" where
  "starter_input e c =
     crawl_job ''crawler.starter'' (cr_actor c) (starter_key (cr_id c)) (crawl_ref (cr_id c)) (crawl_ref (cr_id c)) 3 (Some (ev_now e))"

section \<open>The queue\<close>

definition overdue :: "env \<Rightarrow> string \<Rightarrow> crawl \<Rightarrow> bool" where
  "overdue e k c \<longleftrightarrow> waits k c \<and> cr_created c < ev_now e - cf_wait (ev_config e)"

definition cancel_overdue :: "env \<Rightarrow> string \<Rightarrow> crawl_db \<Rightarrow> bool answer" where
  "cancel_overdue e k = update_crawls (overdue e k) (mark Dropped (Some ''queue_timeout'') (ev_now e))"

definition queue_head :: "env \<Rightarrow> string \<Rightarrow> crawl_db \<Rightarrow> crawl option" where
  "queue_head e k s =
     (case sort_key queue_order (filter (\<lambda>c. waits k c \<and> cr_id c \<notin> set (ev_locked e)) (cq_crawls s)) of [] \<Rightarrow> None | c # _ \<Rightarrow> Some c)"

definition dispatch_head :: "env \<Rightarrow> string \<Rightarrow> crawl_db \<Rightarrow> bool answer" where
  "dispatch_head e k s =
     (if hasActiveRuntimeCrawl k s \<or> cq_legacy s then (Inr False, s)
      else case queue_head e k s of None \<Rightarrow> (Inr False, s) | Some c \<Rightarrow> enqueue e True (starter_input e c) s)"

text \<open>Whether a starter was dispatched is the answer.\<close>

definition drainCrawlQueue :: "env \<Rightarrow> string \<Rightarrow> crawl_db \<Rightarrow> bool answer" where
  "drainCrawlQueue e k = in_tx (\<lambda>s. and_then (cancel_overdue e k s) (\<lambda>_. dispatch_head e k))"

datatype gate_answer = Reserved | QueuedAt nat

definition new_crawl :: "env \<Rightarrow> crawl_state \<Rightarrow> string \<Rightarrow> string \<Rightarrow> string \<Rightarrow> crawl" where
  "new_crawl e st i k actor =
     \<lparr>cr_id = i, cr_instance = k, cr_actor = actor, cr_task = None, cr_state = st, cr_error = None, cr_created = ev_now e, cr_updated = ev_now e\<rparr>"

text \<open>
  The gate \<open>start_crawl\<close> under the lock: what it reads, and what it then writes: the reservation of the crawler with its
  monitor, in a transaction, or a place in the queue.
\<close>

datatype gate_plan = GateReserves | GateFull | GateQueues nat

definition gate_check :: "env \<Rightarrow> string \<Rightarrow> crawl_db \<Rightarrow> gate_plan" where
  "gate_check e k s =
     (let busy = (hasActiveRuntimeCrawl k s \<or> cq_legacy s); depth = queueDepth k s in
      if \<not> busy \<and> depth = 0 then GateReserves
      else if cf_depth (ev_config e) \<le> depth then GateFull
      else GateQueues depth)"

definition gate_reserve :: "env \<Rightarrow> string \<Rightarrow> string \<Rightarrow> string \<Rightarrow> crawl_db \<Rightarrow> gate_answer answer" where
  "gate_reserve e i k actor =
     in_tx (\<lambda>s. and_then (insert_crawl (new_crawl e Starting i k actor) s)
              (\<lambda>_ s. and_then (enqueueMonitor e (new_crawl e Starting i k actor) 0 s) (\<lambda>_ s. (Inr Reserved, s))))"

definition insert_waiting :: "env \<Rightarrow> string \<Rightarrow> string \<Rightarrow> string \<Rightarrow> crawl_db \<Rightarrow> unit answer" where
  "insert_waiting e i k actor = insert_crawl (new_crawl e Waiting i k actor)"

definition start_gate :: "env \<Rightarrow> string \<Rightarrow> string \<Rightarrow> string \<Rightarrow> crawl_db \<Rightarrow> gate_answer answer" where
  "start_gate e i k actor s =
     (case gate_check e k s of
        GateReserves \<Rightarrow> gate_reserve e i k actor s
      | GateFull \<Rightarrow> (Inl (RefusedCode ''runtime_probe_crawl_busy''), s)
      | GateQueues depth \<Rightarrow>
          and_then (insert_waiting e i k actor s)
            (\<lambda>_ s. and_then (ensureSweepScheduled e k actor s) (\<lambda>_ s. (Inr (QueuedAt (depth + 1)), s))))"

text \<open>What the gate writes after the remote answered, or did not.\<close>

definition start_receipt :: "env \<Rightarrow> string \<Rightarrow> string \<Rightarrow> crawl_db \<Rightarrow> bool answer" where
  "start_receipt e i task =
     update_crawls (\<lambda>c. cr_id c = i \<and> cr_state c = Starting) (\<lambda>c. (mark Active None (ev_now e) c)\<lparr>cr_task := Some task\<rparr>)"

definition start_lost :: "env \<Rightarrow> string \<Rightarrow> crawl_db \<Rightarrow> bool answer" where
  "start_lost e i = update_crawls (\<lambda>c. cr_id c = i) (mark Unsure (Some ''start_outcome_unknown'') (ev_now e))"

definition enqueueSystemCrawl :: "env \<Rightarrow> string \<Rightarrow> string \<Rightarrow> string \<Rightarrow> crawl_db \<Rightarrow> bool answer" where
  "enqueueSystemCrawl e i k actor s =
     and_then
       (if list_ex (\<lambda>c. cr_id c = i) (cq_crawls s) then (Inr True, s)
        else if cf_depth (ev_config e) \<le> queueDepth k s then (Inl (RefusedCode ''crawl_queue_full''), s)
        else and_then (insert_waiting e i k actor s)
               (\<lambda>_ s. and_then (ensureSweepScheduled e k actor s) (\<lambda>_ s. (Inr False, s))))
       (\<lambda>duplicate s. if duplicate then (Inr True, s) else and_then (drainCrawlQueue e k s) (\<lambda>_ s. (Inr False, s)))"

end
