(* ===== verification/Crawl_Handlers.thy ===== *)
theory Crawl_Handlers
  imports Crawl_Queue
begin

text \<open>
  The handlers of the collection jobs in \<open>crawl/runtime-gates.ts\<close> and the operations of \<open>runtime/action-operations.ts\<close> on a
  collection.  A handler reads the row, then awaits the remote service, then writes: each write is a function of the row it
  read (\<open>c\<close>) and of the remote answer, on the tables as they are then.  The statements and transactions a handler writes with
  have names of their own; the handler puts them together as if nothing came in between.
\<close>

section \<open>Starter\<close>

datatype starter_answer = NotQueued | Rejected | InstanceBusy | Adopted

text \<open>Reading the row; \<open>valid\<close> is the answer of the revalidation.\<close>

definition reject_write :: "env \<Rightarrow> crawl \<Rightarrow> crawl_db \<Rightarrow> bool answer" where
  "reject_write e c =
     update_crawls (\<lambda>x. cr_id x = cr_id c \<and> cr_state x = Waiting) (mark Dropped (Some ''queue_start_rejected'') (ev_now e))"

definition starter_reject :: "env \<Rightarrow> crawl \<Rightarrow> crawl_db \<Rightarrow> starter_answer answer" where
  "starter_reject e c s =
     and_then (reject_write e c s)
       (\<lambda>_ s. and_then (drainCrawlQueue e (cr_instance c) s) (\<lambda>_ s. (Inr Rejected, s)))"

text \<open>The adoption, under the lock of the instance: a check, and then a statement.\<close>

definition adopt_write :: "env \<Rightarrow> crawl \<Rightarrow> crawl_db \<Rightarrow> bool answer" where
  "adopt_write e c = update_crawls (\<lambda>x. cr_id x = cr_id c \<and> cr_state x = Waiting) (mark Starting None (ev_now e))"

definition adopt :: "env \<Rightarrow> crawl \<Rightarrow> crawl_db \<Rightarrow> bool answer" where
  "adopt e c s = (if hasActiveRuntimeCrawl (cr_instance c) s then (Inr False, s) else adopt_write e c s)"

definition starter_adopt :: "env \<Rightarrow> crawl \<Rightarrow> crawl_db \<Rightarrow> starter_answer answer" where
  "starter_adopt e c s =
     and_then (adopt e c s)
       (\<lambda>adopted s. if \<not> adopted then (Inr InstanceBusy, s) else and_then (enqueueMonitor e c 0 s) (\<lambda>_ s. (Inr Adopted, s)))"

definition starterHandler :: "env \<Rightarrow> bool \<Rightarrow> string \<Rightarrow> crawl_db \<Rightarrow> starter_answer answer" where
  "starterHandler e valid i s =
     (case crawl_at s i of
        None \<Rightarrow> (Inr NotQueued, s)
      | Some c \<Rightarrow>
          if cr_state c \<noteq> Waiting then (Inr NotQueued, s)
          else if \<not> valid then starter_reject e c s else starter_adopt e c s)"

definition failed_write :: "env \<Rightarrow> crawl \<Rightarrow> crawl_db \<Rightarrow> bool answer" where
  "failed_write e c =
     update_crawls (\<lambda>x. cr_id x = cr_id c \<and> cr_state x = Starting) (mark Unsure (Some ''start_outcome_unknown'') (ev_now e))"

definition starter_failed :: "env \<Rightarrow> crawl \<Rightarrow> crawl_db \<Rightarrow> bool answer" where
  "starter_failed e c s = and_then (failed_write e c s) (\<lambda>_. enqueueReconcile e c)"

section \<open>Remote states\<close>

definition remote_terminal :: "crawl_state \<Rightarrow> string \<Rightarrow> bool \<Rightarrow> crawl_state option" where
  "remote_terminal st remote failed =
     (if remote = ''idle'' then Some (if failed then Broken else if st = Stopping then Dropped else Done)
      else if remote \<in> {''completed'', ''done'', ''succeeded''} then Some Done
      else if remote \<in> {''failed'', ''error'', ''timeout'', ''timed_out''} then Some Broken
      else if remote \<in> {''stopped'', ''cancelled'', ''canceled''} then Some Dropped
      else None)"

definition with_results :: "env \<Rightarrow> crawl \<Rightarrow> crawl_state \<Rightarrow> bool \<Rightarrow> crawl_db \<Rightarrow> unit answer" where
  "with_results e c st changed s =
     (if changed \<and> st \<in> {Done, Dropped} then and_then (enqueueCrawlResults e c s) (\<lambda>_ s. (Inr (), s)) else (Inr (), s))"

section \<open>Monitor\<close>

datatype monitor_plan = MonitorSkip | MonitorDeadline crawl | MonitorNoTask crawl | MonitorAsk crawl

definition monitor_read :: "env \<Rightarrow> string \<Rightarrow> crawl_db \<Rightarrow> monitor_plan" where
  "monitor_read e i s =
     (case crawl_at s i of
        None \<Rightarrow> MonitorSkip
      | Some c \<Rightarrow>
          if cr_state c \<notin> {Starting, Active, Stopping} then MonitorSkip
          else if cf_monitor_max (ev_config e) < ev_now e - cr_created c then MonitorDeadline c
          else if cr_task c = None then MonitorNoTask c
          else MonitorAsk c)"

definition no_task_write :: "env \<Rightarrow> crawl \<Rightarrow> crawl_db \<Rightarrow> bool answer" where
  "no_task_write e c =
     update_crawls (\<lambda>x. cr_id x = cr_id c \<and> cr_task x = None) (mark Unsure (Some ''start_outcome_unknown'') (ev_now e))"

definition monitor_no_task :: "env \<Rightarrow> crawl \<Rightarrow> nat \<Rightarrow> crawl_db \<Rightarrow> bool answer" where
  "monitor_no_task e c n s =
     (if 12 \<le> n then and_then (no_task_write e c s) (\<lambda>_. enqueueReconcile e c)
      else enqueueMonitor e c (n + 1) s)"

text \<open>The remote answered: \<open>t\<close> is the terminal state, if any, \<open>timed_out\<close> whether the answer was a timeout.\<close>

definition monitored :: "env \<Rightarrow> crawl_state option \<Rightarrow> bool \<Rightarrow> crawl \<Rightarrow> crawl" where
  "monitored e t timed_out x =
     (case t of
        None \<Rightarrow> x\<lparr>cr_updated := ev_now e\<rparr>
      | Some st \<Rightarrow>
          mark st (if st = Broken then Some (if timed_out then ''runtime_crawl_timeout'' else ''runtime_crawl_failed'') else None) (ev_now e) x)"

definition monitor_tx :: "env \<Rightarrow> crawl \<Rightarrow> nat \<Rightarrow> crawl_state option \<Rightarrow> bool \<Rightarrow> crawl_db \<Rightarrow> unit answer" where
  "monitor_tx e c n t timed_out =
     in_tx (\<lambda>s. and_then
       (update_crawls (\<lambda>x. cr_id x = cr_id c \<and> cr_state x \<in> {Starting, Active, Stopping}) (monitored e t timed_out) s)
       (\<lambda>changed s. if \<not> changed then (Inr (), s)
          else case t of
              Some st \<Rightarrow> with_results e c st True s
            | None \<Rightarrow> and_then (enqueueMonitor e c (n + 1) s) (\<lambda>_ s. (Inr (), s))))"

definition monitor_store :: "env \<Rightarrow> crawl \<Rightarrow> nat \<Rightarrow> crawl_state option \<Rightarrow> bool \<Rightarrow> crawl_db \<Rightarrow> unit answer" where
  "monitor_store e c n t timed_out s =
     and_then (monitor_tx e c n t timed_out s)
       (\<lambda>_ s. if t = None then (Inr (), s) else and_then (drainCrawlQueue e (cr_instance c) s) (\<lambda>_ s. (Inr (), s)))"

text \<open>The last attempt of a monitor failed.\<close>

definition takeover_write :: "env \<Rightarrow> crawl \<Rightarrow> crawl_db \<Rightarrow> bool answer" where
  "takeover_write e c =
     update_crawls (\<lambda>x. cr_id x = cr_id c \<and> cr_state x \<in> {Starting, Active, Stopping})
       (mark Unsure (Some ''monitor_requires_takeover'') (ev_now e))"

definition monitor_takeover :: "env \<Rightarrow> crawl \<Rightarrow> crawl_db \<Rightarrow> bool answer" where
  "monitor_takeover e c s = and_then (takeover_write e c s) (\<lambda>_. enqueueReconcile e c)"

definition unsure_write :: "env \<Rightarrow> crawl \<Rightarrow> string \<Rightarrow> crawl_db \<Rightarrow> bool answer" where
  "unsure_write e c code = update_crawls (\<lambda>x. cr_id x = cr_id c \<and> occupies x) (mark Unsure (Some code) (ev_now e))"

definition auto_unsure :: "env \<Rightarrow> crawl \<Rightarrow> string \<Rightarrow> crawl_db \<Rightarrow> unit answer" where
  "auto_unsure e c code s =
     and_then (unsure_write e c code s) (\<lambda>_ s. and_then (enqueueReconcile e c s) (\<lambda>_ s. (Inr (), s)))"

definition auto_stop_tx :: "env \<Rightarrow> crawl \<Rightarrow> crawl_db \<Rightarrow> unit answer" where
  "auto_stop_tx e c =
     in_tx (\<lambda>s. and_then (update_crawls (\<lambda>x. cr_id x = cr_id c \<and> occupies x) (mark Dropped (Some ''monitor_auto_stop'') (ev_now e)) s)
              (\<lambda>changed. with_results e c Dropped changed))"

text \<open>The deadline: \<open>stopped\<close> is whether the remote confirmed the stop; an error of the writes counts as no confirmation.\<close>

definition autoStopCrawl :: "env \<Rightarrow> crawl \<Rightarrow> bool \<Rightarrow> crawl_db \<Rightarrow> unit answer" where
  "autoStopCrawl e c stopped s =
     (if cr_task c = None then auto_unsure e c ''monitor_deadline'' s
      else if \<not> stopped then auto_unsure e c ''monitor_auto_stop_failed'' s
      else case and_then (auto_stop_tx e c s)
                (\<lambda>_ s. and_then (drainCrawlQueue e (cr_instance c) s) (\<lambda>_ s. (Inr (), s))) of
          (Inl err, s') \<Rightarrow> auto_unsure e c ''monitor_auto_stop_failed'' s'
        | r \<Rightarrow> r)"

section \<open>Reconciliation\<close>

datatype remote_answer = RemoteFails | RemoteActive | RemoteEnded crawl_state

datatype reconcile_plan = ReconcileSkip | ReconcileAbandon crawl | ReconcileNoTask crawl | ReconcileAsk crawl

definition reconcile_read :: "env \<Rightarrow> string \<Rightarrow> crawl_db \<Rightarrow> reconcile_plan" where
  "reconcile_read e i s =
     (case crawl_at s i of
        None \<Rightarrow> ReconcileSkip
      | Some c \<Rightarrow>
          if cr_state c \<noteq> Unsure then ReconcileSkip
          else if cf_uncertain_max (ev_config e) < ev_now e - cr_created c then ReconcileAbandon c
          else if cr_task c = None then
            (if cf_no_task_max (ev_config e) < ev_now e - cr_created c then ReconcileAbandon c else ReconcileNoTask c)
          else ReconcileAsk c)"

definition abandon_write :: "env \<Rightarrow> crawl \<Rightarrow> crawl_db \<Rightarrow> bool answer" where
  "abandon_write e c =
     update_crawls (\<lambda>x. cr_id x = cr_id c \<and> cr_state x = Unsure) (mark Broken (Some ''monitor_abandoned'') (ev_now e))"

definition abandon :: "env \<Rightarrow> crawl \<Rightarrow> crawl_db \<Rightarrow> unit answer" where
  "abandon e c s =
     and_then (abandon_write e c s)
       (\<lambda>_ s. and_then (drainCrawlQueue e (cr_instance c) s) (\<lambda>_ s. (Inr (), s)))"

definition reconcile_tx :: "env \<Rightarrow> crawl \<Rightarrow> crawl_state \<Rightarrow> crawl_db \<Rightarrow> unit answer" where
  "reconcile_tx e c st =
     in_tx (\<lambda>s. and_then
       (update_crawls (\<lambda>x. cr_id x = cr_id c \<and> cr_state x = Unsure)
          (mark st (if st = Broken then Some ''runtime_crawl_failed'' else None) (ev_now e)) s)
       (with_results e c st))"

definition reconcile_ended :: "env \<Rightarrow> crawl \<Rightarrow> crawl_state \<Rightarrow> crawl_db \<Rightarrow> unit answer" where
  "reconcile_ended e c st s =
     and_then (reconcile_tx e c st s)
       (\<lambda>_ s. and_then (drainCrawlQueue e (cr_instance c) s) (\<lambda>_ s. (Inr (), s)))"

text \<open>An error after the remote was asked is swallowed.\<close>

definition reconcile_asked :: "env \<Rightarrow> crawl \<Rightarrow> remote_answer \<Rightarrow> crawl_db \<Rightarrow> unit answer" where
  "reconcile_asked e c r s =
     (case (case r of
              RemoteFails \<Rightarrow> (Inr (), s)
            | RemoteActive \<Rightarrow> and_then (enqueueReconcile e c s) (\<lambda>_ s. (Inr (), s))
            | RemoteEnded st \<Rightarrow> reconcile_ended e c st s) of
        (Inl err, s') \<Rightarrow> (Inr (), s')
      | x \<Rightarrow> x)"

definition reconcileHandler :: "env \<Rightarrow> string \<Rightarrow> remote_answer \<Rightarrow> crawl_db \<Rightarrow> unit answer" where
  "reconcileHandler e i r s =
     (case reconcile_read e i s of
        ReconcileSkip \<Rightarrow> (Inr (), s)
      | ReconcileAbandon c \<Rightarrow> abandon e c s
      | ReconcileNoTask c \<Rightarrow> and_then (enqueueReconcile e c s) (\<lambda>_ s. (Inr (), s))
      | ReconcileAsk c \<Rightarrow> reconcile_asked e c r s)"

section \<open>Sweep\<close>

definition stalled :: "env \<Rightarrow> string \<Rightarrow> crawl \<Rightarrow> bool" where
  "stalled e k c \<longleftrightarrow> cr_instance c = k \<and> cr_state c = Starting \<and> cr_task c = None \<and> cr_updated c < ev_now e - 30 * 60 * 1000"

definition sweep_rows :: "env \<Rightarrow> string \<Rightarrow> crawl_db \<Rightarrow> bool answer" where
  "sweep_rows e k =
     in_tx (\<lambda>s. and_then (cancel_overdue e k s) (\<lambda>_. update_crawls (stalled e k) (mark Waiting (Some ''starter_stalled'') (ev_now e))))"

definition sweepHandler :: "env \<Rightarrow> string \<Rightarrow> crawl_db \<Rightarrow> unit answer" where
  "sweepHandler e k s =
     (if k = [] then (Inr (), s)
      else and_then (sweep_rows e k s)
        (\<lambda>_ s. and_then (drainCrawlQueue e k s)
          (\<lambda>_ s. case find (waits k) (cq_crawls s) of
               None \<Rightarrow> (Inr (), s)
             | Some c \<Rightarrow> and_then (ensureSweepScheduled e k (cr_actor c) s) (\<lambda>_ s. (Inr (), s)))))"

section \<open>Stopping and cancelling\<close>

text \<open>The gate \<open>stop_crawl\<close> after the remote confirmed; \<open>idle\<close> is whether it is idle already.\<close>

definition stop_confirmed :: "env \<Rightarrow> crawl \<Rightarrow> bool \<Rightarrow> crawl_db \<Rightarrow> unit answer" where
  "stop_confirmed e c idle =
     (let st = (if idle then Dropped else Stopping) in
      in_tx (\<lambda>s. and_then (update_crawls (\<lambda>x. cr_id x = cr_id c \<and> cr_state x \<in> {Active, Stopping}) (mark st None (ev_now e)) s)
              (\<lambda>changed s. with_results e c st changed s)))"

definition stop_requested :: "env \<Rightarrow> string \<Rightarrow> crawl_db \<Rightarrow> bool answer" where
  "stop_requested e i = update_crawls (\<lambda>x. cr_id x = i \<and> cr_state x = Active) (mark Stopping None (ev_now e))"

text \<open>\<open>runtime.crawl.dequeue\<close>; an error of the drain does not matter.\<close>

definition dequeue_hit :: "string \<Rightarrow> string \<Rightarrow> crawl \<Rightarrow> bool" where
  "dequeue_hit i actor x \<longleftrightarrow> cr_id x = i \<and> cr_actor x = actor \<and> cr_state x \<in> {Waiting, Unsure}"

definition dequeue_write :: "env \<Rightarrow> string \<Rightarrow> string \<Rightarrow> crawl_db \<Rightarrow> bool answer" where
  "dequeue_write e i actor =
     update_crawls (dequeue_hit i actor)
       (\<lambda>x. mark Dropped (Some (if cr_state x = Unsure then ''uncertain_cancelled_by_user'' else ''queue_cancelled_by_user'')) (ev_now e) x)"

definition dequeue :: "env \<Rightarrow> string \<Rightarrow> string \<Rightarrow> crawl_db \<Rightarrow> unit answer" where
  "dequeue e i actor s =
     and_then (dequeue_write e i actor s)
       (\<lambda>changed s'. case find (dequeue_hit i actor) (cq_crawls s) of
            None \<Rightarrow> (Inl (RefusedCode ''runtime_crawl_not_queued''), s')
          | Some c \<Rightarrow> (Inr (), snd (drainCrawlQueue e (cr_instance c) s')))"

end
