(* ===== verification/Crawl_Steps.thy ===== *)
theory Crawl_Steps
  imports Crawl_Handlers
begin

text \<open>
  Runs of the collection queue, statement by statement.  A handler, gate or operation is a sequence of statements and
  transactions, and anything may come between two of them: \<open>crawl_step\<close> is any one of them at any time, with any row that may
  have been read before.  \<open>free_step\<close> has those that take no lock; the others stand in a section under the advisory lock of an
  instance.  Two statements have no guard on the state of the row and take no lock, and are apart (\<open>late_step\<close>).
  While a section holds the lock of an instance, the others can only do what \<open>others_step\<close> has.

  The locale \<open>answer_steps\<close> is the contract of the way the statements of a handler are put together, \<open>crawl_relation\<close> the
  contract of the statements without the lock: a relation of states that each of them keeps is kept by every step.  In
  \<open>locked_relation\<close> the statements under the lock are kept as well, in \<open>unguarded_relation\<close> the two late ones.
\<close>

section \<open>Runs\<close>

inductive free_step :: "crawl_db \<Rightarrow> crawl_db \<Rightarrow> bool" where
  Receipt: "free_step s (snd (start_receipt e i t s))"
| Rejected: "free_step s (snd (reject_write e c s))"
| Failed: "free_step s (snd (failed_write e c s))"
| Monitor: "free_step s (snd (monitor_tx e c n (remote_terminal st remote failed) timed_out s))"
| Takeover: "free_step s (snd (takeover_write e c s))"
| Auto_Unsure: "free_step s (snd (unsure_write e c code s))"
| Auto_Stop: "free_step s (snd (auto_stop_tx e c s))"
| Abandon: "free_step s (snd (abandon_write e c s))"
| Reconcile: "free_step s (snd (reconcile_tx e c st s))"
| Sweep: "free_step s (snd (sweep_rows e k s))"
| Stop_Confirmed: "free_step s (snd (stop_confirmed e c idle s))"
| Stop_Requested: "free_step s (snd (stop_requested e i s))"
| Dequeue: "free_step s (snd (dequeue_write e i a s))"
| Jobs: "free_step s (s\<lparr>cq_jobs := jobs\<rparr>)"
| Legacy: "free_step s (s\<lparr>cq_legacy := b\<rparr>)"

inductive crawl_step :: "crawl_db \<Rightarrow> crawl_db \<Rightarrow> bool" where
  Free: "free_step s s' \<Longrightarrow> crawl_step s s'"
| Reserve: "crawl_step s (snd (gate_reserve e i k a s))"
| Queue: "crawl_step s (snd (insert_waiting e i k a s))"
| Drain: "crawl_step s (snd (drainCrawlQueue e k s))"
| Adopt: "crawl_step s (snd (adopt_write e c s))"

text \<open>The two statements without a guard on the state.\<close>

inductive late_step :: "crawl_db \<Rightarrow> crawl_db \<Rightarrow> bool" where
  Lost: "late_step s (snd (start_lost e i s))"
| Gives_Up: "late_step s (snd (no_task_write e c s))"

text \<open>
  What comes in between while a section holds the lock of the instance \<open>k\<close>: no section under the same lock, so nothing is
  reserved, queued or drained there, and no collection of \<open>k\<close> is adopted; and no late statement on a collection of \<open>k\<close>.
\<close>

definition of_instance :: "string \<Rightarrow> string \<Rightarrow> crawl_db \<Rightarrow> bool" where
  "of_instance k i s \<longleftrightarrow> list_ex (\<lambda>x. cr_id x = i \<and> cr_instance x = k) (cq_crawls s)"

inductive others_step :: "string \<Rightarrow> crawl_db \<Rightarrow> crawl_db \<Rightarrow> bool" for k where
  Others_Free: "free_step s s' \<Longrightarrow> others_step k s s'"
| Others_Reserve: "k' \<noteq> k \<Longrightarrow> others_step k s (snd (gate_reserve e i k' a s))"
| Others_Queue: "k' \<noteq> k \<Longrightarrow> others_step k s (snd (insert_waiting e i k' a s))"
| Others_Drain: "k' \<noteq> k \<Longrightarrow> others_step k s (snd (drainCrawlQueue e k' s))"
| Others_Adopt: "\<not> of_instance k (cr_id c) s \<Longrightarrow> others_step k s (snd (adopt_write e c s))"
| Others_Lost: "\<not> of_instance k i s \<Longrightarrow> others_step k s (snd (start_lost e i s))"
| Others_Give_Up: "\<not> of_instance k (cr_id c) s \<Longrightarrow> others_step k s (snd (no_task_write e c s))"

lemma others_step_is_step: "others_step k s s' \<Longrightarrow> sup crawl_step late_step s s'"
  by (induction rule: others_step.induct) (auto intro: crawl_step.intros late_step.intros)

definition terminal :: "crawl \<Rightarrow> bool" where
  "terminal c \<longleftrightarrow> cr_state c \<in> {Done, Broken, Dropped}"

section \<open>Composition\<close>

named_theorems keeping \<open>what a statement keeps, put together along a handler\<close>

definition stays :: "(crawl \<Rightarrow> crawl) \<Rightarrow> bool" where
  "stays f \<longleftrightarrow> (\<forall>c. cr_id (f c) = cr_id c \<and> cr_instance (f c) = cr_instance c)"

lemma stays_rules [keeping]:
  "stays (\<lambda>c. mark (st c) (err c) now c)" "stays (\<lambda>c. (mark (st c) (err c) now c)\<lparr>cr_task := t\<rparr>)" "stays (monitored e r b)"
  by (auto simp: stays_def mark_def monitored_def split: option.splits)

lemmas dispatches = enqueueMonitor_def enqueueReconcile_def ensureSweepScheduled_def enqueueCrawlResults_def

locale answer_steps =
  fixes R :: "crawl_db \<Rightarrow> crawl_db \<Rightarrow> bool"
  assumes same: "R s s" and steps: "R s1 s2 \<Longrightarrow> R s2 s3 \<Longrightarrow> R s1 s3"
    and jobs: "R s (s\<lparr>cq_jobs := jobs\<rparr>)"
begin

lemma answer [keeping]: "R s (snd (r, s))"
  by (simp add: same)

lemma next_step [keeping]: "R s (snd x) \<Longrightarrow> (\<And>v s1. R s1 (snd (f v s1))) \<Longrightarrow> R s (snd (and_then x f))"
  by (cases x; cases "fst x") (auto simp: and_then_def intro: steps)

lemma transaction [keeping]: "R s (snd (f s)) \<Longrightarrow> R s (snd (in_tx f s))"
  using same by (cases "f s"; cases "fst (f s)") (auto simp: in_tx_def)

lemma branch [keeping]: "(b \<Longrightarrow> R s (snd x)) \<Longrightarrow> (\<not> b \<Longrightarrow> R s (snd y)) \<Longrightarrow> R s (snd (if b then x else y))"
  by simp

lemma option_cases [keeping]: "R s (snd x) \<Longrightarrow> (\<And>v. R s (snd (f v))) \<Longrightarrow> R s (snd (case h of None \<Rightarrow> x | Some v \<Rightarrow> f v))"
  by (cases h) auto

lemma recover: "R s (snd x) \<Longrightarrow> (\<And>err s1. R s1 (snd (f err s1))) \<Longrightarrow> R s (snd (case x of (Inl err, s') \<Rightarrow> f err s' | r \<Rightarrow> r))"
  by (cases x; cases "fst x") (auto intro: steps)

lemma run: "step\<^sup>*\<^sup>* s s' \<Longrightarrow> (\<And>a b. step a b \<Longrightarrow> R a b) \<Longrightarrow> R s s'"
  by (induction rule: rtranclp_induct) (use same steps in blast)+

lemma enqueue_keeps [keeping]: "R s (snd (enqueue e d input s))"
  using jobs same by (auto simp: enqueue_def split: sum.splits prod.splits)

lemma dispatches_keep [keeping]:
  "R s (snd (enqueueMonitor e c n s))" "R s (snd (enqueueReconcile e c s))" "R s (snd (ensureSweepScheduled e k a s))"
  "R s (snd (enqueueCrawlResults e c s))"
  by (simp_all add: dispatches enqueue_keeps)

lemma results_keeps [keeping]: "R s (snd (with_results e c st b s))"
  unfolding with_results_def by (intro keeping)

end

section \<open>Relations the steps keep\<close>

text \<open>A row changed by a guarded statement is not finished, and it does not start to occupy the crawler.\<close>

locale crawl_relation = answer_steps +
  assumes legacy: "R s (s\<lparr>cq_legacy := b\<rparr>)"
    and update: "(\<And>c. P c \<Longrightarrow> \<not> terminal c) \<Longrightarrow> stays f \<Longrightarrow> (\<And>c. P c \<Longrightarrow> occupies (f c) \<Longrightarrow> occupies c) \<Longrightarrow>
      R s (snd (update_crawls P f s))"
begin

lemma guarded_keeps [keeping]:
  "stays f \<Longrightarrow> R s (snd (update_crawls (\<lambda>x. cr_id x = i \<and> cr_state x = Starting) f s))"
  "stays f \<Longrightarrow> R s (snd (update_crawls (\<lambda>x. cr_id x = i \<and> cr_state x = Active) f s))"
  "stays f \<Longrightarrow> R s (snd (update_crawls (\<lambda>x. cr_id x = i \<and> cr_state x = Unsure) f s))"
  "stays f \<Longrightarrow> R s (snd (update_crawls (\<lambda>x. cr_id x = i \<and> cr_state x \<in> {Active, Stopping}) f s))"
  "stays f \<Longrightarrow> R s (snd (update_crawls (\<lambda>x. cr_id x = i \<and> cr_state x \<in> {Starting, Active, Stopping}) f s))"
  "stays f \<Longrightarrow> R s (snd (update_crawls (\<lambda>x. cr_id x = i \<and> occupies x) f s))"
  "stays f \<Longrightarrow> R s (snd (update_crawls (stalled e k) f s))"
  by (rule update; auto simp: terminal_def occupies_def stalled_def)+

lemma dropped_keeps [keeping]:
  "R s (snd (update_crawls (\<lambda>x. cr_id x = i \<and> cr_state x = Waiting) (\<lambda>x. mark Dropped (err x) now x) s))"
  "R s (snd (update_crawls (dequeue_hit i a) (\<lambda>x. mark Dropped (err x) now x) s))"
  "R s (snd (update_crawls (overdue e k) (\<lambda>x. mark Dropped (err x) now x) s))"
  by (rule update; auto simp: terminal_def occupies_def overdue_def waits_def dequeue_hit_def mark_def stays_def)+

lemma queue_keeps [keeping]: "R s (snd (cancel_overdue e k s))" "R s (snd (dispatch_head e k s))"
  unfolding cancel_overdue_def dispatch_head_def by (intro keeping)+

lemma drain_keeps [keeping]: "R s (snd (drainCrawlQueue e k s))"
  unfolding drainCrawlQueue_def by (intro keeping)

lemma receipt_keeps: "R s (snd (start_receipt e i t s))"
  unfolding start_receipt_def by (intro keeping)

lemma writes_keep:
  "R s (snd (reject_write e c s))" "R s (snd (failed_write e c s))" "R s (snd (takeover_write e c s))"
  "R s (snd (unsure_write e c code s))" "R s (snd (abandon_write e c s))" "R s (snd (stop_requested e i s))"
  "R s (snd (dequeue_write e i a s))"
  unfolding reject_write_def failed_write_def takeover_write_def unsure_write_def abandon_write_def stop_requested_def dequeue_write_def
  by (intro keeping)+

lemma transactions_keep:
  "R s (snd (monitor_tx e c n t b s))" "R s (snd (auto_stop_tx e c s))" "R s (snd (reconcile_tx e c st s))"
  "R s (snd (sweep_rows e k s))" "R s (snd (stop_confirmed e c b s))"
  unfolding monitor_tx_def auto_stop_tx_def reconcile_tx_def sweep_rows_def stop_confirmed_def Let_def
  by (intro keeping)+

lemma free: "free_step s s' \<Longrightarrow> R s s'"
  by (induction rule: free_step.induct) (rule receipt_keeps writes_keep transactions_keep jobs legacy)+

end

locale locked_relation = crawl_relation +
  assumes insert_keeps [keeping]: "R s (snd (insert_crawl c s))"
    and waiting_update [keeping]: "stays f \<Longrightarrow> R s (snd (update_crawls (\<lambda>x. cr_id x = i \<and> cr_state x = Waiting) f s))"
begin

lemma sections_keep: "R s (snd (gate_reserve e i k a s))" "R s (snd (insert_waiting e i k a s))" "R s (snd (adopt_write e c s))"
  unfolding gate_reserve_def insert_waiting_def adopt_write_def by (intro keeping)+

lemma step: "crawl_step s s' \<Longrightarrow> R s s'"
  by (induction rule: crawl_step.induct) (rule free sections_keep drain_keeps | assumption)+

lemma runs: "crawl_step\<^sup>*\<^sup>* s s' \<Longrightarrow> R s s'"
  by (rule run [where step = crawl_step]) (auto intro: step)

end

locale unguarded_relation = locked_relation +
  assumes any_update: "stays f \<Longrightarrow> R s (snd (update_crawls P f s))"
begin

lemma late: "late_step s s' \<Longrightarrow> R s s'"
  by (induction rule: late_step.induct) (auto simp: start_lost_def no_task_write_def intro!: keeping any_update)

lemma any_step: "sup crawl_step late_step s s' \<Longrightarrow> R s s'"
  using step late by auto

lemma all_runs: "(sup crawl_step late_step)\<^sup>*\<^sup>* s s' \<Longrightarrow> R s s'"
  by (rule run [where step = "sup crawl_step late_step"]) (auto intro: any_step)

end

section \<open>A handler as a run\<close>

text \<open>A gate, handler or operation with nothing in between is a run of its statements.\<close>

interpretation cs: answer_steps "crawl_step\<^sup>*\<^sup>*"
  by unfold_locales (auto intro: crawl_step.Free free_step.Jobs)

lemma one_step: "crawl_step s s' \<Longrightarrow> crawl_step\<^sup>*\<^sup>* s s'"
  by (rule r_into_rtranclp)

lemmas statement_runs = crawl_step.Reserve [THEN one_step] crawl_step.Queue [THEN one_step] crawl_step.Drain [THEN one_step]
  crawl_step.Adopt [THEN one_step] free_step.intros [THEN crawl_step.Free, THEN one_step]

lemma gates_run:
  "crawl_step\<^sup>*\<^sup>* s (snd (start_gate e i k a s))" "crawl_step\<^sup>*\<^sup>* s (snd (enqueueSystemCrawl e i k a s))"
  unfolding start_gate_def enqueueSystemCrawl_def
  by (cases "gate_check e k s"; simp; intro keeping statement_runs) (intro keeping statement_runs)

lemma starter_runs:
  "crawl_step\<^sup>*\<^sup>* s (snd (starter_reject e c s))" "crawl_step\<^sup>*\<^sup>* s (snd (adopt e c s))" "crawl_step\<^sup>*\<^sup>* s (snd (starter_failed e c s))"
  unfolding starter_reject_def adopt_def starter_failed_def by (intro keeping statement_runs)+

lemma adoption_runs: "crawl_step\<^sup>*\<^sup>* s (snd (starter_adopt e c s))"
  unfolding starter_adopt_def by (intro keeping starter_runs)

lemma monitor_runs:
  "crawl_step\<^sup>*\<^sup>* s (snd (monitor_store e c n (remote_terminal st remote failed) b s))"
  "crawl_step\<^sup>*\<^sup>* s (snd (monitor_takeover e c s))" "crawl_step\<^sup>*\<^sup>* s (snd (auto_unsure e c code s))"
  unfolding monitor_store_def monitor_takeover_def auto_unsure_def by (intro keeping statement_runs)+

lemma auto_stop_runs: "crawl_step\<^sup>*\<^sup>* s (snd (autoStopCrawl e c b s))"
  unfolding autoStopCrawl_def by (intro keeping cs.recover statement_runs monitor_runs)

lemma reconcile_runs: "crawl_step\<^sup>*\<^sup>* s (snd (abandon e c s))" "crawl_step\<^sup>*\<^sup>* s (snd (reconcile_ended e c st s))"
  unfolding abandon_def reconcile_ended_def by (intro keeping statement_runs)+

lemma asked_runs: "crawl_step\<^sup>*\<^sup>* s (snd (reconcile_asked e c r s))"
  unfolding reconcile_asked_def by (cases r; simp only: remote_answer.case; intro keeping cs.recover reconcile_runs)

lemma sweep_runs: "crawl_step\<^sup>*\<^sup>* s (snd (sweepHandler e k s))"
  unfolding sweepHandler_def by (intro keeping statement_runs)

lemma dequeue_runs: "crawl_step\<^sup>*\<^sup>* s (snd (dequeue e i a s))"
  unfolding dequeue_def by (intro keeping statement_runs; simp only: snd_conv; intro statement_runs)

text \<open>The monitor of a collection without a remote task, with its late statement.\<close>

interpretation ls: answer_steps "(sup crawl_step late_step)\<^sup>*\<^sup>*"
  by unfold_locales (auto intro: crawl_step.Free free_step.Jobs)

lemma no_task_runs: "(sup crawl_step late_step)\<^sup>*\<^sup>* s (snd (monitor_no_task e c n s))"
  unfolding monitor_no_task_def by (intro keeping) (simp add: r_into_rtranclp late_step.Gives_Up)

lemma lost_runs: "(sup crawl_step late_step)\<^sup>*\<^sup>* s (snd (start_lost e i s))"
  by (simp add: r_into_rtranclp late_step.Lost)

end
