(* ===== verification/Crawl_Properties.thy ===== *)
theory Crawl_Properties
  imports Crawl_Steps
begin

text \<open>
  What holds along every run of the collection queue (\<open>Crawl_Steps\<close>): finished collections keep their rows, and a section under
  the lock of an instance is never refused by the unique index, unless a late statement came in between.
\<close>

section \<open>Finished collections\<close>

definition keeps_finished :: "crawl_db \<Rightarrow> crawl_db \<Rightarrow> bool" where
  "keeps_finished s s' \<longleftrightarrow> (\<forall>c \<in> set (cq_crawls s). terminal c \<longrightarrow> c \<in> set (cq_crawls s'))"

lemma update_finished: "(\<And>c. P c \<Longrightarrow> \<not> terminal c) \<Longrightarrow> keeps_finished s (snd (update_crawls P f s))"
  by (force simp: update_crawls_def keeps_finished_def Let_def)

interpretation kp: locked_relation keeps_finished
proof unfold_locales
  show "keeps_finished s (snd (update_crawls (\<lambda>x. cr_id x = i \<and> cr_state x = Waiting) f s))" for f i s
    by (rule update_finished) (simp add: terminal_def)
qed (simp_all add: update_finished, auto simp: insert_crawl_def keeps_finished_def)

text \<open>
  C18. A finished collection stays as it is: along every run of the guarded statements of all handlers, gates and operations, one
  by one, in any order and with any rows they read before, a collection that is done, failed or cancelled keeps its row.  (The job that fetches the results of a finished collection is not
  part of the model; it writes the results and the time of the last change.)
\<close>

theorem finished_collections_final:
  assumes "crawl_step\<^sup>*\<^sup>* s s'" and "c \<in> set (cq_crawls s)" and "terminal c"
  shows "c \<in> set (cq_crawls s')"
  using kp.runs [OF assms(1)] assms(2,3) by (auto simp: keeps_finished_def)

text \<open>A run on the empty tables, and one that fills them.\<close>

definition crawl_env :: "int \<Rightarrow> env" where
  "crawl_env now =
     \<lparr>ev_config = default_config, ev_now = now, ev_ids = (\<lambda>type. (type, ''outbox:'' @ type)),
      ev_jsonb = (=), ev_locked = []\<rparr>"

definition no_crawls :: crawl_db where
  "no_crawls = \<lparr>cq_crawls = [], cq_legacy = False, cq_jobs = \<lparr>db_jobs = [], db_outbox = []\<rparr>\<rparr>"

definition started :: crawl_db where
  "started = snd (start_gate (crawl_env 0) ''a'' ''k'' ''u'' no_crawls)"

lemma started_rows: "cq_crawls started = [new_crawl (crawl_env 0) Starting ''a'' ''k'' ''u'']"
  by code_simp

section \<open>The index\<close>

definition rows_ok :: "crawl list \<Rightarrow> bool" where
  "rows_ok cs \<longleftrightarrow> index_ok cs \<and> distinct (map cr_id cs)"

definition rows_grow :: "crawl_db \<Rightarrow> crawl_db \<Rightarrow> bool" where
  "rows_grow s s' \<longleftrightarrow>
     (rows_ok (cq_crawls s) \<longrightarrow> rows_ok (cq_crawls s')) \<and>
     (\<forall>c \<in> set (cq_crawls s). \<exists>c' \<in> set (cq_crawls s'). cr_id c' = cr_id c \<and> cr_instance c' = cr_instance c)"

lemma rows_grow_refl: "rows_grow s s"
  by (auto simp: rows_grow_def)

lemma rows_grow_trans: "rows_grow s1 s2 \<Longrightarrow> rows_grow s2 s3 \<Longrightarrow> rows_grow s1 s3"
  unfolding rows_grow_def by metis

lemma rows_grow_rows: "cq_crawls s' = cq_crawls s \<Longrightarrow> rows_grow s s'"
  by (auto simp: rows_grow_def)

lemma insert_rows_grow: "rows_grow s (snd (insert_crawl c s))"
  by (auto simp: insert_crawl_def rows_grow_def rows_ok_def list_ex_iff)

lemma rows_grow_rows_to:
  "index_ok cs' \<Longrightarrow> map cr_id cs' = map cr_id (cq_crawls s) \<Longrightarrow>
   (\<And>c. c \<in> set (cq_crawls s) \<Longrightarrow> \<exists>c' \<in> set cs'. cr_id c' = cr_id c \<and> cr_instance c' = cr_instance c) \<Longrightarrow>
   rows_grow s (s\<lparr>cq_crawls := cs'\<rparr>)"
  by (simp add: rows_grow_def rows_ok_def)

lemma update_rows_grow:
  assumes f: "stays f"
  shows "rows_grow s (snd (update_crawls P f s))"
proof -
  let ?g = "\<lambda>c. if P c then f c else c"
  have same: "cr_id (?g c) = cr_id c \<and> cr_instance (?g c) = cr_instance c" for c
    using f by (simp add: stays_def)
  then have ids: "map cr_id (map ?g cs) = map cr_id cs" for cs
    by (simp add: comp_def)
  have there: "\<exists>c' \<in> set (map ?g cs). cr_id c' = cr_id c \<and> cr_instance c' = cr_instance c" if "c \<in> set cs" for c cs
    using same [of c] imageI [OF that, of ?g] unfolding set_map by (rule bexI)
  have "rows_grow s (s\<lparr>cq_crawls := map ?g (cq_crawls s)\<rparr>)" if "index_ok (map ?g (cq_crawls s))"
    by (rule rows_grow_rows_to [OF that ids there])
  then show ?thesis
    by (simp add: update_crawls_def Let_def rows_grow_refl)
qed

interpretation gr: unguarded_relation rows_grow
proof unfold_locales
  show "rows_grow s1 s3" if "rows_grow s1 s2" "rows_grow s2 s3" for s1 s2 s3
    using that by (rule rows_grow_trans)
qed (simp_all add: rows_grow_refl rows_grow_rows insert_rows_grow update_rows_grow)

lemma index_ok_iff: "distinct cs \<Longrightarrow> index_ok cs \<longleftrightarrow> inj_on cr_instance {c \<in> set cs. occupies c}"
  by (simp add: index_ok_def distinct_map)

lemma only_row: "rows_ok cs \<Longrightarrow> x \<in> set cs \<Longrightarrow> y \<in> set cs \<Longrightarrow> cr_id x = cr_id y \<Longrightarrow> x = y"
  by (auto simp: rows_ok_def distinct_map dest: inj_onD)

lemma index_after:
  assumes "rows_ok cs" and c: "c \<in> set cs" and "distinct (map cr_id (map g cs))"
    and stay: "\<And>x. cr_instance (g x) = cr_instance x" and other: "\<And>x. x \<in> set cs \<Longrightarrow> x \<noteq> c \<Longrightarrow> g x = x"
    and free: "\<And>x. x \<in> set cs \<Longrightarrow> cr_instance x = cr_instance c \<Longrightarrow> \<not> occupies x"
  shows "index_ok (map g cs)"
proof -
  have cs: "distinct cs" "distinct (map g cs)" using assms(1) iffD1 [OF distinct_map assms(3)] by (auto simp: rows_ok_def distinct_map)
  have inj: "inj_on cr_instance {c \<in> set cs. occupies c}"
    using assms(1) index_ok_iff [OF cs(1)] by (simp add: rows_ok_def)
  have here: "z = c" if "z \<in> set cs" "occupies (g z)" "cr_instance z = cr_instance c" for z
    using that free [of z] other [of z] by metis
  have same: "x = y" if x: "x \<in> set cs" "occupies (g x)" and y: "y \<in> set cs" "occupies (g y)"
    and eq: "cr_instance x = cr_instance y" for x y
  proof (cases "x = c \<or> y = c")
    case True
    then show ?thesis using here [OF x] here [OF y] eq by metis
  next
    case False
    then have "occupies x" "occupies y" using other x y by metis+
    then show ?thesis using inj_onD [OF inj eq] x(1) y(1) by simp
  qed
  have "inj_on cr_instance {a \<in> set (map g cs). occupies a}"
  proof (rule inj_onI)
    fix a b assume "a \<in> {a \<in> set (map g cs). occupies a}" "b \<in> {a \<in> set (map g cs). occupies a}" and eq: "cr_instance a = cr_instance b"
    then obtain x y where x: "x \<in> set cs" "occupies (g x)" "a = g x" and y: "y \<in> set cs" "occupies (g y)" "b = g y"
      by auto
    have "x = y" using eq by (intro same [OF x(1,2) y(1,2)]) (simp add: x(3) y(3) stay)
    then show "a = b" by (simp add: x(3) y(3))
  qed
  then show ?thesis by (simp only: index_ok_iff [OF cs(2)])
qed

lemma adopted_index_ok:
  assumes rows: "rows_ok cs" and c: "c \<in> set cs" and f: "stays f"
    and free: "\<And>x. x \<in> set cs \<Longrightarrow> cr_instance x = cr_instance c \<Longrightarrow> \<not> occupies x"
  shows "index_ok (map (\<lambda>x. if cr_id x = cr_id c \<and> cr_state x = Waiting then f x else x) cs)" (is "index_ok (map ?g cs)")
proof (rule index_after [OF rows c _ _ _ free])
  have "map cr_id (map ?g cs) = map cr_id cs"
    using f by (simp add: comp_def stays_def)
  then show "distinct (map cr_id (map ?g cs))"
    using rows by (simp only: rows_ok_def)
qed (use f only_row [OF rows _ c] in \<open>auto simp: stays_def\<close>)

lemma busy_iff: "hasActiveRuntimeCrawl k s \<longleftrightarrow> (\<exists>x \<in> set (cq_crawls s). cr_instance x = k \<and> occupies x)"
  by (simp add: hasActiveRuntimeCrawl_def list_ex_iff)

lemma adopt_safe:
  assumes rows: "rows_ok (cq_crawls s)" and c': "c' \<in> set (cq_crawls s)" "cr_id c' = cr_id c" "cr_instance c' = cr_instance c"
    and free: "\<not> hasActiveRuntimeCrawl (cr_instance c) s"
  shows "fst (adopt_write e c s) \<noteq> Inl err"
proof -
  have "index_ok (map (\<lambda>x. if cr_id x = cr_id c' \<and> cr_state x = Waiting then mark Starting None (ev_now e) x else x) (cq_crawls s))"
    using free by (intro adopted_index_ok [OF rows c'(1) stays_rules(1)]) (auto simp: busy_iff c'(3))
  then show ?thesis by (simp add: adopt_write_def update_crawls_def Let_def c'(2))
qed

lemma insert_safe:
  assumes "index_ok (cq_crawls s)" and "occupies c \<Longrightarrow> \<not> hasActiveRuntimeCrawl (cr_instance c) s"
  shows "fst (insert_crawl c s) \<noteq> Inl UniqueViolation"
  using assms by (auto simp: insert_crawl_def index_ok_def busy_iff)

definition no_violation :: "'a answer \<Rightarrow> bool" where
  "no_violation x \<longleftrightarrow> fst x \<noteq> Inl UniqueViolation"

lemma no_violation_rules:
  "r \<noteq> Inl UniqueViolation \<Longrightarrow> no_violation (r, s)"
  "no_violation (enqueue e d input s)"
  "no_violation x \<Longrightarrow> (\<And>v s1. no_violation (f v s1)) \<Longrightarrow> no_violation (and_then x f)"
  "no_violation (g s) \<Longrightarrow> no_violation (in_tx g s)"
  "(b \<Longrightarrow> no_violation x) \<Longrightarrow> (\<not> b \<Longrightarrow> no_violation y) \<Longrightarrow> no_violation (if b then x else y)"
  "index_ok (cq_crawls s) \<Longrightarrow> (occupies c \<Longrightarrow> \<not> hasActiveRuntimeCrawl (cr_instance c) s) \<Longrightarrow> no_violation (insert_crawl c s)"
  by (auto simp: no_violation_def and_then_def in_tx_def enqueue_def insert_crawl_def index_ok_def busy_iff split: sum.splits prod.splits)

section \<open>The sections under the lock\<close>

definition frees :: "string \<Rightarrow> crawl_db \<Rightarrow> crawl_db \<Rightarrow> bool" where
  "frees k s s' \<longleftrightarrow> (hasActiveRuntimeCrawl k s' \<longrightarrow> hasActiveRuntimeCrawl k s)"

lemma update_frees:
  assumes f: "stays f" and P: "\<And>c. c \<in> set (cq_crawls s) \<Longrightarrow> P c \<Longrightarrow> cr_instance c = k \<Longrightarrow> occupies (f c) \<Longrightarrow> occupies c"
  shows "frees k s (snd (update_crawls P f s))"
proof -
  let ?g = "\<lambda>c. if P c then f c else c"
  have stay: "cr_instance (?g c) = cr_instance c" for c
    using f by (simp add: stays_def)
  have "hasActiveRuntimeCrawl k s" if "x \<in> set (cq_crawls s)" "cr_instance (?g x) = k" "occupies (?g x)" for x
    unfolding busy_iff by (rule bexI [OF _ that(1)]) (use P [OF that(1)] that(2,3) stay [of x] in \<open>auto split: if_splits\<close>)
  then have "frees k s (s\<lparr>cq_crawls := map ?g (cq_crawls s)\<rparr>)"
    by (auto simp: frees_def busy_iff [of k "s\<lparr>cq_crawls := map ?g (cq_crawls s)\<rparr>"] simp del: if_split)
  then show ?thesis
    by (simp add: update_crawls_def Let_def frees_def)
qed

interpretation fr: crawl_relation "frees k" for k
proof unfold_locales
  show "frees k s1 s3" if "frees k s1 s2" "frees k s2 s3" for s1 s2 s3
    using that by (simp add: frees_def)
qed (simp_all add: update_frees, simp_all add: frees_def hasActiveRuntimeCrawl_def)

lemma other_insert_frees: "cr_instance c \<noteq> k \<Longrightarrow> frees k s (snd (insert_crawl c s))"
  by (auto simp: frees_def insert_crawl_def busy_iff)

lemma others_free: "others_step k s s' \<Longrightarrow> frees k s s'"
proof (induction rule: others_step.induct)
  case (Others_Reserve k' e i a s)
  then show ?case
    unfolding gate_reserve_def by (intro fr.transaction fr.next_step fr.answer fr.dispatches_keep other_insert_frees) (simp add: new_crawl_def)
next
  case (Others_Queue k' e i a s)
  then show ?case by (simp add: insert_waiting_def other_insert_frees new_crawl_def)
next
  case (Others_Adopt c s e)
  then show ?case
    unfolding adopt_write_def by (intro update_frees stays_rules) (auto simp: of_instance_def list_ex_iff)
next
  case (Others_Lost i s e)
  then show ?case
    unfolding start_lost_def by (intro update_frees stays_rules) (auto simp: of_instance_def list_ex_iff)
next
  case (Others_Give_Up c s e)
  then show ?case
    unfolding no_task_write_def by (intro update_frees stays_rules) (auto simp: of_instance_def list_ex_iff)
qed (simp_all add: fr.free fr.drain_keeps)

lemma others_run: "(others_step k)\<^sup>*\<^sup>* s s' \<Longrightarrow> frees k s s' \<and> rows_grow s s'"
  using fr.run [of "others_step k" s s' k] gr.run [of "others_step k" s s'] others_free gr.any_step [OF others_step_is_step] by blast

lemma reserve_safe: "index_ok (cq_crawls s) \<Longrightarrow> \<not> hasActiveRuntimeCrawl k s \<Longrightarrow> no_violation (gate_reserve e i k a s)"
  unfolding gate_reserve_def dispatches by (intro no_violation_rules) (auto simp: new_crawl_def)

lemma waiting_safe: "index_ok (cq_crawls s) \<Longrightarrow> no_violation (insert_waiting e i k a s)"
  unfolding insert_waiting_def by (intro no_violation_rules) (auto simp: new_crawl_def occupies_def)

text \<open>
  C19. The lock of an instance serves the unique index: on every run from empty tables, when a section under the lock finds no
  active collection of the instance, and anything then comes in between that does not take that lock and is not a late statement
  on a collection of the instance, the index refuses neither the reservation of the gate, nor its place in the queue, nor the
  adoption of any collection of the instance that was read before.  The late statements have to be left out:
  \<open>late_writer_breaks_the_lock\<close> in \<open>Crawl_Outcomes\<close>.
\<close>

theorem lock_serves_the_index:
  assumes "(sup crawl_step late_step)\<^sup>*\<^sup>* no_crawls s0" and "(sup crawl_step late_step)\<^sup>*\<^sup>* s0 s1"
    and "\<not> hasActiveRuntimeCrawl k s1" and "(others_step k)\<^sup>*\<^sup>* s1 s2"
  shows "fst (gate_reserve e i k a s2) \<noteq> Inl UniqueViolation \<and> fst (insert_waiting e i k a s2) \<noteq> Inl UniqueViolation \<and>
    (\<forall>c \<in> set (cq_crawls s0). cr_instance c = k \<longrightarrow> fst (adopt_write e c s2) \<noteq> Inl UniqueViolation)"
proof -
  have s0: "rows_ok (cq_crawls s0)"
    using gr.all_runs [OF assms(1)] by (simp add: rows_grow_def no_crawls_def rows_ok_def index_ok_def)
  have grow: "rows_grow s0 s2" and free: "\<not> hasActiveRuntimeCrawl k s2"
    using rows_grow_trans gr.all_runs [OF assms(2)] others_run [OF assms(4)] assms(3) by (auto simp: frees_def)
  then have rows: "rows_ok (cq_crawls s2)"
    using s0 by (simp add: rows_grow_def)
  have "fst (adopt_write e c s2) \<noteq> Inl UniqueViolation" if "c \<in> set (cq_crawls s0)" "cr_instance c = k" for c
    using adopt_safe [OF rows] grow that free unfolding rows_grow_def by metis
  then show ?thesis
    using reserve_safe waiting_safe rows free unfolding rows_ok_def no_violation_def by blast
qed

text \<open>A late statement in between is another matter: a revived row occupies the crawler, and the index refuses.\<close>

lemma reserve_refused:
  assumes "hasActiveRuntimeCrawl k s" and "i \<notin> cr_id ` set (cq_crawls s)"
  shows "fst (gate_reserve e i k a s) = Inl UniqueViolation"
proof -
  have "\<not> list_ex (\<lambda>x. cr_id x = i) (cq_crawls s)"
    using assms(2) by (auto simp: list_ex_iff)
  moreover have "\<not> index_ok (cq_crawls s @ [new_crawl e Starting i k a])"
    using assms(1) by (auto simp: index_ok_def busy_iff new_crawl_def occupies_def)
  ultimately show ?thesis
    by (simp add: gate_reserve_def in_tx_def and_then_def insert_crawl_def new_crawl_def)
qed

end
