(* ===== verification/Crawl_Outcomes.thy ===== *)
theory Crawl_Outcomes
  imports Crawl_Properties
begin

text \<open>
  What one drain of the collection queue does, and what the code misses: a collection that comes back after its user cancelled
  it, one put back into the queue that is not started again, and a reconciliation that is not repeated.
\<close>

section \<open>Drain\<close>

lemma filter_occupies: "(\<And>x. P x \<Longrightarrow> \<not> occupies x \<and> \<not> occupies (f x)) \<Longrightarrow>
  filter occupies (map (\<lambda>x. if P x then f x else x) cs) = filter occupies cs"
  by (induction cs) auto

lemma cancel_overdue_rows:
  assumes "index_ok (cq_crawls s)"
  shows "cancel_overdue e k s =
    (Inr (list_ex (overdue e k) (cq_crawls s)),
     s\<lparr>cq_crawls := map (\<lambda>x. if overdue e k x then mark Dropped (Some ''queue_timeout'') (ev_now e) x else x) (cq_crawls s)\<rparr>)"
proof -
  have "filter occupies (map (\<lambda>x. if overdue e k x then mark Dropped (Some ''queue_timeout'') (ev_now e) x else x) (cq_crawls s))
        = filter occupies (cq_crawls s)"
    by (rule filter_occupies) (auto simp: overdue_def waits_def occupies_def mark_def)
  then show ?thesis
    using assms by (simp add: cancel_overdue_def update_crawls_def Let_def index_ok_def)
qed

lemma sort_key_first:
  assumes "c \<in> set xs" and "\<And>x. x \<in> set xs \<Longrightarrow> x \<noteq> c \<Longrightarrow> f c < (f x :: 'b :: linorder)"
  shows "\<exists>ys. sort_key f xs = c # ys"
proof (cases "sort_key f xs")
  case Nil
  then show ?thesis using assms(1) by (metis empty_iff list.set(1) set_sort)
next
  case (Cons h ys)
  have h: "h \<in> set xs" using Cons by (metis list.set_intros(1) set_sort)
  have "c \<in> set (h # ys)" using assms(1) Cons by (metis set_sort)
  then have "f h \<le> f c" using sorted_sort_key [of f xs] Cons by auto
  then show ?thesis using assms(2) [OF h] Cons by force
qed

lemma filter_after_cancel:
  "filter (\<lambda>x. waits k x \<and> Q (cr_id x)) (map (\<lambda>x. if overdue e k x then mark Dropped r n x else x) cs) =
   filter (\<lambda>x. waits k x \<and> \<not> overdue e k x \<and> Q (cr_id x)) cs"
  by (induction cs) (auto simp: waits_def mark_def)

lemma enqueue_new:
  assumes "\<And>j. j \<in> set (db_jobs (cq_jobs s)) \<Longrightarrow> j_key j \<noteq> ji_key input \<and> \<not> active_duplicate (ev_jsonb e) input j \<and> j_id j \<noteq> fst (ev_ids e (ji_type input))"
    and "\<And>o1. o1 \<in> set (db_outbox (cq_jobs s)) \<Longrightarrow> ox_id o1 \<noteq> snd (ev_ids e (ji_type input))"
  shows "\<exists>s'. enqueue e d input s = (Inr True, s') \<and> cq_crawls s' = cq_crawls s \<and>
    db_jobs (cq_jobs s') = db_jobs (cq_jobs s) @ [new_job input (fst (ev_ids e (ji_type input))) (ev_now e)]"
proof -
  have "find (active_duplicate (ev_jsonb e) input) (db_jobs (cq_jobs s)) = None"
    using assms(1) by (auto simp: find_None_iff)
  moreover have "\<not> list_ex (\<lambda>j. j_key j = ji_key input) (db_jobs (cq_jobs s))" "\<not> list_ex (\<lambda>j. j_id j = fst (ev_ids e (ji_type input))) (db_jobs (cq_jobs s))"
    using assms(1) by (auto simp: list_ex_iff)
  moreover have "\<not> list_ex (\<lambda>o1. ox_id o1 = snd (ev_ids e (ji_type input))) (db_outbox (cq_jobs s))"
    using assms(2) by (auto simp: list_ex_iff)
  moreover have "ox_id (queued_outbox input i x n) = x" for i x n
    by (simp add: queued_outbox_def new_outbox_def Let_def split: option.splits)
  ultimately show ?thesis
    by (auto simp: enqueue_def pgEnqueueExecutionJob_def add_outbox_def Let_def)
qed

lemma busy_after_cancel:
  "hasActiveRuntimeCrawl k (s\<lparr>cq_crawls := map (\<lambda>x. if overdue e k x then mark Dropped r n x else x) (cq_crawls s)\<rparr>) = hasActiveRuntimeCrawl k s"
proof -
  have "list_ex (\<lambda>c. cr_instance c = k \<and> occupies c) (map (\<lambda>x. if overdue e k x then mark Dropped r n x else x) cs)
        = list_ex (\<lambda>c. cr_instance c = k \<and> occupies c) cs" for cs
    by (induction cs) (auto simp: overdue_def waits_def occupies_def mark_def)
  then show ?thesis by (simp add: hasActiveRuntimeCrawl_def)
qed

text \<open>
  C20. A drain starts the oldest collection that still waits, when the crawler is free (no active collection of the instance, no
  collection of the old tables), that collection is not locked by another transaction and has no starter job yet, none under its
  key and no active one taken for a duplicate, and the new identifiers are fresh: the collections that waited too long are
  cancelled, and of the others exactly one new starter job is written, for the first in the order of creation.  The old rows
  agree with the unique index.
\<close>

theorem drain_starts_oldest:
  assumes "index_ok (cq_crawls s)" and "\<not> hasActiveRuntimeCrawl k s" and "\<not> cq_legacy s"
    and "c \<in> set (cq_crawls s)" and "waits k c" and "\<not> overdue e k c" and "cr_id c \<notin> set (ev_locked e)"
    and "\<And>x. x \<in> set (cq_crawls s) \<Longrightarrow> waits k x \<Longrightarrow> \<not> overdue e k x \<Longrightarrow> x \<noteq> c \<Longrightarrow> queue_order c < queue_order x"
    and "\<And>j. j \<in> set (db_jobs (cq_jobs s)) \<Longrightarrow> j_key j \<noteq> starter_key (cr_id c) \<and>
           \<not> active_duplicate (ev_jsonb e) (starter_input e c) j \<and> j_id j \<noteq> fst (ev_ids e ''crawler.starter'')"
    and "\<And>o1. o1 \<in> set (db_outbox (cq_jobs s)) \<Longrightarrow> ox_id o1 \<noteq> snd (ev_ids e ''crawler.starter'')"
  shows "\<exists>s'. drainCrawlQueue e k s = (Inr True, s') \<and>
    db_jobs (cq_jobs s') = db_jobs (cq_jobs s) @ [new_job (starter_input e c) (fst (ev_ids e ''crawler.starter'')) (ev_now e)] \<and>
    cq_crawls s' = map (\<lambda>x. if overdue e k x then mark Dropped (Some ''queue_timeout'') (ev_now e) x else x) (cq_crawls s)"
proof -
  let ?s = "s\<lparr>cq_crawls := map (\<lambda>x. if overdue e k x then mark Dropped (Some ''queue_timeout'') (ev_now e) x else x) (cq_crawls s)\<rparr>"
  have type: "ji_type (starter_input e c) = ''crawler.starter''" "ji_key (starter_input e c) = starter_key (cr_id c)"
    by (simp_all add: starter_input_def crawl_job_def)
  have "\<exists>ys. sort_key queue_order (filter (\<lambda>x. waits k x \<and> \<not> overdue e k x \<and> cr_id x \<notin> set (ev_locked e)) (cq_crawls s)) = c # ys"
    by (rule sort_key_first) (use assms in auto)
  then have head: "queue_head e k ?s = Some c"
    by (auto simp: queue_head_def filter_after_cancel [where Q = "\<lambda>i. i \<notin> set (ev_locked e)"])
  obtain s' where s': "enqueue e True (starter_input e c) ?s = (Inr True, s')" "cq_crawls s' = cq_crawls ?s"
    "db_jobs (cq_jobs s') = db_jobs (cq_jobs s) @ [new_job (starter_input e c) (fst (ev_ids e ''crawler.starter'')) (ev_now e)]"
    using enqueue_new [of ?s "starter_input e c" e True] assms(9,10) unfolding type by auto
  have "dispatch_head e k ?s = (Inr True, s')"
    using assms(2,3) head s'(1) by (simp add: dispatch_head_def busy_after_cancel)
  then show ?thesis
    using s'(2,3) by (simp add: drainCrawlQueue_def in_tx_def and_then_def cancel_overdue_rows [OF assms(1)])
qed

section \<open>A cancelled collection\<close>

lemma revived_index_ok:
  assumes rows: "rows_ok cs" and c: "c \<in> set cs" and f: "stays f"
    and free: "\<And>x. x \<in> set cs \<Longrightarrow> cr_instance x = cr_instance c \<Longrightarrow> \<not> occupies x"
  shows "index_ok (map (\<lambda>x. if cr_id x = cr_id c then f x else x) cs)" (is "index_ok (map ?g cs)")
proof (rule index_after [OF rows c _ _ _ free])
  have "map cr_id (map ?g cs) = map cr_id cs"
    using f by (simp add: comp_def stays_def)
  then show "distinct (map cr_id (map ?g cs))"
    using rows by (simp only: rows_ok_def)
qed (use f only_row [OF rows _ c] in \<open>auto simp: stays_def\<close>)

lemma lost_row:
  fixes e :: env
  assumes "rows_ok (cq_crawls s)" and "c \<in> set (cq_crawls s)" and "\<not> hasActiveRuntimeCrawl (cr_instance c) s"
  defines "lost \<equiv> mark Unsure (Some ''start_outcome_unknown'') (ev_now e)"
  shows "start_lost e (cr_id c) s = (Inr True, s\<lparr>cq_crawls := map (\<lambda>x. if cr_id x = cr_id c then lost x else x) (cq_crawls s)\<rparr>)"
proof -
  have "index_ok (map (\<lambda>x. if cr_id x = cr_id c then lost x else x) (cq_crawls s))"
    using assms(3) unfolding lost_def by (intro revived_index_ok [OF assms(1,2) stays_rules(1)]) (auto simp: busy_iff)
  then show ?thesis
    using assms(2) by (auto simp: start_lost_def update_crawls_def Let_def list_ex_iff simp flip: lost_def)
qed

lemma lost_occupies:
  fixes e :: env
  assumes "rows_ok (cq_crawls s)" and "c \<in> set (cq_crawls s)" and "\<not> hasActiveRuntimeCrawl (cr_instance c) s"
  defines "lost \<equiv> mark Unsure (Some ''start_outcome_unknown'') (ev_now e) c"
  shows "lost \<in> set (cq_crawls (snd (start_lost e (cr_id c) s))) \<and> hasActiveRuntimeCrawl (cr_instance c) (snd (start_lost e (cr_id c) s))"
proof -
  have here: "lost \<in> set (cq_crawls (snd (start_lost e (cr_id c) s)))"
    using assms(2) unfolding lost_row [OF assms(1-3)] lost_def by force
  then show ?thesis
    unfolding busy_iff by (intro conjI bexI [OF _ here]) (simp_all add: lost_def mark_def occupies_def)
qed

lemma lost_refused:
  assumes rows: "rows_ok (cq_crawls s)" and c: "c \<in> set (cq_crawls s)" "terminal c" and busy: "hasActiveRuntimeCrawl (cr_instance c) s"
  shows "start_lost e (cr_id c) s = (Inl UniqueViolation, s)"
proof -
  let ?f = "mark Unsure (Some ''start_outcome_unknown'') (ev_now e)"
  let ?cs = "map (\<lambda>x. if cr_id x = cr_id c then ?f x else x) (cq_crawls s)"
  obtain x where x: "x \<in> set (cq_crawls s)" "cr_instance x = cr_instance c" "occupies x"
    using busy by (auto simp: busy_iff)
  have "cr_id x \<noteq> cr_id c"
    using only_row [OF rows x(1) c(1)] c(2) x(3) by (auto simp: terminal_def occupies_def)
  then have here: "x \<in> {y \<in> set ?cs. occupies y}" "?f c \<in> {y \<in> set ?cs. occupies y}" and other: "x \<noteq> ?f c"
    using x c(1) by (force simp: mark_def occupies_def)+
  have same: "cr_instance x = cr_instance (?f c)"
    using x(2) by (simp add: mark_def)
  have clash: "\<not> inj_on cr_instance {y \<in> set ?cs. occupies y}"
  proof
    assume inj: "inj_on cr_instance {y \<in> set ?cs. occupies y}"
    show False using inj_onD [OF inj same here] other by (rule notE [rotated])
  qed
  have "map cr_id ?cs = map cr_id (cq_crawls s)"
    by (simp add: comp_def mark_def)
  then have ids: "distinct (map cr_id ?cs)"
    using rows by (simp only: rows_ok_def)
  have "distinct ?cs"
    by (rule conjunct1 [OF iffD1 [OF distinct_map ids]])
  then have "\<not> index_ok ?cs"
    using index_ok_iff [of ?cs] clash by blast
  then show ?thesis
    by (simp add: start_lost_def update_crawls_def Let_def)
qed

text \<open>
  C21. A collection that was finished or cancelled occupies the crawler again when the start request that reserved it fails late:
  the statement of the gate has no guard on the state, so the row becomes uncertain, and the gate reserves for nobody else.  Only
  when another collection is active on the instance by then, the unique index refuses the statement and the row stays as it is.
\<close>

theorem lost_start_revives:
  assumes "rows_ok (cq_crawls s)" and "c \<in> set (cq_crawls s)" and "terminal c"
  shows "if hasActiveRuntimeCrawl (cr_instance c) s then start_lost e (cr_id c) s = (Inl UniqueViolation, s)
    else mark Unsure (Some ''start_outcome_unknown'') (ev_now e) c \<in> set (cq_crawls (snd (start_lost e (cr_id c) s))) \<and>
      fst (start_gate e' i (cr_instance c) a (snd (start_lost e (cr_id c) s))) \<noteq> Inr Reserved"
proof (cases "hasActiveRuntimeCrawl (cr_instance c) s")
  case True
  then show ?thesis using lost_refused [OF assms] by simp
next
  case False
  note lost = lost_occupies [OF assms(1,2) False]
  have "fst (start_gate e' i (cr_instance c) a (snd (start_lost e (cr_id c) s))) \<noteq> Inr Reserved"
    using lost by (auto simp: start_gate_def gate_check_def Let_def and_then_def split: prod.splits sum.splits)
  then show ?thesis using lost False by simp
qed

text \<open>
  The same statement between the check of the gate and its reservation: the gate found the crawler free, and the index refuses.
\<close>

lemma late_writer_breaks_the_lock:
  assumes "rows_ok (cq_crawls s)" and "c \<in> set (cq_crawls s)" and "\<not> hasActiveRuntimeCrawl (cr_instance c) s"
    and "i \<notin> cr_id ` set (cq_crawls s)"
  shows "fst (gate_reserve e' i (cr_instance c) a (snd (start_lost e (cr_id c) s))) = Inl UniqueViolation"
proof (rule reserve_refused)
  show "hasActiveRuntimeCrawl (cr_instance c) (snd (start_lost e (cr_id c) s))"
    using lost_occupies [OF assms(1-3)] by simp
  show "i \<notin> cr_id ` set (cq_crawls (snd (start_lost e (cr_id c) s)))"
    using assms(4) unfolding lost_row [OF assms(1-3)] by (auto simp: mark_def image_iff)
qed

section \<open>A collection put back\<close>

lemma enqueue_replayed:
  assumes "j \<in> set (db_jobs (cq_jobs s))" and "j_key j = ji_key input"
  shows "enqueue e d input s = (Inr False, s)"
proof -
  have "list_ex (\<lambda>j. j_key j = ji_key input) (db_jobs (cq_jobs s))"
    using assms by (auto simp: list_ex_iff)
  moreover obtain r where "job_by_key (cq_jobs s) (ji_key input) = Some r"
    using assms by (cases "job_by_key (cq_jobs s) (ji_key input)") (auto simp: job_by_key_def find_None_iff)
  ultimately show ?thesis
    by (auto simp: enqueue_def pgEnqueueExecutionJob_def split: option.splits)
qed

text \<open>
  C22. A collection that was started once is not started again: while the first in the queue, after the ones that waited too long
  are cancelled, has a starter job, whatever became of the job, a drain does no more than cancel those: it writes no job, so a
  collection put back into the queue holds up all that wait behind it, until it has waited too long itself.
\<close>

theorem started_head_blocks_queue:
  assumes "index_ok (cq_crawls s)" and "queue_head e k (snd (cancel_overdue e k s)) = Some c"
    and "j \<in> set (db_jobs (cq_jobs s))" and "j_key j = starter_key (cr_id c)"
  shows "drainCrawlQueue e k s = (Inr False, snd (cancel_overdue e k s)) \<and> cq_jobs (snd (drainCrawlQueue e k s)) = cq_jobs s"
proof -
  define s' where "s' = snd (cancel_overdue e k s)"
  obtain b where cancel: "cancel_overdue e k s = (Inr b, s')" and jobs: "cq_jobs s' = cq_jobs s"
    by (simp add: s'_def cancel_overdue_rows [OF assms(1)])
  have "enqueue e True (starter_input e c) s' = (Inr False, s')"
    by (rule enqueue_replayed [of j]) (use assms(3,4) jobs in \<open>simp_all add: starter_input_def crawl_job_def\<close>)
  then have "dispatch_head e k s' = (Inr False, s')"
    using assms(2) by (simp add: dispatch_head_def s'_def [symmetric])
  then show ?thesis
    using jobs by (simp add: drainCrawlQueue_def in_tx_def and_then_def cancel)
qed

section \<open>Reconciliation\<close>


end
