(* ===== verification/Crawl_Samples.thy ===== *)
theory Crawl_Samples
  imports Crawl_Outcomes
begin

text \<open>
  One run of the collection queue, evaluated: a collection is started, its receipt never comes, its user cancels it, and then its
  start request fails; another one is queued, started by the drain, and put back by the sweep.  The states of the run are
  where the theorems on the queue apply.
\<close>

section \<open>Cancelled, then lost\<close>

definition first_row :: crawl where
  "first_row = new_crawl (crawl_env 0) Starting ''a'' ''k'' ''u''"

definition unsure_db :: crawl_db where
  "unsure_db = snd (monitor_no_task (crawl_env 65) first_row 12 started)"

definition cancelled_db :: crawl_db where
  "cancelled_db = snd (dequeue (crawl_env 70) ''a'' ''u'' unsure_db)"

definition cancelled_row :: crawl where
  "cancelled_row = mark Dropped (Some ''uncertain_cancelled_by_user'') 70 first_row"


lemma cancelled_rows: "cq_crawls cancelled_db = [cancelled_row]"
  by code_simp

section \<open>Reconciliation\<close>



section \<open>Started, then put back\<close>

definition second_row :: crawl where
  "second_row = new_crawl (crawl_env 0) Waiting ''b'' ''k'' ''u''"

definition queued_db :: crawl_db where
  "queued_db = snd (enqueueSystemCrawl (crawl_env 0) ''b'' ''k'' ''u'' no_crawls)"

definition finished_starter :: "crawl_db \<Rightarrow> job_db" where
  "finished_starter s =
     (let i = fst (ev_ids (crawl_env 0) ''crawler.starter'') in
      snd (pgCompleteExecutionJob i ''{}'' 2000 None (snd (pgClaimExecutionJobById i ''worker'' None 1000 (cq_jobs s)))))"

definition put_back_db :: crawl_db where
  "put_back_db =
     (let s = snd (adopt (crawl_env 1000) second_row queued_db) in
      snd (sweep_rows (crawl_env 3600000) ''k'' (s\<lparr>cq_jobs := finished_starter s\<rparr>)))"

lemma queued_rows: "cq_crawls queued_db = [second_row]"
  by code_simp

lemma put_back_rows: "cq_crawls put_back_db = [mark Waiting (Some ''starter_stalled'') 3600000 (mark Starting None 1000 second_row)]"
  by code_simp

lemma put_back_job:
  "list_ex (\<lambda>j. j_key j = starter_key ''b'' \<and> j_status j = Succeeded) (db_jobs (cq_jobs put_back_db))"
  by code_simp

section \<open>Where the theorems apply\<close>

lemma finished_collections_final_witness:
  "cancelled_row \<in> set (cq_crawls (snd (start_gate (crawl_env 80) ''b'' ''k'' ''u'' cancelled_db)))"
  by (rule finished_collections_final [OF gates_run(1)]) (simp_all add: cancelled_rows terminal_def cancelled_row_def mark_def)

text \<open>A second collection waits; the first is lost and cancelled, and while the second is adopted another instance starts one.\<close>

definition two_db :: crawl_db where
  "two_db = snd (insert_waiting (crawl_env 0) ''b'' ''k'' ''u'' started)"

definition freed_db :: crawl_db where
  "freed_db = snd (dequeue_write (crawl_env 4) ''a'' ''u'' (snd (start_lost (crawl_env 3) ''a'' two_db)))"

lemma two_rows: "cq_crawls two_db = [first_row, second_row]"
  by code_simp

lemma freed: "\<not> hasActiveRuntimeCrawl ''k'' freed_db"
  by code_simp

lemma two_reached: "(sup crawl_step late_step)\<^sup>*\<^sup>* no_crawls two_db"
proof -
  have "(sup crawl_step late_step) started two_db"
    by (simp add: two_db_def crawl_step.Queue)
  moreover have "(sup crawl_step late_step)\<^sup>*\<^sup>* no_crawls started"
    using mono_rtranclp [of crawl_step "sup crawl_step late_step"] gates_run(1) by (auto simp: started_def)
  ultimately show ?thesis by (rule rtranclp.rtrancl_into_rtrancl [rotated])
qed

lemma freed_reached: "(sup crawl_step late_step)\<^sup>*\<^sup>* two_db freed_db"
proof -
  have "(sup crawl_step late_step) two_db (snd (start_lost (crawl_env 3) ''a'' two_db))"
    by (simp add: late_step.Lost)
  moreover have "(sup crawl_step late_step) (snd (start_lost (crawl_env 3) ''a'' two_db)) freed_db"
    by (simp add: freed_db_def crawl_step.Free free_step.Dequeue)
  ultimately show ?thesis by (rule converse_rtranclp_into_rtranclp [OF _ r_into_rtranclp])
qed

lemma lock_serves_the_index_witness:
  "fst (adopt_write (crawl_env 5) second_row (snd (gate_reserve (crawl_env 5) ''c'' ''other'' ''v'' freed_db))) \<noteq> Inl UniqueViolation"
proof -
  have "(others_step ''k'')\<^sup>*\<^sup>* freed_db (snd (gate_reserve (crawl_env 5) ''c'' ''other'' ''v'' freed_db))"
    by (rule r_into_rtranclp, rule others_step.Others_Reserve) simp
  from lock_serves_the_index [OF two_reached freed_reached freed this] show ?thesis
    by (simp add: two_rows second_row_def new_crawl_def)
qed

lemma drain_starts_oldest_witness:
  "\<exists>s'. drainCrawlQueue (crawl_env 5) ''k'' (no_crawls\<lparr>cq_crawls := [second_row]\<rparr>) = (Inr True, s') \<and>
    db_jobs (cq_jobs s') = [new_job (starter_input (crawl_env 5) second_row) ''crawler.starter'' 5] \<and> cq_crawls s' = [second_row]"
proof -
  have "\<not> overdue (crawl_env 5) ''k'' second_row" by (simp add: overdue_def second_row_def new_crawl_def crawl_env_def default_config_def)
  then show ?thesis
    using drain_starts_oldest [of "no_crawls\<lparr>cq_crawls := [second_row]\<rparr>" "''k''" second_row "crawl_env 5"]
    by (simp add: no_crawls_def index_ok_def hasActiveRuntimeCrawl_def waits_def second_row_def new_crawl_def occupies_def crawl_env_def)
qed

lemma lost_start_revives_witness:
  "mark Unsure (Some ''start_outcome_unknown'') 90 cancelled_row \<in> set (cq_crawls (snd (start_lost (crawl_env 90) ''a'' cancelled_db))) \<and>
   fst (start_gate (crawl_env 95) ''b'' ''k'' ''v'' (snd (start_lost (crawl_env 90) ''a'' cancelled_db))) \<noteq> Inr Reserved"
proof -
  have row: "cr_id cancelled_row = ''a''" "cr_instance cancelled_row = ''k''" "cr_state cancelled_row = Dropped"
    by (simp_all add: cancelled_row_def mark_def first_row_def new_crawl_def)
  show ?thesis
    using lost_start_revives [of cancelled_db cancelled_row "crawl_env 90" "crawl_env 95" "''b''" "''v''"]
    by (simp add: cancelled_rows rows_ok_def index_ok_def terminal_def hasActiveRuntimeCrawl_def occupies_def row crawl_env_def)
qed

text \<open>At that time another collection has waited for more than a day; the drain cancels it, and starts nothing.\<close>

definition late_row :: crawl where
  "late_row = new_crawl (crawl_env (- 100000000)) Waiting ''z'' ''k'' ''u''"

definition blocked_db :: crawl_db where
  "blocked_db = put_back_db\<lparr>cq_crawls := late_row # cq_crawls put_back_db\<rparr>"

definition put_back_row :: crawl where
  "put_back_row = mark Waiting (Some ''starter_stalled'') 3600000 (mark Starting None 1000 second_row)"

lemma blocked_head: "queue_head (crawl_env 3600001) ''k'' (snd (cancel_overdue (crawl_env 3600001) ''k'' blocked_db)) = Some put_back_row"
  by (simp add: cancel_overdue_def update_crawls_def Let_def queue_head_def blocked_db_def put_back_rows put_back_row_def index_ok_def
      occupies_def overdue_def waits_def late_row_def mark_def second_row_def new_crawl_def crawl_env_def default_config_def)

lemma started_head_blocks_queue_witness:
  "drainCrawlQueue (crawl_env 3600001) ''k'' blocked_db = (Inr False, snd (cancel_overdue (crawl_env 3600001) ''k'' blocked_db)) \<and>
   cq_jobs (snd (drainCrawlQueue (crawl_env 3600001) ''k'' blocked_db)) = cq_jobs blocked_db"
proof -
  obtain j where j: "j \<in> set (db_jobs (cq_jobs blocked_db))" "j_key j = starter_key ''b''"
    using put_back_job by (auto simp: list_ex_iff blocked_db_def)
  show ?thesis
    by (rule started_head_blocks_queue [OF _ blocked_head j(1)])
       (simp_all add: j(2) blocked_db_def put_back_rows index_ok_def occupies_def late_row_def put_back_row_def mark_def second_row_def
         new_crawl_def crawl_env_def)
qed


end
