(* ===== verification/Spec2Isabelle.thy ===== *)
theory Spec2Isabelle
  imports Stages Stage_Graph Run_Control Job_Properties Outbox_Properties Job_Writers Dispatcher
    Review_Numeric Review_Conditions Review_Definition Review_Engine Review_Deadlines
    Ticket_Properties Ticket_Types Cron_Properties Approval_Runs Approval_Cited Crawl_Samples
begin

text \<open>
  \<^bold>\<open>A verification development of the KOL workbench.\<close>

  The repository is a TypeScript workbench for collaborations with content creators: a Node backend
  (\<open>backend/src\<close>), contract types shared with the browser (\<open>shared\<close>) and a React frontend.
  Agents and people work on \<^emph>\<open>collaborations\<close>, which move through a pipeline of stages, and on
  \<^emph>\<open>tickets\<close>; slow work runs as durable \<^emph>\<open>execution jobs\<close>; matters that need a decision run as
  \<^emph>\<open>reviews\<close>, and expenses, stage changes and releases as \<^emph>\<open>approvals\<close> along a chain of people.  This development models the parts that carry these decisions and proves what the
  rest of the program relies on.

  \<^bold>\<open>Conventions.\<close>  A pure function of the source is a HOL function of the same name.  A PostgreSQL
  transaction is a function from the input and the tables to an error or an answer with the new
  tables; what it draws (identifiers, the clock) and what other transactions hold locked are
  arguments.  Errors are values of a datatype per component.  JavaScript strings are \<open>string\<close>
  (UTF-16 code units below 256); Chinese text that the code compares is a list of code units;
  instants are milliseconds; JSON values are \<open>js\<close>, their numbers rationals; where the code computes with
  numbers they are \<open>js_number\<close>, doubles.  Bodies of third parties
  (the broker, executors, the organization context, equality of \<open>jsonb\<close>) are arguments.

  \<^bold>\<open>Theories.\<close>
  \<^item> \<open>Prelude\<close>: JavaScript values and list operations, runs of a command handler.
  \<^item> \<open>Machines\<close>: the contracts components provide, as locales: an invariant every command keeps
    (\<open>guarded_machine\<close>), a version that never falls (\<open>versioned_machine\<close>), facts that stay recorded
    (\<open>ledger_machine\<close>), commands answered once per key (\<open>idempotent_machine\<close>), queues
    (\<open>session_queue\<close>).  Each component interprets the contracts it provides on its model.
  \<^item> \<open>Stages\<close> (\<open>stages.ts\<close>): stage table, merging of remote stages, confirmation targets, automatic
    targets, the walk of the Starry adapter, the evidence pointer and the checklist.
  \<^item> \<open>Stage_Graph\<close> (\<open>stage-transitions-graph.ts\<close>, \<open>config/stage-transitions.json\<close>): the product graph,
    its gate, and the agreement of the gate with the stage table.
  \<^item> \<open>Run_Control\<close> (\<open>host/run-control.ts\<close> and its uses in \<open>host/api.ts\<close>): which sessions run, are
    stopped or queued.
  \<^item> \<open>Jobs\<close>, \<open>Job_Lemmas\<close>, \<open>Job_Properties\<close>, \<open>Outbox_Properties\<close> (\<open>execution-jobs/postgres-store.ts\<close>,
    \<open>queue/outbox-publisher.ts\<close>, \<open>routers/operation-jobs.ts\<close>): the job and outbox tables; the moves
    a row can make (\<open>job_moves\<close>), the invariant \<open>db_ok\<close>, idempotence, recovery, delivery, over the commands of the
    store.  \<open>Job_Writers\<close> adds the other writers of \<open>execution_jobs\<close> (\<open>knowledge/publication.ts\<close>, \<open>mail/sync-job.ts\<close>,
    the dispatch of cron runs and two triggers of the migrations), with fencing, single execution and idempotence
    whoever writes, and the retry of a publication, which starts the attempts of its job over.
  \<^item> \<open>Dispatcher\<close> (\<open>execution-jobs/dispatcher.ts\<close>): a claimed job through its executor, whose result
    is an argument, to the terminal command.
  \<^item> \<open>Review_Numeric\<close>, \<open>Review_Conditions\<close>, \<open>Review_Definition\<close>, \<open>Review_Engine\<close> (\<open>approval/review-*.ts\<close>,
    \<open>shared/review.ts\<close>): decimal values, branch conditions, validation of a review definition, and the
    engine that advances and decides a review.  \<open>Review_Graph\<close>, \<open>Review_Advance\<close>: what the validator
    establishes about the graph of a definition, and that advancing on it ends.
  \<^item> \<open>Review_Service\<close>, \<open>Review_Store\<close>, \<open>Review_Execute\<close> (\<open>approval/review-postgres-service.ts\<close>): the commands of
    a review, the tables, \<open>check\<close>, \<open>prepare\<close> and \<open>execute\<close> with confirmations and idempotency keys;
    \<open>Review_Timeout\<close> (\<open>review-postgres-worker.ts\<close>): the job of a deadline.  \<open>Review_Soundness\<close> and
    \<open>Review_Properties\<close> show that every offered command keeps the invariant \<open>review_ok\<close> of an instance,
    \<open>Review_Database\<close>, \<open>Review_Transactions\<close> and \<open>Review_Outcomes\<close> that every transaction keeps \<open>db_ok\<close> of the
    tables; \<open>Review_Machine\<close> interprets the contracts of \<open>Machines\<close>; \<open>Review_Guarantees\<close> and
    \<open>Review_Deadlines\<close> state the results over all reachable states, \<open>Review_Example\<close> is the run they are applied to.
  \<^item> \<open>Ticket_Lifecycle\<close>, \<open>Ticket_Properties\<close> (\<open>ticket-lifecycle.ts\<close>, \<open>ticket-lifecycle-contract.ts\<close>): formal
    transitions of a ticket over six tables, interleaved with any other writer that keeps the acceptances and their
    history (\<open>ticket_run\<close>); \<open>Ticket_Types\<close> (\<open>tickets.ts\<close>): classification.
  \<^item> \<open>Civil_Time\<close>, \<open>Cron_Schedule\<close> (\<open>cron/schedule.ts\<close>): the calendar of \<open>Date\<close>, cron expressions, the next
    run, the schedule window.  \<open>Cron_Store\<close> (\<open>cron/postgres-store.ts\<close>) and \<open>Cron_Worker\<close> (\<open>cron/worker.ts\<close>):
    cron jobs and runs beside the execution jobs, the tick and the worker.  \<open>Cron_Properties\<close>: every
    command, those of the job store included, moves the tables along \<open>cron_grows\<close> and keeps \<open>cron_ok\<close>.
  \<^item> \<open>Js_Number\<close>: the numbers of JavaScript, IEEE 754 doubles with rounding to even, as rationals; \<open>Org_Chart\<close>
    (\<open>approval/org.ts\<close>, \<open>snapshot.ts\<close>): people, units and the chain of managers; \<open>Approval_Plan\<close> (\<open>policy.ts\<close>,
    \<open>plan.ts\<close>): from the amount of an expense to the people who approve it; \<open>Approval_Rules\<close> and \<open>Approval_Sample\<close>:
    bands without a gap, who is on a plan, totality, and a plan of the built-in organisation; \<open>Approval_Cited\<close>:
    the plan taken from an agent's citations.
  \<^item> \<open>Approval_Inbox\<close> (\<open>approval/inbox.ts\<close>, \<open>queue.ts\<close>): an approval, who decides and who sees it; \<open>Approval_Gateway\<close>
    (\<open>gateway/wecom.ts\<close>), \<open>Approval_Routes\<close> (\<open>routers/approvals.ts\<close>) and \<open>Owner_Assignment\<close>: the operations on it.
    \<open>Approval_Machine\<close> interleaves the parts of concurrent requests (\<open>gw_step\<close>), with the contract of versioned rows
    (\<open>optimistic_store\<close>) and an invariant; \<open>Approval_Claims\<close> states what holds in every reachable state,
    \<open>Approval_Runs\<close> the concrete runs.
  \<^item> \<open>Crawl_Queue\<close>, \<open>Crawl_Handlers\<close> (\<open>crawl/runtime-gates.ts\<close>, \<open>runtime/action-operations.ts\<close>): the queue of remote
    collections and the job handlers that move a collection along, over the job store of \<open>Jobs\<close>, put together from their
    statements and transactions.  \<open>Crawl_Steps\<close>: runs of these, one by one (\<open>crawl_step\<close>), of the two statements without a
    guard (\<open>late_step\<close>) and of what can come in between while the lock of an instance is held (\<open>others_step\<close>); which
    relations of states they keep, as locales; and that a handler with nothing in between is such a run.
    \<open>Crawl_Properties\<close>: what holds along every run and under the lock; \<open>Crawl_Outcomes\<close>: what a drain does, and a
    cancelled collection, one put back into the queue and an uncertain one; \<open>Crawl_Samples\<close>: the run the results are applied to.

  \<^bold>\<open>Bounds and fuel.\<close>  The loop of \<open>advanceReview\<close> is bounded in the code by the number of nodes plus
  one; the model counts down from the same number, and running out is the error the code throws.
  The search of \<open>nextRunAt\<close> has the bound of the code, 366 days of minutes.  The
  chain of managers is cut off after 31 levels, as in the code, and \<open>chain_from\<close> terminates by that counter.
  The depth-first walks of the validator terminate because each call adds a node to the visited set;
  they are functions with that measure, no fuel.

  \<^bold>\<open>Not modelled.\<close>  HTTP glue, SQL reads that only list rows, JSON projections, connections and
  polling loops, personal drafts and business sources of reviews, mail, calls of the crawler and reading its results, prompt assembly, calls of remote services and the React
  frontend: they carry no decision that is not in a modelled function, or they are I/O.  Of the approvals: the
  reading of amounts out of free text, notices, display labels and the flow engine, which nothing calls.
\<close>

end
